(* ===== verification/Inroad_Prelude.thy ===== *)
theory Inroad_Prelude
  imports Main
begin

text \<open>
  Shared vocabulary of the development: Go's machine integers and its \<open>time.Time\<close> /
  \<open>time.Duration\<close> values, the collections of facts the component theories extend, and the
  generic list and option lemmas they share.

  An instant (\<open>time.Time\<close>) is the number of nanoseconds since Go's zero time
  (January 1, year 1, 00:00 UTC), so \<open>IsZero\<close> is comparison with \<open>0\<close>; monotonic clock readings
  are not part of it. A duration (\<open>time.Duration\<close>) is a count of nanoseconds. Both are kept as
  integers; the one operation of the standard library whose 64-bit range shows,
  \<open>Time.Sub\<close>, saturates and is written out below.
\<close>

named_theorems const_defs \<open>definitions of the string and number constants of the source\<close>
named_theorems step_simps \<open>unfolding rules for the operations of the state machines\<close>

subsection \<open>Machine integers\<close>

definition wrap32 :: "int \<Rightarrow> int" where
  "wrap32 x = (x + 2147483648) mod 4294967296 - 2147483648"

definition int32 :: "int \<Rightarrow> bool" where
  "int32 x \<longleftrightarrow> -2147483648 \<le> x \<and> x < 2147483648"

lemma wrap32_range [simp]: "int32 (wrap32 x)"
  by (auto simp: wrap32_def int32_def)

lemma wrap32_id [simp]: "int32 x \<Longrightarrow> wrap32 x = x"
  by (auto simp: wrap32_def int32_def)

lemma wrap32_max: "wrap32 2147483648 = -2147483648"
  by (simp add: wrap32_def)

text \<open>Go's integer division truncates towards zero; \<open>mod\<close> has the sign of the dividend.\<close>

definition quot :: "int \<Rightarrow> int \<Rightarrow> int" where
  "quot a b = sgn a * sgn b * (\<bar>a\<bar> div \<bar>b\<bar>)"

lemma quot_nonneg [simp]: "0 \<le> a \<Longrightarrow> 0 < b \<Longrightarrow> quot a b = a div b"
  by (cases "a = 0") (simp_all add: quot_def)

subsection \<open>Instants and durations\<close>

type_synonym instant = int
type_synonym duration = int

definition nanosecond :: duration where [const_defs]: "nanosecond = 1"
definition second :: duration where [const_defs]: "second = 1000000000"
definition minute :: duration where [const_defs]: "minute = 60000000000"
definition hour :: duration where [const_defs]: "hour = 3600000000000"

lemma units_pos [simp]: "0 < second" "0 < minute" "0 < hour"
    "second \<noteq> 0" "minute \<noteq> 0" "hour \<noteq> 0"
  by (simp_all add: const_defs)

definition is_zero_time :: "instant \<Rightarrow> bool" where
  [simp]: "is_zero_time t \<longleftrightarrow> t = 0"

text \<open>\<open>t.Sub(u)\<close>: the difference, clamped to the range of a 64-bit count.\<close>

definition time_sub :: "instant \<Rightarrow> instant \<Rightarrow> duration" where
  "time_sub t u = max (-9223372036854775808) (min 9223372036854775807 (t - u))"

lemma time_sub_less_iff:
  "-9223372036854775808 < d \<Longrightarrow> d \<le> 9223372036854775807 \<Longrightarrow> time_sub t u < d \<longleftrightarrow> t - u < d"
  by (auto simp: time_sub_def)

lemma time_sub_mono: "t \<le> t' \<Longrightarrow> time_sub t u \<le> time_sub t' u"
  by (auto simp: time_sub_def)

subsection \<open>Lists\<close>

text \<open>The first error a check raises over a list, as a loop with an early return finds it.\<close>

fun first_error :: "('a \<Rightarrow> 'e option) \<Rightarrow> 'a list \<Rightarrow> 'e option" where
  "first_error f [] = None"
| "first_error f (x # xs) = (case f x of Some e \<Rightarrow> Some e | None \<Rightarrow> first_error f xs)"

lemma first_error_None_iff: "first_error f xs = None \<longleftrightarrow> (\<forall>x \<in> set xs. f x = None)"
  by (induction xs) (auto split: option.splits)

lemma first_error_SomeD:
  "first_error f xs = Some e \<Longrightarrow> \<exists>x \<in> set xs. f x = Some e"
  by (induction xs) (auto split: option.splits)

lemma find_Some_mem: "find P xs = Some x \<Longrightarrow> x \<in> set xs \<and> P x"
  by (induction xs) (auto split: if_splits)

lemma find_sorted_first:
  assumes "sorted (map f xs)" and "find (\<lambda>x. k \<le> f x) xs = Some y" and "z \<in> set xs" and "k \<le> f z"
  shows "f y \<le> f z"
  using assms
proof (induction xs)
  case Nil
  then show ?case by simp
next
  case (Cons x xs)
  then show ?case by (auto split: if_splits)
qed

lemma fold_max_ge: "x \<le> t \<or> x \<in> set ts \<Longrightarrow> x \<le> fold max ts (t :: int)"
  by (induction ts arbitrary: t) fastforce+

text \<open>The first result of a loop that returns from inside its body.\<close>

fun first_some :: "('a \<Rightarrow> 'b option) \<Rightarrow> 'a list \<Rightarrow> 'b option" where
  "first_some f [] = None"
| "first_some f (x # xs) = (case f x of Some y \<Rightarrow> Some y | None \<Rightarrow> first_some f xs)"

lemma first_some_SomeD:
  "first_some f xs = Some y \<Longrightarrow>
     \<exists>us x vs. xs = us @ x # vs \<and> f x = Some y \<and> (\<forall>u \<in> set us. f u = None)"
proof (induction xs)
  case Nil
  then show ?case by simp
next
  case (Cons a xs)
  show ?case
  proof (cases "f a")
    case None
    with Cons obtain us x vs where "xs = us @ x # vs" "f x = Some y" "\<forall>u \<in> set us. f u = None"
      by auto
    with None show ?thesis by (intro exI [of _ "a # us"] exI [of _ x] exI [of _ vs]) simp
  next
    case (Some z)
    with Cons.prems show ?thesis by (intro exI [of _ "[]"]) simp
  qed
qed

lemma first_some_None_iff: "first_some f xs = None \<longleftrightarrow> (\<forall>x \<in> set xs. f x = None)"
  by (induction xs) (auto split: option.splits)

subsection \<open>Strings and digests\<close>

text \<open>\<open>strconv.Itoa\<close>: decimal digits, with a sign for a negative number.\<close>

fun nat_digits :: "nat \<Rightarrow> string" where
  "nat_digits n = (if n < 10 then [char_of (48 + n)] else nat_digits (n div 10) @ [char_of (48 + n mod 10)])"

declare nat_digits.simps [simp del]

definition Itoa :: "int \<Rightarrow> string" where
  "Itoa i = (if i < 0 then CHR ''-'' # nat_digits (nat (- i)) else nat_digits (nat i))"

text \<open>\<open>binary.BigEndian.Uint64\<close> of the first eight bytes.\<close>

definition big_endian64 :: "string \<Rightarrow> nat" where
  "big_endian64 bytes = foldl (\<lambda>acc c. acc * 256 + of_char c) 0 (take 8 bytes)"

lemma foldl_bytes_less: "a < 256 ^ k \<Longrightarrow> foldl (\<lambda>acc c. acc * 256 + of_char c) a cs < 256 ^ (k + length cs)"
  for a :: nat
proof (induction cs arbitrary: a k)
  case Nil
  then show ?case by simp
next
  case (Cons c cs)
  have "a * 256 + of_char c < 256 ^ Suc k"
    using Cons.prems nat_of_char_less_256 [of c] unfolding power_Suc by linarith
  from Cons.IH [OF this] show ?case by simp
qed

lemma big_endian64_less: "big_endian64 bytes < 2 ^ 64"
proof -
  have "big_endian64 bytes < 256 ^ length (take 8 bytes)"
    unfolding big_endian64_def using foldl_bytes_less [of 0 0 "take 8 bytes"] by simp
  also have "\<dots> \<le> 256 ^ 8" by (intro power_increasing) auto
  finally show ?thesis by simp
qed

end
