(* ===== verification/Sequence_Graph.thy ===== *)
theory Sequence_Graph
  imports Inroad_Prelude "HOL-Library.Word"
begin

text \<open>
  The routing model of a branched campaign sequence
  (\<open>internal/platform/seqgraph/seqgraph.go\<close>): conditions, steps, branches, the graph built
  from them, its validation up to the cycle search (which is in \<open>Graph_Cycle\<close>), the plan out of
  a step and the verdict of a condition.

  Ids are 128-bit words with \<open>uuid.Nil\<close> as \<open>0\<close>. A \<open>Condition\<close> is a string, as in the source, so
  an unknown one is representable. Go maps are association lists, the newest binding first, read
  with \<open>map_of\<close>. A \<open>ShapeError\<close> keeps its code; the English message next to it is left out.
  \<open>slices.SortFunc\<close> is the library's stable sort: the two agree whenever the step orders are
  distinct, and Go leaves the order of equal elements open.
\<close>

type_synonym uuid = "128 word"
type_synonym condition = string

definition uuid_Nil :: uuid where "uuid_Nil = 0"

subsection \<open>Conditions\<close>

definition Always :: condition where [const_defs]: "Always = ''always''"
definition Opened :: condition where [const_defs]: "Opened = ''opened''"
definition Clicked :: condition where [const_defs]: "Clicked = ''clicked''"
definition Replied :: condition where [const_defs]: "Replied = ''replied''"
definition NotOpened :: condition where [const_defs]: "NotOpened = ''not_opened''"
definition NotReplied :: condition where [const_defs]: "NotReplied = ''not_replied''"

lemma condition_distinct:
  "distinct [Always, Opened, Clicked, Replied, NotOpened, NotReplied]"
  "distinct [NotReplied, NotOpened, Replied, Clicked, Opened, Always]"
  by (simp_all add: const_defs)

lemmas condition_neq [simp] = condition_distinct [simplified]

definition ParseCondition :: "string \<Rightarrow> condition option" where
  "ParseCondition s =
     (if s \<in> {Always, Opened, Clicked, Replied, NotOpened, NotReplied} then Some s else None)"

datatype signal = SignalNone | SignalOpen | SignalClick | SignalReply

definition Signal :: "condition \<Rightarrow> signal" where
  "Signal c =
     (if c = Opened \<or> c = NotOpened then SignalOpen
      else if c = Clicked then SignalClick
      else if c = Replied \<or> c = NotReplied then SignalReply
      else SignalNone)"

definition negated :: "condition \<Rightarrow> bool" where
  "negated c \<longleftrightarrow> c = NotOpened \<or> c = NotReplied"

definition MinWithinDays :: int where "MinWithinDays = 1"
definition MaxWithinDays :: int where "MaxWithinDays = 90"

subsection \<open>Steps and branches\<close>

record gstep =
  step_id :: uuid
  step_order :: int
  delay_seconds :: int

record branch =
  br_step :: uuid
  br_condition :: condition
  within_days :: int
  reply_label_key :: string
  br_yes :: uuid
  br_no :: uuid

record verdict =
  decided :: bool
  v_yes :: bool
  v_at :: instant

definition branch_window :: "branch \<Rightarrow> duration" where
  "branch_window b = within_days b * 24 * hour"

definition branch_target :: "branch \<Rightarrow> verdict \<Rightarrow> uuid" where
  "branch_target b v = (if v_yes v then br_yes b else br_no b)"

definition branch_exits :: "branch \<Rightarrow> uuid list" where
  "branch_exits b = filter (\<lambda>i. i \<noteq> uuid_Nil) [br_yes b, br_no b]"

subsection \<open>Validation of one branch\<close>

definition CodeInvalidCondition :: string where "CodeInvalidCondition = ''invalid_condition''"
definition CodeInvalidWithinDays :: string where "CodeInvalidWithinDays = ''invalid_within_days''"
definition CodeLabelNotAllowed :: string where "CodeLabelNotAllowed = ''invalid_reply_label''"
definition CodeLabelStopsSequence :: string where "CodeLabelStopsSequence = ''reply_label_stops_sequence''"
definition CodeTrackingRequired :: string where "CodeTrackingRequired = ''tracking_required''"
definition CodeNoExitNotAllowed :: string where "CodeNoExitNotAllowed = ''no_exit_not_allowed''"
definition CodeUnknownStep :: string where "CodeUnknownStep = ''unknown_step''"
definition CodeUnknownTarget :: string where "CodeUnknownTarget = ''unknown_target''"
definition CodeCycle :: string where "CodeCycle = ''cycle''"

datatype graph_error =
    ShapeError string
  | TargetError uuid uuid
  | UnknownStepError uuid
  | CycleError "uuid list"

fun CodeOf :: "graph_error \<Rightarrow> string" where
  "CodeOf (ShapeError code) = code"
| "CodeOf (TargetError _ _) = CodeUnknownTarget"
| "CodeOf (UnknownStepError _) = CodeUnknownStep"
| "CodeOf (CycleError _) = CodeCycle"

text \<open>The regular expression \<open>^[a-z][a-z0-9_]{0,63}$\<close> of \<open>labelKeyPattern\<close>.\<close>

definition lower_letter :: "char \<Rightarrow> bool" where
  "lower_letter c \<longleftrightarrow> of_char c \<in> {97..(122::nat)}"

definition label_char :: "char \<Rightarrow> bool" where
  "label_char c \<longleftrightarrow> lower_letter c \<or> of_char c \<in> {48..(57::nat)} \<or> c = CHR ''_''"

fun labelKeyPattern :: "string \<Rightarrow> bool" where
  "labelKeyPattern [] = False"
| "labelKeyPattern (c # cs) = (lower_letter c \<and> length cs \<le> 63 \<and> list_all label_char cs)"

definition ValidateShape :: "branch \<Rightarrow> graph_error option" where
  "ValidateShape b =
     (if ParseCondition (br_condition b) = None then Some (ShapeError CodeInvalidCondition)
      else if br_condition b = Always \<and> within_days b \<noteq> 0 then
        Some (ShapeError CodeInvalidWithinDays)
      else if br_condition b = Always \<and> br_no b \<noteq> uuid_Nil then
        Some (ShapeError CodeNoExitNotAllowed)
      else if br_condition b \<noteq> Always
           \<and> (within_days b < MinWithinDays \<or> within_days b > MaxWithinDays) then
        Some (ShapeError CodeInvalidWithinDays)
      else if reply_label_key b \<noteq> [] \<and> Signal (br_condition b) \<noteq> SignalReply then
        Some (ShapeError CodeLabelNotAllowed)
      else if reply_label_key b \<noteq> [] \<and> \<not> labelKeyPattern (reply_label_key b) then
        Some (ShapeError CodeLabelNotAllowed)
      else if br_yes b = br_step b \<or> br_no b = br_step b then
        Some (CycleError [br_step b])
      else None)"

subsection \<open>The graph\<close>

record graph =
  ordered :: "gstep list"
  by_id :: "(uuid \<times> gstep) list"
  branches :: "(uuid \<times> branch) list"
  branch_order :: "uuid list"

definition add_branch :: "branch \<Rightarrow> graph \<Rightarrow> graph" where
  "add_branch b g =
     g\<lparr>branch_order := (if map_of (branches g) (br_step b) = None
                       then branch_order g @ [br_step b] else branch_order g),
       branches := (br_step b, b) # branches g\<rparr>"

definition New :: "gstep list \<Rightarrow> branch list \<Rightarrow> graph" where
  "New steps bs =
     (let sorted_steps = sort_key step_order steps
      in fold add_branch bs
           \<lparr>ordered = sorted_steps,
            by_id = rev (map (\<lambda>s. (step_id s, s)) sorted_steps),
            branches = [], branch_order = []\<rparr>)"

definition HasBranches :: "graph \<Rightarrow> bool" where
  "HasBranches g \<longleftrightarrow> branches g \<noteq> []"

definition Entry :: "graph \<Rightarrow> gstep option" where
  "Entry g = (case ordered g of [] \<Rightarrow> None | s # _ \<Rightarrow> Some s)"

definition lookup_step :: "graph \<Rightarrow> uuid \<Rightarrow> gstep option" where
  "lookup_step g i = map_of (by_id g) i"

text \<open>
  \<open>slices.BinarySearchFunc\<close> on the sorted step list returns the position of the first element
  whose order is at least the wanted one; \<open>search_order\<close> is that element.
\<close>

definition search_order :: "gstep list \<Rightarrow> int \<Rightarrow> gstep option" where
  "search_order ss k = find (\<lambda>s. k \<le> step_order s) ss"

definition StepByOrder :: "graph \<Rightarrow> int \<Rightarrow> gstep option" where
  "StepByOrder g k =
     (case search_order (ordered g) k of
        None \<Rightarrow> None
      | Some s \<Rightarrow> if step_order s = k then Some s else None)"

definition lookup_branch :: "graph \<Rightarrow> uuid \<Rightarrow> branch option" where
  "lookup_branch g i = map_of (branches g) i"

text \<open>\<open>s.Order+1\<close> is computed in 32 bits, so it wraps at the largest order.\<close>

definition DefaultNext :: "graph \<Rightarrow> uuid \<Rightarrow> gstep option" where
  "DefaultNext g i =
     (case lookup_step g i of
        None \<Rightarrow> None
      | Some s \<Rightarrow> search_order (ordered g) (wrap32 (step_order s + 1)))"

definition exits :: "graph \<Rightarrow> uuid \<Rightarrow> uuid list" where
  "exits g i =
     (case lookup_branch g i of
        Some b \<Rightarrow> branch_exits b
      | None \<Rightarrow> (case DefaultNext g i of Some n \<Rightarrow> [step_id n] | None \<Rightarrow> []))"

subsection \<open>The route out of a step\<close>

datatype plan = PlanEnd | PlanNext gstep | PlanAwait branch

definition After :: "graph \<Rightarrow> uuid \<Rightarrow> plan" where
  "After g i =
     (case lookup_step g i of
        None \<Rightarrow> PlanEnd
      | Some _ \<Rightarrow>
          (case lookup_branch g i of
             None \<Rightarrow> (case DefaultNext g i of Some n \<Rightarrow> PlanNext n | None \<Rightarrow> PlanEnd)
           | Some b \<Rightarrow>
               if br_condition b \<noteq> Always then PlanAwait b
               else (case lookup_step g (br_yes b) of Some n \<Rightarrow> PlanNext n | None \<Rightarrow> PlanEnd)))"

definition Evaluate ::
  "condition \<Rightarrow> instant \<Rightarrow> duration \<Rightarrow> instant \<Rightarrow> instant \<Rightarrow> verdict" where
  "Evaluate c start window firstEvent now =
     (if c = Always then \<lparr>decided = True, v_yes = True, v_at = start\<rparr>
      else
        let deadline = start + window in
        if \<not> is_zero_time firstEvent \<and> \<not> deadline < firstEvent then
          \<lparr>decided = True, v_yes = (\<not> negated c),
           v_at = (if firstEvent < start then start else firstEvent)\<rparr>
        else if \<not> now < deadline then
          \<lparr>decided = True, v_yes = negated c, v_at = deadline\<rparr>
        else \<lparr>decided = False, v_yes = False, v_at = deadline\<rparr>)"

end
