(* ===== verification/Graph_Cycle.thy ===== *)
theory Graph_Cycle
  imports Sequence_Graph
begin

text \<open>
  The cycle search of \<open>Graph.findCycle\<close> and the whole of \<open>Graph.Validate\<close>
  (\<open>internal/platform/seqgraph/seqgraph.go\<close>).

  The search is the source's iterative three-colour depth-first search: \<open>dfs_loop\<close> is the inner
  loop over the explicit stack (the top of the stack is the head of the list, and a frame keeps the
  exits not yet followed, \<open>top.exits[top.next:]\<close>), \<open>find_roots\<close> the outer loop over the steps.
  Its correctness is the usual white/grey/black invariant \<open>dfs_inv\<close>.
\<close>

datatype colour = White | Grey | Black

type_synonym dfs_frame = "uuid \<times> uuid list"

subsection \<open>The search\<close>

definition all_targets :: "graph \<Rightarrow> uuid set" where
  "all_targets g = step_id ` set (ordered g)
     \<union> (\<Union>(_, b) \<in> set (branches g). set (branch_exits b))"

lemma exits_subset_all_targets: "set (exits g i) \<subseteq> all_targets g"
  by (auto simp: exits_def all_targets_def lookup_branch_def DefaultNext_def search_order_def
      split: option.splits dest!: map_of_SomeD find_Some_mem find_Some_mem [OF sym])

lemma finite_all_targets [simp]: "finite (all_targets g)"
  by (auto simp: all_targets_def)

definition open_nodes :: "graph \<Rightarrow> dfs_frame list \<Rightarrow> uuid set" where
  "open_nodes g st = all_targets g \<union> (\<Union>(_, ys) \<in> set st. set ys)"

lemma finite_open_nodes [simp]: "finite (open_nodes g st)"
  by (auto simp: open_nodes_def)

text \<open>The stack from the frame of \<open>child\<close> to the top: the loop that is reported.\<close>

definition loop_from :: "uuid \<Rightarrow> dfs_frame list \<Rightarrow> uuid list" where
  "loop_from child st = dropWhile (\<lambda>i. i \<noteq> child) (rev (map fst st))"

lemma card_white_less:
  assumes "finite B" and "A \<subseteq> B" and "y \<in> B" and "c y = White"
  shows "card {u \<in> A. (c(y := Grey)) u = White} < card {u \<in> B. c u = White}"
  by (rule psubset_card_mono) (use assms in auto)

lemma card_white_le:
  assumes "finite B" and "A \<subseteq> B" and "\<And>u. c' u = White \<Longrightarrow> c u = White"
  shows "card {u \<in> A. c' u = White} \<le> card {u \<in> B. c u = White}"
  by (rule card_mono) (use assms in auto)

function dfs_loop ::
  "graph \<Rightarrow> (uuid \<Rightarrow> colour) \<Rightarrow> dfs_frame list \<Rightarrow> uuid list + (uuid \<Rightarrow> colour)" where
  "dfs_loop g c [] = Inr c"
| "dfs_loop g c ((x, []) # st) = dfs_loop g (c(x := Black)) st"
| "dfs_loop g c ((x, y # ys) # st) =
     (case c y of
        Grey \<Rightarrow> Inl (loop_from y ((x, ys) # st))
      | White \<Rightarrow> dfs_loop g (c(y := Grey)) ((y, exits g y) # (x, ys) # st)
      | Black \<Rightarrow> dfs_loop g c ((x, ys) # st))"
  by pat_completeness auto
termination
proof (relation "measures [\<lambda>(g, c, st). card {u \<in> open_nodes g st. c u = White},
                           \<lambda>(g, c, st). sum_list (map (\<lambda>(_, ys). Suc (length ys)) st)]",
       goal_cases)
  case 1
  show ?case by simp
next
  case (2 g c x st)
  have "card {u \<in> open_nodes g st. (c(x := Black)) u = White}
          \<le> card {u \<in> open_nodes g ((x, []) # st). c u = White}"
    by (rule card_white_le) (auto simp: open_nodes_def split: if_splits)
  from this [unfolded le_less] show ?case by (auto simp del: fun_upd_apply)
next
  case (3 g c x y ys st)
  have "card {u \<in> open_nodes g ((y, exits g y) # (x, ys) # st). (c(y := Grey)) u = White}
          < card {u \<in> open_nodes g ((x, y # ys) # st). c u = White}"
    by (rule card_white_less)
       (use 3 exits_subset_all_targets [of g y] in \<open>auto simp: open_nodes_def\<close>)
  then show ?case by simp
next
  case (4 g c x y ys st)
  have "card {u \<in> open_nodes g ((x, ys) # st). c u = White}
          \<le> card {u \<in> open_nodes g ((x, y # ys) # st). c u = White}"
    by (rule card_white_le) (auto simp: open_nodes_def)
  then show ?case by auto
qed

fun find_roots :: "graph \<Rightarrow> (uuid \<Rightarrow> colour) \<Rightarrow> gstep list \<Rightarrow> graph_error option" where
  "find_roots g c [] = None"
| "find_roots g c (r # rs) =
     (if c (step_id r) \<noteq> White then find_roots g c rs
      else case dfs_loop g (c(step_id r := Grey)) [(step_id r, exits g (step_id r))] of
             Inl loop \<Rightarrow> Some (CycleError loop)
           | Inr c' \<Rightarrow> find_roots g c' rs)"

definition findCycle :: "graph \<Rightarrow> graph_error option" where
  "findCycle g = find_roots g (\<lambda>_. White) (ordered g)"

definition validate_branch :: "graph \<Rightarrow> uuid \<Rightarrow> graph_error option" where
  "validate_branch g i =
     (case lookup_branch g i of
        None \<Rightarrow> Some (ShapeError CodeInvalidCondition)
      | Some b \<Rightarrow>
          (case ValidateShape b of
             Some e \<Rightarrow> Some e
           | None \<Rightarrow>
               if lookup_step g (br_step b) = None then Some (UnknownStepError (br_step b))
               else first_error
                      (\<lambda>t. if lookup_step g t = None then Some (TargetError (br_step b) t) else None)
                      (branch_exits b)))"

definition Validate :: "graph \<Rightarrow> graph_error option" where
  "Validate g =
     (case first_error (validate_branch g) (branch_order g) of
        Some e \<Rightarrow> Some e
      | None \<Rightarrow> findCycle g)"

subsection \<open>The invariant of the search\<close>

definition edge :: "graph \<Rightarrow> (uuid \<times> uuid) set" where
  "edge g = {(a, b). b \<in> set (exits g a)}"

lemma edge_iff [simp]: "(a, b) \<in> edge g \<longleftrightarrow> b \<in> set (exits g a)"
  by (simp add: edge_def)

definition is_cycle :: "graph \<Rightarrow> uuid list \<Rightarrow> bool" where
  "is_cycle g p \<longleftrightarrow> p \<noteq> [] \<and> distinct p \<and> successively (\<lambda>a b. b \<in> set (exits g a)) p
     \<and> hd p \<in> set (exits g (last p))"

definition frame_ok ::
  "graph \<Rightarrow> (uuid \<Rightarrow> colour) \<Rightarrow> uuid option \<Rightarrow> uuid \<Rightarrow> uuid list \<Rightarrow> bool" where
  "frame_ok g c ab x ys \<longleftrightarrow>
     (\<exists>don. exits g x = don @ ys
        \<and> (\<forall>d \<in> set don. c d = Black \<or> ab = Some d)
        \<and> (\<forall>a. ab = Some a \<longrightarrow> a \<in> set don))"

fun frames_ok :: "graph \<Rightarrow> (uuid \<Rightarrow> colour) \<Rightarrow> uuid option \<Rightarrow> dfs_frame list \<Rightarrow> bool" where
  "frames_ok g c ab [] = True"
| "frames_ok g c ab ((x, ys) # st) = (frame_ok g c ab x ys \<and> frames_ok g c (Some x) st)"

definition black_ok :: "graph \<Rightarrow> (uuid \<Rightarrow> colour) \<Rightarrow> bool" where
  "black_ok g c \<longleftrightarrow>
     (\<forall>x. c x = Black \<longrightarrow> (\<forall>y \<in> set (exits g x). c y = Black) \<and> (x, x) \<notin> (edge g)\<^sup>+)"

definition dfs_inv :: "graph \<Rightarrow> (uuid \<Rightarrow> colour) \<Rightarrow> dfs_frame list \<Rightarrow> bool" where
  "dfs_inv g c st \<longleftrightarrow> distinct (map fst st) \<and> (\<forall>x. c x = Grey \<longleftrightarrow> x \<in> set (map fst st))
     \<and> black_ok g c \<and> frames_ok g c None st"

lemma black_reach:
  assumes "black_ok g c" and "c x = Black" and "(x, y) \<in> (edge g)\<^sup>*"
  shows "c y = Black"
  using assms(3,2) by (induction rule: rtrancl_induct) (use assms(1) in \<open>auto simp: black_ok_def\<close>)

lemma black_ok_finish:
  assumes inv: "black_ok g c" and grey: "c x = Grey" and all: "\<forall>y \<in> set (exits g x). c y = Black"
  shows "black_ok g (c(x := Black))"
proof -
  have "(x, x) \<notin> (edge g)\<^sup>+"
  proof
    assume "(x, x) \<in> (edge g)\<^sup>+"
    then obtain y where "y \<in> set (exits g x)" and "(y, x) \<in> (edge g)\<^sup>*"
      by (auto dest!: tranclD)
    then have "c x = Black" using all black_reach [OF inv] by blast
    with grey show False by simp
  qed
  with inv all show ?thesis by (auto simp: black_ok_def)
qed

lemma frame_ok_start: "frame_ok g c None x (exits g x)"
  by (simp add: frame_ok_def)

lemma frame_ok_colour:
  "frame_ok g c ab x ys \<Longrightarrow> (\<And>d. c d = Black \<Longrightarrow> c' d = Black) \<Longrightarrow> frame_ok g c' ab x ys"
  unfolding frame_ok_def by blast

lemma frames_ok_colour:
  "frames_ok g c ab st \<Longrightarrow> (\<And>d. c d = Black \<Longrightarrow> c' d = Black) \<Longrightarrow> frames_ok g c' ab st"
  by (induction g c ab st rule: frames_ok.induct) (auto intro: frame_ok_colour)

lemma frame_ok_above: "frame_ok g c (Some a) x ys \<Longrightarrow> c a = Black \<Longrightarrow> frame_ok g c None x ys"
  unfolding frame_ok_def by fastforce

lemma frames_ok_above: "frames_ok g c (Some a) st \<Longrightarrow> c a = Black \<Longrightarrow> frames_ok g c None st"
  by (cases st) (auto intro: frame_ok_above)

lemma frame_ok_next:
  assumes "frame_ok g c None x (y # ys)"
  shows "c y = Black \<Longrightarrow> frame_ok g c None x ys"
    and "frame_ok g (c(y := Grey)) (Some y) x ys \<or> c y = Black"
    and "y \<in> set (exits g x)"
proof -
  from assms obtain don where "exits g x = don @ y # ys" and "\<forall>d \<in> set don. c d = Black"
    by (auto simp: frame_ok_def)
  then have d: "exits g x = (don @ [y]) @ ys" "\<forall>d \<in> set don. c d = Black" by simp_all
  then show "c y = Black \<Longrightarrow> frame_ok g c None x ys"
    unfolding frame_ok_def by (intro exI [of _ "don @ [y]"]) auto
  from d show "frame_ok g (c(y := Grey)) (Some y) x ys \<or> c y = Black"
    unfolding frame_ok_def by (intro disjI1 exI [of _ "don @ [y]"]) auto
  from d show "y \<in> set (exits g x)" by simp
qed

lemma frame_ok_done: "frame_ok g c None x [] \<Longrightarrow> \<forall>y \<in> set (exits g x). c y = Black"
  by (auto simp: frame_ok_def)

lemma dfs_invI:
  "distinct (map fst st) \<Longrightarrow> (\<And>x. c x = Grey \<longleftrightarrow> x \<in> set (map fst st)) \<Longrightarrow> black_ok g c
     \<Longrightarrow> frames_ok g c None st \<Longrightarrow> dfs_inv g c st"
  by (simp add: dfs_inv_def)

lemma dfs_invD:
  assumes "dfs_inv g c st"
  shows "distinct (map fst st)" and "c x = Grey \<longleftrightarrow> x \<in> set (map fst st)" and "black_ok g c"
    and "frames_ok g c None st"
  using assms unfolding dfs_inv_def by blast+

lemma dfs_inv_pop:
  assumes inv: "dfs_inv g c ((x, []) # st)"
  shows "dfs_inv g (c(x := Black)) st"
proof (rule dfs_invI)
  note inv' = dfs_invD [OF inv]
  show "distinct (map fst st)" using inv'(1) by simp
  show "(c(x := Black)) z = Grey \<longleftrightarrow> z \<in> set (map fst st)" for z
    using inv'(1) inv'(2) [of z] by auto
  show "black_ok g (c(x := Black))"
    using inv'(2) [of x] inv'(3,4) by (intro black_ok_finish frame_ok_done) auto
  have "frames_ok g (c(x := Black)) (Some x) st"
    by (rule frames_ok_colour [of g c]) (use inv'(4) in auto)
  then show "frames_ok g (c(x := Black)) None st"
    by (rule frames_ok_above) simp
qed

lemma dfs_inv_skip:
  assumes inv: "dfs_inv g c ((x, y # ys) # st)" and "c y = Black"
  shows "dfs_inv g c ((x, ys) # st)"
proof (rule dfs_invI)
  note inv' = dfs_invD [OF inv]
  show "distinct (map fst ((x, ys) # st))" using inv'(1) by simp
  show "c z = Grey \<longleftrightarrow> z \<in> set (map fst ((x, ys) # st))" for z using inv'(2) [of z] by simp
  show "black_ok g c" by (rule inv'(3))
  show "frames_ok g c None ((x, ys) # st)"
    using inv'(4) assms(2) by (auto intro: frame_ok_next)
qed

lemma black_ok_grey: "black_ok g c \<Longrightarrow> c y = White \<Longrightarrow> black_ok g (c(y := Grey))"
  by (auto simp: black_ok_def)

lemma dfs_inv_push:
  assumes inv: "dfs_inv g c ((x, y # ys) # st)" and white: "c y = White"
  shows "dfs_inv g (c(y := Grey)) ((y, exits g y) # (x, ys) # st)"
proof (rule dfs_invI)
  note inv' = dfs_invD [OF inv]
  have new: "y \<notin> set (map fst ((x, ys) # st))" using inv'(2) [of y] white by simp
  then show "distinct (map fst ((y, exits g y) # (x, ys) # st))" using inv'(1) by simp
  show "(c(y := Grey)) z = Grey \<longleftrightarrow> z \<in> set (map fst ((y, exits g y) # (x, ys) # st))" for z
    using inv'(2) [of z] by auto
  show "black_ok g (c(y := Grey))" by (rule black_ok_grey [OF inv'(3) white])
  have "frames_ok g (c(y := Grey)) (Some x) st"
    by (rule frames_ok_colour [of g c]) (use inv'(4) white in auto)
  then show "frames_ok g (c(y := Grey)) None ((y, exits g y) # (x, ys) # st)"
    using inv'(4) white frame_ok_next(2) [of g c x y ys] by (auto simp: frame_ok_start)
qed

subsection \<open>What a run of the search establishes\<close>

text \<open>A grey exit closes a real cycle: the frames on the stack are a path.\<close>

lemma frames_chain:
  "frames_ok g c ab st \<Longrightarrow> successively (\<lambda>a b. a \<in> set (exits g b)) (map fst st)
     \<and> (\<forall>a. ab = Some a \<and> st \<noteq> [] \<longrightarrow> a \<in> set (exits g (fst (hd st))))"
proof (induction g c ab st rule: frames_ok.induct)
  case (1 g c ab)
  then show ?case by simp
next
  case (2 g c ab x ys st)
  then have "\<forall>a. ab = Some a \<longrightarrow> a \<in> set (exits g x)" by (auto simp: frame_ok_def)
  with 2 show ?case by (cases st) auto
qed

lemma successively_dropWhile: "successively P xs \<Longrightarrow> successively P (dropWhile Q xs)"
  by (metis successively_append_iff takeWhile_dropWhile_id)

lemma last_dropWhile: "dropWhile Q xs \<noteq> [] \<Longrightarrow> last (dropWhile Q xs) = last xs"
  by (metis last_appendR takeWhile_dropWhile_id)

lemma loop_from_is_cycle:
  assumes inv: "dfs_inv g c ((x, y # ys) # st)" and grey: "c y = Grey"
  shows "is_cycle g (loop_from y ((x, ys) # st))"
proof -
  let ?p = "loop_from y ((x, ys) # st)"
  note inv' = dfs_invD [OF inv]
  have "y \<in> set (rev (map fst ((x, ys) # st)))" using inv'(2) [of y] grey by auto
  then have ne: "?p \<noteq> []" unfolding loop_from_def dropWhile_eq_Nil_conv by blast
  have "hd ?p = y"
    using hd_dropWhile [of "\<lambda>i. i \<noteq> y" "rev (map fst ((x, ys) # st))"] ne
    unfolding loop_from_def by blast
  moreover have "last ?p = x"
    using last_dropWhile [of "\<lambda>i. i \<noteq> y" "rev (map fst ((x, ys) # st))"] ne
    unfolding loop_from_def by simp
  moreover have "y \<in> set (exits g x)"
    using inv'(4) by (auto intro: frame_ok_next(3))
  moreover have "successively (\<lambda>a b. b \<in> set (exits g a)) ?p"
    using frames_chain [OF inv'(4)] unfolding loop_from_def
    by (intro successively_dropWhile) (subst successively_rev, simp)
  moreover have "distinct ?p"
    using inv'(1) unfolding loop_from_def by (intro distinct_dropWhile) simp
  ultimately show ?thesis using ne by (simp add: is_cycle_def)
qed

definition dfs_post ::
  "graph \<Rightarrow> (uuid \<Rightarrow> colour) \<Rightarrow> uuid list + (uuid \<Rightarrow> colour) \<Rightarrow> bool" where
  "dfs_post g c r \<longleftrightarrow>
     (case r of
        Inl p \<Rightarrow> is_cycle g p
      | Inr c' \<Rightarrow> dfs_inv g c' [] \<and> (\<forall>x. c x \<noteq> White \<longrightarrow> c' x = Black))"

lemma dfs_post_mono:
  "dfs_post g c' r \<Longrightarrow> (\<And>x. c x \<noteq> White \<Longrightarrow> c' x \<noteq> White) \<Longrightarrow> dfs_post g c r"
  by (auto simp: dfs_post_def split: sum.splits)

lemma dfs_loop_post: "dfs_inv g c st \<Longrightarrow> dfs_post g c (dfs_loop g c st)"
proof (induction g c st rule: dfs_loop.induct)
  case (1 g c)
  have "c x = Black" if "c x \<noteq> White" for x
    using that dfs_invD(2) [OF 1, of x] by (cases "c x") auto
  with 1 show ?case by (simp add: dfs_post_def)
next
  case (2 g c x st)
  show ?case
    unfolding dfs_loop.simps by (rule dfs_post_mono [OF 2(1) [OF dfs_inv_pop [OF 2(2)]]]) auto
next
  case (3 g c x y ys st)
  show ?case
  proof (cases "c y")
    case White
    have "dfs_post g c (dfs_loop g (c(y := Grey)) ((y, exits g y) # (x, ys) # st))"
      by (rule dfs_post_mono [OF 3(1) [OF White dfs_inv_push [OF 3(3) White]]]) auto
    with White show ?thesis by simp
  next
    case Grey
    with loop_from_is_cycle [OF 3(3) Grey] show ?thesis by (simp add: dfs_post_def)
  next
    case Black
    from 3(2) [OF Black dfs_inv_skip [OF 3(3) Black]] Black show ?thesis by simp
  qed
qed

lemma dfs_inv_root:
  assumes inv: "dfs_inv g c []" and white: "c r = White"
  shows "dfs_inv g (c(r := Grey)) [(r, exits g r)]"
  by (rule dfs_invI)
     (use dfs_invD(2,3) [OF inv] black_ok_grey [OF dfs_invD(3) [OF inv] white]
      in \<open>auto simp: frame_ok_start\<close>)

lemma dfs_inv_initial: "dfs_inv g (\<lambda>_. White) []"
  by (simp add: dfs_inv_def black_ok_def)

lemma find_roots_Some:
  "dfs_inv g c [] \<Longrightarrow> find_roots g c rs = Some e \<Longrightarrow> \<exists>p. e = CycleError p \<and> is_cycle g p"
proof (induction rs arbitrary: c)
  case Nil
  then show ?case by simp
next
  case (Cons r rs)
  have "dfs_post g (c(step_id r := Grey))
          (dfs_loop g (c(step_id r := Grey)) [(step_id r, exits g (step_id r))])"
    if "c (step_id r) = White"
    using that Cons.prems(1) by (intro dfs_loop_post dfs_inv_root)
  with Cons show ?case by (auto simp: dfs_post_def split: if_splits sum.splits)
qed

lemma find_roots_None:
  "dfs_inv g c [] \<Longrightarrow> find_roots g c rs = None \<Longrightarrow>
     \<exists>c'. black_ok g c' \<and> (\<forall>x. c x = Black \<longrightarrow> c' x = Black)
        \<and> (\<forall>r \<in> set rs. c' (step_id r) = Black)"
proof (induction rs arbitrary: c)
  case Nil
  then show ?case by (auto dest: dfs_invD(3))
next
  case (Cons r rs)
  show ?case
  proof (cases "c (step_id r) = White")
    case True
    let ?c = "c(step_id r := Grey)"
    have post: "dfs_post g ?c (dfs_loop g ?c [(step_id r, exits g (step_id r))])"
      by (rule dfs_loop_post [OF dfs_inv_root [OF Cons.prems(1) True]])
    obtain c1 where c1: "dfs_loop g ?c [(step_id r, exits g (step_id r))] = Inr c1"
        "find_roots g c1 rs = None"
      using Cons.prems(2) True by (auto split: sum.splits)
    with post have "dfs_inv g c1 []" and mono: "\<And>x. ?c x \<noteq> White \<Longrightarrow> c1 x = Black"
      by (simp_all add: dfs_post_def)
    with Cons.IH c1 obtain c' where c': "black_ok g c'" "\<forall>x. c1 x = Black \<longrightarrow> c' x = Black"
        "\<forall>r \<in> set rs. c' (step_id r) = Black" by blast
    have "c' x = Black" if "?c x \<noteq> White" for x using mono [OF that] c'(2) by blast
    with c'(1,3) show ?thesis by (intro exI [of _ c']) force
  next
    case False
    then have "c (step_id r) = Black"
      using dfs_invD(2) [OF Cons.prems(1), of "step_id r"] by (cases "c (step_id r)") auto
    moreover from False Cons.prems(2) have "find_roots g c rs = None" by simp
    ultimately show ?thesis using Cons.IH [OF Cons.prems(1)] by auto
  qed
qed

lemma findCycle_Some: "findCycle g = Some e \<Longrightarrow> \<exists>p. e = CycleError p \<and> is_cycle g p"
  unfolding findCycle_def by (rule find_roots_Some [OF dfs_inv_initial])

lemma findCycle_None:
  assumes "findCycle g = None" and "s \<in> set (ordered g)" and "(step_id s, x) \<in> (edge g)\<^sup>*"
  shows "(x, x) \<notin> (edge g)\<^sup>+"
proof -
  from find_roots_None [OF dfs_inv_initial assms(1) [unfolded findCycle_def]]
  obtain c' where ok: "black_ok g c'" and "\<forall>r \<in> set (ordered g). c' (step_id r) = Black"
    by blast
  with assms(2,3) have "c' x = Black" using black_reach by blast
  with ok show ?thesis by (auto simp: black_ok_def)
qed

lemma successively_rtrancl:
  "successively (\<lambda>a b. (a, b) \<in> r) (x # xs) \<Longrightarrow> (x, last (x # xs)) \<in> r\<^sup>*"
  by (induction xs arbitrary: x) (auto intro: converse_rtrancl_into_rtrancl)

lemma is_cycle_trancl:
  assumes "is_cycle g p"
  shows "(hd p, hd p) \<in> (edge g)\<^sup>+"
proof -
  have "p = hd p # tl p" using assms by (simp add: is_cycle_def)
  then have "(hd p, last p) \<in> (edge g)\<^sup>*"
    using successively_rtrancl [of "edge g" "hd p" "tl p"] assms by (simp add: is_cycle_def)
  moreover have "(last p, hd p) \<in> edge g" using assms by (simp add: is_cycle_def)
  ultimately show ?thesis by (rule rtrancl_into_trancl1)
qed

end
