(* ===== verification/Graph_Routes.thy ===== *)
theory Graph_Routes
  imports Graph_Cycle
begin

text \<open>
  What a saved sequence graph promises the send path
  (\<open>internal/platform/seqgraph/seqgraph.go\<close>): what \<open>New\<close> builds, what \<open>Validate\<close> accepts, that
  every route through an accepted graph ends, that a graph without branches is the linear sequence,
  and that a decided condition never changes its answer.
\<close>

subsection \<open>What New builds\<close>

lemma fold_add_branch:
  "ordered (fold add_branch bs g) = ordered g"
  "by_id (fold add_branch bs g) = by_id g"
  "branches (fold add_branch bs g) = rev (map (\<lambda>b. (br_step b, b)) bs) @ branches g"
  by (induction bs arbitrary: g) (simp_all add: add_branch_def)

lemma New_simps [simp]:
  "ordered (New ss bs) = sort_key step_order ss"
  "by_id (New ss bs) = rev (map (\<lambda>s. (step_id s, s)) (sort_key step_order ss))"
  "branches (New ss bs) = rev (map (\<lambda>b. (br_step b, b)) bs)"
  by (simp_all add: New_def Let_def fold_add_branch)

lemma branch_order_fold:
  "set (branch_order g) = fst ` set (branches g) \<Longrightarrow>
     set (branch_order (fold add_branch bs g)) = fst ` set (branches (fold add_branch bs g))"
proof (induction bs arbitrary: g)
  case Nil
  then show ?case by simp
next
  case (Cons b bs)
  have "set (branch_order (add_branch b g)) = fst ` set (branches (add_branch b g))"
    using Cons.prems by (auto simp: add_branch_def map_of_eq_None_iff)
  then show ?case using Cons.IH by simp
qed

lemma set_branch_order [simp]: "set (branch_order (New ss bs)) = br_step ` set bs"
proof -
  have "set (branch_order (New ss bs)) = fst ` set (branches (New ss bs))"
    unfolding New_def Let_def by (rule branch_order_fold) simp
  then show ?thesis by (force simp: image_iff)
qed

lemma lookup_step_New:
  "lookup_step (New ss bs) i = Some s \<Longrightarrow> s \<in> set ss \<and> step_id s = i"
  by (auto simp: lookup_step_def dest!: map_of_SomeD)

lemma lookup_step_New_mem: "lookup_step (New ss bs) i = Some s \<Longrightarrow> i \<in> step_id ` set ss"
  by (force dest: lookup_step_New)

lemma lookup_step_New_None [simp]:
  "lookup_step (New ss bs) i = None \<longleftrightarrow> i \<notin> step_id ` set ss"
  by (auto simp: lookup_step_def map_of_eq_None_iff image_iff)

lemma lookup_branch_New:
  "lookup_branch (New ss bs) i = Some b \<Longrightarrow> b \<in> set bs \<and> br_step b = i"
  by (auto simp: lookup_branch_def dest!: map_of_SomeD)

lemma lookup_branch_New_None [simp]:
  "lookup_branch (New ss bs) i = None \<longleftrightarrow> i \<notin> br_step ` set bs"
  by (auto simp: lookup_branch_def map_of_eq_None_iff image_iff)

lemma DefaultNext_New: "DefaultNext (New ss bs) i = Some n \<Longrightarrow> i \<in> step_id ` set ss \<and> n \<in> set ss"
  by (auto simp: DefaultNext_def search_order_def split: option.splits
      dest!: lookup_step_New find_Some_mem)

lemma exits_linear:
  "lookup_branch g i = None \<Longrightarrow>
     exits g i = (case DefaultNext g i of Some n \<Rightarrow> [step_id n] | None \<Rightarrow> [])"
  by (simp add: exits_def)

subsection \<open>What Validate accepts\<close>

text \<open>A branch is well placed: its shape is valid, its source and its exits are steps.\<close>

definition well_placed :: "gstep list \<Rightarrow> branch \<Rightarrow> bool" where
  "well_placed ss b \<longleftrightarrow> ValidateShape b = None \<and> br_step b \<in> step_id ` set ss
     \<and> set (branch_exits b) \<subseteq> step_id ` set ss"

lemma validate_branch_iff:
  assumes "lookup_branch (New ss bs) i = Some b"
  shows "validate_branch (New ss bs) i = None \<longleftrightarrow> well_placed ss b"
  using assms
  by (auto simp: validate_branch_def well_placed_def first_error_None_iff split: option.splits)

lemma first_error_branches:
  "first_error (validate_branch (New ss bs)) (branch_order (New ss bs)) = None \<longleftrightarrow>
     (\<forall>i b. lookup_branch (New ss bs) i = Some b \<longrightarrow> well_placed ss b)"
  (is "?L \<longleftrightarrow> ?R")
proof
  assume L: ?L
  show ?R
  proof (intro allI impI)
    fix i b
    assume b: "lookup_branch (New ss bs) i = Some b"
    from lookup_branch_New [OF b] have "i \<in> set (branch_order (New ss bs))" by auto
    with L b show "well_placed ss b"
      by (auto simp: first_error_None_iff validate_branch_iff simp del: set_branch_order)
  qed
next
  assume R: ?R
  show ?L unfolding first_error_None_iff
  proof
    fix i assume "i \<in> set (branch_order (New ss bs))"
    then obtain b where "lookup_branch (New ss bs) i = Some b"
      by (cases "lookup_branch (New ss bs) i") auto
    with R show "validate_branch (New ss bs) i = None" by (simp add: validate_branch_iff)
  qed
qed

lemma edge_source:
  assumes "\<And>i b. lookup_branch (New ss bs) i = Some b \<Longrightarrow> well_placed ss b"
    and "y \<in> set (exits (New ss bs) x)"
  shows "x \<in> step_id ` set ss"
proof (cases "lookup_branch (New ss bs) x")
  case None
  note exits_linear [OF this]
  with assms(2) obtain n where "DefaultNext (New ss bs) x = Some n"
    by (cases "DefaultNext (New ss bs) x") auto
  then show ?thesis by (blast dest: DefaultNext_New)
next
  case (Some b)
  with assms(1) [OF Some] lookup_branch_New [OF Some] show ?thesis
    by (auto simp: well_placed_def)
qed

lemma findCycle_acyclic:
  assumes placed: "\<And>i b. lookup_branch (New ss bs) i = Some b \<Longrightarrow> well_placed ss b"
  shows "findCycle (New ss bs) = None \<longleftrightarrow> acyclic (edge (New ss bs))"
proof
  assume none: "findCycle (New ss bs) = None"
  show "acyclic (edge (New ss bs))"
  proof (rule acyclicI, intro allI notI)
    fix x assume cyc: "(x, x) \<in> (edge (New ss bs))\<^sup>+"
    then obtain y where "(x, y) \<in> edge (New ss bs)" by (auto dest: tranclD)
    then have "x \<in> step_id ` set ss" using edge_source [OF placed] by auto
    then obtain s where "s \<in> set (ordered (New ss bs))" "step_id s = x" by auto
    with findCycle_None [OF none] cyc show False by blast
  qed
next
  assume ac: "acyclic (edge (New ss bs))"
  show "findCycle (New ss bs) = None"
  proof (rule ccontr)
    assume "findCycle (New ss bs) \<noteq> None"
    then obtain p where "is_cycle (New ss bs) p" by (auto dest: findCycle_Some)
    from is_cycle_trancl [OF this] ac show False by (simp add: acyclic_def)
  qed
qed

lemma Validate_acyclic:
  assumes "Validate (New ss bs) = None"
  shows "\<And>i b. lookup_branch (New ss bs) i = Some b \<Longrightarrow> well_placed ss b" and "acyclic (edge (New ss bs))"
proof -
  from assms have "first_error (validate_branch (New ss bs)) (branch_order (New ss bs)) = None"
    and "findCycle (New ss bs) = None"
    by (auto simp: Validate_def split: option.splits)
  then show "\<And>i b. lookup_branch (New ss bs) i = Some b \<Longrightarrow> well_placed ss b"
    by (simp only: first_error_branches)
  then show "acyclic (edge (New ss bs))"
    using \<open>findCycle _ = None\<close> findCycle_acyclic by blast
qed

text \<open>C5: a graph built from any steps and branches passes \<open>Validate\<close> exactly when every branch that
  is in force is well shaped and leads from a step to steps, and no path over the effective edges
  (branch exits and linear fall-throughs) revisits a step.\<close>

theorem Validate_iff:
  "Validate (New ss bs) = None \<longleftrightarrow>
     (\<forall>i b. lookup_branch (New ss bs) i = Some b \<longrightarrow> well_placed ss b)
       \<and> acyclic (edge (New ss bs))"
proof (cases "\<forall>i b. lookup_branch (New ss bs) i = Some b \<longrightarrow> well_placed ss b")
  case True
  then have "first_error (validate_branch (New ss bs)) (branch_order (New ss bs)) = None"
    by (simp only: first_error_branches)
  then have "Validate (New ss bs) = findCycle (New ss bs)" by (simp add: Validate_def)
  moreover from True have "findCycle (New ss bs) = None \<longleftrightarrow> acyclic (edge (New ss bs))"
    by (intro findCycle_acyclic) blast
  ultimately show ?thesis using True by simp
next
  case False
  then show ?thesis by (auto simp: Validate_def first_error_branches split: option.splits)
qed

subsection \<open>Every route ends\<close>

text \<open>One hop of the send path: the fixed next step, or the exit a verdict takes.\<close>

inductive route_to :: "graph \<Rightarrow> uuid \<Rightarrow> uuid \<Rightarrow> bool" for g where
  fixed: "After g i = PlanNext n \<Longrightarrow> route_to g i (step_id n)"
| decided: "After g i = PlanAwait b \<Longrightarrow> lookup_step g (branch_target b v) = Some n \<Longrightarrow>
     route_to g i (step_id n)"

inductive_cases route_toE: "route_to g i j"

lemma After_cases:
  "After g i = PlanNext n \<Longrightarrow>
     (lookup_branch g i = None \<and> DefaultNext g i = Some n)
     \<or> (\<exists>b. lookup_branch g i = Some b \<and> br_condition b = Always
           \<and> lookup_step g (br_yes b) = Some n)"
  "After g i = PlanAwait b \<Longrightarrow> lookup_branch g i = Some b \<and> br_condition b \<noteq> Always"
  by (auto simp: After_def split: option.splits if_splits)

lemma exit_of_branch:
  assumes "lookup_branch (New ss bs) i = Some b" and "lookup_step (New ss bs) t = Some n"
    and "t = br_yes b \<or> t = br_no b" and "uuid_Nil \<notin> step_id ` set ss"
  shows "step_id n \<in> set (exits (New ss bs) i)"
proof -
  have "step_id n = t" using lookup_step_New [OF assms(2)] by blast
  moreover have "t \<noteq> uuid_Nil" using lookup_step_New_mem [OF assms(2)] assms(4) by blast
  ultimately have "step_id n = t" "t \<noteq> uuid_Nil" by blast+
  with assms(1,3) show ?thesis by (auto simp: exits_def branch_exits_def)
qed

lemma route_to_edge:
  assumes "uuid_Nil \<notin> step_id ` set ss" and "route_to (New ss bs) i j"
  shows "(i, j) \<in> edge (New ss bs) \<and> j \<in> step_id ` set ss"
  using assms(2)
proof (cases rule: route_to.cases)
  case (fixed n)
  from After_cases(1) [OF fixed(2)] show ?thesis
  proof (elim disjE conjE exE)
    assume "lookup_branch (New ss bs) i = None" "DefaultNext (New ss bs) i = Some n"
    then have "exits (New ss bs) i = [step_id n]" by (simp only: exits_linear option.case)
    with DefaultNext_New [OF \<open>DefaultNext (New ss bs) i = Some n\<close>] fixed(1) show ?thesis by auto
  next
    fix b assume "lookup_branch (New ss bs) i = Some b" "lookup_step (New ss bs) (br_yes b) = Some n"
    with exit_of_branch [OF this] lookup_step_New [OF this(2)] lookup_step_New_mem [OF this(2)]
      assms(1) fixed(1) show ?thesis by auto
  qed
next
  case (decided b v n)
  from After_cases(2) [OF decided(2)]
  have "step_id n \<in> set (exits (New ss bs) i)"
    by (intro exit_of_branch [OF _ decided(3) _ assms(1)]) (auto simp: branch_target_def)
  with lookup_step_New [OF decided(3)] lookup_step_New_mem [OF decided(3)] decided(1) show ?thesis by auto
qed

lemma acyclic_path_distinct:
  assumes "acyclic r" and "successively (\<lambda>a b. (a, b) \<in> r) p"
  shows "distinct p"
  using assms(2)
proof (induction p)
  case Nil
  then show ?case by simp
next
  case (Cons x p)
  have "x \<notin> set p"
  proof
    assume "x \<in> set p"
    then obtain us vs where p: "p = us @ x # vs" by (auto dest: split_list)
    with Cons.prems have "successively (\<lambda>a b. (a, b) \<in> r) (x # us @ [x])"
      by (simp add: successively_append_iff successively_Cons hd_append split: if_splits)
    then have "(x, x) \<in> r\<^sup>+"
    proof (cases us)
      case Nil
      with \<open>successively _ (x # us @ [x])\<close> show ?thesis by auto
    next
      case (Cons u us')
      with \<open>successively _ (x # us @ [x])\<close> have "(x, u) \<in> r" "successively (\<lambda>a b. (a, b) \<in> r) (u # us' @ [x])"
        by auto
      with successively_rtrancl [of r u "us' @ [x]"] show ?thesis by (auto intro: rtrancl_into_trancl2)
    qed
    with assms(1) show False by (simp add: acyclic_def)
  qed
  with Cons show ?case by (auto simp: successively_Cons)
qed

text \<open>C6: in a graph that passes \<open>Validate\<close>, a contact routed step by step, whatever its conditions
  are decided to be, never receives a step twice and receives at most as many steps as there are:
  every path ends.\<close>

theorem routes_end:
  assumes "Validate (New ss bs) = None" and "uuid_Nil \<notin> step_id ` set ss"
    and "successively (route_to (New ss bs)) p"
    and "p \<noteq> []" and "hd p \<in> step_id ` set ss"
  shows "distinct p \<and> set p \<subseteq> step_id ` set ss \<and> length p \<le> length ss"
proof -
  have "successively (\<lambda>a b. (a, b) \<in> edge (New ss bs)) p"
    by (rule successively_mono [OF assms(3)]) (use route_to_edge [OF assms(2)] in blast)
  with Validate_acyclic(2) [OF assms(1)] have d: "distinct p" by (auto intro: acyclic_path_distinct)
  have sub: "set p \<subseteq> step_id ` set ss"
    using assms(3,4,5)
  proof (induction p)
    case Nil
    then show ?case by simp
  next
    case (Cons x p)
    then show ?case
      by (cases p) (use route_to_edge [OF assms(2)] in auto)
  qed
  have "length p = card (set p)" using d by (simp add: distinct_card)
  also have "\<dots> \<le> card (step_id ` set ss)" using sub by (intro card_mono) auto
  also have "\<dots> \<le> length ss" by (metis card_image_le card_length finite_set le_trans)
  finally show ?thesis using d sub by simp
qed

text \<open>Every loop the cycle search reports is a real one: a list of distinct steps each of which
  leads to the next, the last back to the first. It never refuses a graph without a loop.\<close>

theorem findCycle_reports_cycle:
  "case findCycle g of
     None \<Rightarrow> True
   | Some e \<Rightarrow> (case e of CycleError p \<Rightarrow> is_cycle g p \<and> \<not> acyclic (edge g) | _ \<Rightarrow> False)"
proof (cases "findCycle g")
  case None
  then show ?thesis by simp
next
  case (Some e)
  from findCycle_Some [OF this] obtain p where p: "e = CycleError p" "is_cycle g p" by blast
  from is_cycle_trancl [OF p(2)] have "\<not> acyclic (edge g)" by (auto simp: acyclic_def)
  with Some p show ?thesis by simp
qed

subsection \<open>The linear sequence\<close>

definition campaign_steps :: "gstep list \<Rightarrow> bool" where
  "campaign_steps ss \<longleftrightarrow> distinct (map step_id ss) \<and> distinct (map step_order ss)
     \<and> (\<forall>s \<in> set ss. int32 (step_order s) \<and> step_order s < 2147483647)"

lemma lookup_step_New_distinct:
  assumes "distinct (map step_id ss)" and "s \<in> set ss"
  shows "lookup_step (New ss bs) (step_id s) = Some s"
proof -
  have "distinct (map step_id (sort_key step_order ss))"
    using assms(1) by (metis distinct_map distinct_sort set_sort)
  then have "distinct (map fst (map (\<lambda>s. (step_id s, s)) (sort_key step_order ss)))"
    by (simp add: comp_def)
  then show ?thesis
    using assms(2) unfolding lookup_step_def New_simps
    by (subst map_of_eq_Some_iff) (auto simp: rev_map [symmetric] comp_def)
qed

lemma strict_sorted_orders:
  assumes "campaign_steps ss" and "i < j" and "j < length ss"
  shows "step_order (sort_key step_order ss ! i) < step_order (sort_key step_order ss ! j)"
proof -
  have "distinct (map step_order (sort_key step_order ss))"
    using assms(1) by (metis campaign_steps_def distinct_map distinct_sort set_sort)
  then have "step_order (sort_key step_order ss ! i) \<noteq> step_order (sort_key step_order ss ! j)"
    using assms(2,3) by (auto simp: distinct_conv_nth)
  moreover have "step_order (sort_key step_order ss ! i) \<le> step_order (sort_key step_order ss ! j)"
    using sorted_nth_mono [OF sorted_sort_key [of step_order ss], of i j] assms(2,3) by simp
  ultimately show ?thesis by simp
qed

lemma search_next:
  assumes cs: "campaign_steps ss" and i: "i < length ss"
  defines "os \<equiv> sort_key step_order ss"
  shows "search_order os (step_order (os ! i) + 1)
     = (if Suc i < length ss then Some (os ! Suc i) else None)"
proof (cases "Suc i < length ss")
  case True
  have "\<not> step_order (os ! i) + 1 \<le> step_order (os ! j)" if "j < Suc i" for j
    using that i strict_sorted_orders [OF cs, of j i] by (cases "j = i") (auto simp: os_def)
  moreover have "step_order (os ! i) + 1 \<le> step_order (os ! Suc i)"
    using strict_sorted_orders [OF cs, of i "Suc i"] True by (simp add: os_def)
  ultimately have "find (\<lambda>s. step_order (os ! i) + 1 \<le> step_order s) os = Some (os ! Suc i)"
    unfolding find_Some_iff using True by (intro exI [of _ "Suc i"]) (auto simp: os_def)
  with True show ?thesis by (simp add: search_order_def)
next
  case False
  have "step_order (os ! j) < step_order (os ! i) + 1" if "j < length ss" for j
    using that i False strict_sorted_orders [OF cs, of j i] by (cases "j = i") (auto simp: os_def)
  then have "find (\<lambda>s. step_order (os ! i) + 1 \<le> step_order s) os = None"
    unfolding find_None_iff by (metis in_set_conv_nth length_sort not_le os_def)
  with False show ?thesis by (simp add: search_order_def)
qed

text \<open>A step that has no branch falls through to the step with the next higher order, over any
  gaps a deletion left, and the last one ends the sequence; so a campaign without branches is sent
  in step order.\<close>

theorem linear_fall_through:
  assumes "campaign_steps ss" and "i < length ss"
    and "lookup_branch (New ss bs) (step_id (sort_key step_order ss ! i)) = None"
  shows "After (New ss bs) (step_id (sort_key step_order ss ! i))
     = (if Suc i < length ss then PlanNext (sort_key step_order ss ! Suc i) else PlanEnd)"
proof -
  let ?s = "sort_key step_order ss ! i"
  have mem: "?s \<in> set ss" using assms(2) by (metis length_sort nth_mem set_sort)
  then have "lookup_step (New ss bs) (step_id ?s) = Some ?s"
    using assms(1) by (simp add: lookup_step_New_distinct campaign_steps_def)
  moreover have "wrap32 (step_order ?s + 1) = step_order ?s + 1"
    using assms(1) mem by (intro wrap32_id) (auto simp: campaign_steps_def int32_def)
  ultimately show ?thesis
    using search_next [OF assms(1,2)] assms(3)
    by (simp add: After_def DefaultNext_def split: option.splits del: lookup_branch_New_None)
qed

subsection \<open>A decided condition stays decided\<close>

text \<open>The evidence the send path reads at instant \<open>now\<close>: the earliest recorded event no later than
  the end of the window, the zero time when there is none.\<close>

definition first_event :: "instant list \<Rightarrow> instant \<Rightarrow> instant \<Rightarrow> instant" where
  "first_event evs deadline now =
     (case filter (\<lambda>e. e \<le> deadline \<and> e \<le> now) evs of [] \<Rightarrow> 0 | e # es \<Rightarrow> foldl min e es)"

lemma foldl_min_le: "foldl min a xs \<le> a \<and> (\<forall>x \<in> set xs. foldl min a xs \<le> x)"
  for a :: int by (induction xs arbitrary: a) (auto simp: min.coboundedI2, (metis min.bounded_iff)+)

lemma foldl_min_mem: "foldl min a xs \<in> insert a (set xs)" for a :: int
  by (induction xs arbitrary: a) (auto simp: min_def)

lemma first_event_none:
  assumes "first_event evs dl now = 0" and "\<forall>e \<in> set evs. 0 < e"
  shows "\<forall>e \<in> set evs. \<not> (e \<le> dl \<and> e \<le> now)"
proof (cases "filter (\<lambda>e. e \<le> dl \<and> e \<le> now) evs")
  case Nil
  then show ?thesis by (simp add: filter_empty_conv)
next
  case (Cons a es)
  then have "foldl min a es \<in> set (filter (\<lambda>e. e \<le> dl \<and> e \<le> now) evs)"
    using foldl_min_mem [of a es] by simp
  then have "foldl min a es \<in> set evs" by (metis filter_is_subset subsetD)
  moreover have "foldl min a es = 0" using assms(1) Cons by (simp add: first_event_def)
  ultimately show ?thesis using assms(2) by force
qed

lemma first_event_some:
  assumes "first_event evs dl now = e" and "e \<noteq> 0"
  shows "e \<in> set evs \<and> e \<le> dl \<and> e \<le> now \<and> (\<forall>d \<in> set evs. d \<le> dl \<and> d \<le> now \<longrightarrow> e \<le> d)"
proof -
  let ?f = "filter (\<lambda>e. e \<le> dl \<and> e \<le> now) evs"
  from assms obtain a es where f: "?f = a # es" and e: "e = foldl min a es"
    by (cases ?f) (auto simp: first_event_def)
  have "e \<in> set ?f" using foldl_min_mem [of a es] f e by auto
  moreover have "\<forall>d \<in> set ?f. e \<le> d" using foldl_min_le [of a es] f e by auto
  ultimately show ?thesis by auto
qed

lemma first_event_later:
  assumes "\<forall>e \<in> set evs. 0 < e" and "now \<le> now'"
  shows "first_event evs dl now \<noteq> 0 \<Longrightarrow> first_event evs dl now' = first_event evs dl now"
    and "dl \<le> now \<Longrightarrow> first_event evs dl now' = first_event evs dl now"
proof -
  show *: "first_event evs dl now' = first_event evs dl now" if ne: "first_event evs dl now \<noteq> 0"
  proof -
    note a = first_event_some [OF refl ne]
    have ne': "first_event evs dl now' \<noteq> 0"
      using first_event_none [of evs dl now'] assms a by force
    note b = first_event_some [OF refl ne']
    from a b assms show ?thesis by (meson order.trans order.antisym linorder_linear)
  qed
  assume "dl \<le> now"
  then have "filter (\<lambda>e. e \<le> dl \<and> e \<le> now') evs = filter (\<lambda>e. e \<le> dl \<and> e \<le> now) evs"
    using assms(2) by (intro filter_cong) auto
  then show "first_event evs dl now' = first_event evs dl now" by (simp add: first_event_def)
qed

text \<open>Once a condition has been decided from the evidence recorded so far, evaluating it at any
  later time, with whatever has been recorded since, gives the same verdict with the same decision
  time; and it is decided at the latest when its window closes.\<close>

theorem Evaluate_stable:
  assumes "\<forall>e \<in> set evs. 0 < e" and "now \<le> now'"
  shows "(decided (Evaluate c start w (first_event evs (start + w) now) now) \<longrightarrow>
           Evaluate c start w (first_event evs (start + w) now') now'
             = Evaluate c start w (first_event evs (start + w) now) now)
     \<and> (start + w \<le> now \<longrightarrow> decided (Evaluate c start w (first_event evs (start + w) now) now))"
  using first_event_later [OF assms, of "start + w"] assms(2)
  by (auto simp: Evaluate_def Let_def)

subsection \<open>Witnesses\<close>

text \<open>Three steps; the first waits three days for an open: yes jumps to the last, no ends the path.\<close>

definition sample_steps :: "gstep list" where
  "sample_steps = map (\<lambda>(i, k). \<lparr>step_id = i, step_order = k, delay_seconds = 86400\<rparr>)
     [(3, 7), (1, 1), (2, 3)]"

definition sample_branch :: branch where
  "sample_branch = \<lparr>br_step = 1, br_condition = Opened, within_days = 3, reply_label_key = [],
     br_yes = 3, br_no = 0\<rparr>"

lemma sample_valid: "Validate (New sample_steps [sample_branch]) = None"
  by code_simp

theorem Validate_iff_witness:
  "acyclic (edge (New sample_steps [sample_branch]))"
  using sample_valid unfolding Validate_iff by blast

theorem routes_end_witness:
  "successively (route_to (New sample_steps [sample_branch])) [1, 3]
     \<and> distinct [1 :: uuid, 3] \<and> length [1 :: uuid, 3] \<le> length sample_steps"
proof -
  have after: "After (New sample_steps [sample_branch]) 1 = PlanAwait sample_branch"
    by (simp add: After_def lookup_step_def lookup_branch_def sample_branch_def sample_steps_def)
  have "lookup_step (New sample_steps [sample_branch])
          (branch_target sample_branch \<lparr>decided = True, v_yes = True, v_at = 0\<rparr>)
        = Some \<lparr>step_id = 3, step_order = 7, delay_seconds = 86400\<rparr>"
    by (simp add: lookup_step_def branch_target_def sample_branch_def sample_steps_def)
  from route_to.decided [OF after this]
  have r: "successively (route_to (New sample_steps [sample_branch])) [1, 3]" by simp
  have nil: "uuid_Nil \<notin> step_id ` set sample_steps"
    by (simp add: sample_steps_def uuid_Nil_def)
  have hd: "hd [1, 3] \<in> step_id ` set sample_steps" by (simp add: sample_steps_def)
  show ?thesis using routes_end [OF sample_valid nil r _ hd] r by simp
qed

theorem linear_fall_through_witness:
  "campaign_steps sample_steps
     \<and> After (New sample_steps []) 1 = PlanNext \<lparr>step_id = 2, step_order = 3, delay_seconds = 86400\<rparr>"
proof -
  have cs: "campaign_steps sample_steps"
    by (simp add: campaign_steps_def sample_steps_def int32_def)
  have "0 < length sample_steps" "lookup_branch (New sample_steps []) i = None" for i
    by (simp_all add: sample_steps_def)
  from linear_fall_through [OF cs this] cs show ?thesis
    by (simp add: sample_steps_def)
qed

theorem Evaluate_stable_witness:
  "decided (Evaluate NotOpened 100 50 (first_event [90, 130, 120] 150 125) 125)
     \<and> Evaluate NotOpened 100 50 (first_event [90, 130, 120] 150 400) 400
         = \<lparr>decided = True, v_yes = False, v_at = 100\<rparr>"
  using Evaluate_stable [of "[90, 130, 120]" 125 400 NotOpened 100 50]
  by (simp add: Evaluate_def first_event_def negated_def Let_def)

end
