(* ===== verification/Sql_Table.thy ===== *)
theory Sql_Table
  imports Inroad_Prelude
begin

text \<open>
  Tables as lists of row records, with the three statement shapes the modelled queries have: an
  \<open>UPDATE ... WHERE\<close>, a \<open>SELECT ... WHERE\<close> read with \<open>:one\<close> and an \<open>UPDATE ... RETURNING\<close> whose
  row count decides the outcome. A statement may fail: \<open>faults\<close> says which of the statements of an
  operation do and with what error, so a theorem over every \<open>faults\<close> covers every failure pattern.
  A failed statement inside a transaction leaves the database as it was before the transaction.

  The laws below are what the component theories use of a table; none of them unfolds the lists
  again.
\<close>

subsection \<open>Statements\<close>

definition update_where :: "('r \<Rightarrow> bool) \<Rightarrow> ('r \<Rightarrow> 'r) \<Rightarrow> 'r list \<Rightarrow> 'r list" where
  "update_where p f rows = map (\<lambda>r. if p r then f r else r) rows"

definition select_one :: "('r \<Rightarrow> bool) \<Rightarrow> 'r list \<Rightarrow> 'r option" where
  "select_one p rows = find p rows"

definition count_where :: "('r \<Rightarrow> bool) \<Rightarrow> 'r list \<Rightarrow> int" where
  "count_where p rows = int (length (filter p rows))"

lemma update_where_Nil [simp]: "update_where p f [] = []"
  and update_where_Cons [simp]:
    "update_where p f (r # rows) = (if p r then f r else r) # update_where p f rows"
  by (simp_all add: update_where_def)

lemma length_update_where [simp]: "length (update_where p f rows) = length rows"
  by (simp add: update_where_def)

lemma map_update_where:
  "(\<And>r. p r \<Longrightarrow> g (f r) = g r) \<Longrightarrow> map g (update_where p f rows) = map g rows"
  by (induction rows) auto

lemma in_update_where:
  "r \<in> set (update_where p f rows) \<longleftrightarrow> (\<exists>q \<in> set rows. r = (if p q then f q else q))"
  by (auto simp: update_where_def)

lemma update_where_none: "(\<And>r. r \<in> set rows \<Longrightarrow> \<not> p r) \<Longrightarrow> update_where p f rows = rows"
  by (induction rows) auto

lemma update_where_all:
  assumes "\<And>r. r \<in> set rows \<Longrightarrow> Q r" and "\<And>r. r \<in> set rows \<Longrightarrow> p r \<Longrightarrow> Q r \<Longrightarrow> Q (f r)"
    and "r \<in> set (update_where p f rows)"
  shows "Q r"
  using assms by (auto simp: in_update_where)

lemma update_where_idem:
  "(\<And>r. p r \<Longrightarrow> p (f r) \<Longrightarrow> f (f r) = f r) \<Longrightarrow>
     update_where p f (update_where p f rows) = update_where p f rows"
  by (induction rows) auto

lemma select_one_Nil [simp]: "select_one p [] = None"
  and select_one_Cons [simp]:
    "select_one p (r # rows) = (if p r then Some r else select_one p rows)"
  by (simp_all add: select_one_def)

lemma select_one_SomeD: "select_one p rows = Some r \<Longrightarrow> r \<in> set rows \<and> p r"
  by (simp add: select_one_def find_Some_mem)

lemma select_one_None_iff: "select_one p rows = None \<longleftrightarrow> (\<forall>r \<in> set rows. \<not> p r)"
  by (induction rows) auto

text \<open>A row is read back through an update whose effect does not change which rows are selected.\<close>

lemma select_update:
  assumes "\<And>r. p r \<Longrightarrow> q (f r) = q r"
  shows "select_one q (update_where p f rows)
       = map_option (\<lambda>r. if p r then f r else r) (select_one q rows)"
  using assms by (induction rows) auto

lemma filter_update_untouched:
  "(\<And>r. p r \<Longrightarrow> \<not> q r \<and> \<not> q (f r)) \<Longrightarrow> filter q (update_where p f rows) = filter q rows"
  by (induction rows) auto

lemma select_one_cong: "(\<And>r. r \<in> set rows \<Longrightarrow> p r = q r) \<Longrightarrow> select_one p rows = select_one q rows"
  by (induction rows) auto

lemma select_one_append:
  "select_one p (rows @ rows') = (case select_one p rows of None \<Rightarrow> select_one p rows' | Some r \<Rightarrow> Some r)"
  by (induction rows) auto

subsection \<open>Unique keys\<close>

definition unique_key :: "('r \<Rightarrow> 'k) \<Rightarrow> 'r list \<Rightarrow> bool" where
  "unique_key k rows \<longleftrightarrow> distinct (map k rows)"

lemma unique_key_update:
  "(\<And>r. p r \<Longrightarrow> k (f r) = k r) \<Longrightarrow> unique_key k (update_where p f rows) = unique_key k rows"
  by (simp add: unique_key_def map_update_where)

lemma unique_keyD:
  "unique_key k rows \<Longrightarrow> r \<in> set rows \<Longrightarrow> r' \<in> set rows \<Longrightarrow> k r = k r' \<Longrightarrow> r = r'"
  by (auto simp: unique_key_def distinct_map dest: inj_onD)

lemma unique_key_filter: "unique_key k rows \<Longrightarrow> unique_key k (filter p rows)"
  by (simp add: unique_key_def distinct_map_filter)

lemma unique_key_insert:
  "unique_key k (rows @ [r]) \<longleftrightarrow> unique_key k rows \<and> select_one (\<lambda>q. k q = k r) rows = None"
  by (auto simp: unique_key_def select_one_None_iff image_iff)

subsection \<open>Failures\<close>

type_synonym faults = "string \<Rightarrow> string option"

definition no_faults :: faults where "no_faults = (\<lambda>_. None)"

lemma no_faults_apply [simp]: "no_faults s = None"
  by (simp add: no_faults_def)

end
