(* ===== verification/Enrollment.thy ===== *)
theory Enrollment
  imports Sql_Table Sequence_Graph
begin

text \<open>
  The enrollment state machine (\<open>internal/app/enrollment\<close>): a contact's position in a campaign's
  sequence, the store operations behind it and the service that is the only writer of the cursor
  and of the terminal states.

  \<open>Store\<close> is the Go interface of the same name, a record of operations over an abstract state;
  \<open>PgStore\<close> gives it on the table of enrollments, each operation being the SQL statement of
  \<open>internal/platform/db/queries/enrollment.sql\<close>. The statement's \<open>now()\<close> is an argument. A status is
  the constructor of the three constants the column's CHECK allows; a stop reason is a string, as
  the worker passes any string through \<open>enrollment.StopReason(reason)\<close>.
\<close>

subsection \<open>Rows\<close>

datatype enrollment_status = StatusActive | StatusCompleted | StatusStopped

definition StopReplied :: string where [const_defs]: "StopReplied = ''replied''"
definition StopBounced :: string where [const_defs]: "StopBounced = ''bounced''"
definition StopSuppressed :: string where [const_defs]: "StopSuppressed = ''suppressed''"
definition StopManual :: string where [const_defs]: "StopManual = ''manual''"
definition StopUnsubscribed :: string where [const_defs]: "StopUnsubscribed = ''unsubscribed''"
definition StopFailed :: string where [const_defs]: "StopFailed = ''failed''"
definition StopMailboxRemoved :: string where [const_defs]: "StopMailboxRemoved = ''mailbox_removed''"

record enrollment =
  en_id :: uuid
  en_ws :: uuid
  en_campaign :: uuid
  en_contact :: uuid
  current_step :: int
  en_status :: enrollment_status
  stop_reason :: "string option"
  last_sent_at :: "instant option"
  next_due_at :: "instant option"
  thread_root_id :: string
  completed_at :: "instant option"
  stopped_at :: "instant option"
  cap_deferrals :: int
  en_mailbox :: "uuid option"
  awaiting_condition_step :: "int option"
  reply_class :: "string option"
  reply_source :: "string option"
  replied_at :: "instant option"

definition is_row :: "uuid \<Rightarrow> uuid \<Rightarrow> enrollment \<Rightarrow> bool" where
  "is_row ws i e \<longleftrightarrow> en_id e = i \<and> en_ws e = ws"

definition active_row :: "uuid \<Rightarrow> uuid \<Rightarrow> enrollment \<Rightarrow> bool" where
  "active_row ws i e \<longleftrightarrow> is_row ws i e \<and> en_status e = StatusActive"

subsection \<open>The statements\<close>

definition AdvanceEnrollmentStep ::
  "instant \<Rightarrow> uuid \<Rightarrow> uuid \<Rightarrow> int \<Rightarrow> instant option \<Rightarrow> enrollment list \<Rightarrow> enrollment list" where
  "AdvanceEnrollmentStep now ws i step due =
     update_where (active_row ws i)
       (\<lambda>e. e\<lparr>current_step := step, last_sent_at := Some now, next_due_at := due,
             cap_deferrals := 0\<rparr>)"

definition CompleteEnrollment ::
  "instant \<Rightarrow> uuid \<Rightarrow> uuid \<Rightarrow> int \<Rightarrow> enrollment list \<Rightarrow> enrollment list" where
  "CompleteEnrollment now ws i step =
     update_where (active_row ws i)
       (\<lambda>e. e\<lparr>current_step := step, last_sent_at := Some now, en_status := StatusCompleted,
             completed_at := Some now, next_due_at := None, cap_deferrals := 0\<rparr>)"

definition StopEnrollment ::
  "instant \<Rightarrow> uuid \<Rightarrow> uuid \<Rightarrow> string \<Rightarrow> enrollment list \<Rightarrow> enrollment list" where
  "StopEnrollment now ws i reason =
     update_where (active_row ws i)
       (\<lambda>e. e\<lparr>en_status := StatusStopped, stop_reason := Some reason,
             stopped_at := Some now, next_due_at := None\<rparr>)"

definition FinishEnrollment ::
  "instant \<Rightarrow> uuid \<Rightarrow> uuid \<Rightarrow> enrollment list \<Rightarrow> enrollment list" where
  "FinishEnrollment now ws i =
     update_where (active_row ws i)
       (\<lambda>e. e\<lparr>en_status := StatusCompleted, completed_at := Some now, next_due_at := None\<rparr>)"

definition AwaitEnrollmentCondition ::
  "uuid \<Rightarrow> uuid \<Rightarrow> instant option \<Rightarrow> enrollment list \<Rightarrow> enrollment list" where
  "AwaitEnrollmentCondition ws i due =
     update_where (active_row ws i)
       (\<lambda>e. e\<lparr>next_due_at := due, awaiting_condition_step := Some (current_step e)\<rparr>)"

definition SetEnrollmentDue ::
  "uuid \<Rightarrow> uuid \<Rightarrow> instant option \<Rightarrow> enrollment list \<Rightarrow> enrollment list" where
  "SetEnrollmentDue ws i due = update_where (active_row ws i) (\<lambda>e. e\<lparr>next_due_at := due\<rparr>)"

definition SetThreadRoot ::
  "uuid \<Rightarrow> uuid \<Rightarrow> string \<Rightarrow> enrollment list \<Rightarrow> enrollment list" where
  "SetThreadRoot ws i mid =
     update_where (\<lambda>e. is_row ws i e \<and> thread_root_id e = []) (\<lambda>e. e\<lparr>thread_root_id := mid\<rparr>)"

definition IncrementEnrollmentCapDeferrals ::
  "uuid \<Rightarrow> uuid \<Rightarrow> enrollment list \<Rightarrow> (int \<times> enrollment list) option" where
  "IncrementEnrollmentCapDeferrals ws i es =
     (case select_one (is_row ws i) es of
        None \<Rightarrow> None
      | Some e \<Rightarrow> Some (cap_deferrals e + 1,
          update_where (is_row ws i) (\<lambda>e. e\<lparr>cap_deferrals := cap_deferrals e + 1\<rparr>) es))"

definition GetEnrollment :: "uuid \<Rightarrow> uuid \<Rightarrow> enrollment list \<Rightarrow> enrollment option" where
  "GetEnrollment ws i = select_one (is_row ws i)"

text \<open>Active rows more than five minutes past due, the longest overdue first, at most 500.\<close>

definition ListDueEnrollments :: "instant \<Rightarrow> enrollment list \<Rightarrow> (uuid \<times> uuid) list" where
  "ListDueEnrollments now es =
     map (\<lambda>e. (en_id e, en_ws e))
       (take 500 (sort_key (\<lambda>e. the (next_due_at e))
         (filter (\<lambda>e. en_status e = StatusActive
            \<and> (case next_due_at e of None \<Rightarrow> False | Some d \<Rightarrow> d < now - 5 * minute)) es)))"

subsection \<open>Store and service\<close>

record 's Store =
  AdvanceStep :: "uuid \<Rightarrow> uuid \<Rightarrow> int \<Rightarrow> instant \<Rightarrow> 's \<Rightarrow> string + 's"
  Complete :: "uuid \<Rightarrow> uuid \<Rightarrow> int \<Rightarrow> 's \<Rightarrow> string + 's"
  Stop :: "uuid \<Rightarrow> uuid \<Rightarrow> string \<Rightarrow> 's \<Rightarrow> string + 's"
  SetDue :: "uuid \<Rightarrow> uuid \<Rightarrow> instant \<Rightarrow> 's \<Rightarrow> string + 's"
  StoreThreadRoot :: "uuid \<Rightarrow> uuid \<Rightarrow> string \<Rightarrow> 's \<Rightarrow> string + 's"
  Finish :: "uuid \<Rightarrow> uuid \<Rightarrow> 's \<Rightarrow> string + 's"
  StoreAwait :: "uuid \<Rightarrow> uuid \<Rightarrow> instant \<Rightarrow> 's \<Rightarrow> string + 's"

definition exec_stmt :: "faults \<Rightarrow> string \<Rightarrow> ('s \<Rightarrow> 's) \<Rightarrow> 's \<Rightarrow> string + 's" where
  "exec_stmt flt name f s = (case flt name of Some e \<Rightarrow> Inl e | None \<Rightarrow> Inr (f s))"

definition PgStore :: "faults \<Rightarrow> instant \<Rightarrow> enrollment list Store" where
  "PgStore flt now =
     \<lparr>AdvanceStep = (\<lambda>ws i step due.
        exec_stmt flt ''AdvanceEnrollmentStep'' (AdvanceEnrollmentStep now ws i step (Some due))),
      Complete = (\<lambda>ws i step. exec_stmt flt ''CompleteEnrollment'' (CompleteEnrollment now ws i step)),
      Stop = (\<lambda>ws i reason. exec_stmt flt ''StopEnrollment'' (StopEnrollment now ws i reason)),
      SetDue = (\<lambda>ws i due. exec_stmt flt ''SetEnrollmentDue'' (SetEnrollmentDue ws i (Some due))),
      StoreThreadRoot = (\<lambda>ws i mid. exec_stmt flt ''SetThreadRoot'' (SetThreadRoot ws i mid)),
      Finish = (\<lambda>ws i. exec_stmt flt ''FinishEnrollment'' (FinishEnrollment now ws i)),
      StoreAwait = (\<lambda>ws i due.
        exec_stmt flt ''AwaitEnrollmentCondition'' (AwaitEnrollmentCondition ws i (Some due)))\<rparr>"

definition MarkStepSent ::
  "'s Store \<Rightarrow> uuid \<Rightarrow> uuid \<Rightarrow> int \<Rightarrow> instant \<Rightarrow> bool \<Rightarrow> string \<Rightarrow> 's \<Rightarrow> string + 's" where
  "MarkStepSent st ws i sentStep nextDueAt lastStep threadRootID s =
     (case (if sentStep = 1 \<and> threadRootID \<noteq> [] then StoreThreadRoot st ws i threadRootID s else Inr s) of
        Inl e \<Rightarrow> Inl e
      | Inr s' \<Rightarrow>
          if lastStep then Complete st ws i sentStep s' else AdvanceStep st ws i sentStep nextDueAt s')"

definition MarkStepStopped :: "'s Store \<Rightarrow> uuid \<Rightarrow> uuid \<Rightarrow> string \<Rightarrow> 's \<Rightarrow> string + 's" where
  "MarkStepStopped st ws i reason = Stop st ws i reason"

definition FinishRoute :: "'s Store \<Rightarrow> uuid \<Rightarrow> uuid \<Rightarrow> 's \<Rightarrow> string + 's" where
  "FinishRoute st ws i = Finish st ws i"

definition AwaitCondition :: "'s Store \<Rightarrow> uuid \<Rightarrow> uuid \<Rightarrow> instant \<Rightarrow> 's \<Rightarrow> string + 's" where
  "AwaitCondition st ws i recheckAt = StoreAwait st ws i recheckAt"

definition Reschedule :: "'s Store \<Rightarrow> uuid \<Rightarrow> uuid \<Rightarrow> instant \<Rightarrow> 's \<Rightarrow> string + 's" where
  "Reschedule st ws i nextDueAt = SetDue st ws i nextDueAt"

end
