(* ===== verification/Send_Window.thy ===== *)
theory Send_Window
  imports Inroad_Prelude
begin

text \<open>
  The weekly sending window of a campaign and the instant a cold send goes out
  (\<open>internal/platform/cadence/window.go\<close>, \<open>internal/platform/cadence/schedule.go\<close>): building and
  validating a window, compiling a stored schedule into one, \<open>Next\<close>, \<open>NextAfterOffset\<close>,
  \<open>humanize\<close> and \<open>Contains\<close>.

  A \<open>*time.Location\<close> is its list of zone transitions, as the standard library keeps it; local
  time, \<open>AddDate\<close> and \<open>time.Date\<close> are the library's algorithms over that list. SHA-256 is the
  parameter \<open>sha\<close> and the zone database the parameter \<open>load\<close>. Definitions of \<open>time.Location\<close>
  values use a count of nanoseconds since the zero time throughout, and every loop is bounded by
  \<open>maxDayWalk\<close>, so nothing here needs fuel.
\<close>

subsection \<open>Locations and the local clock\<close>

record location =
  zone_first :: int
  zone_tx :: "(instant \<times> int) list"

definition UTC :: location where "UTC = \<lparr>zone_first = 0, zone_tx = []\<rparr>"

definition fixed_zone :: "int \<Rightarrow> location" where
  "fixed_zone off = \<lparr>zone_first = off, zone_tx = []\<rparr>"

text \<open>The offset in force, with the instants between which it is in force.\<close>

fun zone_from ::
  "int \<Rightarrow> instant option \<Rightarrow> (instant \<times> int) list \<Rightarrow> instant
     \<Rightarrow> int \<times> instant option \<times> instant option" where
  "zone_from off start [] u = (off, start, None)"
| "zone_from off start ((at, off') # tx) u =
     (if u < at then (off, start, Some at) else zone_from off' (Some at) tx u)"

definition zone_lookup :: "location \<Rightarrow> instant \<Rightarrow> int \<times> instant option \<times> instant option" where
  "zone_lookup l u = zone_from (zone_first l) None (zone_tx l) u"

definition day_ns :: duration where "day_ns = 86400000000000"

definition local_ns :: "location \<Rightarrow> instant \<Rightarrow> int" where
  "local_ns l t = t + fst (zone_lookup l t)"

definition local_day :: "location \<Rightarrow> instant \<Rightarrow> int" where
  "local_day l t = local_ns l t div day_ns"

definition local_clock :: "location \<Rightarrow> instant \<Rightarrow> int" where
  "local_clock l t = local_ns l t mod day_ns"

text \<open>Day 0 of the count, January 1 of year 1, is a Monday; Sunday is 0.\<close>

definition weekday :: "location \<Rightarrow> instant \<Rightarrow> nat" where
  "weekday l t = nat ((local_day l t + 1) mod 7)"

text \<open>\<open>time.Date\<close> for local day \<open>d\<close> and time of day \<open>clk\<close>: the library guesses the offset from the
  wall clock read as UTC and corrects it when the guess is not in force at the result.\<close>

definition go_date :: "location \<Rightarrow> int \<Rightarrow> int \<Rightarrow> instant" where
  "go_date l d clk =
     (let unix = d * day_ns + clk;
          (off, start, ende) = zone_lookup l unix
      in if off = 0 then unix
         else
           let utc = unix - off in
           if (case start of None \<Rightarrow> False | Some a \<Rightarrow> utc < a)
              \<or> (case ende of None \<Rightarrow> False | Some b \<Rightarrow> b \<le> utc)
           then unix - fst (zone_lookup l utc)
           else utc)"

definition add_days :: "location \<Rightarrow> instant \<Rightarrow> int \<Rightarrow> instant" where
  "add_days l t n = go_date l (local_day l t + n) (local_clock l t)"

definition minute_of_day :: "location \<Rightarrow> instant \<Rightarrow> int" where
  "minute_of_day l t = local_clock l t div minute"

subsection \<open>Windows\<close>

definition MinutesPerDay :: int where "MinutesPerDay = 1440"
definition maxDayWalk :: nat where "maxDayWalk = 8"

record interval =
  start_min :: int
  end_min :: int

record window =
  win_loc :: location
  win_days :: "nat \<Rightarrow> interval list"

datatype cadence_error =
    ErrNoOpenInterval
  | ErrEmptyKey
  | ErrStartOutOfRange nat int
  | ErrEndOutOfRange nat int
  | ErrInverted nat interval
  | ErrOverlap nat interval

fun validate_day :: "nat \<Rightarrow> int \<Rightarrow> interval list \<Rightarrow> cadence_error option" where
  "validate_day d prevEnd [] = None"
| "validate_day d prevEnd (iv # ivs) =
     (if start_min iv < 0 \<or> MinutesPerDay \<le> start_min iv then Some (ErrStartOutOfRange d (start_min iv))
      else if end_min iv \<le> 0 \<or> MinutesPerDay < end_min iv then Some (ErrEndOutOfRange d (end_min iv))
      else if end_min iv \<le> start_min iv then Some (ErrInverted d iv)
      else if start_min iv < prevEnd then Some (ErrOverlap d iv)
      else validate_day d (end_min iv) ivs)"

definition validate_window :: "window \<Rightarrow> cadence_error option" where
  "validate_window w =
     (case first_error (\<lambda>d. validate_day d (-1) (win_days w d)) [0..<7] of
        Some e \<Rightarrow> Some e
      | None \<Rightarrow>
          if \<forall>d \<in> set [0..<7]. win_days w d = [] then Some ErrNoOpenInterval else None)"

definition NewWindow ::
  "location option \<Rightarrow> (nat \<Rightarrow> interval list) \<Rightarrow> cadence_error + window" where
  "NewWindow loc days =
     (let w = \<lparr>win_loc = (case loc of None \<Rightarrow> UTC | Some l \<Rightarrow> l),
               win_days = (\<lambda>d. sort_key start_min (days d))\<rparr>
      in case validate_window w of Some e \<Rightarrow> Inl e | None \<Rightarrow> Inr w)"

definition OpenDuration :: "window \<Rightarrow> instant \<Rightarrow> duration" where
  "OpenDuration w t =
     sum_list (map (\<lambda>iv. end_min iv - start_min iv) (win_days w (weekday (win_loc w) t))) * minute"

definition Contains :: "window \<Rightarrow> instant \<Rightarrow> bool" where
  "Contains w t =
     list_ex (\<lambda>iv. start_min iv \<le> minute_of_day (win_loc w) t \<and> minute_of_day (win_loc w) t < end_min iv)
       (win_days w (weekday (win_loc w) t))"

subsection \<open>Placing an instant\<close>

text \<open>SHA-256 over the parts joined by NUL bytes, folded to 64 bits.\<close>

fun join_nul :: "string list \<Rightarrow> string" where
  "join_nul [] = []"
| "join_nul [p] = p"
| "join_nul (p # q # ps) = p @ CHR 0x00 # join_nul (q # ps)"

definition hashU64 :: "(string \<Rightarrow> string) \<Rightarrow> string list \<Rightarrow> nat" where
  "hashU64 sha parts = big_endian64 (sha (join_nul parts))"

definition humanize ::
  "(string \<Rightarrow> string) \<Rightarrow> window \<Rightarrow> instant \<Rightarrow> int \<Rightarrow> interval \<Rightarrow> string \<Rightarrow> instant" where
  "humanize sha w date m iv key =
     (let h = hashU64 sha [''humanize'', key, Itoa m];
          sec = int (h mod 59) + 1;
          nanos = int ((h div 256) mod 1000000000);
          base = go_date (win_loc w) (local_day (win_loc w) date) 0
      in if end_min iv - 1 \<le> m then base + end_min iv * minute - (sec * second + nanos)
         else base + (m * minute + sec * second + nanos))"

definition walk_date :: "window \<Rightarrow> instant \<Rightarrow> nat \<Rightarrow> instant" where
  "walk_date w t day = add_days (win_loc w) t (int day)"

definition walk_floor :: "window \<Rightarrow> instant \<Rightarrow> nat \<Rightarrow> int" where
  "walk_floor w t day = (if day = 0 then minute_of_day (win_loc w) t else 0)"

definition next_on ::
  "(string \<Rightarrow> string) \<Rightarrow> window \<Rightarrow> instant \<Rightarrow> string \<Rightarrow> nat \<Rightarrow> instant option" where
  "next_on sha w t key day =
     (let date = walk_date w t day; flr = walk_floor w t day
      in case find (\<lambda>iv. flr < end_min iv) (win_days w (weekday (win_loc w) date)) of
           None \<Rightarrow> None
         | Some iv \<Rightarrow> Some (humanize sha w date (max (start_min iv) flr) iv key))"

definition Next ::
  "(string \<Rightarrow> string) \<Rightarrow> window \<Rightarrow> instant \<Rightarrow> string \<Rightarrow> cadence_error + instant" where
  "Next sha w t key =
     (if key = [] then Inl ErrEmptyKey
      else case first_some (next_on sha w t key) [0..<maxDayWalk] of
             Some r \<Rightarrow> Inr r
           | None \<Rightarrow> Inl ErrNoOpenInterval)"

text \<open>One day of \<open>NextAfterOffset\<close>: either the interval the remaining minutes fall into, or what
  is left of them after the day.\<close>

fun consume_day :: "int \<Rightarrow> interval list \<Rightarrow> int \<Rightarrow> (int \<times> interval) + int" where
  "consume_day flr [] remaining = Inr remaining"
| "consume_day flr (iv # ivs) remaining =
     (if end_min iv \<le> flr then consume_day flr ivs remaining
      else
        let start = max (start_min iv) flr; available = end_min iv - start in
        if remaining < available then Inl (start + remaining, iv)
        else consume_day flr ivs (remaining - available))"

fun consume_days ::
  "(string \<Rightarrow> string) \<Rightarrow> window \<Rightarrow> instant \<Rightarrow> string \<Rightarrow> nat list \<Rightarrow> int \<Rightarrow> instant option" where
  "consume_days sha w t key [] remaining = None"
| "consume_days sha w t key (day # days) remaining =
     (let date = walk_date w t day
      in case consume_day (walk_floor w t day) (win_days w (weekday (win_loc w) date)) remaining of
           Inl (m, iv) \<Rightarrow> Some (humanize sha w date m iv key)
         | Inr rest \<Rightarrow> consume_days sha w t key days rest)"

definition NextAfterOffset ::
  "(string \<Rightarrow> string) \<Rightarrow> window \<Rightarrow> instant \<Rightarrow> duration \<Rightarrow> string \<Rightarrow> cadence_error + instant" where
  "NextAfterOffset sha w t offset key =
     (let off = (if offset < 0 then 0 else offset) in
      if key = [] then Inl ErrEmptyKey
      else case consume_days sha w t key [0..<maxDayWalk] (quot off minute) of
             Some r \<Rightarrow> Inr r
           | None \<Rightarrow> Inl ErrNoOpenInterval)"

subsection \<open>Schedules\<close>

record send_window =
  sw_weekday :: int
  sw_start :: int
  sw_end :: int

record schedule =
  timezone :: string
  sched_windows :: "send_window list"

datatype schedule_error =
    ErrUnknownTimezone string
  | ErrEmptySchedule
  | ErrBadWeekday int
  | ErrBadSchedule cadence_error

definition defaultWindowStartMin :: int where "defaultWindowStartMin = 9 * 60"
definition defaultWindowEndMin :: int where "defaultWindowEndMin = 17 * 60"

definition DefaultSchedule :: "string \<Rightarrow> schedule" where
  "DefaultSchedule tz =
     \<lparr>timezone = (if tz = [] then ''UTC'' else tz),
      sched_windows = map (\<lambda>d. \<lparr>sw_weekday = d, sw_start = defaultWindowStartMin,
                                sw_end = defaultWindowEndMin\<rparr>) [1, 2, 3, 4, 5]\<rparr>"

definition ScheduleFrom :: "string \<Rightarrow> send_window list \<Rightarrow> schedule" where
  "ScheduleFrom tz ws =
     (if ws = [] then DefaultSchedule tz
      else \<lparr>timezone = (if tz = [] then ''UTC'' else tz), sched_windows = ws\<rparr>)"

fun collect_days ::
  "send_window list \<Rightarrow> (nat \<Rightarrow> interval list) \<Rightarrow> schedule_error + (nat \<Rightarrow> interval list)" where
  "collect_days [] days = Inr days"
| "collect_days (sw # sws) days =
     (if sw_weekday sw < 0 \<or> 6 < sw_weekday sw then Inl (ErrBadWeekday (sw_weekday sw))
      else let d = nat (sw_weekday sw) in
        collect_days sws
          (days(d := days d @ [\<lparr>start_min = sw_start sw, end_min = sw_end sw\<rparr>])))"

definition Compile ::
  "(string \<Rightarrow> location option) \<Rightarrow> schedule \<Rightarrow> schedule_error + window" where
  "Compile load s =
     (case load (timezone s) of
        None \<Rightarrow> Inl (ErrUnknownTimezone (timezone s))
      | Some l \<Rightarrow>
          (case collect_days (sched_windows s) (\<lambda>_. []) of
             Inl e \<Rightarrow> Inl e
           | Inr days \<Rightarrow>
               (case NewWindow (Some l) days of
                  Inl ErrNoOpenInterval \<Rightarrow> Inl ErrEmptySchedule
                | Inl e \<Rightarrow> Inl (ErrBadSchedule e)
                | Inr w \<Rightarrow> Inr w)))"

end
