(* ===== verification/Personalize.thy ===== *)
theory Personalize
  imports Inroad_Prelude
begin

text \<open>
  Merge-field substitution (\<open>internal/worker/personalize/personalize.go\<close>): the custom fields
  first, then the four fixed fields, verbatim for text and escaped for HTML. A string is its list
  of bytes; the two regular expressions and \<open>strings.NewReplacer\<close> are left-to-right scans for the
  first match, as the standard library defines them. The warning about leftover placeholders has
  no effect on the result and is left out. A missing key of the map reads as the empty string.
\<close>

record contact_vars =
  FirstName :: string
  LastName :: string
  Email :: string
  Company :: string
  Custom :: "(string \<times> string) list"

subsection \<open>The standard library\<close>

text \<open>Leading white space (\<open>unicode.IsSpace\<close>) of UTF-8 text: the number of bytes of the first
  rune if it is a space.\<close>

fun space_prefix :: "nat list \<Rightarrow> nat" where
  "space_prefix [] = 0"
| "space_prefix (a # bs) =
     (if a \<in> {9, 10, 11, 12, 13, 32} then 1
      else if a = 0xC2 \<and> bs \<noteq> [] \<and> hd bs \<in> {0x85, 0xA0} then 2
      else if (case bs of b # c # _ \<Rightarrow>
             (a = 0xE1 \<and> b = 0x9A \<and> c = 0x80)
             \<or> (a = 0xE2 \<and> b = 0x80 \<and> (c \<in> {0x80..0x8A} \<or> c \<in> {0xA8, 0xA9, 0xAF}))
             \<or> (a = 0xE2 \<and> b = 0x81 \<and> c = 0x9F)
             \<or> (a = 0xE3 \<and> b = 0x80 \<and> c = 0x80)
           | _ \<Rightarrow> False) then 3
      else 0)"

text \<open>Whether \<open>strings.TrimSpace\<close> leaves nothing.\<close>

function all_space :: "nat list \<Rightarrow> bool" where
  "all_space bs =
     (if bs = [] then True
      else if space_prefix bs = 0 then False
      else all_space (drop (space_prefix bs) bs))"
  by pat_completeness auto
termination
  by (relation "measure length") auto

declare all_space.simps [simp del]

definition is_blank :: "string \<Rightarrow> bool" where
  "is_blank s = all_space (map of_char s)"

definition escape_char :: "char \<Rightarrow> string" where
  "escape_char c =
     (if c = CHR ''&'' then ''&amp;''
      else if c = CHR 0x27 then ''&#39;''
      else if c = CHR ''<'' then ''&lt;''
      else if c = CHR ''>'' then ''&gt;''
      else if c = CHR 0x22 then ''&#34;''
      else [c])"

definition EscapeString :: "string \<Rightarrow> string" where
  "EscapeString s = concat (map escape_char s)"

fun strip_prefix :: "string \<Rightarrow> string \<Rightarrow> string option" where
  "strip_prefix [] s = Some s"
| "strip_prefix (p # ps) [] = None"
| "strip_prefix (p # ps) (c # cs) = (if p = c then strip_prefix ps cs else None)"

text \<open>A scan that replaces the first match at each position: \<open>m s\<close> is the replacement for a match
  at the front of \<open>s\<close> and the number of bytes matched.\<close>

function replace_scan :: "(string \<Rightarrow> (string \<times> nat) option) \<Rightarrow> string \<Rightarrow> string" where
  "replace_scan m [] = []"
| "replace_scan m (c # cs) =
     (case m (c # cs) of
        Some (r, n) \<Rightarrow> r @ replace_scan m (drop (max 1 n) (c # cs))
      | None \<Rightarrow> c # replace_scan m cs)"
  by pat_completeness auto
termination
  by (relation "measure (\<lambda>(_, s). length s)") auto

subsection \<open>Placeholders\<close>

definition key_char :: "char \<Rightarrow> bool" where
  "key_char c \<longleftrightarrow> (let n = of_char c :: nat in
     n \<in> {97..122} \<or> n \<in> {65..90} \<or> n \<in> {48..57} \<or> n = 95)"

text \<open>\<open>\{\{custom\.([a-zA-Z0-9_]+)\}\}\<close> at the front of a string, with the key.\<close>

definition match_custom :: "string \<Rightarrow> (string \<times> nat) option" where
  "match_custom s =
     (case strip_prefix ''{{custom.'' s of
        None \<Rightarrow> None
      | Some t \<Rightarrow>
          let key = takeWhile key_char t in
          if key \<noteq> [] \<and> take 2 (drop (length key) t) = ''}}'' then Some (key, 11 + length key)
          else None)"

definition custom_value :: "contact_vars \<Rightarrow> string \<Rightarrow> string" where
  "custom_value v key = (case map_of (Custom v) key of None \<Rightarrow> [] | Some x \<Rightarrow> x)"

text \<open>The pairs given to \<open>strings.NewReplacer\<close>; at one position the earlier pair wins.\<close>

definition match_fixed :: "(string \<times> string) list \<Rightarrow> string \<Rightarrow> (string \<times> nat) option" where
  "match_fixed pairs s =
     first_some (\<lambda>(pat, r). if strip_prefix pat s = None then None else Some (r, length pat)) pairs"

definition substitute :: "string \<Rightarrow> contact_vars \<Rightarrow> bool \<Rightarrow> string" where
  "substitute tmpl v escape =
     (let name = (if is_blank (FirstName v) then ''there'' else FirstName v);
          enc = (\<lambda>s. if escape then EscapeString s else s);
          out = replace_scan
            (\<lambda>s. map_option (\<lambda>(key, n). (enc (custom_value v key), n)) (match_custom s)) tmpl
      in replace_scan
           (match_fixed
              [(''{{first_name}}'', enc name), (''{{last_name}}'', enc (LastName v)),
               (''{{email}}'', enc (Email v)), (''{{company}}'', enc (Company v))]) out)"

definition Text :: "string \<Rightarrow> contact_vars \<Rightarrow> string" where
  "Text tmpl v = substitute tmpl v False"

definition HTML :: "string \<Rightarrow> contact_vars \<Rightarrow> string" where
  "HTML tmpl v = substitute tmpl v True"

subsection \<open>Markup\<close>

definition markup :: "char \<Rightarrow> bool" where
  "markup c \<longleftrightarrow> c \<in> {CHR ''<'', CHR ''>'', CHR 0x22, CHR 0x27}"

lemma markup_free_escape: "filter markup (EscapeString s) = []"
  by (induction s) (auto simp: EscapeString_def escape_char_def markup_def)

text \<open>A scan whose matches and replacements carry no markup keeps the markup of its input.\<close>

lemma replace_scan_markup:
  assumes "\<And>s r n. m s = Some (r, n) \<Longrightarrow> filter markup r = [] \<and> 0 < n \<and> filter markup (take n s) = []"
  shows "filter markup (replace_scan m s) = filter markup s"
  using assms
proof (induction m s rule: replace_scan.induct)
  case (1 m)
  then show ?case by simp
next
  case (2 m c cs)
  show ?case
  proof (cases "m (c # cs)")
    case None
    with 2 show ?thesis by simp
  next
    case (Some x)
    obtain r n where rn: "x = (r, n)" by force
    have law: "filter markup r = []" "0 < n" "filter markup (take n (c # cs)) = []"
      using "2.prems" Some rn by auto
    have "filter markup (c # cs) = filter markup (take n (c # cs)) @ filter markup (drop n (c # cs))"
      by (metis append_take_drop_id filter_append)
    with law "2.IH"(2) [OF Some rn [symmetric] "2.prems"] Some rn show ?thesis by (simp add: max_absorb2)
  qed
qed

lemma strip_prefix_Some: "strip_prefix p s = Some t \<longleftrightarrow> s = p @ t"
  by (induction p s rule: strip_prefix.induct) auto

lemma key_char_markup: "key_char c \<Longrightarrow> \<not> markup c"
  by (auto simp: key_char_def markup_def Let_def)

lemma match_custom_markup:
  assumes "match_custom s = Some (key, n)"
  shows "0 < n \<and> filter markup (take n s) = []"
proof -
  from assms obtain t where t: "s = ''{{custom.'' @ t" and key: "key = takeWhile key_char t"
    and close: "take 2 (drop (length key) t) = ''}}''" and n: "n = 11 + length key"
    by (auto simp: match_custom_def Let_def strip_prefix_Some split: option.splits if_splits)
  have "take (length key + 2) t = take (length key) t @ take 2 (drop (length key) t)"
    by (simp only: take_add)
  also have "take (length key) t = key"
    unfolding key by (metis takeWhile_eq_take)
  finally have "take n s = ''{{custom.'' @ key @ ''}}''"
    using close n t by (simp add: numeral_eq_Suc)
  moreover have "filter markup key = []"
    unfolding key by (auto simp: filter_empty_conv dest: set_takeWhileD key_char_markup)
  ultimately show ?thesis using n by (simp add: markup_def)
qed

lemma match_fixed_markup:
  assumes "match_fixed pairs s = Some (r, n)"
    and "\<forall>(pat, r) \<in> set pairs. pat \<noteq> [] \<and> filter markup pat = [] \<and> filter markup r = []"
  shows "filter markup r = [] \<and> 0 < n \<and> filter markup (take n s) = []"
proof -
  from first_some_SomeD [OF assms(1) [unfolded match_fixed_def]] obtain pat t where
    "(pat, r) \<in> set pairs" "s = pat @ t" "n = length pat"
    by (auto simp: strip_prefix_Some split: if_splits)
  with assms(2) show ?thesis by auto
qed

text \<open>C12: A contact cannot inject markup. In an HTML body the angle brackets and quotes of the
  result are exactly those of the template, in the same order, whatever the contact's name,
  company, address and custom fields contain.\<close>

theorem HTML_markup: "filter markup (HTML tmpl v) = filter markup tmpl"
proof -
  let ?name = "if is_blank (FirstName v) then ''there'' else FirstName v"
  let ?custom = "\<lambda>s. map_option (\<lambda>(key, n). (EscapeString (custom_value v key), n)) (match_custom s)"
  let ?fixed = "match_fixed
     [(''{{first_name}}'', EscapeString ?name), (''{{last_name}}'', EscapeString (LastName v)),
      (''{{email}}'', EscapeString (Email v)), (''{{company}}'', EscapeString (Company v))]"
  have "filter markup (replace_scan ?custom tmpl) = filter markup tmpl"
    by (rule replace_scan_markup) (auto simp: markup_free_escape dest: match_custom_markup)
  moreover have "filter markup (replace_scan ?fixed s) = filter markup s" for s
    by (rule replace_scan_markup, erule match_fixed_markup) (simp add: markup_free_escape, simp add: markup_def)
  ultimately show ?thesis by (simp add: HTML_def substitute_def Let_def)
qed

text \<open>A custom value is scanned again for the fixed placeholders, so text a contact supplies is not
  inserted verbatim when it happens to be one of them.\<close>

lemma custom_value_rescanned:
  "Text ''{{custom.note}}'' \<lparr>FirstName = ''Ada'', LastName = [], Email = ''ada@x.io'', Company = [],
     Custom = [(''note'', ''{{email}}'')]\<rparr> = ''ada@x.io''"
  by (simp add: Text_def substitute_def match_custom_def match_fixed_def key_char_def is_blank_def
      all_space.simps custom_value_def Let_def)

end
