(* ===== verification/Step_Send.thy ===== *)
theory Step_Send
  imports Enrollment Send_Window Personalize
begin

text \<open>
  The delivery claim of one step and what the worker reports back about it: the \<open>local*\<close> methods
  of \<open>internal/coreapi/inprocess/stepsendjob.go\<close> from \<open>localClaimStepSend\<close> on, over the tables
  they write, with the SQL statements they run (\<open>queries/stepsend.sql\<close>, \<open>queries/send.sql\<close>,
  \<open>queries/mailbox.sql\<close>).

  Every operation takes the failures of its statements (\<open>faults\<close>) and the database's \<open>now()\<close>, and
  returns an error or a result beside the database it leaves. The libraries the code calls and that
  are not part of the repository are the fields of \<open>lib\<close>: SHA-256, the zone database, and the
  text form and name-based ids of the uuid package. Identifiers in a job are text, as in the
  source. Metrics are left out, and a status is the text of the column.
\<close>

subsection \<open>Libraries and errors\<close>

record lib =
  sha256 :: "string \<Rightarrow> string"
  LoadLocation :: "string \<Rightarrow> location option"
  uuid_Parse :: "string \<Rightarrow> uuid option"
  uuid_String :: "uuid \<Rightarrow> string"
  NewSHA1 :: "uuid \<Rightarrow> string \<Rightarrow> uuid"

datatype core_error =
    ErrParse
  | ErrDb string
  | ErrNoRows
  | ErrCrossTenant
  | ErrSchedule schedule_error
  | ErrPlace cadence_error
  | ErrOther string

definition lift_db :: "string + 'a \<Rightarrow> core_error + 'a" where
  "lift_db r = (case r of Inl e \<Rightarrow> Inl (ErrDb e) | Inr x \<Rightarrow> Inr x)"

subsection \<open>Rows\<close>

record send =
  sd_id :: uuid
  sd_ws :: uuid
  sd_campaign :: uuid
  sd_contact :: uuid
  sd_mailbox :: uuid
  sd_to_email :: string
  sd_step_order :: int
  sd_references :: string
  sd_status :: string
  sd_error :: string
  sd_message_id :: string
  sd_created_at :: instant
  sd_sent_at :: "instant option"
  sd_claimed_at :: "instant option"
  sd_variant :: "uuid option"
  sd_tracked :: bool

record mailbox =
  mb_id :: uuid
  mb_ws :: uuid
  mb_min_interval_seconds :: int
  mb_last_send_at :: "instant option"
  mb_provider :: string
  mb_email :: string
  mb_display_name :: string
  mb_smtp_host :: string
  mb_smtp_port :: int
  mb_smtp_username :: string
  mb_secret_ciphertext :: string
  mb_allow_plaintext :: bool
  mb_daily_cap :: int
  mb_ramp_enabled :: bool
  mb_ramp_start_cap :: int
  mb_ramp_days :: int
  mb_status :: string
  mb_created_at :: "instant option"

record db =
  db_enrollments :: "enrollment list"
  db_sends :: "send list"
  db_mailboxes :: "mailbox list"

text \<open>The key of the unique index a claim conflicts on.\<close>

definition send_key :: "send \<Rightarrow> uuid \<times> uuid \<times> int" where
  "send_key r = (sd_campaign r, sd_contact r, sd_step_order r)"

subsection \<open>The job\<close>

text \<open>The transport of a job (\<open>Provider\<close> to \<open>AllowPlaintext\<close>) is the \<open>mail.OutboundJob\<close> the handler
  copies it into.\<close>

record outbound_job =
  Provider :: string
  Host :: string
  Port :: int
  Username :: string
  Password :: string
  AllowPlaintext :: bool
  AccessToken :: string

record step_job =
  EnrollmentID :: string
  WorkspaceID :: string
  CampaignID :: string
  ContactID :: string
  MailboxID :: string
  SendID :: string
  CurrentStep :: int
  StepOrder :: int
  NextDelaySeconds :: int
  LastStep :: bool
  Skip :: bool
  Suppressed :: bool
  MailboxRemoved :: bool
  CampaignLimited :: bool
  NewLeadLimited :: bool
  HealthPaused :: bool
  CampaignPaused :: bool
  ConditionPending :: bool
  RecheckAt :: instant
  NotDueUntil :: instant
  EffectiveDailyCap :: int
  SentToday :: int
  MinIntervalSeconds :: int
  ToEmail :: string
  Vars :: contact_vars
  Subject :: string
  ThreadSubject :: string
  BodyText :: string
  BodyHTML :: string
  VariantID :: string
  UnsubURL :: string
  InReplyTo :: string
  References :: string
  TrackingEnabled :: bool
  Schedule :: schedule
  FromEmail :: string
  FromName :: string
  Transport :: outbound_job

text \<open>The zero value of the struct, from which the early returns build their jobs.\<close>

definition zero_job :: step_job where
  "zero_job =
     \<lparr>EnrollmentID = [], WorkspaceID = [], CampaignID = [], ContactID = [], MailboxID = [],
      SendID = [], CurrentStep = 0, StepOrder = 0, NextDelaySeconds = 0, LastStep = False,
      Skip = False, Suppressed = False, MailboxRemoved = False, CampaignLimited = False,
      NewLeadLimited = False, HealthPaused = False, CampaignPaused = False,
      ConditionPending = False, RecheckAt = 0, NotDueUntil = 0, EffectiveDailyCap = 0,
      SentToday = 0, MinIntervalSeconds = 0, ToEmail = [],
      Vars = \<lparr>FirstName = [], LastName = [], Email = [], Company = [], Custom = []\<rparr>,
      Subject = [], ThreadSubject = [],
      BodyText = [], BodyHTML = [], VariantID = [], UnsubURL = [], InReplyTo = [],
      References = [], TrackingEnabled = False,
      Schedule = \<lparr>timezone = [], sched_windows = []\<rparr>, FromEmail = [], FromName = [],
      Transport = \<lparr>Provider = [], Host = [], Port = 0, Username = [], Password = [],
                   AllowPlaintext = False, AccessToken = []\<rparr>\<rparr>"

definition NotYetDue :: "step_job \<Rightarrow> instant \<Rightarrow> bool" where
  "NotYetDue j now \<longleftrightarrow> \<not> is_zero_time (NotDueUntil j) \<and> now < NotDueUntil j"

definition CarriesTracking :: "step_job \<Rightarrow> bool" where
  "CarriesTracking j \<longleftrightarrow> TrackingEnabled j \<and> BodyHTML j \<noteq> []"

record step_result =
  res_status :: string
  res_message_id :: string
  res_err :: string

record advance =
  Completed :: bool
  NextDueAt :: instant

datatype claim_outcome = ClaimWon | ClaimSkip | ClaimAlreadySent | ClaimDeferred

subsection \<open>Statements on the sends and the mailboxes\<close>

definition claimLeaseSeconds :: int where "claimLeaseSeconds = 300"

definition claim_fields :: "instant \<Rightarrow> uuid option \<Rightarrow> bool \<Rightarrow> send \<Rightarrow> send" where
  "claim_fields now var tracked r =
     r\<lparr>sd_status := ''sending'', sd_claimed_at := Some now, sd_error := [],
       sd_variant := var, sd_tracked := tracked\<rparr>"

definition reclaimable :: "instant \<Rightarrow> uuid \<Rightarrow> send \<Rightarrow> bool" where
  "reclaimable now ws r \<longleftrightarrow>
     sd_status r = ''sending'' \<and> sd_ws r = ws
     \<and> (case sd_claimed_at r of None \<Rightarrow> False | Some c \<Rightarrow> c < now - claimLeaseSeconds * second)"

text \<open>\<open>INSERT ... ON CONFLICT (campaign_id, contact_id, step_order) DO UPDATE ... WHERE\<close>: the row
  that is new is \<open>row\<close>; no result is \<open>pgx.ErrNoRows\<close>, the result is \<open>freshly_inserted\<close>.\<close>

definition ClaimStepSend :: "instant \<Rightarrow> send \<Rightarrow> send list \<Rightarrow> (bool \<times> send list) option" where
  "ClaimStepSend now row rows =
     (case select_one (\<lambda>r. send_key r = send_key row) rows of
        None \<Rightarrow> Some (True, rows @ [row])
      | Some r \<Rightarrow>
          if reclaimable now (sd_ws row) r then
            Some (sd_created_at r = now,
              update_where (\<lambda>r. send_key r = send_key row)
                (claim_fields now (sd_variant row) (sd_tracked row)) rows)
          else None)"

definition GetSendState :: "uuid \<Rightarrow> uuid \<Rightarrow> send list \<Rightarrow> (string \<times> string) option" where
  "GetSendState i ws rows =
     map_option (\<lambda>r. (sd_status r, sd_message_id r))
       (select_one (\<lambda>r. sd_id r = i \<and> sd_ws r = ws) rows)"

definition SetSendResult ::
  "instant \<Rightarrow> uuid \<Rightarrow> uuid \<Rightarrow> string \<Rightarrow> string \<Rightarrow> string \<Rightarrow> send list \<Rightarrow> send list" where
  "SetSendResult now i ws stat mid err =
     update_where (\<lambda>r. sd_id r = i \<and> sd_ws r = ws)
       (\<lambda>r. r\<lparr>sd_status := stat, sd_message_id := mid, sd_error := err,
             sd_sent_at := (if stat = ''sent'' then Some now else sd_sent_at r)\<rparr>)"

text \<open>The instant of the text \<open>'epoch'\<close>, January 1, 1970.\<close>

definition epoch :: instant where "epoch = 62135596800 * second"

definition ReleaseSend :: "uuid \<Rightarrow> uuid \<Rightarrow> send list \<Rightarrow> send list" where
  "ReleaseSend i ws =
     update_where (\<lambda>r. sd_id r = i \<and> sd_ws r = ws \<and> sd_status r = ''sending'')
       (\<lambda>r. r\<lparr>sd_claimed_at := Some epoch\<rparr>)"

definition StepSendNotYetDue :: "instant \<Rightarrow> instant option \<Rightarrow> bool" where
  "StepSendNotYetDue now notDueUntil = (case notDueUntil of None \<Rightarrow> False | Some d \<Rightarrow> now < d)"

definition slot_free :: "instant \<Rightarrow> uuid \<Rightarrow> uuid \<Rightarrow> mailbox \<Rightarrow> bool" where
  "slot_free now i ws m \<longleftrightarrow> mb_id m = i \<and> mb_ws m = ws
     \<and> (mb_min_interval_seconds m \<le> 0
        \<or> (case mb_last_send_at m of None \<Rightarrow> True
           | Some l \<Rightarrow> l \<le> now - mb_min_interval_seconds m * second))"

definition ReserveMailboxSendSlot ::
  "instant \<Rightarrow> uuid \<Rightarrow> uuid \<Rightarrow> mailbox list \<Rightarrow> mailbox list option" where
  "ReserveMailboxSendSlot now i ws ms =
     (if select_one (slot_free now i ws) ms = None then None
      else Some (update_where (slot_free now i ws) (\<lambda>m. m\<lparr>mb_last_send_at := Some now\<rparr>) ms))"

subsection \<open>Claiming\<close>

definition stepSendIDNamespace :: uuid where
  "stepSendIDNamespace = 0x6f1b1a1e6b7a4c9e9c1e9b8e2a7d5f3a"

definition deriveStepSendID :: "lib \<Rightarrow> uuid \<Rightarrow> uuid \<Rightarrow> int \<Rightarrow> uuid" where
  "deriveStepSendID L campaignID contactID stepOrder =
     NewSHA1 L stepSendIDNamespace
       (uuid_String L campaignID @ ''|'' @ uuid_String L contactID @ ''|'' @ Itoa stepOrder)"

definition variantUUID :: "lib \<Rightarrow> string \<Rightarrow> uuid option" where
  "variantUUID L i = (if i = [] then None else uuid_Parse L i)"

definition claim_row :: "lib \<Rightarrow> instant \<Rightarrow> uuid \<Rightarrow> uuid \<Rightarrow> uuid \<Rightarrow> uuid \<Rightarrow> uuid \<Rightarrow> step_job \<Rightarrow> send" where
  "claim_row L now ws campaignID contactID mailboxID sendID job =
     \<lparr>sd_id = sendID, sd_ws = ws, sd_campaign = campaignID, sd_contact = contactID,
      sd_mailbox = mailboxID, sd_to_email = ToEmail job, sd_step_order = wrap32 (StepOrder job),
      sd_references = References job, sd_status = ''sending'', sd_error = [],
      sd_message_id = [], sd_created_at = now, sd_sent_at = None, sd_claimed_at = Some now,
      sd_variant = variantUUID L (VariantID job), sd_tracked = CarriesTracking job\<rparr>"

text \<open>The lost claim: a status lookup decides between recovering forward and skipping.\<close>

definition lost_claim :: "faults \<Rightarrow> uuid \<Rightarrow> uuid \<Rightarrow> send list \<Rightarrow> core_error + claim_outcome" where
  "lost_claim flt sendID ws rows =
     (case flt ''GetSendState'' of
        Some e \<Rightarrow> Inl (ErrDb e)
      | None \<Rightarrow>
          (case GetSendState sendID ws rows of
             None \<Rightarrow> Inr ClaimSkip
           | Some (stat, _) \<Rightarrow> if stat = ''sent'' then Inr ClaimAlreadySent else Inr ClaimSkip))"

definition claim_tx ::
  "lib \<Rightarrow> faults \<Rightarrow> instant \<Rightarrow> uuid \<Rightarrow> uuid \<Rightarrow> uuid \<Rightarrow> uuid \<Rightarrow> uuid \<Rightarrow> step_job \<Rightarrow> db
     \<Rightarrow> (core_error + claim_outcome) \<times> db" where
  "claim_tx L flt now ws campaignID contactID mailboxID sendID job s =
     (case flt ''ClaimStepSend'' of
        Some e \<Rightarrow> (Inl (ErrDb e), s)
      | None \<Rightarrow>
          (case ClaimStepSend now (claim_row L now ws campaignID contactID mailboxID sendID job) (db_sends s) of
             None \<Rightarrow> (lost_claim flt sendID ws (db_sends s), s)
           | Some (fresh, rows) \<Rightarrow>
               (case flt ''ReserveMailboxSendSlot'' of
                  Some e \<Rightarrow> (Inl (ErrDb e), s)
                | None \<Rightarrow>
                    (case ReserveMailboxSendSlot now mailboxID ws (db_mailboxes s) of
                       None \<Rightarrow> (Inr ClaimDeferred, s)
                     | Some ms \<Rightarrow>
                         (case flt ''Commit'' of
                            Some e \<Rightarrow> (Inl (ErrDb e), s)
                          | None \<Rightarrow> (Inr ClaimWon, s\<lparr>db_sends := rows, db_mailboxes := ms\<rparr>))))))"

definition localClaimStepSend ::
  "lib \<Rightarrow> faults \<Rightarrow> instant \<Rightarrow> step_job \<Rightarrow> db \<Rightarrow> (core_error + claim_outcome) \<times> db" where
  "localClaimStepSend L flt now job s =
     (case (uuid_Parse L (WorkspaceID job), uuid_Parse L (CampaignID job), uuid_Parse L (ContactID job),
            uuid_Parse L (MailboxID job), uuid_Parse L (SendID job)) of
        (Some ws, Some campaignID, Some contactID, Some mailboxID, Some sendID) \<Rightarrow>
          (case flt ''StepSendNotYetDue'' of
             Some e \<Rightarrow> (Inl (ErrDb e), s)
           | None \<Rightarrow>
               if StepSendNotYetDue now
                    (if is_zero_time (NotDueUntil job) then None else Some (NotDueUntil job))
               then (Inr ClaimDeferred, s)
               else (case flt ''Begin'' of
                       Some e \<Rightarrow> (Inl (ErrDb e), s)
                     | None \<Rightarrow> claim_tx L flt now ws campaignID contactID mailboxID sendID job s))
      | _ \<Rightarrow> (Inl ErrParse, s))"

subsection \<open>Reporting a send\<close>

text \<open>A statement on its own, outside a transaction.\<close>

definition run_stmt :: "faults \<Rightarrow> string \<Rightarrow> (db \<Rightarrow> db) \<Rightarrow> db \<Rightarrow> (core_error + unit) \<times> db" where
  "run_stmt flt name f s =
     (case flt name of Some e \<Rightarrow> (Inl (ErrDb e), s) | None \<Rightarrow> (Inr (), f s))"

definition localMarkStepDelivered ::
  "lib \<Rightarrow> faults \<Rightarrow> instant \<Rightarrow> step_job \<Rightarrow> string \<Rightarrow> db \<Rightarrow> (core_error + unit) \<times> db" where
  "localMarkStepDelivered L flt now job messageID s =
     (case (uuid_Parse L (WorkspaceID job), uuid_Parse L (SendID job)) of
        (Some ws, Some sendID) \<Rightarrow>
          run_stmt flt ''SetSendResult''
            (\<lambda>s. s\<lparr>db_sends := SetSendResult now sendID ws ''sent'' messageID [] (db_sends s)\<rparr>) s
      | _ \<Rightarrow> (Inl ErrParse, s))"

definition localReleaseStepSend ::
  "lib \<Rightarrow> faults \<Rightarrow> step_job \<Rightarrow> db \<Rightarrow> (core_error + unit) \<times> db" where
  "localReleaseStepSend L flt job s =
     (case (uuid_Parse L (WorkspaceID job), uuid_Parse L (SendID job)) of
        (Some ws, Some sendID) \<Rightarrow>
          run_stmt flt ''ReleaseSend'' (\<lambda>s. s\<lparr>db_sends := ReleaseSend sendID ws (db_sends s)\<rparr>) s
      | _ \<Rightarrow> (Inl ErrParse, s))"

definition nextStepDueAt :: "lib \<Rightarrow> step_job \<Rightarrow> instant \<Rightarrow> core_error + instant" where
  "nextStepDueAt L job sentAt =
     (if LastStep job then Inr 0
      else case Compile (LoadLocation L) (Schedule job) of
             Inl e \<Rightarrow> Inl (ErrSchedule e)
           | Inr win \<Rightarrow>
               (case Next (sha256 L) win (sentAt + NextDelaySeconds job * second) (EnrollmentID job) of
                  Inl e \<Rightarrow> Inl (ErrPlace e)
                | Inr t \<Rightarrow> Inr t))"

text \<open>The transaction both cursor advances share: what precedes \<open>MarkStepSent\<close> in it is \<open>pre\<close>.\<close>

definition cursor_tx ::
  "faults \<Rightarrow> instant \<Rightarrow> uuid \<Rightarrow> uuid \<Rightarrow> step_job \<Rightarrow> instant \<Rightarrow> string
     \<Rightarrow> (db \<Rightarrow> core_error + db) \<Rightarrow> db \<Rightarrow> (core_error + advance) \<times> db" where
  "cursor_tx flt nowdb ws eid job nextDueAt threadRoot pre s =
     (case flt ''Begin'' of
        Some e \<Rightarrow> (Inl (ErrDb e), s)
      | None \<Rightarrow>
          (case pre s of
             Inl e \<Rightarrow> (Inl e, s)
           | Inr t \<Rightarrow>
               (case MarkStepSent (PgStore flt nowdb) ws eid (wrap32 (StepOrder job)) nextDueAt
                       (LastStep job) threadRoot (db_enrollments t) of
                  Inl e \<Rightarrow> (Inl (ErrDb e), s)
                | Inr es \<Rightarrow>
                    (case flt ''Commit'' of
                       Some e \<Rightarrow> (Inl (ErrDb e), s)
                     | None \<Rightarrow> (Inr \<lparr>Completed = LastStep job, NextDueAt = nextDueAt\<rparr>,
                               t\<lparr>db_enrollments := es\<rparr>)))))"

definition sent_thread_root :: "faults \<Rightarrow> uuid \<Rightarrow> uuid \<Rightarrow> int \<Rightarrow> send list \<Rightarrow> core_error + string" where
  "sent_thread_root flt sendID ws sentStep rows =
     (if sentStep \<noteq> 1 then Inr []
      else case flt ''GetSendState'' of
             Some e \<Rightarrow> Inl (ErrDb e)
           | None \<Rightarrow>
               (case GetSendState sendID ws rows of
                  None \<Rightarrow> Inl ErrNoRows
                | Some (stat, mid) \<Rightarrow> Inr (if stat = ''sent'' then mid else [])))"

definition localAdvanceStepCursor ::
  "lib \<Rightarrow> faults \<Rightarrow> instant \<Rightarrow> instant \<Rightarrow> step_job \<Rightarrow> db \<Rightarrow> (core_error + advance) \<times> db" where
  "localAdvanceStepCursor L flt now nowdb job s =
     (case (uuid_Parse L (EnrollmentID job), uuid_Parse L (WorkspaceID job), uuid_Parse L (SendID job)) of
        (Some eid, Some ws, Some sendID) \<Rightarrow>
          (case sent_thread_root flt sendID ws (StepOrder job) (db_sends s) of
             Inl e \<Rightarrow> (Inl e, s)
           | Inr threadRoot \<Rightarrow>
               (case nextStepDueAt L job now of
                  Inl e \<Rightarrow> (Inl e, s)
                | Inr nextDueAt \<Rightarrow> cursor_tx flt nowdb ws eid job nextDueAt threadRoot Inr s))
      | _ \<Rightarrow> (Inl ErrParse, s))"

definition localFinalizeStepSend ::
  "lib \<Rightarrow> faults \<Rightarrow> instant \<Rightarrow> instant \<Rightarrow> step_job \<Rightarrow> step_result \<Rightarrow> db
     \<Rightarrow> (core_error + advance) \<times> db" where
  "localFinalizeStepSend L flt now nowdb job res s =
     (case (uuid_Parse L (EnrollmentID job), uuid_Parse L (WorkspaceID job), uuid_Parse L (SendID job)) of
        (Some eid, Some ws, Some sendID) \<Rightarrow>
          (case nextStepDueAt L job now of
             Inl e \<Rightarrow> (Inl e, s)
           | Inr nextDueAt \<Rightarrow>
               cursor_tx flt nowdb ws eid job nextDueAt
                 (if StepOrder job = 1 \<and> res_status res = ''sent'' then res_message_id res else [])
                 (\<lambda>s. case flt ''SetSendResult'' of
                        Some e \<Rightarrow> Inl (ErrDb e)
                      | None \<Rightarrow> Inr (s\<lparr>db_sends := SetSendResult nowdb sendID ws (res_status res)
                                  (res_message_id res) (res_err res) (db_sends s)\<rparr>)) s)
      | _ \<Rightarrow> (Inl ErrParse, s))"

subsection \<open>Stopping, deferring, sweeping\<close>

definition on_enrollments ::
  "(enrollment list \<Rightarrow> string + enrollment list) \<Rightarrow> db \<Rightarrow> (core_error + unit) \<times> db" where
  "on_enrollments f s =
     (case f (db_enrollments s) of
        Inl e \<Rightarrow> (Inl (ErrDb e), s)
      | Inr es \<Rightarrow> (Inr (), s\<lparr>db_enrollments := es\<rparr>))"

definition localMarkStepStopped ::
  "lib \<Rightarrow> faults \<Rightarrow> instant \<Rightarrow> string \<Rightarrow> string \<Rightarrow> string \<Rightarrow> db \<Rightarrow> (core_error + unit) \<times> db" where
  "localMarkStepStopped L flt now enrollmentID workspaceID reason s =
     (case (uuid_Parse L enrollmentID, uuid_Parse L workspaceID) of
        (Some eid, Some ws) \<Rightarrow> on_enrollments (MarkStepStopped (PgStore flt now) ws eid reason) s
      | _ \<Rightarrow> (Inl ErrParse, s))"

definition localDeferEnrollment ::
  "lib \<Rightarrow> faults \<Rightarrow> instant \<Rightarrow> string \<Rightarrow> string \<Rightarrow> instant \<Rightarrow> db \<Rightarrow> (core_error + unit) \<times> db" where
  "localDeferEnrollment L flt now enrollmentID workspaceID until s =
     (case (uuid_Parse L enrollmentID, uuid_Parse L workspaceID) of
        (Some eid, Some ws) \<Rightarrow> on_enrollments (Reschedule (PgStore flt now) ws eid until) s
      | _ \<Rightarrow> (Inl ErrParse, s))"

definition localIncrementEnrollmentCapDeferrals ::
  "lib \<Rightarrow> faults \<Rightarrow> string \<Rightarrow> string \<Rightarrow> db \<Rightarrow> (core_error + int) \<times> db" where
  "localIncrementEnrollmentCapDeferrals L flt enrollmentID workspaceID s =
     (case (uuid_Parse L enrollmentID, uuid_Parse L workspaceID) of
        (Some eid, Some ws) \<Rightarrow>
          (case flt ''IncrementEnrollmentCapDeferrals'' of
             Some e \<Rightarrow> (Inl (ErrDb e), s)
           | None \<Rightarrow>
               (case IncrementEnrollmentCapDeferrals ws eid (db_enrollments s) of
                  None \<Rightarrow> (Inl ErrNoRows, s)
                | Some (n, es) \<Rightarrow> (Inr n, s\<lparr>db_enrollments := es\<rparr>)))
      | _ \<Rightarrow> (Inl ErrParse, s))"

end
