(* ===== verification/Spintax.thy ===== *)
theory Spintax
  imports Inroad_Prelude
begin

text \<open>
  Spin syntax (\<open>internal/platform/spintax/spintax.go\<close>): \<open>Expand\<close> resolves every
  \<open>{a|b|...}\<close> group to one option in a single left-to-right pass, and \<open>Seed\<close> is the FNV-1a fold
  of its parts. The pseudo-random source is a parameter: \<open>intn rng n\<close> is \<open>rng.IntN(n)\<close> of
  \<open>math/rand/v2\<close> with the source it leaves, of which only \<open>fst (intn rng n) < n\<close> is used, and
  \<open>new_pcg\<close> is the source \<open>NewPCG(seed, pcgSalt)\<close>. A string is its list of bytes. The output
  buffer, the stack of open groups and the count of resolved groups are those of the source.
\<close>

definition maxIterations :: nat where "maxIterations = 10000"
definition pcgSalt :: nat where "pcgSalt = 55930"

record frame =
  fr_start :: nat
  tainted :: bool

text \<open>Past the opening \<open>{{\<close>: the length up to and with the closing \<open>}}\<close> of a merge field.\<close>

fun mergeFieldSpan :: "string \<Rightarrow> nat option" where
  "mergeFieldSpan (c # d # cs) =
     (if c = CHR ''{'' then None
      else if c = CHR ''}'' \<and> d = CHR ''}'' then Some 2
      else map_option Suc (mergeFieldSpan (d # cs)))"
| "mergeFieldSpan _ = None"

definition merge_field :: "string \<Rightarrow> nat option" where
  "merge_field s =
     (case s of c # d # cs \<Rightarrow>
        if c = CHR ''{'' \<and> d = CHR ''{'' then map_option (\<lambda>k. k + 2) (mergeFieldSpan cs) else None
      | _ \<Rightarrow> None)"

text \<open>\<open>bytes.Split(inner, "|")\<close>.\<close>

fun split_bar :: "string \<Rightarrow> string list" where
  "split_bar [] = [[]]"
| "split_bar (c # cs) =
     (if c = CHR ''|'' then [] # split_bar cs
      else case split_bar cs of [] \<Rightarrow> [[c]] | o1 # os \<Rightarrow> (c # o1) # os)"

definition taint_top :: "frame list \<Rightarrow> frame list" where
  "taint_top st = (case st of [] \<Rightarrow> [] | f # fs \<Rightarrow> f\<lparr>tainted := True\<rparr> # fs)"

record 'r expand_state =
  ex_out :: string
  ex_stack :: "frame list"
  ex_resolved :: nat
  ex_rng :: 'r

text \<open>One byte that does not start a merge field.\<close>

definition expand_byte ::
  "('r \<Rightarrow> nat \<Rightarrow> nat \<times> 'r) \<Rightarrow> char \<Rightarrow> 'r expand_state \<Rightarrow> 'r expand_state" where
  "expand_byte intn c x =
     (if c = CHR ''{'' then
        x\<lparr>ex_stack := \<lparr>fr_start = length (ex_out x), tainted = False\<rparr> # ex_stack x,
          ex_out := ex_out x @ [c]\<rparr>
      else if c = CHR ''}'' \<and> ex_stack x \<noteq> [] then
        (let f = hd (ex_stack x);
             stack = tl (ex_stack x);
             options = split_bar (drop (fr_start f + 1) (ex_out x))
         in if \<not> tainted f \<and> ex_resolved x < maxIterations \<and> 1 < length options then
              (let (k, rng) = intn (ex_rng x) (length options)
               in x\<lparr>ex_out := take (fr_start f) (ex_out x) @ options ! k, ex_stack := stack,
                    ex_resolved := ex_resolved x + 1, ex_rng := rng\<rparr>)
            else x\<lparr>ex_out := ex_out x @ [c], ex_stack := taint_top stack\<rparr>)
      else x\<lparr>ex_out := ex_out x @ [c]\<rparr>)"

function expand_loop ::
  "('r \<Rightarrow> nat \<Rightarrow> nat \<times> 'r) \<Rightarrow> string \<Rightarrow> 'r expand_state \<Rightarrow> 'r expand_state" where
  "expand_loop intn [] x = x"
| "expand_loop intn (c # cs) x =
     (case merge_field (c # cs) of
        Some k \<Rightarrow> expand_loop intn (drop k (c # cs)) (x\<lparr>ex_out := ex_out x @ take k (c # cs)\<rparr>)
      | None \<Rightarrow> expand_loop intn cs (expand_byte intn c x))"
  by pat_completeness auto
termination
proof (relation "measure (\<lambda>(_, s, _). length s)")
  show "wf (measure (\<lambda>(_, s, _). length s))" by simp
next
  fix intn :: "'r \<Rightarrow> nat \<Rightarrow> nat \<times> 'r" and c cs x k
  assume "merge_field (c # cs) = Some k"
  then have "0 < k" by (auto simp: merge_field_def split: list.splits if_splits)
  then show "((intn, drop k (c # cs), x\<lparr>ex_out := ex_out x @ take k (c # cs)\<rparr>), intn, c # cs, x)
      \<in> measure (\<lambda>(_, s, _). length s)" by simp
next
  fix intn :: "'r \<Rightarrow> nat \<Rightarrow> nat \<times> 'r" and c cs x
  show "((intn, cs, expand_byte intn c x), intn, c # cs, x) \<in> measure (\<lambda>(_, s, _). length s)" by simp
qed

definition Expand ::
  "('r \<Rightarrow> nat \<Rightarrow> nat \<times> 'r) \<Rightarrow> (nat \<Rightarrow> nat \<Rightarrow> 'r) \<Rightarrow> string \<Rightarrow> nat \<Rightarrow> string" where
  "Expand intn new_pcg s seed =
     ex_out (expand_loop intn s
       \<lparr>ex_out = [], ex_stack = [], ex_resolved = 0, ex_rng = new_pcg seed pcgSalt\<rparr>)"

text \<open>FNV-1a over 64 bits, a NUL byte between consecutive parts.\<close>

definition fnv_byte :: "nat \<Rightarrow> char \<Rightarrow> nat" where
  "fnv_byte h c = (semiring_bit_operations_class.xor h (of_char c) * 1099511628211) mod 2 ^ 64"

definition fnv_write :: "string \<Rightarrow> nat \<Rightarrow> nat" where
  "fnv_write s h = foldl fnv_byte h s"

fun seed_parts :: "string list \<Rightarrow> nat \<Rightarrow> nat" where
  "seed_parts [] h = h"
| "seed_parts [p] h = fnv_write p h"
| "seed_parts (p # q # ps) h = seed_parts (q # ps) (fnv_write [CHR 0x00] (fnv_write p h))"

definition Seed :: "string list \<Rightarrow> nat" where
  "Seed parts = seed_parts parts 14695981039346656037"

subsection \<open>The shape of an expansion\<close>

lemma split_bar_ne [simp]: "split_bar s \<noteq> []"
  by (induction s) (auto split: list.splits)

lemma split_bar_no: "CHR ''|'' \<notin> set s \<Longrightarrow> split_bar s = [s]"
  by (induction s) auto

lemma split_bar_mem: "p \<in> set (split_bar s) \<Longrightarrow> length p \<le> length s \<and> set p \<subseteq> set s"
proof (induction s arbitrary: p)
  case Nil
  then show ?case by simp
next
  case (Cons c cs)
  obtain q qs where q: "split_bar cs = q # qs" by (cases "split_bar cs") auto
  show ?case
    using Cons.prems Cons.IH [of p] Cons.IH [of q] q by (auto split: if_splits)
qed

lemma split_bar_join:
  assumes "CHR ''|'' \<notin> set a"
  shows "split_bar (a @ CHR ''|'' # s) = a # split_bar s"
  using assms by (induction a) auto

text \<open>Every open group starts inside the buffer, the inner ones after the outer ones.\<close>

fun stack_ok :: "nat \<Rightarrow> frame list \<Rightarrow> bool" where
  "stack_ok n [] = True"
| "stack_ok n (f # fs) = (fr_start f < n \<and> stack_ok (fr_start f + 1) fs)"

lemma stack_ok_mono: "stack_ok n st \<Longrightarrow> n \<le> m \<Longrightarrow> stack_ok m st"
  by (cases st) auto

lemma stack_ok_taint [simp]: "stack_ok n (taint_top st) = stack_ok n st"
  by (cases st) (auto simp: taint_top_def)

definition rng_law :: "('r \<Rightarrow> nat \<Rightarrow> nat \<times> 'r) \<Rightarrow> bool" where
  "rng_law intn \<longleftrightarrow> (\<forall>rng n. 0 < n \<longrightarrow> fst (intn rng n) < n)"

lemma rng_lawD: "rng_law intn \<Longrightarrow> 0 < n \<Longrightarrow> intn rng n = (k, rng') \<Longrightarrow> k < n"
  unfolding rng_law_def by (metis fst_conv)

end
