(* ===== verification/Advance_Handler.thy ===== *)
theory Advance_Handler
  imports Step_Send Spintax
begin

text \<open>
  The handler of a \<open>sequence:advance\<close> task (\<open>internal/worker/sequence/advance.go\<close>) and the retry
  classification of a send error (\<open>internal/platform/mail/retry.go\<close>).

  The handler is a value of type \<open>prog\<close>: a tree of the calls it makes to the control plane, the
  transport, the queue, the clock and the metrics, each with what it does with the answer, an error
  being one of the answers. Nothing is assumed about the answers here; \<open>Send_Engine\<close> runs the
  same tree against the database, alone and interleaved with other workers. The HTML rewriting for
  tracking, which rests on a third-party tokenizer, and the pseudo-random source of the spin syntax
  are parameters. Wiping the secrets after use is left out.
\<close>

subsection \<open>Send errors\<close>

text \<open>What \<open>errors.Is\<close> and \<open>errors.As\<close> find in the chain of an error.\<close>

record send_error =
  host_not_permitted :: bool
  net_timeout :: bool
  eof_or_refused :: bool
  smtp_error :: "(bool \<times> int) option"
  proto_error :: "int option"
  err_text :: string

definition Retryable :: "send_error \<Rightarrow> bool" where
  "Retryable err =
     (if host_not_permitted err then False
      else if net_timeout err then True
      else if eof_or_refused err then True
      else case smtp_error err of
             Some (temp, code) \<Rightarrow> if temp then True else 400 \<le> code \<and> code < 500
           | None \<Rightarrow>
               (case proto_error err of
                  Some code \<Rightarrow> 400 \<le> code \<and> code < 500
                | None \<Rightarrow> False))"

subsection \<open>Messages\<close>

record message =
  msg_from :: string
  msg_from_name :: string
  msg_to :: string
  msg_subject :: string
  msg_text :: string
  msg_html :: string
  msg_unsubscribe :: string
  msg_in_reply_to :: string
  msg_references :: string

record 'r handler_env =
  env_lib :: lib
  env_intn :: "'r \<Rightarrow> nat \<Rightarrow> nat \<times> 'r"
  env_new_pcg :: "nat \<Rightarrow> nat \<Rightarrow> 'r"
  env_rewrite :: "string \<Rightarrow> string \<Rightarrow> string \<Rightarrow> string \<Rightarrow> string"
  publicURL :: string
  trackingSecret :: string

definition newline :: string where "newline = [CHR 0x0A]"

definition withUnsubText :: "string \<Rightarrow> string \<Rightarrow> string" where
  "withUnsubText body url =
     (if url = [] then body
      else body @ newline @ newline @ ''---'' @ newline @ ''Unsubscribe: '' @ url)"

definition withUnsubHTML :: "string \<Rightarrow> string \<Rightarrow> string" where
  "withUnsubHTML body url =
     (if url = [] then body
      else body @ ''<hr><p style='' @ [CHR 0x22] @ ''font-size:12px;color:#888'' @ [CHR 0x22] @ ''>''
        @ ''<a href='' @ [CHR 0x22] @ url @ [CHR 0x22] @ ''>Unsubscribe</a></p>'')"

definition spin :: "'r handler_env \<Rightarrow> step_job \<Rightarrow> string \<Rightarrow> string \<Rightarrow> string" where
  "spin env job field tmpl = Expand (env_intn env) (env_new_pcg env) tmpl (Seed [SendID job, field])"

definition build_html :: "'r handler_env \<Rightarrow> step_job \<Rightarrow> string" where
  "build_html env job =
     (if BodyHTML job = [] then []
      else
        let body = withUnsubHTML (HTML (spin env job ''body_html'' (BodyHTML job)) (Vars job)) (UnsubURL job)
        in if CarriesTracking job
           then env_rewrite env body (publicURL env) (SendID job) (trackingSecret env)
           else body)"

definition build_message :: "'r handler_env \<Rightarrow> step_job \<Rightarrow> message" where
  "build_message env job =
     \<lparr>msg_from = FromEmail job, msg_from_name = FromName job, msg_to = ToEmail job,
      msg_subject = Text (spin env job ''subject'' (Subject job)) (Vars job),
      msg_text = withUnsubText (Text (spin env job ''body_text'' (BodyText job)) (Vars job)) (UnsubURL job),
      msg_html = build_html env job,
      msg_unsubscribe = UnsubURL job, msg_in_reply_to = InReplyTo job,
      msg_references = References job\<rparr>"

subsection \<open>Waiting\<close>

definition capBackoff :: duration where [const_defs]: "capBackoff = 6 * hour"
definition minBlockedBackoff :: duration where [const_defs]: "minBlockedBackoff = minute"
definition maxCapDeferrals :: int where [const_defs]: "maxCapDeferrals = 30"

definition snapToWindow :: "lib \<Rightarrow> schedule \<Rightarrow> string \<Rightarrow> instant \<Rightarrow> instant" where
  "snapToWindow L sched key target =
     (case Compile (LoadLocation L) sched of
        Inl _ \<Rightarrow> target
      | Inr win \<Rightarrow> (case Next (sha256 L) win target key of Inl _ \<Rightarrow> target | Inr t \<Rightarrow> t))"

definition next_midnight :: "instant \<Rightarrow> instant" where
  "next_midnight now = add_days UTC (go_date UTC (local_day UTC now) 0) 1"

definition nextAttemptIn :: "lib \<Rightarrow> schedule \<Rightarrow> string \<Rightarrow> bool \<Rightarrow> bool \<Rightarrow> instant \<Rightarrow> duration" where
  "nextAttemptIn L sched key dayBoundary poll now =
     (let target = now + capBackoff;
          midnight = next_midnight now;
          target' = (if dayBoundary \<and> (\<not> poll \<or> midnight < target) then midnight else target)
      in max (time_sub (snapToWindow L sched key target') now) minBlockedBackoff)"

definition blockedBackoff :: "lib \<Rightarrow> step_job \<Rightarrow> instant \<Rightarrow> duration" where
  "blockedBackoff L job now =
     nextAttemptIn L (Schedule job) (EnrollmentID job)
       (CampaignLimited job \<or> NewLeadLimited job) (HealthPaused job \<or> CampaignPaused job) now"

definition notDueBackoff :: "lib \<Rightarrow> step_job \<Rightarrow> instant \<Rightarrow> duration" where
  "notDueBackoff L job now =
     max (time_sub (snapToWindow L (Schedule job) (EnrollmentID job) (NotDueUntil job)) now)
       minBlockedBackoff"

subsection \<open>Calls\<close>

datatype task_error =
    ErrPayload
  | ErrCore core_error
  | ErrSend send_error
  | ErrQueue string

datatype prog =
    Return "task_error option"
  | Now "instant \<Rightarrow> prog"
  | Metric string prog
  | Warn string prog
  | GetStepSendJob string string "core_error + step_job \<Rightarrow> prog"
  | MarkStopped string string string "core_error + unit \<Rightarrow> prog"
  | IncrementDeferrals string string "core_error + int \<Rightarrow> prog"
  | ClaimSend step_job "core_error + claim_outcome \<Rightarrow> prog"
  | Send outbound_job message "send_error + string \<Rightarrow> prog"
  | MarkDelivered step_job string "core_error + unit \<Rightarrow> prog"
  | AdvanceCursor step_job "core_error + advance \<Rightarrow> prog"
  | ReleaseClaim step_job "core_error + unit \<Rightarrow> prog"
  | FinalizeSend step_job step_result "core_error + advance \<Rightarrow> prog"
  | EnqueueAdvanceAt string string instant "string option \<Rightarrow> prog"
  | EnqueueAdvanceIn string string duration "string option \<Rightarrow> prog"
  | EnqueueEvaluate string string "string option \<Rightarrow> prog"

text \<open>\<open>if err != nil { return err }\<close> after a call to the control plane or to the queue.\<close>

definition ok_core :: "('a \<Rightarrow> prog) \<Rightarrow> core_error + 'a \<Rightarrow> prog" where
  [step_simps]: "ok_core k r = (case r of Inl e \<Rightarrow> Return (Some (ErrCore e)) | Inr x \<Rightarrow> k x)"

definition ok_queue :: "prog \<Rightarrow> string option \<Rightarrow> prog" where
  [step_simps]: "ok_queue k r = (case r of Some e \<Rightarrow> Return (Some (ErrQueue e)) | None \<Rightarrow> k)"

definition finished :: prog where
  [step_simps]: "finished = Return None"

subsection \<open>The handler\<close>

record payload =
  p_enrollment :: string
  p_workspace :: string

definition stopReasonSuppressed :: string where [const_defs]: "stopReasonSuppressed = ''suppressed''"
definition stopReasonFailed :: string where [const_defs]: "stopReasonFailed = ''failed''"
definition stopReasonMailboxRemoved :: string where
  [const_defs]: "stopReasonMailboxRemoved = ''mailbox_removed''"

text \<open>The lazy chain: the next advance, unless the enrollment completed.\<close>

definition schedule_next :: "payload \<Rightarrow> advance \<Rightarrow> prog" where
  "schedule_next p adv =
     (if Completed adv then finished
      else EnqueueAdvanceAt (p_enrollment p) (p_workspace p) (NextDueAt adv) (ok_queue finished))"

definition advance_cursor :: "payload \<Rightarrow> step_job \<Rightarrow> prog" where
  "advance_cursor p job = AdvanceCursor job (ok_core (schedule_next p))"

definition evaluate_breaker :: "payload \<Rightarrow> step_job \<Rightarrow> prog \<Rightarrow> prog" where
  "evaluate_breaker p job k =
     EnqueueEvaluate (CampaignID job) (p_workspace p)
       (\<lambda>r. case r of Some _ \<Rightarrow> Warn ''deliverability_evaluate_enqueue_failed'' k | None \<Rightarrow> k)"

definition stop_with :: "payload \<Rightarrow> string \<Rightarrow> string \<Rightarrow> prog" where
  "stop_with p reason result =
     MarkStopped (p_enrollment p) (p_workspace p) reason (ok_core (\<lambda>_. Metric result finished))"

definition defer_in :: "payload \<Rightarrow> duration \<Rightarrow> prog" where
  "defer_in p d =
     EnqueueAdvanceIn (p_enrollment p) (p_workspace p) d (ok_queue (Metric ''deferred'' finished))"

definition deferForCapacity :: "'r handler_env \<Rightarrow> payload \<Rightarrow> step_job \<Rightarrow> prog" where
  "deferForCapacity env p job =
     IncrementDeferrals (p_enrollment p) (p_workspace p)
       (ok_core (\<lambda>n.
         let k = Now (\<lambda>now. defer_in p
                   (nextAttemptIn (env_lib env) (Schedule job) (p_enrollment p) True False now))
         in if maxCapDeferrals < n then Warn ''sequence_cap_deferrals_high'' k else k))"

text \<open>What the transport said about the message of a won claim.\<close>

definition after_send :: "payload \<Rightarrow> step_job \<Rightarrow> send_error + string \<Rightarrow> prog" where
  "after_send p job r =
     (case r of
        Inr msgID \<Rightarrow>
          MarkDelivered job msgID
            (ok_core (\<lambda>_. Metric ''sent'' (evaluate_breaker p job (advance_cursor p job))))
      | Inl sendErr \<Rightarrow>
          if Retryable sendErr then
            ReleaseClaim job (ok_core (\<lambda>_. Metric ''deferred'' (Return (Some (ErrSend sendErr)))))
          else
            FinalizeSend job \<lparr>res_status = ''failed'', res_message_id = [], res_err = err_text sendErr\<rparr>
              (ok_core (\<lambda>adv. Metric ''failed'' (schedule_next p adv))))"

text \<open>A claim that was refused for spacing or for being early.\<close>

definition claim_deferred :: "'r handler_env \<Rightarrow> payload \<Rightarrow> step_job \<Rightarrow> prog" where
  "claim_deferred env p job =
     (let delay = max (MinIntervalSeconds job * second) second
      in Now (\<lambda>now. defer_in p
           (if NotYetDue job now then max delay (notDueBackoff (env_lib env) job now) else delay)))"

definition after_claim :: "'r handler_env \<Rightarrow> payload \<Rightarrow> step_job \<Rightarrow> claim_outcome \<Rightarrow> prog" where
  "after_claim env p job outcome =
     (case outcome of
        ClaimSkip \<Rightarrow> Metric ''skipped'' finished
      | ClaimDeferred \<Rightarrow> claim_deferred env p job
      | ClaimAlreadySent \<Rightarrow> advance_cursor p job
      | ClaimWon \<Rightarrow> Send (Transport job) (build_message env job) (after_send p job))"

definition handle_job :: "'r handler_env \<Rightarrow> payload \<Rightarrow> step_job \<Rightarrow> prog" where
  "handle_job env p job =
     (if ConditionPending job then
        EnqueueAdvanceAt (p_enrollment p) (p_workspace p) (RecheckAt job) (ok_queue finished)
      else if Skip job then Metric ''skipped'' finished
      else if Suppressed job then stop_with p stopReasonSuppressed ''skipped''
      else if MailboxRemoved job then stop_with p stopReasonMailboxRemoved ''failed''
      else if CampaignLimited job \<or> NewLeadLimited job \<or> HealthPaused job \<or> CampaignPaused job then
        Now (\<lambda>now. defer_in p (blockedBackoff (env_lib env) job now))
      else if EffectiveDailyCap job \<le> 0 then stop_with p stopReasonFailed ''failed''
      else if EffectiveDailyCap job \<le> SentToday job then deferForCapacity env p job
      else ClaimSend job (ok_core (after_claim env p job)))"

definition AdvanceHandler :: "'r handler_env \<Rightarrow> payload option \<Rightarrow> prog" where
  "AdvanceHandler env t =
     (case t of
        None \<Rightarrow> Return (Some ErrPayload)
      | Some p \<Rightarrow>
          GetStepSendJob (p_enrollment p) (p_workspace p) (ok_core (handle_job env p)))"

subsection \<open>The sweeper\<close>

text \<open>\<open>SweepHandler\<close>: every overdue enrollment is enqueued again, at once; a failed enqueue is only
  counted. \<open>enq\<close> is the queue client's \<open>EnqueueAdvanceIn\<close>; the result is the error of the
  listing, or the ones enqueued in order and the number of failures.\<close>

definition SweepHandler ::
  "core_error + (string \<times> string) list \<Rightarrow> (string \<Rightarrow> string \<Rightarrow> duration \<Rightarrow> string option)
     \<Rightarrow> core_error + ((string \<times> string \<times> duration) list \<times> nat)" where
  "SweepHandler listed enq =
     (case listed of
        Inl e \<Rightarrow> Inl e
      | Inr rows \<Rightarrow>
          Inr (map (\<lambda>(e, w). (e, w, 0)) rows,
               length (filter (\<lambda>(e, w). enq e w 0 \<noteq> None) rows)))"

end
