(* ===== verification/Window_Placement.thy ===== *)
theory Window_Placement
  imports Send_Window
begin

text \<open>
  Where \<open>Next\<close> and \<open>NextAfterOffset\<close> (\<open>internal/platform/cadence/window.go\<close>) put a send, in a zone
  whose offset never changes; \<open>Steady_Clock\<close> carries it over to any zone between two changes. Local
  time is counted in whole minutes there: \<open>abs_minute\<close> is the number of local minutes since the zero time, and \<open>open_at\<close> says whether a minute is inside an open
  interval. The last section shows that on a day with a change of offset the placement is indeed wrong.
\<close>

subsection \<open>Minutes of a zone with a fixed offset\<close>

definition abs_minute :: "int \<Rightarrow> instant \<Rightarrow> int" where
  "abs_minute off t = (t + off) div minute"

definition open_at :: "window \<Rightarrow> int \<Rightarrow> bool" where
  "open_at w a = list_ex (\<lambda>iv. start_min iv \<le> a mod 1440 \<and> a mod 1440 < end_min iv)
     (win_days w (nat ((a div 1440 + 1) mod 7)))"

lemma zone_lookup_fixed [simp]: "zone_lookup (fixed_zone off) u = (off, None, None)"
  by (simp add: zone_lookup_def fixed_zone_def)

lemma day_ns_minutes: "day_ns = minute * 1440"
  by (simp add: day_ns_def minute_def)

lemma local_day_fixed: "local_day (fixed_zone off) t = abs_minute off t div 1440"
  unfolding local_day_def local_ns_def abs_minute_def day_ns_minutes
  by (simp add: zdiv_zmult2_eq)

lemma minute_of_day_fixed: "minute_of_day (fixed_zone off) t = abs_minute off t mod 1440"
  unfolding minute_of_day_def local_clock_def local_ns_def abs_minute_def day_ns_minutes
  by (simp add: zmod_zmult2_eq)

lemma weekday_fixed: "weekday (fixed_zone off) t = nat ((abs_minute off t div 1440 + 1) mod 7)"
  by (simp add: weekday_def local_day_fixed)

lemma Contains_fixed:
  "win_loc w = fixed_zone off \<Longrightarrow> Contains w t = open_at w (abs_minute off t)"
  by (simp add: Contains_def open_at_def minute_of_day_fixed weekday_fixed)

lemma go_date_fixed: "go_date (fixed_zone off) d clk = d * day_ns + clk - off"
  by (simp add: go_date_def Let_def)

lemma local_clock_range: "0 \<le> local_clock l t" "local_clock l t < day_ns"
  by (simp_all add: local_clock_def day_ns_def)

lemma local_day_go_date:
  assumes "0 \<le> clk" and "clk < day_ns"
  shows "local_day (fixed_zone off) (go_date (fixed_zone off) d clk) = d"
proof -
  have "(d * day_ns + clk) div day_ns = d"
    using assms by (simp add: day_ns_def)
  then show ?thesis by (simp add: local_day_def local_ns_def go_date_fixed)
qed

lemma walk_day:
  assumes "win_loc w = fixed_zone off"
  shows "local_day (win_loc w) (walk_date w t k) = abs_minute off t div 1440 + int k"
  unfolding walk_date_def add_days_def assms
  by (subst local_day_go_date [OF local_clock_range]) (simp only: local_day_fixed)

lemma weekday_walk:
  assumes "win_loc w = fixed_zone off"
  shows "weekday (win_loc w) (walk_date w t k) = nat ((abs_minute off t div 1440 + int k + 1) mod 7)"
  by (simp add: weekday_def walk_day [OF assms])

subsection \<open>Validated windows\<close>

definition good_interval :: "interval \<Rightarrow> bool" where
  "good_interval iv \<longleftrightarrow> 0 \<le> start_min iv \<and> start_min iv < end_min iv \<and> end_min iv \<le> 1440"

definition good_day :: "interval list \<Rightarrow> bool" where
  "good_day ivs \<longleftrightarrow> (\<forall>iv \<in> set ivs. good_interval iv)
     \<and> sorted_wrt (\<lambda>a b. end_min a \<le> start_min b) ivs"

lemma validate_day_good:
  "validate_day d p ivs = None \<Longrightarrow> good_day ivs \<and> (\<forall>iv \<in> set ivs. p \<le> start_min iv)"
proof (induction d p ivs rule: validate_day.induct)
  case (1 d p)
  then show ?case by (simp add: good_day_def)
next
  case (2 d p iv ivs)
  then show ?case
    by (fastforce simp: good_day_def good_interval_def MinutesPerDay_def split: if_splits)
qed

lemma validate_window_good:
  assumes "validate_window w = None"
  shows "d < 7 \<Longrightarrow> good_day (win_days w d)" and "\<exists>d < 7. win_days w d \<noteq> []"
proof -
  from assms have none: "\<forall>d \<in> set [0..<7]. validate_day d (-1) (win_days w d) = None"
    and ex: "\<not> (\<forall>d \<in> set [0..<7]. win_days w d = [])"
    unfolding validate_window_def by (auto simp: first_error_None_iff split: option.splits if_splits)
  from none show "d < 7 \<Longrightarrow> good_day (win_days w d)" by (auto dest: validate_day_good)
  from ex show "\<exists>d < 7. win_days w d \<noteq> []" by auto
qed

lemma good_day_first:
  assumes "good_day ivs" and "find (\<lambda>iv. flr < end_min iv) ivs = Some iv" and "iv' \<in> set ivs"
    and "flr < end_min iv'"
  shows "iv' = iv \<or> end_min iv \<le> start_min iv'"
  using assms
proof (induction ivs)
  case Nil
  then show ?case by simp
next
  case (Cons a ivs)
  then show ?case by (auto simp: good_day_def split: if_splits)
qed

subsection \<open>The minute of a humanized instant\<close>

lemma nudge_range:
  fixes h :: nat
  defines "s \<equiv> (int (h mod 59) + 1) * second + int ((h div 256) mod 1000000000)"
  shows "second \<le> s" and "s < minute"
proof -
  have "0 \<le> int (h mod 59)" "int (h mod 59) \<le> 58" by simp_all
  moreover have "0 \<le> int ((h div 256) mod 1000000000)" "int ((h div 256) mod 1000000000) < 1000000000"
    by simp_all
  moreover define a b where "a = int (h mod 59)" and "b = int ((h div 256) mod 1000000000)"
  ultimately have "0 \<le> a" "a \<le> 58" "0 \<le> b" "b < 1000000000" by simp_all
  then have "1000000000 \<le> (a + 1) * 1000000000 + b \<and> (a + 1) * 1000000000 + b < 60000000000"
    by auto
  then show "second \<le> s" and "s < minute"
    by (simp_all add: s_def a_def b_def second_def minute_def)
qed

lemma humanize_minute:
  assumes loc: "win_loc w = fixed_zone off" and m: "m < end_min iv"
  shows "abs_minute off (humanize sha w date m iv key) = local_day (win_loc w) date * 1440 + m"
    and "(humanize sha w date m iv key + off) mod minute \<noteq> 0"
proof -
  define h where "h = hashU64 sha [''humanize'', key, Itoa m]"
  define s where "s = (int (h mod 59) + 1) * second + int ((h div 256) mod 1000000000)"
  define d where "d = local_day (win_loc w) date"
  have s: "0 < s" "s < minute" using nudge_range [of h] units_pos(1) unfolding s_def by linarith+
  have eq: "humanize sha w date m iv key + off
      = (if end_min iv - 1 \<le> m then (d * 1440 + m) * minute + (minute - s)
         else (d * 1440 + m) * minute + s)"
  proof -
    have "humanize sha w date m iv key
        = (if end_min iv - 1 \<le> m then d * day_ns - off + end_min iv * minute - s
           else d * day_ns - off + (m * minute + s))"
      unfolding humanize_def h_def [symmetric] Let_def s_def d_def
      by (simp add: loc go_date_fixed)
    moreover have "end_min iv = m + 1" if "end_min iv - 1 \<le> m" using that m by simp
    ultimately show ?thesis by (auto simp: day_ns_minutes algebra_simps)
  qed
  have r: "\<exists>r. humanize sha w date m iv key + off = (d * 1440 + m) * minute + r \<and> 0 < r \<and> r < minute"
  proof (cases "end_min iv - 1 \<le> m")
    case True
    with eq s show ?thesis by (intro exI [of _ "minute - s"]) simp
  next
    case False
    with eq s show ?thesis by (intro exI [of _ s]) simp
  qed
  then show "abs_minute off (humanize sha w date m iv key) = local_day (win_loc w) date * 1440 + m"
    unfolding abs_minute_def d_def [symmetric] by auto
  from r obtain r where "humanize sha w date m iv key + off = r + (d * 1440 + m) * minute"
      "0 < r" "r < minute"
    by (auto simp: add.commute)
  then show "(humanize sha w date m iv key + off) mod minute \<noteq> 0"
    by (simp del: mod_mult_self4)
qed

subsection \<open>The walk over the days\<close>

lemma next_on_Some:
  assumes loc: "win_loc w = fixed_zone off" and ok: "validate_window w = None"
    and res: "next_on sha w t key k = Some r"
  obtains iv m where
    "find (\<lambda>iv. walk_floor w t k < end_min iv)
       (win_days w (nat ((abs_minute off t div 1440 + int k + 1) mod 7))) = Some iv"
    "m = max (start_min iv) (walk_floor w t k)"
    "good_interval iv" "walk_floor w t k \<le> m" "start_min iv \<le> m" "m < end_min iv"
    "abs_minute off r = (abs_minute off t div 1440 + int k) * 1440 + m"
    "(r + off) mod minute \<noteq> 0"
proof -
  let ?d = "nat ((abs_minute off t div 1440 + int k + 1) mod 7)"
  from res obtain iv where f: "find (\<lambda>iv. walk_floor w t k < end_min iv) (win_days w ?d) = Some iv"
    and r: "r = humanize sha w (walk_date w t k) (max (start_min iv) (walk_floor w t k)) iv key"
    by (auto simp: next_on_def Let_def weekday_walk [OF loc] split: option.splits)
  from find_Some_mem [OF f] have mem: "iv \<in> set (win_days w ?d)" and lt: "walk_floor w t k < end_min iv"
    by auto
  have "?d < 7" by simp
  with validate_window_good(1) [OF ok] mem have good: "good_interval iv"
    by (auto simp: good_day_def)
  with lt have m: "max (start_min iv) (walk_floor w t k) < end_min iv" by (simp add: good_interval_def)
  from humanize_minute [OF loc m, of sha "walk_date w t k" key] walk_day [OF loc, of t k] r
  have "abs_minute off r = (abs_minute off t div 1440 + int k) * 1440
          + max (start_min iv) (walk_floor w t k)" "(r + off) mod minute \<noteq> 0" by simp_all
  with that [OF f refl good _ _ m] show thesis by simp
qed

lemma walk_floor_fixed:
  "win_loc w = fixed_zone off \<Longrightarrow>
     walk_floor w t k = (if k = 0 then abs_minute off t mod 1440 else 0)"
  by (simp add: walk_floor_def minute_of_day_fixed)

text \<open>A day the walk passes over has nothing open at or after the position of \<open>t\<close>.\<close>

lemma next_on_None_closed:
  assumes loc: "win_loc w = fixed_zone off" and ok: "validate_window w = None"
    and none: "next_on sha w t key k = None"
    and a: "a div 1440 = abs_minute off t div 1440 + int k" "abs_minute off t \<le> a"
  shows "\<not> open_at w a"
proof
  assume "open_at w a"
  then obtain iv where iv: "iv \<in> set (win_days w (nat ((abs_minute off t div 1440 + int k + 1) mod 7)))"
      "a mod 1440 < end_min iv"
    by (auto simp: open_at_def list_ex_iff a(1))
  have "walk_floor w t k \<le> a mod 1440"
  proof (cases "k = 0")
    case True
    with a have "abs_minute off t mod 1440 \<le> a mod 1440"
      by (metis add.right_neutral add_le_cancel_left mult_div_mod_eq of_nat_0)
    with True show ?thesis by (simp add: walk_floor_fixed [OF loc])
  next
    case False
    then show ?thesis by (simp add: walk_floor_fixed [OF loc])
  qed
  with iv none show False
    by (auto simp: next_on_def Let_def weekday_walk [OF loc] find_None_iff split: option.splits)
qed

lemma next_exists:
  assumes loc: "win_loc w = fixed_zone off" and ok: "validate_window w = None"
  shows "\<exists>k < 8. next_on sha w t key k \<noteq> None"
proof -
  let ?D = "abs_minute off t div 1440"
  from validate_window_good(2) [OF ok] obtain d where d: "d < 7" "win_days w d \<noteq> []" by blast
  define k where "k = nat ((int d - ?D - 2) mod 7) + 1"
  have "int k = (int d - ?D - 2) mod 7 + 1" by (simp add: k_def)
  then have "?D + int k + 1 = int d + 7 * (- ((int d - ?D - 2) div 7))"
    using mult_div_mod_eq [of 7 "int d - ?D - 2"] by linarith
  then have "(?D + int k + 1) mod 7 = int d mod 7" by (simp only: mod_mult_self2)
  then have wd: "nat ((?D + int k + 1) mod 7) = d" using d(1) by simp
  have "0 < k" "k < 8" by (simp_all add: k_def)
  obtain iv ivs where ivs: "win_days w d = iv # ivs" using d(2) by (cases "win_days w d") auto
  then have "0 < end_min iv"
    using validate_window_good(1) [OF ok d(1)] by (auto simp: good_day_def good_interval_def)
  then have "next_on sha w t key k \<noteq> None"
    using \<open>0 < k\<close> by (simp add: next_on_def Let_def weekday_walk [OF loc] wd ivs walk_floor_fixed [OF loc])
  with \<open>k < 8\<close> show ?thesis by blast
qed

lemma day_minute_less:
  "(b :: int) div 1440 < c div 1440 \<Longrightarrow> b < c"
  by (meson not_le zdiv_mono1 zero_less_numeral)

lemma open_at_day:
  assumes "a div 1440 = D"
  shows "open_at w a \<longleftrightarrow>
    list_ex (\<lambda>iv. start_min iv \<le> a - D * 1440 \<and> a - D * 1440 < end_min iv)
      (win_days w (nat ((D + 1) mod 7)))"
proof -
  have "a mod 1440 = a - D * 1440" using assms by (simp add: minus_div_mult_eq_mod [symmetric])
  then show ?thesis by (simp add: open_at_def assms)
qed

lemma next_on_Some_placed:
  assumes loc: "win_loc w = fixed_zone off" and ok: "validate_window w = None"
    and res: "next_on sha w t key k = Some r"
  shows "open_at w (abs_minute off r)"
    and "abs_minute off r div 1440 = abs_minute off t div 1440 + int k"
    and "abs_minute off t \<le> abs_minute off r" and "(r + off) mod minute \<noteq> 0"
    and "abs_minute off t \<le> a \<Longrightarrow> a < abs_minute off r \<Longrightarrow>
           a div 1440 = abs_minute off t div 1440 + int k \<Longrightarrow> \<not> open_at w a"
proof -
  let ?D = "abs_minute off t div 1440 + int k"
  let ?ivs = "win_days w (nat ((?D + 1) mod 7))"
  obtain iv m where f: "find (\<lambda>iv. walk_floor w t k < end_min iv) ?ivs = Some iv"
    and m: "m = max (start_min iv) (walk_floor w t k)" and good: "good_interval iv"
    and fm: "walk_floor w t k \<le> m" and sm: "start_min iv \<le> m" and me: "m < end_min iv"
    and r: "abs_minute off r = ?D * 1440 + m" and grid: "(r + off) mod minute \<noteq> 0"
    by (rule next_on_Some [OF loc ok res])
  have m0: "0 \<le> m" "m < 1440" using good sm me by (auto simp: good_interval_def)
  have flr: "walk_floor w t k = (if k = 0 then abs_minute off t - ?D * 1440 else 0)"
    by (simp add: walk_floor_fixed [OF loc] minus_div_mult_eq_mod [symmetric])
  show day: "abs_minute off r div 1440 = ?D" using r m0 by simp
  show "(r + off) mod minute \<noteq> 0" by (rule grid)
  have mem: "iv \<in> set ?ivs" using find_Some_mem [OF f] by blast
  then show "open_at w (abs_minute off r)"
    unfolding open_at_day [OF day] using r sm me by (auto simp: list_ex_iff)
  show "abs_minute off t \<le> abs_minute off r"
  proof (cases "k = 0")
    case True
    then have "walk_floor w t k = abs_minute off t - ?D * 1440" by (metis flr)
    with fm r show ?thesis by linarith
  next
    case False
    then have "abs_minute off t div 1440 < abs_minute off r div 1440" using day by simp
    then show ?thesis by (rule day_minute_less [THEN less_imp_le])
  qed
  show "\<not> open_at w a"
    if a: "abs_minute off t \<le> a" "a < abs_minute off r" "a div 1440 = ?D"
  proof
    assume "open_at w a"
    then obtain iv' where iv': "iv' \<in> set ?ivs" "start_min iv' \<le> a - ?D * 1440"
        "a - ?D * 1440 < end_min iv'"
      unfolding open_at_day [OF a(3)] by (auto simp: list_ex_iff)
    have "0 \<le> a mod 1440" by simp
    then have "0 \<le> a - ?D * 1440" using a(3) by (simp add: minus_div_mult_eq_mod [symmetric])
    then have fa: "walk_floor w t k \<le> a - ?D * 1440" using a(1) flr by auto
    then have "walk_floor w t k < end_min iv'" using iv'(3) by simp
    moreover have "good_day ?ivs" by (rule validate_window_good(1) [OF ok]) simp
    ultimately have "iv' = iv \<or> end_min iv \<le> start_min iv'"
      using good_day_first [OF _ f iv'(1)] by blast
    with iv' me m fa a(2) r show False by auto
  qed
qed

lemma upt_split: "[0..<n] = us @ k # vs \<Longrightarrow> us = [0..<k]"
proof -
  assume eq: "[0..<n] = us @ k # vs"
  then have len: "length us < n" by (metis add_Suc_right diff_zero length_Cons length_append
        length_upt less_add_Suc1)
  have "k = [0..<n] ! length us" using eq by simp
  with len have "k = length us" by simp
  moreover have "us = take (length us) [0..<n]" using eq by simp
  ultimately show "us = [0..<k]" using len by (simp add: take_upt)
qed

lemma abs_minute_mono: "t \<le> u \<Longrightarrow> abs_minute off t \<le> abs_minute off u"
  unfolding abs_minute_def by (intro zdiv_mono1) auto

lemma abs_minute_gap: "abs_minute off t \<le> abs_minute off r \<Longrightarrow> t - minute < r"
proof -
  assume "abs_minute off t \<le> abs_minute off r"
  then have "minute * ((t + off) div minute) \<le> minute * ((r + off) div minute)"
    unfolding abs_minute_def by (intro mult_left_mono) (simp_all add: less_imp_le)
  moreover have "(t + off) mod minute < minute" "0 \<le> (r + off) mod minute" by simp_all
  ultimately show "t - minute < r"
    using mult_div_mod_eq [of minute "t + off"] mult_div_mod_eq [of minute "r + off"] by linarith
qed

lemma Next_returns:
  assumes "win_loc w = fixed_zone off" and "validate_window w = None" and "key \<noteq> []"
  obtains r where "Next sha w t key = Inr r"
proof -
  obtain k0 where "k0 < 8" "next_on sha w t key k0 \<noteq> None" using next_exists [OF assms(1,2)] by blast
  then have "first_some (next_on sha w t key) [0..<8] \<noteq> None"
    by (auto simp: first_some_None_iff)
  then show thesis using that assms(3) by (auto simp: Next_def maxDayWalk_def)
qed

text \<open>In a zone with a fixed offset \<open>Next\<close> returns the first open minute, as an instant inside it.\<close>

lemma Next_placed_fixed:
  assumes "win_loc w = fixed_zone off" and "validate_window w = None" and "key \<noteq> []"
  shows "\<exists>r. Next sha w t key = Inr r \<and> Contains w r \<and> (r + off) mod minute \<noteq> 0
     \<and> t - minute < r
     \<and> (\<forall>u. t \<le> u \<and> abs_minute off u < abs_minute off r \<longrightarrow> \<not> Contains w u)"
proof -
  obtain r where "Next sha w t key = Inr r" by (rule Next_returns [OF assms])
  then have fs: "first_some (next_on sha w t key) [0..<8] = Some r"
    using assms(3) by (simp add: Next_def maxDayWalk_def split: option.splits)
  from first_some_SomeD [OF fs] obtain us k vs where split: "[0..<8] = us @ k # vs"
    and k: "next_on sha w t key k = Some r" and before: "\<forall>j \<in> set us. next_on sha w t key j = None"
    by blast
  have us: "us = [0..<k]" by (rule upt_split [OF split])
  note placed = next_on_Some_placed [OF assms(1,2) k]
  have skip: "\<not> Contains w u" if u: "t \<le> u" "abs_minute off u < abs_minute off r" for u
  proof -
    let ?D = "abs_minute off t div 1440" and ?a = "abs_minute off u"
    have tu: "abs_minute off t \<le> ?a" by (rule abs_minute_mono [OF u(1)])
    then have "?D \<le> ?a div 1440" by (intro zdiv_mono1) auto
    moreover have "?a div 1440 \<le> abs_minute off r div 1440" using u(2) by (intro zdiv_mono1) auto
    ultimately obtain j where j: "?a div 1440 = ?D + int j" "j \<le> k"
      using placed(2) by (metis add_le_cancel_left of_nat_le_iff zle_iff_zadd)
    have "\<not> open_at w ?a"
    proof (cases "j = k")
      case True
      with placed(5) [OF tu u(2)] j(1) show ?thesis by simp
    next
      case False
      with j(2) us before have "next_on sha w t key j = None" by auto
      from next_on_None_closed [OF assms(1,2) this j(1) tu] show ?thesis .
    qed
    then show ?thesis by (simp add: Contains_fixed [OF assms(1)])
  qed
  have "Next sha w t key = Inr r"
    using fs assms(3) by (simp add: Next_def maxDayWalk_def)
  with placed(1,4) abs_minute_gap [OF placed(3)] skip show ?thesis
    by (intro exI [of _ r]) (simp add: Contains_fixed [OF assms(1)])
qed

subsection \<open>A change of offset, and the first second of a minute\<close>

text \<open>Working hours in a zone whose clock is an hour ahead from day 1 to day 100.\<close>

definition sample_window :: window where
  "sample_window = \<lparr>win_loc = \<lparr>zone_first = 0, zone_tx = [(day_ns, hour), (100 * day_ns, 0)]\<rparr>,
     win_days = (\<lambda>d. if 1 \<le> d \<and> d \<le> 5 then [\<lparr>start_min = 540, end_min = 1020\<rparr>] else [])\<rparr>"

lemmas window_eval = Next_def next_on_def walk_date_def walk_floor_def add_days_def go_date_def
  zone_lookup_def local_day_def local_ns_def local_clock_def minute_of_day_def weekday_def
  humanize_def hashU64_def big_endian64_def Contains_def maxDayWalk_def validate_window_def
  MinutesPerDay_def day_ns_def minute_def second_def hour_def Let_def fixed_zone_def

lemma sample_window_valid: "validate_window sample_window = None"
  by (simp add: window_eval sample_window_def upt_rec)

text \<open>
  On a day with a change of offset \<open>humanize\<close> adds wall-clock minutes to the instant of local
  midnight, so the result is off by the change: here the clock goes forward one hour at 02:00 and
  the only interval is 09:00 to 10:00; the instant returned is after 10:00 local time.
\<close>

definition dst_window :: window where
  "dst_window = \<lparr>win_loc = \<lparr>zone_first = 0, zone_tx = [(6 * day_ns + 2 * hour, hour)]\<rparr>,
     win_days = (\<lambda>d. if d = 0 then [\<lparr>start_min = 540, end_min = 600\<rparr>] else [])\<rparr>"

lemma dst_window_valid: "validate_window dst_window = None"
  by (simp add: window_eval dst_window_def upt_rec)

lemma Next_leaves_window_on_offset_change:
  "Next (\<lambda>s. []) dst_window (6 * day_ns + 3 * hour) ''enrollment''
       = Inr (6 * day_ns + 9 * hour + second)
     \<and> minute_of_day (win_loc dst_window) (6 * day_ns + 9 * hour + second) = 600
     \<and> \<not> Contains dst_window (6 * day_ns + 9 * hour + second)"
  by (simp add: window_eval dst_window_def upt_rec)

text \<open>
  In the last minute of an interval the nudge is subtracted from the interval's end. A nudge of 59
  seconds and a fraction then lands within the first second of that minute: the second of the
  result is zero, though the instant is not a whole minute.
\<close>

definition last_minute_window :: window where
  "last_minute_window = \<lparr>win_loc = fixed_zone 0,
     win_days = (\<lambda>d. [\<lparr>start_min = 540, end_min = 541\<rparr>])\<rparr>"

definition digest_294 :: "string \<Rightarrow> string" where
  "digest_294 s = [CHR 0x00, CHR 0x00, CHR 0x00, CHR 0x00, CHR 0x00, CHR 0x00,
     CHR 0x01, CHR 0x26]"

lemma Next_second_zero:
  "Next digest_294 last_minute_window 0 ''enrollment'' = Inr (540 * minute + second - 1)
     \<and> (540 * minute + second - 1) div second mod 60 = 0"
  by (simp add: window_eval last_minute_window_def digest_294_def upt_rec)

text \<open>
  \<open>Next\<close> may also return an instant before \<open>t\<close>, by less than a minute: the seconds of \<open>t\<close> within
  its minute are dropped and replaced by the nudge.
\<close>

lemma Next_before_t:
  "Next (\<lambda>s. []) last_minute_window (540 * minute + 59 * second + 500000000) ''enrollment''
       = Inr (540 * minute + 59 * second)"
  by (simp add: window_eval last_minute_window_def upt_rec)

end
