(* ===== verification/Steady_Clock.thy ===== *)
theory Steady_Clock
  imports Window_Placement
begin

text \<open>
  Placement in a real time zone. A zone with daylight saving keeps one offset for months; while it does,
  every operation of a window gives what it gives in the zone with just that offset, so the theorems
  of \<open>Window_Placement\<close> carry over. The condition is local: no change of offset from two days before an
  instant to eight days after it, the farthest a walk looks. Next to a change they fail, as
  \<open>Next_leaves_window_on_offset_change\<close> shows.
\<close>

subsection \<open>A stretch without a change of offset\<close>

definition clock_steady :: "location \<Rightarrow> int \<Rightarrow> instant \<Rightarrow> instant \<Rightarrow> bool" where
  "clock_steady l off a b \<longleftrightarrow>
     fst (zone_lookup l a) = off \<and> - day_ns < off \<and> off < day_ns
     \<and> (case snd (snd (zone_lookup l a)) of None \<Rightarrow> True | Some change \<Rightarrow> b < change)"

text \<open>The stretch every operation on a window at \<open>t\<close> stays in.\<close>

abbreviation steady_around :: "location \<Rightarrow> int \<Rightarrow> instant \<Rightarrow> bool" where
  "steady_around l off t \<equiv> clock_steady l off (t - 2 * day_ns) (t + 8 * day_ns)"

lemma zone_from_same:
  assumes "a \<le> u" and "case snd (snd (zone_from off start tx a)) of None \<Rightarrow> True | Some change \<Rightarrow> u < change"
  shows "zone_from off start tx u = zone_from off start tx a"
  using assms
proof (induction off start tx a rule: zone_from.induct)
  case (1 off start u')
  then show ?case by simp
next
  case (2 off start ta off' tx a)
  then show ?case by (auto split: if_splits)
qed

lemma steady_offset:
  assumes "clock_steady l off a b" and "a \<le> u" and "u \<le> b"
  shows "fst (zone_lookup l u) = off"
proof -
  have "zone_lookup l u = zone_lookup l a"
    unfolding zone_lookup_def using assms
    by (intro zone_from_same) (auto simp: clock_steady_def zone_lookup_def split: option.splits)
  then show ?thesis using assms(1) by (simp add: clock_steady_def)
qed

lemma steady_mono:
  assumes "clock_steady l off a b" and "a \<le> a'" and "b' \<le> b" and "a' \<le> b'"
  shows "clock_steady l off a' b'"
proof -
  have "zone_lookup l a' = zone_lookup l a"
    unfolding zone_lookup_def using assms
    by (intro zone_from_same) (auto simp: clock_steady_def zone_lookup_def split: option.splits)
  then show ?thesis using assms by (auto simp: clock_steady_def split: option.splits)
qed

lemma steady_fixed: "- day_ns < off \<Longrightarrow> off < day_ns \<Longrightarrow> clock_steady (fixed_zone off) off a b"
  by (simp add: clock_steady_def)

subsection \<open>The clock there\<close>

lemma clock_same:
  assumes "fst (zone_lookup l u) = off"
  shows "local_day l u = local_day (fixed_zone off) u" and "local_clock l u = local_clock (fixed_zone off) u"
    and "weekday l u = weekday (fixed_zone off) u" and "minute_of_day l u = minute_of_day (fixed_zone off) u"
  using assms by (simp_all add: weekday_def minute_of_day_def local_day_def local_clock_def local_ns_def)

lemma go_date_same:
  assumes "fst (zone_lookup l (d * day_ns + clk)) = off" and "fst (zone_lookup l (d * day_ns + clk - off)) = off"
  shows "go_date l d clk = go_date (fixed_zone off) d clk"
proof (cases "off = 0")
  case True
  with assms show ?thesis by (auto simp: go_date_def Let_def split: prod.splits)
next
  case False
  with assms show ?thesis
    by (auto simp: go_date_def Let_def split: prod.splits)
qed


subsection \<open>Windows there\<close>

abbreviation in_fixed :: "window \<Rightarrow> int \<Rightarrow> window" where
  "in_fixed w off \<equiv> w\<lparr>win_loc := fixed_zone off\<rparr>"

lemma validate_in_fixed [simp]: "validate_window (in_fixed w off) = validate_window w"
proof -
  have "win_days (in_fixed w off) = win_days w" by simp
  then show ?thesis by (simp only: validate_window_def)
qed

lemma local_split: "local_day l u * day_ns + local_clock l u = local_ns l u"
  by (simp add: local_day_def local_clock_def)

lemma day_start_bounds: "local_ns l u - day_ns < local_day l u * day_ns" "local_day l u * day_ns \<le> local_ns l u"
  using local_split [of l u] local_clock_range [of l u] by linarith+

lemma Contains_steady:
  assumes "clock_steady (win_loc w) off a b" and "a \<le> u" and "u \<le> b"
  shows "Contains w u = Contains (in_fixed w off) u"
  using clock_same [OF steady_offset [OF assms]] by (simp add: Contains_def)

lemma OpenDuration_steady:
  assumes "clock_steady (win_loc w) off a b" and "a \<le> u" and "u \<le> b"
  shows "OpenDuration w u = OpenDuration (in_fixed w off) u"
  using clock_same [OF steady_offset [OF assms]] by (simp add: OpenDuration_def)

lemma walk_date_fixed: "walk_date (in_fixed w off) t k = t + int k * day_ns"
proof -
  have "(local_day (fixed_zone off) t + int k) * day_ns + local_clock (fixed_zone off) t - off = t + int k * day_ns"
    using local_split [of "fixed_zone off" t] by (simp add: local_ns_def distrib_right)
  then show ?thesis by (simp add: walk_date_def add_days_def go_date_fixed)
qed

lemma walk_date_steady:
  assumes "steady_around (win_loc w) off t" and "k < 8"
  shows "walk_date w t k = walk_date (in_fixed w off) t k"
    and "fst (zone_lookup (win_loc w) (walk_date w t k)) = off"
proof -
  let ?l = "win_loc w" and ?fd = "local_day (fixed_zone off) t" and ?fc = "local_clock (fixed_zone off) t"
  have off: "- day_ns < off" "off < day_ns" using assms(1) by (simp_all add: clock_steady_def)
  have k: "0 \<le> int k * day_ns" "int k * day_ns \<le> 7 * day_ns"
    using assms(2) by (auto simp: day_ns_def)
  have t: "fst (zone_lookup ?l t) = off" by (rule steady_offset [OF assms(1)]) (simp_all add: day_ns_def)
  have unix: "(?fd + int k) * day_ns + ?fc = t + off + int k * day_ns"
    using local_split [of "fixed_zone off" t] by (simp add: local_ns_def distrib_right)
  have in_stretch: "fst (zone_lookup ?l (t + x + int k * day_ns)) = off" if "x = 0 \<or> x = off" for x
    using that off k by (intro steady_offset [OF assms(1)]) (auto simp: day_ns_def)
  have "go_date ?l (?fd + int k) ?fc = go_date (fixed_zone off) (?fd + int k) ?fc"
    using in_stretch [of off] in_stretch [of 0] unix by (intro go_date_same) simp_all
  then show eq: "walk_date w t k = walk_date (in_fixed w off) t k"
    by (simp add: walk_date_def add_days_def clock_same [OF t])
  show "fst (zone_lookup ?l (walk_date w t k)) = off"
    using in_stretch [of 0] by (simp add: eq walk_date_fixed)
qed

lemma day_steady:
  assumes "steady_around (win_loc w) off t" and "k < 8"
  shows "weekday (win_loc w) (walk_date w t k) = weekday (fixed_zone off) (walk_date (in_fixed w off) t k)"
    and "walk_floor w t k = walk_floor (in_fixed w off) t k"
    and "humanize sha w (walk_date w t k) m iv key = humanize sha (in_fixed w off) (walk_date (in_fixed w off) t k) m iv key"
proof -
  let ?l = "win_loc w" and ?date = "t + int k * day_ns"
  note date = walk_date_steady [OF assms]
  have at_date: "fst (zone_lookup ?l ?date) = off" using date(2) by (simp add: date(1) walk_date_fixed)
  note same = clock_same [OF at_date]
  show "weekday ?l (walk_date w t k) = weekday (fixed_zone off) (walk_date (in_fixed w off) t k)"
    by (simp add: date(1) walk_date_fixed same(3))
  have t: "fst (zone_lookup ?l t) = off" by (rule steady_offset [OF assms(1)]) (simp_all add: day_ns_def)
  show "walk_floor w t k = walk_floor (in_fixed w off) t k"
    by (simp add: walk_floor_def clock_same(4) [OF t])
  let ?d = "local_day (fixed_zone off) ?date"
  have off: "- day_ns < off" "off < day_ns" using assms(1) by (simp_all add: clock_steady_def)
  have k: "0 \<le> int k * day_ns" "int k * day_ns \<le> 7 * day_ns"
    using assms(2) by (auto simp: day_ns_def)
  have lo: "?date + off - day_ns < ?d * day_ns" and hi: "?d * day_ns \<le> ?date + off"
    using day_start_bounds [of "fixed_zone off" ?date] by (simp_all add: local_ns_def)
  have at_start: "fst (zone_lookup ?l (?d * day_ns)) = off" "fst (zone_lookup ?l (?d * day_ns - off)) = off"
    by (rule steady_offset [OF assms(1)]; use lo hi off k in linarith)+
  have "go_date ?l ?d 0 = go_date (fixed_zone off) ?d 0"
    using at_start by (intro go_date_same) simp_all
  then show "humanize sha w (walk_date w t k) m iv key
      = humanize sha (in_fixed w off) (walk_date (in_fixed w off) t k) m iv key"
    by (simp add: humanize_def date(1) walk_date_fixed same(1) Let_def)
qed

lemma next_on_steady:
  assumes "steady_around (win_loc w) off t" and "k < 8"
  shows "next_on sha w t key k = next_on sha (in_fixed w off) t key k"
  by (simp add: next_on_def Let_def day_steady [OF assms] cong: option.case_cong)

lemma first_some_cong: "(\<And>x. x \<in> set xs \<Longrightarrow> f x = g x) \<Longrightarrow> first_some f xs = first_some g xs"
  by (induction xs) (auto split: option.splits)

lemma Next_steady:
  assumes "steady_around (win_loc w) off t"
  shows "Next sha w t key = Next sha (in_fixed w off) t key"
proof -
  have "first_some (next_on sha w t key) [0..<8] = first_some (next_on sha (in_fixed w off) t key) [0..<8]"
    using next_on_steady [OF assms] by (intro first_some_cong) simp
  then show ?thesis by (simp add: Next_def maxDayWalk_def)
qed

lemma consume_days_steady:
  assumes "steady_around (win_loc w) off t" and "\<forall>k \<in> set days. k < 8"
  shows "consume_days sha w t key days rem = consume_days sha (in_fixed w off) t key days rem"
  using assms(2)
proof (induction days arbitrary: rem)
  case (Cons k days)
  then have "k < 8" by simp
  from Cons day_steady [OF assms(1) this] show ?case by (simp split: sum.splits prod.splits)
qed simp

lemma NextAfterOffset_steady:
  assumes "steady_around (win_loc w) off t"
  shows "NextAfterOffset sha w t offset key = NextAfterOffset sha (in_fixed w off) t offset key"
  using consume_days_steady [OF assms, of "[0..<8]"] by (simp add: NextAfterOffset_def maxDayWalk_def)

subsection \<open>Placement\<close>

text \<open>The instant found is within eight days.\<close>

lemma Next_within:
  assumes "win_loc w = fixed_zone off" and "validate_window w = None" and "Next sha w t key = Inr r"
  shows "r < t + 8 * day_ns"
proof -
  from assms(3) obtain k where "k < 8" "next_on sha w t key k = Some r"
    by (auto simp: Next_def maxDayWalk_def split: if_splits option.splits dest!: first_some_SomeD)
      (metis atLeastLessThan_iff in_set_conv_decomp set_upt)
  from this(1) next_on_Some_placed(2) [OF assms(1,2) this(2)]
  have "(r + off) div day_ns < (t + off) div day_ns + 8"
    unfolding abs_minute_def day_ns_minutes by (simp add: zdiv_zmult2_eq)
  then show ?thesis by (simp add: day_ns_def)
qed

text \<open>C7: While the zone's offset stays the same from two days before \<open>t\<close> to eight days after it, \<open>Next\<close>
  with a key on a validated window always returns, the instant it returns lies inside an open interval
  and never on a whole minute, it is in the same minute as \<open>t\<close> or a later one (so less than a minute
  before \<open>t\<close> at the worst), and no open minute between the two is passed over. Near a change of offset
  it can fail: \<open>Next_leaves_window_on_offset_change\<close>.\<close>

theorem Next_placed:
  assumes "clock_steady (win_loc w) off (t - 2 * day_ns) (t + 8 * day_ns)" and "validate_window w = None"
    and "key \<noteq> []"
  shows "\<exists>r. Next sha w t key = Inr r \<and> Contains w r \<and> (r + off) mod minute \<noteq> 0
     \<and> t - minute < r \<and> r < t + 8 * day_ns
     \<and> (\<forall>u. t \<le> u \<and> abs_minute off u < abs_minute off r \<longrightarrow> \<not> Contains w u)"
proof -
  let ?w = "in_fixed w off"
  have fixed: "win_loc ?w = fixed_zone off" "validate_window ?w = None" using assms(2) by simp_all
  from Next_placed_fixed [OF fixed assms(3), of sha t] obtain r where r: "Next sha ?w t key = Inr r"
    "Contains ?w r" "(r + off) mod minute \<noteq> 0" "t - minute < r"
    "\<forall>u. t \<le> u \<and> abs_minute off u < abs_minute off r \<longrightarrow> \<not> Contains ?w u" by blast
  have soon: "r < t + 8 * day_ns" by (rule Next_within [OF fixed r(1)])
  have same: "Contains w u = Contains ?w u" if "t - minute < u" "u \<le> r" for u
    using that soon by (intro Contains_steady [OF assms(1)]) (auto simp: day_ns_def minute_def)
  have "u < r" if "abs_minute off u < abs_minute off r" for u
    using that abs_minute_mono [of r u off] by (simp add: not_le [symmetric]) (meson not_le)
  then have "\<forall>u. t \<le> u \<and> abs_minute off u < abs_minute off r \<longrightarrow> \<not> Contains w u"
    using r(5) same units_pos(2) by (smt (verit))
  with r same [of r] soon Next_steady [OF assms(1), of sha key] show ?thesis by (intro exI [of _ r]) simp
qed

theorem Next_placed_witness:
  "\<exists>r. Next (\<lambda>s. s) sample_window (5 * day_ns) ''enrollment'' = Inr r \<and> Contains sample_window r
     \<and> 5 * day_ns - minute < r"
proof -
  have "clock_steady (win_loc sample_window) hour (5 * day_ns - 2 * day_ns) (5 * day_ns + 8 * day_ns)"
    by (simp add: sample_window_def clock_steady_def zone_lookup_def day_ns_def hour_def)
  from Next_placed [OF this sample_window_valid, of "''enrollment''" "\<lambda>s. s"] show ?thesis by auto
qed

end
