(* ===== verification/Wake_Times.thy ===== *)
theory Wake_Times
  imports Advance_Handler Steady_Clock
begin

text \<open>
  When a deferred step wakes up again. A deferred retry sends as soon as it runs, so the backoffs of
  \<open>internal/worker/sequence/advance.go\<close> must end inside the campaign's window. While the zone
  keeps an offset of whole minutes, \<open>nextAttemptIn\<close> does; the last section shows that the two backoffs
  of a refused claim do not.
\<close>

subsection \<open>Where the snap lands\<close>

lemma Next_on: "Next sha w t key = Inr r \<Longrightarrow> \<exists>k < 8. next_on sha w t key k = Some r"
  by (auto simp: Next_def maxDayWalk_def split: if_splits option.splits dest!: first_some_SomeD)
    (metis atLeastLessThan_iff in_set_conv_decomp set_upt)

lemma Next_minute:
  assumes "win_loc w = fixed_zone off" and "validate_window w = None" and "Next sha w t key = Inr r"
  shows "Contains w r" and "abs_minute off t \<le> abs_minute off r" and "r < t + 9 * day_ns"
proof -
  from Next_on [OF assms(3)] obtain k where k: "k < 8" "next_on sha w t key k = Some r" by blast
  note placed = next_on_Some_placed [OF assms(1,2) k(2)]
  show "Contains w r" using placed(1) by (simp add: Contains_fixed [OF assms(1)])
  show "abs_minute off t \<le> abs_minute off r" by (rule placed(3))
  have d: "x div minute div 1440 = x div day_ns" for x
    by (simp add: day_ns_minutes zdiv_zmult2_eq)
  define a b where "a = (r + off) div day_ns" and "b = (t + off) div day_ns"
  define x y where "x = (r + off) mod day_ns" and "y = (t + off) mod day_ns"
  have "a = b + int k" using placed(2) by (simp add: abs_minute_def d a_def b_def)
  moreover have "day_ns * a + x = r + off" "day_ns * b + y = t + off"
    by (simp_all only: a_def b_def x_def y_def mult_div_mod_eq)
  ultimately have "day_ns * b + day_ns * int k + x = r + off" "day_ns * b + y = t + off"
    by (simp_all only: distrib_left)
  moreover have "x < day_ns" "0 \<le> y" by (simp_all add: x_def y_def day_ns_def)
  moreover have "day_ns * int k \<le> day_ns * 7" using k(1) by (intro mult_left_mono) (auto simp: day_ns_def)
  ultimately have "r < t + day_ns * 7 + day_ns" by linarith
  then show "r < t + 9 * day_ns" by (simp add: day_ns_def)
qed

lemma Contains_same_minute:
  "win_loc w = fixed_zone off \<Longrightarrow> abs_minute off a = abs_minute off b \<Longrightarrow> Contains w a = Contains w b"
  by (simp add: Contains_fixed)

subsection \<open>The next UTC midnight\<close>

lemma zone_lookup_UTC [simp]: "zone_lookup UTC u = (0, None, None)"
  by (simp add: UTC_def zone_lookup_def)

lemma next_midnight: "next_midnight now = (now div day_ns + 1) * day_ns"
  by (simp add: next_midnight_def add_days_def go_date_def local_day_def local_clock_def local_ns_def day_ns_def)

lemma next_midnight_after: "now < next_midnight now" "next_midnight now \<le> now + day_ns"
proof -
  define a x where "a = now div day_ns" and "x = now mod day_ns"
  have "a * day_ns + x = now" by (simp only: a_def x_def div_mult_mod_eq)
  moreover have "0 \<le> x" "x < day_ns" by (simp_all add: x_def day_ns_def)
  moreover have "next_midnight now = a * day_ns + day_ns" by (simp add: next_midnight a_def distrib_right)
  ultimately show "now < next_midnight now" "next_midnight now \<le> now + day_ns" by linarith+
qed

lemma minute_div: "0 \<le> x \<Longrightarrow> x < minute \<Longrightarrow> (minute * m + x) div minute = m"
  by simp

text \<open>Midnight starts a minute in every zone whose offset is a whole number of minutes, and so every
  instant up to a minute later is in the same minute.\<close>

lemma minute_of_midnight:
  assumes "off mod minute = 0" and "next_midnight now \<le> u" and "u < next_midnight now + minute"
  shows "abs_minute off u = abs_minute off (next_midnight now)"
proof -
  obtain q where off: "off = minute * q" using assms(1) by (auto simp: mod_eq_0_iff_dvd)
  define m where "m = (now div day_ns + 1) * 1440"
  have mid: "next_midnight now = minute * m" by (simp add: next_midnight m_def day_ns_minutes)
  define x where "x = u - next_midnight now"
  have x: "0 \<le> x" "x < minute" "u = minute * m + x" using assms mid by (simp_all add: x_def)
  have "u + off = minute * (m + q) + x" "next_midnight now + off = minute * (m + q) + 0"
    by (simp_all add: off x(3) mid distrib_left)
  then show ?thesis unfolding abs_minute_def using minute_div x(1,2) units_pos(2) by (metis order_refl)
qed

lemma minute_div_less: "z < minute * m \<Longrightarrow> z div minute < m"
  unfolding minute_def by linarith

subsection \<open>A deferred step wakes inside the window\<close>

lemma Compile_valid: "Compile load sched = Inr w \<Longrightarrow> validate_window w = None"
  by (auto simp: Compile_def NewWindow_def Let_def split: option.splits sum.splits cadence_error.splits)

text \<open>C8: A step blocked by a limit, a pause or a daily cap is retried at least a minute later and
  inside the campaign's sending window, while the window's zone keeps one offset of whole minutes from
  two days before now to nine days after: raising a short wait to the one-minute floor does not carry
  it past the window's end. Next to a change of offset the placement itself can fail
  (\<open>Next_leaves_window_on_offset_change\<close>).\<close>

theorem nextAttemptIn_in_window:
  assumes "Compile (LoadLocation L) sched = Inr w" and "key \<noteq> []"
    and "clock_steady (win_loc w) off (now - 2 * day_ns) (now + 9 * day_ns)" and "off mod minute = 0"
  shows "minute \<le> nextAttemptIn L sched key dayBoundary poll now
     \<and> Contains w (now + nextAttemptIn L sched key dayBoundary poll now)"
proof -
  let ?w = "in_fixed w off"
  have fixed: "win_loc ?w = fixed_zone off" "validate_window ?w = None"
    using Compile_valid [OF assms(1)] by simp_all
  define target where "target =
    (if dayBoundary \<and> (\<not> poll \<or> next_midnight now < now + capBackoff) then next_midnight now
     else now + capBackoff)"
  have t: "now < target" "target \<le> now + day_ns"
    using next_midnight_after [of now] by (auto simp: target_def capBackoff_def hour_def day_ns_def)
  have around: "steady_around (win_loc w) off target"
    by (rule steady_mono [OF assms(3)]) (use t in \<open>auto simp: day_ns_def\<close>)
  obtain r where r: "Next (sha256 L) ?w target key = Inr r"
    by (rule Next_returns [OF fixed assms(2)])
  note pl = Next_minute [OF fixed r]
  have soon: "r < target + 8 * day_ns" by (rule Next_within [OF fixed r])
  have snap: "snapToWindow L sched key target = r"
    by (simp add: snapToWindow_def assms(1) Next_steady [OF around] r)
  have "target - minute < r" using abs_minute_gap [OF pl(2)] .
  then have sub: "time_sub r now = r - now"
    using t pl(3) by (simp add: time_sub_def day_ns_def minute_def)
  have eq: "nextAttemptIn L sched key dayBoundary poll now = max (r - now) minute"
    unfolding nextAttemptIn_def Let_def target_def [symmetric] snap sub minBlockedBackoff_def ..
  have same: "Contains w u = Contains ?w u" if "now \<le> u" "u \<le> max r (now + minute)" for u
    using that t soon by (intro Contains_steady [OF assms(3)]) (auto simp: day_ns_def minute_def)
  show ?thesis
  proof (cases "minute \<le> r - now")
    case True
    moreover from this have "now \<le> r" using units_pos(2) by linarith
    ultimately show ?thesis using pl(1) same [of r] by (simp add: eq max_def)
  next
    case False
    then have short: "r < now + minute" by simp
    have mid: "target = next_midnight now"
    proof (rule ccontr)
      assume "target \<noteq> next_midnight now"
      then have "target = now + capBackoff" by (auto simp: target_def)
      with \<open>target - minute < r\<close> short show False by (simp add: capBackoff_def hour_def minute_def)
    qed
    have "next_midnight now \<le> r"
    proof (rule ccontr)
      assume "\<not> next_midnight now \<le> r"
      then have "(r + off) < next_midnight now + off" by simp
      moreover have "minute dvd next_midnight now + off"
        using assms(4) by (auto simp: next_midnight day_ns_minutes mod_eq_0_iff_dvd intro!: dvd_add dvd_mult)
      then obtain m where m: "next_midnight now + off = minute * m" ..
      ultimately have "(r + off) div minute < m" by (simp add: minute_div_less)
      then have "abs_minute off r < abs_minute off target" by (simp add: abs_minute_def mid m)
      with pl(2) show False by simp
    qed
    with short t mid have "abs_minute off r = abs_minute off (next_midnight now)"
      "abs_minute off (now + minute) = abs_minute off (next_midnight now)"
      by (auto intro!: minute_of_midnight [OF assms(4)])
    then have "Contains ?w (now + minute)"
      using pl(1) Contains_same_minute [OF fixed(1), of r "now + minute"] by simp
    with False same [of "now + minute"] units_pos(2) show ?thesis by (simp add: eq max_def)
  qed
qed

definition sample_zones :: lib where
  "sample_zones =
     \<lparr>sha256 = (\<lambda>_. []), LoadLocation = (\<lambda>_. Some (fixed_zone 0)), uuid_Parse = (\<lambda>_. None),
      uuid_String = (\<lambda>_. []), NewSHA1 = (\<lambda>_ _. 0)\<rparr>"

definition weekdays :: window where
  "weekdays = \<lparr>win_loc = fixed_zone 0,
     win_days = (\<lambda>d. if d \<in> {1, 2, 3, 4, 5} then [\<lparr>start_min = 540, end_min = 1020\<rparr>] else [])\<rparr>"

lemma weekdays_valid: "validate_window weekdays = None"
  by (simp add: window_eval weekdays_def upt_rec)

lemma weekdays_compile: "Compile (LoadLocation sample_zones) (DefaultSchedule ''UTC'') = Inr weekdays"
proof -
  have days: "(\<lambda>d. sort_key start_min (win_days weekdays d)) = win_days weekdays"
    by (simp add: weekdays_def fun_eq_iff)
  have "collect_days (sched_windows (DefaultSchedule ''UTC'')) (\<lambda>_. []) = Inr (win_days weekdays)"
    by (simp add: DefaultSchedule_def weekdays_def Let_def defaultWindowStartMin_def defaultWindowEndMin_def
        fun_eq_iff)
  moreover have "NewWindow (Some (fixed_zone 0)) (win_days weekdays) = Inr weekdays"
    using weekdays_valid by (simp add: NewWindow_def days Let_def) (simp add: weekdays_def)
  ultimately show ?thesis by (simp add: Compile_def sample_zones_def)
qed

lemma nextAttemptIn_in_window_witness:
  "minute \<le> nextAttemptIn sample_zones (DefaultSchedule ''UTC'') ''e'' True False (day_ns - second)
     \<and> Contains weekdays (day_ns - second
         + nextAttemptIn sample_zones (DefaultSchedule ''UTC'') ''e'' True False (day_ns - second))"
  by (rule nextAttemptIn_in_window [OF weekdays_compile, where off = 0])
    (simp_all add: weekdays_def steady_fixed day_ns_def)

subsection \<open>The backoffs of a refused claim\<close>

text \<open>
  Two waits are not snapped, or not last. A claim refused as early waits at least a minute, which
  can carry a due time near the window's end past it; and a claim refused for the mailbox's spacing
  waits for the spacing alone. Both retries send as soon as they run: here at 17:00:40 and at
  17:04:40 under a window that closes at 17:00.
\<close>

definition late_job :: step_job where
  "late_job = zero_job\<lparr>EnrollmentID := ''e'', Schedule := DefaultSchedule ''UTC'', MinIntervalSeconds := 300,
     NotDueUntil := 1019 * minute + 50 * second\<rparr>"

lemma late_snap:
  "snapToWindow sample_zones (DefaultSchedule ''UTC'') ''e'' (1019 * minute + 50 * second)
     = 1020 * minute - second"
  by (simp add: snapToWindow_def weekdays_compile)
    (simp add: sample_zones_def weekdays_def window_eval upt_rec)

lemma notDueBackoff_leaves_window:
  "NotYetDue late_job (1019 * minute + 40 * second)
     \<and> notDueBackoff sample_zones late_job (1019 * minute + 40 * second) = minute
     \<and> \<not> Contains weekdays (1019 * minute + 40 * second + minute)"
proof -
  have "notDueBackoff sample_zones late_job (1019 * minute + 40 * second) = minute"
  proof -
    have "Schedule late_job = DefaultSchedule ''UTC''" "EnrollmentID late_job = ''e''"
      "NotDueUntil late_job = 1019 * minute + 50 * second" by (simp_all add: late_job_def)
    then show ?thesis
      by (simp only: notDueBackoff_def late_snap) (simp add: minBlockedBackoff_def time_sub_def minute_def second_def)
  qed
  then show ?thesis
    by (simp add: NotYetDue_def late_job_def weekdays_def window_eval)
qed

lemma spacing_leaves_window:
  "let now = 1019 * minute + 55 * second; job = late_job\<lparr>NotDueUntil := 0\<rparr>
   in claim_deferred env p job = Now (\<lambda>_. defer_in p (300 * second))
      \<and> Contains weekdays now \<and> \<not> Contains weekdays (now + 300 * second)"
proof -
  have "claim_deferred env p (late_job\<lparr>NotDueUntil := 0\<rparr>) = Now (\<lambda>_. defer_in p (300 * second))"
    by (simp add: claim_deferred_def late_job_def NotYetDue_def second_def)
  moreover have "Contains weekdays (1019 * minute + 55 * second)
      \<and> \<not> Contains weekdays (1019 * minute + 55 * second + 300 * second)"
    by (simp add: weekdays_def window_eval)
  ultimately show ?thesis by (simp add: Let_def)
qed

end
