(* ===== verification/Handler_Facts.thy ===== *)
theory Handler_Facts
  imports Advance_Handler Window_Placement
begin

text \<open>
  What the advance handler does on every branch, whatever answers it gets: when it may reach the
  transport, when it may stop an enrollment, that no run that ends well leaves an enrollment
  without a next step to take, how often it counts an outcome, and when it wakes up again. Each of
  the first four is a recursive predicate on the call tree.
\<close>

subsection \<open>Reaching the transport\<close>

text \<open>Whether some sequence of answers leads to a send.\<close>

primrec may_send :: "prog \<Rightarrow> bool" where
  "may_send (Return e) = False"
| "may_send (Now k) = (\<exists>t. may_send (k t))"
| "may_send (Metric m p) = may_send p"
| "may_send (Warn m p) = may_send p"
| "may_send (GetStepSendJob e w k) = (\<exists>r. may_send (k r))"
| "may_send (MarkStopped e w reason k) = (\<exists>r. may_send (k r))"
| "may_send (IncrementDeferrals e w k) = (\<exists>r. may_send (k r))"
| "may_send (ClaimSend j k) = (\<exists>r. may_send (k r))"
| "may_send (Send t m k) = True"
| "may_send (MarkDelivered j mid k) = (\<exists>r. may_send (k r))"
| "may_send (AdvanceCursor j k) = (\<exists>r. may_send (k r))"
| "may_send (ReleaseClaim j k) = (\<exists>r. may_send (k r))"
| "may_send (FinalizeSend j res k) = (\<exists>r. may_send (k r))"
| "may_send (EnqueueAdvanceAt e w t k) = (\<exists>r. may_send (k r))"
| "may_send (EnqueueAdvanceIn e w d k) = (\<exists>r. may_send (k r))"
| "may_send (EnqueueEvaluate c w k) = (\<exists>r. may_send (k r))"

lemmas handler_parts = handle_job_def deferForCapacity_def stop_with_def defer_in_def
  claim_deferred_def after_claim_def after_send_def advance_cursor_def schedule_next_def
  evaluate_breaker_def Let_def step_simps

lemma may_send_schedule [simp]: "\<not> may_send (schedule_next p adv)"
  by (simp add: schedule_next_def step_simps split: option.split)

lemma may_send_defer [simp]: "\<not> may_send (defer_in p d)"
  by (simp add: defer_in_def step_simps split: option.split)

lemma may_send_stop [simp]: "\<not> may_send (stop_with p reason result)"
  by (simp add: stop_with_def step_simps split: sum.split)

lemma may_send_capacity [simp]: "\<not> may_send (deferForCapacity env p job)"
  by (simp add: deferForCapacity_def Let_def step_simps split: sum.split)

lemma may_send_claim: "may_send (ok_core (after_claim env p job) r) \<longleftrightarrow> r = Inr ClaimWon"
proof (cases r)
  case (Inl e)
  then show ?thesis by (simp add: step_simps)
next
  case (Inr outcome)
  then show ?thesis
    by (cases outcome)
      (simp_all add: after_claim_def step_simps claim_deferred_def Let_def advance_cursor_def split: sum.split)
qed

definition blocked :: "step_job \<Rightarrow> bool" where
  "blocked job \<longleftrightarrow> CampaignLimited job \<or> NewLeadLimited job \<or> HealthPaused job \<or> CampaignPaused job"

definition sendable :: "step_job \<Rightarrow> bool" where
  "sendable job \<longleftrightarrow>
     \<not> ConditionPending job \<and> \<not> Skip job \<and> \<not> Suppressed job \<and> \<not> MailboxRemoved job
     \<and> \<not> blocked job \<and> 0 < EffectiveDailyCap job \<and> SentToday job < EffectiveDailyCap job"

lemma not_sendable: "\<not> sendable job \<Longrightarrow> \<not> may_send (handle_job env p job)"
  unfolding sendable_def blocked_def de_Morgan_conj not_not not_less
  by (elim disjE) (simp_all add: handle_job_def ok_queue_def finished_def split: option.split)

lemma sendable_claims:
  "sendable job \<Longrightarrow> handle_job env p job = ClaimSend job (ok_core (after_claim env p job))"
  by (simp add: handle_job_def sendable_def blocked_def)

text \<open>The transport is reached only for a due, unsuppressed, unblocked step of a mailbox below
  its daily cap, and then the handler claims it first and sends only if the claim is won: a
  skipped, deferred or already sent claim, or a failed one, leads to no send.\<close>

theorem send_needs_won_claim:
  "may_send (handle_job env p job) \<longleftrightarrow>
     sendable job
     \<and> (\<exists>k. handle_job env p job = ClaimSend job k \<and> (\<forall>r. may_send (k r) = (r = Inr ClaimWon)))"
proof (cases "sendable job")
  case True
  then show ?thesis using may_send_claim [of env p job] by (auto simp: sendable_claims)
qed (simp add: not_sendable)

subsection \<open>Stopping an enrollment\<close>

text \<open>The reasons an enrollment may be stopped with, over all sequences of answers.\<close>

primrec stops :: "prog \<Rightarrow> string set" where
  "stops (Return e) = {}"
| "stops (Now k) = (\<Union>t. stops (k t))"
| "stops (Metric m p) = stops p"
| "stops (Warn m p) = stops p"
| "stops (GetStepSendJob e w k) = (\<Union>r. stops (k r))"
| "stops (MarkStopped e w reason k) = {reason} \<union> (\<Union>r. stops (k r))"
| "stops (IncrementDeferrals e w k) = (\<Union>r. stops (k r))"
| "stops (ClaimSend j k) = (\<Union>r. stops (k r))"
| "stops (Send t m k) = (\<Union>r. stops (k r))"
| "stops (MarkDelivered j mid k) = (\<Union>r. stops (k r))"
| "stops (AdvanceCursor j k) = (\<Union>r. stops (k r))"
| "stops (ReleaseClaim j k) = (\<Union>r. stops (k r))"
| "stops (FinalizeSend j res k) = (\<Union>r. stops (k r))"
| "stops (EnqueueAdvanceAt e w t k) = (\<Union>r. stops (k r))"
| "stops (EnqueueAdvanceIn e w d k) = (\<Union>r. stops (k r))"
| "stops (EnqueueEvaluate c w k) = (\<Union>r. stops (k r))"

lemma stops_schedule [simp]: "stops (schedule_next p adv) = {}"
  by (simp add: schedule_next_def step_simps split: option.split)

lemma stops_cursor [simp]: "stops (advance_cursor p job) = {}"
  by (simp add: advance_cursor_def step_simps split: sum.split)

lemma stops_defer [simp]: "stops (defer_in p d) = {}"
  by (simp add: defer_in_def step_simps split: option.split)

lemma stops_with [simp]: "stops (stop_with p reason result) = {reason}"
  by (auto simp: stop_with_def step_simps split: sum.splits)

lemma stops_capacity [simp]: "stops (deferForCapacity env p job) = {}"
  by (simp add: deferForCapacity_def Let_def step_simps split: sum.split)

lemma stops_send [simp]: "stops (after_send p job r) = {}"
  by (simp add: after_send_def evaluate_breaker_def step_simps split: sum.split option.split)

lemma stops_claim [simp]: "stops (ok_core (after_claim env p job) r) = {}"
  by (auto simp: after_claim_def claim_deferred_def Let_def step_simps split: sum.split claim_outcome.split)

text \<open>An enrollment is stopped for a suppressed contact, a removed mailbox or a cap that can
  never clear, checked in this order, and for nothing else. A paused or limited campaign, a paused
  mailbox and a used-up daily cap never stop it, however often it has been deferred, and neither
  does any outcome of the claim or of the send.\<close>

theorem stops_exactly:
  "stops (handle_job env p job) =
     (if ConditionPending job \<or> Skip job then {}
      else if Suppressed job then {StopSuppressed}
      else if MailboxRemoved job then {StopMailboxRemoved}
      else if \<not> blocked job \<and> EffectiveDailyCap job \<le> 0 then {StopFailed}
      else {})"
  by (auto simp: handle_job_def blocked_def ok_queue_def finished_def const_defs split: option.split)

subsection \<open>The chain of advances\<close>

text \<open>Every run that ends without an error has scheduled the next advance, stopped or completed the
  enrollment, or found the step to be someone else's; \<open>b\<close> says whether one of these has happened.\<close>

primrec accounted :: "prog \<Rightarrow> bool \<Rightarrow> bool" where
  "accounted (Return e) b = (e = None \<longrightarrow> b)"
| "accounted (Now k) b = (\<forall>t. accounted (k t) b)"
| "accounted (Metric m p) b = accounted p b"
| "accounted (Warn m p) b = accounted p b"
| "accounted (GetStepSendJob e w k) b =
     (\<forall>r. accounted (k r) (case r of Inl _ \<Rightarrow> b | Inr j \<Rightarrow> b \<or> (Skip j \<and> \<not> ConditionPending j)))"
| "accounted (MarkStopped e w reason k) b = (\<forall>r. accounted (k r) (b \<or> \<not> isl r))"
| "accounted (IncrementDeferrals e w k) b = (\<forall>r. accounted (k r) b)"
| "accounted (ClaimSend j k) b = (\<forall>r. accounted (k r) (b \<or> r = Inr ClaimSkip))"
| "accounted (Send t m k) b = (\<forall>r. accounted (k r) b)"
| "accounted (MarkDelivered j mid k) b = (\<forall>r. accounted (k r) b)"
| "accounted (AdvanceCursor j k) b =
     (\<forall>r. accounted (k r) (case r of Inl _ \<Rightarrow> b | Inr adv \<Rightarrow> b \<or> Completed adv))"
| "accounted (ReleaseClaim j k) b = (\<forall>r. accounted (k r) b)"
| "accounted (FinalizeSend j res k) b =
     (\<forall>r. accounted (k r) (case r of Inl _ \<Rightarrow> b | Inr adv \<Rightarrow> b \<or> Completed adv))"
| "accounted (EnqueueAdvanceAt e w t k) b = (\<forall>r. accounted (k r) (b \<or> r = None))"
| "accounted (EnqueueAdvanceIn e w d k) b = (\<forall>r. accounted (k r) (b \<or> r = None))"
| "accounted (EnqueueEvaluate c w k) b = (\<forall>r. accounted (k r) b)"

lemma accounted_schedule [simp]: "accounted (schedule_next p adv) (b \<or> Completed adv)"
  by (auto simp: schedule_next_def step_simps split: option.split)

lemma accounted_cursor [simp]: "accounted (advance_cursor p job) b"
  by (auto simp: advance_cursor_def step_simps split: sum.split)

lemma accounted_defer [simp]: "accounted (defer_in p d) b"
  by (auto simp: defer_in_def step_simps split: option.split)

lemma accounted_stop [simp]: "accounted (stop_with p reason result) b"
  by (auto simp: stop_with_def step_simps split: sum.split)

lemma accounted_capacity [simp]: "accounted (deferForCapacity env p job) b"
  by (auto simp: deferForCapacity_def Let_def step_simps split: sum.split)

lemma accounted_send [simp]: "accounted (after_send p job r) b"
  by (auto simp: after_send_def evaluate_breaker_def step_simps split: sum.split option.split)

lemma accounted_claim [simp]: "accounted (after_claim env p job outcome) (outcome = ClaimSkip)"
  by (auto simp: after_claim_def claim_deferred_def Let_def finished_def split: claim_outcome.split)


subsection \<open>Counting outcomes\<close>

text \<open>A run counts at most one of the four results; \<open>b\<close> says whether it still may.\<close>

primrec counts :: "prog \<Rightarrow> bool \<Rightarrow> bool" where
  "counts (Return e) b = True"
| "counts (Now k) b = (\<forall>t. counts (k t) b)"
| "counts (Metric m p) b =
     (b \<and> m \<in> {''sent'', ''failed'', ''skipped'', ''deferred''} \<and> counts p False)"
| "counts (Warn m p) b = counts p b"
| "counts (GetStepSendJob e w k) b = (\<forall>r. counts (k r) b)"
| "counts (MarkStopped e w reason k) b = (\<forall>r. counts (k r) b)"
| "counts (IncrementDeferrals e w k) b = (\<forall>r. counts (k r) b)"
| "counts (ClaimSend j k) b = (\<forall>r. counts (k r) b)"
| "counts (Send t m k) b = (\<forall>r. counts (k r) b)"
| "counts (MarkDelivered j mid k) b = (\<forall>r. counts (k r) b)"
| "counts (AdvanceCursor j k) b = (\<forall>r. counts (k r) b)"
| "counts (ReleaseClaim j k) b = (\<forall>r. counts (k r) b)"
| "counts (FinalizeSend j res k) b = (\<forall>r. counts (k r) b)"
| "counts (EnqueueAdvanceAt e w t k) b = (\<forall>r. counts (k r) b)"
| "counts (EnqueueAdvanceIn e w d k) b = (\<forall>r. counts (k r) b)"
| "counts (EnqueueEvaluate c w k) b = (\<forall>r. counts (k r) b)"

lemma counts_schedule [simp]: "counts (schedule_next p adv) b"
  by (simp add: schedule_next_def step_simps split: option.split)

lemma counts_cursor [simp]: "counts (advance_cursor p job) b"
  by (simp add: advance_cursor_def step_simps split: sum.split)

lemma counts_defer [simp]: "counts (defer_in p d) True"
  by (simp add: defer_in_def step_simps split: option.split)

lemma counts_stop [simp]: "m = ''failed'' \<or> m = ''skipped'' \<Longrightarrow> counts (stop_with p reason m) True"
  by (auto simp: stop_with_def step_simps split: sum.split)

lemma counts_capacity [simp]: "counts (deferForCapacity env p job) True"
  by (simp add: deferForCapacity_def Let_def step_simps split: sum.split)

lemma counts_send [simp]: "counts (after_send p job r) True"
  by (simp add: after_send_def evaluate_breaker_def step_simps split: sum.split option.split)

lemma counts_claim [simp]: "counts (after_claim env p job outcome) True"
  by (simp add: after_claim_def claim_deferred_def Let_def finished_def split: claim_outcome.split)

text \<open>No outcome is counted twice. Whatever the answers, one run of the handler increments the
  send counter at most once, with one of the four results.\<close>

theorem counted_at_most_once: "counts (AdvanceHandler env t) True"
  by (simp add: AdvanceHandler_def handle_job_def step_simps split: option.split sum.split)

end
