(* ===== verification/Send_Claims.thy ===== *)
theory Send_Claims
  imports Advance_Handler
begin

text \<open>
  The contract of the delivery claim. \<open>Client\<close> holds the operations of the \<open>coreapi.Client\<close>
  interface the advance handler calls about a send; \<open>PgClient\<close> is the control plane's own
  implementation. The locale \<open>claim_store\<close> states what at-most-once delivery rests on: what a won
  claim requires and leaves, that a lost one changes nothing, and what each report does to the row
  it is about and to every other row. \<open>pg_claims\<close> is its interpretation on the tables.

  A row is seen through \<open>row_view\<close>: absent, held under a lease, or final. Ids derived for different
  steps may collide in principle, so the contract is about a set \<open>U\<close> of steps on which
  \<open>deriveStepSendID\<close> is injective; \<open>home\<close> is the workspace of a campaign.
\<close>

subsection \<open>The interface\<close>

record 's Client =
  ClientClaim :: "faults \<Rightarrow> instant \<Rightarrow> step_job \<Rightarrow> 's \<Rightarrow> (core_error + claim_outcome) \<times> 's"
  ClientDeliver :: "faults \<Rightarrow> instant \<Rightarrow> step_job \<Rightarrow> string \<Rightarrow> 's \<Rightarrow> (core_error + unit) \<times> 's"
  ClientRelease :: "faults \<Rightarrow> step_job \<Rightarrow> 's \<Rightarrow> (core_error + unit) \<times> 's"
  ClientFinalize :: "faults \<Rightarrow> instant \<Rightarrow> instant \<Rightarrow> step_job \<Rightarrow> step_result \<Rightarrow> 's \<Rightarrow> (core_error + advance) \<times> 's"
  ClientAdvance :: "faults \<Rightarrow> instant \<Rightarrow> instant \<Rightarrow> step_job \<Rightarrow> 's \<Rightarrow> (core_error + advance) \<times> 's"
  ClientStop :: "faults \<Rightarrow> instant \<Rightarrow> string \<Rightarrow> string \<Rightarrow> string \<Rightarrow> 's \<Rightarrow> (core_error + unit) \<times> 's"
  ClientIncrement :: "faults \<Rightarrow> string \<Rightarrow> string \<Rightarrow> 's \<Rightarrow> (core_error + int) \<times> 's"

definition PgClient :: "lib \<Rightarrow> db Client" where
  "PgClient L =
     \<lparr>ClientClaim = localClaimStepSend L, ClientDeliver = localMarkStepDelivered L,
      ClientRelease = localReleaseStepSend L, ClientFinalize = localFinalizeStepSend L,
      ClientAdvance = localAdvanceStepCursor L, ClientStop = localMarkStepStopped L,
      ClientIncrement = localIncrementEnrollmentCapDeferrals L\<rparr>"

datatype row_view = Absent | Held "instant option" | Final

definition lease :: duration where "lease = claimLeaseSeconds * second"

definition expired :: "instant \<Rightarrow> row_view \<Rightarrow> bool" where
  "expired now v \<longleftrightarrow> v = Absent \<or> (\<exists>c. v = Held (Some c) \<and> c + lease < now)"

definition settle :: "row_view \<Rightarrow> row_view" where
  "settle v = (if v = Absent then Absent else Final)"

definition expire :: "row_view \<Rightarrow> row_view" where
  "expire v = (case v of Held _ \<Rightarrow> Held (Some epoch) | _ \<Rightarrow> v)"

locale claim_store =
  fixes C :: "'s Client"
    and ok :: "'s \<Rightarrow> bool"
    and ok_job :: "step_job \<Rightarrow> bool"
    and key :: "step_job \<Rightarrow> 'k"
    and view :: "'s \<Rightarrow> 'k \<Rightarrow> row_view"
  assumes claim_won: "\<lbrakk>ok s; ok_job j; ClientClaim C flt now j s = (Inr ClaimWon, s')\<rbrakk> \<Longrightarrow>
        ok s' \<and> expired now (view s (key j)) \<and> view s' = (view s)(key j := Held (Some now))"
    and claim_other: "\<lbrakk>ClientClaim C flt now j s = (r, s'); r \<noteq> Inr ClaimWon\<rbrakk> \<Longrightarrow> s' = s"
    and already_sent: "\<lbrakk>ok s; ok_job j; ClientClaim C flt now j s = (Inr ClaimAlreadySent, s')\<rbrakk> \<Longrightarrow>
        view s (key j) = Final"
    and deliver_law: "\<lbrakk>ok s; ok_job j; ClientDeliver C flt now j mid s = (rd, s')\<rbrakk> \<Longrightarrow>
        ok s' \<and> (case rd of Inl _ \<Rightarrow> s' = s | Inr _ \<Rightarrow> view s' = (view s)(key j := settle (view s (key j))))"
    and release_law: "\<lbrakk>ok s; ok_job j; ClientRelease C flt j s = (rr, s')\<rbrakk> \<Longrightarrow>
        ok s' \<and> (case rr of Inl _ \<Rightarrow> s' = s | Inr _ \<Rightarrow> view s' = (view s)(key j := expire (view s (key j))))"
    and finalize_law: "\<lbrakk>ok s; ok_job j; res_status res \<noteq> ''sending'';
          ClientFinalize C flt now nowdb j res s = (rf, s')\<rbrakk> \<Longrightarrow>
        ok s' \<and> (case rf of Inl _ \<Rightarrow> s' = s | Inr _ \<Rightarrow> view s' = (view s)(key j := settle (view s (key j))))"
    and advance_law: "\<lbrakk>ok s; ClientAdvance C flt now nowdb j s = (r1, s')\<rbrakk> \<Longrightarrow> ok s' \<and> view s' = view s"
    and stop_law: "\<lbrakk>ok s; ClientStop C flt now e w reason s = (r2, s')\<rbrakk> \<Longrightarrow> ok s' \<and> view s' = view s"
    and increment_law: "\<lbrakk>ok s; ClientIncrement C flt e w s = (r3, s')\<rbrakk> \<Longrightarrow> ok s' \<and> view s' = view s"

subsection \<open>The tables\<close>

type_synonym step_key = "uuid \<times> uuid \<times> int"

definition derive_key :: "lib \<Rightarrow> step_key \<Rightarrow> uuid" where
  "derive_key L k = (case k of (c, ct, n) \<Rightarrow> deriveStepSendID L c ct n)"

definition job_key :: "lib \<Rightarrow> step_job \<Rightarrow> step_key" where
  "job_key L j = (the (uuid_Parse L (CampaignID j)), the (uuid_Parse L (ContactID j)), StepOrder j)"

text \<open>What a job built by the control plane satisfies: ids that parse, a step order that fits the
  column, and the send id derived from them.\<close>

definition good_job :: "lib \<Rightarrow> step_key set \<Rightarrow> (uuid \<Rightarrow> uuid) \<Rightarrow> step_job \<Rightarrow> bool" where
  "good_job L U home j \<longleftrightarrow>
     inj_on (derive_key L) U \<and> job_key L j \<in> U \<and> int32 (StepOrder j)
     \<and> uuid_Parse L (CampaignID j) \<noteq> None \<and> uuid_Parse L (ContactID j) \<noteq> None
     \<and> uuid_Parse L (WorkspaceID j) = Some (home (fst (job_key L j)))
     \<and> uuid_Parse L (SendID j) = Some (derive_key L (job_key L j))"

definition good_row :: "lib \<Rightarrow> step_key set \<Rightarrow> (uuid \<Rightarrow> uuid) \<Rightarrow> send \<Rightarrow> bool" where
  "good_row L U home r \<longleftrightarrow>
     send_key r \<in> U \<and> sd_id r = derive_key L (send_key r) \<and> sd_ws r = home (sd_campaign r)"

definition good_db :: "lib \<Rightarrow> step_key set \<Rightarrow> (uuid \<Rightarrow> uuid) \<Rightarrow> db \<Rightarrow> bool" where
  "good_db L U home s \<longleftrightarrow>
     unique_key send_key (db_sends s) \<and> (\<forall>r \<in> set (db_sends s). good_row L U home r)"

definition view_row :: "send \<Rightarrow> row_view" where
  "view_row r = (if sd_status r = ''sending'' then Held (sd_claimed_at r) else Final)"

definition send_view :: "db \<Rightarrow> step_key \<Rightarrow> row_view" where
  "send_view s k =
     (case select_one (\<lambda>r. send_key r = k) (db_sends s) of None \<Rightarrow> Absent | Some r \<Rightarrow> view_row r)"

text \<open>An update by id and workspace that keeps the key columns is an update of one key.\<close>

lemma view_update:
  assumes keep: "\<And>r. send_key (f r) = send_key r"
  shows "send_view (s\<lparr>db_sends := update_where p f (db_sends s)\<rparr>) k
       = (case select_one (\<lambda>r. send_key r = k) (db_sends s) of
            None \<Rightarrow> Absent | Some r \<Rightarrow> view_row (if p r then f r else r))"
  unfolding send_view_def
  by (simp add: select_update [where q = "\<lambda>r. send_key r = k"] keep split: option.splits)

lemma good_update:
  assumes "good_db L U home s" and "\<And>r. send_key (f r) = send_key r"
    and "\<And>r. sd_id (f r) = sd_id r" and "\<And>r. sd_ws (f r) = sd_ws r"
  shows "good_db L U home (s\<lparr>db_sends := update_where p f (db_sends s)\<rparr>)"
proof -
  have "sd_campaign (f r) = sd_campaign r" for r using assms(2) [of r] by (simp add: send_key_def)
  with assms show ?thesis
    by (auto simp: good_db_def good_row_def unique_key_update in_update_where)
qed

text \<open>Among good rows, the ones with a good job's id and workspace are the ones with its key.\<close>

lemma good_match:
  assumes "good_job L U home j" and "good_row L U home r"
    and "uuid_Parse L (SendID j) = Some i" and "uuid_Parse L (WorkspaceID j) = Some ws"
  shows "sd_id r = i \<and> sd_ws r = ws \<longleftrightarrow> send_key r = job_key L j"
proof
  assume "sd_id r = i \<and> sd_ws r = ws"
  with assms have "derive_key L (send_key r) = derive_key L (job_key L j)"
    by (auto simp: good_job_def good_row_def)
  with assms(1,2) show "send_key r = job_key L j"
    by (auto simp: good_job_def good_row_def dest: inj_onD)
next
  assume k: "send_key r = job_key L j"
  then have "sd_campaign r = fst (job_key L j)" by (metis fst_conv send_key_def)
  with k assms show "sd_id r = i \<and> sd_ws r = ws"
    by (auto simp: good_job_def good_row_def)
qed

lemma view_job_update:
  assumes "good_db L U home s" and "good_job L U home j"
    and "uuid_Parse L (SendID j) = Some i" and "uuid_Parse L (WorkspaceID j) = Some ws"
    and keep: "\<And>r. send_key (f r) = send_key r"
    and q: "\<And>r. sd_id r = i \<and> sd_ws r = ws \<Longrightarrow> view_row (if q r then f r else r) = g (view_row r)"
    and "g Absent = Absent"
  shows "send_view (s\<lparr>db_sends := update_where (\<lambda>r. sd_id r = i \<and> sd_ws r = ws \<and> q r) f (db_sends s)\<rparr>)
       = (send_view s)(job_key L j := g (send_view s (job_key L j)))"
proof
  fix k
  show "send_view (s\<lparr>db_sends := update_where (\<lambda>r. sd_id r = i \<and> sd_ws r = ws \<and> q r) f (db_sends s)\<rparr>) k
      = ((send_view s)(job_key L j := g (send_view s (job_key L j)))) k"
  proof (cases "select_one (\<lambda>r. send_key r = k) (db_sends s)")
    case None
    with assms(7) show ?thesis
      by (subst view_update [OF keep]) (auto simp: send_view_def)
  next
    case (Some r)
    then have r: "r \<in> set (db_sends s)" "send_key r = k" by (auto dest: select_one_SomeD)
    with assms(1) have "good_row L U home r" by (simp add: good_db_def)
    from good_match [OF assms(2) this assms(3,4)] r(2)
    have m: "sd_id r = i \<and> sd_ws r = ws \<longleftrightarrow> k = job_key L j" by simp
    show ?thesis
    proof (cases "k = job_key L j")
      case True
      with m q [of r] Some show ?thesis
        by (subst view_update [OF keep]) (auto simp: send_view_def)
    next
      case False
      with m Some show ?thesis by (subst view_update [OF keep]) (auto simp: send_view_def)
    qed
  qed
qed

subsection \<open>The operations on the tables\<close>

lemma view_result:
  assumes "good_db L U home s" and "good_job L U home j"
    and "uuid_Parse L (SendID j) = Some i" and "uuid_Parse L (WorkspaceID j) = Some ws"
    and "stat \<noteq> ''sending''"
  shows "send_view (s\<lparr>db_sends := SetSendResult now i ws stat mid err (db_sends s)\<rparr>)
       = (send_view s)(job_key L j := settle (send_view s (job_key L j)))"
    and "good_db L U home (s\<lparr>db_sends := SetSendResult now i ws stat mid err (db_sends s)\<rparr>)"
proof -
  let ?f = "\<lambda>r. r\<lparr>sd_status := stat, sd_message_id := mid, sd_error := err,
             sd_sent_at := (if stat = ''sent'' then Some now else sd_sent_at r)\<rparr>"
  have keep: "send_key (?f r) = send_key r" for r by (simp add: send_key_def)
  from view_job_update [OF assms(1-4) keep, of "\<lambda>_. True" settle] assms(5)
  show "send_view (s\<lparr>db_sends := SetSendResult now i ws stat mid err (db_sends s)\<rparr>)
       = (send_view s)(job_key L j := settle (send_view s (job_key L j)))"
    by (simp add: SetSendResult_def view_row_def settle_def)
  show "good_db L U home (s\<lparr>db_sends := SetSendResult now i ws stat mid err (db_sends s)\<rparr>)"
    unfolding SetSendResult_def by (rule good_update [OF assms(1) keep]) simp_all
qed

lemma view_release:
  assumes "good_db L U home s" and "good_job L U home j"
    and "uuid_Parse L (SendID j) = Some i" and "uuid_Parse L (WorkspaceID j) = Some ws"
  shows "send_view (s\<lparr>db_sends := ReleaseSend i ws (db_sends s)\<rparr>)
       = (send_view s)(job_key L j := expire (send_view s (job_key L j)))"
    and "good_db L U home (s\<lparr>db_sends := ReleaseSend i ws (db_sends s)\<rparr>)"
proof -
  let ?f = "\<lambda>r. r\<lparr>sd_claimed_at := Some epoch\<rparr>"
  have keep: "send_key (?f r) = send_key r" for r by (simp add: send_key_def)
  from view_job_update [OF assms(1-4) keep, of "\<lambda>r. sd_status r = ''sending''" expire]
  show "send_view (s\<lparr>db_sends := ReleaseSend i ws (db_sends s)\<rparr>)
       = (send_view s)(job_key L j := expire (send_view s (job_key L j)))"
    by (simp add: ReleaseSend_def view_row_def expire_def)
  show "good_db L U home (s\<lparr>db_sends := ReleaseSend i ws (db_sends s)\<rparr>)"
    unfolding ReleaseSend_def by (rule good_update [OF assms(1) keep]) simp_all
qed

lemma good_parse:
  assumes "good_job L U home j"
  obtains ws c ct i where "uuid_Parse L (WorkspaceID j) = Some ws" "uuid_Parse L (SendID j) = Some i"
    "uuid_Parse L (CampaignID j) = Some c" "uuid_Parse L (ContactID j) = Some ct"
    "ws = home c" "i = derive_key L (c, ct, StepOrder j)" "job_key L j = (c, ct, StepOrder j)"
    "(c, ct, StepOrder j) \<in> U" "int32 (StepOrder j)"
  using assms by (auto simp: good_job_def job_key_def)

lemma deliver_pg:
  assumes "good_db L U home s" and "good_job L U home j"
    and "localMarkStepDelivered L flt now j mid s = (r, s')"
  shows "good_db L U home s' \<and> (case r of Inl _ \<Rightarrow> s' = s
       | Inr _ \<Rightarrow> send_view s' = (send_view s)(job_key L j := settle (send_view s (job_key L j))))"
proof -
  from good_parse [OF assms(2)] obtain ws i where
    p: "uuid_Parse L (WorkspaceID j) = Some ws" "uuid_Parse L (SendID j) = Some i" by metis
  show ?thesis
    using assms(3) view_result [OF assms(1,2) p(2,1), of "''sent''" now mid "[]"] assms(1)
    by (auto simp: localMarkStepDelivered_def run_stmt_def p split: option.splits)
qed

lemma release_pg:
  assumes "good_db L U home s" and "good_job L U home j"
    and "localReleaseStepSend L flt j s = (r, s')"
  shows "good_db L U home s' \<and> (case r of Inl _ \<Rightarrow> s' = s
       | Inr _ \<Rightarrow> send_view s' = (send_view s)(job_key L j := expire (send_view s (job_key L j))))"
proof -
  from good_parse [OF assms(2)] obtain ws i where
    p: "uuid_Parse L (WorkspaceID j) = Some ws" "uuid_Parse L (SendID j) = Some i" by metis
  show ?thesis
    using assms(3) view_release [OF assms(1,2) p(2,1)] assms(1)
    by (auto simp: localReleaseStepSend_def run_stmt_def p split: option.splits)
qed

lemma send_view_enrollments [simp]: "send_view (s\<lparr>db_enrollments := es\<rparr>) = send_view s"
  by (simp add: send_view_def fun_eq_iff)

lemma good_db_enrollments [simp]: "good_db L U home (s\<lparr>db_enrollments := es\<rparr>) = good_db L U home s"
  by (simp add: good_db_def)

text \<open>The cursor transaction either fails and changes nothing, or commits what came before it in
  the transaction together with the cursor.\<close>

lemma cursor_tx_cases:
  assumes "cursor_tx flt nowdb ws eid job due root pre s = (r, s')"
  obtains (failed) e where "r = Inl e" "s' = s"
  | (committed) t es where "r = Inr \<lparr>Completed = LastStep job, NextDueAt = due\<rparr>" "pre s = Inr t"
      "MarkStepSent (PgStore flt nowdb) ws eid (wrap32 (StepOrder job)) due (LastStep job) root
         (db_enrollments t) = Inr es"
      "s' = t\<lparr>db_enrollments := es\<rparr>"
  using assms by (auto simp: cursor_tx_def split: option.splits sum.splits)

lemma finalize_pg:
  assumes "good_db L U home s" and "good_job L U home j" and "res_status res \<noteq> ''sending''"
    and "localFinalizeStepSend L flt now nowdb j res s = (r, s')"
  shows "good_db L U home s' \<and> (case r of Inl _ \<Rightarrow> s' = s
       | Inr _ \<Rightarrow> send_view s' = (send_view s)(job_key L j := settle (send_view s (job_key L j))))"
proof -
  from good_parse [OF assms(2)] obtain ws i where
    p: "uuid_Parse L (WorkspaceID j) = Some ws" "uuid_Parse L (SendID j) = Some i" by metis
  note v = view_result [OF assms(1,2) p(2,1) assms(3), of nowdb "res_message_id res" "res_err res"]
  consider e where "r = Inl e" "s' = s"
    | due eid root pre where
        "cursor_tx flt nowdb ws eid j due root pre s = (r, s')"
        "pre = (\<lambda>s. case flt ''SetSendResult'' of
                Some e \<Rightarrow> Inl (ErrDb e)
              | None \<Rightarrow> Inr (s\<lparr>db_sends := SetSendResult nowdb i ws (res_status res)
                          (res_message_id res) (res_err res) (db_sends s)\<rparr>))"
    using assms(4) by (auto simp: localFinalizeStepSend_def p split: option.splits sum.splits)
  then show ?thesis
  proof cases
    case 1
    then show ?thesis using assms(1) by simp
  next
    case 2
    from 2(1) show ?thesis
    proof (cases rule: cursor_tx_cases)
      case failed
      then show ?thesis using assms(1) by simp
    next
      case committed
      with v 2(2) show ?thesis by (auto split: option.splits)
    qed
  qed
qed

lemma advance_pg:
  assumes "good_db L U home s" and "localAdvanceStepCursor L flt now nowdb j s = (r, s')"
  shows "good_db L U home s' \<and> send_view s' = send_view s"
proof -
  consider e where "r = Inl e" "s' = s"
    | ws due eid root where "cursor_tx flt nowdb ws eid j due root Inr s = (r, s')"
    using assms(2) by (auto simp: localAdvanceStepCursor_def split: option.splits sum.splits)
  then show ?thesis
  proof cases
    case 1
    then show ?thesis using assms(1) by simp
  next
    case 2
    then show ?thesis using assms(1) by (cases rule: cursor_tx_cases) auto
  qed
qed

lemma stop_pg:
  "good_db L U home s \<Longrightarrow> localMarkStepStopped L flt now e w reason s = (r, s') \<Longrightarrow>
     good_db L U home s' \<and> send_view s' = send_view s"
  by (auto simp: localMarkStepStopped_def on_enrollments_def split: option.splits sum.splits)

lemma increment_pg:
  "good_db L U home s \<Longrightarrow> localIncrementEnrollmentCapDeferrals L flt e w s = (r, s') \<Longrightarrow>
     good_db L U home s' \<and> send_view s' = send_view s"
  by (auto simp: localIncrementEnrollmentCapDeferrals_def split: option.splits)

subsection \<open>The claim\<close>

lemma claim_tx_won:
  assumes "claim_tx L flt now ws c ct mb i j s = (Inr ClaimWon, s')"
  obtains fresh rows ms where
    "ClaimStepSend now (claim_row L now ws c ct mb i j) (db_sends s) = Some (fresh, rows)"
    "s' = s\<lparr>db_sends := rows, db_mailboxes := ms\<rparr>"
  using assms
  by (auto simp: claim_tx_def lost_claim_def split: option.splits prod.splits if_splits)

lemma claim_tx_other:
  "claim_tx L flt now ws c ct mb i j s = (r, s') \<Longrightarrow> r \<noteq> Inr ClaimWon \<Longrightarrow> s' = s"
  by (auto simp: claim_tx_def split: option.splits prod.splits)

lemma claim_pg_other:
  "localClaimStepSend L flt now j s = (r, s') \<Longrightarrow> r \<noteq> Inr ClaimWon \<Longrightarrow> s' = s"
  by (auto simp: localClaimStepSend_def split: option.splits if_splits dest: claim_tx_other)

lemma reclaimable_view:
  "reclaimable now ws r \<Longrightarrow> \<exists>c. view_row r = Held (Some c) \<and> c + lease < now"
  by (auto simp: reclaimable_def view_row_def lease_def split: option.splits)

lemma claim_statement:
  assumes "good_db L U home s" and "send_key row \<in> U" and "sd_id row = derive_key L (send_key row)"
    and "sd_ws row = home (sd_campaign row)" and "view_row row = Held (Some now)"
    and "ClaimStepSend now row (db_sends s) = Some (fresh, rows)"
  shows "expired now (send_view s (send_key row))"
    and "send_view (s\<lparr>db_sends := rows, db_mailboxes := ms\<rparr>)
         = (send_view s)(send_key row := Held (Some now))"
    and "good_db L U home (s\<lparr>db_sends := rows, db_mailboxes := ms\<rparr>)"
proof -
  let ?p = "\<lambda>r. send_key r = send_key row"
  let ?f = "claim_fields now (sd_variant row) (sd_tracked row)"
  have keep: "send_key (?f r) = send_key r" for r by (simp add: claim_fields_def send_key_def)
  have mb: "send_view (s\<lparr>db_sends := rs, db_mailboxes := ms\<rparr>) = send_view (s\<lparr>db_sends := rs\<rparr>)"
    "good_db L U home (s\<lparr>db_sends := rs, db_mailboxes := ms\<rparr>) = good_db L U home (s\<lparr>db_sends := rs\<rparr>)" for rs
    by (simp_all add: send_view_def good_db_def fun_eq_iff)
  have "expired now (send_view s (send_key row))
     \<and> send_view (s\<lparr>db_sends := rows\<rparr>) = (send_view s)(send_key row := Held (Some now))
     \<and> good_db L U home (s\<lparr>db_sends := rows\<rparr>)"
  proof (cases "select_one ?p (db_sends s)")
    case None
    with assms(6) have rows: "rows = db_sends s @ [row]" by (simp add: ClaimStepSend_def)
    have app: "select_one q (xs @ [row]) = (case select_one q xs of None \<Rightarrow> if q row then Some row else None
        | Some r \<Rightarrow> Some r)" for q xs
      by (induction xs) auto
    from None have abs: "send_view s (send_key row) = Absent" by (simp add: send_view_def)
    have "send_view (s\<lparr>db_sends := rows\<rparr>) k = ((send_view s)(send_key row := Held (Some now))) k" for k
      using None assms(5) by (auto simp: send_view_def rows app split: option.splits)
    then have "send_view (s\<lparr>db_sends := rows\<rparr>) = (send_view s)(send_key row := Held (Some now))"
      by (rule ext)
    moreover have "good_db L U home (s\<lparr>db_sends := rows\<rparr>)"
      using assms(1-4) None by (simp add: good_db_def rows unique_key_insert good_row_def)
    ultimately show ?thesis using abs by (simp add: expired_def)
  next
    case (Some r)
    with assms(6) have re: "reclaimable now (sd_ws row) r" and rows: "rows = update_where ?p ?f (db_sends s)"
      by (auto simp: ClaimStepSend_def split: if_splits)
    from Some have v: "send_view s (send_key row) = view_row r" by (simp add: send_view_def)
    have "send_view (s\<lparr>db_sends := rows\<rparr>) k = ((send_view s)(send_key row := Held (Some now))) k" for k
      unfolding rows
      by (subst view_update [OF keep])
        (use Some in \<open>auto simp: send_view_def view_row_def claim_fields_def dest: select_one_SomeD
           split: option.splits\<close>)
    then have "send_view (s\<lparr>db_sends := rows\<rparr>) = (send_view s)(send_key row := Held (Some now))"
      by (rule ext)
    moreover have "good_db L U home (s\<lparr>db_sends := rows\<rparr>)"
      unfolding rows by (rule good_update [OF assms(1) keep]) (simp_all add: claim_fields_def)
    ultimately show ?thesis using reclaimable_view [OF re] v by (auto simp: expired_def)
  qed
  then show "expired now (send_view s (send_key row))"
    and "send_view (s\<lparr>db_sends := rows, db_mailboxes := ms\<rparr>)
         = (send_view s)(send_key row := Held (Some now))"
    and "good_db L U home (s\<lparr>db_sends := rows, db_mailboxes := ms\<rparr>)"
    by (simp_all add: mb)
qed

lemma claim_pg_won:
  assumes "good_db L U home s" and "good_job L U home j"
    and "localClaimStepSend L flt now j s = (Inr ClaimWon, s')"
  shows "good_db L U home s' \<and> expired now (send_view s (job_key L j))
     \<and> send_view s' = (send_view s)(job_key L j := Held (Some now))"
proof -
  from good_parse [OF assms(2)] obtain ws c ct i where
    p: "uuid_Parse L (WorkspaceID j) = Some ws" "uuid_Parse L (SendID j) = Some i"
      "uuid_Parse L (CampaignID j) = Some c" "uuid_Parse L (ContactID j) = Some ct"
    and q: "ws = home c" "i = derive_key L (c, ct, StepOrder j)" "job_key L j = (c, ct, StepOrder j)"
      "(c, ct, StepOrder j) \<in> U" "int32 (StepOrder j)" .
  obtain mb where tx: "claim_tx L flt now ws c ct mb i j s = (Inr ClaimWon, s')"
    using assms(3) by (auto simp: localClaimStepSend_def p split: option.splits if_splits)
  let ?row = "claim_row L now ws c ct mb i j"
  have row: "send_key ?row = job_key L j" "sd_id ?row = i" "sd_ws ?row = ws" "sd_campaign ?row = c"
    "view_row ?row = Held (Some now)"
    by (simp_all add: claim_row_def send_key_def q view_row_def)
  from tx show ?thesis
  proof (cases rule: claim_tx_won)
    case (1 fresh rows ms)
    note st = claim_statement [OF assms(1) _ _ _ row(5) 1(1)]
    from st(1) st(2) [where ms = ms] st(3) [where ms = ms] row q 1(2) show ?thesis by simp
  qed
qed

lemma claim_pg_sent:
  assumes "good_db L U home s" and "good_job L U home j"
    and "localClaimStepSend L flt now j s = (Inr ClaimAlreadySent, s')"
  shows "send_view s (job_key L j) = Final"
proof -
  from good_parse [OF assms(2)] obtain ws i where
    p: "uuid_Parse L (WorkspaceID j) = Some ws" "uuid_Parse L (SendID j) = Some i" by metis
  have "\<exists>mid. GetSendState i ws (db_sends s) = Some (''sent'', mid)"
    using assms(3)
    by (auto simp: localClaimStepSend_def claim_tx_def lost_claim_def p split: option.splits if_splits prod.splits)
  then obtain r where r: "r \<in> set (db_sends s)" "sd_id r = i" "sd_ws r = ws" "sd_status r = ''sent''"
    by (auto simp: GetSendState_def dest: select_one_SomeD)
  with assms(1) have "good_row L U home r" by (simp add: good_db_def)
  with good_match [OF assms(2) _ p(2,1)] r have k: "send_key r = job_key L j" by blast
  have "select_one (\<lambda>q. send_key q = job_key L j) (db_sends s) = Some r"
  proof (cases "select_one (\<lambda>q. send_key q = job_key L j) (db_sends s)")
    case None
    with r k show ?thesis by (auto simp: select_one_None_iff)
  next
    case (Some q)
    then have "q \<in> set (db_sends s)" "send_key q = send_key r" using k by (auto dest: select_one_SomeD)
    with r assms(1) Some show ?thesis by (metis good_db_def unique_keyD)
  qed
  with r show ?thesis by (simp add: send_view_def view_row_def)
qed

interpretation pg_claims: claim_store "PgClient L" "good_db L U home" "good_job L U home" "job_key L" send_view
  for L U home
  by (unfold_locales; unfold PgClient_def Client.simps;
      (rule claim_pg_other claim_pg_sent deliver_pg release_pg finalize_pg advance_pg stop_pg increment_pg
       | insert claim_pg_won, blast); assumption)

end
