(* ===== verification/Send_Engine.thy ===== *)
theory Send_Engine
  imports Send_Claims
begin

text \<open>
  Any number of workers running the advance handler at once against one control plane. A worker
  may start at any time with any task, stop dead at any call, meet any failure of any statement,
  lose the answer of a call that did commit, and stay silent for any time; the enrollments may change
  under it in any way. Each call of the control plane is one step.

  \<open>proto\<close> follows what a run of the handler knows about its claim, and \<open>conforms\<close> is the protocol:
  send only under a won claim, record an accepted message at once and for the same job, release
  after a transient error, finalize after a permanent one, and touch the row no more. The handler
  conforms (\<open>AdvanceHandler_conforms\<close>), and the safety theorem is proved for every program that does,
  over every store that meets the contract of \<open>Send_Claims\<close>.

  A world logs a step's key each time the transport takes its message. \<open>w_residual\<close> collects the
  keys for which the known window was hit: a worker that died, or failed to commit its report,
  between a taken message and the report, and a claim that outlived its lease while its worker
  was still working on it.
\<close>

subsection \<open>The protocol\<close>

datatype proto =
    Idle
  | Claimed step_job
  | Accepted step_job
  | Refused step_job send_error bool
  | Over

primrec conforms :: "(step_job \<Rightarrow> bool) \<Rightarrow> prog \<Rightarrow> proto \<Rightarrow> bool" where
  "conforms OK (Return e) st = (st = Idle \<or> st = Over)"
| "conforms OK (Now k) st = (\<forall>t. conforms OK (k t) st)"
| "conforms OK (Metric m p) st = conforms OK p st"
| "conforms OK (Warn m p) st = conforms OK p st"
| "conforms OK (GetStepSendJob e w k) st =
     (st = Idle \<and> (\<forall>r. (\<forall>j. r = Inr j \<longrightarrow> OK j) \<longrightarrow> conforms OK (k r) Idle))"
| "conforms OK (MarkStopped e w reason k) st = ((st = Idle \<or> st = Over) \<and> (\<forall>r. conforms OK (k r) st))"
| "conforms OK (IncrementDeferrals e w k) st = ((st = Idle \<or> st = Over) \<and> (\<forall>r. conforms OK (k r) st))"
| "conforms OK (ClaimSend j k) st =
     (st = Idle \<and> OK j
      \<and> (\<forall>r. conforms OK (k r) (if r = Inr ClaimWon then Claimed j else Over)))"
| "conforms OK (Send t m k) st =
     (\<exists>j. st = Claimed j \<and> OK j \<and> (\<forall>mid. conforms OK (k (Inr mid)) (Accepted j))
        \<and> (\<forall>e d. conforms OK (k (Inl e)) (Refused j e d)))"
| "conforms OK (MarkDelivered j mid k) st = (st = Accepted j \<and> OK j \<and> (\<forall>r. conforms OK (k r) Over))"
| "conforms OK (AdvanceCursor j k) st = ((st = Idle \<or> st = Over) \<and> (\<forall>r. conforms OK (k r) st))"
| "conforms OK (ReleaseClaim j k) st =
     ((\<exists>e d. st = Refused j e d \<and> Retryable e) \<and> OK j \<and> (\<forall>r. conforms OK (k r) Over))"
| "conforms OK (FinalizeSend j res k) st =
     ((\<exists>e d. st = Refused j e d \<and> \<not> Retryable e) \<and> OK j \<and> res_status res \<noteq> ''sending''
      \<and> (\<forall>r. conforms OK (k r) Over))"
| "conforms OK (EnqueueAdvanceAt e w t k) st = ((st = Idle \<or> st = Over) \<and> (\<forall>r. conforms OK (k r) st))"
| "conforms OK (EnqueueAdvanceIn e w d k) st = ((st = Idle \<or> st = Over) \<and> (\<forall>r. conforms OK (k r) st))"
| "conforms OK (EnqueueEvaluate c w k) st = ((st = Idle \<or> st = Over) \<and> (\<forall>r. conforms OK (k r) st))"

lemma conforms_schedule: "conforms OK (schedule_next p adv) Over"
  by (simp add: schedule_next_def step_simps split: option.split)

lemma conforms_cursor: "conforms OK (advance_cursor p j) Over"
  by (simp add: advance_cursor_def step_simps conforms_schedule split: sum.split)

lemma conforms_defer: "st = Idle \<or> st = Over \<Longrightarrow> conforms OK (defer_in p d) st"
  by (auto simp: defer_in_def step_simps split: option.split)

lemma conforms_stop: "conforms OK (stop_with p reason result) Idle"
  by (simp add: stop_with_def step_simps split: sum.split)

lemma conforms_sent: "OK j \<Longrightarrow> conforms OK (after_send p j (Inr mid)) (Accepted j)"
  by (simp add: after_send_def evaluate_breaker_def step_simps conforms_cursor split: sum.split option.split)

lemma conforms_refused: "OK j \<Longrightarrow> conforms OK (after_send p j (Inl e)) (Refused j e d)"
  by (simp add: after_send_def step_simps conforms_schedule split: sum.split)

lemma conforms_claim:
  assumes "OK j"
  shows "conforms OK (ok_core (after_claim env p j) r) (if r = Inr ClaimWon then Claimed j else Over)"
proof (cases r)
  case (Inl e)
  then show ?thesis by (simp add: step_simps)
next
  case (Inr outcome)
  then show ?thesis
    using assms
    by (cases outcome)
      (simp_all add: after_claim_def step_simps claim_deferred_def Let_def conforms_defer conforms_cursor
         conforms_sent conforms_refused)
qed

lemma conforms_job: "OK j \<Longrightarrow> conforms OK (handle_job env p j) Idle"
  by (simp add: handle_job_def deferForCapacity_def Let_def step_simps conforms_stop conforms_defer
      conforms_claim [unfolded step_simps] split: sum.split option.split)

lemma AdvanceHandler_conforms: "conforms OK (AdvanceHandler env t) Idle"
  by (simp add: AdvanceHandler_def step_simps conforms_job split: option.split sum.split)

subsection \<open>Workers\<close>

datatype proc = Proc (proc_prog: prog) (proc_proto: proto) (proc_since: instant)

inductive pstep ::
  "'s Client \<Rightarrow> (step_job \<Rightarrow> bool) \<Rightarrow> (step_job \<Rightarrow> 'k) \<Rightarrow> instant
     \<Rightarrow> 's \<Rightarrow> proc \<Rightarrow> 's \<Rightarrow> proc \<Rightarrow> 'k list \<Rightarrow> 'k set \<Rightarrow> bool"
  for C :: "'s Client" and OK :: "step_job \<Rightarrow> bool" and key :: "step_job \<Rightarrow> 'k" and now :: instant where
  clock: "pstep C OK key now s (Proc (Now k) st t0) s (Proc (k t) st t0) [] {}"
| metric: "pstep C OK key now s (Proc (Metric m p) st t0) s (Proc p st t0) [] {}"
| warn: "pstep C OK key now s (Proc (Warn m p) st t0) s (Proc p st t0) [] {}"
| job: "(\<And>j. r = Inr j \<Longrightarrow> OK j) \<Longrightarrow>
    pstep C OK key now s (Proc (GetStepSendJob e w k) st t0) s (Proc (k r) st t0) [] {}"
| stop: "ClientStop C flt now e w reason s = (r, s') \<Longrightarrow> q = r \<or> q = Inl err \<Longrightarrow>
    pstep C OK key now s (Proc (MarkStopped e w reason k) st t0) s' (Proc (k q) st t0) [] {}"
| increment: "ClientIncrement C flt e w s = (r, s') \<Longrightarrow> q = r \<or> q = Inl err \<Longrightarrow>
    pstep C OK key now s (Proc (IncrementDeferrals e w k) st t0) s' (Proc (k q) st t0) [] {}"
| claim: "ClientClaim C flt now j s = (r, s') \<Longrightarrow> q = r \<or> q = Inl err \<Longrightarrow>
    pstep C OK key now s (Proc (ClaimSend j k) st t0) s'
      (Proc (k q) (if q = Inr ClaimWon then Claimed j else Over) now) [] {}"
| accepted: "pstep C OK key now s (Proc (Send t m k) (Claimed j) t0) s
    (Proc (k (Inr mid)) (Accepted j) t0) [key j] {}"
| refused: "Retryable e \<longrightarrow> \<not> d \<Longrightarrow>
    pstep C OK key now s (Proc (Send t m k) (Claimed j) t0) s
      (Proc (k (Inl e)) (Refused j e d) t0) (if d then [key j] else []) {}"
| delivered: "ClientDeliver C flt now j mid s = (r, s') \<Longrightarrow> q = r \<or> q = Inl err \<Longrightarrow>
    pstep C OK key now s (Proc (MarkDelivered j mid k) st t0) s' (Proc (k q) Over t0) []
      (if isl r then {key j} else {})"
| released: "ClientRelease C flt j s = (r, s') \<Longrightarrow> q = r \<or> q = Inl err \<Longrightarrow>
    pstep C OK key now s (Proc (ReleaseClaim j k) st t0) s' (Proc (k q) Over t0) [] {}"
| finalized: "ClientFinalize C flt wnow now j res s = (r, s') \<Longrightarrow> q = r \<or> q = Inl err \<Longrightarrow>
    st = Refused j e d \<Longrightarrow>
    pstep C OK key now s (Proc (FinalizeSend j res k) st t0) s' (Proc (k q) Over t0) []
      (if isl r \<and> d then {key j} else {})"
| cursor: "ClientAdvance C flt wnow now j s = (r, s') \<Longrightarrow> q = r \<or> q = Inl err \<Longrightarrow>
    pstep C OK key now s (Proc (AdvanceCursor j k) st t0) s' (Proc (k q) st t0) [] {}"
| enqueue_at: "pstep C OK key now s (Proc (EnqueueAdvanceAt e w t k) st t0) s (Proc (k r) st t0) [] {}"
| enqueue_in: "pstep C OK key now s (Proc (EnqueueAdvanceIn e w d k) st t0) s (Proc (k r) st t0) [] {}"
| evaluate: "pstep C OK key now s (Proc (EnqueueEvaluate c w k) st t0) s (Proc (k r) st t0) [] {}"

subsection \<open>The world\<close>

record ('s, 'k) world =
  w_core :: 's
  w_clock :: instant
  w_procs :: "nat \<Rightarrow> proc option"
  w_log :: "'k list"
  w_residual :: "'k set"

fun holding :: "(step_job \<Rightarrow> 'k) \<Rightarrow> proc \<Rightarrow> ('k \<times> instant \<times> bool) option" where
  "holding key (Proc p Idle t0) = None"
| "holding key (Proc p (Claimed j) t0) = Some (key j, t0, False)"
| "holding key (Proc p (Accepted j) t0) = Some (key j, t0, True)"
| "holding key (Proc p (Refused j e d) t0) = Some (key j, t0, d)"
| "holding key (Proc p Over t0) = None"

text \<open>The keys a worker that dies leaves in the window: a message taken and not yet recorded.\<close>

definition abandoned :: "(step_job \<Rightarrow> 'k) \<Rightarrow> proc \<Rightarrow> 'k set" where
  "abandoned key pc = (case holding key pc of Some (k, _, True) \<Rightarrow> {k} | _ \<Rightarrow> {})"

definition overdue :: "(step_job \<Rightarrow> 'k) \<Rightarrow> instant \<Rightarrow> (nat \<Rightarrow> proc option) \<Rightarrow> 'k set" where
  "overdue key now procs =
     {k. \<exists>i pc t0 b. procs i = Some pc \<and> holding key pc = Some (k, t0, b) \<and> t0 + lease < now}"

inductive wstep ::
  "'s Client \<Rightarrow> (step_job \<Rightarrow> bool) \<Rightarrow> (step_job \<Rightarrow> 'k) \<Rightarrow> ('s \<Rightarrow> 's \<Rightarrow> bool)
     \<Rightarrow> (payload option \<Rightarrow> prog) \<Rightarrow> ('s, 'k) world \<Rightarrow> ('s, 'k) world \<Rightarrow> bool"
  for C OK key other handler where
  start: "w_procs w i = None \<Longrightarrow>
    wstep C OK key other handler w (w\<lparr>w_procs := (w_procs w)(i := Some (Proc (handler t) Idle 0))\<rparr>)"
| run: "w_procs w i = Some pc \<Longrightarrow> pstep C OK key (w_clock w) (w_core w) pc s' pc' dl rs \<Longrightarrow>
    wstep C OK key other handler w
      (w\<lparr>w_core := s', w_procs := (w_procs w)(i := Some pc'), w_log := w_log w @ dl,
         w_residual := w_residual w \<union> rs\<rparr>)"
| crash: "w_procs w i = Some pc \<Longrightarrow>
    wstep C OK key other handler w
      (w\<lparr>w_procs := (w_procs w)(i := None), w_residual := w_residual w \<union> abandoned key pc\<rparr>)"
| tick: "w_clock w \<le> now \<Longrightarrow>
    wstep C OK key other handler w
      (w\<lparr>w_clock := now, w_residual := w_residual w \<union> overdue key now (w_procs w)\<rparr>)"
| elsewhere: "other (w_core w) s' \<Longrightarrow>
    wstep C OK key other handler w (w\<lparr>w_core := s'\<rparr>)"

inductive_cases wstepE: "wstep C OK key other handler w w'"

definition start_world :: "'s \<Rightarrow> instant \<Rightarrow> ('s, 'k) world" where
  "start_world s now =
     \<lparr>w_core = s, w_clock = now, w_procs = (\<lambda>_. None), w_log = [], w_residual = {}\<rparr>"

inductive reachable ::
  "'s Client \<Rightarrow> (step_job \<Rightarrow> bool) \<Rightarrow> (step_job \<Rightarrow> 'k) \<Rightarrow> ('s \<Rightarrow> 's \<Rightarrow> bool)
     \<Rightarrow> (payload option \<Rightarrow> prog) \<Rightarrow> ('s, 'k) world \<Rightarrow> ('s, 'k) world \<Rightarrow> bool"
  for C OK key other handler w0 where
  here: "reachable C OK key other handler w0 w0"
| there: "reachable C OK key other handler w0 w \<Longrightarrow> wstep C OK key other handler w w' \<Longrightarrow>
    reachable C OK key other handler w0 w'"

end
