(* ===== verification/Send_Safety.thy ===== *)
theory Send_Safety
  imports Send_Engine
begin

text \<open>
  At-most-once delivery. \<open>safe\<close> is the invariant of one step's key over the rows, the claims the
  workers hold and the number of messages taken: one holder, holding the row under an unexpired
  lease, and once a message was taken and nobody holds the row, the row is final. Each kind of
  call preserves it (\<open>safe_*\<close>); \<open>claim_store\<close> is all they use of the control plane.
\<close>

subsection \<open>The invariant of a key\<close>

type_synonym 'k holders = "nat \<Rightarrow> ('k \<times> instant \<times> bool) option"

definition safe :: "('k \<Rightarrow> row_view) \<Rightarrow> 'k holders \<Rightarrow> nat \<Rightarrow> instant \<Rightarrow> 'k \<Rightarrow> bool" where
  "safe v h n now T \<longleftrightarrow>
     (\<forall>i i' t0 b t0' b'. h i = Some (T, t0, b) \<longrightarrow> h i' = Some (T, t0', b') \<longrightarrow> i = i')
     \<and> (\<forall>i t0 b. h i = Some (T, t0, b) \<longrightarrow>
           v T = Held (Some t0) \<and> now \<le> t0 + lease \<and> n = (if b then 1 else 0))
     \<and> ((\<forall>i t0 b. h i \<noteq> Some (T, t0, b)) \<longrightarrow> n = 0 \<or> (n = 1 \<and> v T = Final))"

lemma safe_held:
  assumes "safe v h n now T" and "h i = Some (T, t0, b)"
  shows "v T = Held (Some t0)" and "now \<le> t0 + lease" and "n = (if b then 1 else 0)"
    and "h i' = Some (T, t0', b') \<Longrightarrow> i' = i"
  using assms by (auto simp: safe_def)

lemma safe_free:
  "safe v h n now T \<Longrightarrow> (\<And>i t0 b. h i \<noteq> Some (T, t0, b)) \<Longrightarrow> n = 0 \<or> (n = 1 \<and> v T = Final)"
  by (simp add: safe_def)

lemma safe_le: "safe v h n now T \<Longrightarrow> n \<le> 1"
proof (cases "\<exists>i t0 b. h i = Some (T, t0, b)")
  case True
  moreover assume "safe v h n now T"
  ultimately show ?thesis using safe_held(3) [of v h n now T] by (metis le_refl zero_le_one)
qed (auto dest: safe_free)

lemma lease_pos: "0 \<le> lease"
  by (simp add: lease_def claimLeaseSeconds_def second_def)

lemma safe_init: "safe v (\<lambda>_. None) 0 now T"
  by (simp add: safe_def)

text \<open>A change to another key, and a worker that keeps or never had its claim.\<close>

lemma safe_frame:
  assumes "safe v h n now T" and "v' T = v T"
    and "\<And>t0 b. x = Some (T, t0, b) \<longleftrightarrow> h i = Some (T, t0, b)"
  shows "safe v' (h(i := x)) n now T"
proof -
  have "(h(i := x)) i' = Some (T, t0, b) \<longleftrightarrow> h i' = Some (T, t0, b)" for i' t0 b
    using assms(3) by simp
  with assms(1,2) show ?thesis unfolding safe_def by simp
qed

lemma safe_won:
  assumes "safe v h n now T" and "expired now (v T)" and "h i = None"
  shows "safe (v(T := Held (Some now))) (h(i := Some (T, now, False))) n now T"
    and "safe (v(T := Held (Some now))) (h(i := None)) n now T"
proof -
  have none: "h i' \<noteq> Some (T, t0, b)" for i' t0 b
    using safe_held(1,2) [OF assms(1), of i' t0 b] assms(2) by (auto simp: expired_def)
  moreover have "n = 0" using safe_free [OF assms(1) none] assms(2) by (auto simp: expired_def)
  ultimately show "safe (v(T := Held (Some now))) (h(i := Some (T, now, False))) n now T"
    and "safe (v(T := Held (Some now))) (h(i := None)) n now T"
    using lease_pos by (auto simp: safe_def)
qed

lemma safe_taken:
  assumes "safe v h n now T" and "h i = Some (T, t0, False)"
  shows "safe v (h(i := Some (T, t0, True))) (Suc n) now T"
  using assms by (auto simp: safe_def split: if_splits)

lemma safe_settled:
  assumes "safe v h n now T" and "h i = Some (T, t0, b)"
  shows "safe (v(T := settle (v T))) (h(i := None)) n now T"
proof -
  have "v T = Held (Some t0)" and le: "n \<le> 1" using assms safe_le by (auto simp: safe_def)
  moreover have "(h(i := None)) i' \<noteq> Some (T, t, c)" for i' t c using assms by (auto simp: safe_def)
  ultimately show ?thesis unfolding safe_def by (auto simp: settle_def)
qed

lemma safe_dropped:
  assumes "safe v h n now T" and "h i = Some (T, t0, False)"
  shows "safe v' (h(i := None)) n now T"
proof -
  have "n = 0" using assms by (auto simp: safe_def)
  moreover have "(h(i := None)) i' \<noteq> Some (T, t, c)" for i' t c using assms by (auto simp: safe_def)
  ultimately show ?thesis unfolding safe_def by auto
qed

lemma safe_tick:
  assumes "safe v h n now T" and "\<And>i t0 b. h i = Some (T, t0, b) \<Longrightarrow> now' \<le> t0 + lease"
  shows "safe v h n now' T"
  using assms unfolding safe_def by blast

subsection \<open>One call\<close>

text \<open>What a call does to the rows, the caller's claim, the log and the window, by kind.\<close>

datatype 'k effect = Quiet | Won 'k bool | Taken 'k | Settled 'k | Dropped 'k bool

fun has_effect ::
  "instant \<Rightarrow> ('k \<Rightarrow> row_view) \<Rightarrow> ('k \<times> instant \<times> bool) option \<Rightarrow> ('k \<Rightarrow> row_view)
     \<Rightarrow> ('k \<times> instant \<times> bool) option \<Rightarrow> 'k list \<Rightarrow> 'k set \<Rightarrow> 'k effect \<Rightarrow> bool" where
  "has_effect now v x v' x' dl rs Quiet = (v' = v \<and> x' = x \<and> dl = [] \<and> rs = {})"
| "has_effect now v x v' x' dl rs (Won k kept) =
     (expired now (v k) \<and> v' = v(k := Held (Some now)) \<and> x = None
      \<and> x' = (if kept then Some (k, now, False) else None) \<and> dl = [] \<and> rs = {})"
| "has_effect now v x v' x' dl rs (Taken k) =
     (v' = v \<and> (\<exists>t0. x = Some (k, t0, False) \<and> x' = Some (k, t0, True)) \<and> dl = [k] \<and> rs = {})"
| "has_effect now v x v' x' dl rs (Settled k) =
     (v' = v(k := settle (v k)) \<and> (\<exists>t0 b. x = Some (k, t0, b)) \<and> x' = None \<and> dl = [] \<and> rs = {})"
| "has_effect now v x v' x' dl rs (Dropped k b) =
     ((\<forall>k'. k' \<noteq> k \<longrightarrow> v' k' = v k') \<and> (\<exists>t0. x = Some (k, t0, b)) \<and> x' = None \<and> dl = []
      \<and> rs = (if b then {k} else {}))"

lemma effect_safe:
  assumes eff: "has_effect now v (h i) v' x' dl rs eff" and T: "T \<notin> rs" and safe: "safe v h n now T"
  shows "safe v' (h(i := x')) (n + count_list dl T) now T"
proof (cases eff)
  case Quiet
  with eff safe show ?thesis by (simp add: fun_upd_idem)
next
  case (Won k kept)
  show ?thesis
  proof (cases "k = T")
    case True
    with eff Won safe show ?thesis using safe_won [of v h n now T i] by simp
  next
    case False
    with eff Won safe show ?thesis by (intro safe_frame) auto
  qed
next
  case (Taken k)
  show ?thesis
  proof (cases "k = T")
    case True
    with eff Taken safe show ?thesis using safe_taken [of v h n now T i] by auto
  next
    case False
    with eff Taken safe show ?thesis by (auto intro!: safe_frame)
  qed
next
  case (Settled k)
  show ?thesis
  proof (cases "k = T")
    case True
    with eff Settled safe show ?thesis using safe_settled [of v h n now T i] by auto
  next
    case False
    with eff Settled safe show ?thesis by (auto intro!: safe_frame)
  qed
next
  case (Dropped k b)
  show ?thesis
  proof (cases "k = T")
    case True
    with eff Dropped safe T show ?thesis using safe_dropped [of v h n now T i] by (auto split: if_splits)
  next
    case False
    with eff Dropped safe show ?thesis by (auto intro!: safe_frame)
  qed
qed

fun honest :: "proto \<Rightarrow> bool" where
  "honest (Refused j e d) = (Retryable e \<longrightarrow> \<not> d)"
| "honest st = True"

lemma holding_prog: "holding key (Proc p st t0) = holding key (Proc p' st t0)"
  by (cases st) simp_all

context claim_store
begin

lemma pstep_effect:
  assumes "pstep C ok_job key now s pc s' pc' dl rs" and "ok s"
    and "conforms ok_job (proc_prog pc) (proc_proto pc)" and "honest (proc_proto pc)"
  shows "ok s' \<and> conforms ok_job (proc_prog pc') (proc_proto pc') \<and> honest (proc_proto pc')
     \<and> (\<exists>eff. has_effect now (view s) (holding key pc) (view s') (holding key pc') dl rs eff)"
  using assms
proof (cases rule: pstep.cases)
  case (claim flt j r q err k st t0)
  then have st: "st = Idle" "ok_job j" and conf: "\<forall>r. conforms ok_job (k r) (if r = Inr ClaimWon then Claimed j else Over)"
    using assms(3) by auto
  show ?thesis
  proof (cases "r = Inr ClaimWon")
    case True
    with claim_won [OF assms(2) st(2)] claim have w: "ok s' \<and> expired now (view s (key j)) \<and>
        view s' = (view s)(key j := Held (Some now))" by blast
    moreover have "conforms ok_job (k q) (if q = Inr ClaimWon then Claimed j else Over)" using conf ..
    ultimately show ?thesis using claim(1-4) st
      by (cases "q = Inr ClaimWon") (auto intro!: exI [of _ "Won (key j) (q = Inr ClaimWon)"])
  next
    case False
    with claim_other claim have "s' = s" by blast
    moreover have "q \<noteq> Inr ClaimWon" using claim False by auto
    moreover have "conforms ok_job (k q) (if q = Inr ClaimWon then Claimed j else Over)" using conf ..
    ultimately show ?thesis using claim(1-4) st assms(2) by (auto intro!: exI [of _ Quiet])
  qed
next
  case (accepted t m k j t0 mid)
  with assms show ?thesis by (auto intro!: exI [of _ "Taken (key j)"])
next
  case (refused e d t m k j t0)
  with assms show ?thesis
    by (auto intro!: exI [of _ "if d then Taken (key j) else Quiet"])
next
  case (delivered flt j mid r q err k st t0)
  then have "st = Accepted j" "ok_job j" "\<forall>r. conforms ok_job (k r) Over" using assms(3) by auto
  with delivered deliver_law [OF assms(2), of j flt now mid r s'] show ?thesis
    by (cases r) (auto intro!: exI [of _ "if isl r then Dropped (key j) True else Settled (key j)"])
next
  case (released flt j r q err k st t0)
  then obtain e d where "st = Refused j e d" "\<not> d" "ok_job j" "\<forall>r. conforms ok_job (k r) Over"
    using assms(3,4) by auto
  with released release_law [OF assms(2), of j flt r s'] show ?thesis
    by (cases r) (auto intro!: exI [of _ "Dropped (key j) False"])
next
  case (finalized flt wnow j res r q err st e d k t0)
  then have "ok_job j" "res_status res \<noteq> ''sending''" "\<forall>r. conforms ok_job (k r) Over"
    using assms(3) by auto
  with finalized finalize_law [OF assms(2), of j res flt wnow now r s'] show ?thesis
    by (cases r) (auto intro!: exI [of _ "if isl r then Dropped (key j) d else Settled (key j)"])
next
  case (stop flt e w reason r q err k st t0)
  with stop_law [OF assms(2)] assms(3) show ?thesis by (auto intro!: exI [of _ Quiet])
next
  case (increment flt e w r q err k st t0)
  with increment_law [OF assms(2)] assms(3) show ?thesis by (auto intro!: exI [of _ Quiet])
next
  case (cursor flt wnow j r q err k st t0)
  with advance_law [OF assms(2)] assms(3) show ?thesis by (auto intro!: exI [of _ Quiet])
qed (use assms in \<open>auto intro!: exI [of _ Quiet] holding_prog\<close>)

subsection \<open>All workers\<close>

definition holders :: "(nat \<Rightarrow> proc option) \<Rightarrow> 'k holders" where
  "holders procs i = (case procs i of None \<Rightarrow> None | Some pc \<Rightarrow> holding key pc)"

lemma holders_upd:
  "holders (procs(i := x)) = (holders procs)(i := (case x of None \<Rightarrow> None | Some pc \<Rightarrow> holding key pc))"
  by (auto simp: holders_def fun_eq_iff)

definition world_inv :: "('s, 'k) world \<Rightarrow> bool" where
  "world_inv w \<longleftrightarrow>
     ok (w_core w)
     \<and> (\<forall>i pc. w_procs w i = Some pc \<longrightarrow>
           conforms ok_job (proc_prog pc) (proc_proto pc) \<and> honest (proc_proto pc))
     \<and> (\<forall>T. T \<notin> w_residual w \<longrightarrow>
           safe (view (w_core w)) (holders (w_procs w)) (count_list (w_log w) T) (w_clock w) T)"

lemma start_inv: "ok s \<Longrightarrow> world_inv (start_world s now)"
  by (auto simp: world_inv_def start_world_def holders_def [abs_def] intro: safe_init)

lemma start_step:
  assumes "world_inv w" and "w_procs w i = None" and "conforms ok_job p Idle"
  shows "world_inv (w\<lparr>w_procs := (w_procs w)(i := Some (Proc p Idle 0))\<rparr>)"
proof -
  have "holders (w_procs w) i = None" using assms(2) by (simp add: holders_def)
  with assms show ?thesis by (auto simp: world_inv_def holders_upd fun_upd_idem)
qed

lemma run_step:
  assumes "world_inv w" and "w_procs w i = Some pc"
    and "pstep C ok_job key (w_clock w) (w_core w) pc s' pc' dl rs"
  shows "world_inv (w\<lparr>w_core := s', w_procs := (w_procs w)(i := Some pc'), w_log := w_log w @ dl,
                     w_residual := w_residual w \<union> rs\<rparr>)"
proof -
  have h: "holders (w_procs w) i = holding key pc" using assms(2) by (simp add: holders_def)
  from assms pstep_effect obtain eff where e: "ok s'" "conforms ok_job (proc_prog pc') (proc_proto pc')"
    "honest (proc_proto pc')"
    "has_effect (w_clock w) (view (w_core w)) (holding key pc) (view s') (holding key pc') dl rs eff"
    unfolding world_inv_def by blast
  have "safe (view s') (holders ((w_procs w)(i := Some pc'))) (count_list (w_log w @ dl) T) (w_clock w) T"
    if "T \<notin> w_residual w \<union> rs" for T
  proof -
    from that have T: "T \<notin> rs" by simp
    from that assms(1) have
      "safe (view (w_core w)) (holders (w_procs w)) (count_list (w_log w) T) (w_clock w) T"
      by (simp add: world_inv_def)
    from effect_safe [OF e(4) [folded h] T this] show ?thesis by (simp add: holders_upd)
  qed
  with e assms(1) show ?thesis by (simp add: world_inv_def)
qed

lemma crash_step:
  assumes "world_inv w" and "w_procs w i = Some pc"
  shows "world_inv (w\<lparr>w_procs := (w_procs w)(i := None),
                     w_residual := w_residual w \<union> abandoned key pc\<rparr>)"
proof -
  have h: "holders (w_procs w) i = holding key pc" using assms(2) by (simp add: holders_def)
  have "safe (view (w_core w)) (holders ((w_procs w)(i := None))) (count_list (w_log w) T) (w_clock w) T"
    if "T \<notin> w_residual w \<union> abandoned key pc" for T
  proof -
    from that assms(1) have sf:
      "safe (view (w_core w)) (holders (w_procs w)) (count_list (w_log w) T) (w_clock w) T"
      by (simp add: world_inv_def)
    show ?thesis
    proof (cases "\<exists>t0 b. holding key pc = Some (T, t0, b)")
      case True
      with that obtain t0 where "holding key pc = Some (T, t0, False)"
        by (auto simp: abandoned_def split: bool.splits)
      with safe_dropped [OF sf, of i] h show ?thesis by (simp add: holders_upd)
    next
      case False
      with safe_frame [OF sf, where v' = "view (w_core w)" and x = None and i = i] h show ?thesis by (simp add: holders_upd)
    qed
  qed
  with assms(1) show ?thesis by (simp add: world_inv_def)
qed

lemma tick_step:
  assumes "world_inv w"
  shows "world_inv (w\<lparr>w_clock := now, w_residual := w_residual w \<union> overdue key now (w_procs w)\<rparr>)"
proof -
  have "safe (view (w_core w)) (holders (w_procs w)) (count_list (w_log w) T) now T"
    if "T \<notin> w_residual w \<union> overdue key now (w_procs w)" for T
  proof (rule safe_tick)
    show "safe (view (w_core w)) (holders (w_procs w)) (count_list (w_log w) T) (w_clock w) T"
      using that assms by (simp add: world_inv_def)
    show "now \<le> t0 + lease" if "holders (w_procs w) i = Some (T, t0, b)" for i t0 b
      using that \<open>T \<notin> _\<close> by (auto simp: holders_def overdue_def not_less split: option.splits)
  qed
  with assms show ?thesis by (simp add: world_inv_def)
qed

lemma wstep_inv:
  assumes "wstep C ok_job key other handler w w'" and "world_inv w"
    and "\<And>t. conforms ok_job (handler t) Idle"
    and "\<And>s s'. other s s' \<Longrightarrow> ok s \<Longrightarrow> ok s' \<and> view s' = view s"
  shows "world_inv w'"
  using assms(1)
proof (cases rule: wstep.cases)
  case (elsewhere s')
  with assms(2,4) show ?thesis by (auto simp: world_inv_def)
qed (use assms(2,3) start_step run_step crash_step tick_step in auto)

lemma reachable_inv:
  assumes "reachable C ok_job key other handler w0 w" and "world_inv w0"
    and "\<And>t. conforms ok_job (handler t) Idle"
    and "\<And>s s'. other s s' \<Longrightarrow> ok s \<Longrightarrow> ok s' \<and> view s' = view s"
  shows "world_inv w"
  using assms(1)
proof (induction rule: reachable.induct)
  case here
  show ?case by (rule assms(2))
next
  case (there w w')
  from wstep_inv [OF there.hyps(2) there.IH assms(3,4)] show ?case .
qed

lemma taken_at_most_once:
  assumes "world_inv w" and "T \<notin> w_residual w"
  shows "count_list (w_log w) T \<le> 1"
  using assms safe_le by (fastforce simp: world_inv_def)

end

subsection \<open>The program\<close>

text \<open>Everything else that writes to the database leaves the sends alone: launches, replies, stops,
  deferrals, mailbox edits.\<close>

definition same_sends :: "db \<Rightarrow> db \<Rightarrow> bool" where
  "same_sends s s' \<longleftrightarrow> db_sends s' = db_sends s"


subsection \<open>A run\<close>

definition sample_lib :: lib where
  "sample_lib =
     \<lparr>sha256 = (\<lambda>_. []), LoadLocation = (\<lambda>_. Some UTC),
      uuid_Parse = map_of [(''ws'', 1), (''c'', 2), (''ct'', 3), (''mb'', 4), (''send'', 5), (''e'', 6)],
      uuid_String = (\<lambda>_. ''u''), NewSHA1 = (\<lambda>_ _. 5)\<rparr>"

definition sample_job :: step_job where
  "sample_job =
     zero_job\<lparr>EnrollmentID := ''e'', WorkspaceID := ''ws'', CampaignID := ''c'', ContactID := ''ct'',
       MailboxID := ''mb'', SendID := ''send'', StepOrder := 1, LastStep := True,
       EffectiveDailyCap := 50\<rparr>"

definition sample_env :: "nat handler_env" where
  "sample_env =
     \<lparr>env_lib = sample_lib, env_intn = (\<lambda>r n. (0, r)), env_new_pcg = (\<lambda>s _. s),
      env_rewrite = (\<lambda>body _ _ _. body), publicURL = [], trackingSecret = []\<rparr>"

definition sample_db :: db where
  "sample_db =
     \<lparr>db_enrollments = [], db_sends = [],
      db_mailboxes = [\<lparr>mb_id = 4, mb_ws = 1, mb_min_interval_seconds = 0, mb_last_send_at = None,
        mb_provider = [], mb_email = [], mb_display_name = [], mb_smtp_host = [], mb_smtp_port = 0,
        mb_smtp_username = [], mb_secret_ciphertext = [], mb_allow_plaintext = False, mb_daily_cap = 50,
        mb_ramp_enabled = False, mb_ramp_start_cap = 0, mb_ramp_days = 0, mb_status = ''active'',
        mb_created_at = None\<rparr>]\<rparr>"

definition sample_payload :: payload where
  "sample_payload = \<lparr>p_enrollment = ''e'', p_workspace = ''ws''\<rparr>"

abbreviation sample_reach :: "(db, step_key) world \<Rightarrow> bool" where
  "sample_reach \<equiv> reachable (PgClient sample_lib) (good_job sample_lib {(2, 3, 1)} (\<lambda>_. 1))
     (job_key sample_lib) same_sends (AdvanceHandler sample_env) (start_world sample_db 1000)"

lemma sample_key: "job_key sample_lib sample_job = (2, 3, 1)"
  by (simp add: job_key_def sample_lib_def sample_job_def)

lemma sample_good: "good_job sample_lib {(2, 3, 1)} (\<lambda>_. 1) sample_job"
  unfolding good_job_def sample_key
  by (simp add: sample_lib_def sample_job_def int32_def derive_key_def deriveStepSendID_def)

lemma sample_claim:
  "\<exists>s'. localClaimStepSend sample_lib no_faults 1000 sample_job sample_db = (Inr ClaimWon, s')"
  by (simp add: localClaimStepSend_def claim_tx_def sample_lib_def sample_job_def sample_db_def
      zero_job_def StepSendNotYetDue_def ClaimStepSend_def ReserveMailboxSendSlot_def slot_free_def)

lemma sample_handle:
  "handle_job sample_env sample_payload sample_job
     = ClaimSend sample_job (ok_core (after_claim sample_env sample_payload sample_job))"
  by (simp add: handle_job_def sample_job_def zero_job_def)

lemma reach_run:
  assumes "reachable C OK key other handler w0 w" and "w_procs w i = Some pc"
    and "pstep C OK key now s pc s' pc' dl rs" and "w_clock w = now" and "w_core w = s"
    and "w' = w\<lparr>w_core := s', w_procs := (w_procs w)(i := Some pc'), w_log := w_log w @ dl,
              w_residual := w_residual w \<union> rs\<rparr>"
  shows "reachable C OK key other handler w0 w'"
  using there [OF assms(1) run [OF assms(2)]] assms(3-6) by simp

lemma sample_run: "\<exists>w. sample_reach w \<and> w_log w = [(2, 3, 1)] \<and> w_residual w = {}"
proof -
  obtain s' where won: "ClientClaim (PgClient sample_lib) no_faults 1000 sample_job sample_db
      = (Inr ClaimWon, s')"
    using sample_claim by (auto simp: PgClient_def)
  let ?h = "AdvanceHandler sample_env (Some sample_payload)"
  let ?k = "ok_core (handle_job sample_env sample_payload)"
  let ?c = "ok_core (after_claim sample_env sample_payload sample_job)"
  let ?a = "after_send sample_payload sample_job"
  let ?w = "\<lambda>s pc log. start_world s 1000\<lparr>w_procs := (\<lambda>_. None)(0 := Some pc), w_log := log\<rparr>"
  have "sample_reach (start_world sample_db 1000)" by (rule here)
  from there [OF this start [of _ 0 _ _ _ _ _ "Some sample_payload"]]
  have "sample_reach (?w sample_db (Proc ?h Idle 0) [])" by (simp add: start_world_def)
  moreover have "?h = GetStepSendJob ''e'' ''ws'' ?k" by (simp add: AdvanceHandler_def sample_payload_def)
  ultimately have w1: "sample_reach (?w sample_db (Proc (GetStepSendJob ''e'' ''ws'' ?k) Idle 0) [])" by simp
  have "sample_reach (?w sample_db (Proc (?k (Inr sample_job)) Idle 0) [])"
    by (rule reach_run [where i = 0, OF w1 _ job [where r = "Inr sample_job"]])
      (use sample_good in \<open>auto simp: start_world_def\<close>)
  moreover have "?k (Inr sample_job) = ClaimSend sample_job ?c" by (simp add: ok_core_def sample_handle)
  ultimately have w2: "sample_reach (?w sample_db (Proc (ClaimSend sample_job ?c) Idle 0) [])" by simp
  have "sample_reach (?w s' (Proc (?c (Inr ClaimWon)) (Claimed sample_job) 1000) [])"
    by (rule reach_run [where i = 0, OF w2 _ pstep.claim [OF won disjI1 [OF refl]]])
      (auto simp: start_world_def)
  then have w3: "sample_reach (?w s' (Proc (Send (Transport sample_job) (build_message sample_env sample_job) ?a)
      (Claimed sample_job) 1000) [])"
    by (simp add: ok_core_def after_claim_def)
  have "sample_reach (?w s' (Proc (?a (Inr ''m'')) (Accepted sample_job) 1000) [(2, 3, 1)])"
    by (rule reach_run [where i = 0, OF w3 _ accepted]) (auto simp: start_world_def sample_key)
  then show ?thesis by (intro exI) (auto simp: start_world_def)
qed


end
