(* ===== verification/Enrollment_Service.thy ===== *)
theory Enrollment_Service
  imports Enrollment
begin

text \<open>
  What the service of \<open>internal/app/enrollment\<close> relies on and promises. The locale
  \<open>enrollment_store\<close> is the \<open>Store\<close> interface with the laws its comments state: every write is
  guarded on the active status and touches one enrollment of one workspace. The service's lemmas
  are proved inside it and hold for \<open>PgStore\<close> through the interpretation \<open>pg\<close>.
\<close>

subsection \<open>The interface\<close>

definition on_active :: "(enrollment \<Rightarrow> enrollment) \<Rightarrow> enrollment option \<Rightarrow> enrollment option" where
  "on_active f = map_option (\<lambda>e. if en_status e = StatusActive then f e else e)"

definition root_once :: "string \<Rightarrow> enrollment option \<Rightarrow> enrollment option" where
  "root_once mid = map_option (\<lambda>e. if thread_root_id e = [] then e\<lparr>thread_root_id := mid\<rparr> else e)"

definition sent_at :: "instant \<Rightarrow> int \<Rightarrow> instant \<Rightarrow> enrollment \<Rightarrow> enrollment" where
  "sent_at now step due e =
     e\<lparr>current_step := step, last_sent_at := Some now, next_due_at := Some due, cap_deferrals := 0\<rparr>"

definition completed_by :: "instant \<Rightarrow> int \<Rightarrow> enrollment \<Rightarrow> enrollment" where
  "completed_by now step e =
     e\<lparr>current_step := step, last_sent_at := Some now, en_status := StatusCompleted,
       completed_at := Some now, next_due_at := None, cap_deferrals := 0\<rparr>"

text \<open>A row that is not active keeps every field but the thread root.\<close>

definition terminal_same :: "enrollment option \<Rightarrow> enrollment option \<Rightarrow> bool" where
  "terminal_same old new \<longleftrightarrow>
     (\<forall>e. old = Some e \<and> en_status e \<noteq> StatusActive \<longrightarrow>
        (\<exists>root. new = Some (e\<lparr>thread_root_id := root\<rparr>)))"

lemma some_root: "\<exists>root. e = e\<lparr>thread_root_id := root\<rparr>"
  by (rule exI [of _ "thread_root_id e"]) simp

lemma terminal_same_refl: "terminal_same old old"
  by (auto simp: terminal_same_def intro: some_root)

lemma terminal_same_trans: "terminal_same a b \<Longrightarrow> terminal_same b c \<Longrightarrow> terminal_same a c"
  by (fastforce simp: terminal_same_def)

lemma on_active_terminal: "terminal_same old (on_active f old)"
  by (auto simp: terminal_same_def on_active_def intro: some_root)

lemma root_once_terminal: "terminal_same old (root_once mid old)"
  by (auto simp: terminal_same_def root_once_def intro: some_root)

locale enrollment_store =
  fixes st :: "'s Store"
    and get :: "uuid \<Rightarrow> uuid \<Rightarrow> 's \<Rightarrow> enrollment option"
    and now :: instant
  assumes advance_law: "AdvanceStep st ws i step due s = Inr s' \<Longrightarrow>
        get ws' j s' = (if ws' = ws \<and> j = i then on_active (sent_at now step due) (get ws i s) else get ws' j s)"
    and complete_law: "Complete st ws i step s = Inr s' \<Longrightarrow>
        get ws' j s' = (if ws' = ws \<and> j = i then on_active (completed_by now step) (get ws i s) else get ws' j s)"
    and stop_law: "Stop st ws i reason s = Inr s' \<Longrightarrow>
        get ws' j s' = (if ws' = ws \<and> j = i
          then on_active (\<lambda>e. e\<lparr>en_status := StatusStopped, stop_reason := Some reason,
                 stopped_at := Some now, next_due_at := None\<rparr>) (get ws i s) else get ws' j s)"
    and due_law: "SetDue st ws i due s = Inr s' \<Longrightarrow>
        get ws' j s' = (if ws' = ws \<and> j = i
          then on_active (\<lambda>e. e\<lparr>next_due_at := Some due\<rparr>) (get ws i s) else get ws' j s)"
    and root_law: "StoreThreadRoot st ws i mid s = Inr s' \<Longrightarrow>
        get ws' j s' = (if ws' = ws \<and> j = i then root_once mid (get ws i s) else get ws' j s)"
    and finish_law: "Finish st ws i s = Inr s' \<Longrightarrow>
        get ws' j s' = (if ws' = ws \<and> j = i
          then on_active (\<lambda>e. e\<lparr>en_status := StatusCompleted, completed_at := Some now,
                 next_due_at := None\<rparr>) (get ws i s) else get ws' j s)"
    and await_law: "StoreAwait st ws i due s = Inr s' \<Longrightarrow>
        get ws' j s' = (if ws' = ws \<and> j = i
          then on_active (\<lambda>e. e\<lparr>next_due_at := Some due,
                 awaiting_condition_step := Some (current_step e)\<rparr>) (get ws i s) else get ws' j s)"
begin

lemma sent_law:
  assumes "MarkStepSent st ws i step due lastStep root s = Inr s'"
  shows "get ws' j s' = (if ws' = ws \<and> j = i
     then on_active (if lastStep then completed_by now step else sent_at now step due)
            ((if step = 1 \<and> root \<noteq> [] then root_once root else id) (get ws i s))
     else get ws' j s)"
proof -
  let ?r = "if step = 1 \<and> root \<noteq> [] then StoreThreadRoot st ws i root s else Inr s"
  from assms obtain t where r: "?r = Inr t"
    and s': "(if lastStep then Complete st ws i step t else AdvanceStep st ws i step due t) = Inr s'"
    unfolding MarkStepSent_def by (auto split: sum.splits)
  have t: "get ws'' k t = (if ws'' = ws \<and> k = i
      then (if step = 1 \<and> root \<noteq> [] then root_once root else id) (get ws i s) else get ws'' k s)" for ws'' k
    using r root_law [of ws i root s t] by (auto split: if_splits)
  show ?thesis
  proof (cases lastStep)
    case True
    with s' have "Complete st ws i step t = Inr s'" by simp
    from complete_law [OF this, of ws' j] show ?thesis using True by (simp add: t)
  next
    case False
    with s' have "AdvanceStep st ws i step due t = Inr s'" by simp
    from advance_law [OF this, of ws' j] show ?thesis using False by (simp add: t)
  qed
qed

lemmas service_laws = sent_law stop_law [folded MarkStepStopped_def] finish_law [folded FinishRoute_def]
  await_law [folded AwaitCondition_def] due_law [folded Reschedule_def]

lemma terminal_sent:
  "MarkStepSent st ws i step due lastStep root s = Inr s' \<Longrightarrow> terminal_same (get ws' j s) (get ws' j s')"
  by (auto simp: sent_law terminal_same_refl
      intro!: on_active_terminal terminal_same_trans [OF root_once_terminal on_active_terminal])

lemma terminal_stop:
  "MarkStepStopped st ws i reason s = Inr s' \<Longrightarrow> terminal_same (get ws' j s) (get ws' j s')"
  by (auto simp: service_laws terminal_same_refl on_active_terminal)

lemma terminal_finish: "FinishRoute st ws i s = Inr s' \<Longrightarrow> terminal_same (get ws' j s) (get ws' j s')"
  by (auto simp: service_laws terminal_same_refl on_active_terminal)

lemma terminal_await:
  "AwaitCondition st ws i due s = Inr s' \<Longrightarrow> terminal_same (get ws' j s) (get ws' j s')"
  by (auto simp: service_laws terminal_same_refl on_active_terminal)

lemma terminal_due: "Reschedule st ws i due s = Inr s' \<Longrightarrow> terminal_same (get ws' j s) (get ws' j s')"
  by (auto simp: service_laws terminal_same_refl on_active_terminal)

lemmas terminal_rules = terminal_sent terminal_stop terminal_finish terminal_await terminal_due

text \<open>Recording the same step again, at a later time, leaves the cursor where the first call put it.\<close>

lemma sent_twice:
  assumes "MarkStepSent st ws i step due False root s = Inr s1"
    and "MarkStepSent st ws i step due' False root s1 = Inr s2"
    and "get ws i s = Some e" and "en_status e = StatusActive"
  shows "\<exists>e1 e2. get ws i s1 = Some e1 \<and> get ws i s2 = Some e2
     \<and> current_step e1 = step \<and> e2 = e1\<lparr>next_due_at := Some due'\<rparr>"
  using assms by (auto simp: sent_law on_active_def root_once_def sent_at_def)

end

subsection \<open>The store of the program\<close>

lemma exec_stmt_Inr [simp]: "exec_stmt flt name f s = Inr s' \<longleftrightarrow> flt name = None \<and> s' = f s"
  by (auto simp: exec_stmt_def split: option.splits)

lemma exec_stmt_Inl: "exec_stmt flt name f s = Inl e \<longleftrightarrow> flt name = Some e"
  by (auto simp: exec_stmt_def split: option.splits)

lemma get_active_update:
  assumes "\<And>e. is_row ws i (f e) = is_row ws i e"
    and "\<And>e ws' j. is_row ws' j (f e) = is_row ws' j e"
  shows "GetEnrollment ws' j (update_where (active_row ws i) f es)
       = (if ws' = ws \<and> j = i then on_active f (GetEnrollment ws i es) else GetEnrollment ws' j es)"
proof (cases "ws' = ws \<and> j = i")
  case True
  have "GetEnrollment ws i (update_where (active_row ws i) f es)
      = map_option (\<lambda>e. if active_row ws i e then f e else e) (GetEnrollment ws i es)"
    unfolding GetEnrollment_def by (rule select_update) (simp add: assms)
  also have "\<dots> = on_active f (GetEnrollment ws i es)"
    by (cases "GetEnrollment ws i es")
      (auto simp: on_active_def active_row_def GetEnrollment_def dest: select_one_SomeD)
  finally show ?thesis using True by simp
next
  case False
  have "GetEnrollment ws' j (update_where (active_row ws i) f es)
      = map_option (\<lambda>e. if active_row ws i e then f e else e) (GetEnrollment ws' j es)"
    unfolding GetEnrollment_def by (rule select_update) (simp add: assms)
  also have "\<dots> = GetEnrollment ws' j es"
    using False by (cases "GetEnrollment ws' j es")
      (auto simp: active_row_def GetEnrollment_def is_row_def dest: select_one_SomeD)
  finally show ?thesis using False by auto
qed

lemma get_root_update:
  "GetEnrollment ws' j (SetThreadRoot ws i mid es)
     = (if ws' = ws \<and> j = i then root_once mid (GetEnrollment ws i es) else GetEnrollment ws' j es)"
proof -
  have "GetEnrollment ws' j (SetThreadRoot ws i mid es)
      = map_option (\<lambda>e. if is_row ws i e \<and> thread_root_id e = [] then e\<lparr>thread_root_id := mid\<rparr> else e)
          (GetEnrollment ws' j es)"
    unfolding GetEnrollment_def SetThreadRoot_def by (rule select_update) (simp add: is_row_def)
  then show ?thesis
    by (cases "GetEnrollment ws' j es")
      (auto simp: root_once_def is_row_def GetEnrollment_def dest: select_one_SomeD)
qed

lemmas statement_defs = AdvanceEnrollmentStep_def CompleteEnrollment_def StopEnrollment_def
  FinishEnrollment_def AwaitEnrollmentCondition_def SetEnrollmentDue_def

interpretation pg: enrollment_store "PgStore flt now" GetEnrollment now for flt now
  by unfold_locales
    (auto simp: PgStore_def statement_defs get_root_update get_active_update is_row_def
       sent_at_def [abs_def] completed_by_def [abs_def])

subsection \<open>Runs of the service\<close>

datatype service_op =
    OpSent uuid uuid int instant bool string
  | OpStop uuid uuid string
  | OpFinish uuid uuid
  | OpAwait uuid uuid instant
  | OpReschedule uuid uuid instant

fun op_workspace :: "service_op \<Rightarrow> uuid" where
  "op_workspace (OpSent ws _ _ _ _ _) = ws"
| "op_workspace (OpStop ws _ _) = ws"
| "op_workspace (OpFinish ws _) = ws"
| "op_workspace (OpAwait ws _ _) = ws"
| "op_workspace (OpReschedule ws _ _) = ws"

fun run_op :: "'s Store \<Rightarrow> service_op \<Rightarrow> 's \<Rightarrow> string + 's" where
  "run_op st (OpSent ws i step due lastStep root) s = MarkStepSent st ws i step due lastStep root s"
| "run_op st (OpStop ws i reason) s = MarkStepStopped st ws i reason s"
| "run_op st (OpFinish ws i) s = FinishRoute st ws i s"
| "run_op st (OpAwait ws i due) s = AwaitCondition st ws i due s"
| "run_op st (OpReschedule ws i due) s = Reschedule st ws i due s"

text \<open>Calls in the order they commit, each with the failures it meets and its time; a call that
  fails is rolled back.\<close>

fun run_service :: "(faults \<times> instant \<times> service_op) list \<Rightarrow> enrollment list \<Rightarrow> enrollment list" where
  "run_service [] es = es"
| "run_service ((flt, now, p) # ops) es =
     run_service ops (case run_op (PgStore flt now) p es of Inl _ \<Rightarrow> es | Inr es' \<Rightarrow> es')"

lemma run_op_terminal:
  "run_op (PgStore flt now) p es = Inr es' \<Longrightarrow>
     terminal_same (GetEnrollment ws i es) (GetEnrollment ws i es')"
  by (cases p) (auto intro: pg.terminal_rules)

lemma run_service_terminal:
  "terminal_same (GetEnrollment ws i es) (GetEnrollment ws i (run_service ops es))"
proof (induction ops es rule: run_service.induct)
  case (1 es)
  then show ?case by (simp add: terminal_same_refl)
next
  case (2 flt now p ops es)
  show ?case
    using 2 run_op_terminal [of flt now p es _ ws i]
    by (auto simp: terminal_same_refl split: sum.splits intro: terminal_same_trans)
qed

text \<open>C3: Stopped and completed are terminal. Whatever calls of the service follow, with whatever
  failures, a stopped or completed enrollment keeps its status, its cursor and every other field
  but the thread root, so a stop that races the cursor advance wins and nothing is reopened.\<close>

theorem terminal_wins:
  assumes "GetEnrollment ws i es = Some e" and "en_status e \<noteq> StatusActive"
  shows "\<exists>root. GetEnrollment ws i (run_service ops es) = Some (e\<lparr>thread_root_id := root\<rparr>)"
  using run_service_terminal [of ws i es ops] assms by (simp add: terminal_same_def)

definition sample_enrollment :: "uuid \<Rightarrow> uuid \<Rightarrow> enrollment_status \<Rightarrow> enrollment" where
  "sample_enrollment ws i stat =
     \<lparr>en_id = i, en_ws = ws, en_campaign = 7, en_contact = 8, current_step = 1, en_status = stat,
      stop_reason = (if stat = StatusStopped then Some StopReplied else None),
      last_sent_at = Some 100, next_due_at = None, thread_root_id = ''root'', completed_at = None,
      stopped_at = Some 200, cap_deferrals = 0, en_mailbox = Some 9, awaiting_condition_step = None,
     reply_class = None, reply_source = None, replied_at = None\<rparr>"

lemma terminal_wins_witness:
  "\<exists>root. GetEnrollment 1 2 (run_service
       [(no_faults, 300, OpSent 1 2 2 900 False ''m''), (no_faults, 400, OpAwait 1 2 500)]
       [sample_enrollment 1 2 StatusStopped])
     = Some (sample_enrollment 1 2 StatusStopped\<lparr>thread_root_id := root\<rparr>)"
  by (rule terminal_wins) (simp_all add: GetEnrollment_def is_row_def sample_enrollment_def)

lemma run_op_isolated:
  assumes "run_op (PgStore flt now) p es = Inr es'" and "op_workspace p = ws"
  shows "filter (\<lambda>e. en_ws e \<noteq> ws) es' = filter (\<lambda>e. en_ws e \<noteq> ws) es"
  using assms
  by (cases p)
    (auto simp: PgStore_def MarkStepSent_def MarkStepStopped_def FinishRoute_def AwaitCondition_def
       Reschedule_def statement_defs SetThreadRoot_def active_row_def is_row_def
       intro!: filter_update_untouched trans [OF filter_update_untouched filter_update_untouched]
       split: if_splits sum.splits)

text \<open>Tenant isolation. Calls made for one workspace leave every enrollment of every other
  workspace untouched, even for an enrollment id that belongs to another workspace.\<close>

theorem workspace_isolated:
  assumes "\<forall>x \<in> set ops. op_workspace (snd (snd x)) = ws"
  shows "filter (\<lambda>e. en_ws e \<noteq> ws) (run_service ops es) = filter (\<lambda>e. en_ws e \<noteq> ws) es"
  using assms
proof (induction ops es rule: run_service.induct)
  case (1 es)
  then show ?case by simp
next
  case (2 flt now p ops es)
  then show ?case using run_op_isolated [of flt now p es _ ws] by (auto split: sum.splits)
qed

lemma workspace_isolated_witness:
  "filter (\<lambda>e. en_ws e \<noteq> 1)
     (run_service [(no_faults, 300, OpStop 1 2 StopManual), (no_faults, 400, OpFinish 1 3)]
        [sample_enrollment 1 2 StatusActive, sample_enrollment 5 3 StatusActive])
   = [sample_enrollment 5 3 StatusActive]"
  by (subst workspace_isolated) (simp_all add: sample_enrollment_def)

end
