(* ===== verification/Claim_Facts.thy ===== *)
theory Claim_Facts
  imports Send_Safety Enrollment_Service
begin

text \<open>
  The functional behaviour of the claim and of the reports of \<open>stepsendjob.go\<close> on every branch: the
  outcome of a claim decided by the due time, the row and the mailbox's spacing; the atomic
  finalize; and the cursor advance, which recovering forward repeats.
\<close>

subsection \<open>The outcome of a claim\<close>

definition row_of :: "lib \<Rightarrow> step_job \<Rightarrow> db \<Rightarrow> send option" where
  "row_of L j s = select_one (\<lambda>r. send_key r = job_key L j) (db_sends s)"

definition slot_of :: "lib \<Rightarrow> instant \<Rightarrow> step_job \<Rightarrow> db \<Rightarrow> mailbox option" where
  "slot_of L now j s =
     select_one (slot_free now (the (uuid_Parse L (MailboxID j))) (the (uuid_Parse L (WorkspaceID j))))
       (db_mailboxes s)"

definition early :: "instant \<Rightarrow> step_job \<Rightarrow> bool" where
  "early now j \<longleftrightarrow> NotDueUntil j \<noteq> 0 \<and> now < NotDueUntil j"

definition claimable :: "instant \<Rightarrow> send option \<Rightarrow> bool" where
  "claimable now r = expired now (case r of None \<Rightarrow> Absent | Some r \<Rightarrow> view_row r)"

lemma reclaimable_iff:
  "sd_ws r = ws \<Longrightarrow> reclaimable now ws r \<longleftrightarrow> expired now (view_row r)"
  by (auto simp: reclaimable_def expired_def view_row_def lease_def split: option.splits)

lemma row_of_good:
  assumes "good_db L U home s" and "good_job L U home j" and "row_of L j s = Some r"
  shows "r \<in> set (db_sends s)" and "send_key r = job_key L j" and "good_row L U home r"
    and "uuid_Parse L (WorkspaceID j) = Some (sd_ws r)" and "uuid_Parse L (SendID j) = Some (sd_id r)"
proof -
  show r: "r \<in> set (db_sends s)" "send_key r = job_key L j"
    using assms(3) by (auto simp: row_of_def dest: select_one_SomeD)
  then show g: "good_row L U home r" using assms(1) by (simp add: good_db_def)
  have "sd_campaign r = fst (job_key L j)" using r(2) by (metis fst_conv send_key_def)
  with g r(2) assms(2) show "uuid_Parse L (WorkspaceID j) = Some (sd_ws r)"
    "uuid_Parse L (SendID j) = Some (sd_id r)"
    by (auto simp: good_job_def good_row_def)
qed

text \<open>The status lookup after a lost claim reads the row the claim lost against.\<close>

lemma state_of_row:
  assumes "good_db L U home s" and "good_job L U home j" and "row_of L j s = Some r"
  shows "GetSendState (sd_id r) (sd_ws r) (db_sends s) = Some (sd_status r, sd_message_id r)"
proof -
  note r = row_of_good [OF assms]
  have "select_one (\<lambda>q. sd_id q = sd_id r \<and> sd_ws q = sd_ws r) (db_sends s)
      = select_one (\<lambda>q. send_key q = job_key L j) (db_sends s)"
    using assms(1) by (intro select_one_cong good_match [OF assms(2) _ r(5,4)]) (simp add: good_db_def)
  with assms(3) show ?thesis by (simp add: GetSendState_def row_of_def)
qed

text \<open>C2: What a claim decides, in order: a step whose due time has moved out is deferred; a row that
  is new or whose lease has expired is won if the mailbox's spacing allows, and deferred without
  leaving a trace if it does not; a delivered row is reported as sent, so that only the cursor is
  advanced; any other row, held or failed, is skipped. Only a won claim changes the database.\<close>

theorem claim_decision:
  assumes "good_db L U home s" and "good_job L U home j" and "uuid_Parse L (MailboxID j) \<noteq> None"
    and "localClaimStepSend L no_faults now j s = (r, s')"
  shows "r = Inr (if early now j then ClaimDeferred
              else if claimable now (row_of L j s) then
                (if slot_of L now j s = None then ClaimDeferred else ClaimWon)
              else if map_option sd_status (row_of L j s) = Some ''sent'' then ClaimAlreadySent
              else ClaimSkip)
     \<and> (r \<noteq> Inr ClaimWon \<longrightarrow> s' = s)
     \<and> (r = Inr ClaimWon \<longrightarrow> send_view s' (job_key L j) = Held (Some now))"
proof (intro conjI impI)
  from good_parse [OF assms(2)] obtain ws c ct i where
    p: "uuid_Parse L (WorkspaceID j) = Some ws" "uuid_Parse L (SendID j) = Some i"
      "uuid_Parse L (CampaignID j) = Some c" "uuid_Parse L (ContactID j) = Some ct"
    and q: "ws = home c" "i = derive_key L (c, ct, StepOrder j)" "job_key L j = (c, ct, StepOrder j)"
      "(c, ct, StepOrder j) \<in> U" "int32 (StepOrder j)" .
  obtain mb where mb: "uuid_Parse L (MailboxID j) = Some mb" using assms(3) by auto
  let ?row = "claim_row L now ws c ct mb i j"
  have row: "send_key ?row = job_key L j" "sd_ws ?row = ws"
    by (simp_all add: claim_row_def send_key_def q)
  have stmt: "ClaimStepSend now ?row (db_sends s) = None \<longleftrightarrow> \<not> claimable now (row_of L j s)"
  proof (cases "row_of L j s")
    case None
    then show ?thesis by (simp add: ClaimStepSend_def row row_of_def claimable_def expired_def)
  next
    case (Some r)
    have "sd_ws r = ws" using row_of_good(4) [OF assms(1,2) Some] p by simp
    with Some reclaimable_iff [of r ws now] show ?thesis
      by (simp add: ClaimStepSend_def row row_of_def claimable_def)
  qed
  have lost: "lost_claim no_faults i ws (db_sends s)
      = Inr (if map_option sd_status (row_of L j s) = Some ''sent'' then ClaimAlreadySent else ClaimSkip)"
    if "\<not> claimable now (row_of L j s)"
  proof (cases "row_of L j s")
    case None
    with that show ?thesis by (simp add: claimable_def expired_def)
  next
    case (Some r)
    from row_of_good(4,5) [OF assms(1,2) Some] p have "sd_ws r = ws" "sd_id r = i" by simp_all
    with state_of_row [OF assms(1,2) Some] Some show ?thesis by (simp add: lost_claim_def)
  qed
  have tx: "localClaimStepSend L no_faults now j s =
      (if early now j then (Inr ClaimDeferred, s) else claim_tx L no_faults now ws c ct mb i j s)"
    by (simp add: localClaimStepSend_def p mb early_def StepSendNotYetDue_def)
  have slot: "slot_of L now j s = select_one (slot_free now mb ws) (db_mailboxes s)"
    by (simp add: slot_of_def p mb)
  show "r = Inr (if early now j then ClaimDeferred
              else if claimable now (row_of L j s) then
                (if slot_of L now j s = None then ClaimDeferred else ClaimWon)
              else if map_option sd_status (row_of L j s) = Some ''sent'' then ClaimAlreadySent
              else ClaimSkip)"
  proof (cases "claimable now (row_of L j s)")
    case True
    with stmt obtain fresh rows where "ClaimStepSend now ?row (db_sends s) = Some (fresh, rows)" by auto
    with True assms(4) tx show ?thesis
      by (auto simp: claim_tx_def ReserveMailboxSendSlot_def slot split: if_splits)
  next
    case False
    with stmt have "ClaimStepSend now ?row (db_sends s) = None" by simp
    with False assms(4) tx lost show ?thesis by (auto simp: claim_tx_def)
  qed
  show "s' = s" if "r \<noteq> Inr ClaimWon" using claim_pg_other assms(4) that by blast
  show "send_view s' (job_key L j) = Held (Some now)" if "r = Inr ClaimWon"
    using claim_pg_won [OF assms(1,2)] assms(4) that by auto
qed

subsection \<open>Finalizing and advancing\<close>

definition after_step :: "instant \<Rightarrow> step_job \<Rightarrow> instant \<Rightarrow> enrollment \<Rightarrow> enrollment" where
  "after_step nowdb j due =
     (if LastStep j then completed_by nowdb (StepOrder j) else sent_at nowdb (StepOrder j) due)"

text \<open>A permanent failure is recorded and the cursor moved on in one transaction: either nothing
  changes and the error is returned, or the row is final and the enrollment, if it is still active,
  is past the step. A failed row therefore never waits for its cursor.\<close>

theorem finalize_atomic:
  assumes "good_db L U home s" and "good_job L U home j" and "uuid_Parse L (EnrollmentID j) = Some eid"
    and "uuid_Parse L (WorkspaceID j) = Some ws"
    and "localFinalizeStepSend L flt now nowdb j
           \<lparr>res_status = ''failed'', res_message_id = [], res_err = err\<rparr> s = (r, s')"
  shows "case r of
       Inl _ \<Rightarrow> s' = s
     | Inr adv \<Rightarrow>
         Completed adv = LastStep j
         \<and> send_view s' (job_key L j) = settle (send_view s (job_key L j))
         \<and> GetEnrollment ws eid (db_enrollments s')
             = on_active (after_step nowdb j (NextDueAt adv)) (GetEnrollment ws eid (db_enrollments s))"
proof -
  let ?res = "\<lparr>res_status = ''failed'', res_message_id = [], res_err = err\<rparr>"
  from good_parse [OF assms(2)] obtain i where
    p: "uuid_Parse L (SendID j) = Some i" and o32: "int32 (StepOrder j)" by metis
  have v: "case r of Inl _ \<Rightarrow> s' = s
      | Inr _ \<Rightarrow> send_view s' = (send_view s)(job_key L j := settle (send_view s (job_key L j)))"
    using finalize_pg [OF assms(1,2) _ assms(5)] by simp
  show ?thesis
  proof (cases r)
    case (Inl e)
    with v show ?thesis by simp
  next
    case (Inr adv)
    with assms(3,4,5) p obtain due where
      "cursor_tx flt nowdb ws eid j due [] (\<lambda>s. case flt ''SetSendResult'' of
           Some e \<Rightarrow> Inl (ErrDb e)
         | None \<Rightarrow> Inr (s\<lparr>db_sends := SetSendResult nowdb i ws (res_status ?res)
                     (res_message_id ?res) (res_err ?res) (db_sends s)\<rparr>)) s
       = (Inr adv, s')"
      by (auto simp: localFinalizeStepSend_def split: option.splits sum.splits)
    then have adv: "adv = \<lparr>Completed = LastStep j, NextDueAt = due\<rparr>"
      and m: "MarkStepSent (PgStore flt nowdb) ws eid (StepOrder j) due (LastStep j) [] (db_enrollments s)
                = Inr (db_enrollments s')"
      by (cases rule: cursor_tx_cases; auto simp: o32 split: option.splits)+
    from pg.sent_law [OF m, of ws eid] have
      "GetEnrollment ws eid (db_enrollments s')
         = on_active (after_step nowdb j due) (GetEnrollment ws eid (db_enrollments s))"
      by (simp add: after_step_def)
    with v Inr adv show ?thesis by simp
  qed
qed

text \<open>Recovering forward. Advancing the cursor of a delivered step leaves the sends alone and
  puts the enrollment, if it is still active, past the step, with the thread root of a first step
  read from the delivered row. It is the same whether the call follows the delivery or a later run
  repeats it: after a second call, made at any later time, the cursor is where the first put it.\<close>

theorem recover_forward:
  assumes "uuid_Parse L (EnrollmentID j) = Some eid" and "uuid_Parse L (WorkspaceID j) = Some ws"
    and "uuid_Parse L (SendID j) = Some i" and "int32 (StepOrder j)"
    and "GetSendState i ws (db_sends s) = Some (''sent'', mid)"
    and "localAdvanceStepCursor L flt now nowdb j s = (Inr adv, s1)"
    and "localAdvanceStepCursor L flt' now' nowdb' j s1 = (Inr adv', s2)"
    and "GetEnrollment ws eid (db_enrollments s) = Some e" and "en_status e = StatusActive"
  shows "db_sends s1 = db_sends s \<and> db_sends s2 = db_sends s
     \<and> (\<exists>e1 e2. GetEnrollment ws eid (db_enrollments s1) = Some e1
          \<and> GetEnrollment ws eid (db_enrollments s2) = Some e2
          \<and> current_step e1 = StepOrder j \<and> current_step e2 = StepOrder j
          \<and> en_status e1 = (if LastStep j then StatusCompleted else StatusActive)
          \<and> en_status e2 = en_status e1
          \<and> thread_root_id e2 = thread_root_id e1
          \<and> thread_root_id e1 =
              (if StepOrder j = 1 \<and> thread_root_id e = [] then mid else thread_root_id e))"
proof -
  let ?root = "if StepOrder j = 1 then mid else []"
  have step: "\<exists>due. db_sends t' = db_sends t \<and>
      MarkStepSent (PgStore fl ndb) ws eid (StepOrder j) due (LastStep j) ?root (db_enrollments t)
        = Inr (db_enrollments t')"
    if "localAdvanceStepCursor L fl n ndb j t = (Inr a, t')" "db_sends t = db_sends s" for fl n ndb t a t'
  proof -
    from that assms(1-3,5) obtain due where "cursor_tx fl ndb ws eid j due ?root Inr t = (Inr a, t')"
      by (auto simp: localAdvanceStepCursor_def sent_thread_root_def split: option.splits sum.splits if_splits)
    then show ?thesis using assms(4) by (cases rule: cursor_tx_cases) auto
  qed
  from step [OF assms(6) refl] obtain due where s1: "db_sends s1 = db_sends s"
    and m1: "MarkStepSent (PgStore flt nowdb) ws eid (StepOrder j) due (LastStep j) ?root (db_enrollments s)
        = Inr (db_enrollments s1)" by blast
  from step [OF assms(7) s1] s1 obtain due' where s2: "db_sends s2 = db_sends s"
    and m2: "MarkStepSent (PgStore flt' nowdb') ws eid (StepOrder j) due' (LastStep j) ?root (db_enrollments s1)
        = Inr (db_enrollments s2)" by auto
  from pg.sent_law [OF m1, of ws eid] pg.sent_law [OF m2, of ws eid] assms(8,9) s1 s2
  show ?thesis
    by (cases "LastStep j"; cases "mid = []")
      (auto simp: on_active_def root_once_def sent_at_def completed_by_def)
qed

subsection \<open>Witnesses\<close>

lemma wrap32_one [simp]: "wrap32 1 = 1"
  by (simp add: wrap32_def)

definition held_db :: "string \<Rightarrow> db" where
  "held_db stat = sample_db\<lparr>
     db_enrollments := [sample_enrollment 1 6 StatusActive\<lparr>thread_root_id := []\<rparr>],
     db_sends := [(claim_row sample_lib 900 1 2 3 4 5 sample_job)\<lparr>sd_status := stat,
        sd_message_id := ''m1''\<rparr>]\<rparr>"

lemma held_good: "good_db sample_lib {(2, 3, 1)} (\<lambda>_. 1) (held_db stat)"
  by (simp add: good_db_def held_db_def unique_key_def good_row_def claim_row_def send_key_def
      sample_job_def zero_job_def derive_key_def deriveStepSendID_def)
    (simp add: sample_lib_def)

lemma sample_parse:
  "uuid_Parse sample_lib (EnrollmentID sample_job) = Some 6"
  "uuid_Parse sample_lib (WorkspaceID sample_job) = Some 1"
  "uuid_Parse sample_lib (SendID sample_job) = Some 5"
  "uuid_Parse sample_lib (CampaignID sample_job) = Some 2"
  "uuid_Parse sample_lib (ContactID sample_job) = Some 3"
  "uuid_Parse sample_lib (MailboxID sample_job) = Some 4"
  "StepOrder sample_job = 1" "LastStep sample_job" "NotDueUntil sample_job = 0"
  by (simp_all add: sample_lib_def sample_job_def zero_job_def)

lemma claim_decision_witness:
  "localClaimStepSend sample_lib no_faults 1000 sample_job (held_db ''sent'')
     = (Inr ClaimAlreadySent, held_db ''sent'')"
proof -
  obtain r s' where r: "localClaimStepSend sample_lib no_faults 1000 sample_job (held_db ''sent'') = (r, s')"
    by fastforce
  have row: "row_of sample_lib sample_job (held_db ''sent'') = Some ((claim_row sample_lib 900 1 2 3 4 5
      sample_job)\<lparr>sd_status := ''sent'', sd_message_id := ''m1''\<rparr>)"
    by (simp add: row_of_def held_db_def send_key_def claim_row_def sample_key sample_parse)
  from claim_decision [OF held_good sample_good _ r] show ?thesis
    by (simp add: r row early_def claimable_def expired_def view_row_def sample_parse)
qed

lemma finalize_atomic_witness:
  "\<exists>r s'. localFinalizeStepSend sample_lib no_faults 1000 1000 sample_job
         \<lparr>res_status = ''failed'', res_message_id = [], res_err = ''550''\<rparr> (held_db ''sending'') = (r, s')
     \<and> (case r of
         Inl _ \<Rightarrow> s' = held_db ''sending''
       | Inr adv \<Rightarrow>
           Completed adv = LastStep sample_job
           \<and> send_view s' (job_key sample_lib sample_job)
               = settle (send_view (held_db ''sending'') (job_key sample_lib sample_job))
           \<and> GetEnrollment 1 6 (db_enrollments s')
               = on_active (after_step 1000 sample_job (NextDueAt adv))
                   (GetEnrollment 1 6 (db_enrollments (held_db ''sending''))))"
proof -
  obtain r s' where r: "localFinalizeStepSend sample_lib no_faults 1000 1000 sample_job
         \<lparr>res_status = ''failed'', res_message_id = [], res_err = ''550''\<rparr> (held_db ''sending'') = (r, s')"
    by fastforce
  from finalize_atomic [OF held_good sample_good sample_parse(1,2) r] r show ?thesis by blast
qed

lemma recover_forward_witness:
  "\<exists>s1 adv s2 adv' e1 e2. localAdvanceStepCursor sample_lib no_faults 1000 1000 sample_job (held_db ''sent'')
         = (Inr adv, s1)
     \<and> localAdvanceStepCursor sample_lib no_faults 2000 2000 sample_job s1 = (Inr adv', s2)
     \<and> GetEnrollment 1 6 (db_enrollments s1) = Some e1 \<and> GetEnrollment 1 6 (db_enrollments s2) = Some e2
     \<and> thread_root_id e1 = ''m1'' \<and> thread_root_id e2 = ''m1''"
proof -
  let ?adv = "\<lparr>Completed = True, NextDueAt = 0\<rparr>"
  have st: "GetSendState 5 1 (db_sends (held_db ''sent'')) = Some (''sent'', ''m1'')"
    by (simp add: GetSendState_def held_db_def claim_row_def)
  have run: "\<exists>t'. localAdvanceStepCursor sample_lib no_faults n n sample_job t = (Inr ?adv, t')"
    if "GetSendState 5 1 (db_sends t) = Some (''sent'', ''m1'')" for t n
    using that
    by (simp add: localAdvanceStepCursor_def sample_parse sent_thread_root_def nextStepDueAt_def cursor_tx_def
        MarkStepSent_def PgStore_def exec_stmt_def)
  obtain s1 where s1: "localAdvanceStepCursor sample_lib no_faults 1000 1000 sample_job (held_db ''sent'')
      = (Inr ?adv, s1)" using run [OF st] by blast
  have sends1: "db_sends s1 = db_sends (held_db ''sent'')"
    using s1 st by (auto simp: localAdvanceStepCursor_def sample_parse sent_thread_root_def nextStepDueAt_def
        elim!: cursor_tx_cases)
  obtain s2 where s2: "localAdvanceStepCursor sample_lib no_faults 2000 2000 sample_job s1 = (Inr ?adv, s2)"
    using run [of s1] st sends1 by auto
  have get: "GetEnrollment 1 6 (db_enrollments (held_db ''sent''))
      = Some (sample_enrollment 1 6 StatusActive\<lparr>thread_root_id := []\<rparr>)"
    by (simp add: GetEnrollment_def is_row_def held_db_def sample_enrollment_def)
  have act: "en_status (sample_enrollment 1 6 StatusActive\<lparr>thread_root_id := []\<rparr>) = StatusActive"
    by (simp add: sample_enrollment_def)
  have o32: "int32 (StepOrder sample_job)" by (simp add: sample_parse int32_def)
  from recover_forward [OF sample_parse(1,2,3) o32 st s1 s2 get act] obtain e1 e2 where
    "GetEnrollment 1 6 (db_enrollments s1) = Some e1" "GetEnrollment 1 6 (db_enrollments s2) = Some e2"
    "thread_root_id e1 = ''m1''" "thread_root_id e2 = ''m1''"
    by (auto simp: sample_parse)
  with s1 s2 show ?thesis by blast
qed

end
