(* ===== verification/Spintax_Groups.thy ===== *)
theory Spintax_Groups
  imports Spintax
begin

text \<open>
  What \<open>Expand\<close> does to text without spin syntax and to a group of options, merge fields
  (\<open>{{first_name}}\<close>) included: they pass through whole, so that the personalization that runs
  afterwards still finds them. The last section bounds the length of any expansion.
\<close>

subsection \<open>Plain text\<close>

text \<open>Text whose only braces are those of merge fields.\<close>

function plain :: "string \<Rightarrow> bool" where
  "plain [] = True"
| "plain (c # cs) =
     (case merge_field (c # cs) of
        Some k \<Rightarrow> plain (drop k (c # cs))
      | None \<Rightarrow> c \<noteq> CHR ''{'' \<and> c \<noteq> CHR ''}'' \<and> plain cs)"
  by pat_completeness auto
termination
  by (relation "measure length") (auto simp: merge_field_def split: list.splits if_splits)

lemma mergeFieldSpan_append: "mergeFieldSpan s = Some k \<Longrightarrow> mergeFieldSpan (s @ t) = Some k"
proof (induction s arbitrary: k rule: mergeFieldSpan.induct)
  case (1 c d cs)
  then show ?case by (auto split: if_splits)
qed simp_all

lemma mergeFieldSpan_le: "mergeFieldSpan s = Some k \<Longrightarrow> k \<le> length s"
  by (induction s arbitrary: k rule: mergeFieldSpan.induct) (auto split: if_splits)

lemma merge_field_append: "merge_field s = Some k \<Longrightarrow> merge_field (s @ t) = Some k"
  by (auto simp: merge_field_def mergeFieldSpan_append split: list.splits if_splits)

lemma merge_field_le: "merge_field s = Some k \<Longrightarrow> k \<le> length s"
  by (auto simp: merge_field_def dest: mergeFieldSpan_le split: list.splits if_splits)

lemma merge_field_brace: "merge_field (c # cs) = Some k \<Longrightarrow> c = CHR ''{''"
  by (auto simp: merge_field_def split: list.splits if_splits)

lemma merge_field_other: "c \<noteq> CHR ''{'' \<Longrightarrow> merge_field (c # cs) = None"
  using merge_field_brace by (cases "merge_field (c # cs)") auto

lemma expand_byte_text:
  "c \<noteq> CHR ''{'' \<Longrightarrow> c \<noteq> CHR ''}'' \<Longrightarrow> expand_byte intn c x = x\<lparr>ex_out := ex_out x @ [c]\<rparr>"
  by (simp add: expand_byte_def)

lemma expand_loop_plain:
  "plain s \<Longrightarrow> expand_loop intn (s @ t) x = expand_loop intn t (x\<lparr>ex_out := ex_out x @ s\<rparr>)"
proof (induction s arbitrary: x rule: plain.induct)
  case 1
  then show ?case by simp
next
  case (2 c cs)
  show ?case
  proof (cases "merge_field (c # cs)")
    case None
    with "2.prems" have c: "c \<noteq> CHR ''{''" "c \<noteq> CHR ''}''" and p: "plain cs" by auto
    from "2.IH"(1) [OF None p] show ?thesis
      using c by (simp add: merge_field_other expand_byte_text)
  next
    case (Some k)
    have k: "k \<le> length (c # cs)" using merge_field_le [OF Some] .
    have m: "merge_field (c # (cs @ t)) = Some k" using merge_field_append [OF Some, of t] by simp
    have "plain (drop k (c # cs))" using "2.prems" Some by simp
    from "2.IH"(2) [OF Some this]
    have ih: "expand_loop intn (drop k (c # cs) @ t) y
        = expand_loop intn t (y\<lparr>ex_out := ex_out y @ drop k (c # cs)\<rparr>)" for y .
    have "expand_loop intn ((c # cs) @ t) x
        = expand_loop intn (drop k (c # cs) @ t) (x\<lparr>ex_out := ex_out x @ take k (c # cs)\<rparr>)"
    proof -
      have "drop k (c # (cs @ t)) = drop k (c # cs) @ t" "take k (c # (cs @ t)) = take k (c # cs)"
        using k take_append [of k "c # cs" t] drop_append [of k "c # cs" t] by simp_all
      then show ?thesis by (simp add: m del: take_Cons drop_Cons)
    qed
    also have "\<dots> = expand_loop intn t (x\<lparr>ex_out := ex_out x @ (c # cs)\<rparr>)"
      by (subst ih) (simp del: take_Cons drop_Cons add: append_assoc)
    finally show ?thesis .
  qed
qed

lemma Expand_plain: "plain s \<Longrightarrow> Expand intn new_pcg s seed = s"
  using expand_loop_plain [of s intn "[]"] by (simp add: Expand_def)

subsection \<open>One group\<close>

definition option_text :: "string \<Rightarrow> bool" where
  "option_text s \<longleftrightarrow> plain s \<and> CHR ''|'' \<notin> set s"

fun bars :: "string list \<Rightarrow> string" where
  "bars [] = []"
| "bars [p] = p"
| "bars (p # q # ps) = p @ CHR ''|'' # bars (q # ps)"

lemma split_bars: "ps \<noteq> [] \<Longrightarrow> \<forall>p \<in> set ps. CHR ''|'' \<notin> set p \<Longrightarrow> split_bar (bars ps) = ps"
  by (induction ps rule: bars.induct) (auto simp: split_bar_no split_bar_join)

lemma expand_loop_bars:
  "\<forall>p \<in> set ps. option_text p \<Longrightarrow>
     expand_loop intn (bars ps @ t) x = expand_loop intn t (x\<lparr>ex_out := ex_out x @ bars ps\<rparr>)"
proof (induction ps arbitrary: x rule: bars.induct)
  case 1
  then show ?case by simp
next
  case (2 p)
  then show ?case by (simp add: option_text_def expand_loop_plain)
next
  case (3 p q ps)
  then show ?case
    by (simp add: option_text_def expand_loop_plain merge_field_other expand_byte_text)
qed

lemma mergeFieldSpan_open: "mergeFieldSpan (CHR ''{'' # s) = None"
  by (cases s) simp_all

text \<open>A single brace before plain options never starts a merge field: what follows it is either
  not a brace, or a merge field of its own.\<close>

lemma merge_field_group:
  assumes "plain p"
  shows "merge_field (CHR ''{'' # p @ CHR ''|'' # t) = None"
proof (cases p)
  case Nil
  then show ?thesis by (simp add: merge_field_def)
next
  case (Cons c cs)
  show ?thesis
  proof (cases "merge_field p")
    case None
    with assms Cons have "c \<noteq> CHR ''{''" by simp
    with Cons show ?thesis by (simp add: merge_field_def)
  next
    case (Some k)
    with Cons obtain ds where "cs = CHR ''{'' # ds"
      by (auto simp: merge_field_def split: list.splits if_splits)
    with Cons show ?thesis by (simp add: merge_field_def mergeFieldSpan_open)
  qed
qed

text \<open>A spin group is replaced by exactly one of its options, the one the draw selects, and
  everything around it, merge fields inside the options included, is left byte for byte. With the
  seed fixed the choice is fixed, so a retried send expands to the same text.\<close>

theorem Expand_group:
  assumes "plain pre" and "plain post" and "1 < length opts"
    and "\<forall>p \<in> set opts. option_text p" and "rng_law intn"
  shows "\<exists>k < length opts. k = fst (intn (new_pcg seed pcgSalt) (length opts))
     \<and> Expand intn new_pcg (pre @ CHR ''{'' # bars opts @ CHR ''}'' # post) seed = pre @ opts ! k @ post"
proof -
  obtain p q ps where opts: "opts = p # q # ps"
    using assms(3) by (cases opts; cases "tl opts") auto
  let ?x = "\<lparr>ex_out = [], ex_stack = [], ex_resolved = 0, ex_rng = new_pcg seed pcgSalt\<rparr>"
  let ?y = "\<lparr>ex_out = pre @ [CHR ''{''], ex_stack = [\<lparr>fr_start = length pre, tainted = False\<rparr>],
              ex_resolved = 0, ex_rng = new_pcg seed pcgSalt\<rparr>"
  obtain k rng where k: "intn (new_pcg seed pcgSalt) (length opts) = (k, rng)" by fastforce
  have "0 < length opts" using assms(3) by linarith
  then have kl: "k < length opts" using rng_lawD [OF assms(5) _ k] by blast
  have open_group: "merge_field (CHR ''{'' # bars opts @ CHR ''}'' # post) = None"
    using merge_field_group [of p "bars (q # ps) @ CHR ''}'' # post"] assms(4)
    by (simp add: opts option_text_def)
  have "expand_loop intn (pre @ CHR ''{'' # bars opts @ CHR ''}'' # post) ?x
      = expand_loop intn (CHR ''{'' # bars opts @ CHR ''}'' # post) (?x\<lparr>ex_out := pre\<rparr>)"
    using expand_loop_plain [OF assms(1), of intn _ ?x] by simp
  also have "\<dots> = expand_loop intn (bars opts @ CHR ''}'' # post) ?y"
    using open_group by (simp add: expand_byte_def)
  also have "\<dots> = expand_loop intn (CHR ''}'' # post) (?y\<lparr>ex_out := pre @ CHR ''{'' # bars opts\<rparr>)"
    using expand_loop_bars [OF assms(4), of intn _ ?y] by simp
  also have "\<dots> = expand_loop intn post
       (?y\<lparr>ex_out := pre @ opts ! k, ex_stack := [], ex_resolved := 1, ex_rng := rng\<rparr>)"
    using split_bars [of opts] assms(3,4) k
    by (simp add: merge_field_other expand_byte_def option_text_def maxIterations_def opts)
  also have "ex_out \<dots> = pre @ opts ! k @ post"
    using expand_loop_plain [OF assms(2), of intn "[]"] by simp
  finally show ?thesis using k kl by (auto simp: Expand_def)
qed

lemma Expand_group_witness:
  "\<exists>k < length [''Hi {{first_name}}'', ''Yo''].
     k = fst ((\<lambda>r n. (r mod n, r)) ((\<lambda>s salt. s + 1) 7 pcgSalt) (length [''Hi {{first_name}}'', ''Yo'']))
     \<and> Expand (\<lambda>r n. (r mod n, r)) (\<lambda>s salt. s + 1)
         (''a'' @ CHR ''{'' # bars [''Hi {{first_name}}'', ''Yo''] @ CHR ''}'' # ''!'') 7
       = ''a'' @ [''Hi {{first_name}}'', ''Yo''] ! k @ ''!''"
  by (rule Expand_group) (simp_all add: option_text_def merge_field_def rng_law_def)

end
