(* ===== verification/Ab_Test.thy ===== *)
theory Ab_Test
  imports Inroad_Prelude
begin

text \<open>
  The choice of a step's copy for a contact (\<open>internal/platform/abtest/abtest.go\<close>): a hash of the
  enrollment and the step picks a point of the cumulative weight intervals. SHA-256 is the
  parameter \<open>sha\<close>.
\<close>

record variant =
  VarID :: string
  Weight :: int

definition total_weight :: "variant list \<Rightarrow> int" where
  "total_weight cs = sum_list (map (\<lambda>c. if 0 < Weight c then Weight c else 0) cs)"

definition hashToRange :: "(string \<Rightarrow> string) \<Rightarrow> string \<Rightarrow> nat \<Rightarrow> nat" where
  "hashToRange sha key n = big_endian64 (sha key) mod n"

text \<open>The loop over the candidates; \<open>cumulative\<close> is its accumulator.\<close>

fun pick_interval :: "int \<Rightarrow> int \<Rightarrow> variant list \<Rightarrow> variant option" where
  "pick_interval point cumulative [] = None"
| "pick_interval point cumulative (c # cs) =
     (if Weight c \<le> 0 then pick_interval point cumulative cs
      else if point < cumulative + Weight c then Some c
      else pick_interval point (cumulative + Weight c) cs)"

definition Select :: "(string \<Rightarrow> string) \<Rightarrow> string \<Rightarrow> string \<Rightarrow> variant list \<Rightarrow> variant option" where
  "Select sha enrollmentID stepID candidates =
     (let total = total_weight candidates in
      if total = 0 then None
      else
        let point = int (hashToRange sha (enrollmentID @ CHR 0x00 # stepID) (nat total))
        in case pick_interval point 0 candidates of
             Some c \<Rightarrow> Some c
           | None \<Rightarrow> find (\<lambda>c. 0 < Weight c) (rev candidates))"

subsection \<open>The intervals\<close>

lemma total_weight_simps [simp]:
  "total_weight [] = 0"
  "total_weight (c # cs) = (if 0 < Weight c then Weight c else 0) + total_weight cs"
  by (simp_all add: total_weight_def)

lemma total_weight_nonneg: "0 \<le> total_weight cs"
  by (induction cs) auto

lemma total_weight_pos: "0 < total_weight cs \<longleftrightarrow> (\<exists>c \<in> set cs. 0 < Weight c)"
proof (induction cs)
  case (Cons c cs)
  then show ?case using total_weight_nonneg [of cs] by auto
qed simp

lemma pick_interval_Some:
  assumes "point < cum + total_weight cs" and "\<exists>c \<in> set cs. 0 < Weight c"
  shows "\<exists>c \<in> set cs. pick_interval point cum cs = Some c \<and> 0 < Weight c"
  using assms
proof (induction cs arbitrary: cum)
  case Nil
  then show ?case by simp
next
  case (Cons c cs)
  show ?case
  proof (cases "0 < Weight c")
    case True
    show ?thesis
    proof (cases "point < cum + Weight c")
      case False
      with True Cons.prems(1) have lt: "point < cum + Weight c + total_weight cs" by simp
      with False have "0 < total_weight cs" by linarith
      then have "\<exists>c \<in> set cs. 0 < Weight c" by (simp add: total_weight_pos)
      from Cons.IH [OF lt this] True False show ?thesis by auto
    qed (use True in auto)
  next
    case False
    with Cons.prems have "point < cum + total_weight cs" "\<exists>c \<in> set cs. 0 < Weight c" by auto
    from Cons.IH [OF this] False show ?thesis by auto
  qed
qed

text \<open>The candidate picked at \<open>point\<close> is the one whose interval contains it.\<close>

lemma pick_interval_at:
  assumes "0 < Weight c"
  shows "cum + total_weight us \<le> point \<Longrightarrow> point < cum + total_weight us + Weight c \<Longrightarrow>
     pick_interval point cum (us @ c # vs) = Some c"
proof (induction us arbitrary: cum)
  case Nil
  then show ?case using assms by simp
next
  case (Cons u us)
  show ?case
  proof (cases "0 < Weight u")
    case True
    have "\<not> point < cum + Weight u" using Cons.prems(1) True total_weight_nonneg [of us] by simp
    with True Cons.IH [of "cum + Weight u"] Cons.prems show ?thesis by (simp add: add.assoc)
  next
    case False
    with Cons.IH [of cum] Cons.prems show ?thesis by simp
  qed
qed

lemma pick_interval_only:
  "pick_interval point cum (us @ c # vs) = Some c \<Longrightarrow> c \<notin> set us \<Longrightarrow> c \<notin> set vs \<Longrightarrow>
     cum \<le> point \<Longrightarrow>
     0 < Weight c \<and> cum + total_weight us \<le> point \<and> point < cum + total_weight us + Weight c"
proof (induction us arbitrary: cum)
  case Nil
  have "d \<in> set vs" if "pick_interval point c0 vs = Some d" for c0 d
    using that by (induction vs arbitrary: c0) (auto split: if_splits)
  with Nil show ?case by (auto split: if_splits)
next
  case (Cons u us)
  show ?case
  proof (cases "0 < Weight u")
    case True
    with Cons.prems have "pick_interval point (cum + Weight u) (us @ c # vs) = Some c"
      "cum + Weight u \<le> point"
      by (auto split: if_splits)
    with True Cons.IH [of "cum + Weight u"] Cons.prems show ?thesis by (simp add: add.assoc)
  next
    case False
    with Cons.prems Cons.IH [of cum] show ?thesis by simp
  qed
qed

text \<open>Every candidate gets exactly its weight's share of the hash range. Of the points a hash
  can land on, from zero up to the total weight, exactly \<open>Weight c\<close> select the candidate
  \<open>c\<close>, and none selects a candidate of weight zero or less.\<close>

theorem pick_interval_share:
  assumes "distinct candidates" and "c \<in> set candidates"
  shows "card {p. 0 \<le> p \<and> p < total_weight candidates \<and> pick_interval p 0 candidates = Some c}
       = nat (Weight c)"
proof -
  obtain us vs where split: "candidates = us @ c # vs" using assms(2) by (auto simp: in_set_conv_decomp)
  with assms(1) have notin: "c \<notin> set us" "c \<notin> set vs" by auto
  have tot: "total_weight (us @ c # vs) = total_weight us + total_weight (c # vs)"
    by (simp add: total_weight_def)
  have "{p. 0 \<le> p \<and> p < total_weight candidates \<and> pick_interval p 0 candidates = Some c}
      = (if 0 < Weight c then {total_weight us ..< total_weight us + Weight c} else {})"
    (is "?L = ?R")
  proof (intro set_eqI iffI)
    fix p assume "p \<in> ?L"
    then show "p \<in> ?R" using pick_interval_only [of p 0 us c vs] notin by (auto simp: split)
  next
    fix p assume p: "p \<in> ?R"
    then have w: "0 < Weight c" by (auto split: if_splits)
    with p have r: "total_weight us \<le> p" "p < total_weight us + Weight c" by auto
    with w show "p \<in> ?L"
      using pick_interval_at [OF w, of 0 us p vs] total_weight_nonneg [of us] total_weight_nonneg [of vs]
      by (simp add: split tot)
  qed
  then show ?thesis by simp
qed

definition split_31 :: "variant list" where
  "split_31 = [\<lparr>VarID = [], Weight = 3\<rparr>, \<lparr>VarID = ''b'', Weight = 1\<rparr>]"

lemma pick_interval_share_witness:
  "card {p. 0 \<le> p \<and> p < total_weight split_31
          \<and> pick_interval p 0 split_31 = Some \<lparr>VarID = [], Weight = 3\<rparr>}
     = nat (Weight \<lparr>VarID = [], Weight = 3\<rparr>)"
  by (rule pick_interval_share) (simp_all add: split_31_def)

text \<open>A copy is selected exactly when some candidate has a positive weight, it is one of the
  candidates with a positive weight, and it is the candidate of the interval its hash lands in: the
  fallback after the loop is never taken.\<close>

theorem Select_spec:
  "case Select sha enrollmentID stepID candidates of
     None \<Rightarrow> \<not> (\<exists>c \<in> set candidates. 0 < Weight c)
   | Some c \<Rightarrow> c \<in> set candidates \<and> 0 < Weight c
       \<and> pick_interval (int (hashToRange sha (enrollmentID @ CHR 0x00 # stepID)
            (nat (total_weight candidates)))) 0 candidates = Some c"
proof (cases "0 < total_weight candidates")
  case True
  then have ex: "\<exists>c \<in> set candidates. 0 < Weight c" by (simp add: total_weight_pos)
  let ?p = "int (hashToRange sha (enrollmentID @ CHR 0x00 # stepID) (nat (total_weight candidates)))"
  have "?p < total_weight candidates"
    using True unfolding hashToRange_def
    by (metis mod_less_divisor of_nat_less_iff int_nat_eq less_imp_le zero_less_nat_eq)
  then have "?p < 0 + total_weight candidates" by simp
  from pick_interval_Some [OF this ex] obtain c where
    "c \<in> set candidates" "pick_interval ?p 0 candidates = Some c" "0 < Weight c" by auto
  with True show ?thesis by (simp add: Select_def Let_def)
next
  case False
  then have "total_weight candidates = 0" using total_weight_nonneg [of candidates] by linarith
  with False show ?thesis by (simp add: Select_def total_weight_pos [symmetric])
qed

lemma Select_spec_witness:
  "case Select (\<lambda>_. [CHR 0x02]) ''e'' ''s'' split_31 of
     None \<Rightarrow> \<not> (\<exists>c \<in> set split_31. 0 < Weight c)
   | Some c \<Rightarrow> c \<in> set split_31 \<and> 0 < Weight c
       \<and> pick_interval (int (hashToRange (\<lambda>_. [CHR 0x02]) (''e'' @ CHR 0x00 # ''s'')
            (nat (total_weight split_31)))) 0 split_31 = Some c"
  by (rule Select_spec)

end
