(* ===== verification/Go_Float.thy ===== *)
theory Go_Float
  imports Complex_Main Inroad_Prelude
begin

text \<open>
  Go's \<open>float64\<close>, as far as the policy, capacity and rotation packages use it: finite values,
  conversion from and to \<open>int\<close>, the four operations, comparison, \<open>math.Sqrt\<close> and \<open>math.Log2\<close>.

  A value is a pair of integers, \<open>m * 2 ^ e\<close>. Every operation computes the exact result and
  rounds it once to 53 bits, ties to even, so two runs of the model agree with two runs of the
  program bit for bit. The exponent is not bounded: the operands in this program are counts,
  constants between \<open>2 ^ (-40)\<close> and \<open>2\<close>, and a handful of products and quotients of them, which
  stay far from the overflow and subnormal ranges, and no operation here divides by zero or
  meets a NaN. Operations are not fused, as on amd64.
\<close>

subsection \<open>Rounding\<close>

datatype float64 = F64 (mant: int) (expo: int)

definition fval :: "float64 \<Rightarrow> real" where
  "fval x = of_int (mant x) * 2 powi expo x"

function bits :: "int \<Rightarrow> int" where
  "bits n = (if n \<le> 0 then 0 else 1 + bits (n div 2))"
  by auto
termination by (relation "measure nat") auto

declare bits.simps [simp del]

text \<open>\<open>num / den\<close> to the nearest integer, ties to even.\<close>

definition half_even :: "int \<Rightarrow> int \<Rightarrow> int" where
  "half_even num den =
     (let q = num div den; r = num mod den
      in if 2 * r < den \<or> (2 * r = den \<and> even q) then q else q + 1)"

definition scaled :: "int \<Rightarrow> int \<Rightarrow> int \<Rightarrow> int \<times> int" where
  "scaled n d s = (if 0 \<le> s then (n * 2 ^ nat s, d) else (n, d * 2 ^ nat (- s)))"

text \<open>The scaling after which the quotient of two positive integers has 53 bits.\<close>

definition shift_for :: "int \<Rightarrow> int \<Rightarrow> int" where
  "shift_for n d =
     (let s = 53 + bits d - bits n; (num, den) = scaled n d s
      in if 2 ^ 53 * den \<le> num then s - 1 else s)"

definition round_pos :: "int \<Rightarrow> int \<Rightarrow> int \<Rightarrow> float64" where
  "round_pos n d e =
     (let s = shift_for n d; (num, den) = scaled n d s in F64 (half_even num den) (e - s))"

text \<open>The double nearest to \<open>n / d * 2 ^ e\<close>.\<close>

definition round_quot :: "int \<Rightarrow> int \<Rightarrow> int \<Rightarrow> float64" where
  "round_quot n d e =
     (if n = 0 then F64 0 0
      else if 0 < n then round_pos n d e
      else (case round_pos (- n) d e of F64 m k \<Rightarrow> F64 (- m) k))"

subsection \<open>Operations\<close>

definition f_int :: "int \<Rightarrow> float64" where "f_int i = round_quot i 1 0"

text \<open>The double a decimal literal \<open>n / d\<close> denotes.\<close>

definition f_lit :: "int \<Rightarrow> int \<Rightarrow> float64" where "f_lit n d = round_quot n d 0"

definition align :: "float64 \<Rightarrow> float64 \<Rightarrow> int \<times> int \<times> int" where
  "align x y =
     (let e = min (expo x) (expo y)
      in (mant x * 2 ^ nat (expo x - e), mant y * 2 ^ nat (expo y - e), e))"

definition f_le :: "float64 \<Rightarrow> float64 \<Rightarrow> bool" where
  "f_le x y = (case align x y of (a, b, e) \<Rightarrow> a \<le> b)"

definition f_less :: "float64 \<Rightarrow> float64 \<Rightarrow> bool" where
  "f_less x y = (case align x y of (a, b, e) \<Rightarrow> a < b)"

definition f_eq :: "float64 \<Rightarrow> float64 \<Rightarrow> bool" where
  "f_eq x y = (case align x y of (a, b, e) \<Rightarrow> a = b)"

definition f_add :: "float64 \<Rightarrow> float64 \<Rightarrow> float64" where
  "f_add x y = (case align x y of (a, b, e) \<Rightarrow> round_quot (a + b) 1 e)"

definition f_sub :: "float64 \<Rightarrow> float64 \<Rightarrow> float64" where
  "f_sub x y = (case align x y of (a, b, e) \<Rightarrow> round_quot (a - b) 1 e)"

definition f_mul :: "float64 \<Rightarrow> float64 \<Rightarrow> float64" where
  "f_mul x y = round_quot (mant x * mant y) 1 (expo x + expo y)"

definition f_div :: "float64 \<Rightarrow> float64 \<Rightarrow> float64" where
  "f_div x y = round_quot (mant x * sgn (mant y)) \<bar>mant y\<bar> (expo x - expo y)"

text \<open>\<open>int(x)\<close> drops the fraction.\<close>

definition f_trunc :: "float64 \<Rightarrow> int" where
  "f_trunc x = (if 0 \<le> expo x then mant x * 2 ^ nat (expo x) else quot (mant x) (2 ^ nat (- expo x)))"

text \<open>The integer square root, bit pair by bit pair, with its remainder.\<close>

function sqrt_rem :: "int \<Rightarrow> int \<times> int" where
  "sqrt_rem n =
     (if n \<le> 0 then (0, 0)
      else case sqrt_rem (n div 4) of (r, m) \<Rightarrow>
        if 4 * r + 1 \<le> 4 * m + n mod 4
        then (2 * r + 1, 4 * m + n mod 4 - (4 * r + 1))
        else (2 * r, 4 * m + n mod 4))"
  by auto
termination by (relation "measure nat") auto

declare sqrt_rem.simps [simp del]

text \<open>\<open>math.Sqrt\<close>: at least 54 bits of the root, and one more that says whether it was exact.\<close>

definition sqrt_shift :: "float64 \<Rightarrow> int" where
  "sqrt_shift x =
     (let k = max 0 (110 - bits (mant x)) in if even (expo x - k) then k else k + 1)"

definition f_sqrt :: "float64 \<Rightarrow> float64" where
  "f_sqrt x =
     (if mant x \<le> 0 then F64 0 0
      else case sqrt_rem (mant x * 2 ^ nat (sqrt_shift x)) of (r, m) \<Rightarrow>
        round_quot (2 * r + (if m = 0 then 0 else 1)) 2 ((expo x - sqrt_shift x) div 2))"

lemma sqrt_rem_correct:
  "0 \<le> n \<Longrightarrow> sqrt_rem n = (r, m) \<Longrightarrow> n = r * r + m \<and> 0 \<le> m \<and> m \<le> 2 * r \<and> 0 \<le> r"
proof (induction n arbitrary: r m rule: sqrt_rem.induct)
  case (1 n)
  show ?case
  proof (cases "n = 0")
    case True
    with 1(3) show ?thesis by (simp add: sqrt_rem.simps [of 0])
  next
    case False
    obtain r' m' where sub: "sqrt_rem (n div 4) = (r', m')" by fastforce
    have "\<not> n \<le> 0" "0 \<le> n div 4" using 1(2) False by auto
    from 1(1) [OF this sub] have ih: "n div 4 = r' * r' + m'" "0 \<le> m'" "m' \<le> 2 * r'" "0 \<le> r'" by auto
    have n: "n = 4 * (r' * r') + 4 * m' + n mod 4"
      using ih(1) mult_div_mod_eq [of 4 n] by (simp only: distrib_left)
    have "0 \<le> n mod 4" "n mod 4 < 4" by auto
    show ?thesis
    proof (cases "4 * r' + 1 \<le> 4 * m' + n mod 4")
      case True
      then have rm: "r = 2 * r' + 1" "m = 4 * m' + n mod 4 - (4 * r' + 1)"
        using 1(2,3) False sub by (simp_all add: sqrt_rem.simps [of n])
      have "r * r = 4 * (r' * r') + 4 * r' + 1" unfolding rm by (simp add: algebra_simps)
      with rm n True ih(3,4) \<open>n mod 4 < 4\<close> show ?thesis by linarith
    next
      case F: False
      then have rm: "r = 2 * r'" "m = 4 * m' + n mod 4"
        using 1(2,3) False sub by (simp_all add: sqrt_rem.simps [of n])
      have "r * r = 4 * (r' * r')" unfolding rm by simp
      with rm n F ih(2,4) \<open>0 \<le> n mod 4\<close> show ?thesis by linarith
    qed
  qed
qed

subsection \<open>What rounding keeps\<close>

lemma half_even_le: "0 < den \<Longrightarrow> num \<le> k * den \<Longrightarrow> half_even num den \<le> k"
proof -
  assume d: "0 < den" and le: "num \<le> k * den"
  have q: "num div den \<le> k" using zdiv_mono1 [OF le d] d by simp
  show ?thesis
  proof (cases "num div den = k")
    case True
    with le d have "num mod den = 0"
      by (metis add_le_same_cancel1 antisym_conv mult.commute mult_div_mod_eq pos_mod_sign)
    with True d show ?thesis by (simp add: half_even_def)
  next
    case False
    with q show ?thesis by (auto simp: half_even_def Let_def)
  qed
qed

lemma half_even_ge: "0 < den \<Longrightarrow> k * den \<le> num \<Longrightarrow> k \<le> half_even num den"
proof -
  assume d: "0 < den" and le: "k * den \<le> num"
  have "k \<le> num div den" using zdiv_mono1 [OF le d] d by simp
  then show ?thesis by (auto simp: half_even_def Let_def)
qed

lemma bits_bounds: "0 < n \<Longrightarrow> 1 \<le> bits n \<and> 2 ^ nat (bits n - 1) \<le> n \<and> n < 2 ^ nat (bits n)"
proof (induction n rule: bits.induct)
  case (1 n)
  show ?case
  proof (cases "n = 1")
    case True
    then show ?thesis by (simp add: bits.simps)
  next
    case False
    with 1 have "0 < n div 2" by simp
    with 1 have ih: "1 \<le> bits (n div 2)" "2 ^ nat (bits (n div 2) - 1) \<le> n div 2" "n div 2 < 2 ^ nat (bits (n div 2))"
      by auto
    have b: "bits n = 1 + bits (n div 2)" using 1 by (subst bits.simps) simp
    have e: "nat (bits (n div 2)) = Suc (nat (bits (n div 2) - 1))" "nat (1 + bits (n div 2)) = Suc (nat (bits (n div 2)))"
      using ih(1) by auto
    show ?thesis
      unfolding b using ih by (simp add: e) linarith
  qed
qed

lemma scaled_value:
  assumes "0 < d" and "scaled n d s = (num, den)"
  shows "0 < den \<and> real_of_int num / of_int den = of_int n / of_int d * 2 powi s"
proof (cases "0 \<le> s")
  case True
  with assms show ?thesis by (auto simp: scaled_def power_int_def)
next
  case False
  with assms show ?thesis by (auto simp: scaled_def power_int_def divide_simps)
qed

lemma scaled_ge:
  assumes "0 < d" and "scaled n d s = (num, den)"
  shows "2 ^ k * den \<le> num \<longleftrightarrow> 2 ^ k \<le> real_of_int n / of_int d * 2 powi s"
proof -
  from scaled_value [OF assms] have "0 < real_of_int den"
    and v: "real_of_int num / of_int den = of_int n / of_int d * 2 powi s" by auto
  have "2 ^ k * den \<le> num \<longleftrightarrow> 2 ^ k * real_of_int den \<le> of_int num"
    by (metis of_int_le_iff of_int_mult of_int_numeral of_int_power)
  also have "\<dots> \<longleftrightarrow> 2 ^ k \<le> real_of_int num / of_int den"
    using \<open>0 < real_of_int den\<close> by (simp add: pos_le_divide_eq)
  finally show ?thesis unfolding v .
qed

lemma bits_real: "0 < n \<Longrightarrow> 2 powi (bits n - 1) \<le> real_of_int n \<and> real_of_int n < 2 powi bits n"
proof -
  assume "0 < n"
  from bits_bounds [OF this] have b: "1 \<le> bits n" "2 ^ nat (bits n - 1) \<le> n" "n < 2 ^ nat (bits n)" by auto
  have "real_of_int (2 ^ nat (bits n - 1)) \<le> of_int n" using b(2) of_int_le_iff by blast
  moreover have "real_of_int n < of_int (2 ^ nat (bits n))" using b(3) of_int_less_iff by blast
  ultimately show ?thesis using b(1) by (simp add: power_int_def)
qed

lemma shift_for_ok:
  assumes n: "0 < n" and d: "0 < d" and sc: "scaled n d (shift_for n d) = (num, den)"
  shows "0 < den \<and> 2 ^ 52 * den \<le> num \<and> num < 2 ^ 53 * den"
proof -
  define x where "x = real_of_int n / of_int d"
  define s where "s = 53 + bits d - bits n"
  obtain num0 den0 where sc0: "scaled n d s = (num0, den0)" by fastforce
  have sh: "shift_for n d = (if 2 ^ 53 \<le> x * 2 powi s then s - 1 else s)"
    using scaled_ge [OF d sc0, of 53] by (simp add: shift_for_def s_def [symmetric] sc0 x_def)
  have dpos: "0 < real_of_int d" using d by simp
  have "2 powi (bits n - 1) / 2 powi bits d \<le> x"
    unfolding x_def using n bits_real [OF n] bits_real [OF d] dpos
    by (intro frac_le) (auto intro: less_imp_le)
  then have "2 powi (bits n - 1) / 2 powi bits d * 2 powi s \<le> x * 2 powi s"
    by (intro mult_right_mono) auto
  also have "2 powi (bits n - 1) / 2 powi bits d * 2 powi s = (2 :: real) powi ((bits n - 1) - bits d + s)"
    by (simp add: power_int_diff power_int_add)
  also have "(bits n - 1) - bits d + s = 52" by (simp add: s_def)
  finally have lo: "2 ^ 52 \<le> x * 2 powi s" by (simp add: power_int_def)
  have "x < 2 powi bits n / 2 powi (bits d - 1)"
    unfolding x_def using n bits_real [OF n] bits_real [OF d] dpos
    by (intro frac_less) auto
  then have "x * 2 powi s < 2 powi bits n / 2 powi (bits d - 1) * 2 powi s"
    by (intro mult_strict_right_mono) auto
  also have "2 powi bits n / 2 powi (bits d - 1) * 2 powi s = (2 :: real) powi (bits n - (bits d - 1) + s)"
    by (simp add: power_int_diff power_int_add)
  also have "bits n - (bits d - 1) + s = 54" by (simp add: s_def)
  finally have hi: "x * 2 powi s < 2 ^ 54" by (simp add: power_int_def)
  have "2 ^ 52 \<le> x * 2 powi shift_for n d \<and> x * 2 powi shift_for n d < 2 ^ 53"
  proof (cases "2 ^ 53 \<le> x * 2 powi s")
    case True
    have "2 * (x * 2 powi (s - 1)) = x * 2 powi s" by (simp add: power_int_diff)
    moreover have "(2 :: real) ^ 53 = 2 * 2 ^ 52" "(2 :: real) ^ 54 = 2 * 2 ^ 53" by simp_all
    ultimately have "2 ^ 52 \<le> x * 2 powi (s - 1)" "x * 2 powi (s - 1) < 2 ^ 53"
      using True hi by linarith+
    with True show ?thesis by (simp add: sh)
  next
    case False
    with lo show ?thesis by (simp add: sh)
  qed
  with scaled_ge [OF d sc, of 52] scaled_ge [OF d sc, of 53] scaled_value [OF d sc] show ?thesis
    by (simp add: x_def flip: not_le)
qed

definition fits53 :: "float64 \<Rightarrow> bool" where
  "fits53 x \<longleftrightarrow> \<bar>mant x\<bar> \<le> 2 ^ 53"

text \<open>A representable value on the rounding grid, or below the smallest normalised quotient.\<close>

lemma grid_cases:
  assumes "fits53 y"
  obtains k where "fval y * 2 powi s = of_int k" | "\<bar>fval y * 2 powi s\<bar> \<le> 2 ^ 52"
proof (cases "0 \<le> expo y + s")
  case True
  have "fval y * 2 powi s = of_int (mant y * 2 ^ nat (expo y + s))"
    using True by (simp add: fval_def mult.assoc flip: power_int_add)
      (simp add: power_int_def)
  then show ?thesis using that(1) by blast
next
  case False
  have m: "\<bar>real_of_int (mant y)\<bar> \<le> 2 ^ 53"
    using assms unfolding fits53_def by (metis of_int_abs of_int_le_iff of_int_numeral of_int_power)
  have "(2 :: real) powi (expo y + s) \<le> 2 powi (-1)"
    using False by (intro power_int_increasing) auto
  then have "\<bar>real_of_int (mant y)\<bar> * 2 powi (expo y + s) \<le> 2 ^ 53 * 2 powi (-1)"
    using m by (intro mult_mono) auto
  moreover have "fval y * 2 powi s = of_int (mant y) * 2 powi (expo y + s)"
    by (simp add: fval_def power_int_add)
  ultimately show ?thesis using that(2) by (simp add: abs_mult power_int_def)
qed

lemma half_even_real:
  assumes "0 < den"
  shows "real_of_int num / of_int den \<le> of_int k \<Longrightarrow> half_even num den \<le> k"
    and "of_int k \<le> real_of_int num / of_int den \<Longrightarrow> k \<le> half_even num den"
proof -
  have d: "0 < real_of_int den" using assms by simp
  show "real_of_int num / of_int den \<le> of_int k \<Longrightarrow> half_even num den \<le> k"
    using d half_even_le [OF assms] by (simp add: pos_divide_le_eq) (metis of_int_le_iff of_int_mult)
  show "of_int k \<le> real_of_int num / of_int den \<Longrightarrow> k \<le> half_even num den"
    using d half_even_ge [OF assms] by (simp add: pos_le_divide_eq) (metis of_int_le_iff of_int_mult)
qed

lemma round_pos_bounds:
  assumes n: "0 < n" and d: "0 < d" and y: "fits53 y"
  shows round_pos_le: "real_of_int n / of_int d * 2 powi e \<le> fval y \<Longrightarrow> fval (round_pos n d e) \<le> fval y"
    and round_pos_ge: "fval y \<le> real_of_int n / of_int d * 2 powi e \<Longrightarrow> fval y \<le> fval (round_pos n d e)"
proof -
  define s where "s = shift_for n d"
  obtain num den where sc: "scaled n d s = (num, den)" by fastforce
  define q where "q = real_of_int num / of_int den"
  from scaled_value [OF d sc] have den: "0 < den" and v: "q = of_int n / of_int d * 2 powi s"
    by (auto simp: q_def)
  have "2 ^ 52 * den \<le> num" using shift_for_ok [OF n d] sc by (simp add: s_def)
  then have lo: "2 ^ 52 \<le> q" and h52: "2 ^ 52 \<le> half_even num den"
    using half_even_ge [OF den, of "2 ^ 52" num] den scaled_ge [OF d sc, of 52] v by auto
  have r: "fval (round_pos n d e) = of_int (half_even num den) * 2 powi (e - s)"
    by (simp add: round_pos_def s_def [symmetric] sc fval_def)
  have x: "real_of_int n / of_int d * 2 powi e = q * 2 powi (e - s)"
    by (simp add: v power_int_diff)
  define Y where "Y = fval y * 2 powi (s - e)"
  have fy: "fval y = Y * 2 powi (e - s)" by (simp add: Y_def power_int_diff)
  have pos: "(0 :: real) < 2 powi (e - s)" by simp
  have "fits53 y" by (fact y)
  then show "real_of_int n / of_int d * 2 powi e \<le> fval y \<Longrightarrow> fval (round_pos n d e) \<le> fval y"
  proof (cases rule: grid_cases [of y "s - e"])
    case (1 k)
    assume "real_of_int n / of_int d * 2 powi e \<le> fval y"
    then have "q \<le> of_int k" unfolding x fy using pos 1 by (simp add: Y_def)
    then have "half_even num den \<le> k" using half_even_real(1) [OF den] by (simp add: q_def)
    then show ?thesis unfolding r fy using pos 1 by (simp add: Y_def)
  next
    case 2
    assume "real_of_int n / of_int d * 2 powi e \<le> fval y"
    then have "q \<le> Y" unfolding x fy using pos by simp
    moreover have "Y \<le> 2 ^ 52" using 2 by (simp add: Y_def)
    ultimately have "q = 2 ^ 52" "Y = 2 ^ 52" using lo by auto
    then have "half_even num den \<le> 2 ^ 52" using half_even_real(1) [OF den, of num "2 ^ 52"] by (simp add: q_def)
    then have "real_of_int (half_even num den) \<le> 2 ^ 52" by (metis of_int_le_iff of_int_numeral of_int_power)
    then show ?thesis unfolding r fy using pos \<open>Y = 2 ^ 52\<close> by simp
  qed
  show "fval y \<le> real_of_int n / of_int d * 2 powi e \<Longrightarrow> fval y \<le> fval (round_pos n d e)"
    using y
  proof (cases rule: grid_cases [of y "s - e"])
    case (1 k)
    assume "fval y \<le> real_of_int n / of_int d * 2 powi e"
    then have "of_int k \<le> q" unfolding x fy using pos 1 by (simp add: Y_def)
    then have "k \<le> half_even num den" using half_even_real(2) [OF den] by (simp add: q_def)
    then show ?thesis unfolding r fy using pos 1 by (simp add: Y_def)
  next
    case 2
    then have "Y \<le> 2 ^ 52" by (simp add: Y_def)
    also have "(2 ^ 52 :: real) \<le> of_int (half_even num den)"
      using h52 by (metis of_int_le_iff of_int_numeral of_int_power)
    finally show ?thesis unfolding r fy using pos by simp
  qed
qed

definition f_neg :: "float64 \<Rightarrow> float64" where "f_neg x = F64 (- mant x) (expo x)"

lemma f_neg_simps [simp]: "fval (f_neg x) = - fval x" "fits53 (f_neg x) = fits53 x"
  by (simp_all add: f_neg_def fval_def fits53_def)

lemma round_quot_bounds:
  assumes d: "0 < d" and y: "fits53 y"
  shows round_quot_le: "real_of_int n / of_int d * 2 powi e \<le> fval y \<Longrightarrow> fval (round_quot n d e) \<le> fval y"
    and round_quot_ge: "fval y \<le> real_of_int n / of_int d * 2 powi e \<Longrightarrow> fval y \<le> fval (round_quot n d e)"
proof -
  have neg: "fval (round_quot n d e) = - fval (round_pos (- n) d e)" if "n < 0"
    using that by (cases "round_pos (- n) d e") (simp add: round_quot_def fval_def)
  have y': "fits53 (f_neg y)" using y by simp
  consider "n = 0" | "0 < n" | "n < 0" by linarith
  then show "real_of_int n / of_int d * 2 powi e \<le> fval y \<Longrightarrow> fval (round_quot n d e) \<le> fval y"
  proof cases
    case 1 then show "real_of_int n / of_int d * 2 powi e \<le> fval y \<Longrightarrow> ?thesis"
      by (simp add: round_quot_def fval_def)
  next
    case 2 then show "real_of_int n / of_int d * 2 powi e \<le> fval y \<Longrightarrow> ?thesis"
      using round_pos_le [OF 2 d y] by (simp add: round_quot_def)
  next
    case 3 then show "real_of_int n / of_int d * 2 powi e \<le> fval y \<Longrightarrow> ?thesis"
      using round_pos_ge [OF _ d y', of "- n" e] by (simp add: neg)
  qed
  consider "n = 0" | "0 < n" | "n < 0" by linarith
  then show "fval y \<le> real_of_int n / of_int d * 2 powi e \<Longrightarrow> fval y \<le> fval (round_quot n d e)"
  proof cases
    case 1 then show "fval y \<le> real_of_int n / of_int d * 2 powi e \<Longrightarrow> ?thesis"
      by (simp add: round_quot_def fval_def)
  next
    case 2 then show "fval y \<le> real_of_int n / of_int d * 2 powi e \<Longrightarrow> ?thesis"
      using round_pos_ge [OF 2 d y] by (simp add: round_quot_def)
  next
    case 3 then show "fval y \<le> real_of_int n / of_int d * 2 powi e \<Longrightarrow> ?thesis"
      using round_pos_le [OF _ d y', of "- n" e] by (simp add: neg)
  qed
qed

lemma round_quot_exact:
  assumes "0 < d" and "fits53 y" and "fval y = real_of_int n / of_int d * 2 powi e"
  shows "fval (round_quot n d e) = fval y"
  using round_quot_le [OF assms(1,2), of n e] round_quot_ge [OF assms(1,2), of n e] assms(3)
  by (intro antisym) auto

subsection \<open>The operations as operations on reals\<close>

lemma f_int_exact: "\<bar>i\<bar> \<le> 2 ^ 53 \<Longrightarrow> fval (f_int i) = of_int i"
  using round_quot_exact [of 1 "F64 i 0" i 0] by (simp add: f_int_def fits53_def fval_def)

lemma align_value:
  assumes "align x y = (a, b, e)"
  shows "fval x = of_int a * 2 powi e \<and> fval y = of_int b * 2 powi e"
proof -
  have e: "e = min (expo x) (expo y)" "a = mant x * 2 ^ nat (expo x - e)" "b = mant y * 2 ^ nat (expo y - e)"
    using assms by (auto simp: align_def Let_def)
  have "(2 :: real) powi expo z = 2 ^ nat (expo z - e) * 2 powi e" if "e \<le> expo z" for z
  proof -
    have "(2 :: real) ^ nat (expo z - e) = 2 powi (expo z - e)" using that by (simp add: power_int_def)
    then show ?thesis by (simp flip: power_int_add)
  qed
  then show ?thesis by (simp add: fval_def e)
qed

lemma f_compare:
  shows f_le_iff: "f_le x y \<longleftrightarrow> fval x \<le> fval y"
    and f_less_iff: "f_less x y \<longleftrightarrow> fval x < fval y"
    and f_eq_iff: "f_eq x y \<longleftrightarrow> fval x = fval y"
proof -
  obtain a b e where al: "align x y = (a, b, e)" using prod_cases3 by blast
  from align_value [OF al] have v: "fval x = of_int a * 2 powi e" "fval y = of_int b * 2 powi e" by auto
  show "f_le x y \<longleftrightarrow> fval x \<le> fval y" "f_less x y \<longleftrightarrow> fval x < fval y" "f_eq x y \<longleftrightarrow> fval x = fval y"
    by (simp_all add: f_le_def f_less_def f_eq_def al v)
qed

lemma f_mul_bounds:
  assumes "fits53 z"
  shows f_mul_le: "fval x * fval y \<le> fval z \<Longrightarrow> fval (f_mul x y) \<le> fval z"
    and f_mul_ge: "fval z \<le> fval x * fval y \<Longrightarrow> fval z \<le> fval (f_mul x y)"
  using round_quot_le [of 1 z "mant x * mant y" "expo x + expo y"]
    round_quot_ge [of 1 z "mant x * mant y" "expo x + expo y"] assms
  by (simp_all add: f_mul_def fval_def power_int_add mult_ac)

lemma f_trunc_floor: "0 \<le> mant x \<Longrightarrow> f_trunc x = \<lfloor>fval x\<rfloor>"
proof (cases "0 \<le> expo x")
  case True
  then have "fval x = of_int (mant x * 2 ^ nat (expo x))" by (simp add: fval_def power_int_def)
  then show ?thesis using True by (simp only: floor_of_int f_trunc_def if_True)
next
  case False
  assume m: "0 \<le> mant x"
  have "fval x = of_int (mant x) / of_int (2 ^ nat (- expo x))"
    using False by (simp add: fval_def power_int_def divide_simps)
  then have "\<lfloor>fval x\<rfloor> = mant x div 2 ^ nat (- expo x)" by (simp only: floor_divide_of_int_eq)
  then show ?thesis using m False by (simp add: f_trunc_def)
qed

subsection \<open>Rounding is monotone\<close>

lemma half_even_mono:
  assumes den: "0 < den" "0 < den'" and le: "num * den' \<le> num' * den"
  shows "half_even num den \<le> half_even num' den'"
proof -
  define k where "k = num div den"
  define k' where "k' = num' div den'"
  have n: "num = k * den + num mod den" "num' = k' * den' + num' mod den'" by (simp_all add: k_def k'_def)
  have r: "0 \<le> num mod den" "num mod den < den" "0 \<le> num' mod den'" "num' mod den' < den'" using den by auto
  have h: "half_even num den \<le> k + 1" "k' \<le> half_even num' den'"
    by (auto simp: half_even_def Let_def k_def k'_def)
  have le': "k * (den * den') + num mod den * den' \<le> k' * (den * den') + num' mod den' * den"
    using le by (subst (asm) n, subst (asm) n) (simp add: algebra_simps)
  show ?thesis
  proof (cases "k < k'")
    case True
    with h show ?thesis by linarith
  next
    case False
    have "k = k'"
    proof (rule ccontr)
      assume "k \<noteq> k'"
      with False have "k' + 1 \<le> k" by linarith
      then have "(k' + 1) * (den * den') \<le> k * (den * den')" using den by (intro mult_right_mono) auto
      moreover have "num' mod den' * den < den' * den" using r den by (intro mult_strict_right_mono) auto
      moreover have "0 \<le> num mod den * den'" using r den by simp
      ultimately show False using le' by (simp add: algebra_simps)
    qed
    with le' have "num mod den * den' \<le> num' mod den' * den" by simp
    then have two: "2 * (num mod den) * den' \<le> 2 * (num' mod den') * den" by simp
    have up: "\<not> (2 * (num' mod den') < den' \<or> (2 * (num' mod den') = den' \<and> even k'))"
      if c: "\<not> (2 * (num mod den) < den \<or> (2 * (num mod den) = den \<and> even k))"
    proof
      assume a: "2 * (num' mod den') < den' \<or> (2 * (num' mod den') = den' \<and> even k')"
      have "den * den' \<le> 2 * (num mod den) * den'" using c den by (intro mult_right_mono) auto
      moreover have "2 * (num' mod den') * den \<le> den' * den" using a den by (intro mult_right_mono) auto
      moreover have "den * den' = den' * den" by simp
      ultimately have "2 * (num mod den) * den' = den * den'" "2 * (num' mod den') * den = den' * den"
        using two by linarith+
      then have "2 * (num mod den) = den" "2 * (num' mod den') = den'" using den by auto
      with a c \<open>k = k'\<close> show False by auto
    qed
    show ?thesis
      using up \<open>k = k'\<close> by (auto simp: half_even_def Let_def k_def k'_def)
  qed
qed

lemma round_pos_parts:
  assumes n: "0 < n" and d: "0 < d"
  obtains num den E where "0 < den" "2 ^ 52 * den \<le> num" "num < 2 ^ 53 * den"
    "of_int n / of_int d * 2 powi e = of_int num / of_int den * (2 powi E :: real)"
    "fval (round_pos n d e) = of_int (half_even num den) * 2 powi E"
proof -
  obtain num den where sc: "scaled n d (shift_for n d) = (num, den)" by fastforce
  show thesis
  proof (rule that [of den num "e - shift_for n d"])
    show "0 < den" "2 ^ 52 * den \<le> num" "num < 2 ^ 53 * den" using shift_for_ok [OF n d sc] by auto
    show "of_int n / of_int d * 2 powi e = of_int num / of_int den * (2 powi (e - shift_for n d) :: real)"
      using scaled_value [OF d sc] by (simp add: power_int_diff)
    show "fval (round_pos n d e) = of_int (half_even num den) * 2 powi (e - shift_for n d)"
      by (simp add: round_pos_def sc fval_def)
  qed
qed

lemma round_pos_mono:
  assumes "0 < n" "0 < d" "0 < n'" "0 < d'"
    and le: "real_of_int n / of_int d * 2 powi e \<le> of_int n' / of_int d' * 2 powi e'"
  shows "fval (round_pos n d e) \<le> fval (round_pos n' d' e')"
proof -
  obtain num den E where a: "0 < den" "2 ^ 52 * den \<le> num" "num < 2 ^ 53 * den"
    "of_int n / of_int d * 2 powi e = of_int num / of_int den * (2 powi E :: real)"
    "fval (round_pos n d e) = of_int (half_even num den) * 2 powi E"
    using round_pos_parts [OF assms(1,2), of e] by metis
  obtain num' den' E' where b: "0 < den'" "2 ^ 52 * den' \<le> num'" "num' < 2 ^ 53 * den'"
    "of_int n' / of_int d' * 2 powi e' = of_int num' / of_int den' * (2 powi E' :: real)"
    "fval (round_pos n' d' e') = of_int (half_even num' den') * 2 powi E'"
    using round_pos_parts [OF assms(3,4), of e'] by metis
  define q where "q = real_of_int num / of_int den"
  define q' where "q' = real_of_int num' / of_int den'"
  have q: "2 ^ 52 \<le> q" "q < 2 ^ 53" "q' < 2 ^ 53"
    using a(1-3) b(1-3) unfolding q_def q'_def
    by (simp_all add: pos_le_divide_eq pos_divide_less_eq)
  have hu: "half_even num den \<le> 2 ^ 53" using a(1,3) by (intro half_even_le) auto
  have hl: "2 ^ 52 \<le> half_even num' den'" using b(1,2) by (intro half_even_ge) auto
  consider "E = E'" | "E + 1 \<le> E'" | "E' + 1 \<le> E" by linarith
  then show ?thesis
  proof cases
    case 1
    have "q * 2 powi E \<le> q' * 2 powi E'" using le unfolding a(4) b(4) q_def q'_def .
    with 1 have "q \<le> q'" by simp
    then have "num * den' \<le> num' * den"
      using a(1) b(1) unfolding q_def q'_def
      by (simp add: frac_le_eq divide_simps flip: of_int_mult)
    then show ?thesis using half_even_mono [OF a(1) b(1)] 1 unfolding a(5) b(5) by simp
  next
    case 2
    have "real_of_int (half_even num den) * 2 powi E \<le> 2 ^ 53 * 2 powi E"
      using hu by (intro mult_right_mono) (auto simp: of_int_le_numeral_power_cancel_iff)
    also have "\<dots> = 2 ^ 52 * 2 powi (E + 1)" by (simp add: power_int_add)
    also have "\<dots> \<le> 2 ^ 52 * 2 powi E'" using 2 by (intro mult_left_mono power_int_increasing) auto
    also have "\<dots> \<le> real_of_int (half_even num' den') * 2 powi E'"
      using hl by (intro mult_right_mono) (auto simp: numeral_power_le_of_int_cancel_iff)
    finally show ?thesis unfolding a(5) b(5) .
  next
    case 3
    have "q' * 2 powi E' < 2 ^ 53 * 2 powi E'" using q(3) by (intro mult_strict_right_mono) auto
    also have "\<dots> = 2 ^ 52 * 2 powi (E' + 1)" by (simp add: power_int_add)
    also have "\<dots> \<le> 2 ^ 52 * 2 powi E" using 3 by (intro mult_left_mono power_int_increasing) auto
    also have "\<dots> \<le> q * 2 powi E" using q(1) by (intro mult_right_mono) auto
    finally show ?thesis using le unfolding a(4) b(4) q_def q'_def by simp
  qed
qed

lemma two_powi_sign [simp]: "\<not> (2 :: real) powi e < 0" "\<not> (2 :: real) powi e \<le> 0"
  by (simp_all add: not_less not_le less_imp_le)

text \<open>Results of rounding are representable.\<close>

lemma fits53_round [simp]: "0 < d \<Longrightarrow> fits53 (round_quot n d e)"
proof -
  assume d: "0 < d"
  have pos: "fits53 (round_pos m d e)" if m: "0 < m" for m
  proof -
    obtain num den where sc: "scaled m d (shift_for m d) = (num, den)" by fastforce
    from shift_for_ok [OF m d sc] have "half_even num den \<le> 2 ^ 53" "2 ^ 52 \<le> half_even num den"
      by (auto intro: half_even_le half_even_ge)
    then show ?thesis by (simp add: round_pos_def sc fits53_def)
  qed
  consider "n = 0" | "0 < n" | "n < 0" by linarith
  then show ?thesis
  proof cases
    case 3
    then have "fits53 (round_pos (- n) d e)" using pos by simp
    with 3 show ?thesis by (cases "round_pos (- n) d e") (simp add: round_quot_def fits53_def)
  next
    case 2
    then show ?thesis using pos by (simp add: round_quot_def)
  qed (simp add: round_quot_def fits53_def)
qed

lemma round_quot_mono:
  "0 < n \<Longrightarrow> 0 < d \<Longrightarrow> 0 < d' \<Longrightarrow>
     real_of_int n / of_int d * 2 powi e \<le> of_int n' / of_int d' * 2 powi e' \<Longrightarrow>
     fval (round_quot n d e) \<le> fval (round_quot n' d' e')"
proof -
  assume a: "0 < n" "0 < d" "0 < d'"
    and le: "real_of_int n / of_int d * 2 powi e \<le> of_int n' / of_int d' * 2 powi e'"
  have "0 < real_of_int n / of_int d * 2 powi e" using a by simp
  with le have "0 < real_of_int n' / of_int d' * 2 powi e'" by linarith
  then have "0 < n'" using a by (simp add: zero_less_mult_iff zero_less_divide_iff)
  with a le round_pos_mono show ?thesis by (simp add: round_quot_def)
qed

subsection \<open>Signs and bounds of the operations\<close>

lemma fval_sign: "0 \<le> mant x \<Longrightarrow> 0 \<le> fval x" "0 \<le> fval x \<Longrightarrow> 0 \<le> mant x" "0 < fval x \<longleftrightarrow> 0 < mant x"
  by (simp_all add: fval_def zero_le_mult_iff zero_less_mult_iff)

lemma f_add_sub_bounds:
  assumes z: "fits53 z"
  shows f_add_le: "fval x + fval y \<le> fval z \<Longrightarrow> fval (f_add x y) \<le> fval z"
    and f_add_ge: "fval z \<le> fval x + fval y \<Longrightarrow> fval z \<le> fval (f_add x y)"
    and f_sub_le: "fval x - fval y \<le> fval z \<Longrightarrow> fval (f_sub x y) \<le> fval z"
    and f_sub_ge: "fval z \<le> fval x - fval y \<Longrightarrow> fval z \<le> fval (f_sub x y)"
proof -
  obtain a b e where al: "align x y = (a, b, e)" using prod_cases3 by blast
  from align_value [OF al] have v: "fval x = of_int a * 2 powi e" "fval y = of_int b * 2 powi e" by auto
  have s: "fval x + fval y = of_int (a + b) / of_int 1 * 2 powi e"
    "fval x - fval y = of_int (a - b) / of_int 1 * 2 powi e"
    by (simp_all add: v algebra_simps)
  show "fval x + fval y \<le> fval z \<Longrightarrow> fval (f_add x y) \<le> fval z"
    "fval z \<le> fval x + fval y \<Longrightarrow> fval z \<le> fval (f_add x y)"
    "fval x - fval y \<le> fval z \<Longrightarrow> fval (f_sub x y) \<le> fval z"
    "fval z \<le> fval x - fval y \<Longrightarrow> fval z \<le> fval (f_sub x y)"
    using round_quot_le [OF _ z, of 1] round_quot_ge [OF _ z, of 1] unfolding s
    by (simp_all add: f_add_def f_sub_def al)
qed

lemma f_add_mono:
  "0 < fval x + fval y \<Longrightarrow> fval x + fval y \<le> fval x' + fval y' \<Longrightarrow> fval (f_add x y) \<le> fval (f_add x' y')"
proof -
  assume pos: "0 < fval x + fval y" and le: "fval x + fval y \<le> fval x' + fval y'"
  obtain a b e where al: "align x y = (a, b, e)" using prod_cases3 by blast
  obtain a' b' e' where al': "align x' y' = (a', b', e')" using prod_cases3 by blast
  have s: "fval x + fval y = of_int (a + b) / of_int 1 * 2 powi e"
    "fval x' + fval y' = of_int (a' + b') / of_int 1 * 2 powi e'"
    using align_value [OF al] align_value [OF al'] by (simp_all add: algebra_simps)
  have "0 < a + b" using pos unfolding s by (simp add: zero_less_mult_iff)
  then show ?thesis using round_quot_mono [of "a + b" 1 1 e "a' + b'" e'] le unfolding s
    by (simp add: f_add_def al al')
qed

lemma f_div_value: "mant y \<noteq> 0 \<Longrightarrow>
  real_of_int (mant x * sgn (mant y)) / of_int \<bar>mant y\<bar> * 2 powi (expo x - expo y) = fval x / fval y"
  by (auto simp: fval_def power_int_diff sgn_if field_simps)

lemma f_div_bounds:
  assumes z: "fits53 z" and y: "fval y \<noteq> 0"
  shows f_div_le: "fval x / fval y \<le> fval z \<Longrightarrow> fval (f_div x y) \<le> fval z"
    and f_div_ge: "fval z \<le> fval x / fval y \<Longrightarrow> fval z \<le> fval (f_div x y)"
proof -
  have m: "mant y \<noteq> 0" "0 < \<bar>mant y\<bar>" using y by (auto simp: fval_def)
  show "fval x / fval y \<le> fval z \<Longrightarrow> fval (f_div x y) \<le> fval z"
    "fval z \<le> fval x / fval y \<Longrightarrow> fval z \<le> fval (f_div x y)"
    using round_quot_le [OF m(2) z] round_quot_ge [OF m(2) z] f_div_value [OF m(1), of x]
    by (simp_all add: f_div_def)
qed

lemma f_div_mono:
  "0 < fval x / fval y \<Longrightarrow> fval x / fval y \<le> fval x' / fval y' \<Longrightarrow> 0 < fval y \<Longrightarrow> 0 < fval y' \<Longrightarrow>
     fval (f_div x y) \<le> fval (f_div x' y')"
proof -
  assume a: "0 < fval x / fval y" "fval x / fval y \<le> fval x' / fval y'" "0 < fval y" "0 < fval y'"
  then have "0 < fval x" by (simp add: zero_less_divide_iff)
  with a have m: "mant y \<noteq> 0" "mant y' \<noteq> 0" "0 < mant y" "0 < mant x"
    unfolding fval_sign(3) by auto
  show ?thesis
    unfolding f_div_def
    by (rule round_quot_mono) (use a m f_div_value [OF m(1), of x] f_div_value [OF m(2), of x'] in auto)
qed

lemma half_even_nonneg: "0 \<le> num \<Longrightarrow> 0 < den \<Longrightarrow> 0 \<le> half_even num den"
  by (rule half_even_ge) auto

lemma round_quot_nonneg: "0 \<le> n \<Longrightarrow> 0 < d \<Longrightarrow> 0 \<le> mant (round_quot n d e)"
proof -
  assume n: "0 \<le> n" and d: "0 < d"
  obtain num den where sc: "scaled n d (shift_for n d) = (num, den)" by fastforce
  then have "0 \<le> num \<and> 0 < den" using n d by (auto simp: scaled_def split: if_splits)
  with sc n show ?thesis by (simp add: round_quot_def round_pos_def half_even_nonneg)
qed

lemma round_quot_pos: "0 < n \<Longrightarrow> 0 < d \<Longrightarrow> 0 < mant (round_quot n d e)"
proof -
  assume n: "0 < n" and d: "0 < d"
  obtain num den where sc: "scaled n d (shift_for n d) = (num, den)" by fastforce
  from shift_for_ok [OF n d sc] have "2 ^ 52 \<le> half_even num den" by (auto intro: half_even_ge)
  with sc n show ?thesis by (simp add: round_quot_def round_pos_def)
qed

lemma f_div_pos: "0 < fval x \<Longrightarrow> 0 < fval y \<Longrightarrow> 0 < fval (f_div x y)"
  unfolding fval_sign(3) by (simp add: f_div_def round_quot_pos)

lemma f_mul_pos: "0 < fval x \<Longrightarrow> 0 < fval y \<Longrightarrow> 0 < fval (f_mul x y)"
  unfolding fval_sign(3) by (simp add: f_mul_def round_quot_pos)

lemma f_int_pos: "0 < i \<Longrightarrow> 0 < fval (f_int i)"
  unfolding fval_sign(3) by (simp add: f_int_def round_quot_pos)

lemma f_lit_pos: "0 < n \<Longrightarrow> 0 < d \<Longrightarrow> 0 < fval (f_lit n d)"
  unfolding fval_sign(3) by (simp add: f_lit_def round_quot_pos)

lemma f_int_mono: "0 < i \<Longrightarrow> i \<le> j \<Longrightarrow> fval (f_int i) \<le> fval (f_int j)"
  unfolding f_int_def by (rule round_quot_mono) auto

lemma f_sqrt_nonneg: "0 \<le> fval (f_sqrt x)"
proof (cases "mant x \<le> 0")
  case True
  then show ?thesis by (simp add: f_sqrt_def fval_def)
next
  case False
  obtain r m where rm: "sqrt_rem (mant x * 2 ^ nat (sqrt_shift x)) = (r, m)" by fastforce
  have "0 \<le> mant x * 2 ^ nat (sqrt_shift x)" using False by simp
  from sqrt_rem_correct [OF this rm] False rm show ?thesis
    by (intro fval_sign(1)) (simp add: f_sqrt_def round_quot_nonneg)
qed

lemma f_mul_nonneg: "0 \<le> fval x \<Longrightarrow> 0 \<le> fval y \<Longrightarrow> 0 \<le> fval (f_mul x y)"
  using fval_sign(2) by (intro fval_sign(1)) (simp add: f_mul_def round_quot_nonneg)

lemma fits53_int [simp]: "fits53 (f_int i)"
  by (simp add: f_int_def)

lemma fits53_lit [simp]: "0 < d \<Longrightarrow> fits53 (f_lit n d)"
  by (simp add: f_lit_def)

lemma fits53_add [simp]: "fits53 (f_add x y)" "fits53 (f_sub x y)" "fits53 (f_mul x y)"
  by (simp_all add: f_add_def f_sub_def f_mul_def split: prod.split)

lemma fits53_div: "fval y \<noteq> 0 \<Longrightarrow> fits53 (f_div x y)"
  by (simp add: f_div_def fval_def)

text \<open>Products of non-negative values, truncated.\<close>

lemma f_trunc_mul_bounds:
  assumes "0 \<le> mant x" "0 \<le> mant y" "fits53 z"
  shows f_trunc_mul_ge: "fval z \<le> fval x * fval y \<Longrightarrow> of_int k \<le> fval z \<Longrightarrow> k \<le> f_trunc (f_mul x y)"
    and f_trunc_mul_le: "fval x * fval y \<le> fval z \<Longrightarrow> fval z < of_int (k + 1) \<Longrightarrow> f_trunc (f_mul x y) \<le> k"
proof -
  have t: "f_trunc (f_mul x y) = \<lfloor>fval (f_mul x y)\<rfloor>"
    using assms by (intro f_trunc_floor) (simp add: f_mul_def round_quot_nonneg)
  show "fval z \<le> fval x * fval y \<Longrightarrow> of_int k \<le> fval z \<Longrightarrow> k \<le> f_trunc (f_mul x y)"
    using f_mul_ge [OF assms(3), of x y] unfolding t by (simp add: le_floor_iff)
  show "fval x * fval y \<le> fval z \<Longrightarrow> fval z < of_int (k + 1) \<Longrightarrow> f_trunc (f_mul x y) \<le> k"
    using f_mul_le [OF assms(3), of x y] unfolding t by (simp add: floor_le_iff)
qed

subsection \<open>\<open>math.Log2\<close>\<close>

text \<open>\<open>math.Frexp\<close> of a positive value: a fraction in \<open>[1/2, 1)\<close> and an exponent.\<close>

definition f_frexp :: "float64 \<Rightarrow> float64 \<times> int" where
  "f_frexp x = (F64 (mant x) (- bits (mant x)), expo x + bits (mant x))"

text \<open>\<open>math.Log\<close>, the library's polynomial in \<open>s = f / (2 + f)\<close>.\<close>

definition log_poly :: "float64 \<Rightarrow> float64" where
  "log_poly s2 =
     (let s4 = f_mul s2 s2;
          t1 = f_mul s2 (f_add (f_lit 6666666666666735130 (10 ^ 19))
                 (f_mul s4 (f_add (f_lit 2857142874366239149 (10 ^ 19))
                   (f_mul s4 (f_add (f_lit 1818357216161805012 (10 ^ 19))
                     (f_mul s4 (f_lit 1479819860511658591 (10 ^ 19))))))));
          t2 = f_mul s4 (f_add (f_lit 3999999999940941908 (10 ^ 19))
                 (f_mul s4 (f_add (f_lit 2222219843214978396 (10 ^ 19))
                   (f_mul s4 (f_lit 1531383769920937332 (10 ^ 19))))))
      in f_add t1 t2)"

definition f_log :: "float64 \<Rightarrow> float64" where
  "f_log x =
     (let (f0, k0) = f_frexp x;
          below = f_less f0 (f_lit 70710678118654752440 (10 ^ 20));
          f1 = (if below then f_mul f0 (f_int 2) else f0);
          k = f_int (if below then k0 - 1 else k0);
          f = f_sub f1 (f_int 1);
          s = f_div f (f_add (f_int 2) f);
          R = log_poly (f_mul s s);
          hfsq = f_mul (f_mul (f_lit 1 2) f) f
      in f_sub (f_mul k (f_lit 693147180369123816490 (10 ^ 21)))
           (f_sub (f_sub hfsq (f_add (f_mul s (f_add hfsq R)) (f_mul k (f_lit 190821492927058770002 (10 ^ 30))))) f))"

definition f_log2 :: "float64 \<Rightarrow> float64" where
  "f_log2 x =
     (let (frac, ex) = f_frexp x
      in if f_eq frac (f_lit 1 2) then f_int (ex - 1)
         else f_add (f_mul (f_log frac) (f_lit 144269504088896340735992468100189214 (10 ^ 35))) (f_int ex))"

end
