(* ===== verification/Send_Cap.thy ===== *)
theory Send_Cap
  imports Go_Float
begin

text \<open>
  How much a mailbox may send today (\<open>internal/platform/sendcap/sendcap.go\<close>): the ramp of a new
  mailbox, and the scaling of its cold sending by warmup health. Caps and ages are Go \<open>int\<close>s read
  from 32-bit columns, so the ramp product stays within 64 bits and is kept as an integer.
\<close>

definition HealthUnknown :: string where [const_defs]: "HealthUnknown = ''unknown''"
definition HealthWatch :: string where [const_defs]: "HealthWatch = ''watch''"
definition HealthThrottled :: string where [const_defs]: "HealthThrottled = ''throttled''"
definition HealthPaused :: string where [const_defs]: "HealthPaused = ''paused''"

definition Effective :: "int \<Rightarrow> int \<Rightarrow> int \<Rightarrow> bool \<Rightarrow> int \<Rightarrow> int" where
  "Effective dailyCap startCap rampDays rampEnabled ageDays =
     (if \<not> rampEnabled \<or> rampDays \<le> ageDays \<or> rampDays \<le> 0 then dailyCap
      else if ageDays \<le> 0 then startCap
      else startCap + quot ((dailyCap - startCap) * ageDays) rampDays)"

definition ColdFactor :: "string \<Rightarrow> float64" where
  "ColdFactor healthState =
     (if healthState = HealthUnknown then f_lit 1 2
      else if healthState = HealthWatch then f_lit 7 10
      else if healthState = HealthThrottled then f_lit 1 2
      else if healthState = HealthPaused then f_int 0
      else f_int 1)"

definition Cold :: "int \<Rightarrow> string \<Rightarrow> int" where
  "Cold effective healthState =
     (let factor = ColdFactor healthState
      in if f_le factor (f_int 0) \<or> effective \<le> 0 then 0
         else
           let scaled = f_trunc (f_mul (f_int effective) factor)
           in if scaled < 1 then 1 else scaled)"

subsection \<open>The ramp\<close>

text \<open>While a mailbox ramps, its effective cap lies between the start cap and the daily cap and
  never falls as it ages; outside the ramp it is the daily cap.\<close>

theorem Effective_ramp:
  assumes "0 \<le> startCap" and "startCap \<le> dailyCap" and "age \<le> age'"
  shows "startCap \<le> Effective dailyCap startCap rampDays enabled age
    \<and> Effective dailyCap startCap rampDays enabled age \<le> Effective dailyCap startCap rampDays enabled age'
    \<and> Effective dailyCap startCap rampDays enabled age' \<le> dailyCap
    \<and> (\<not> enabled \<or> rampDays \<le> age \<longrightarrow> Effective dailyCap startCap rampDays enabled age = dailyCap)"
proof -
  define g where "g = dailyCap - startCap"
  have g: "0 \<le> g" using assms by (simp add: g_def)
  have mid: "g * a div rampDays \<le> g * b div rampDays" if "a \<le> b" "0 < rampDays" for a b
    using that g by (intro zdiv_mono1 mult_left_mono) auto
  have top: "g * a div rampDays \<le> g" if "a \<le> rampDays" "0 < rampDays" for a
    using mid [OF that] that by simp
  have bot: "0 \<le> g * a div rampDays" if "0 \<le> a" "0 < rampDays" for a
    using that g by (simp add: pos_imp_zdiv_nonneg_iff)
  have q: "quot (g * a) rampDays = g * a div rampDays" if "0 \<le> a" "0 < rampDays" for a
    using that g by simp
  show ?thesis
    using assms mid [of age age'] top [of age] top [of age'] bot [of age] bot [of age'] q [of age] q [of age']
    unfolding Effective_def g_def [symmetric] by (auto simp: g_def)
qed

theorem Effective_ramp_witness:
  "10 \<le> Effective 50 10 20 True 10
    \<and> Effective 50 10 20 True 10 \<le> Effective 50 10 20 True 15
    \<and> Effective 50 10 20 True 15 \<le> 50"
  using Effective_ramp [of 10 50 10 15 20 True] by simp

subsection \<open>Scaling by health\<close>

lemma factor_values:
  "f_lit 7 10 = F64 6305039478318694 (- 53)" "f_lit 1 2 = F64 4503599627370496 (- 53)"
  "f_int 1 = F64 4503599627370496 (- 52)" "f_int 0 = F64 0 0"
  by code_simp+

lemma factor_reals:
  "fval (f_lit 7 10) = 6305039478318694 / 2 ^ 53" "fval (f_lit 1 2) = 1 / 2"
  "fval (f_int 1) = 1" "fval (f_int 0) = 0"
  by (simp_all add: factor_values fval_def power_int_def power_one_over)

lemma f_int_nonneg: "0 \<le> i \<Longrightarrow> 0 \<le> mant (f_int i)"
  by (simp add: f_int_def round_quot_nonneg)

lemma int_value: "fval (F64 k 0) = of_int k"
  by (simp add: fval_def)

lemma scaled_half:
  assumes "0 < e" and "e < 2 ^ 31"
  shows "f_trunc (f_mul (f_int e) (f_lit 1 2)) = e div 2"
proof -
  have h: "fval (F64 e (- 1)) = of_int e / 2" by (simp add: fval_def power_int_def)
  have v: "fval (f_int e) * fval (f_lit 1 2) = fval (F64 e (- 1))"
    using assms by (simp add: f_int_exact factor_reals h)
  have "2 * (e div 2) \<le> e" "e < 2 * (e div 2 + 1)" by presburger+
  then have "2 * real_of_int (e div 2) \<le> of_int e" "of_int e < 2 * real_of_int (e div 2 + 1)"
    by linarith+
  then have r: "real_of_int (e div 2) \<le> fval (F64 e (- 1))" "fval (F64 e (- 1)) < of_int (e div 2 + 1)"
    by (simp_all add: h)
  have m: "0 \<le> mant (f_int e)" "0 \<le> mant (f_lit 1 2)" "fits53 (F64 e (- 1))"
    using assms by (auto simp: f_int_nonneg factor_values fits53_def)
  show ?thesis
    using f_trunc_mul_ge [OF m] f_trunc_mul_le [OF m] v r by (intro antisym) auto
qed

lemma scaled_one:
  assumes "0 < e" and "e < 2 ^ 31"
  shows "f_trunc (f_mul (f_int e) (f_int 1)) = e"
proof -
  have m: "0 \<le> mant (f_int e)" "0 \<le> mant (f_int 1)" "fits53 (F64 e 0)"
    using assms by (auto simp: f_int_nonneg factor_values fits53_def)
  have v: "fval (f_int e) * fval (f_int 1) = fval (F64 e 0)"
    using assms by (simp add: f_int_exact factor_reals int_value)
  show ?thesis
    using f_trunc_mul_ge [OF m, of e] f_trunc_mul_le [OF m, of e] v by (intro antisym) (auto simp: int_value)
qed

lemma scaled_seven_tenths:
  assumes "0 < e" and "e < 2 ^ 31"
  defines "c \<equiv> f_trunc (f_mul (f_int e) (f_lit 7 10))"
  shows "10 * c \<le> 7 * e \<and> 7 * e \<le> 10 * (c + 1)"
proof
  define x where "x = fval (f_int e) * fval (f_lit 7 10)"
  have x: "x = of_int e * (6305039478318694 / 2 ^ 53)"
    using assms by (simp add: x_def f_int_exact factor_reals)
  have e31: "real_of_int e < 2 ^ 31" using assms by simp
  have hi: "10 * x \<le> 7 * of_int e" using assms(1) by (simp add: x)
  have lo: "7 * of_int e - 1 \<le> 10 * x" using assms(1) e31 by (simp add: x)
  have m: "0 \<le> mant (f_int e)" "0 \<le> mant (f_lit 7 10)"
    using assms by (simp_all add: f_int_nonneg factor_values)
  define k where "k = 7 * e div 10"
  have k: "10 * k \<le> 7 * e" "7 * e \<le> 10 * k + 9" "0 \<le> k" using assms(1) by (auto simp: k_def)
  show "10 * c \<le> 7 * e"
  proof -
    have z: "fits53 (F64 (16 * k + 15) (- 4))" "fval (F64 (16 * k + 15) (- 4)) = of_int k + 15 / 16"
      using k assms(2) by (simp_all add: fits53_def fval_def power_int_def power_one_over)
    have "7 * real_of_int e \<le> 10 * of_int k + 9" using k(2) by linarith
    then have "x \<le> of_int k + 15 / 16" using hi by linarith
    then have "c \<le> k" unfolding c_def using z
      by (intro f_trunc_mul_le [OF m z(1)]) (simp_all add: x_def)
    then show ?thesis using k by linarith
  qed
  show "7 * e \<le> 10 * (c + 1)"
  proof -
    define j where "j = (7 * e - 1) div 10"
    have j: "10 * j \<le> 7 * e - 1" "7 * e - 1 \<le> 10 * j + 9" "0 \<le> j" using assms(1) by (auto simp: j_def)
    have z: "fits53 (F64 j 0)" using j assms(2) by (simp add: fits53_def)
    have "10 * real_of_int j \<le> 7 * of_int e - 1" using j(1) by linarith
    then have "of_int j \<le> x" using lo by linarith
    then have "j \<le> c" unfolding c_def by (intro f_trunc_mul_ge [OF m z]) (simp_all add: x_def int_value)
    then have "10 * j \<le> 10 * c" by simp
    with j(2) show ?thesis by (simp add: distrib_left)
  qed
qed

text \<open>Only a paused mailbox and a cap of zero stop cold sending; every other state leaves at
  least one send a day: half the cap, rounded down, for a throttled or unmeasured mailbox; seven
  tenths, less than one short of them, on watch; the whole cap otherwise.\<close>

theorem Cold_spec:
  assumes "effective < 2 ^ 31"
  shows "(Cold effective h = 0 \<longleftrightarrow> effective \<le> 0 \<or> h = HealthPaused)
    \<and> (0 < effective \<longrightarrow>
         (h = HealthThrottled \<or> h = HealthUnknown \<longrightarrow> Cold effective h = max 1 (effective div 2))
       \<and> (h = HealthWatch \<longrightarrow>
            10 * Cold effective h \<le> max 10 (7 * effective) \<and> 7 * effective \<le> 10 * (Cold effective h + 1))
       \<and> (h \<notin> {HealthThrottled, HealthUnknown, HealthWatch, HealthPaused} \<longrightarrow> Cold effective h = effective))"
proof -
  have pos: "\<not> f_le (f_lit 1 2) (f_int 0)" "\<not> f_le (f_lit 7 10) (f_int 0)" "\<not> f_le (f_int 1) (f_int 0)"
    by (simp_all add: f_le_iff factor_reals)
  have paused: "f_le (f_int 0) (f_int 0)" by (simp add: f_le_iff)
  have states: "HealthThrottled \<noteq> HealthWatch" "HealthThrottled \<noteq> HealthUnknown" "HealthThrottled \<noteq> HealthPaused"
      "HealthUnknown \<noteq> HealthWatch" "HealthUnknown \<noteq> HealthPaused" "HealthWatch \<noteq> HealthPaused"
    by (simp_all add: const_defs)
  show ?thesis
  proof (cases "0 < effective")
    case False
    then show ?thesis by (simp add: Cold_def)
  next
    case True
    note seven = scaled_seven_tenths [OF True assms]
    consider "h = HealthThrottled \<or> h = HealthUnknown" | "h = HealthWatch" | "h = HealthPaused"
      | "h \<notin> {HealthThrottled, HealthUnknown, HealthWatch, HealthPaused}" by blast
    then show ?thesis
    proof cases
      case 1
      then have "Cold effective h = max 1 (effective div 2)"
        using True states scaled_half [OF True assms]
        by (auto simp: Cold_def ColdFactor_def pos Let_def)
      with 1 True states show ?thesis by auto
    next
      case 2
      then have "Cold effective h = max 1 (f_trunc (f_mul (f_int effective) (f_lit 7 10)))"
        using True states by (simp add: Cold_def ColdFactor_def pos Let_def)
      with 2 True states seven show ?thesis by auto
    next
      case 3
      then show ?thesis using True states by (auto simp: Cold_def ColdFactor_def paused)
    next
      case 4
      then have "Cold effective h = effective"
        using True scaled_one [OF True assms] by (simp add: Cold_def ColdFactor_def pos Let_def)
      with 4 True show ?thesis by auto
    qed
  qed
qed

theorem Cold_spec_witness:
  "Cold 90 HealthWatch \<noteq> 0 \<and> 10 * Cold 90 HealthWatch \<le> 7 * 90 \<and> 7 * 90 \<le> 10 * (Cold 90 HealthWatch + 1)"
  using Cold_spec [of 90 HealthWatch] by (simp add: const_defs)

text \<open>The rounding of the product shows: seven tenths of 90 is 63.\<close>

lemma Cold_watch_90: "Cold 90 HealthWatch = 62"
  by code_simp

end
