(* ===== verification/Warmup_Policy.thy ===== *)
theory Warmup_Policy
  imports Go_Float
begin

text \<open>
  The reputation policy of the warmup pool (\<open>internal/platform/warmup/policy.go\<close>): health states and
  pool lanes, the Wilson bound behind every rate, \<open>EvaluateParticipant\<close> with its health and lane
  halves, what a lane may do, and the send lease. Lanes and health states are the strings stored in
  the database, so that an unknown or corrupt value reaches the same branch it reaches in the code.
  Counts are Go \<open>int\<close>s and are kept as integers.
\<close>

subsection \<open>Constants\<close>

definition LanePendingAuth :: string where [const_defs]: "LanePendingAuth = ''pending_auth''"
definition LaneProbation :: string where [const_defs]: "LaneProbation = ''probation''"
definition LaneHealthy :: string where [const_defs]: "LaneHealthy = ''healthy''"
definition LaneWatch :: string where [const_defs]: "LaneWatch = ''watch''"
definition LaneRecovery :: string where [const_defs]: "LaneRecovery = ''recovery''"
definition LaneQuarantine :: string where [const_defs]: "LaneQuarantine = ''quarantine''"
definition LaneBlocked :: string where [const_defs]: "LaneBlocked = ''blocked''"

definition BouncePopulationCampaign :: string where [const_defs]: "BouncePopulationCampaign = ''campaign''"
definition BouncePopulationWarmup :: string where [const_defs]: "BouncePopulationWarmup = ''warmup''"
definition PolicyVersion :: string where [const_defs]: "PolicyVersion = ''warmup-phase1-v1''"

definition StateHealthy :: string where [const_defs]: "StateHealthy = ''healthy''"
definition StateUnknown :: string where [const_defs]: "StateUnknown = ''unknown''"
definition StateWatch :: string where [const_defs]: "StateWatch = ''watch''"
definition StateThrottled :: string where [const_defs]: "StateThrottled = ''throttled''"
definition StatePaused :: string where [const_defs]: "StatePaused = ''paused''"

record bands =
  watch_rate :: float64
  throttle_rate :: float64
  pause_rate :: float64

definition spam_bands :: bands where
  "spam_bands = \<lparr>watch_rate = f_lit 15 100, throttle_rate = f_lit 30 100, pause_rate = f_lit 50 100\<rparr>"

definition bounceWatchRate :: float64 where "bounceWatchRate = f_lit 3 100"

definition bounce_bands :: bands where
  "bounce_bands = \<lparr>watch_rate = bounceWatchRate, throttle_rate = f_lit 5 100, pause_rate = f_lit 10 100\<rparr>"

definition complaintWatchRate :: float64 where "complaintWatchRate = f_lit 3 10000"

definition complaint_bands :: bands where
  "complaint_bands = \<lparr>watch_rate = complaintWatchRate, throttle_rate = f_lit 1 1000, pause_rate = f_lit 3 1000\<rparr>"

definition MinPlacementSamples :: int where "MinPlacementSamples = 20"
definition MinBounceSamples :: int where "MinBounceSamples = 50"
definition MinComplaintSamples :: int where "MinComplaintSamples = 1000"
definition ProbationDailyVolume :: int where "ProbationDailyVolume = 5"
definition QuarantineCooldown :: duration where "QuarantineCooldown = 72 * hour"
definition LaneEvidenceGrace :: duration where "LaneEvidenceGrace = 6 * hour"
definition LeaseLifetime :: duration where "LeaseLifetime = 15 * minute"

subsection \<open>Signals and decisions\<close>

record signals =
  CurrentHealth :: string
  CurrentLane :: string
  AuthPassing :: bool
  EvidenceFresh :: bool
  EvidenceLapsedSince :: instant
  Inbox :: int
  Spam :: int
  CampaignDelivered :: int
  CampaignHardBounces :: int
  CampaignAssertedHardBounces :: int
  CampaignComplaints :: int
  WarmupDelivered :: int
  WarmupHardBounces :: int
  ObserverTokenFailures :: int
  QuarantinedSince :: instant
  PausedUntil :: instant

record decision =
  Health :: string
  HealthReasonCode :: string
  HealthReason :: string
  Lane :: string
  LaneReasonCode :: string
  LaneReason :: string
  PlacementSamples :: int
  SpamRate :: float64
  CampaignBounceSamples :: int
  CampaignBounceRate :: float64
  AssertedBounceRate :: float64
  WarmupBounceSamples :: int
  WarmupBounceRate :: float64
  ComplaintSamples :: int
  ComplaintRate :: float64
  DecisionTokenFailures :: int

definition DrivingBouncePair :: "decision \<Rightarrow> string \<times> int \<times> float64" where
  "DrivingBouncePair d =
     (if f_less (CampaignBounceRate d) (WarmupBounceRate d)
      then (BouncePopulationWarmup, WarmupBounceSamples d, WarmupBounceRate d)
      else (BouncePopulationCampaign, CampaignBounceSamples d, CampaignBounceRate d))"

subsection \<open>Ranks and normal forms\<close>

definition stateRank :: "string \<Rightarrow> int" where
  "stateRank state =
     (if state = StateWatch then 1 else if state = StateThrottled then 2
      else if state = StatePaused then 3 else 0)"

definition stateAtRank :: "int \<Rightarrow> string" where
  "stateAtRank rank =
     (if rank = 1 then StateWatch else if rank = 2 then StateThrottled
      else if rank = 3 then StatePaused else StateHealthy)"

definition normalizeState :: "string \<Rightarrow> string" where
  "normalizeState state = (if state = StateUnknown then StateUnknown else stateAtRank (stateRank state))"

definition lanes :: "string list" where
  "lanes = [LanePendingAuth, LaneProbation, LaneHealthy, LaneWatch, LaneRecovery, LaneQuarantine, LaneBlocked]"

definition normalizeLane :: "string \<Rightarrow> string" where
  "normalizeLane lane = (if lane \<in> set lanes then lane else LaneProbation)"

definition IsRecovery :: "string \<Rightarrow> string \<Rightarrow> bool" where
  "IsRecovery from_state to_state \<longleftrightarrow> stateRank to_state < stateRank from_state"

subsection \<open>Rates\<close>

text \<open>The constant \<open>z\<close> is untyped in the source, so \<open>z * z\<close> is computed exactly before it is
  rounded.\<close>

definition wilson_z :: float64 where "wilson_z = f_lit 1959963984540054 (10 ^ 15)"
definition wilson_z2 :: float64 where "wilson_z2 = f_lit (1959963984540054 * 1959963984540054) (10 ^ 30)"

definition wilson_center :: "float64 \<Rightarrow> float64 \<Rightarrow> float64" where
  "wilson_center n p = f_add p (f_div wilson_z2 (f_mul (f_int 2) n))"

definition wilson_margin :: "float64 \<Rightarrow> float64 \<Rightarrow> float64" where
  "wilson_margin n p =
     f_mul wilson_z
       (f_sqrt (f_add (f_div (f_mul p (f_sub (f_int 1) p)) n)
                      (f_div wilson_z2 (f_mul (f_mul (f_int 4) n) n))))"

definition wilson_ratio :: "float64 \<Rightarrow> float64 \<Rightarrow> float64" where
  "wilson_ratio n p =
     f_div (f_sub (wilson_center n p) (wilson_margin n p)) (f_add (f_int 1) (f_div wilson_z2 n))"

definition floor_zero :: "float64 \<Rightarrow> float64" where
  "floor_zero lb = (if f_less lb (f_int 0) then f_int 0 else lb)"

definition wilsonLowerBound :: "int \<Rightarrow> int \<Rightarrow> float64" where
  "wilsonLowerBound successes trials =
     floor_zero (wilson_ratio (f_int trials) (f_div (f_int successes) (f_int trials)))"

definition qualifiedRate :: "int \<Rightarrow> int \<Rightarrow> int \<Rightarrow> float64" where
  "qualifiedRate successes trials minSamples =
     (if trials < minSamples \<or> trials \<le> 0 \<or> successes \<le> 0 then f_int 0
      else if trials \<le> successes then f_int 1
      else wilsonLowerBound successes trials)"

definition alarming :: "int \<Rightarrow> int \<Rightarrow> float64 \<Rightarrow> bool" where
  "alarming successes trials watch \<longleftrightarrow>
     (if trials \<le> 0 \<or> successes \<le> 0 then False
      else if trials \<le> successes then True
      else f_less watch (wilsonLowerBound successes trials))"

definition promotionAlarmed :: "signals \<Rightarrow> bool" where
  "promotionAlarmed s \<longleftrightarrow>
     alarming (CampaignHardBounces s) (CampaignDelivered s) bounceWatchRate
   \<or> alarming (CampaignAssertedHardBounces s) (CampaignDelivered s) bounceWatchRate
   \<or> alarming (WarmupHardBounces s) (WarmupDelivered s) bounceWatchRate
   \<or> alarming (CampaignComplaints s) (CampaignDelivered s) complaintWatchRate"

subsection \<open>Health\<close>

definition worst :: "string \<Rightarrow> string \<Rightarrow> string \<Rightarrow> decision \<Rightarrow> decision" where
  "worst state code reason d =
     (if stateRank (Health d) < stateRank state
      then d\<lparr>Health := state, HealthReasonCode := code, HealthReason := reason\<rparr> else d)"

definition applyBand :: "float64 \<Rightarrow> bands \<Rightarrow> string \<Rightarrow> string \<Rightarrow> decision \<Rightarrow> decision" where
  "applyBand rate b code label d =
     (if f_less (pause_rate b) rate then worst StatePaused (code @ ''_pause'') (label @ '' above the pause threshold'') d
      else if f_less (throttle_rate b) rate then worst StateThrottled (code @ ''_throttle'') (label @ '' above the throttle threshold'') d
      else if f_less (watch_rate b) rate then worst StateWatch (code @ ''_watch'') (label @ '' above the watch threshold'') d
      else d)"

definition measured :: "signals \<Rightarrow> decision" where
  "measured s =
     \<lparr>Health = StateHealthy, HealthReasonCode = '''', HealthReason = '''',
      Lane = '''', LaneReasonCode = '''', LaneReason = '''',
      PlacementSamples = Inbox s + Spam s,
      SpamRate = qualifiedRate (Spam s) (Inbox s + Spam s) MinPlacementSamples,
      CampaignBounceSamples = CampaignDelivered s,
      CampaignBounceRate = qualifiedRate (CampaignHardBounces s) (CampaignDelivered s) MinBounceSamples,
      AssertedBounceRate = qualifiedRate (CampaignAssertedHardBounces s) (CampaignDelivered s) MinBounceSamples,
      WarmupBounceSamples = WarmupDelivered s,
      WarmupBounceRate = qualifiedRate (WarmupHardBounces s) (WarmupDelivered s) MinBounceSamples,
      ComplaintSamples = CampaignDelivered s,
      ComplaintRate = qualifiedRate (CampaignComplaints s) (CampaignDelivered s) MinComplaintSamples,
      DecisionTokenFailures = ObserverTokenFailures s\<rparr>"

definition applyAsserted :: "decision \<Rightarrow> decision" where
  "applyAsserted d =
     (if f_less bounceWatchRate (AssertedBounceRate d)
      then worst StateWatch ''campaign_bounce_asserted_watch''
             ''reported campaign hard-bounce rate above the watch threshold (reported by the deliverability feed, so it reduces volume but does not contain)'' d
      else d)"

definition applyBands :: "decision \<Rightarrow> decision" where
  "applyBands d0 =
     (let d1 = applyBand (SpamRate d0) spam_bands ''spam'' ''spam placement rate'' d0;
          d2 = applyBand (CampaignBounceRate d0) bounce_bands ''campaign_bounce'' ''campaign hard-bounce rate'' d1;
          d3 = applyAsserted d2;
          d4 = applyBand (WarmupBounceRate d0) bounce_bands ''warmup_bounce'' ''warmup hard-bounce rate'' d3
      in applyBand (ComplaintRate d0) complaint_bands ''complaint'' ''complaint rate'' d4)"

definition set_health :: "string \<Rightarrow> string \<Rightarrow> string \<Rightarrow> decision \<Rightarrow> decision" where
  "set_health state code reason d = d\<lparr>Health := state, HealthReasonCode := code, HealthReason := reason\<rparr>"

definition settleHealth :: "string \<Rightarrow> bool \<Rightarrow> decision \<Rightarrow> decision" where
  "settleHealth current fresh d =
     (if Health d = StateHealthy \<and> (PlacementSamples d < MinPlacementSamples \<or> \<not> fresh)
      then (if stateRank StateHealthy < stateRank current
            then set_health current ''insufficient_evidence_to_recover'' ''not enough fresh placement evidence to recover'' d
            else set_health StateUnknown ''placement_sample_insufficient'' ''not enough fresh placement evidence'' d)
      else if stateRank (Health d) < stateRank current
      then set_health (stateAtRank (stateRank current - 1)) ''recovery_step'' ''clean qualified window: recovering one state'' d
      else if HealthReasonCode d = ''''
      then (if Health d \<noteq> current
            then set_health (Health d) ''evidence_qualified'' ''qualified placement evidence establishes health'' d
            else set_health (Health d) ''health_unchanged'' ''health is unchanged; this transition moves the pool lane'' d)
      else d)"

definition evaluateHealth :: "signals \<Rightarrow> decision" where
  "evaluateHealth s =
     settleHealth (normalizeState (CurrentHealth s)) (EvidenceFresh s) (applyBands (measured s))"

definition HoldRecoveryDuringBlock :: "decision \<Rightarrow> string \<Rightarrow> instant \<Rightarrow> instant \<Rightarrow> decision" where
  "HoldRecoveryDuringBlock d fromHealth pausedUntil now =
     (if \<not> IsRecovery fromHealth (Health d) \<or> \<not> now < pausedUntil then d
      else
        let d' = d\<lparr>Health := normalizeState fromHealth\<rparr>
        in if HealthReasonCode d' = ''recovery_step'' \<or> HealthReasonCode d' = ''evidence_qualified''
           then d'\<lparr>HealthReasonCode := ''recovery_blocked_by_dwell'',
                    HealthReason := ''recovery held: the timed block has not elapsed''\<rparr>
           else d')"

subsection \<open>Lanes\<close>

definition holdsForEvidenceGrace :: "signals \<Rightarrow> decision \<Rightarrow> instant \<Rightarrow> bool" where
  "holdsForEvidenceGrace s d now \<longleftrightarrow>
     (if promotionAlarmed s then False
      else if Health d \<noteq> StateUnknown then False
      else if normalizeState (CurrentHealth s) \<noteq> StateUnknown then True
      else if is_zero_time (EvidenceLapsedSince s) then False
      else time_sub now (EvidenceLapsedSince s) < LaneEvidenceGrace)"

definition qualifies :: "signals \<Rightarrow> decision \<Rightarrow> bool" where
  "qualifies s d \<longleftrightarrow>
     Health d = StateHealthy \<and> EvidenceFresh s \<and> MinPlacementSamples \<le> PlacementSamples d
   \<and> \<not> promotionAlarmed s"

definition healthyLane :: "signals \<Rightarrow> decision \<Rightarrow> instant \<Rightarrow> string \<times> string \<times> string" where
  "healthyLane s d now =
     (if Health d = StateWatch then (LaneWatch, ''lane_watch'', ''moved to watch: '' @ HealthReason d)
      else if \<not> qualifies s d then
        (if holdsForEvidenceGrace s d now
         then (LaneHealthy, ''lane_evidence_grace'',
               ''evidence lapsed recently: holding the healthy lane until the grace period elapses'')
         else (LaneProbation, ''lane_evidence_lapsed'', ''no fresh qualified evidence: returned to probation''))
      else (LaneHealthy, ''lane_healthy'', ''qualified clean evidence''))"

definition evaluateLane :: "signals \<Rightarrow> decision \<Rightarrow> instant \<Rightarrow> string \<times> string \<times> string" where
  "evaluateLane s d now =
     (let cur = normalizeLane (CurrentLane s) in
      if cur = LaneBlocked
      then (LaneBlocked, ''lane_blocked_held'', ''blocked: operator approval required to re-enter recovery'')
      else if cur = LaneQuarantine \<and> \<not> AuthPassing s
      then (LaneQuarantine, ''lane_quarantine_held'', ''quarantined; domain authentication is also failing'')
      else if \<not> AuthPassing s
      then (if cur = LanePendingAuth
            then (LanePendingAuth, ''lane_pending_auth'', ''domain authentication has not passed'')
            else (LanePendingAuth, ''lane_auth_regressed'', ''domain authentication no longer passes''))
      else if stateRank StateThrottled \<le> stateRank (Health d)
      then (if cur = LaneQuarantine
            then (LaneQuarantine, ''lane_quarantine_held'', ''quarantined: '' @ HealthReason d)
            else (LaneQuarantine, ''lane_quarantined'', ''quarantined: '' @ HealthReason d))
      else if cur = LanePendingAuth
      then (if \<not> is_zero_time (QuarantinedSince s) \<and> time_sub now (QuarantinedSince s) < QuarantineCooldown
            then (LaneQuarantine, ''lane_quarantine_resumed'',
                  ''domain authentication passed, but the quarantine cooldown has not elapsed'')
            else (LaneProbation, ''lane_admitted_to_probation'', ''domain authentication passed: entering probation''))
      else if cur = LaneQuarantine
      then (if is_zero_time (QuarantinedSince s) \<or> time_sub now (QuarantinedSince s) < QuarantineCooldown
            then (LaneQuarantine, ''lane_cooldown_active'', ''quarantine cooldown has not elapsed'')
            else (LaneRecovery, ''lane_cooldown_elapsed'',
                  ''quarantine cooldown elapsed: entering recovery to requalify''))
      else if cur = LaneProbation \<or> cur = LaneRecovery
      then (if qualifies s d
            then (LaneHealthy, ''lane_qualified'', ''qualified clean window: promoted to the healthy pool'')
            else (cur, ''lane_awaiting_evidence'', ''awaiting a qualified clean window''))
      else if cur = LaneWatch
      then (if qualifies s d
            then (LaneHealthy, ''lane_recovered'', ''clean qualified evidence: returned to the healthy pool'')
            else (LaneWatch, ''lane_watch_held'', ''held on watch pending clean evidence''))
      else healthyLane s d now)"

definition EvaluateParticipant :: "signals \<Rightarrow> instant \<Rightarrow> decision" where
  "EvaluateParticipant s now =
     (let d = HoldRecoveryDuringBlock (evaluateHealth s) (CurrentHealth s) (PausedUntil s) now;
          (lane, code, reason) = evaluateLane s d now
      in d\<lparr>Lane := lane, LaneReasonCode := code, LaneReason := reason\<rparr>)"

definition ShouldApplyTransition :: "string \<Rightarrow> string \<Rightarrow> string \<Rightarrow> string \<Rightarrow> bool" where
  "ShouldApplyTransition fromHealth toHealth fromLane toLane \<longleftrightarrow>
     fromHealth \<noteq> toHealth \<or> normalizeLane fromLane \<noteq> normalizeLane toLane"

subsection \<open>What a lane may do\<close>

definition LaneDailyVolume :: "string \<Rightarrow> int \<Rightarrow> int" where
  "LaneDailyVolume lane rampTarget =
     (let l = normalizeLane lane in
      if l = LaneHealthy \<or> l = LaneWatch then rampTarget
      else if l = LaneProbation \<or> l = LaneRecovery
      then (if rampTarget < ProbationDailyVolume then rampTarget else ProbationDailyVolume)
      else 0)"

definition LaneMaySend :: "string \<Rightarrow> bool" where
  "LaneMaySend lane \<longleftrightarrow> normalizeLane lane \<in> {LaneHealthy, LaneWatch, LaneProbation, LaneRecovery}"

definition LaneMayTakeNewLead :: "string \<Rightarrow> bool" where
  "LaneMayTakeNewLead lane \<longleftrightarrow> normalizeLane lane \<notin> {LaneQuarantine, LaneBlocked, LanePendingAuth}"

definition laneWithholdsNewLeads :: "string \<Rightarrow> bool" where
  "laneWithholdsNewLeads lane \<longleftrightarrow>
     (if lane = '''' \<or> lane = LanePendingAuth then False else \<not> LaneMayTakeNewLead lane)"

definition NewLeadsWithheld :: "string \<Rightarrow> string \<Rightarrow> bool" where
  "NewLeadsWithheld mailboxLane domainLane \<longleftrightarrow>
     laneWithholdsNewLeads mailboxLane \<or> laneWithholdsNewLeads domainLane"

definition LanesCompatible :: "string \<Rightarrow> string \<Rightarrow> bool" where
  "LanesCompatible sender recipient \<longleftrightarrow>
     (let s = normalizeLane sender; r = normalizeLane recipient in LaneMaySend s \<and> LaneMaySend r \<and> s = r)"

definition RiskBandHealthy :: string where [const_defs]: "RiskBandHealthy = ''healthy''"
definition RiskBandDegraded :: string where [const_defs]: "RiskBandDegraded = ''degraded''"

definition RiskBandForLane :: "string \<Rightarrow> string" where
  "RiskBandForLane lane = (if lane = '''' \<or> lane = LaneHealthy then RiskBandHealthy else RiskBandDegraded)"

definition IncidentDegraded :: "string \<Rightarrow> string \<Rightarrow> bool" where
  "IncidentDegraded healthState lane \<longleftrightarrow>
     healthState \<in> {StateWatch, StateThrottled, StatePaused}
   \<or> lane \<in> {LaneQuarantine, LaneRecovery, LaneBlocked}"

subsection \<open>Leases\<close>

record lease =
  IssuedLane :: string
  IssuedPolicyVersion :: string
  ExpiresAt :: instant

definition LeaseOK :: string where [const_defs]: "LeaseOK = ''''"
definition LeaseExpired :: string where [const_defs]: "LeaseExpired = ''lease_expired''"
definition LeaseLaneChanged :: string where [const_defs]: "LeaseLaneChanged = ''lease_lane_changed''"
definition LeasePolicyChanged :: string where [const_defs]: "LeasePolicyChanged = ''lease_policy_changed''"

definition IssueLease :: "string \<Rightarrow> instant \<Rightarrow> lease" where
  "IssueLease currentLane now =
     \<lparr>IssuedLane = normalizeLane currentLane, IssuedPolicyVersion = PolicyVersion,
      ExpiresAt = now + LeaseLifetime\<rparr>"

definition LeaseValid :: "lease \<Rightarrow> string \<Rightarrow> instant \<Rightarrow> bool \<times> string" where
  "LeaseValid l currentLane now =
     (if IssuedLane l = '''' then (True, LeaseOK)
      else if \<not> now < ExpiresAt l then (False, LeaseExpired)
      else if IssuedLane l \<noteq> normalizeLane currentLane then (False, LeaseLaneChanged)
      else if IssuedPolicyVersion l \<noteq> PolicyVersion then (False, LeasePolicyChanged)
      else (True, LeaseOK))"

end
