(* ===== verification/Warmup_Sweep.thy ===== *)
theory Warmup_Sweep
  imports Warmup_Policy Sql_Table Sequence_Graph
begin

text \<open>
  The sweep that applies the reputation policy (\<open>EvaluateWarmupHealth\<close> and
  \<open>evaluateWorkspaceParticipants\<close> in \<open>internal/coreapi/inprocess/warmupreceiptjob.go\<close>) over the tables
  it reads and writes: the participants, the append-only trail of transitions, the materialized
  signals and the sending domains, with the statements of
  \<open>internal/platform/db/queries/warmup.sql\<close>, and the two that put a mailbox into the pool and take
  it out.

  The trail is a list, newest row first. Of a transition row the axes, the reason codes and the
  time are kept; the sample sizes and rates recorded beside them are left out, as are ramp columns
  of a participant. The refresh of the signals is outside (its rows are arbitrary), its failure is
  not. \<open>now\<close> is the database clock, \<open>clock\<close> the application's.
\<close>

subsection \<open>Rows\<close>

record pool_mailbox =
  pm_id :: uuid
  pm_ws :: uuid
  pm_email :: string
  pm_active :: bool

record participant =
  wp_mailbox :: uuid
  wp_ws :: uuid
  wp_enabled :: bool
  wp_health :: string
  wp_health_reason :: string
  wp_lane :: string
  wp_lane_reason :: string
  wp_paused_until :: "instant option"

record snapshot =
  sn_mailbox :: uuid
  sn_ws :: uuid
  newest_evidence_at :: "instant option"
  placement_inbox :: int
  placement_spam :: int
  campaign_delivered :: int
  campaign_hard_bounces :: int
  campaign_asserted_hard_bounces :: int
  campaign_complaints :: int
  warmup_delivered :: int
  warmup_hard_bounces :: int
  observer_token_failures :: int

record transition =
  wt_ws :: uuid
  wt_mailbox :: uuid
  wt_address :: string
  wt_from_state :: string
  wt_to_state :: string
  wt_reason_code :: string
  wt_from_lane :: string
  wt_to_lane :: string
  wt_lane_reason_code :: string
  wt_created_at :: instant

record pool =
  pool_mailboxes :: "pool_mailbox list"
  pool_participants :: "participant list"
  pool_snapshots :: "snapshot list"
  pool_passing :: "(uuid \<times> string) list"
  pool_trail :: "transition list"

subsection \<open>Addresses\<close>

definition lower_char :: "char \<Rightarrow> char" where
  "lower_char c = (if 65 \<le> (of_char c :: nat) \<and> (of_char c :: nat) \<le> 90 then char_of (of_char c + 32 :: nat) else c)"

definition lower :: "string \<Rightarrow> string" where "lower = map lower_char"

definition btrim :: "string \<Rightarrow> string" where
  "btrim s = rev (dropWhile (\<lambda>c. c = CHR '' '') (rev (dropWhile (\<lambda>c. c = CHR '' '') s)))"

text \<open>The identity a trail row is read back under, and the sending domain of an address.\<close>

definition address_of :: "pool_mailbox \<Rightarrow> string" where "address_of m = lower (btrim (pm_email m))"

definition domain_of :: "pool_mailbox \<Rightarrow> string" where
  "domain_of m = lower (takeWhile (\<lambda>c. c \<noteq> CHR ''@'') (drop 1 (dropWhile (\<lambda>c. c \<noteq> CHR ''@'') (pm_email m))))"

definition mailbox_row :: "uuid \<Rightarrow> uuid \<Rightarrow> pool \<Rightarrow> pool_mailbox option" where
  "mailbox_row ws i db = select_one (\<lambda>m. pm_id m = i \<and> pm_ws m = ws) (pool_mailboxes db)"

subsection \<open>What the trail says of an address\<close>

definition address_trail :: "uuid \<Rightarrow> string \<Rightarrow> transition list \<Rightarrow> transition list" where
  "address_trail ws a trail = filter (\<lambda>t. wt_ws t = ws \<and> wt_address t = a) trail"

definition max_time :: "transition list \<Rightarrow> instant option" where
  "max_time ts = (if ts = [] then None else Some (fold max (map wt_created_at ts) (wt_created_at (hd ts))))"

definition quarantined_since :: "uuid \<Rightarrow> string \<Rightarrow> transition list \<Rightarrow> instant option" where
  "quarantined_since ws a trail =
     max_time (filter (\<lambda>t. wt_to_lane t = LaneQuarantine \<and> wt_from_lane t \<noteq> LaneQuarantine) (address_trail ws a trail))"

definition evidence_lapsed_since :: "uuid \<Rightarrow> string \<Rightarrow> transition list \<Rightarrow> instant option" where
  "evidence_lapsed_since ws a trail =
     max_time (filter (\<lambda>t. wt_to_state t = StateUnknown \<and> wt_from_state t \<noteq> StateUnknown) (address_trail ws a trail))"

text \<open>The lane a re-entering address starts in: a seal the trail ends with is restored.\<close>

definition entry_lane :: "uuid \<Rightarrow> string \<Rightarrow> transition list \<Rightarrow> string" where
  "entry_lane ws a trail =
     (case address_trail ws a trail of
        [] \<Rightarrow> LaneProbation
      | t # _ \<Rightarrow> if wt_to_lane t = LaneQuarantine \<or> wt_to_lane t = LaneBlocked then wt_to_lane t else LaneProbation)"

subsection \<open>Entering and leaving the pool\<close>

definition UpsertWarmupParticipant :: "uuid \<Rightarrow> uuid \<Rightarrow> pool \<Rightarrow> pool option" where
  "UpsertWarmupParticipant ws i db =
     (case mailbox_row ws i db of
        None \<Rightarrow> None
      | Some m \<Rightarrow>
          (case select_one (\<lambda>p. wp_mailbox p = i) (pool_participants db) of
             Some p \<Rightarrow>
               if wp_ws p = ws
               then Some (db\<lparr>pool_participants :=
                      update_where (\<lambda>p. wp_mailbox p = i) (\<lambda>p. p\<lparr>wp_enabled := True\<rparr>) (pool_participants db)\<rparr>)
               else None
           | None \<Rightarrow>
               Some (db\<lparr>pool_participants := pool_participants db @
                 [\<lparr>wp_mailbox = i, wp_ws = ws, wp_enabled = True, wp_health = StateUnknown, wp_health_reason = '''',
                   wp_lane = entry_lane ws (address_of m) (pool_trail db), wp_lane_reason = '''',
                   wp_paused_until = None\<rparr>]\<rparr>)))"

definition DisableWarmupParticipant :: "uuid \<Rightarrow> uuid \<Rightarrow> pool \<Rightarrow> pool" where
  "DisableWarmupParticipant ws i db =
     db\<lparr>pool_participants := filter (\<lambda>p. \<not> (wp_mailbox p = i \<and> wp_ws p = ws)) (pool_participants db)\<rparr>"

subsection \<open>Reading the evidence\<close>

record evaluation_row =
  er_mailbox :: uuid
  er_ws :: uuid
  er_health :: string
  er_lane :: string
  er_signals :: signals

definition time_of :: "instant option \<Rightarrow> instant" where
  "time_of t = (case t of None \<Rightarrow> 0 | Some u \<Rightarrow> u)"

definition evaluation_row_of :: "instant \<Rightarrow> duration \<Rightarrow> pool \<Rightarrow> participant \<Rightarrow> pool_mailbox \<Rightarrow> evaluation_row" where
  "evaluation_row_of now ttl db p m =
     (let s = select_one (\<lambda>s. sn_mailbox s = wp_mailbox p \<and> sn_ws s = wp_ws p) (pool_snapshots db);
          cnt = (\<lambda>f. case s of None \<Rightarrow> 0 | Some s \<Rightarrow> f s)
      in \<lparr>er_mailbox = wp_mailbox p, er_ws = wp_ws p, er_health = wp_health p, er_lane = wp_lane p,
          er_signals =
            \<lparr>CurrentHealth = wp_health p, CurrentLane = wp_lane p,
             AuthPassing = ((wp_ws p, domain_of m) \<in> set (pool_passing db) \<and> pm_active m),
             EvidenceFresh = (case s of None \<Rightarrow> False | Some s \<Rightarrow>
                (case newest_evidence_at s of None \<Rightarrow> False | Some t \<Rightarrow> now - ttl \<le> t)),
             EvidenceLapsedSince = time_of (evidence_lapsed_since (wp_ws p) (address_of m) (pool_trail db)),
             Inbox = cnt placement_inbox, Spam = cnt placement_spam,
             CampaignDelivered = cnt campaign_delivered, CampaignHardBounces = cnt campaign_hard_bounces,
             CampaignAssertedHardBounces = cnt campaign_asserted_hard_bounces,
             CampaignComplaints = cnt campaign_complaints,
             WarmupDelivered = cnt warmup_delivered, WarmupHardBounces = cnt warmup_hard_bounces,
             ObserverTokenFailures = cnt observer_token_failures,
             QuarantinedSince = time_of (quarantined_since (wp_ws p) (address_of m) (pool_trail db)),
             PausedUntil = time_of (wp_paused_until p)\<rparr>\<rparr>)"

definition ListWarmupEvaluationRows :: "instant \<Rightarrow> uuid \<Rightarrow> duration \<Rightarrow> pool \<Rightarrow> evaluation_row list" where
  "ListWarmupEvaluationRows now ws ttl db =
     List.map_filter (\<lambda>p. map_option (evaluation_row_of now ttl db p) (mailbox_row (wp_ws p) (wp_mailbox p) db))
       (sort_key wp_mailbox (filter (\<lambda>p. wp_ws p = ws \<and> wp_enabled p) (pool_participants db)))"

subsection \<open>Applying a decision\<close>

definition transition_legal :: "transition \<Rightarrow> bool" where
  "transition_legal t \<longleftrightarrow>
     wt_from_state t \<in> {StateUnknown, StateHealthy, StateWatch, StateThrottled, StatePaused}
   \<and> wt_to_state t \<in> {StateUnknown, StateHealthy, StateWatch, StateThrottled, StatePaused}
   \<and> btrim (wt_reason_code t) \<noteq> ''''"

text \<open>One statement: the guarded update of the participant and the row that records it, or neither.
  A row the checks of the table reject fails the statement.\<close>

definition ApplyWarmupParticipantTransition ::
  "instant \<Rightarrow> uuid \<Rightarrow> uuid \<Rightarrow> string \<Rightarrow> string \<Rightarrow> string \<Rightarrow> string \<Rightarrow> decision \<Rightarrow> instant option \<Rightarrow> pool
     \<Rightarrow> string + pool" where
  "ApplyWarmupParticipantTransition now i ws fromState toState fromLane toLane d pausedUntil db =
     (case select_one (\<lambda>p. wp_mailbox p = i \<and> wp_ws p = ws \<and> wp_health p = fromState \<and> wp_lane p = fromLane)
             (pool_participants db) of
        None \<Rightarrow> Inr db
      | Some p \<Rightarrow>
          (case mailbox_row ws i db of
             None \<Rightarrow> Inr db
           | Some m \<Rightarrow>
               let t = \<lparr>wt_ws = ws, wt_mailbox = i, wt_address = address_of m,
                        wt_from_state = fromState, wt_to_state = toState, wt_reason_code = HealthReasonCode d,
                        wt_from_lane = fromLane, wt_to_lane = toLane, wt_lane_reason_code = LaneReasonCode d,
                        wt_created_at = now\<rparr>
               in if transition_legal t
                  then Inr (db\<lparr>pool_participants :=
                         update_where (\<lambda>p. wp_mailbox p = i \<and> wp_ws p = ws \<and> wp_health p = fromState \<and> wp_lane p = fromLane)
                           (\<lambda>p. p\<lparr>wp_health := toState, wp_health_reason := HealthReason d, wp_lane := toLane,
                                  wp_lane_reason := LaneReason d, wp_paused_until := pausedUntil\<rparr>)
                           (pool_participants db),
                       pool_trail := t # pool_trail db\<rparr>)
                  else Inl ''check constraint''))"

definition warmupPausedUntil :: "string \<Rightarrow> instant \<Rightarrow> instant option" where
  "warmupPausedUntil state now =
     (if state = StatePaused then Some (now + 72 * hour)
      else if state = StateThrottled then Some (now + 24 * hour) else None)"

definition warmupEvidenceTTL :: duration where "warmupEvidenceTTL = 96 * hour"

text \<open>\<open>fail\<close> says which of the statements fail for reasons of their own.\<close>

definition evaluateParticipantRow ::
  "(uuid \<Rightarrow> string option) \<Rightarrow> instant \<Rightarrow> instant \<Rightarrow> evaluation_row \<Rightarrow> pool \<Rightarrow> string list \<times> pool" where
  "evaluateParticipantRow fail clock now r db =
     (let d = EvaluateParticipant (er_signals r) clock
      in if \<not> ShouldApplyTransition (er_health r) (Health d) (er_lane r) (Lane d) then ([], db)
         else
           case (case fail (er_mailbox r) of
                   Some e \<Rightarrow> Inl e
                 | None \<Rightarrow> ApplyWarmupParticipantTransition now (er_mailbox r) (er_ws r) (er_health r) (Health d)
                             (er_lane r) (Lane d) d (warmupPausedUntil (Health d) clock) db) of
             Inl e \<Rightarrow> ([e], db)
           | Inr db' \<Rightarrow> ([], db'))"

fun evaluateRows ::
  "(uuid \<Rightarrow> string option) \<Rightarrow> instant \<Rightarrow> instant \<Rightarrow> evaluation_row list \<Rightarrow> pool \<Rightarrow> string list \<times> pool" where
  "evaluateRows fail clock now [] db = ([], db)"
| "evaluateRows fail clock now (r # rs) db =
     (case evaluateParticipantRow fail clock now r db of
        (es, db') \<Rightarrow> (case evaluateRows fail clock now rs db' of (es', db'') \<Rightarrow> (es @ es', db'')))"

definition evaluateWorkspaceParticipants ::
  "(uuid \<Rightarrow> string option) \<Rightarrow> string option \<Rightarrow> instant \<Rightarrow> instant \<Rightarrow> uuid \<Rightarrow> pool \<Rightarrow> string list \<times> pool" where
  "evaluateWorkspaceParticipants fail listFail clock now ws db =
     (case listFail of
        Some e \<Rightarrow> ([e], db)
      | None \<Rightarrow> evaluateRows fail clock now (ListWarmupEvaluationRows now ws warmupEvidenceTTL db) db)"

text \<open>A workspace as the sweep finds it: whether the refresh of its signals fails, the rows the refresh
  leaves, whether the list fails, and which transitions fail.\<close>

record workspace_run =
  run_ws :: uuid
  refresh_fail :: "string option"
  refreshed :: "snapshot list"
  list_fail :: "string option"
  apply_fail :: "uuid \<Rightarrow> string option"

fun EvaluateWarmupHealth :: "instant \<Rightarrow> instant \<Rightarrow> workspace_run list \<Rightarrow> pool \<Rightarrow> string list \<times> pool" where
  "EvaluateWarmupHealth clock now [] db = ([], db)"
| "EvaluateWarmupHealth clock now (w # ws) db =
     (case (case refresh_fail w of
              Some e \<Rightarrow> ([e], db)
            | None \<Rightarrow>
                evaluateWorkspaceParticipants (apply_fail w) (list_fail w) clock now (run_ws w)
                  (db\<lparr>pool_snapshots := refreshed w\<rparr>)) of
        (es, db') \<Rightarrow> (case EvaluateWarmupHealth clock now ws db' of (es', db'') \<Rightarrow> (es @ es', db'')))"

end
