(* ===== verification/Policy_Facts.thy ===== *)
theory Policy_Facts
  imports Warmup_Policy
begin

text \<open>
  What the reputation policy guarantees: rates are proportions and never speak below their minimum
  sample, health recovers one step at a time and never from the absence of evidence, reported
  bounces do not contain, the lane a mailbox may be moved to, and what a lease still allows.
\<close>

subsection \<open>Rates\<close>

lemma f_one [simp]: "fval (f_int 1) = 1" and f_zero [simp]: "fval (f_int 0) = 0"
  by (simp_all add: f_int_exact)

lemma wilson_upper:
  assumes "0 < s" and "s < t"
  shows "fval (wilson_ratio (f_int t) (f_div (f_int s) (f_int t))) \<le> 1"
proof -
  define n where "n = f_int t"
  define p where "p = f_div (f_int s) n"
  have n: "0 < fval n" "fits53 n" using assms by (simp_all add: n_def f_int_pos)
  have one: "fits53 (f_int 1)" by simp
  have z2: "0 < fval wilson_z2" by (simp add: wilson_z2_def f_lit_pos)
  have z: "0 < fval wilson_z" by (simp add: wilson_z_def f_lit_pos)
  have p: "0 < fval p" "fval p \<le> 1"
  proof -
    show "0 < fval p" using assms n by (simp add: p_def f_div_pos f_int_pos)
    have "fval (f_int s) / fval n \<le> fval (f_int 1)"
      using assms n f_int_mono [of s t] by (simp add: n_def)
    then show "fval p \<le> 1" using f_div_le [OF one, of n "f_int s"] n by (simp add: p_def)
  qed
  define A where "A = f_div wilson_z2 (f_mul (f_int 2) n)"
  define B where "B = f_div wilson_z2 n"
  have n2: "fval n \<le> fval (f_mul (f_int 2) n)"
    using n by (intro f_mul_ge) (simp_all add: f_int_exact)
  have B: "0 < fval B" using z2 n by (simp add: B_def f_div_pos)
  have A: "0 < fval A" using z2 n n2 by (simp add: A_def f_div_pos)
  have AB: "fval A \<le> fval B"
    unfolding A_def B_def using z2 n n2 by (intro f_div_mono divide_left_mono) auto
  have center: "fval (wilson_center n p) \<le> fval (f_add (f_int 1) B)"
    unfolding wilson_center_def A_def [symmetric] using A B AB p by (intro f_add_mono) auto
  have margin: "0 \<le> fval (wilson_margin n p)"
    unfolding wilson_margin_def using z by (intro f_mul_nonneg f_sqrt_nonneg) auto
  have "fval (f_sub (wilson_center n p) (wilson_margin n p)) \<le> fval (wilson_center n p)"
    using margin by (intro f_sub_le) (simp_all add: wilson_center_def)
  with center have "fval (f_sub (wilson_center n p) (wilson_margin n p)) \<le> fval (f_add (f_int 1) B)" by linarith
  moreover have D: "0 < fval (f_add (f_int 1) B)"
    using f_add_ge [OF one, of "f_int 1" B] B by simp
  ultimately have "fval (f_sub (wilson_center n p) (wilson_margin n p)) / fval (f_add (f_int 1) B) \<le> fval (f_int 1)"
    by (simp add: pos_divide_le_eq)
  then have "fval (wilson_ratio n p) \<le> fval (f_int 1)"
    unfolding wilson_ratio_def B_def [symmetric] using D by (intro f_div_le [OF one]) auto
  then show ?thesis by (simp add: n_def p_def)
qed

text \<open>Every rate the policy judges and records is a proportion, and a sample below its minimum
  reads as zero.\<close>

theorem rate_unit:
  "0 \<le> fval (qualifiedRate successes trials minSamples)
    \<and> fval (qualifiedRate successes trials minSamples) \<le> 1
    \<and> (trials < minSamples \<longrightarrow> fval (qualifiedRate successes trials minSamples) = 0)"
  using wilson_upper [of successes trials]
  by (auto simp: qualifiedRate_def wilsonLowerBound_def floor_zero_def f_less_iff)

subsection \<open>Ranks\<close>

lemma states_distinct [simp]:
  "StateHealthy \<noteq> StateUnknown" "StateHealthy \<noteq> StateWatch" "StateHealthy \<noteq> StateThrottled" "StateHealthy \<noteq> StatePaused"
  "StateUnknown \<noteq> StateHealthy" "StateUnknown \<noteq> StateWatch" "StateUnknown \<noteq> StateThrottled" "StateUnknown \<noteq> StatePaused"
  "StateWatch \<noteq> StateHealthy" "StateWatch \<noteq> StateUnknown" "StateWatch \<noteq> StateThrottled" "StateWatch \<noteq> StatePaused"
  "StateThrottled \<noteq> StateHealthy" "StateThrottled \<noteq> StateUnknown" "StateThrottled \<noteq> StateWatch" "StateThrottled \<noteq> StatePaused"
  "StatePaused \<noteq> StateHealthy" "StatePaused \<noteq> StateUnknown" "StatePaused \<noteq> StateWatch" "StatePaused \<noteq> StateThrottled"
  by (simp_all add: const_defs)

lemma stateRank_simps [simp]:
  "stateRank StateHealthy = 0" "stateRank StateUnknown = 0" "stateRank StateWatch = 1"
  "stateRank StateThrottled = 2" "stateRank StatePaused = 3"
  by (simp_all add: stateRank_def)

lemma stateRank_range: "0 \<le> stateRank h \<and> stateRank h \<le> 3"
  by (simp add: stateRank_def)

lemma rank_at_rank: "0 \<le> r \<Longrightarrow> r \<le> 3 \<Longrightarrow> stateRank (stateAtRank r) = r"
  by (auto simp: stateAtRank_def)

lemma rank_normalize [simp]: "stateRank (normalizeState h) = stateRank h"
  using stateRank_range [of h] by (simp add: normalizeState_def rank_at_rank)

lemma rank_zero_healthy: "stateAtRank r = StateHealthy \<longleftrightarrow> r \<notin> {1, 2, 3}"
  by (simp add: stateAtRank_def)

text \<open>The rank a rate warrants by itself, and the worst of the five.\<close>

definition band_rank :: "float64 \<Rightarrow> bands \<Rightarrow> int" where
  "band_rank rate b =
     (if f_less (pause_rate b) rate then 3 else if f_less (throttle_rate b) rate then 2
      else if f_less (watch_rate b) rate then 1 else 0)"

definition contained_rank :: "signals \<Rightarrow> int" where
  "contained_rank s =
     max (max (band_rank (SpamRate (measured s)) spam_bands)
              (band_rank (CampaignBounceRate (measured s)) bounce_bands))
         (max (band_rank (WarmupBounceRate (measured s)) bounce_bands)
              (band_rank (ComplaintRate (measured s)) complaint_bands))"

definition warranted_rank :: "signals \<Rightarrow> int" where
  "warranted_rank s =
     max (contained_rank s) (if f_less bounceWatchRate (AssertedBounceRate (measured s)) then 1 else 0)"

lemma worst_facts [simp]:
  "stateRank (Health (worst st c r d)) = max (stateRank (Health d)) (stateRank st)"
  "PlacementSamples (worst st c r d) = PlacementSamples d"
  "AssertedBounceRate (worst st c r d) = AssertedBounceRate d"
  by (simp_all add: worst_def max_def)

lemma applyBand_facts [simp]:
  "stateRank (Health (applyBand rate b c l d)) = max (stateRank (Health d)) (band_rank rate b)"
  "PlacementSamples (applyBand rate b c l d) = PlacementSamples d"
  "AssertedBounceRate (applyBand rate b c l d) = AssertedBounceRate d"
  using stateRank_range [of "Health d"] by (auto simp: applyBand_def band_rank_def)

lemma applyAsserted_facts [simp]:
  "stateRank (Health (applyAsserted d)) =
     max (stateRank (Health d)) (if f_less bounceWatchRate (AssertedBounceRate d) then 1 else 0)"
  "PlacementSamples (applyAsserted d) = PlacementSamples d"
  using stateRank_range [of "Health d"] by (simp_all add: applyAsserted_def)

lemma measured_health [simp]: "Health (measured s) = StateHealthy" "PlacementSamples (measured s) = Inbox s + Spam s"
  by (simp_all add: measured_def)

lemma applyBands_rank: "stateRank (Health (applyBands (measured s))) = warranted_rank s"
proof -
  have nn: "0 \<le> band_rank r b" for r b by (simp add: band_rank_def)
  have five: "max (max (max (max (max 0 a) b) x) c) d = max (max (max a b) (max c d)) x"
    if "0 \<le> a" for a b c d x :: int using that by (simp add: max_def)
  show ?thesis
    by (simp only: applyBands_def Let_def applyBand_facts applyAsserted_facts measured_health stateRank_simps
        warranted_rank_def contained_rank_def five [OF nn])
qed

lemma applyBands_samples [simp]: "PlacementSamples (applyBands d) = PlacementSamples d"
  by (simp add: applyBands_def Let_def)

text \<open>The bands leave only the five named states.\<close>

definition named_state :: "string \<Rightarrow> bool" where
  "named_state h \<longleftrightarrow> h \<in> {StateHealthy, StateWatch, StateThrottled, StatePaused}"

lemma named_worst: "named_state (Health d) \<Longrightarrow> named_state st \<Longrightarrow> named_state (Health (worst st c r d))"
  by (simp add: worst_def)

lemma named_bands: "named_state (Health (applyBands (measured s)))"
proof -
  have st: "named_state StateWatch" "named_state StateThrottled" "named_state StatePaused" "named_state StateHealthy"
    by (simp_all add: named_state_def)
  have band: "named_state (Health d) \<Longrightarrow> named_state (Health (applyBand rate b c l d))" for d rate b c l
    by (simp add: applyBand_def named_worst st)
  have asserted: "named_state (Health d) \<Longrightarrow> named_state (Health (applyAsserted d))" for d
    by (simp add: applyAsserted_def named_worst st)
  show ?thesis by (simp add: applyBands_def Let_def band asserted st)
qed

lemma named_rank_zero: "named_state h \<Longrightarrow> stateRank h = 0 \<longleftrightarrow> h = StateHealthy"
  by (auto simp: named_state_def)

lemma bands_healthy: "Health (applyBands (measured s)) = StateHealthy \<longleftrightarrow> warranted_rank s = 0"
  using named_rank_zero [OF named_bands, of s] applyBands_rank [of s] by auto

lemma warranted_range: "0 \<le> warranted_rank s \<and> warranted_rank s \<le> 3"
  using stateRank_range applyBands_rank by metis

subsection \<open>Health\<close>

definition unproven :: "signals \<Rightarrow> bool" where
  "unproven s \<longleftrightarrow> Inbox s + Spam s < MinPlacementSamples \<or> \<not> EvidenceFresh s"

lemma set_health_simps [simp]:
  "Health (set_health st c r d) = st" "HealthReasonCode (set_health st c r d) = c"
  "HealthReason (set_health st c r d) = r" "PlacementSamples (set_health st c r d) = PlacementSamples d"
  by (simp_all add: set_health_def)

lemma normalize_healthy: "normalizeState h = StateHealthy \<Longrightarrow> stateRank h = 0"
  by (metis rank_normalize stateRank_simps(1))

lemma bands_current:
  "Health (applyBands (measured s)) = normalizeState h \<Longrightarrow> stateRank h = warranted_rank s"
  by (metis applyBands_rank rank_normalize)

lemma settleHealth_health:
  "Health (settleHealth current fresh d) =
     (if Health d = StateHealthy \<and> (PlacementSamples d < MinPlacementSamples \<or> \<not> fresh)
      then (if 0 < stateRank current then current else StateUnknown)
      else if stateRank (Health d) < stateRank current then stateAtRank (stateRank current - 1)
      else Health d)"
  by (auto simp: settleHealth_def)

lemma evaluateHealth_health:
  "Health (evaluateHealth s) =
     (if warranted_rank s = 0 \<and> unproven s
      then (if 0 < stateRank (CurrentHealth s) then normalizeState (CurrentHealth s) else StateUnknown)
      else if warranted_rank s < stateRank (CurrentHealth s) then stateAtRank (stateRank (CurrentHealth s) - 1)
      else Health (applyBands (measured s)))"
  by (auto simp: evaluateHealth_def settleHealth_health bands_healthy applyBands_rank unproven_def)

lemma evaluateHealth_rank:
  "stateRank (Health (evaluateHealth s)) =
     (if stateRank (CurrentHealth s) \<le> warranted_rank s then warranted_rank s
      else if warranted_rank s = 0 \<and> unproven s then stateRank (CurrentHealth s)
      else stateRank (CurrentHealth s) - 1)"
  using stateRank_range [of "CurrentHealth s"] warranted_range [of s]
  by (simp add: evaluateHealth_health applyBands_rank rank_at_rank)

lemma evaluateHealth_healthy:
  assumes "Health (evaluateHealth s) = StateHealthy"
  shows "warranted_rank s = 0 \<and> \<not> unproven s"
proof -
  have "stateRank (Health (evaluateHealth s)) = 0" using assms by simp
  then have w: "warranted_rank s = 0"
    using stateRank_range [of "CurrentHealth s"] warranted_range [of s]
    unfolding evaluateHealth_rank by (simp split: if_splits)
  moreover have "\<not> unproven s"
    using assms w by (auto simp: evaluateHealth_health dest: normalize_healthy split: if_splits)
  ultimately show ?thesis by simp
qed

lemma evaluateHealth_unknown:
  assumes "Health (evaluateHealth s) = StateUnknown"
  shows "unproven s \<and> warranted_rank s = 0 \<and> stateRank (CurrentHealth s) = 0"
proof -
  have r: "stateAtRank r \<noteq> StateUnknown" for r by (simp add: stateAtRank_def)
  have n: "Health (applyBands (measured s)) \<noteq> StateUnknown" using named_bands [of s] by (auto simp: named_state_def)
  have u: "normalizeState h = StateUnknown \<Longrightarrow> stateRank h = 0" for h
    by (metis rank_normalize stateRank_simps(2))
  show ?thesis
    using assms r n u [of "CurrentHealth s"] stateRank_range [of "CurrentHealth s"]
    unfolding evaluateHealth_health by (simp split: if_splits)
qed

lemma participant_health:
  "Health (EvaluateParticipant s now) =
     (if stateRank (Health (evaluateHealth s)) < stateRank (CurrentHealth s) \<and> now < PausedUntil s
      then normalizeState (CurrentHealth s) else Health (evaluateHealth s))"
  by (simp add: EvaluateParticipant_def HoldRecoveryDuringBlock_def IsRecovery_def Let_def split: prod.split)

lemma participant_rank:
  "stateRank (Health (EvaluateParticipant s now)) =
     (if stateRank (CurrentHealth s) \<le> warranted_rank s then warranted_rank s
      else if now < PausedUntil s \<or> (warranted_rank s = 0 \<and> unproven s) then stateRank (CurrentHealth s)
      else stateRank (CurrentHealth s) - 1)"
  by (simp add: participant_health evaluateHealth_rank)

text \<open>Health gets worse at once and recovers one state at a time: the new rank is the warranted
  one when that is no better, the old one while the timed block runs or the evidence is missing, and
  one step better otherwise.\<close>

theorem health_moves:
  "stateRank (Health (EvaluateParticipant s now)) =
     (if stateRank (CurrentHealth s) \<le> warranted_rank s then warranted_rank s
      else if now < PausedUntil s \<or> (warranted_rank s = 0 \<and> unproven s) then stateRank (CurrentHealth s)
      else stateRank (CurrentHealth s) - 1)"
  by (rule participant_rank)

text \<open>A participant reads as healthy only on fresh evidence of at least the minimum number of
  placements, with no rate above its watch threshold; it reads as unknown only for want of that
  evidence, and never out of a degraded state.\<close>

theorem healthy_is_proven:
  "(Health (EvaluateParticipant s now) = StateHealthy \<longrightarrow>
      EvidenceFresh s \<and> MinPlacementSamples \<le> Inbox s + Spam s \<and> warranted_rank s = 0)
   \<and> (Health (EvaluateParticipant s now) = StateUnknown \<longrightarrow>
      (\<not> EvidenceFresh s \<or> Inbox s + Spam s < MinPlacementSamples) \<and> stateRank (CurrentHealth s) = 0)"
proof -
  have held: "normalizeState (CurrentHealth s) \<noteq> StateHealthy \<and> normalizeState (CurrentHealth s) \<noteq> StateUnknown"
    if "stateRank (Health (evaluateHealth s)) < stateRank (CurrentHealth s)"
    using that stateRank_range [of "Health (evaluateHealth s)"]
    by (metis leD normalize_healthy rank_normalize stateRank_simps(2))
  show ?thesis
    using held evaluateHealth_healthy [of s] evaluateHealth_unknown [of s]
    by (auto simp: participant_health unproven_def)
qed

text \<open>Bounces reported by the deliverability feed cannot contain a mailbox: whether the health of a
  mailbox that is not throttled reaches throttled or worse does not depend on them.\<close>

theorem asserted_never_contains:
  assumes "stateRank (CurrentHealth s) < 2"
  shows "2 \<le> stateRank (Health (EvaluateParticipant s now)) \<longleftrightarrow>
    2 \<le> stateRank (Health (EvaluateParticipant (s\<lparr>CampaignAssertedHardBounces := n\<rparr>) now))"
proof -
  let ?s = "s\<lparr>CampaignAssertedHardBounces := n\<rparr>"
  have "contained_rank ?s = contained_rank s" by (simp add: contained_rank_def measured_def)
  then show ?thesis
    using assms stateRank_range [of "CurrentHealth s"] warranted_range [of s] warranted_range [of ?s]
    unfolding participant_rank warranted_rank_def by auto
qed

theorem asserted_never_contains_witness:
  "let s = \<lparr>CurrentHealth = ''healthy'', CurrentLane = ''healthy'', AuthPassing = True, EvidenceFresh = True,
      EvidenceLapsedSince = 0, Inbox = 30, Spam = 0, CampaignDelivered = 60, CampaignHardBounces = 0,
      CampaignAssertedHardBounces = 60, CampaignComplaints = 0, WarmupDelivered = 0, WarmupHardBounces = 0,
      ObserverTokenFailures = 0, QuarantinedSince = 0, PausedUntil = 0\<rparr>
   in 2 \<le> stateRank (Health (EvaluateParticipant s 5)) \<longleftrightarrow>
      2 \<le> stateRank (Health (EvaluateParticipant (s\<lparr>CampaignAssertedHardBounces := 0\<rparr>) 5))"
  unfolding Let_def by (rule asserted_never_contains) (simp add: stateRank_def const_defs)

text \<open>Samples below their minimum neither degrade a mailbox nor heal it.\<close>

theorem thin_evidence_holds:
  assumes "Inbox s + Spam s < MinPlacementSamples" and "CampaignDelivered s < MinBounceSamples"
    and "WarmupDelivered s < MinBounceSamples"
  shows "Health (EvaluateParticipant s now) =
    (if 0 < stateRank (CurrentHealth s) then normalizeState (CurrentHealth s) else StateUnknown)"
proof -
  have c: "CampaignDelivered s < MinComplaintSamples"
    using assms(2) by (simp add: MinBounceSamples_def MinComplaintSamples_def)
  have zero: "\<not> f_less b (f_int 0)" if "0 \<le> fval b" for b using that by (simp add: f_less_iff)
  have lit: "0 \<le> fval (f_lit n d)" if "0 < n" "0 < d" for n d using f_lit_pos [OF that] by simp
  have band: "band_rank (f_int 0) spam_bands = 0" "band_rank (f_int 0) bounce_bands = 0"
    "band_rank (f_int 0) complaint_bands = 0" "\<not> f_less bounceWatchRate (f_int 0)"
    by (simp_all add: band_rank_def spam_bands_def bounce_bands_def complaint_bands_def
        bounceWatchRate_def complaintWatchRate_def zero lit)
  have "warranted_rank s = 0"
    using assms c by (simp add: warranted_rank_def contained_rank_def measured_def qualifiedRate_def band)
  moreover have "unproven s" using assms(1) by (simp add: unproven_def)
  ultimately show ?thesis by (simp add: participant_health evaluateHealth_health)
qed

theorem thin_evidence_holds_witness:
  "let s = \<lparr>CurrentHealth = ''watch'', CurrentLane = ''healthy'', AuthPassing = True, EvidenceFresh = True,
      EvidenceLapsedSince = 0, Inbox = 9, Spam = 10, CampaignDelivered = 49, CampaignHardBounces = 25,
      CampaignAssertedHardBounces = 0, CampaignComplaints = 1, WarmupDelivered = 0, WarmupHardBounces = 0,
      ObserverTokenFailures = 0, QuarantinedSince = 0, PausedUntil = 0\<rparr>
   in Health (EvaluateParticipant s 5) =
    (if 0 < stateRank (CurrentHealth s) then normalizeState (CurrentHealth s) else StateUnknown)"
  unfolding Let_def
  by (rule thin_evidence_holds) (simp_all add: MinPlacementSamples_def MinBounceSamples_def)

subsection \<open>Lanes\<close>

lemma lanes_noteq [simp]:
  "LanePendingAuth \<noteq> LaneProbation" "LanePendingAuth \<noteq> LaneHealthy" "LanePendingAuth \<noteq> LaneWatch"
  "LanePendingAuth \<noteq> LaneRecovery" "LanePendingAuth \<noteq> LaneQuarantine" "LanePendingAuth \<noteq> LaneBlocked"
  "LaneProbation \<noteq> LanePendingAuth" "LaneProbation \<noteq> LaneHealthy" "LaneProbation \<noteq> LaneWatch"
  "LaneProbation \<noteq> LaneRecovery" "LaneProbation \<noteq> LaneQuarantine" "LaneProbation \<noteq> LaneBlocked"
  "LaneHealthy \<noteq> LanePendingAuth" "LaneHealthy \<noteq> LaneProbation" "LaneHealthy \<noteq> LaneWatch"
  "LaneHealthy \<noteq> LaneRecovery" "LaneHealthy \<noteq> LaneQuarantine" "LaneHealthy \<noteq> LaneBlocked"
  "LaneWatch \<noteq> LanePendingAuth" "LaneWatch \<noteq> LaneProbation" "LaneWatch \<noteq> LaneHealthy"
  "LaneWatch \<noteq> LaneRecovery" "LaneWatch \<noteq> LaneQuarantine" "LaneWatch \<noteq> LaneBlocked"
  "LaneRecovery \<noteq> LanePendingAuth" "LaneRecovery \<noteq> LaneProbation" "LaneRecovery \<noteq> LaneHealthy"
  "LaneRecovery \<noteq> LaneWatch" "LaneRecovery \<noteq> LaneQuarantine" "LaneRecovery \<noteq> LaneBlocked"
  "LaneQuarantine \<noteq> LanePendingAuth" "LaneQuarantine \<noteq> LaneProbation" "LaneQuarantine \<noteq> LaneHealthy"
  "LaneQuarantine \<noteq> LaneWatch" "LaneQuarantine \<noteq> LaneRecovery" "LaneQuarantine \<noteq> LaneBlocked"
  "LaneBlocked \<noteq> LanePendingAuth" "LaneBlocked \<noteq> LaneProbation" "LaneBlocked \<noteq> LaneHealthy"
  "LaneBlocked \<noteq> LaneWatch" "LaneBlocked \<noteq> LaneRecovery" "LaneBlocked \<noteq> LaneQuarantine"
  by (simp_all add: const_defs)

lemma normalizeLane_in: "normalizeLane l \<in> set lanes"
  by (simp add: normalizeLane_def) (simp add: lanes_def)

lemma normalizeLane_id [simp]: "normalizeLane (normalizeLane l) = normalizeLane l"
  using normalizeLane_in [of l] by (simp add: normalizeLane_def)

lemma normalizeLane_lane [simp]: "l \<in> set lanes \<Longrightarrow> normalizeLane l = l"
  by (simp add: normalizeLane_def)

lemma named_lanes [simp]:
  "LanePendingAuth \<in> set lanes" "LaneProbation \<in> set lanes" "LaneHealthy \<in> set lanes" "LaneWatch \<in> set lanes"
  "LaneRecovery \<in> set lanes" "LaneQuarantine \<in> set lanes" "LaneBlocked \<in> set lanes"
  by (simp_all add: lanes_def)

lemma normalizeLane_nonempty: "normalizeLane l \<noteq> ''''"
  using normalizeLane_in [of l] by (auto simp: lanes_def const_defs)

lemma lane_cases [case_names pending probation healthy watch recovery quarantine blocked]:
  obtains "normalizeLane l = LanePendingAuth" | "normalizeLane l = LaneProbation" | "normalizeLane l = LaneHealthy"
    | "normalizeLane l = LaneWatch" | "normalizeLane l = LaneRecovery" | "normalizeLane l = LaneQuarantine"
    | "normalizeLane l = LaneBlocked"
  using normalizeLane_in [of l] by (auto simp: lanes_def)

lemma participant_lane:
  "Lane (EvaluateParticipant s now) =
     fst (evaluateLane s (HoldRecoveryDuringBlock (evaluateHealth s) (CurrentHealth s) (PausedUntil s) now) now)"
  "Health (EvaluateParticipant s now) =
     Health (HoldRecoveryDuringBlock (evaluateHealth s) (CurrentHealth s) (PausedUntil s) now)"
  by (simp_all add: EvaluateParticipant_def Let_def split: prod.split)

lemma held_samples [simp]: "PlacementSamples (HoldRecoveryDuringBlock d f p n) = PlacementSamples d"
  by (simp add: HoldRecoveryDuringBlock_def Let_def)

lemma evaluateHealth_samples [simp]: "PlacementSamples (evaluateHealth s) = Inbox s + Spam s"
  by (simp add: evaluateHealth_def settleHealth_def)

text \<open>C14: The policy never moves a mailbox into or out of the blocked lane, seals an authenticated one
  in quarantine on the very evaluation that finds it throttled or worse, and sends one whose
  authentication fails to the pending lane unless it is quarantined or blocked.\<close>

theorem containment_is_prompt:
  "(Lane (EvaluateParticipant s now) = LaneBlocked \<longleftrightarrow> normalizeLane (CurrentLane s) = LaneBlocked)
   \<and> (normalizeLane (CurrentLane s) \<noteq> LaneBlocked \<and> AuthPassing s
        \<and> 2 \<le> stateRank (Health (EvaluateParticipant s now))
      \<longrightarrow> Lane (EvaluateParticipant s now) = LaneQuarantine)
   \<and> (normalizeLane (CurrentLane s) \<notin> {LaneBlocked, LaneQuarantine} \<and> \<not> AuthPassing s
      \<longrightarrow> Lane (EvaluateParticipant s now) = LanePendingAuth)"
  unfolding participant_lane
  by (cases rule: lane_cases [of "CurrentLane s"]) (simp_all add: evaluateLane_def healthyLane_def Let_def)

text \<open>A mailbox with thirty clean placements, used by the witnesses.\<close>

definition sample_signals :: "string \<Rightarrow> string \<Rightarrow> signals" where
  "sample_signals h l =
     \<lparr>CurrentHealth = h, CurrentLane = l, AuthPassing = True, EvidenceFresh = True,
      EvidenceLapsedSince = 0, Inbox = 30, Spam = 0, CampaignDelivered = 60, CampaignHardBounces = 0,
      CampaignAssertedHardBounces = 0, CampaignComplaints = 0, WarmupDelivered = 0, WarmupHardBounces = 0,
      ObserverTokenFailures = 0, QuarantinedSince = 7, PausedUntil = 0\<rparr>"

theorem rate_unit_witness:
  "0 \<le> fval (qualifiedRate 25 49 MinBounceSamples) \<and> fval (qualifiedRate 25 49 MinBounceSamples) \<le> 1
    \<and> fval (qualifiedRate 25 49 MinBounceSamples) = 0"
  using rate_unit [of 25 49 MinBounceSamples] by (simp add: MinBounceSamples_def)

theorem healthy_is_proven_witness:
  "Health (EvaluateParticipant (sample_signals ''watch'' ''watch'') 5) = StateHealthy
    \<and> warranted_rank (sample_signals ''watch'' ''watch'') = 0"
proof -
  have "Health (EvaluateParticipant (sample_signals ''watch'' ''watch'') 5) = StateHealthy" by code_simp
  with healthy_is_proven [of "sample_signals ''watch'' ''watch''" 5] show ?thesis by simp
qed

theorem containment_is_prompt_witness:
  "Lane (EvaluateParticipant (sample_signals ''paused'' ''healthy'') 5) = LaneQuarantine"
proof -
  have "2 \<le> stateRank (Health (EvaluateParticipant (sample_signals ''paused'' ''healthy'') 5))" by code_simp
  moreover have "normalizeLane (CurrentLane (sample_signals ''paused'' ''healthy'')) \<noteq> LaneBlocked" by code_simp
  moreover have "AuthPassing (sample_signals ''paused'' ''healthy'')" by (simp add: sample_signals_def)
  ultimately show ?thesis
    using containment_is_prompt [of "sample_signals ''paused'' ''healthy''" 5] by blast
qed

lemma quarantine_exit:
  assumes "normalizeLane (CurrentLane s) = LaneQuarantine" and "Lane (EvaluateParticipant s now) \<noteq> LaneQuarantine"
  shows "Lane (EvaluateParticipant s now) = LaneRecovery \<and> QuarantinedSince s \<noteq> 0
    \<and> QuarantineCooldown \<le> now - QuarantinedSince s"
proof -
  have cool: "\<not> time_sub now q < QuarantineCooldown \<longleftrightarrow> QuarantineCooldown \<le> now - q" for q
    by (simp add: time_sub_less_iff QuarantineCooldown_def const_defs not_less)
  show ?thesis
    using assms(2) unfolding participant_lane
    by (simp add: evaluateLane_def assms(1) cool Let_def split: if_splits)
qed

text \<open>C13: Only an authenticated mailbox with fresh, sufficient and unalarming evidence is promoted to the
  healthy lane, and only from probation, recovery or watch; out of quarantine the policy leads to
  recovery alone, and only after the cooldown.\<close>

theorem promotion_is_earned:
  "(Lane (EvaluateParticipant s now) = LaneHealthy \<and> normalizeLane (CurrentLane s) \<noteq> LaneHealthy \<longrightarrow>
      normalizeLane (CurrentLane s) \<in> {LaneProbation, LaneRecovery, LaneWatch} \<and> AuthPassing s \<and> EvidenceFresh s
    \<and> MinPlacementSamples \<le> Inbox s + Spam s
    \<and> \<not> alarming (CampaignHardBounces s) (CampaignDelivered s) bounceWatchRate
    \<and> \<not> alarming (CampaignAssertedHardBounces s) (CampaignDelivered s) bounceWatchRate
    \<and> \<not> alarming (WarmupHardBounces s) (WarmupDelivered s) bounceWatchRate
    \<and> \<not> alarming (CampaignComplaints s) (CampaignDelivered s) complaintWatchRate
    \<and> Health (EvaluateParticipant s now) = StateHealthy)
   \<and> (normalizeLane (CurrentLane s) = LaneQuarantine \<and> Lane (EvaluateParticipant s now) \<noteq> LaneQuarantine \<longrightarrow>
      Lane (EvaluateParticipant s now) = LaneRecovery \<and> QuarantinedSince s \<noteq> 0
    \<and> QuarantineCooldown \<le> now - QuarantinedSince s)"
proof (intro conjI impI)
  assume *: "Lane (EvaluateParticipant s now) = LaneHealthy \<and> normalizeLane (CurrentLane s) \<noteq> LaneHealthy"
  show "normalizeLane (CurrentLane s) \<in> {LaneProbation, LaneRecovery, LaneWatch}" "AuthPassing s" "EvidenceFresh s"
    "MinPlacementSamples \<le> Inbox s + Spam s"
    "\<not> alarming (CampaignHardBounces s) (CampaignDelivered s) bounceWatchRate"
    "\<not> alarming (CampaignAssertedHardBounces s) (CampaignDelivered s) bounceWatchRate"
    "\<not> alarming (WarmupHardBounces s) (WarmupDelivered s) bounceWatchRate"
    "\<not> alarming (CampaignComplaints s) (CampaignDelivered s) complaintWatchRate"
    "Health (EvaluateParticipant s now) = StateHealthy"
    using * unfolding participant_lane
    by (cases rule: lane_cases [of "CurrentLane s"];
        simp add: evaluateLane_def healthyLane_def qualifies_def promotionAlarmed_def Let_def
          split: if_splits)+
qed (use quarantine_exit in blast)+

theorem promotion_is_earned_witness:
  "Lane (EvaluateParticipant (sample_signals ''watch'' ''recovery'') 5) = LaneHealthy
    \<and> EvidenceFresh (sample_signals ''watch'' ''recovery'')"
proof -
  have "Lane (EvaluateParticipant (sample_signals ''watch'' ''recovery'') 5) = LaneHealthy" by code_simp
  moreover have "normalizeLane (CurrentLane (sample_signals ''watch'' ''recovery'')) \<noteq> LaneHealthy" by code_simp
  ultimately show ?thesis
    using promotion_is_earned [of "sample_signals ''watch'' ''recovery''" 5] by blast
qed

subsection \<open>Reasons\<close>

lemma worst_reason: "HealthReasonCode d = '''' \<or> HealthReason d \<noteq> '''' \<Longrightarrow> r \<noteq> '''' \<Longrightarrow>
    HealthReasonCode (worst st c r d) = '''' \<or> HealthReason (worst st c r d) \<noteq> ''''"
  by (simp add: worst_def)

lemma applyBands_reason:
  "HealthReasonCode (applyBands (measured s)) = '''' \<or> HealthReason (applyBands (measured s)) \<noteq> ''''"
proof -
  let ?ok = "\<lambda>d. HealthReasonCode d = '''' \<or> HealthReason d \<noteq> ''''"
  have band: "?ok d \<Longrightarrow> ?ok (applyBand rate b c l d)" for d rate b c l
    unfolding applyBand_def using worst_reason [of d] by simp
  have asserted: "?ok d \<Longrightarrow> ?ok (applyAsserted d)" for d
    unfolding applyAsserted_def using worst_reason [of d] by simp
  have "?ok (measured s)" by (simp add: measured_def)
  then show ?thesis unfolding applyBands_def Let_def by (intro band asserted)
qed

lemma evaluateHealth_reason:
  "HealthReasonCode (evaluateHealth s) \<noteq> '''' \<and> HealthReason (evaluateHealth s) \<noteq> ''''"
  using applyBands_reason [of s] by (auto simp: evaluateHealth_def settleHealth_def)

text \<open>Every decision names a reason code and a reason on both axes, so that the row which records a
  transition, and rejects an empty code, can always be written.\<close>

theorem reasons_named:
  "HealthReasonCode (EvaluateParticipant s now) \<noteq> [] \<and> HealthReason (EvaluateParticipant s now) \<noteq> []
   \<and> LaneReasonCode (EvaluateParticipant s now) \<noteq> [] \<and> LaneReason (EvaluateParticipant s now) \<noteq> []"
proof -
  define d where "d = HoldRecoveryDuringBlock (evaluateHealth s) (CurrentHealth s) (PausedUntil s) now"
  have h: "HealthReasonCode d \<noteq> [] \<and> HealthReason d \<noteq> []"
    using evaluateHealth_reason [of s] by (simp add: d_def HoldRecoveryDuringBlock_def Let_def)
  have "fst (snd (evaluateLane s d now)) \<noteq> [] \<and> snd (snd (evaluateLane s d now)) \<noteq> []"
    by (simp add: evaluateLane_def healthyLane_def Let_def)
  with h show ?thesis
    by (cases "evaluateLane s d now") (simp add: EvaluateParticipant_def d_def [symmetric])
qed

subsection \<open>Leases\<close>

text \<open>A lease is good for exactly the time it was issued for, and only while the sender stays in the
  lane it was issued under.\<close>

theorem lease_spec:
  "fst (LeaseValid (IssueLease lane t) current now) \<longleftrightarrow>
     now < t + LeaseLifetime \<and> normalizeLane current = normalizeLane lane"
  using normalizeLane_nonempty [of lane] by (auto simp: LeaseValid_def IssueLease_def)

text \<open>Warmup mail flows only within one sendable lane, so a mailbox in the healthy lane exchanges
  mail with healthy peers only; a lane that may not send has no volume.\<close>

theorem lane_isolation:
  "(LanesCompatible a b \<longleftrightarrow> normalizeLane a = normalizeLane b \<and> LaneMaySend a)
   \<and> (\<not> LaneMaySend a \<longrightarrow> LaneDailyVolume a n = 0)
   \<and> (0 \<le> n \<longrightarrow> 0 \<le> LaneDailyVolume a n \<and> LaneDailyVolume a n \<le> n)
   \<and> (normalizeLane a \<in> {LaneProbation, LaneRecovery} \<longrightarrow> LaneDailyVolume a n \<le> ProbationDailyVolume)"
  by (cases rule: lane_cases [of a])
    (auto simp: LanesCompatible_def LaneMaySend_def LaneDailyVolume_def ProbationDailyVolume_def Let_def)

theorem lane_isolation_witness:
  "\<not> LanesCompatible ''healthy'' ''probation'' \<and> LaneDailyVolume ''quarantine'' 40 = 0
    \<and> LaneDailyVolume ''probation'' 40 \<le> ProbationDailyVolume"
  using lane_isolation [of "''healthy''" "''probation''" 40] lane_isolation [of "''quarantine''" "[]" 40]
    lane_isolation [of "''probation''" "[]" 40]
  by (simp add: LaneMaySend_def normalizeLane_def lanes_def const_defs)

text \<open>With too few placements to judge, a paused mailbox stays paused; the same mailbox with a reported
  bounce rate above the watch threshold is moved one step towards health.\<close>

lemma reported_bounces_release:
  "Health (EvaluateParticipant (sample_signals ''paused'' ''quarantine''\<lparr>Inbox := 0\<rparr>) 5) = StatePaused
   \<and> Health (EvaluateParticipant (sample_signals ''paused'' ''quarantine''
        \<lparr>Inbox := 0, CampaignAssertedHardBounces := 60\<rparr>) 5) = StateThrottled"
  by code_simp

end
