(* ===== verification/Sweep_Facts.thy ===== *)
theory Sweep_Facts
  imports Warmup_Sweep Policy_Facts
begin

text \<open>
  Containment across everything that happens to a pool: sweeps, enabling and disabling warmup,
  deleting a mailbox and adding its address again, changes of authentication and evidence. The
  steps are the rules of \<open>pool_step\<close>; each happens at a later database time than the one before,
  and a sweep decides on an application clock that is not ahead of the database.
\<close>

subsection \<open>Steps\<close>

definition DeleteMailbox :: "uuid \<Rightarrow> uuid \<Rightarrow> pool \<Rightarrow> pool" where
  "DeleteMailbox ws i db =
     db\<lparr>pool_mailboxes := filter (\<lambda>m. \<not> (pm_id m = i \<and> pm_ws m = ws)) (pool_mailboxes db),
        pool_participants := filter (\<lambda>p. \<not> (wp_mailbox p = i \<and> wp_ws p = ws)) (pool_participants db)\<rparr>"

inductive pool_step :: "instant \<times> pool \<Rightarrow> instant \<times> pool \<Rightarrow> bool" where
  enable: "n < n' \<Longrightarrow> UpsertWarmupParticipant ws i db = Some db' \<Longrightarrow> pool_step (n, db) (n', db')"
| disable: "n < n' \<Longrightarrow> pool_step (n, db) (n', DisableWarmupParticipant ws i db)"
| delete: "n < n' \<Longrightarrow> pool_step (n, db) (n', DeleteMailbox ws i db)"
| add: "n < n' \<Longrightarrow> pm_id m \<notin> pm_id ` set (pool_mailboxes db) \<Longrightarrow>
    (pm_ws m, address_of m) \<notin> (\<lambda>m. (pm_ws m, address_of m)) ` set (pool_mailboxes db) \<Longrightarrow>
    pool_step (n, db) (n', db\<lparr>pool_mailboxes := pool_mailboxes db @ [m]\<rparr>)"
| connect: "n < n' \<Longrightarrow> pool_step (n, db)
    (n', db\<lparr>pool_mailboxes := update_where (\<lambda>m. pm_id m = i) (\<lambda>m. m\<lparr>pm_active := b\<rparr>) (pool_mailboxes db),
           pool_passing := doms\<rparr>)"
| sweep: "n < n' \<Longrightarrow> clock \<le> n' \<Longrightarrow> EvaluateWarmupHealth clock n' runs db = (errs, db') \<Longrightarrow>
    pool_step (n, db) (n', db')"

inductive pool_reachable :: "instant \<times> pool \<Rightarrow> bool" where
  start: "0 \<le> n \<Longrightarrow> pool_participants db = [] \<Longrightarrow> pool_mailboxes db = [] \<Longrightarrow> pool_trail db = [] \<Longrightarrow>
    pool_reachable (n, db)"
| step: "pool_reachable s \<Longrightarrow> pool_step s s' \<Longrightarrow> pool_reachable s'"

subsection \<open>The trail\<close>

lemma fold_max_le: "(\<forall>y \<in> set xs. y \<le> b) \<Longrightarrow> x \<le> b \<Longrightarrow> fold max xs x \<le> (b :: int)"
  by (induction xs arbitrary: x) auto

lemma fold_max_in: "fold max xs (x :: int) \<in> insert x (set xs)"
  by (induction xs arbitrary: x) (auto simp: max_def split: if_splits)

lemma max_time_in: "max_time ts = Some u \<Longrightarrow> u \<in> wt_created_at ` set ts"
  using fold_max_in [of "map wt_created_at ts" "wt_created_at (hd ts)"]
  by (auto simp: max_time_def split: if_splits)

lemma max_time_Cons:
  assumes "\<forall>t \<in> set ts. wt_created_at t \<le> wt_created_at u"
  shows "max_time (u # ts) = Some (wt_created_at u)"
proof -
  have "fold max (map wt_created_at ts) (wt_created_at u) \<le> wt_created_at u"
    using assms by (intro fold_max_le) auto
  with fold_max_ge [of "wt_created_at u" "wt_created_at u" "map wt_created_at ts"] show ?thesis by (simp add: max_time_def)
qed

lemma address_trail_Cons:
  "address_trail ws a (t # trail) =
     (if wt_ws t = ws \<and> wt_address t = a then t # address_trail ws a trail else address_trail ws a trail)"
  by (simp add: address_trail_def)

lemma quarantined_since_Cons:
  assumes "\<forall>u \<in> set trail. wt_created_at u \<le> wt_created_at t"
  shows "quarantined_since ws a (t # trail) =
     (if wt_ws t = ws \<and> wt_address t = a \<and> wt_to_lane t = LaneQuarantine \<and> wt_from_lane t \<noteq> LaneQuarantine
      then Some (wt_created_at t) else quarantined_since ws a trail)"
  using assms by (auto simp: quarantined_since_def address_trail_Cons address_trail_def intro!: max_time_Cons)

subsection \<open>The invariant\<close>

definition of_address :: "uuid \<Rightarrow> string \<Rightarrow> pool \<Rightarrow> participant \<Rightarrow> bool" where
  "of_address ws a db p \<longleftrightarrow> wp_ws p = ws \<and>
     (case mailbox_row ws (wp_mailbox p) db of None \<Rightarrow> False | Some m \<Rightarrow> address_of m = a)"

text \<open>While the cooldown of an address runs, its trail ends in quarantine and its participants are in
  it.\<close>

definition sealed :: "instant \<Rightarrow> pool \<Rightarrow> bool" where
  "sealed n db \<longleftrightarrow>
     (\<forall>ws a u. quarantined_since ws a (pool_trail db) = Some u \<and> n < u + QuarantineCooldown \<longrightarrow>
        entry_lane ws a (pool_trail db) = LaneQuarantine
      \<and> (\<forall>p \<in> set (pool_participants db). of_address ws a db p \<longrightarrow> wp_lane p = LaneQuarantine))"

lemma sealedD:
  assumes "sealed n db" "quarantined_since ws a (pool_trail db) = Some u" "n < u + QuarantineCooldown"
  shows sealed_entry: "entry_lane ws a (pool_trail db) = LaneQuarantine"
    and sealed_lane: "p \<in> set (pool_participants db) \<Longrightarrow> of_address ws a db p \<Longrightarrow> wp_lane p = LaneQuarantine"
  using assms by (auto simp: sealed_def)

definition pool_inv :: "instant \<Rightarrow> pool \<Rightarrow> bool" where
  "pool_inv n db \<longleftrightarrow>
     unique_key wp_mailbox (pool_participants db) \<and> unique_key pm_id (pool_mailboxes db)
   \<and> unique_key (\<lambda>m. (pm_ws m, address_of m)) (pool_mailboxes db)
   \<and> (\<forall>p \<in> set (pool_participants db). mailbox_row (wp_ws p) (wp_mailbox p) db \<noteq> None)
   \<and> (\<forall>t \<in> set (pool_trail db). 0 < wt_created_at t \<and> wt_created_at t \<le> n)
   \<and> 0 \<le> n \<and> sealed n db"

lemma pool_inv_later: "pool_inv n db \<Longrightarrow> n \<le> n' \<Longrightarrow> pool_inv n' db"
  by (fastforce simp: pool_inv_def sealed_def)

lemma mailbox_row_SomeD: "mailbox_row ws i db = Some m \<Longrightarrow> m \<in> set (pool_mailboxes db) \<and> pm_id m = i \<and> pm_ws m = ws"
  by (auto simp: mailbox_row_def dest: select_one_SomeD)

lemma mailbox_row_cong: "pool_mailboxes db = pool_mailboxes db' \<Longrightarrow> mailbox_row ws i db = mailbox_row ws i db'"
  by (simp add: mailbox_row_def)

lemma of_address_cong:
  "pool_mailboxes db = pool_mailboxes db' \<Longrightarrow> wp_ws p = wp_ws q \<Longrightarrow> wp_mailbox p = wp_mailbox q \<Longrightarrow>
     of_address ws a db p = of_address ws a db' q"
  by (simp add: of_address_def mailbox_row_cong [of db db'])

text \<open>An address belongs to one mailbox.\<close>

lemma one_mailbox:
  assumes "unique_key (\<lambda>m. (pm_ws m, address_of m)) (pool_mailboxes db)"
    and "mailbox_row ws i db = Some m" and "of_address ws (address_of m) db p"
  shows "wp_mailbox p = i"
proof -
  obtain m' where m': "mailbox_row ws (wp_mailbox p) db = Some m'" "address_of m' = address_of m"
    using assms(3) by (auto simp: of_address_def split: option.splits)
  have "m' = m"
    using assms(1) mailbox_row_SomeD [OF assms(2)] mailbox_row_SomeD [OF m'(1)] m'(2)
    by (auto dest: unique_keyD)
  then show ?thesis using mailbox_row_SomeD [OF assms(2)] mailbox_row_SomeD [OF m'(1)] by simp
qed

subsection \<open>Every step keeps it\<close>

lemma sealed_subset:
  assumes "sealed n db" and "pool_trail db' = pool_trail db"
    and "\<And>ws a p. p \<in> set (pool_participants db') \<Longrightarrow> of_address ws a db' p \<Longrightarrow>
      \<exists>q \<in> set (pool_participants db). of_address ws a db q \<and> wp_lane q = wp_lane p"
  shows "sealed n db'"
  using assms by (fastforce simp: sealed_def)

lemma inv_disable: "pool_inv n db \<Longrightarrow> pool_inv n (DisableWarmupParticipant ws i db)"
proof -
  assume inv: "pool_inv n db"
  let ?db = "DisableWarmupParticipant ws i db"
  have "sealed n ?db"
    by (rule sealed_subset [of n db])
      (use inv in \<open>auto simp: pool_inv_def DisableWarmupParticipant_def of_address_def mailbox_row_def\<close>)
  with inv show ?thesis
    by (auto simp: pool_inv_def DisableWarmupParticipant_def mailbox_row_def unique_key_filter)
qed

lemma select_one_filter: "(\<And>r. p r \<Longrightarrow> q r) \<Longrightarrow> select_one p (filter q rows) = select_one p rows"
  by (induction rows) auto

lemma mailbox_row_delete:
  "\<not> (j = i \<and> ws' = ws) \<Longrightarrow> mailbox_row ws' j (DeleteMailbox ws i db) = mailbox_row ws' j db"
  unfolding mailbox_row_def DeleteMailbox_def by (auto intro!: select_one_filter)

lemma inv_delete: "pool_inv n db \<Longrightarrow> pool_inv n (DeleteMailbox ws i db)"
proof -
  assume inv: "pool_inv n db"
  let ?db = "DeleteMailbox ws i db"
  have kept: "p \<in> set (pool_participants db) \<and> \<not> (wp_mailbox p = i \<and> wp_ws p = ws)"
    if "p \<in> set (pool_participants ?db)" for p using that by (simp add: DeleteMailbox_def)
  have row: "mailbox_row (wp_ws p) (wp_mailbox p) ?db = mailbox_row (wp_ws p) (wp_mailbox p) db"
    if "p \<in> set (pool_participants ?db)" for p using kept [OF that] mailbox_row_delete by blast
  have "sealed n ?db"
  proof (rule sealed_subset [of n db])
    fix ws' a p assume "p \<in> set (pool_participants ?db)" "of_address ws' a ?db p"
    then show "\<exists>q \<in> set (pool_participants db). of_address ws' a db q \<and> wp_lane q = wp_lane p"
      using kept row by (auto simp: of_address_def)
  qed (use inv in \<open>auto simp: pool_inv_def DeleteMailbox_def\<close>)
  moreover have "\<forall>p \<in> set (pool_participants ?db). mailbox_row (wp_ws p) (wp_mailbox p) ?db \<noteq> None"
    using inv kept row by (auto simp: pool_inv_def)
  ultimately show ?thesis
    using inv by (simp add: pool_inv_def DeleteMailbox_def unique_key_filter)
qed

lemma inv_add:
  assumes inv: "pool_inv n db" and fresh: "pm_id m \<notin> pm_id ` set (pool_mailboxes db)"
    and addr: "(pm_ws m, address_of m) \<notin> (\<lambda>m. (pm_ws m, address_of m)) ` set (pool_mailboxes db)"
  shows "pool_inv n (db\<lparr>pool_mailboxes := pool_mailboxes db @ [m]\<rparr>)"
proof -
  let ?db = "db\<lparr>pool_mailboxes := pool_mailboxes db @ [m]\<rparr>"
  have row: "mailbox_row (wp_ws p) (wp_mailbox p) ?db = mailbox_row (wp_ws p) (wp_mailbox p) db"
    if "p \<in> set (pool_participants db)" for p
    using inv that by (auto simp: pool_inv_def mailbox_row_def select_one_append split: option.split)
  have "sealed n ?db"
    by (rule sealed_subset [of n db]) (use inv row in \<open>auto simp: pool_inv_def of_address_def\<close>)
  with inv fresh addr row show ?thesis by (auto simp: pool_inv_def unique_key_def)
qed

lemma inv_connect:
  assumes inv: "pool_inv n db"
  shows "pool_inv n (db\<lparr>pool_mailboxes := update_where (\<lambda>m. pm_id m = i) (\<lambda>m. m\<lparr>pm_active := b\<rparr>) (pool_mailboxes db),
           pool_passing := doms\<rparr>)"
proof -
  let ?f = "\<lambda>m. if pm_id m = i then m\<lparr>pm_active := b\<rparr> else m"
  let ?db = "db\<lparr>pool_mailboxes := update_where (\<lambda>m. pm_id m = i) (\<lambda>m. m\<lparr>pm_active := b\<rparr>) (pool_mailboxes db),
           pool_passing := doms\<rparr>"
  have row: "mailbox_row ws j ?db = map_option ?f (mailbox_row ws j db)" for ws j
    unfolding mailbox_row_def by (simp add: select_update)
  have addr [simp]: "address_of (m\<lparr>pm_active := b\<rparr>) = address_of m" for m by (simp add: address_of_def)
  have ofa: "of_address ws a ?db p = of_address ws a db p" for ws a p
    by (auto simp: of_address_def row split: option.split)
  have "sealed n ?db" by (rule sealed_subset [of n db]) (use inv ofa in \<open>auto simp: pool_inv_def\<close>)
  with inv show ?thesis by (auto simp: pool_inv_def row unique_key_update)
qed

lemma inv_enable:
  assumes inv: "pool_inv n db" and up: "UpsertWarmupParticipant ws i db = Some db'"
  shows "pool_inv n db'"
proof -
  obtain m where m: "mailbox_row ws i db = Some m"
    using up by (auto simp: UpsertWarmupParticipant_def split: option.splits)
  show ?thesis
  proof (cases "select_one (\<lambda>p. wp_mailbox p = i) (pool_participants db)")
    case (Some p)
    then have db': "db' = db\<lparr>pool_participants :=
        update_where (\<lambda>p. wp_mailbox p = i) (\<lambda>p. p\<lparr>wp_enabled := True\<rparr>) (pool_participants db)\<rparr>"
      using up m by (auto simp: UpsertWarmupParticipant_def split: if_splits)
    have ofa: "of_address ws' a db' q = of_address ws' a db q" for ws' a q
      by (rule of_address_cong) (simp_all add: db')
    have ofe: "of_address ws' a db (q\<lparr>wp_enabled := True\<rparr>) = of_address ws' a db q" for ws' a q
      by (rule of_address_cong) simp_all
    have "sealed n db'"
    proof (rule sealed_subset [of n db])
      fix ws' a q assume q: "q \<in> set (pool_participants db')" "of_address ws' a db' q"
      then obtain r where "r \<in> set (pool_participants db)" "q = (if wp_mailbox r = i then r\<lparr>wp_enabled := True\<rparr> else r)"
        by (auto simp: db' in_update_where)
      with q show "\<exists>q' \<in> set (pool_participants db). of_address ws' a db q' \<and> wp_lane q' = wp_lane q"
        unfolding ofa by (intro bexI [of _ r]) (auto simp: ofe split: if_splits)
    qed (use inv in \<open>auto simp: pool_inv_def db'\<close>)
    with inv show ?thesis
      by (auto simp: pool_inv_def db' unique_key_update in_update_where mailbox_row_def)
  next
    case None
    define p where "p = \<lparr>wp_mailbox = i, wp_ws = ws, wp_enabled = True, wp_health = StateUnknown, wp_health_reason = [],
         wp_lane = entry_lane ws (address_of m) (pool_trail db), wp_lane_reason = [], wp_paused_until = None\<rparr>"
    have db': "db' = db\<lparr>pool_participants := pool_participants db @ [p]\<rparr>"
      using up m None by (simp add: UpsertWarmupParticipant_def p_def)
    have ofa: "of_address ws' a db' q = of_address ws' a db q" for ws' a q
      by (rule of_address_cong) (simp_all add: db')
    have new: "of_address ws' a db p \<longleftrightarrow> ws' = ws \<and> a = address_of m" for ws' a
      using m by (auto simp: of_address_def p_def)
    have parts: "set (pool_participants db') = insert p (set (pool_participants db))"
      "pool_trail db' = pool_trail db" by (simp_all add: db')
    have lane: "wp_lane p = entry_lane ws (address_of m) (pool_trail db)" by (simp add: p_def)
    have "sealed n db'"
      using inv by (auto simp: pool_inv_def sealed_def ofa parts new lane)
    with inv m None show ?thesis
      by (auto simp: pool_inv_def db' unique_key_insert mailbox_row_def p_def)
  qed
qed

subsection \<open>The sweep keeps it\<close>

definition good_row :: "pool \<Rightarrow> evaluation_row \<Rightarrow> bool" where
  "good_row db r \<longleftrightarrow>
     (\<exists>m. mailbox_row (er_ws r) (er_mailbox r) db = Some m
        \<and> CurrentLane (er_signals r) = er_lane r \<and> CurrentHealth (er_signals r) = er_health r
        \<and> QuarantinedSince (er_signals r) = time_of (quarantined_since (er_ws r) (address_of m) (pool_trail db)))"

text \<open>What one row of the sweep does to the database.\<close>

lemma row_cases:
  assumes "evaluateParticipantRow fail clock n r db = (es, db')"
  obtains (same) "db' = db"
  | (moved) p m t where "p \<in> set (pool_participants db)"
      "wp_mailbox p = er_mailbox r" "wp_ws p = er_ws r" "wp_health p = er_health r" "wp_lane p = er_lane r"
      "mailbox_row (er_ws r) (er_mailbox r) db = Some m"
      "wt_ws t = er_ws r" "wt_address t = address_of m" "wt_created_at t = n"
      "wt_from_lane t = er_lane r" "wt_to_lane t = Lane (EvaluateParticipant (er_signals r) clock)"
      "transition_legal t"
      "db' = db\<lparr>pool_participants :=
         update_where (\<lambda>p. wp_mailbox p = er_mailbox r \<and> wp_ws p = er_ws r \<and> wp_health p = er_health r \<and> wp_lane p = er_lane r)
           (\<lambda>p. p\<lparr>wp_health := Health (EvaluateParticipant (er_signals r) clock),
                  wp_health_reason := HealthReason (EvaluateParticipant (er_signals r) clock),
                  wp_lane := Lane (EvaluateParticipant (er_signals r) clock),
                  wp_lane_reason := LaneReason (EvaluateParticipant (er_signals r) clock),
                  wp_paused_until := warmupPausedUntil (Health (EvaluateParticipant (er_signals r) clock)) clock\<rparr>)
           (pool_participants db),
         pool_trail := t # pool_trail db\<rparr>"
proof -
  let ?d = "EvaluateParticipant (er_signals r) clock"
  show thesis
  proof (cases "ShouldApplyTransition (er_health r) (Health ?d) (er_lane r) (Lane ?d) \<and> fail (er_mailbox r) = None")
    case False
    with assms show thesis by (intro same) (auto simp: evaluateParticipantRow_def Let_def split: if_splits option.splits)
  next
    case True
    then have ap: "(case ApplyWarmupParticipantTransition n (er_mailbox r) (er_ws r) (er_health r) (Health ?d)
        (er_lane r) (Lane ?d) ?d (warmupPausedUntil (Health ?d) clock) db of Inl e \<Rightarrow> ([e], db) | Inr db' \<Rightarrow> ([], db')) = (es, db')"
      using assms by (simp add: evaluateParticipantRow_def Let_def)
    show thesis
    proof (cases "select_one (\<lambda>p. wp_mailbox p = er_mailbox r \<and> wp_ws p = er_ws r \<and> wp_health p = er_health r
        \<and> wp_lane p = er_lane r) (pool_participants db)")
      case None
      with ap show thesis by (intro same) (simp add: ApplyWarmupParticipantTransition_def)
    next
      case (Some p)
      show thesis
      proof (cases "mailbox_row (er_ws r) (er_mailbox r) db")
        case None
        with ap Some show thesis by (intro same) (simp add: ApplyWarmupParticipantTransition_def)
      next
        case m: (Some m)
        define t where "t = \<lparr>wt_ws = er_ws r, wt_mailbox = er_mailbox r, wt_address = address_of m,
          wt_from_state = er_health r, wt_to_state = Health ?d, wt_reason_code = HealthReasonCode ?d,
          wt_from_lane = er_lane r, wt_to_lane = Lane ?d, wt_lane_reason_code = LaneReasonCode ?d,
          wt_created_at = n\<rparr>"
        show thesis
        proof (cases "transition_legal t")
          case False
          with ap Some m show thesis by (intro same) (simp add: ApplyWarmupParticipantTransition_def Let_def t_def)
        next
          case True
          show thesis
            by (rule moved [of p m t])
              (use select_one_SomeD [OF Some] ap Some m True
                in \<open>simp_all add: ApplyWarmupParticipantTransition_def Let_def flip: t_def\<close>,
               simp_all add: t_def)
        qed
      qed
    qed
  qed
qed

lemma lane_held:
  assumes "CurrentLane s = LaneQuarantine" and "0 < u" and "QuarantinedSince s = u"
    and "clock < u + QuarantineCooldown"
  shows "Lane (EvaluateParticipant s clock) = LaneQuarantine"
  using quarantine_exit [of s clock] assms by auto

lemma inv_row:
  assumes inv: "pool_inv n db" and pos: "0 < n" and clock: "clock \<le> n" and good: "good_row db r"
    and ev: "evaluateParticipantRow fail clock n r db = (es, db')"
  shows "pool_inv n db'"
  using ev
proof (cases rule: row_cases)
  case same
  with inv show ?thesis by simp
next
  case (moved p m t)
  let ?d = "EvaluateParticipant (er_signals r) clock"
  let ?f = "\<lambda>p. p\<lparr>wp_health := Health ?d, wp_health_reason := HealthReason ?d, wp_lane := Lane ?d,
              wp_lane_reason := LaneReason ?d, wp_paused_until := warmupPausedUntil (Health ?d) clock\<rparr>"
  let ?hit = "\<lambda>p. wp_mailbox p = er_mailbox r \<and> wp_ws p = er_ws r \<and> wp_health p = er_health r \<and> wp_lane p = er_lane r"
  note inv' = inv [unfolded pool_inv_def]
  have rows: "mailbox_row ws j db' = mailbox_row ws j db" for ws j
    by (rule mailbox_row_cong) (simp add: moved)
  have ofa: "of_address ws a db' q = of_address ws a db q" for ws a q
    by (rule of_address_cong) (simp_all add: moved)
  have off: "of_address ws a db (?f q) = of_address ws a db q" for ws a q
    by (rule of_address_cong) simp_all
  have parts: "q \<in> set (pool_participants db') \<Longrightarrow>
      \<exists>q0 \<in> set (pool_participants db). q = (if ?hit q0 then ?f q0 else q0)" for q
    by (auto simp: moved in_update_where)
  have times: "\<forall>u \<in> set (pool_trail db). wt_created_at u \<le> wt_created_at t" using inv' moved(9) by auto
  have since: "quarantined_since ws a (pool_trail db') =
      (if er_ws r = ws \<and> address_of m = a \<and> Lane ?d = LaneQuarantine \<and> er_lane r \<noteq> LaneQuarantine
       then Some n else quarantined_since ws a (pool_trail db))" for ws a
    using quarantined_since_Cons [OF times] moved by auto
  have entry: "entry_lane ws a (pool_trail db') =
      (if er_ws r = ws \<and> address_of m = a
       then (if Lane ?d = LaneQuarantine \<or> Lane ?d = LaneBlocked then Lane ?d else LaneProbation)
       else entry_lane ws a (pool_trail db))" for ws a
    using moved(7,8,11) by (simp add: moved(13) entry_lane_def address_trail_Cons)
  have pofa: "of_address (er_ws r) (address_of m) db p"
    using moved(2,3,6) by (simp add: of_address_def)
  have held: "Lane ?d = LaneQuarantine"
    if q: "quarantined_since (er_ws r) (address_of m) (pool_trail db) = Some u" "n < u + QuarantineCooldown" for u
  proof (rule lane_held)
    have "wp_lane p = LaneQuarantine" using sealed_lane [OF _ q moved(1) pofa] inv' by blast
    then show "CurrentLane (er_signals r) = LaneQuarantine" using good moved(5) by (auto simp: good_row_def)
    show "QuarantinedSince (er_signals r) = u" using good moved(6) q(1) by (auto simp: good_row_def time_of_def)
    show "0 < u" using q(1) inv' unfolding quarantined_since_def address_trail_def by (auto dest!: max_time_in)
    show "clock < u + QuarantineCooldown" using q(2) clock by simp
  qed
  have only: "?hit q" if "q \<in> set (pool_participants db)" "of_address (er_ws r) (address_of m) db q" for q
  proof -
    have "wp_mailbox q = er_mailbox r" using one_mailbox [OF _ moved(6) that(2)] inv' by blast
    then have "q = p" using inv' that(1) moved(1,2) by (auto dest: unique_keyD)
    then show ?thesis using moved by simp
  qed
  have "sealed n db'"
    unfolding sealed_def
  proof (intro allI impI)
    fix ws a u
    assume q: "quarantined_since ws a (pool_trail db') = Some u \<and> n < u + QuarantineCooldown"
    show "entry_lane ws a (pool_trail db') = LaneQuarantine
      \<and> (\<forall>q \<in> set (pool_participants db'). of_address ws a db' q \<longrightarrow> wp_lane q = LaneQuarantine)"
    proof (cases "er_ws r = ws \<and> address_of m = a")
      case True
      have L: "Lane ?d = LaneQuarantine"
        using q held True by (cases "Lane ?d = LaneQuarantine \<and> er_lane r \<noteq> LaneQuarantine") (auto simp: since)
      have "wp_lane q = LaneQuarantine" if qm: "q \<in> set (pool_participants db')" "of_address ws a db' q" for q
      proof -
        from parts [OF qm(1)] obtain q0
          where q0: "q0 \<in> set (pool_participants db)" "q = (if ?hit q0 then ?f q0 else q0)" by (elim bexE)
        then have "of_address ws a db q0" using qm(2) by (auto simp: ofa off split: if_splits)
        then show ?thesis using only [OF q0(1)] True q0(2) L by simp
      qed
      with L True show ?thesis by (auto simp: entry)
    next
      case False
      with q have old: "quarantined_since ws a (pool_trail db) = Some u" "n < u + QuarantineCooldown" by (auto simp: since)
      have "wp_lane q = LaneQuarantine" if qm: "q \<in> set (pool_participants db')" "of_address ws a db' q" for q
      proof -
        from parts [OF qm(1)] obtain q0
          where q0: "q0 \<in> set (pool_participants db)" "q = (if ?hit q0 then ?f q0 else q0)" by (elim bexE)
        then have o: "of_address ws a db q0" using qm(2) by (auto simp: ofa off split: if_splits)
        then have "\<not> ?hit q0" using False moved(6) by (auto simp: of_address_def)
        with q0(2) have "q = q0" by (simp only: if_False)
        then show ?thesis using sealed_lane [OF _ old q0(1) o] inv' by blast
      qed
      moreover have "entry_lane ws a (pool_trail db) = LaneQuarantine" using sealed_entry [OF _ old] inv' by blast
      ultimately show ?thesis using False by (simp add: entry)
    qed
  qed
  moreover have "unique_key wp_mailbox (pool_participants db')"
    using inv' by (simp add: moved(13) unique_key_update)
  moreover have "mailbox_row (wp_ws q) (wp_mailbox q) db' \<noteq> None" if qm: "q \<in> set (pool_participants db')" for q
  proof -
    from parts [OF qm] obtain q0
      where q0: "q0 \<in> set (pool_participants db)" "q = (if ?hit q0 then ?f q0 else q0)" by (elim bexE)
    then have "wp_ws q = wp_ws q0" "wp_mailbox q = wp_mailbox q0" by simp_all
    with q0(1) inv' show ?thesis unfolding rows by simp
  qed
  moreover have "pool_mailboxes db' = pool_mailboxes db" by (simp add: moved(13))
  moreover have "\<forall>u \<in> set (pool_trail db'). 0 < wt_created_at u \<and> wt_created_at u \<le> n"
    using inv' pos moved(9) by (simp add: moved(13))
  ultimately show ?thesis using inv' unfolding pool_inv_def by simp
qed

lemma good_row_other:
  assumes inv: "pool_inv n db" and ev: "evaluateParticipantRow fail clock n r db = (es, db')"
    and good: "good_row db r'" and other: "er_mailbox r' \<noteq> er_mailbox r"
  shows "good_row db' r'"
  using ev
proof (cases rule: row_cases)
  case same
  with good show ?thesis by simp
next
  case (moved p m t)
  obtain m' where m': "mailbox_row (er_ws r') (er_mailbox r') db = Some m'"
    "CurrentLane (er_signals r') = er_lane r'" "CurrentHealth (er_signals r') = er_health r'"
    "QuarantinedSince (er_signals r') = time_of (quarantined_since (er_ws r') (address_of m') (pool_trail db))"
    using good by (auto simp: good_row_def)
  have "\<not> (wt_ws t = er_ws r' \<and> wt_address t = address_of m')"
  proof
    assume a: "wt_ws t = er_ws r' \<and> wt_address t = address_of m'"
    have "m = m'"
      using inv mailbox_row_SomeD [OF moved(6)] mailbox_row_SomeD [OF m'(1)] a moved(7,8)
      unfolding pool_inv_def by (auto dest: unique_keyD)
    then show False using mailbox_row_SomeD [OF moved(6)] mailbox_row_SomeD [OF m'(1)] other by simp
  qed
  then have "quarantined_since (er_ws r') (address_of m') (pool_trail db')
      = quarantined_since (er_ws r') (address_of m') (pool_trail db)"
    by (auto simp: moved(13) quarantined_since_def address_trail_Cons)
  moreover have "mailbox_row (er_ws r') (er_mailbox r') db' = Some m'"
    using m'(1) by (simp add: moved(13) mailbox_row_def)
  ultimately show ?thesis using m' by (auto simp: good_row_def)
qed

lemma inv_rows:
  "evaluateRows fail clock n rs db = (es, db') \<Longrightarrow> pool_inv n db \<Longrightarrow> 0 < n \<Longrightarrow> clock \<le> n \<Longrightarrow>
     \<forall>r \<in> set rs. good_row db r \<Longrightarrow> distinct (map er_mailbox rs) \<Longrightarrow> pool_inv n db'"
proof (induction rs arbitrary: db es)
  case Nil
  then show ?case by simp
next
  case (Cons r rs)
  obtain e1 db1 where row: "evaluateParticipantRow fail clock n r db = (e1, db1)" by fastforce
  obtain e2 where rest: "evaluateRows fail clock n rs db1 = (e2, db')"
    using Cons.prems(1) row by (auto split: prod.splits)
  have inv1: "pool_inv n db1" using inv_row [OF Cons.prems(2,3,4) _ row] Cons.prems(5) by simp
  have "good_row db1 r'" if "r' \<in> set rs" for r'
    using good_row_other [OF Cons.prems(2) row, of r'] that Cons.prems(5,6) by (auto simp: image_iff)
  with Cons.IH [OF rest inv1 Cons.prems(3,4)] Cons.prems(6) show ?case by simp
qed

lemma map_filter_row:
  "er_mailbox (evaluation_row_of now ttl db p m) = wp_mailbox p" "er_ws (evaluation_row_of now ttl db p m) = wp_ws p"
  "er_lane (evaluation_row_of now ttl db p m) = wp_lane p" "er_health (evaluation_row_of now ttl db p m) = wp_health p"
  "CurrentLane (er_signals (evaluation_row_of now ttl db p m)) = wp_lane p"
  "CurrentHealth (er_signals (evaluation_row_of now ttl db p m)) = wp_health p"
  "QuarantinedSince (er_signals (evaluation_row_of now ttl db p m))
     = time_of (quarantined_since (wp_ws p) (address_of m) (pool_trail db))"
  by (simp_all add: evaluation_row_of_def Let_def)

lemma listed_rows_good: "r \<in> set (ListWarmupEvaluationRows now ws ttl db) \<Longrightarrow> good_row db r"
  by (auto simp: ListWarmupEvaluationRows_def List.map_filter_def good_row_def map_filter_row)

lemma distinct_map_filter_option:
  "(\<And>x y. f x = Some y \<Longrightarrow> k y = g x) \<Longrightarrow> distinct (map g xs) \<Longrightarrow> distinct (map k (List.map_filter f xs))"
proof (induction xs)
  case Nil
  then show ?case by (simp add: List.map_filter_def)
next
  case (Cons x xs)
  have sub: "k ` set (List.map_filter f xs) \<subseteq> g ` set xs"
    using Cons.prems(1) by (force simp: List.map_filter_def)
  show ?case
    using Cons sub by (cases "f x") (auto simp: List.map_filter_simps)
qed

lemma listed_rows_distinct:
  assumes "unique_key wp_mailbox (pool_participants db)"
  shows "distinct (map er_mailbox (ListWarmupEvaluationRows now ws ttl db))"
  unfolding ListWarmupEvaluationRows_def
proof (rule distinct_map_filter_option [where g = wp_mailbox])
  let ?ps = "filter (\<lambda>p. wp_ws p = ws \<and> wp_enabled p) (pool_participants db)"
  have "distinct (map wp_mailbox ?ps)" using assms unique_key_filter by (auto simp: unique_key_def)
  then have "distinct ?ps" "inj_on wp_mailbox (set ?ps)" by (auto simp: distinct_map)
  then show "distinct (map wp_mailbox (sort_key wp_mailbox ?ps))" by (simp add: distinct_map)
qed (auto simp: map_filter_row)

lemma inv_snapshots: "pool_inv n db \<Longrightarrow> pool_inv n (db\<lparr>pool_snapshots := x\<rparr>)"
proof -
  assume inv: "pool_inv n db"
  have row: "mailbox_row ws j (db\<lparr>pool_snapshots := x\<rparr>) = mailbox_row ws j db" for ws j
    by (rule mailbox_row_cong) simp
  have "sealed n (db\<lparr>pool_snapshots := x\<rparr>)"
    by (rule sealed_subset [of n db]) (use inv in \<open>auto simp: pool_inv_def of_address_def row\<close>)
  with inv show ?thesis by (simp add: pool_inv_def row)
qed

lemma inv_sweep:
  "EvaluateWarmupHealth clock n runs db = (es, db') \<Longrightarrow> pool_inv n db \<Longrightarrow> 0 < n \<Longrightarrow> clock \<le> n \<Longrightarrow> pool_inv n db'"
proof (induction runs arbitrary: db es)
  case Nil
  then show ?case by simp
next
  case (Cons w runs)
  define one where "one = (case refresh_fail w of Some e \<Rightarrow> ([e], db)
      | None \<Rightarrow> evaluateWorkspaceParticipants (apply_fail w) (list_fail w) clock n (run_ws w) (db\<lparr>pool_snapshots := refreshed w\<rparr>))"
  obtain e1 db1 where o: "one = (e1, db1)" by fastforce
  obtain e2 where rest: "EvaluateWarmupHealth clock n runs db1 = (e2, db')"
    using Cons.prems(1) o unfolding one_def [symmetric] by (auto simp: one_def [symmetric] split: prod.splits)
  have inv1: "pool_inv n (db\<lparr>pool_snapshots := refreshed w\<rparr>)" using Cons.prems(2) by (rule inv_snapshots)
  then have "unique_key wp_mailbox (pool_participants (db\<lparr>pool_snapshots := refreshed w\<rparr>))"
    by (simp add: pool_inv_def)
  then have "pool_inv n db1"
    using o inv1 Cons.prems(2,3,4) inv_rows [OF _ inv1 Cons.prems(3,4)] listed_rows_good listed_rows_distinct
    by (auto simp: one_def evaluateWorkspaceParticipants_def split: option.splits)
  from Cons.IH [OF rest this Cons.prems(3,4)] show ?case .
qed

lemma inv_step: "pool_step s s' \<Longrightarrow> pool_inv (fst s) (snd s) \<Longrightarrow> pool_inv (fst s') (snd s')"
proof (induction rule: pool_step.induct)
  case (enable n n' ws i db db')
  then show ?case using inv_enable [of n' db ws i db'] pool_inv_later [of n db n'] by simp
next
  case (disable n n' db ws i)
  then show ?case using inv_disable [of n' db ws i] pool_inv_later [of n db n'] by simp
next
  case (delete n n' db ws i)
  then show ?case using inv_delete [of n' db ws i] pool_inv_later [of n db n'] by simp
next
  case (add n n' m db)
  then show ?case using inv_add [of n' db m] pool_inv_later [of n db n'] by simp
next
  case (connect n n' db i b doms)
  then show ?case using inv_connect [of n' db i b doms] pool_inv_later [of n db n'] by simp
next
  case (sweep n n' clock runs db errs db')
  then have "0 < n'" "pool_inv n' db" using pool_inv_later [of n db n'] by (auto simp: pool_inv_def)
  with inv_sweep [OF sweep(3) _ _ sweep(2)] show ?case by simp
qed

lemma inv_reachable: "pool_reachable s \<Longrightarrow> pool_inv (fst s) (snd s)"
proof (induction rule: pool_reachable.induct)
  case (start n db)
  then show ?case
    by (simp add: pool_inv_def unique_key_def sealed_def quarantined_since_def address_trail_def max_time_def)
next
  case (step s s')
  then show ?case using inv_step by blast
qed

text \<open>C15: A quarantine is served. For seventy-two hours after its address entered quarantine, no
  participant with that address is in a lane that may send or take new leads, whatever happens in
  between: sweeps with any evidence and any failures, disabling and enabling warmup, deleting the
  mailbox and adding the address again, losing and regaining authentication.\<close>

theorem quarantine_is_served:
  assumes "pool_reachable (n, db)"
    and "quarantined_since ws a (pool_trail db) = Some u" and "n < u + QuarantineCooldown"
    and "p \<in> set (pool_participants db)" and "of_address ws a db p"
  shows "wp_lane p = LaneQuarantine \<and> \<not> LaneMaySend (wp_lane p) \<and> \<not> LaneMayTakeNewLead (wp_lane p)"
proof -
  have "sealed n db" using inv_reachable [OF assms(1)] by (simp add: pool_inv_def)
  from sealed_lane [OF this assms(2-5)] show ?thesis by (simp add: LaneMaySend_def LaneMayTakeNewLead_def)
qed

text \<open>A mailbox that lands in spam, is quarantined, deleted, and added again under a new id.\<close>

definition sample_member :: "uuid \<Rightarrow> pool_mailbox" where
  "sample_member i = \<lparr>pm_id = i, pm_ws = 1, pm_email = ''A@x.io'', pm_active = True\<rparr>"

definition sample_run :: workspace_run where
  "sample_run = \<lparr>run_ws = 1, refresh_fail = None,
     refreshed = [\<lparr>sn_mailbox = 2, sn_ws = 1, newest_evidence_at = Some 3, placement_inbox = 0, placement_spam = 20,
       campaign_delivered = 0, campaign_hard_bounces = 0, campaign_asserted_hard_bounces = 0, campaign_complaints = 0,
       warmup_delivered = 0, warmup_hard_bounces = 0, observer_token_failures = 0\<rparr>],
     list_fail = None, apply_fail = (\<lambda>_. None)\<rparr>"

definition sample_joined :: pool where
  "sample_joined = the (UpsertWarmupParticipant 1 2
     \<lparr>pool_mailboxes = [sample_member 2], pool_participants = [], pool_snapshots = [],
      pool_passing = [(1, ''x.io'')], pool_trail = []\<rparr>)"

definition sample_swept :: pool where "sample_swept = snd (EvaluateWarmupHealth 3 3 [sample_run] sample_joined)"

definition sample_deleted :: pool where "sample_deleted = DeleteMailbox 1 2 sample_swept"

definition sample_readded :: pool where
  "sample_readded = the (UpsertWarmupParticipant 1 9
     (sample_deleted\<lparr>pool_mailboxes := pool_mailboxes sample_deleted @ [sample_member 9]\<rparr>))"

lemma sample_values:
  "pool_mailboxes sample_deleted = []"
  "UpsertWarmupParticipant 1 9 (sample_deleted\<lparr>pool_mailboxes := pool_mailboxes sample_deleted @ [sample_member 9]\<rparr>) \<noteq> None"
  "quarantined_since 1 ''a@x.io'' (pool_trail sample_readded) = Some 3"
  "map (\<lambda>p. (wp_mailbox p, wp_ws p, wp_lane p)) (pool_participants sample_readded) = [(9, 1, LaneQuarantine)]"
  "of_address 1 ''a@x.io'' sample_readded (hd (pool_participants sample_readded))"
  by code_simp+

lemma sample_reachable: "pool_reachable (6, sample_readded)"
proof -
  let ?p0 = "\<lparr>pool_mailboxes = [], pool_participants = [], pool_snapshots = [], pool_passing = [(1, ''x.io'')], pool_trail = []\<rparr>"
  have "pool_reachable (0, ?p0)" by (rule pool_reachable.start) simp_all
  then have "pool_reachable (1, ?p0\<lparr>pool_mailboxes := pool_mailboxes ?p0 @ [sample_member 2]\<rparr>)"
    by (rule pool_reachable.step [OF _ pool_step.add]) simp_all
  then have "pool_reachable (2, sample_joined)"
  proof (rule pool_reachable.step [OF _ pool_step.enable])
    show "UpsertWarmupParticipant 1 2 (?p0\<lparr>pool_mailboxes := pool_mailboxes ?p0 @ [sample_member 2]\<rparr>) = Some sample_joined"
      by (simp add: sample_joined_def UpsertWarmupParticipant_def mailbox_row_def sample_member_def)
  qed simp
  then have "pool_reachable (3, sample_swept)"
  proof (rule pool_reachable.step [OF _ pool_step.sweep])
    show "EvaluateWarmupHealth 3 3 [sample_run] sample_joined
        = (fst (EvaluateWarmupHealth 3 3 [sample_run] sample_joined), sample_swept)"
      by (simp add: sample_swept_def)
  qed simp_all
  then have "pool_reachable (4, sample_deleted)"
    unfolding sample_deleted_def by (rule pool_reachable.step [OF _ pool_step.delete]) simp
  then have "pool_reachable (5, sample_deleted\<lparr>pool_mailboxes := pool_mailboxes sample_deleted @ [sample_member 9]\<rparr>)"
    by (rule pool_reachable.step [OF _ pool_step.add]) (simp_all add: sample_values(1))
  then show ?thesis
    by (rule pool_reachable.step [OF _ pool_step.enable [of _ _ 1 9]])
      (use sample_values(2) in \<open>auto simp: sample_readded_def\<close>)
qed

theorem quarantine_is_served_witness:
  "wp_lane (hd (pool_participants sample_readded)) = LaneQuarantine
    \<and> \<not> LaneMaySend (wp_lane (hd (pool_participants sample_readded)))
    \<and> \<not> LaneMayTakeNewLead (wp_lane (hd (pool_participants sample_readded)))"
proof (rule quarantine_is_served [OF sample_reachable sample_values(3) _ _ sample_values(5)])
  show "hd (pool_participants sample_readded) \<in> set (pool_participants sample_readded)"
    using sample_values(4) by (cases "pool_participants sample_readded") auto
qed (simp add: QuarantineCooldown_def const_defs)

subsection \<open>The sweep applies every decision\<close>

text \<open>Reason codes are single words, which the check on the column accepts.\<close>

definition word_code :: "string \<Rightarrow> bool" where
  "word_code c \<longleftrightarrow> c \<noteq> [] \<and> CHR '' '' \<notin> set c"

lemma word_code_trim: "word_code c \<Longrightarrow> btrim c = c"
proof -
  assume w: "word_code c"
  have drop: "dropWhile (\<lambda>x. x = CHR '' '') xs = xs" if "CHR '' '' \<notin> set xs" for xs
    using that by (cases xs) auto
  with w show ?thesis by (simp add: btrim_def word_code_def)
qed

lemma applyBands_code: "HealthReasonCode (applyBands (measured s)) = [] \<or> word_code (HealthReasonCode (applyBands (measured s)))"
proof -
  let ?ok = "\<lambda>d. HealthReasonCode d = [] \<or> word_code (HealthReasonCode d)"
  have worst: "?ok d \<Longrightarrow> word_code c \<Longrightarrow> ?ok (worst st c l d)" for d st c l by (simp add: worst_def)
  have band: "?ok d \<Longrightarrow> word_code c \<Longrightarrow> ?ok (applyBand rate b c l d)" for d rate b c l
    unfolding applyBand_def using worst [of d] by (simp add: word_code_def)
  have asserted: "?ok d \<Longrightarrow> ?ok (applyAsserted d)" for d
    unfolding applyAsserted_def using worst [of d] by (simp add: word_code_def)
  have "?ok (measured s)" by (simp add: measured_def)
  then show ?thesis unfolding applyBands_def Let_def
    by (intro band asserted) (simp_all add: word_code_def)
qed

lemma evaluateHealth_code: "word_code (HealthReasonCode (evaluateHealth s))"
  using applyBands_code [of s] by (auto simp: evaluateHealth_def settleHealth_def) (simp_all add: word_code_def)

lemma participant_code: "word_code (HealthReasonCode (EvaluateParticipant s now))"
proof -
  have "word_code (HealthReasonCode (HoldRecoveryDuringBlock (evaluateHealth s) (CurrentHealth s) (PausedUntil s) now))"
    using evaluateHealth_code [of s] by (simp add: HoldRecoveryDuringBlock_def Let_def) (simp add: word_code_def)
  then show ?thesis by (simp add: EvaluateParticipant_def Let_def split: prod.split)
qed

definition legal_state :: "string \<Rightarrow> bool" where
  "legal_state h \<longleftrightarrow> h \<in> {StateUnknown, StateHealthy, StateWatch, StateThrottled, StatePaused}"

lemma normalize_legal: "legal_state (normalizeState h)"
  by (simp add: normalizeState_def legal_state_def stateAtRank_def)

lemma participant_legal: "legal_state (Health (EvaluateParticipant s now))"
  using normalize_legal [of "CurrentHealth s"] named_bands [of s]
  by (simp add: participant_health evaluateHealth_health) (auto simp: legal_state_def named_state_def stateAtRank_def)

definition listed_row :: "pool \<Rightarrow> evaluation_row \<Rightarrow> bool" where
  "listed_row db r \<longleftrightarrow> legal_state (er_health r) \<and> er_lane r \<in> set lanes \<and> mailbox_row (er_ws r) (er_mailbox r) db \<noteq> None
   \<and> (\<exists>p \<in> set (pool_participants db). wp_mailbox p = er_mailbox r \<and> wp_ws p = er_ws r
        \<and> wp_health p = er_health r \<and> wp_lane p = er_lane r)"

definition decided :: "instant \<Rightarrow> evaluation_row \<Rightarrow> pool \<Rightarrow> bool" where
  "decided clock r db \<longleftrightarrow>
     (\<exists>p \<in> set (pool_participants db). wp_mailbox p = er_mailbox r \<and> wp_ws p = er_ws r
        \<and> wp_health p = Health (EvaluateParticipant (er_signals r) clock)
        \<and> wp_lane p = Lane (EvaluateParticipant (er_signals r) clock))"

lemma lane_named: "Lane (EvaluateParticipant s now) \<in> set lanes"
proof -
  have "normalizeLane (CurrentLane s) \<in> set lanes" by (rule normalizeLane_in)
  then show ?thesis unfolding participant_lane by (simp add: evaluateLane_def healthyLane_def Let_def)
qed

text \<open>One row: an unforced statement lands, a failing one changes nothing, and no other mailbox's
  participant is touched.\<close>

lemma row_effect:
  assumes listed: "listed_row db r" and ev: "evaluateParticipantRow fail clock n r db = (es, db')"
  shows "(fail (er_mailbox r) = None \<longrightarrow> decided clock r db' \<and> es = [])
    \<and> (\<forall>e. fail (er_mailbox r) = Some e \<longrightarrow> set es \<subseteq> {e})
    \<and> pool_mailboxes db' = pool_mailboxes db
    \<and> {p \<in> set (pool_participants db'). wp_mailbox p \<noteq> er_mailbox r}
      = {p \<in> set (pool_participants db). wp_mailbox p \<noteq> er_mailbox r}"
proof -
  let ?d = "EvaluateParticipant (er_signals r) clock"
  let ?hit = "\<lambda>p. wp_mailbox p = er_mailbox r \<and> wp_ws p = er_ws r \<and> wp_health p = er_health r \<and> wp_lane p = er_lane r"
  obtain p where p: "p \<in> set (pool_participants db)" "?hit p" using listed by (auto simp: listed_row_def)
  obtain m where m: "mailbox_row (er_ws r) (er_mailbox r) db = Some m" using listed by (auto simp: listed_row_def)
  have "select_one ?hit (pool_participants db) \<noteq> None" using p unfolding select_one_None_iff by blast
  then obtain q where q: "select_one ?hit (pool_participants db) = Some q" by blast
  have others: "{x \<in> set (update_where ?hit f ps). wp_mailbox x \<noteq> er_mailbox r} = {x \<in> set ps. wp_mailbox x \<noteq> er_mailbox r}"
    if "\<And>x. wp_mailbox (f x) = wp_mailbox x" for f ps
    using that by (auto simp: in_update_where split: if_splits)
  show ?thesis
  proof (cases "ShouldApplyTransition (er_health r) (Health ?d) (er_lane r) (Lane ?d)")
    case False
    then have "Health ?d = er_health r" "Lane ?d = er_lane r"
      using listed lane_named [of "er_signals r" clock] by (auto simp: ShouldApplyTransition_def listed_row_def)
    with False p ev show ?thesis by (auto simp: evaluateParticipantRow_def decided_def)
  next
    case True
    show ?thesis
    proof (cases "fail (er_mailbox r)")
      case (Some e)
      with True ev show ?thesis by (auto simp: evaluateParticipantRow_def Let_def)
    next
      case None
      define t where "t = \<lparr>wt_ws = er_ws r, wt_mailbox = er_mailbox r, wt_address = address_of m,
          wt_from_state = er_health r, wt_to_state = Health ?d, wt_reason_code = HealthReasonCode ?d,
          wt_from_lane = er_lane r, wt_to_lane = Lane ?d, wt_lane_reason_code = LaneReasonCode ?d,
          wt_created_at = n\<rparr>"
      let ?f = "\<lambda>p. p\<lparr>wp_health := Health ?d, wp_health_reason := HealthReason ?d, wp_lane := Lane ?d,
          wp_lane_reason := LaneReason ?d, wp_paused_until := warmupPausedUntil (Health ?d) clock\<rparr>"
      have code: "word_code (HealthReasonCode ?d)" by (rule participant_code)
      then have "btrim (HealthReasonCode ?d) \<noteq> []" using word_code_trim [OF code] by (simp add: word_code_def)
      moreover have "legal_state (er_health r)" using listed by (simp add: listed_row_def)
      moreover have "legal_state (Health ?d)" by (rule participant_legal)
      ultimately have "transition_legal t" by (simp add: t_def transition_legal_def legal_state_def)
      then have "(es, db') = ([], db\<lparr>pool_participants := update_where ?hit ?f (pool_participants db),
          pool_trail := t # pool_trail db\<rparr>)"
        using ev None True q m
        by (simp add: evaluateParticipantRow_def ApplyWarmupParticipantTransition_def Let_def flip: t_def)
      then have db': "es = []" "pool_participants db' = update_where ?hit ?f (pool_participants db)"
        "pool_mailboxes db' = pool_mailboxes db" by simp_all
      have "?f p \<in> set (pool_participants db')" using p by (auto simp: db' in_update_where)
      moreover have "wp_mailbox (?f p) = er_mailbox r \<and> wp_ws (?f p) = er_ws r" using p by simp
      ultimately have "decided clock r db'" unfolding decided_def by (intro bexI [of _ "?f p"]) simp_all
      with db' None others [of ?f "pool_participants db"] show ?thesis by simp
    qed
  qed
qed

lemma row_kept:
  assumes "{p \<in> set qs. wp_mailbox p \<noteq> i} = {p \<in> set ps. wp_mailbox p \<noteq> i}" and "p \<in> set ps" and "wp_mailbox p \<noteq> i"
  shows "p \<in> set qs"
proof -
  have "p \<in> {p \<in> set ps. wp_mailbox p \<noteq> i}" using assms(2,3) by simp
  then show ?thesis unfolding assms(1) [symmetric] by simp
qed

lemma listed_row_keep:
  assumes "listed_row db r" and "pool_mailboxes db' = pool_mailboxes db" and "er_mailbox r \<noteq> i"
    and "{p \<in> set (pool_participants db'). wp_mailbox p \<noteq> i} = {p \<in> set (pool_participants db). wp_mailbox p \<noteq> i}"
  shows "listed_row db' r"
proof -
  obtain p where p: "p \<in> set (pool_participants db)" "wp_mailbox p = er_mailbox r" "wp_ws p = er_ws r"
    "wp_health p = er_health r" "wp_lane p = er_lane r" using assms(1) by (auto simp: listed_row_def)
  then have "p \<in> set (pool_participants db')" using row_kept [OF assms(4)] assms(3) by metis
  with p assms(1) show ?thesis by (auto simp: listed_row_def mailbox_row_cong [OF assms(2)])
qed

lemma decided_keep:
  assumes "decided clock r db" and "er_mailbox r \<noteq> i"
    and "{p \<in> set (pool_participants db'). wp_mailbox p \<noteq> i} = {p \<in> set (pool_participants db). wp_mailbox p \<noteq> i}"
  shows "decided clock r db'"
proof -
  obtain p where p: "p \<in> set (pool_participants db)" "wp_mailbox p = er_mailbox r" "wp_ws p = er_ws r"
    "wp_health p = Health (EvaluateParticipant (er_signals r) clock)"
    "wp_lane p = Lane (EvaluateParticipant (er_signals r) clock)" using assms(1) by (auto simp: decided_def)
  then have "p \<in> set (pool_participants db')" using row_kept [OF assms(3)] assms(2) by metis
  with p show ?thesis by (auto simp: decided_def)
qed

lemma rows_effect:
  "evaluateRows fail clock n rs db = (es, db') \<Longrightarrow> \<forall>r \<in> set rs. listed_row db r \<Longrightarrow> distinct (map er_mailbox rs) \<Longrightarrow>
     (\<forall>r \<in> set rs. fail (er_mailbox r) = None \<longrightarrow> decided clock r db')
   \<and> (\<forall>e \<in> set es. \<exists>r \<in> set rs. fail (er_mailbox r) = Some e)
   \<and> (\<forall>r. er_mailbox r \<notin> er_mailbox ` set rs \<and> decided clock r db \<longrightarrow> decided clock r db')"
proof (induction rs arbitrary: db es)
  case Nil
  then show ?case by simp
next
  case (Cons r rs)
  obtain e1 db1 where row: "evaluateParticipantRow fail clock n r db = (e1, db1)" by fastforce
  obtain e2 where rest: "evaluateRows fail clock n rs db1 = (e2, db')" and es: "es = e1 @ e2"
    using Cons.prems(1) row by (auto split: prod.splits)
  have "listed_row db r" using Cons.prems(2) by simp
  note one = row_effect [OF this row]
  have new: "er_mailbox r \<notin> er_mailbox ` set rs" using Cons.prems(3) by simp
  have "listed_row db1 r'" if "r' \<in> set rs" for r'
    using listed_row_keep [of db r' db1 "er_mailbox r"] one Cons.prems(2) that new by (auto simp: image_iff)
  with Cons.IH [OF rest] Cons.prems(3) have ih:
    "\<forall>r \<in> set rs. fail (er_mailbox r) = None \<longrightarrow> decided clock r db'"
    "\<forall>e \<in> set e2. \<exists>r \<in> set rs. fail (er_mailbox r) = Some e"
    "\<forall>r. er_mailbox r \<notin> er_mailbox ` set rs \<and> decided clock r db1 \<longrightarrow> decided clock r db'" by auto
  have first: "fail (er_mailbox r) = None \<longrightarrow> decided clock r db'" using one ih(3) new by blast
  have errs: "\<exists>x \<in> set (r # rs). fail (er_mailbox x) = Some e" if e: "e \<in> set es" for e
  proof (cases "e \<in> set e2")
    case True
    with ih(2) show ?thesis by auto
  next
    case False
    with e es have "e \<in> set e1" by simp
    with one have "fail (er_mailbox r) = Some e" by (cases "fail (er_mailbox r)") auto
    then show ?thesis by simp
  qed
  have keep: "decided clock x db'" if "er_mailbox x \<notin> er_mailbox ` set (r # rs)" "decided clock x db" for x
    using that decided_keep [of clock x db "er_mailbox r" db1] one ih(3) by auto
  from ih(1) first errs keep show ?case by (auto simp: es)
qed

text \<open>What the table's checks make sure of.\<close>

definition pool_legal :: "pool \<Rightarrow> bool" where
  "pool_legal db \<longleftrightarrow> unique_key wp_mailbox (pool_participants db)
   \<and> (\<forall>p \<in> set (pool_participants db). legal_state (wp_health p) \<and> wp_lane p \<in> set lanes)"

lemma listed_rows_listed:
  "pool_legal db \<Longrightarrow> r \<in> set (ListWarmupEvaluationRows now ws ttl db) \<Longrightarrow> listed_row db r"
  by (auto simp: ListWarmupEvaluationRows_def List.map_filter_def listed_row_def pool_legal_def map_filter_row)

text \<open>The evaluation of a workspace applies every decision whose statement does not fail, and a
  failing participant stalls no other: it adds its error and the rest is decided all the same. No
  decision is refused by the checks of the transition table.\<close>

theorem sweep_continues:
  assumes "pool_legal db"
    and "evaluateWorkspaceParticipants fail None clock now ws db = (es, db')"
  shows "(\<forall>r \<in> set (ListWarmupEvaluationRows now ws warmupEvidenceTTL db).
            fail (er_mailbox r) = None \<longrightarrow> decided clock r db')
    \<and> (\<forall>e \<in> set es. \<exists>r \<in> set (ListWarmupEvaluationRows now ws warmupEvidenceTTL db). fail (er_mailbox r) = Some e)"
proof -
  have rows: "evaluateRows fail clock now (ListWarmupEvaluationRows now ws warmupEvidenceTTL db) db = (es, db')"
    using assms(2) by (simp add: evaluateWorkspaceParticipants_def)
  have "distinct (map er_mailbox (ListWarmupEvaluationRows now ws warmupEvidenceTTL db))"
    using assms(1) listed_rows_distinct by (simp add: pool_legal_def)
  with rows_effect [OF rows] listed_rows_listed [OF assms(1)] show ?thesis by auto
qed

theorem sweep_continues_witness:
  "decided 3 (hd (ListWarmupEvaluationRows 3 1 warmupEvidenceTTL sample_joined))
     (snd (evaluateWorkspaceParticipants (\<lambda>_. None) None 3 3 1 sample_joined))"
proof -
  let ?rows = "ListWarmupEvaluationRows 3 1 warmupEvidenceTTL sample_joined"
  have "pool_legal sample_joined" by code_simp
  from sweep_continues [OF this, of "\<lambda>_. None" 3 3 1] have
    "\<forall>r \<in> set ?rows. decided 3 r (snd (evaluateWorkspaceParticipants (\<lambda>_. None) None 3 3 1 sample_joined))"
    by (cases "evaluateWorkspaceParticipants (\<lambda>_. None) None 3 3 1 sample_joined") simp
  moreover have "?rows \<noteq> []" by code_simp
  ultimately show ?thesis by (cases ?rows) simp_all
qed

end
