(* ===== verification/Branch_Route.thy ===== *)
theory Branch_Route
  imports Step_Send Sequence_Graph
begin

text \<open>
  Conditional branching on the send path (\<open>internal/coreapi/inprocess/branchroute.go\<close>), with the
  conversion of the stored rows into the routing model (\<open>internal/app/sequencestep/branch.go\<close>) and
  the queries the evidence comes from (\<open>queries/stepbranch.sql\<close>).

  \<open>decideRoute\<close> is a function of its input and of an evidence function, as in the source;
  \<open>routeGraph\<close> supplies both from the tables, \<open>applyRoute\<close> carries out a decision that sends
  nothing. The instant \<open>time.Now()\<close> is an argument. A statement that runs twice has a fault name for
  each run.
\<close>

subsection \<open>Rows\<close>

record step_row =
  st_id :: uuid
  st_ws :: uuid
  st_campaign :: uuid
  st_order :: int
  st_delay_seconds :: int
  st_subject :: string
  st_body_text :: string
  st_body_html :: string
  st_variant_weight :: int

record branch_row =
  bw_step :: uuid
  bw_ws :: uuid
  bw_campaign :: uuid
  bw_condition :: string
  bw_within_days :: "int option"
  bw_reply_label_key :: "string option"
  bw_yes_step :: "uuid option"
  bw_no_step :: "uuid option"

record tracking_event =
  te_ws :: uuid
  te_send :: uuid
  te_kind :: string
  te_is_machine :: bool
  te_created_at :: instant

record inbox_thread =
  th_id :: uuid
  th_ws :: uuid
  th_mailbox :: uuid
  th_campaign :: "uuid option"
  th_contact :: "uuid option"
  th_root_message_id :: string
  th_subject :: string
  th_last_reply_class :: string
  th_unread :: bool
  th_last_message_at :: instant

record inbox_message =
  im_ws :: uuid
  im_thread :: uuid
  im_direction :: string
  im_mailbox :: uuid
  im_message_id :: string
  im_from_email :: string
  im_from_name :: string
  im_to_email :: string
  im_subject :: string
  im_body_text :: string
  im_body_html :: string
  im_reply_class :: string
  im_occurred_at :: "instant option"
  im_created_at :: instant

record reply_label =
  rl_ws :: uuid
  rl_key :: string
  rl_is_automated :: bool
  rl_stops_enrollment :: bool
  rl_suppresses_contact :: bool
  rl_captures_deal :: bool
  rl_defers_enrollment :: bool

record evidence_db =
  ev_sends :: "send list"
  ev_events :: "tracking_event list"
  ev_threads :: "inbox_thread list"
  ev_messages :: "inbox_message list"
  ev_labels :: "reply_label list"

text \<open>The columns of the enrollment bundle that routing reads.\<close>

record route_bundle =
  rb_campaign :: uuid
  rb_contact :: uuid
  rb_current_step :: int
  rb_last_sent_at :: "instant option"
  rb_next_due_at :: "instant option"
  rb_awaiting :: "int option"

subsection \<open>Building the graph\<close>

definition BranchFromRow :: "branch_row \<Rightarrow> branch" where
  "BranchFromRow b =
     \<lparr>br_step = bw_step b, br_condition = bw_condition b,
      within_days = (case bw_within_days b of None \<Rightarrow> 0 | Some d \<Rightarrow> d),
      reply_label_key = (case bw_reply_label_key b of None \<Rightarrow> [] | Some k \<Rightarrow> k),
      br_yes = (case bw_yes_step b of None \<Rightarrow> uuid_Nil | Some i \<Rightarrow> i),
      br_no = (case bw_no_step b of None \<Rightarrow> uuid_Nil | Some i \<Rightarrow> i)\<rparr>"

definition node_of :: "step_row \<Rightarrow> gstep" where
  "node_of st = \<lparr>step_id = st_id st, step_order = st_order st, delay_seconds = st_delay_seconds st\<rparr>"

definition BuildGraph :: "step_row list \<Rightarrow> branch_row list \<Rightarrow> graph" where
  "BuildGraph steps brs = New (map node_of steps) (map BranchFromRow brs)"

subsection \<open>Deciding a route\<close>

definition conditionRecheckInterval :: duration where "conditionRecheckInterval = hour"
definition routeDueTolerance :: duration where "routeDueTolerance = minute"

definition usesGraphRouting :: "branch_row list \<Rightarrow> route_bundle \<Rightarrow> bool" where
  "usesGraphRouting brs b \<longleftrightarrow>
     0 < length brs
     \<or> (case rb_awaiting b of
          None \<Rightarrow> False
        | Some k \<Rightarrow> k = rb_current_step b \<and> 0 < rb_current_step b)"

datatype routeDecision =
    routeSend gstep bool int
  | routeWait instant
  | routeEnd
  | routeSkip

record routeInput =
  ri_graph :: graph
  ri_cursor :: int
  ri_lastSentAt :: instant
  ri_now :: instant
  ri_window :: window
  ri_key :: string

type_synonym evidenceFunc = "gstep \<Rightarrow> branch \<Rightarrow> instant \<Rightarrow> core_error + instant"

definition maxTime :: "instant \<Rightarrow> instant \<Rightarrow> instant" where
  "maxTime a b = (if b < a then a else b)"

definition minTime :: "instant \<Rightarrow> instant \<Rightarrow> instant" where
  "minTime a b = (if a < b then a else b)"

definition snap :: "(string \<Rightarrow> string) \<Rightarrow> routeInput \<Rightarrow> instant \<Rightarrow> instant" where
  "snap sha r t = (case Next sha (ri_window r) t (ri_key r) of Inl _ \<Rightarrow> t | Inr at \<Rightarrow> at)"

text \<open>A \<open>routeSend\<close> with the route out of its target: last step or not, and the next delay.\<close>

definition sendDecision :: "routeInput \<Rightarrow> gstep \<Rightarrow> routeDecision" where
  "sendDecision r target =
     (case After (ri_graph r) (step_id target) of
        PlanEnd \<Rightarrow> routeSend target True 0
      | PlanNext n \<Rightarrow> routeSend target False (delay_seconds n)
      | PlanAwait b \<Rightarrow>
          routeSend target False (quot (min (branch_window b) conditionRecheckInterval) second))"

text \<open>The last check of \<open>decideRoute\<close>: a decided route waits for its delay and for the window.\<close>

definition dueDecision ::
  "(string \<Rightarrow> string) \<Rightarrow> routeInput \<Rightarrow> gstep \<Rightarrow> instant \<Rightarrow> routeDecision" where
  "dueDecision sha r target decidedAt =
     (let due = decidedAt + delay_seconds target * second in
      if ri_now r < due - routeDueTolerance \<or> \<not> Contains (ri_window r) (ri_now r)
      then routeWait (snap sha r (maxTime due (ri_now r)))
      else sendDecision r target)"

definition awaitDecision ::
  "(string \<Rightarrow> string) \<Rightarrow> routeInput \<Rightarrow> branch \<Rightarrow> instant \<Rightarrow> routeDecision" where
  "awaitDecision sha r b first =
     (let v = Evaluate (br_condition b) (ri_lastSentAt r) (branch_window b) first (ri_now r) in
      if \<not> decided v
      then routeWait (snap sha r (minTime (v_at v) (ri_now r + conditionRecheckInterval)))
      else case lookup_step (ri_graph r) (branch_target b v) of
             None \<Rightarrow> routeEnd
           | Some nxt \<Rightarrow> dueDecision sha r nxt (v_at v))"

definition decideRoute ::
  "(string \<Rightarrow> string) \<Rightarrow> routeInput \<Rightarrow> evidenceFunc \<Rightarrow> core_error + routeDecision" where
  "decideRoute sha r evidence =
     (if ri_cursor r = 0 then
        (case Entry (ri_graph r) of
           None \<Rightarrow> Inr routeSkip
         | Some entry \<Rightarrow> Inr (sendDecision r entry))
      else if is_zero_time (ri_lastSentAt r) then Inl (ErrOther ''no last_sent_at'')
      else
        case StepByOrder (ri_graph r) (ri_cursor r) of
          None \<Rightarrow> Inr routeEnd
        | Some cursor \<Rightarrow>
            (case After (ri_graph r) (step_id cursor) of
               PlanEnd \<Rightarrow> Inr routeEnd
             | PlanNext n \<Rightarrow> Inr (dueDecision sha r n (ri_lastSentAt r))
             | PlanAwait b \<Rightarrow>
                 (case evidence cursor b (ri_lastSentAt r) of
                    Inl e \<Rightarrow> Inl e
                  | Inr first \<Rightarrow> Inr (awaitDecision sha r b first))))"

subsection \<open>The evidence\<close>

definition earliest :: "instant list \<Rightarrow> instant option" where
  "earliest ts = (case sort ts of [] \<Rightarrow> None | t # _ \<Rightarrow> Some t)"

definition FirstHumanTrackingEventAt ::
  "uuid \<Rightarrow> uuid \<Rightarrow> string \<Rightarrow> instant \<Rightarrow> evidence_db \<Rightarrow> instant option" where
  "FirstHumanTrackingEventAt sendID ws kind windowEnd s =
     earliest (map te_created_at (filter
       (\<lambda>e. te_send e = sendID \<and> te_ws e = ws \<and> te_kind e = kind \<and> \<not> te_is_machine e
            \<and> te_created_at e \<le> windowEnd) (ev_events s)))"

text \<open>The label the message's class refers to is the left join; a label that does not exist falls
  back on the built-in automated keys.\<close>

definition is_automated :: "reply_label list \<Rightarrow> inbox_message \<Rightarrow> bool" where
  "is_automated labels m =
     (case select_one (\<lambda>l. rl_ws l = im_ws m \<and> rl_key l = im_reply_class m) labels of
        Some l \<Rightarrow> rl_is_automated l
      | None \<Rightarrow> im_reply_class m \<in> {''auto_reply'', ''out_of_office''})"

definition reply_counts :: "reply_label list \<Rightarrow> string \<Rightarrow> inbox_message \<Rightarrow> bool" where
  "reply_counts labels labelKey m \<longleftrightarrow>
     (if labelKey = [] then \<not> is_automated labels m else im_reply_class m = labelKey)"

definition in_conversation :: "inbox_thread list \<Rightarrow> uuid \<Rightarrow> uuid \<Rightarrow> inbox_message \<Rightarrow> bool" where
  "in_conversation threads campaignID contactID m \<longleftrightarrow>
     list_ex (\<lambda>t. th_id t = im_thread m \<and> th_ws t = im_ws m
                  \<and> th_campaign t = Some campaignID \<and> th_contact t = Some contactID) threads"

definition FirstInboundReplyAt ::
  "uuid \<Rightarrow> uuid \<Rightarrow> uuid \<Rightarrow> instant \<Rightarrow> instant \<Rightarrow> string \<Rightarrow> evidence_db \<Rightarrow> instant option" where
  "FirstInboundReplyAt ws campaignID contactID windowStart windowEnd labelKey s =
     earliest (map im_created_at (filter
       (\<lambda>m. im_ws m = ws \<and> in_conversation (ev_threads s) campaignID contactID m
            \<and> im_direction m = ''inbound''
            \<and> windowStart \<le> im_created_at m \<and> im_created_at m \<le> windowEnd
            \<and> reply_counts (ev_labels s) labelKey m) (ev_messages s)))"

definition or_zero :: "instant option \<Rightarrow> instant" where
  "or_zero at = (case at of None \<Rightarrow> 0 | Some t \<Rightarrow> t)"

definition firstEvidence ::
  "lib \<Rightarrow> faults \<Rightarrow> uuid \<Rightarrow> route_bundle \<Rightarrow> evidence_db \<Rightarrow> evidenceFunc" where
  "firstEvidence L flt ws b s cursor br start =
     (let ende = start + branch_window br;
          sendID = deriveStepSendID L (rb_campaign b) (rb_contact b) (step_order cursor);
          tracking = (\<lambda>kind. case flt ''FirstHumanTrackingEventAt'' of
              Some e \<Rightarrow> Inl (ErrDb e)
            | None \<Rightarrow> Inr (or_zero (FirstHumanTrackingEventAt sendID ws kind ende s)))
      in case Signal (br_condition br) of
           SignalOpen \<Rightarrow> tracking ''open''
         | SignalClick \<Rightarrow> tracking ''click''
         | SignalReply \<Rightarrow>
             (case flt ''FirstInboundReplyAt'' of
                Some e \<Rightarrow> Inl (ErrDb e)
              | None \<Rightarrow> Inr (or_zero (FirstInboundReplyAt ws (rb_campaign b) (rb_contact b) start ende
                                (reply_label_key br) s)))
         | SignalNone \<Rightarrow> Inl (ErrOther ''condition has no evidence to read''))"

subsection \<open>The loop backstop\<close>

definition StepSendCreatedAt :: "uuid \<Rightarrow> uuid \<Rightarrow> send list \<Rightarrow> instant option" where
  "StepSendCreatedAt i ws rows =
     map_option sd_created_at (select_one (\<lambda>r. sd_id r = i \<and> sd_ws r = ws) rows)"

definition stepSendCreatedAt ::
  "lib \<Rightarrow> faults \<Rightarrow> string \<Rightarrow> uuid \<Rightarrow> route_bundle \<Rightarrow> evidence_db \<Rightarrow> int
     \<Rightarrow> core_error + instant option" where
  "stepSendCreatedAt L flt stmt ws b s k =
     (case flt stmt of
        Some e \<Rightarrow> Inl (ErrDb e)
      | None \<Rightarrow> Inr (StepSendCreatedAt (deriveStepSendID L (rb_campaign b) (rb_contact b) k) ws
                       (ev_sends s)))"

definition revisits ::
  "lib \<Rightarrow> faults \<Rightarrow> uuid \<Rightarrow> route_bundle \<Rightarrow> evidence_db \<Rightarrow> int \<Rightarrow> gstep \<Rightarrow> core_error + bool" where
  "revisits L flt ws b s cursorOrder target =
     (case stepSendCreatedAt L flt ''StepSendCreatedAt target'' ws b s (step_order target) of
        Inl e \<Rightarrow> Inl e
      | Inr None \<Rightarrow> Inr False
      | Inr (Some targetAt) \<Rightarrow>
          (case stepSendCreatedAt L flt ''StepSendCreatedAt cursor'' ws b s cursorOrder of
             Inl e \<Rightarrow> Inl e
           | Inr None \<Rightarrow> Inr False
           | Inr (Some cursorAt) \<Rightarrow> Inr (targetAt < cursorAt)))"

subsection \<open>Routing one advance\<close>

definition ListStepsByCampaign :: "uuid \<Rightarrow> uuid \<Rightarrow> step_row list \<Rightarrow> step_row list" where
  "ListStepsByCampaign campaignID ws rows =
     sort_key st_order (filter (\<lambda>r. st_campaign r = campaignID \<and> st_ws r = ws) rows)"

text \<open>The step row travels beside the decision when there is something to send.\<close>

definition with_step ::
  "step_row list \<Rightarrow> routeDecision \<Rightarrow> core_error + (routeDecision \<times> step_row option)" where
  "with_step steps d =
     (case d of
        routeSend target _ _ \<Rightarrow>
          (case find (\<lambda>st. st_id st = step_id target) steps of
             Some st \<Rightarrow> Inr (d, Some st)
           | None \<Rightarrow> Inl (ErrOther ''routed step vanished''))
      | _ \<Rightarrow> Inr (d, None))"

definition routeGraph ::
  "lib \<Rightarrow> faults \<Rightarrow> uuid \<Rightarrow> string \<Rightarrow> route_bundle \<Rightarrow> branch_row list \<Rightarrow> schedule \<Rightarrow> instant
     \<Rightarrow> step_row list \<Rightarrow> evidence_db \<Rightarrow> core_error + (routeDecision \<times> step_row option)" where
  "routeGraph L flt ws enrollmentID b brs sched now rows s =
     (case flt ''ListStepsByCampaign'' of
        Some e \<Rightarrow> Inl (ErrDb e)
      | None \<Rightarrow>
          let steps = ListStepsByCampaign (rb_campaign b) ws rows in
          (case Compile (LoadLocation L) sched of
             Inl e \<Rightarrow> Inl (ErrSchedule e)
           | Inr win \<Rightarrow>
               let g = BuildGraph steps brs in
               (case decideRoute (sha256 L)
                       \<lparr>ri_graph = g, ri_cursor = rb_current_step b,
                        ri_lastSentAt = or_zero (rb_last_sent_at b), ri_now = now,
                        ri_window = win, ri_key = enrollmentID\<rparr>
                       (firstEvidence L flt ws b s) of
                  Inl e \<Rightarrow> Inl e
                | Inr (routeSend target lst delay) \<Rightarrow>
                    if 0 < rb_current_step b \<and> HasBranches g then
                      (case revisits L flt ws b s (rb_current_step b) target of
                         Inl e \<Rightarrow> Inl e
                       | Inr True \<Rightarrow> Inr (routeEnd, None)
                       | Inr False \<Rightarrow> with_step steps (routeSend target lst delay))
                    else with_step steps (routeSend target lst delay)
                | Inr d \<Rightarrow> Inr (d, None))))"

subsection \<open>Carrying out a route that sends nothing\<close>

definition route_recheck :: "route_bundle \<Rightarrow> instant \<Rightarrow> instant" where
  "route_recheck b recheckAt =
     (case rb_next_due_at b of
        None \<Rightarrow> recheckAt
      | Some due \<Rightarrow> if recheckAt < due then due else recheckAt)"

definition applyRoute ::
  "lib \<Rightarrow> faults \<Rightarrow> instant \<Rightarrow> uuid \<Rightarrow> uuid \<Rightarrow> string \<Rightarrow> route_bundle \<Rightarrow> routeDecision \<Rightarrow> db
     \<Rightarrow> (core_error + step_job) \<times> db" where
  "applyRoute L flt nowdb ws eid enrollmentID b d s =
     (case d of
        routeEnd \<Rightarrow>
          (case on_enrollments (FinishRoute (PgStore flt nowdb) ws eid) s of
             (Inl e, s') \<Rightarrow> (Inl e, s')
           | (Inr _, s') \<Rightarrow> (Inr (zero_job\<lparr>Skip := True\<rparr>), s'))
      | routeWait recheckAt \<Rightarrow>
          let recheck = route_recheck b recheckAt in
          (case on_enrollments (AwaitCondition (PgStore flt nowdb) ws eid recheck) s of
             (Inl e, s') \<Rightarrow> (Inl e, s')
           | (Inr _, s') \<Rightarrow>
               (Inr (zero_job\<lparr>EnrollmentID := enrollmentID, WorkspaceID := uuid_String L ws,
                              ConditionPending := True, RecheckAt := recheck, Skip := True\<rparr>), s'))
      | _ \<Rightarrow> (Inr (zero_job\<lparr>Skip := True\<rparr>), s))"

end
