(* ===== verification/Route_Facts.thy ===== *)
theory Route_Facts
  imports Branch_Route Wake_Times Enrollment_Service Graph_Routes
begin

text \<open>
  What routing promises (\<open>internal/coreapi/inprocess/branchroute.go\<close>): when a routed step may be
  sent, where a wait ends, that a route once taken is taken again after new events and sends have
  been recorded, and what parking or finishing an enrollment writes.
\<close>

subsection \<open>Cases\<close>

lemma sendDecision_simps [simp]:
  "sendDecision r t \<noteq> routeWait at" "sendDecision r t \<noteq> routeEnd" "sendDecision r t \<noteq> routeSkip"
  by (simp_all add: sendDecision_def split: plan.splits)

lemma sendDecision_target: "sendDecision r t = routeSend t' lst d \<Longrightarrow> t' = t"
  by (auto simp: sendDecision_def split: plan.splits)

text \<open>The route out of the cursor step: where it leads and when that was decided. \<open>Inl\<close> is a
  condition that is still open, with the instant it is looked at again.\<close>

definition route_out ::
  "routeInput \<Rightarrow> gstep \<Rightarrow> instant \<Rightarrow> instant + (gstep \<times> instant) option" where
  "route_out r cursor first =
     (case After (ri_graph r) (step_id cursor) of
        PlanEnd \<Rightarrow> Inr None
      | PlanNext n \<Rightarrow> Inr (Some (n, ri_lastSentAt r))
      | PlanAwait b \<Rightarrow>
          (let v = Evaluate (br_condition b) (ri_lastSentAt r) (branch_window b) first (ri_now r) in
           if \<not> decided v then Inl (minTime (v_at v) (ri_now r + conditionRecheckInterval))
           else Inr (map_option (\<lambda>n. (n, v_at v)) (lookup_step (ri_graph r) (branch_target b v)))))"

definition evidence_of ::
  "routeInput \<Rightarrow> evidenceFunc \<Rightarrow> gstep \<Rightarrow> core_error + instant" where
  "evidence_of r ev cursor =
     (case After (ri_graph r) (step_id cursor) of
        PlanAwait b \<Rightarrow> ev cursor b (ri_lastSentAt r)
      | _ \<Rightarrow> Inr 0)"

lemma decideRoute_later:
  assumes "ri_cursor r \<noteq> 0" and "ri_lastSentAt r \<noteq> 0" and "StepByOrder (ri_graph r) (ri_cursor r) = Some cursor"
  shows "decideRoute sha r ev =
     (case evidence_of r ev cursor of
        Inl e \<Rightarrow> Inl e
      | Inr first \<Rightarrow>
          (case route_out r cursor first of
             Inl at \<Rightarrow> Inr (routeWait (snap sha r at))
           | Inr None \<Rightarrow> Inr routeEnd
           | Inr (Some (target, decidedAt)) \<Rightarrow> Inr (dueDecision sha r target decidedAt)))"
  using assms
  by (auto simp: decideRoute_def evidence_of_def route_out_def awaitDecision_def Let_def
      split: plan.splits sum.splits option.splits)

lemma decideRoute_first:
  "ri_cursor r = 0 \<Longrightarrow> decideRoute sha r ev =
     Inr (case Entry (ri_graph r) of None \<Rightarrow> routeSkip | Some entry \<Rightarrow> sendDecision r entry)"
  by (simp add: decideRoute_def split: option.split)

lemma decideRoute_corrupted:
  "ri_cursor r \<noteq> 0 \<Longrightarrow> ri_lastSentAt r = 0 \<Longrightarrow>
     decideRoute sha r ev = Inl (ErrOther ''no last_sent_at'')"
  by (simp add: decideRoute_def)

lemma decideRoute_lost_step:
  "ri_cursor r \<noteq> 0 \<Longrightarrow> ri_lastSentAt r \<noteq> 0 \<Longrightarrow> StepByOrder (ri_graph r) (ri_cursor r) = None \<Longrightarrow>
     decideRoute sha r ev = Inr routeEnd"
  by (simp add: decideRoute_def)

lemma dueDecision_wait:
  "dueDecision sha r target at = routeWait t \<Longrightarrow>
     t = snap sha r (maxTime (at + delay_seconds target * second) (ri_now r))"
  by (simp add: dueDecision_def Let_def split: if_splits)

lemma dueDecision_send:
  "dueDecision sha r target at = routeSend t lst d \<longleftrightarrow>
     at + delay_seconds target * second - routeDueTolerance \<le> ri_now r
     \<and> Contains (ri_window r) (ri_now r) \<and> sendDecision r target = routeSend t lst d"
  by (auto simp: dueDecision_def Let_def)

lemma dueDecision_not_end [simp]:
  "dueDecision sha r target at \<noteq> routeEnd" "dueDecision sha r target at \<noteq> routeSkip"
  by (simp_all add: dueDecision_def Let_def)

lemma decideRoute_Inr:
  assumes "decideRoute sha r ev = Inr d" and "ri_cursor r \<noteq> 0"
  obtains (lost) "ri_lastSentAt r \<noteq> 0" "StepByOrder (ri_graph r) (ri_cursor r) = None" "d = routeEnd"
  | (still) cursor first at where "ri_lastSentAt r \<noteq> 0"
      "StepByOrder (ri_graph r) (ri_cursor r) = Some cursor" "evidence_of r ev cursor = Inr first"
      "route_out r cursor first = Inl at" "d = routeWait (snap sha r at)"
  | (ended) cursor first where "ri_lastSentAt r \<noteq> 0"
      "StepByOrder (ri_graph r) (ri_cursor r) = Some cursor" "evidence_of r ev cursor = Inr first"
      "route_out r cursor first = Inr None" "d = routeEnd"
  | (due) cursor first target at where "ri_lastSentAt r \<noteq> 0"
      "StepByOrder (ri_graph r) (ri_cursor r) = Some cursor" "evidence_of r ev cursor = Inr first"
      "route_out r cursor first = Inr (Some (target, at))" "d = dueDecision sha r target at"
proof -
  have nz: "ri_lastSentAt r \<noteq> 0"
    using assms decideRoute_corrupted by (metis sum.distinct(1))
  show thesis
  proof (cases "StepByOrder (ri_graph r) (ri_cursor r)")
    case None
    with decideRoute_lost_step [OF assms(2) nz] assms(1) nz lost show thesis by simp
  next
    case (Some cursor)
    note eq = assms(1) [unfolded decideRoute_later [OF assms(2) nz Some]]
    then obtain first where first: "evidence_of r ev cursor = Inr first"
      by (auto split: sum.splits)
    show thesis
    proof (cases "route_out r cursor first")
      case (Inl at)
      with eq first nz Some still show thesis by simp
    next
      case (Inr p)
      show thesis
      proof (cases p)
        case None
        with eq first nz \<open>StepByOrder _ _ = _\<close> Inr ended show thesis by simp
      next
        case (Some q)
        obtain target at where q: "q = (target, at)" by (cases q)
        with eq first nz \<open>StepByOrder _ _ = _\<close> Inr Some due show thesis by simp
      qed
    qed
  qed
qed

subsection \<open>Evidence that grows\<close>

lemma earliest_eq_Some: "earliest ts = Some t \<longleftrightarrow> t \<in> set ts \<and> (\<forall>u \<in> set ts. t \<le> u)"
proof (cases "sort ts")
  case Nil
  then have "ts = []" by (metis set_sort set_empty list.set(1))
  then show ?thesis by (simp add: earliest_def)
next
  case (Cons a as)
  have "sorted (a # as)" "set (a # as) = set ts" by (metis Cons sorted_sort, metis Cons set_sort)
  then have "a \<in> set ts" "\<forall>u \<in> set ts. a \<le> u" by auto
  then show ?thesis using Cons by (auto simp: earliest_def intro: antisym)
qed

lemma earliest_eq_None [simp]: "earliest ts = None \<longleftrightarrow> ts = []"
  by (cases "sort ts") (auto simp: earliest_def dest: arg_cong [of _ _ set])

lemma earliest_append:
  assumes "\<forall>x \<in> set xs. x \<le> now" and "\<forall>y \<in> set ys. now < y"
  shows "earliest (xs @ ys) = (if xs = [] then earliest ys else earliest xs)"
proof (cases "xs = []")
  case False
  then obtain t where t: "earliest xs = Some t" by (metis earliest_eq_None not_None_eq)
  with assms have "earliest (xs @ ys) = Some t" by (fastforce simp: earliest_eq_Some)
  with t False show ?thesis by simp
qed simp

text \<open>What is recorded after an instant: events, messages, threads for them, and sends, each stamped
  later. Rows already there may be updated, as the thread of a later reply is and one that is read, and
  a send that is reported; they keep their key and stamp. Labels stay as they are.\<close>

definition thread_key :: "inbox_thread \<Rightarrow> uuid \<times> uuid \<times> uuid option \<times> uuid option" where
  "thread_key t = (th_id t, th_ws t, th_campaign t, th_contact t)"

definition send_stamp :: "send \<Rightarrow> uuid \<times> uuid \<times> instant" where
  "send_stamp r = (sd_id r, sd_ws r, sd_created_at r)"

definition grown :: "instant \<Rightarrow> evidence_db \<Rightarrow> evidence_db \<Rightarrow> bool" where
  "grown now s s' \<longleftrightarrow>
     ev_labels s' = ev_labels s
     \<and> (\<exists>es. ev_events s' = ev_events s @ es \<and> (\<forall>e \<in> set es. now < te_created_at e))
     \<and> (\<exists>ms ts. ev_messages s' = ev_messages s @ ms \<and> (\<forall>m \<in> set ms. now < im_created_at m)
          \<and> map thread_key (ev_threads s') = map thread_key (ev_threads s) @ map thread_key ts
          \<and> (\<forall>m \<in> set (ev_messages s). \<forall>t \<in> set ts. th_id t \<noteq> im_thread m))
     \<and> (\<exists>ss. map send_stamp (ev_sends s') = map send_stamp (ev_sends s) @ map send_stamp ss
          \<and> (\<forall>r \<in> set ss. now < sd_created_at r))
     \<and> (\<forall>e \<in> set (ev_events s). te_created_at e \<le> now)
     \<and> (\<forall>m \<in> set (ev_messages s). im_created_at m \<le> now)
     \<and> (\<forall>r \<in> set (ev_sends s). sd_created_at r \<le> now)"

text \<open>An answer of one of the two queries, before and after: the same once there is one, and once
  the window has closed.\<close>

lemma earliest_filter_grown:
  assumes "\<forall>x \<in> set xs. f x \<le> now" and "\<forall>y \<in> set ys. now < f y"
    and "\<And>x. x \<in> set xs \<Longrightarrow> P' x = P x" and "\<And>x. P' x \<Longrightarrow> f x \<le> deadline"
  shows "earliest (map f (filter P xs)) \<noteq> None \<or> deadline \<le> now \<Longrightarrow>
     earliest (map f (filter P' (xs @ ys))) = earliest (map f (filter P xs))"
proof -
  assume asm: "earliest (map f (filter P xs)) \<noteq> None \<or> deadline \<le> now"
  have same: "filter P' xs = filter P xs" using assms(3) by (rule filter_cong [OF refl])
  have "filter P' ys = []" if "deadline \<le> now"
    using assms(2,4) that by (fastforce simp: filter_empty_conv)
  with asm show ?thesis
    using earliest_append [of "map f (filter P xs)" now "map f (filter P' ys)"] assms(1,2)
    by (auto simp: same filter_empty_conv)
qed

lemma tracking_grown:
  assumes "grown now s s'"
    and "FirstHumanTrackingEventAt i ws k deadline s \<noteq> None \<or> deadline \<le> now"
  shows "FirstHumanTrackingEventAt i ws k deadline s' = FirstHumanTrackingEventAt i ws k deadline s"
proof -
  from assms(1) obtain es where es: "ev_events s' = ev_events s @ es"
      "\<forall>e \<in> set es. now < te_created_at e" "\<forall>e \<in> set (ev_events s). te_created_at e \<le> now"
    by (auto simp: grown_def)
  show ?thesis
    using assms(2) unfolding FirstHumanTrackingEventAt_def es(1)
    by (intro earliest_filter_grown [OF es(3,2)]) auto
qed

lemma in_conversation_keys:
  "in_conversation threads c ct m =
     list_ex (\<lambda>k. k = (im_thread m, im_ws m, Some c, Some ct)) (map thread_key threads)"
  by (induction threads) (auto simp: in_conversation_def thread_key_def)

lemma reply_grown:
  assumes "grown now s s'"
    and "FirstInboundReplyAt ws c ct start deadline l s \<noteq> None \<or> deadline \<le> now"
  shows "FirstInboundReplyAt ws c ct start deadline l s' = FirstInboundReplyAt ws c ct start deadline l s"
proof -
  from assms(1) obtain ms ts where ms: "ev_messages s' = ev_messages s @ ms"
      "\<forall>m \<in> set ms. now < im_created_at m" "\<forall>m \<in> set (ev_messages s). im_created_at m \<le> now"
    and ts: "map thread_key (ev_threads s') = map thread_key (ev_threads s) @ map thread_key ts"
      "\<forall>m \<in> set (ev_messages s). \<forall>t \<in> set ts. th_id t \<noteq> im_thread m"
    and lab: "ev_labels s' = ev_labels s"
    by (auto simp: grown_def)
  have "in_conversation (ev_threads s') c ct m = in_conversation (ev_threads s) c ct m"
    if "m \<in> set (ev_messages s)" for m
  proof -
    have "\<not> list_ex (\<lambda>k. k = (im_thread m, im_ws m, Some c, Some ct)) (map thread_key ts)"
      using ts(2) that by (auto simp: list_ex_iff thread_key_def dest: sym)
    then show ?thesis unfolding in_conversation_keys ts(1) by simp
  qed
  then show ?thesis
    using assms(2) unfolding FirstInboundReplyAt_def ms(1) lab
    by (intro earliest_filter_grown [OF ms(3,2)]) auto
qed

lemma or_zero_cong: "(x \<noteq> None \<or> d \<le> now \<Longrightarrow> y = x) \<Longrightarrow> or_zero x \<noteq> 0 \<or> d \<le> now \<Longrightarrow> or_zero y = or_zero x"
  by (cases x) (auto simp: or_zero_def)

lemma firstEvidence_grown:
  assumes "grown now s s'"
    and "firstEvidence L flt ws b s cursor br start = Inr first"
    and "firstEvidence L flt' ws b s' cursor br start = Inr first'"
    and "first \<noteq> 0 \<or> start + branch_window br \<le> now"
  shows "first' = first"
proof (cases "Signal (br_condition br)")
  case SignalNone
  with assms(2) show ?thesis by (simp add: firstEvidence_def Let_def)
next
  case SignalOpen
  with assms(2-4) show ?thesis
    by (auto simp: firstEvidence_def Let_def split: option.splits
        intro!: or_zero_cong [OF tracking_grown [OF assms(1)]])
next
  case SignalClick
  with assms(2-4) show ?thesis
    by (auto simp: firstEvidence_def Let_def split: option.splits
        intro!: or_zero_cong [OF tracking_grown [OF assms(1)]])
next
  case SignalReply
  with assms(2-4) show ?thesis
    by (auto simp: firstEvidence_def Let_def split: option.splits
        intro!: or_zero_cong [OF reply_grown [OF assms(1)]])
qed

lemma Evaluate_decided:
  "decided (Evaluate c start w first now) \<Longrightarrow> c = Always \<or> first \<noteq> 0 \<and> first \<le> start + w \<or> start + w \<le> now"
  by (auto simp: Evaluate_def Let_def split: if_splits)

lemma Evaluate_later:
  "decided (Evaluate c start w first now) \<Longrightarrow> now \<le> now' \<Longrightarrow>
     Evaluate c start w first now' = Evaluate c start w first now"
  by (auto simp: Evaluate_def Let_def split: if_splits)

text \<open>A decided route is the same route at every later look.\<close>

lemma route_out_grown:
  assumes grown: "grown (ri_now r) s s'" and later: "ri_now r \<le> now'"
    and ev: "evidence_of r (firstEvidence L flt ws b s) cursor = Inr first"
      "evidence_of (r\<lparr>ri_now := now'\<rparr>) (firstEvidence L flt' ws b s') cursor = Inr first'"
    and out: "route_out r cursor first = Inr p"
  shows "route_out (r\<lparr>ri_now := now'\<rparr>) cursor first' = Inr p"
proof (cases "After (ri_graph r) (step_id cursor)")
  case (PlanAwait br)
  let ?v = "Evaluate (br_condition br) (ri_lastSentAt r) (branch_window br) first (ri_now r)"
  have dec: "decided ?v"
    using out by (auto simp: route_out_def PlanAwait Let_def split: if_splits)
  have e: "firstEvidence L flt ws b s cursor br (ri_lastSentAt r) = Inr first"
    "firstEvidence L flt' ws b s' cursor br (ri_lastSentAt r) = Inr first'"
    using ev by (simp_all add: evidence_of_def PlanAwait)
  then have "br_condition br \<noteq> Always"
    by (auto simp: firstEvidence_def Let_def Signal_def)
  with Evaluate_decided [OF dec]
  have "first' = first" by (intro firstEvidence_grown [OF grown e]) auto
  with out dec Evaluate_later [OF dec later] show ?thesis
    by (simp add: route_out_def PlanAwait Let_def)
qed (use out in \<open>auto simp: route_out_def\<close>)

lemma sendDecision_now [simp]: "sendDecision (r\<lparr>ri_now := n\<rparr>) t = sendDecision r t"
  by (simp add: sendDecision_def)

lemma decideRoute_grown:
  assumes grown: "grown (ri_now r) s s'" and later: "ri_now r \<le> now'"
    and open_now: "Contains (ri_window r) now'"
    and before: "decideRoute sha r (firstEvidence L flt ws b s) = Inr d"
    and after: "decideRoute sha (r\<lparr>ri_now := now'\<rparr>) (firstEvidence L flt' ws b s') = Inr d'"
    and taken: "\<And>t. d \<noteq> routeWait t"
  shows "d' = d"
proof (cases "ri_cursor r = 0")
  case True
  with before after show ?thesis by (simp add: decideRoute_first split: option.splits)
next
  case False
  let ?r = "r\<lparr>ri_now := now'\<rparr>"
  have cur: "ri_cursor ?r \<noteq> 0" using False by simp
  note later_eq = decideRoute_later [OF cur]
  show ?thesis
    using before False
  proof (cases rule: decideRoute_Inr)
    case lost
    with after decideRoute_lost_step [OF cur] show ?thesis by simp
  next
    case (still cursor first at)
    with taken show ?thesis by blast
  next
    case (ended cursor first)
    with after obtain first' where f: "evidence_of ?r (firstEvidence L flt' ws b s') cursor = Inr first'"
      by (simp add: later_eq split: sum.splits)
    from ended after f route_out_grown [OF grown later ended(3) f ended(4)] show ?thesis
      by (simp add: later_eq)
  next
    case (due cursor first target at)
    with after obtain first' where f: "evidence_of ?r (firstEvidence L flt' ws b s') cursor = Inr first'"
      by (simp add: later_eq split: sum.splits)
    have "d' = dueDecision sha ?r target at"
      using due after f route_out_grown [OF grown later due(3) f due(4)] by (simp add: later_eq)
    moreover have "d = sendDecision r target"
        "at + delay_seconds target * second - routeDueTolerance \<le> ri_now r"
      using due(5) taken by (auto simp: dueDecision_def Let_def split: if_splits)
    ultimately show ?thesis
      using later open_now by (simp add: dueDecision_def Let_def)
  qed
qed

subsection \<open>The loop backstop\<close>

definition stamped_at :: "uuid \<Rightarrow> uuid \<Rightarrow> (uuid \<times> uuid \<times> instant) list \<Rightarrow> instant option" where
  "stamped_at i ws stamps = map_option (\<lambda>(_, _, t). t) (find (\<lambda>(j, w, _). j = i \<and> w = ws) stamps)"

lemma StepSendCreatedAt_stamps:
  "StepSendCreatedAt i ws rows = stamped_at i ws (map send_stamp rows)"
  by (induction rows) (auto simp: StepSendCreatedAt_def send_stamp_def stamped_at_def)

lemma stamped_at_append:
  "stamped_at i ws (xs @ ys) =
     (case stamped_at i ws xs of Some t \<Rightarrow> Some t | None \<Rightarrow> stamped_at i ws ys)"
  by (induction xs) (auto simp: stamped_at_def)

lemma stamped_at_mem: "stamped_at i ws (map send_stamp rows) = Some t \<Longrightarrow> \<exists>r \<in> set rows. sd_created_at r = t"
  by (induction rows) (auto simp: stamped_at_def send_stamp_def split: if_splits)

lemma StepSendCreatedAt_grown:
  assumes "grown now s s'"
  shows "StepSendCreatedAt i ws (ev_sends s) = Some t \<Longrightarrow> StepSendCreatedAt i ws (ev_sends s') = Some t \<and> t \<le> now"
    and "StepSendCreatedAt i ws (ev_sends s) = None \<Longrightarrow>
      StepSendCreatedAt i ws (ev_sends s') = Some t \<Longrightarrow> now < t"
proof -
  from assms obtain ss where
    ss: "map send_stamp (ev_sends s') = map send_stamp (ev_sends s) @ map send_stamp ss"
      "\<forall>r \<in> set ss. now < sd_created_at r" "\<forall>r \<in> set (ev_sends s). sd_created_at r \<le> now"
    by (auto simp: grown_def)
  show "StepSendCreatedAt i ws (ev_sends s') = Some t \<and> t \<le> now"
    if "StepSendCreatedAt i ws (ev_sends s) = Some t"
    using that ss(3) unfolding StepSendCreatedAt_stamps ss(1) stamped_at_append
    by (auto dest: stamped_at_mem)
  show "now < t" if "StepSendCreatedAt i ws (ev_sends s) = None"
    and "StepSendCreatedAt i ws (ev_sends s') = Some t"
    using that ss(2) unfolding StepSendCreatedAt_stamps ss(1) stamped_at_append
    by (auto dest: stamped_at_mem)
qed

definition cursor_sent :: "lib \<Rightarrow> uuid \<Rightarrow> route_bundle \<Rightarrow> evidence_db \<Rightarrow> instant option" where
  "cursor_sent L ws b s =
     StepSendCreatedAt (deriveStepSendID L (rb_campaign b) (rb_contact b) (rb_current_step b)) ws (ev_sends s)"

definition target_sent :: "lib \<Rightarrow> uuid \<Rightarrow> route_bundle \<Rightarrow> evidence_db \<Rightarrow> gstep \<Rightarrow> instant option" where
  "target_sent L ws b s target =
     StepSendCreatedAt (deriveStepSendID L (rb_campaign b) (rb_contact b) (step_order target)) ws (ev_sends s)"

lemma revisits_Inr:
  "revisits L flt ws b s (rb_current_step b) target = Inr x \<Longrightarrow>
     x = (case (target_sent L ws b s target, cursor_sent L ws b s) of
            (Some t, Some c) \<Rightarrow> t < c | _ \<Rightarrow> False)"
  by (auto simp: revisits_def stepSendCreatedAt_def cursor_sent_def target_sent_def
      split: option.splits)

lemma revisits_grown:
  assumes "grown now s s'" and "cursor_sent L ws b s \<noteq> None"
    and "revisits L flt ws b s (rb_current_step b) target = Inr x"
    and "revisits L flt' ws b s' (rb_current_step b) target = Inr x'"
  shows "x' = x"
proof -
  from assms(2) obtain c where c: "cursor_sent L ws b s = Some c" by auto
  with StepSendCreatedAt_grown(1) [OF assms(1)]
  have c': "cursor_sent L ws b s' = Some c" "c \<le> now" by (simp_all add: cursor_sent_def)
  show ?thesis
  proof (cases "target_sent L ws b s target")
    case (Some t)
    with StepSendCreatedAt_grown(1) [OF assms(1)]
    have "target_sent L ws b s' target = Some t" by (simp add: target_sent_def)
    with Some c c' revisits_Inr [OF assms(3)] revisits_Inr [OF assms(4)] show ?thesis by simp
  next
    case None
    then have "now < t" if "target_sent L ws b s' target = Some t" for t
      using StepSendCreatedAt_grown(2) [OF assms(1)] that by (simp add: target_sent_def)
    with None c c' revisits_Inr [OF assms(3)] revisits_Inr [OF assms(4)] show ?thesis
      by (auto split: option.splits)
  qed
qed

subsection \<open>Routing one advance\<close>

definition route_input ::
  "step_row list \<Rightarrow> branch_row list \<Rightarrow> uuid \<Rightarrow> route_bundle \<Rightarrow> window \<Rightarrow> string \<Rightarrow> instant \<Rightarrow> routeInput" where
  "route_input rows brs ws b win key now =
     \<lparr>ri_graph = BuildGraph (ListStepsByCampaign (rb_campaign b) ws rows) brs,
      ri_cursor = rb_current_step b, ri_lastSentAt = or_zero (rb_last_sent_at b),
      ri_now = now, ri_window = win, ri_key = key\<rparr>"

text \<open>What \<open>routeGraph\<close> makes of a decision.\<close>

definition backstop ::
  "lib \<Rightarrow> faults \<Rightarrow> uuid \<Rightarrow> route_bundle \<Rightarrow> evidence_db \<Rightarrow> graph \<Rightarrow> step_row list
     \<Rightarrow> routeDecision \<Rightarrow> core_error + (routeDecision \<times> step_row option)" where
  "backstop L flt ws b s g steps d =
     (case d of
        routeSend target lst delay \<Rightarrow>
          if 0 < rb_current_step b \<and> HasBranches g then
            (case revisits L flt ws b s (rb_current_step b) target of
               Inl e \<Rightarrow> Inl e
             | Inr True \<Rightarrow> Inr (routeEnd, None)
             | Inr False \<Rightarrow> with_step steps d)
          else with_step steps d
      | _ \<Rightarrow> Inr (d, None))"

lemma routeGraph_Inr:
  assumes "routeGraph L flt ws key b brs sched now rows s = Inr x"
  obtains win d where "Compile (LoadLocation L) sched = Inr win"
    and "decideRoute (sha256 L) (route_input rows brs ws b win key now) (firstEvidence L flt ws b s) = Inr d"
    and "backstop L flt ws b s (ri_graph (route_input rows brs ws b win key now))
           (ListStepsByCampaign (rb_campaign b) ws rows) d = Inr x"
  using assms
  by (auto simp: routeGraph_def route_input_def backstop_def Let_def
      split: option.splits sum.splits routeDecision.splits)

lemma backstop_wait [simp]: "backstop L flt ws b s g steps (routeWait t) = Inr (routeWait t, None)"
  by (simp add: backstop_def)

lemma with_step_Inr: "with_step steps d = Inr x \<Longrightarrow> fst x = d"
  by (auto simp: with_step_def split: routeDecision.splits option.splits)

lemma with_step_send:
  assumes "with_step steps (routeSend target lst delay) = Inr (d, st)"
  shows "\<exists>row \<in> set steps. st = Some row \<and> st_id row = step_id target"
proof (cases "find (\<lambda>r. st_id r = step_id target) steps")
  case None
  with assms show ?thesis by (simp add: with_step_def)
next
  case (Some row)
  with assms have "st = Some row" by (simp add: with_step_def)
  with find_Some_mem [OF Some] show ?thesis by blast
qed

lemma backstop_not_wait: "backstop L flt ws b s g steps d = Inr x \<Longrightarrow> fst x = routeWait t \<Longrightarrow> d = routeWait t"
  by (auto simp: backstop_def split: routeDecision.splits if_splits sum.splits bool.splits dest!: with_step_Inr)

lemma backstop_send:
  assumes "backstop L flt ws b s g steps d = Inr x" and "fst x = routeSend target lst delay"
  shows "d = routeSend target lst delay" and "with_step steps d = Inr x"
    and "0 < rb_current_step b \<Longrightarrow> HasBranches g \<Longrightarrow>
      revisits L flt ws b s (rb_current_step b) target = Inr False"
proof -
  obtain t l e where d: "d = routeSend t l e" using assms by (cases d) (auto simp: backstop_def)
  show w: "with_step steps d = Inr x"
    using assms by (auto simp: d backstop_def split: if_splits sum.splits bool.splits)
  then show dd: "d = routeSend target lst delay" using with_step_Inr assms(2) by metis
  show "revisits L flt ws b s (rb_current_step b) target = Inr False"
    if "0 < rb_current_step b" "HasBranches g"
    using assms that dd by (auto simp: backstop_def split: sum.splits bool.splits)
qed

lemma backstop_grown:
  assumes "grown now s s'" and "cursor_sent L ws b s \<noteq> None \<or> rb_current_step b \<le> 0"
    and "backstop L flt ws b s g steps d = Inr x" and "backstop L flt' ws b s' g steps d = Inr x'"
  shows "x' = x"
proof (cases d)
  case (routeSend target lst delay)
  show ?thesis
  proof (cases "0 < rb_current_step b \<and> HasBranches g")
    case False
    with assms(3,4) routeSend show ?thesis by (auto simp: backstop_def)
  next
    case True
    with assms(3,4) routeSend obtain y y' where
      y: "revisits L flt ws b s (rb_current_step b) target = Inr y"
        "revisits L flt' ws b s' (rb_current_step b) target = Inr y'"
      by (auto simp: backstop_def split: sum.splits)
    have "y' = y" using assms(2) True by (intro revisits_grown [OF assms(1) _ y]) auto
    with assms(3,4) routeSend True y show ?thesis by (cases y) (auto simp: backstop_def)
  qed
qed (use assms in \<open>auto simp: backstop_def\<close>)

text \<open>C16: A route that was taken is taken again. When routing decided to send a step or to end the
  path, then at any later instant inside the sending window, with the same steps, branches, schedule
  and reply labels, after more events, replies and sends stamped later have been recorded (the send row
  of the routed step among them) and however the threads and sends already there were updated, routing
  again either fails on a statement or gives the same decision for the same step. Outside the window
  it waits for the window.\<close>

theorem route_taken_again:
  assumes "routeGraph L flt ws key b brs sched now rows s = Inr x"
    and "\<And>t. fst x \<noteq> routeWait t"
    and "grown now s s'" and "cursor_sent L ws b s \<noteq> None \<or> rb_current_step b \<le> 0" and "now \<le> now'"
    and "Compile (LoadLocation L) sched = Inr win" and "Contains win now'"
    and "routeGraph L flt' ws key b brs sched now' rows s' = Inr x'"
  shows "x' = x"
proof -
  let ?r = "route_input rows brs ws b win key now"
  let ?steps = "ListStepsByCampaign (rb_campaign b) ws rows"
  have at_later: "route_input rows brs ws b win key now' = ?r\<lparr>ri_now := now'\<rparr>"
    and g: "ri_graph (route_input rows brs ws b win key now') = ri_graph ?r"
    by (simp_all add: route_input_def)
  obtain d where d: "decideRoute (sha256 L) ?r (firstEvidence L flt ws b s) = Inr d"
    and x: "backstop L flt ws b s (ri_graph ?r) ?steps d = Inr x"
    by (rule routeGraph_Inr [OF assms(1)]) (use assms(6) in simp)
  obtain d' where
    d': "decideRoute (sha256 L) (?r\<lparr>ri_now := now'\<rparr>) (firstEvidence L flt' ws b s') = Inr d'"
    and x': "backstop L flt' ws b s' (ri_graph ?r) ?steps d' = Inr x'"
    by (rule routeGraph_Inr [OF assms(8)]) (use assms(6) g at_later in simp)
  have taken: "d \<noteq> routeWait t" for t using x assms(2) [of t] by auto
  have "d' = d"
    by (rule decideRoute_grown [OF _ _ _ d d' taken])
      (use assms(3,5,7) in \<open>simp_all add: route_input_def\<close>)
  with x' backstop_grown [OF assms(3,4) x] show ?thesis by simp
qed

subsection \<open>When a routed step is sent\<close>

lemma Evaluate_not_before:
  "decided (Evaluate c start w first now) \<Longrightarrow> 0 \<le> w \<Longrightarrow> start \<le> v_at (Evaluate c start w first now)"
  by (auto simp: Evaluate_def Let_def split: if_splits)

lemma After_branch: "After g i = PlanAwait b \<Longrightarrow> lookup_branch g i = Some b"
  by (auto simp: After_def split: option.splits if_splits)

lemma lookup_branch_BuildGraph:
  "lookup_branch (BuildGraph steps brs) i = Some b \<Longrightarrow> \<exists>r \<in> set brs. b = BranchFromRow r"
  unfolding BuildGraph_def by (auto dest!: lookup_branch_New)

lemma HasBranches_BuildGraph: "HasBranches (BuildGraph steps brs) \<longleftrightarrow> brs \<noteq> []"
  by (simp add: HasBranches_def BuildGraph_def)

lemma route_out_not_before:
  assumes "route_out r cursor first = Inr (Some (target, at))" and "ri_graph r = BuildGraph steps brs"
    and "\<forall>b \<in> set brs. 0 \<le> within_days (BranchFromRow b)"
  shows "ri_lastSentAt r \<le> at"
proof (cases "After (ri_graph r) (step_id cursor)")
  case (PlanAwait b)
  with After_branch assms(2,3) have "0 \<le> within_days b"
    by (metis lookup_branch_BuildGraph)
  then have "0 \<le> branch_window b" by (simp add: branch_window_def hour_def)
  with assms(1) PlanAwait Evaluate_not_before show ?thesis
    by (auto simp: route_out_def Let_def split: if_splits option.splits)
qed (use assms(1) in \<open>auto simp: route_out_def\<close>)


subsection \<open>Where a wait ends\<close>

lemma snap_in_window:
  assumes "win_loc (ri_window r) = fixed_zone off" and "validate_window (ri_window r) = None"
    and "ri_key r \<noteq> []"
  shows "Contains (ri_window r) (snap sha r t)" and "t - minute < snap sha r t"
    and "snap sha r t < t + 9 * day_ns"
proof -
  obtain u where u: "Next sha (ri_window r) t (ri_key r) = Inr u"
    by (rule Next_returns [OF assms])
  note pl = Next_minute [OF assms(1,2) u]
  show "Contains (ri_window r) (snap sha r t)" "snap sha r t < t + 9 * day_ns"
    using pl by (simp_all add: snap_def u)
  show "t - minute < snap sha r t" using abs_minute_gap [OF pl(2)] by (simp add: snap_def u)
qed

lemma route_out_still:
  "route_out r cursor first = Inl at \<Longrightarrow> ri_now r < at \<and> at \<le> ri_now r + hour"
  by (auto simp: route_out_def Let_def Evaluate_def minTime_def conditionRecheckInterval_def hour_def
      split: plan.splits if_splits)

text \<open>A wait that routing asks for ends inside the sending window, in a zone with a fixed offset;
  it never ends earlier than the minute of now.\<close>

theorem wait_ends_in_window:
  assumes "routeGraph L flt ws key b brs sched now rows s = Inr (routeWait t, st)"
    and "Compile (LoadLocation L) sched = Inr win" and "win_loc win = fixed_zone off" and "key \<noteq> []"
    and "rb_current_step b \<noteq> 0"
  shows "Contains win t \<and> now - minute < t"
proof -
  let ?r = "route_input rows brs ws b win key now"
  let ?steps = "ListStepsByCampaign (rb_campaign b) ws rows"
  obtain d where d: "decideRoute (sha256 L) ?r (firstEvidence L flt ws b s) = Inr d"
    and bs: "backstop L flt ws b s (ri_graph ?r) ?steps d = Inr (routeWait t, st)"
    by (rule routeGraph_Inr [OF assms(1)]) (use assms(2) in simp)
  have w: "d = routeWait t" by (rule backstop_not_wait [OF bs]) simp
  have good: "win_loc (ri_window ?r) = fixed_zone off" "validate_window (ri_window ?r) = None" "ri_key ?r \<noteq> []"
    using assms(2-4) Compile_valid by (auto simp: route_input_def)
  have *: "Contains win t \<and> now - minute < t" if "t = snap (sha256 L) ?r u" "now \<le> u" for u
    using snap_in_window [OF good, where sha = "sha256 L" and t = u] that by (simp add: route_input_def)
  have "ri_cursor ?r \<noteq> 0" using assms(5) by (simp add: route_input_def)
  with d show ?thesis
  proof (cases rule: decideRoute_Inr)
    case (still cursor first at)
    have "now \<le> at" using route_out_still [OF still(4)] by (simp add: route_input_def)
    with still(5) w * show ?thesis by simp
  next
    case (due cursor first target at)
    have "t = snap (sha256 L) ?r (maxTime (at + delay_seconds target * second) now)"
      using dueDecision_wait [OF due(5) [unfolded w, symmetric]] by (simp add: route_input_def)
    then show ?thesis by (rule *) (simp add: maxTime_def)
  qed (simp_all add: w)
qed

subsection \<open>Parking and finishing\<close>

text \<open>Carrying out a decision that sends nothing touches no send. A wait stamps the active
  enrollment with the very instant the job asks to be woken at, never earlier than the due time
  already on the row, and marks the step it waits on; an ended path completes the enrollment. An
  enrollment that is not active keeps its state, as does every other one.\<close>

theorem route_carried_out:
  assumes "applyRoute L flt nowdb ws eid key b d s = (Inr job, s')"
  shows "db_sends s' = db_sends s \<and> db_mailboxes s' = db_mailboxes s
     \<and> (case d of
          routeWait t \<Rightarrow> ConditionPending job \<and> t \<le> RecheckAt job
            \<and> (case rb_next_due_at b of None \<Rightarrow> RecheckAt job = t | Some due \<Rightarrow> RecheckAt job = max t due)
            \<and> db_enrollments s' = update_where (active_row ws eid)
                 (\<lambda>e. e\<lparr>next_due_at := Some (RecheckAt job),
                        awaiting_condition_step := Some (current_step e)\<rparr>) (db_enrollments s)
        | routeEnd \<Rightarrow> Skip job \<and> db_enrollments s' = update_where (active_row ws eid)
                 (\<lambda>e. e\<lparr>en_status := StatusCompleted, completed_at := Some nowdb, next_due_at := None\<rparr>)
                 (db_enrollments s)
        | _ \<Rightarrow> Skip job \<and> s' = s)"
  using assms
  by (cases d; cases "rb_next_due_at b")
    (auto simp: applyRoute_def route_recheck_def on_enrollments_def Let_def FinishRoute_def
      AwaitCondition_def PgStore_def FinishEnrollment_def AwaitEnrollmentCondition_def max_def
      split: sum.splits if_splits)

subsection \<open>Witnesses\<close>

definition route_lib :: lib where
  "route_lib = sample_zones\<lparr>uuid_String := (\<lambda>_. ''u''),
     NewSHA1 := (\<lambda>_ s. if last s = CHR ''1'' then 11 else 13)\<rparr>"

definition step_sample :: "uuid \<Rightarrow> int \<Rightarrow> step_row" where
  "step_sample i k = \<lparr>st_id = i, st_ws = 1, st_campaign = 7, st_order = k, st_delay_seconds = 86400,
     st_subject = [], st_body_text = [], st_body_html = [], st_variant_weight = 1\<rparr>"

definition route_rows :: "step_row list" where
  "route_rows = [step_sample 21 1, step_sample 22 2, step_sample 23 3]"

definition route_branches :: "branch_row list" where
  "route_branches = [\<lparr>bw_step = 21, bw_ws = 1, bw_campaign = 7, bw_condition = Opened,
     bw_within_days = Some 3, bw_reply_label_key = None, bw_yes_step = Some 23, bw_no_step = None\<rparr>]"

definition route_sample :: route_bundle where
  "route_sample = \<lparr>rb_campaign = 7, rb_contact = 8, rb_current_step = 1,
     rb_last_sent_at = Some (600 * minute), rb_next_due_at = None, rb_awaiting = Some 1\<rparr>"

definition route_send :: "uuid \<Rightarrow> int \<Rightarrow> instant \<Rightarrow> send" where
  "route_send i k t = \<lparr>sd_id = i, sd_ws = 1, sd_campaign = 7, sd_contact = 8, sd_mailbox = 4,
     sd_to_email = [], sd_step_order = k, sd_references = [], sd_status = ''sent'', sd_error = [],
     sd_message_id = [], sd_created_at = t, sd_sent_at = Some t, sd_claimed_at = Some t,
     sd_variant = None, sd_tracked = True\<rparr>"

definition route_evidence :: "tracking_event list \<Rightarrow> send list \<Rightarrow> evidence_db" where
  "route_evidence es ss = \<lparr>ev_sends = route_send 11 1 (600 * minute) # ss, ev_events = es,
     ev_threads = [], ev_messages = [], ev_labels = []\<rparr>"

definition opened_at :: "instant \<Rightarrow> tracking_event" where
  "opened_at t = \<lparr>te_ws = 1, te_send = 11, te_kind = ''open'', te_is_machine = False, te_created_at = t\<rparr>"

abbreviation route_at :: "instant \<Rightarrow> evidence_db \<Rightarrow> core_error + (routeDecision \<times> step_row option)" where
  "route_at now s \<equiv> routeGraph route_lib no_faults 1 ''e'' route_sample route_branches
     (DefaultSchedule ''UTC'') now route_rows s"

definition wednesday :: instant where "wednesday = 2 * day_ns + 600 * minute"

lemma route_at_sends:
  "route_at wednesday (route_evidence [opened_at (660 * minute)] [])
     = Inr (routeSend (node_of (step_sample 23 3)) True 0, Some (step_sample 23 3))"
  by code_simp

lemma route_windows: "Compile (LoadLocation route_lib) (DefaultSchedule ''UTC'') = Inr weekdays"
  using weekdays_compile by (simp add: route_lib_def)


lemma route_grown:
  "grown wednesday (route_evidence [opened_at (660 * minute)] [])
     (route_evidence [opened_at (660 * minute), opened_at (wednesday + 1)] [route_send 13 3 (wednesday + 1)])"
  unfolding grown_def route_evidence_def
  by (simp add: opened_at_def route_send_def wednesday_def send_stamp_def day_ns_def minute_def)
    (intro exI [of _ "[route_send 13 3 (wednesday + 1)]"],
     simp add: route_send_def wednesday_def send_stamp_def day_ns_def minute_def)

theorem route_taken_again_witness:
  "route_at (wednesday + minute)
     (route_evidence [opened_at (660 * minute), opened_at (wednesday + 1)] [route_send 13 3 (wednesday + 1)])
     = route_at wednesday (route_evidence [opened_at (660 * minute)] [])"
proof -
  have again: "route_at (wednesday + minute)
     (route_evidence [opened_at (660 * minute), opened_at (wednesday + 1)] [route_send 13 3 (wednesday + 1)])
     = Inr (routeSend (node_of (step_sample 23 3)) True 0, Some (step_sample 23 3))"
    by code_simp
  have sent: "cursor_sent route_lib 1 route_sample (route_evidence [opened_at (660 * minute)] []) \<noteq> None
      \<or> rb_current_step route_sample \<le> 0"
    by code_simp
  have open_now: "Contains weekdays (wednesday + minute)" by code_simp
  have later: "wednesday \<le> wednesday + minute" by (simp add: minute_def)
  from route_taken_again [OF route_at_sends _ route_grown sent later route_windows open_now again]
  show ?thesis by (simp add: again route_at_sends)
qed

abbreviation route_monday :: routeInput where
  "route_monday \<equiv> route_input route_rows route_branches 1 route_sample weekdays ''e'' (660 * minute)"

lemma route_at_waits:
  "route_at (660 * minute) (route_evidence [] [])
     = Inr (routeWait (snap (sha256 route_lib) route_monday (720 * minute)), None)"
proof -
  have "ri_cursor route_monday \<noteq> 0" "ri_lastSentAt route_monday \<noteq> 0"
    by (simp_all add: route_input_def route_sample_def or_zero_def minute_def)
  moreover have "StepByOrder (ri_graph route_monday) (ri_cursor route_monday) = Some (node_of (step_sample 21 1))"
    by code_simp
  moreover have "evidence_of route_monday (firstEvidence route_lib no_faults 1 route_sample (route_evidence [] []))
      (node_of (step_sample 21 1)) = Inr 0"
    by code_simp
  moreover have "route_out route_monday (node_of (step_sample 21 1)) 0 = Inl (720 * minute)"
    by code_simp
  ultimately show ?thesis
    unfolding routeGraph_def route_windows sum.case Let_def route_input_def [symmetric]
    by (simp add: decideRoute_later no_faults_def)
qed

theorem wait_ends_in_window_witness:
  "\<exists>t. route_at (660 * minute) (route_evidence [] []) = Inr (routeWait t, None)
     \<and> Contains weekdays t \<and> 660 * minute - minute < t"
proof -
  have "win_loc weekdays = fixed_zone 0" "rb_current_step route_sample \<noteq> 0"
    by (simp_all add: weekdays_def route_sample_def)
  from wait_ends_in_window [OF route_at_waits route_windows this(1) _ this(2)] show ?thesis
    by (intro exI [of _ "snap (sha256 route_lib) route_monday (720 * minute)"]) (simp add: route_at_waits)
qed

theorem route_carried_out_witness:
  "db_enrollments (snd (applyRoute route_lib no_faults 900 1 2 ''e'' route_sample (routeWait 800)
       \<lparr>db_enrollments = [sample_enrollment 1 2 StatusActive], db_sends = [], db_mailboxes = []\<rparr>))
     = [(sample_enrollment 1 2 StatusActive)\<lparr>next_due_at := Some 800, awaiting_condition_step := Some 1\<rparr>]"
proof -
  let ?db = "\<lparr>db_enrollments = [sample_enrollment 1 2 StatusActive], db_sends = [], db_mailboxes = []\<rparr>"
  obtain job s' where eq: "applyRoute route_lib no_faults 900 1 2 ''e'' route_sample (routeWait 800) ?db = (Inr job, s')"
    by (simp add: applyRoute_def Let_def on_enrollments_def AwaitCondition_def PgStore_def exec_stmt_def
        no_faults_def)
  show ?thesis
    using route_carried_out [OF eq] unfolding eq
    by (simp add: route_sample_def sample_enrollment_def active_row_def is_row_def)
qed

end
