(* ===== verification/Signed_Tokens.thy ===== *)
theory Signed_Tokens
  imports Inroad_Prelude "HOL-Library.Word"
begin

unbundle bit_operations_syntax

text \<open>
  The stateless signed tokens: unsubscribe links (\<open>internal/platform/unsub/token.go\<close>), open and click
  tracking (\<open>internal/platform/track/token.go\<close>), the OAuth state
  (\<open>internal/platform/oauthstate/state.go\<close>) and the WebSocket ticket
  (\<open>internal/platform/wsticket/ticket.go\<close>), over the standard library's base64url without padding,
  HMAC and decimal integers. A Go byte string is a \<open>string\<close>; SHA-256 is the parameter \<open>sha\<close>. Each
  package has its own copy of \<open>sign\<close>, \<open>b64\<close> and \<open>unb64\<close>; they are the same here.

  An instant past the range of a 64-bit count of seconds is not modelled: \<open>Unix\<close> and \<open>time.Unix\<close> are
  exact.
\<close>

subsection \<open>base64url without padding\<close>

definition alphabet :: string where
  "alphabet = ''ABCDEFGHIJKLMNOPQRSTUVWXYZabcdefghijklmnopqrstuvwxyz0123456789-_''"

definition enc_digit :: "nat \<Rightarrow> char" where
  "enc_digit n = alphabet ! n"

definition dec_digit :: "char \<Rightarrow> nat option" where
  "dec_digit c = (let n = length (takeWhile (\<lambda>d. d \<noteq> c) alphabet) in if n < 64 then Some n else None)"

abbreviation byte :: "char \<Rightarrow> nat" where "byte \<equiv> of_char"

fun b64 :: "string \<Rightarrow> string" where
  "b64 [] = []"
| "b64 [a] = [enc_digit (byte a div 4), enc_digit (byte a mod 4 * 16)]"
| "b64 [a, b] =
     [enc_digit (byte a div 4), enc_digit (byte a mod 4 * 16 + byte b div 16),
      enc_digit (byte b mod 16 * 4)]"
| "b64 (a # b # c # rest) =
     enc_digit (byte a div 4) # enc_digit (byte a mod 4 * 16 + byte b div 16)
     # enc_digit (byte b mod 16 * 4 + byte c div 64) # enc_digit (byte c mod 64) # b64 rest"

text \<open>The decoder drops carriage returns and line feeds, reads four digits at a time, and takes a last
  group of two or three; the spare bits of that group are not checked.\<close>

fun groups :: "nat list \<Rightarrow> string option" where
  "groups [] = Some []"
| "groups [a] = None"
| "groups [a, b] = Some [char_of (a * 4 + b div 16)]"
| "groups [a, b, c] = Some [char_of (a * 4 + b div 16), char_of (b mod 16 * 16 + c div 4)]"
| "groups (a # b # c # d # rest) =
     map_option (\<lambda>s. char_of (a * 4 + b div 16) # char_of (b mod 16 * 16 + c div 4)
                     # char_of (c mod 4 * 64 + d) # s) (groups rest)"

definition unb64 :: "string \<Rightarrow> string option" where
  "unb64 s =
     (let ds = map dec_digit (filter (\<lambda>c. c \<noteq> CHR 0x0A \<and> c \<noteq> CHR 0x0D) s)
      in if None \<in> set ds then None else groups (map the ds))"

lemma dec_enc_all: "list_all (\<lambda>n. dec_digit (enc_digit n) = Some n) [0..<64]"
  by code_simp

lemma dec_enc [simp]: "n < 64 \<Longrightarrow> dec_digit (enc_digit n) = Some n"
  using dec_enc_all by (simp add: list_all_iff)

lemma enc_digit_plain: "n < 64 \<Longrightarrow> enc_digit n \<notin> {CHR 0x0A, CHR 0x0D, CHR ''.''}"
proof -
  assume "n < 64"
  moreover have "list_all (\<lambda>n. enc_digit n \<notin> {CHR 0x0A, CHR 0x0D, CHR ''.''}) [0..<64]" by code_simp
  ultimately show ?thesis by (simp add: list_all_iff)
qed

text \<open>The digits of a text, as numbers.\<close>

fun digits :: "string \<Rightarrow> nat list" where
  "digits [] = []"
| "digits [a] = [byte a div 4, byte a mod 4 * 16]"
| "digits [a, b] = [byte a div 4, byte a mod 4 * 16 + byte b div 16, byte b mod 16 * 4]"
| "digits (a # b # c # rest) =
     byte a div 4 # (byte a mod 4 * 16 + byte b div 16) # (byte b mod 16 * 4 + byte c div 64)
     # byte c mod 64 # digits rest"

lemma b64_digits: "b64 s = map enc_digit (digits s)"
  by (induction s rule: b64.induct) simp_all

lemma byte_less [simp]: "byte c < 256"
  using nat_of_char_less_256 [of c] by simp

lemma byte_div [simp]: "byte c div 4 < 64" "byte c div 16 < 16" "byte c div 64 < 4"
  using byte_less [of c] by linarith+

lemma digits_less: "n \<in> set (digits s) \<Longrightarrow> n < 64"
proof (induction s rule: digits.induct)
  case (4 a b c rest)
  have "byte a mod 4 * 16 + byte b div 16 < 64" "byte b mod 16 * 4 + byte c div 64 < 64"
    using byte_div(2) [of b] byte_div(3) [of c]
      mod_less_divisor [of 4 "byte a"] mod_less_divisor [of 16 "byte b"] by linarith+
  with 4 show ?case by auto
next
  case (3 a b)
  have "byte a mod 4 * 16 + byte b div 16 < 64" "byte b mod 16 * 4 < 64"
    using byte_div(2) [of b] mod_less_divisor [of 4 "byte a"] mod_less_divisor [of 16 "byte b"] by linarith+
  with 3 show ?case by auto
next
  case (2 a)
  have "byte a mod 4 * 16 < 64" using mod_less_divisor [of 4 "byte a"] by linarith
  with 2 show ?case by auto
qed simp

lemma first_byte: "a div 4 * 4 + (a mod 4 * 16 + b) div 16 = a" if "b < 16" for a b :: nat
proof -
  have "(a mod 4 * 16 + b) div 16 = a mod 4" using that by simp
  then show ?thesis by simp
qed

lemma second_byte: "(x * 16 + b div 16) mod 16 * 16 + (b mod 16 * 4 + y) div 4 = b"
  if "y < 4" "b < 256" for b x y :: nat
proof -
  have "(b mod 16 * 4 + y) div 4 = b mod 16" using that(1) by simp
  moreover have "(x * 16 + b div 16) mod 16 = b div 16"
    using that(2) by (simp add: less_mult_imp_div_less)
  ultimately show ?thesis by simp
qed

lemma third_byte: "(x * 4 + c div 64) mod 4 * 64 + c mod 64 = c" if "c < 256" for c x :: nat
proof -
  have "(x * 4 + c div 64) mod 4 = c div 64" using that by (simp add: less_mult_imp_div_less)
  then show ?thesis by simp
qed

lemma groups_digits: "groups (digits s) = Some s"
  by (induction s rule: digits.induct)
    (simp_all add: first_byte second_byte third_byte first_byte [of 0, simplified]
      second_byte [of 0, simplified])

lemma unb64_b64 [simp]: "unb64 (b64 s) = Some s"
proof -
  have "filter (\<lambda>c. c \<noteq> CHR 0x0A \<and> c \<noteq> CHR 0x0D) (b64 s) = b64 s"
    unfolding b64_digits using enc_digit_plain digits_less by (intro filter_True) fastforce
  moreover have "map dec_digit (b64 s) = map Some (digits s)"
    unfolding b64_digits using digits_less by auto
  ultimately show ?thesis by (simp add: unb64_def groups_digits image_iff comp_def Let_def)
qed

lemma b64_no_dot: "CHR ''.'' \<notin> set (b64 s)"
  unfolding b64_digits using enc_digit_plain digits_less by fastforce

subsection \<open>HMAC, separators and numbers\<close>

definition xor_byte :: "nat \<Rightarrow> char \<Rightarrow> char" where
  "xor_byte n c = char_of (byte c XOR n)"

definition hmac :: "(string \<Rightarrow> string) \<Rightarrow> string \<Rightarrow> string \<Rightarrow> string" where
  "hmac sha secret msg =
     (let k = (if 64 < length secret then sha secret else secret);
          pad = k @ replicate (64 - length k) (CHR 0x00)
      in sha (map (xor_byte 0x5C) pad @ sha (map (xor_byte 0x36) pad @ msg)))"

definition sign :: "(string \<Rightarrow> string) \<Rightarrow> string \<Rightarrow> string \<Rightarrow> string" where
  "sign sha secret payload = hmac sha secret payload"

text \<open>\<open>strings.Cut\<close> at a byte, and \<open>strings.SplitN\<close> with a positive count.\<close>

definition cut :: "char \<Rightarrow> string \<Rightarrow> (string \<times> string) option" where
  "cut sep s =
     (if sep \<in> set s then Some (takeWhile (\<lambda>c. c \<noteq> sep) s, tl (dropWhile (\<lambda>c. c \<noteq> sep) s)) else None)"

fun split_n :: "nat \<Rightarrow> char \<Rightarrow> string \<Rightarrow> string list" where
  "split_n 0 sep s = []"
| "split_n (Suc 0) sep s = [s]"
| "split_n (Suc (Suc n)) sep s =
     (case cut sep s of None \<Rightarrow> [s] | Some (a, b) \<Rightarrow> a # split_n (Suc n) sep b)"

lemma cut_append [simp]: "sep \<notin> set a \<Longrightarrow> cut sep (a @ sep # b) = Some (a, b)"
  by (induction a) (auto simp: cut_def)

lemma cut_Some: "cut sep s = Some (a, b) \<Longrightarrow> s = a @ sep # b \<and> sep \<notin> set a"
proof -
  assume c: "cut sep s = Some (a, b)"
  then have m: "sep \<in> set s" and a: "a = takeWhile (\<lambda>c. c \<noteq> sep) s" and b: "b = tl (dropWhile (\<lambda>c. c \<noteq> sep) s)"
    by (auto simp: cut_def split: if_splits)
  have "dropWhile (\<lambda>c. c \<noteq> sep) s \<noteq> []" using m by (auto simp: dropWhile_eq_Nil_conv)
  then have "dropWhile (\<lambda>c. c \<noteq> sep) s = sep # b" using hd_dropWhile [of "\<lambda>c. c \<noteq> sep" s] b
    by (cases "dropWhile (\<lambda>c. c \<noteq> sep) s") auto
  with a show ?thesis using takeWhile_dropWhile_id [of "\<lambda>c. c \<noteq> sep" s] set_takeWhileD [of sep "\<lambda>c. c \<noteq> sep" s]
    by auto
qed

lemma split_n_append [simp]:
  "sep \<notin> set a \<Longrightarrow> split_n (Suc (Suc n)) sep (a @ sep # b) = a # split_n (Suc n) sep b"
  by simp

text \<open>\<open>strconv.ParseInt\<close> in base ten and 64 bits.\<close>

definition is_digit :: "char \<Rightarrow> bool" where
  "is_digit c \<longleftrightarrow> byte c \<in> {48..57}"

definition digits_value :: "string \<Rightarrow> nat" where
  "digits_value s = foldl (\<lambda>n c. n * 10 + (byte c - 48)) 0 s"

definition parse_digits :: "string \<Rightarrow> nat option" where
  "parse_digits s = (if s = [] \<or> \<not> list_all is_digit s then None else Some (digits_value s))"

definition in_int64 :: "int \<Rightarrow> bool" where
  "in_int64 i \<longleftrightarrow> -9223372036854775808 \<le> i \<and> i \<le> 9223372036854775807"

definition ParseInt :: "string \<Rightarrow> int option" where
  "ParseInt s =
     (let (neg, ds) = (case s of [] \<Rightarrow> (False, [])
         | c # cs \<Rightarrow> if c = CHR ''-'' then (True, cs) else if c = CHR ''+'' then (False, cs) else (False, s))
      in case parse_digits ds of
           None \<Rightarrow> None
         | Some n \<Rightarrow> let i = (if neg then - int n else int n) in if in_int64 i then Some i else None)"

lemma nat_digits_props:
  "nat_digits n \<noteq> [] \<and> list_all is_digit (nat_digits n) \<and> digits_value (nat_digits n) = n"
proof (induction n rule: nat_digits.induct)
  case (1 n)
  have d: "is_digit (char_of (48 + k))" "byte (char_of (48 + k)) = 48 + k" if "k < 10" for k :: nat
    using that by (simp_all add: is_digit_def)
  show ?case
  proof (cases "n < 10")
    case True
    then show ?thesis by (simp add: nat_digits.simps [of n] d digits_value_def)
  next
    case False
    with 1 have "list_all is_digit (nat_digits (n div 10))" "digits_value (nat_digits (n div 10)) = n div 10" by auto
    with False show ?thesis by (simp add: nat_digits.simps [of n] d digits_value_def)
  qed
qed

lemma digit_not_sign: "is_digit c \<Longrightarrow> c \<noteq> CHR ''-'' \<and> c \<noteq> CHR ''+'' \<and> c \<noteq> CHR '':''"
  by (auto simp: is_digit_def)

lemma ParseInt_Itoa: "in_int64 i \<Longrightarrow> ParseInt (Itoa i) = Some i"
proof -
  assume r: "in_int64 i"
  obtain c cs where c: "nat_digits (nat i) = c # cs" using nat_digits_props [of "nat i"] by (cases "nat_digits (nat i)") auto
  then have plain: "c \<noteq> CHR ''-''" "c \<noteq> CHR ''+''" using nat_digits_props [of "nat i"] digit_not_sign by auto
  have p: "parse_digits (nat_digits n) = Some n" for n
    using nat_digits_props [of n] by (simp add: parse_digits_def)
  show ?thesis
  proof (cases "i < 0")
    case True
    with r p show ?thesis by (simp add: ParseInt_def Itoa_def)
  next
    case False
    with r p [of "nat i", unfolded c] plain show ?thesis by (simp add: ParseInt_def Itoa_def c)
  qed
qed

lemma Itoa_no_colon: "CHR '':'' \<notin> set (Itoa i)"
  using nat_digits_props [of "nat i"] nat_digits_props [of "nat (- i)"] digit_not_sign
  by (auto simp: Itoa_def list_all_iff)

subsection \<open>Unsubscribe links\<close>

definition signed_token :: "(string \<Rightarrow> string) \<Rightarrow> string \<Rightarrow> string \<Rightarrow> string" where
  "signed_token sha secret payload = b64 payload @ ''.'' @ b64 (sign sha secret payload)"

text \<open>The payload of a token whose signature is right; \<open>ParseToken\<close> and \<open>Verify\<close> start with the same
  steps as \<open>track.verify\<close>.\<close>

definition verify :: "(string \<Rightarrow> string) \<Rightarrow> string \<Rightarrow> string \<Rightarrow> string option" where
  "verify sha secret token =
     (case cut (CHR ''.'') token of
        None \<Rightarrow> None
      | Some (rawPayload, rawSig) \<Rightarrow>
          (case unb64 rawPayload of
             None \<Rightarrow> None
           | Some p \<Rightarrow>
               (case unb64 rawSig of
                  None \<Rightarrow> None
                | Some gotSig \<Rightarrow> if gotSig = sign sha secret p then Some p else None)))"

definition MakeToken :: "(string \<Rightarrow> string) \<Rightarrow> string \<Rightarrow> string \<Rightarrow> string \<Rightarrow> string" where
  "MakeToken sha secret workspaceID email = signed_token sha secret (workspaceID @ '':'' @ email)"

definition ParseToken :: "(string \<Rightarrow> string) \<Rightarrow> string \<Rightarrow> string \<Rightarrow> (string \<times> string) option" where
  "ParseToken sha secret token =
     (case verify sha secret token of None \<Rightarrow> None | Some payload \<Rightarrow> cut (CHR '':'') payload)"

lemma verify_signed [simp]: "verify sha secret (signed_token sha secret payload) = Some payload"
  by (simp add: verify_def signed_token_def b64_no_dot)

lemma verify_Some:
  "verify sha secret token = Some p \<longleftrightarrow>
     (\<exists>a b. token = a @ ''.'' @ b \<and> CHR ''.'' \<notin> set a \<and> unb64 a = Some p
        \<and> unb64 b = Some (sign sha secret p))"
  by (auto simp: verify_def split: option.splits if_splits dest: cut_Some)

subsection \<open>Tracking links\<close>

definition openPrefix :: string where [const_defs]: "openPrefix = ''o:''"
definition clickPrefix :: string where [const_defs]: "clickPrefix = ''c:''"
definition clickSep :: char where "clickSep = CHR 0x00"

definition has_prefix :: "string \<Rightarrow> string \<Rightarrow> bool" where
  "has_prefix s p \<longleftrightarrow> take (length p) s = p"

definition MakeOpenToken :: "(string \<Rightarrow> string) \<Rightarrow> string \<Rightarrow> string \<Rightarrow> string" where
  "MakeOpenToken sha secret sendID = signed_token sha secret (openPrefix @ sendID)"

definition ParseOpenToken :: "(string \<Rightarrow> string) \<Rightarrow> string \<Rightarrow> string \<Rightarrow> string option" where
  "ParseOpenToken sha secret token =
     (case verify sha secret token of
        None \<Rightarrow> None
      | Some payload \<Rightarrow>
          if \<not> has_prefix payload openPrefix then None else Some (drop (length openPrefix) payload))"

definition MakeClickToken :: "(string \<Rightarrow> string) \<Rightarrow> string \<Rightarrow> string \<Rightarrow> string \<Rightarrow> string" where
  "MakeClickToken sha secret sendID url = signed_token sha secret (clickPrefix @ sendID @ [clickSep] @ url)"

definition ParseClickToken :: "(string \<Rightarrow> string) \<Rightarrow> string \<Rightarrow> string \<Rightarrow> (string \<times> string) option" where
  "ParseClickToken sha secret token =
     (case verify sha secret token of
        None \<Rightarrow> None
      | Some payload \<Rightarrow>
          if \<not> has_prefix payload clickPrefix then None
          else cut clickSep (drop (length clickPrefix) payload))"

lemma has_prefix_append [simp]: "has_prefix (p @ s) p"
  by (simp add: has_prefix_def)

subsection \<open>OAuth state\<close>

definition PurposeMailboxConnect :: string where [const_defs]: "PurposeMailboxConnect = ''mailbox_connect''"
definition PurposeLogin :: string where [const_defs]: "PurposeLogin = ''login''"

definition unix_epoch :: instant where "unix_epoch = 62135596800 * second"

definition Unix :: "instant \<Rightarrow> int" where
  "Unix t = (t - unix_epoch) div second"

definition time_Unix :: "int \<Rightarrow> instant" where
  "time_Unix sec = unix_epoch + sec * second"

text \<open>\<open>Sign\<close> returns the token and the nonce it drew; \<open>raw\<close> is what the random source gave.\<close>

definition Sign ::
  "(string \<Rightarrow> string) \<Rightarrow> string \<Rightarrow> string \<Rightarrow> string \<Rightarrow> instant \<Rightarrow> duration \<Rightarrow> string \<Rightarrow> string \<times> string" where
  "Sign sha secret purpose subject now ttl raw =
     (let nonce = b64 raw;
          payload = purpose @ '':'' @ subject @ '':'' @ Itoa (Unix (now + ttl)) @ '':'' @ nonce
      in (signed_token sha secret payload, nonce))"

definition Verify_state ::
  "(string \<Rightarrow> string) \<Rightarrow> string \<Rightarrow> string \<Rightarrow> string \<Rightarrow> instant \<Rightarrow> (string \<times> string) option" where
  "Verify_state sha secret want token now =
     (case verify sha secret token of
        None \<Rightarrow> None
      | Some payload \<Rightarrow>
          (case split_n 4 (CHR '':'') payload of
             [purpose, subject, rawExp, nonce] \<Rightarrow>
               if purpose \<noteq> want then None
               else (case ParseInt rawExp of
                       None \<Rightarrow> None
                     | Some expiry \<Rightarrow> if expiry < Unix now then None else Some (subject, nonce))
           | _ \<Rightarrow> None))"

subsection \<open>WebSocket tickets\<close>

definition ticketPrefix :: string where [const_defs]: "ticketPrefix = ''ws:''"
definition DefaultTTL :: duration where "DefaultTTL = 30 * second"

datatype ticket_error = ErrMalformed | ErrSignature | ErrExpired

record ticket =
  tk_workspace :: string
  tk_user :: string
  tk_session :: string
  tk_expires :: instant
  tk_nonce :: string

definition payloadOf :: "ticket \<Rightarrow> string" where
  "payloadOf t =
     ticketPrefix @ tk_workspace t @ '':'' @ tk_user t @ '':'' @ tk_session t @ '':''
       @ Itoa (Unix (tk_expires t)) @ '':'' @ tk_nonce t"

definition Make :: "(string \<Rightarrow> string) \<Rightarrow> string \<Rightarrow> ticket \<Rightarrow> string" where
  "Make sha secret t = signed_token sha secret (payloadOf t)"

definition verify_ticket :: "(string \<Rightarrow> string) \<Rightarrow> string \<Rightarrow> string \<Rightarrow> ticket_error + string" where
  "verify_ticket sha secret token =
     (case cut (CHR ''.'') token of
        None \<Rightarrow> Inl ErrMalformed
      | Some (rawPayload, rawSig) \<Rightarrow>
          (case unb64 rawPayload of
             None \<Rightarrow> Inl ErrMalformed
           | Some p \<Rightarrow>
               (case unb64 rawSig of
                  None \<Rightarrow> Inl ErrMalformed
                | Some gotSig \<Rightarrow> if gotSig = sign sha secret p then Inr p else Inl ErrSignature)))"

definition Parse :: "(string \<Rightarrow> string) \<Rightarrow> string \<Rightarrow> string \<Rightarrow> instant \<Rightarrow> ticket_error + ticket" where
  "Parse sha secret token now =
     (case verify_ticket sha secret token of
        Inl e \<Rightarrow> Inl e
      | Inr payload \<Rightarrow>
          if \<not> has_prefix payload ticketPrefix then Inl ErrMalformed
          else
            case split_n 5 (CHR '':'') (drop (length ticketPrefix) payload) of
              [workspaceID, userID, sessionID, rawExpiry, nonce] \<Rightarrow>
                if workspaceID = [] \<or> userID = [] \<or> sessionID = [] \<or> nonce = [] then Inl ErrMalformed
                else (case ParseInt rawExpiry of
                        None \<Rightarrow> Inl ErrMalformed
                      | Some unix \<Rightarrow>
                          if \<not> now < time_Unix unix then Inl ErrExpired
                          else Inr \<lparr>tk_workspace = workspaceID, tk_user = userID, tk_session = sessionID,
                                    tk_expires = time_Unix unix, tk_nonce = nonce\<rparr>)
            | _ \<Rightarrow> Inl ErrMalformed)"

lemma verify_ticket_verify: "verify_ticket sha secret token = Inr p \<longleftrightarrow> verify sha secret token = Some p"
  by (auto simp: verify_ticket_def verify_def split: option.splits)

subsection \<open>Round trips\<close>

text \<open>C18: Every link reads back what it was made from: an unsubscribe link of a workspace id without a
  colon, an open link, and a click link of a send id without a NUL byte, whatever the address and the
  target URL contain.\<close>

theorem link_roundtrip:
  "(CHR '':'' \<notin> set ws \<longrightarrow> ParseToken sha k (MakeToken sha k ws email) = Some (ws, email))
   \<and> ParseOpenToken sha k (MakeOpenToken sha k sendID) = Some sendID
   \<and> (clickSep \<notin> set sendID \<longrightarrow>
        ParseClickToken sha k (MakeClickToken sha k sendID url) = Some (sendID, url))"
  by (simp add: ParseToken_def MakeToken_def ParseOpenToken_def MakeOpenToken_def ParseClickToken_def
      MakeClickToken_def)

theorem link_roundtrip_witness:
  "ParseToken (\<lambda>_. ''digest'') ''key'' (MakeToken (\<lambda>_. ''digest'') ''key'' ''ws-1'' ''a:b@c.de'') = Some (''ws-1'', ''a:b@c.de'')"
  using link_roundtrip [of "''ws-1''" "\<lambda>_. ''digest''" "''key''" "''a:b@c.de''"] by simp

lemma Unix_seconds: "time_Unix (Unix t) \<le> t \<and> t < time_Unix (Unix t) + second"
proof -
  have "second * ((t - unix_epoch) div second) + (t - unix_epoch) mod second = t - unix_epoch" by simp
  moreover have "0 \<le> (t - unix_epoch) mod second" "(t - unix_epoch) mod second < second" by simp_all
  ultimately show ?thesis unfolding time_Unix_def Unix_def mult.commute [of _ second] by linarith
qed

lemma Unix_time_Unix [simp]: "Unix (time_Unix n) = n"
  by (simp add: Unix_def time_Unix_def)

text \<open>A ticket and an OAuth state are good for exactly their lifetime: until the expiry, to the
  second, they read back the fields they were made from, and from then on they are refused; a state
  is refused to every other purpose.\<close>

theorem ticket_roundtrip:
  assumes "CHR '':'' \<notin> set (tk_workspace t) \<union> set (tk_user t) \<union> set (tk_session t)"
    and "tk_workspace t \<noteq> []" and "tk_user t \<noteq> []" and "tk_session t \<noteq> []" and "tk_nonce t \<noteq> []"
    and "in_int64 (Unix (tk_expires t))"
    and "CHR '':'' \<notin> set purpose \<union> set subject" and "in_int64 (Unix (now + ttl))"
  shows "Parse sha k (Make sha k t) now' =
      (if now' < time_Unix (Unix (tk_expires t)) then Inr (t\<lparr>tk_expires := time_Unix (Unix (tk_expires t))\<rparr>)
       else Inl ErrExpired)
    \<and> Verify_state sha k want (fst (Sign sha k purpose subject now ttl raw)) now' =
      (if want = purpose \<and> Unix now' \<le> Unix (now + ttl)
       then Some (subject, snd (Sign sha k purpose subject now ttl raw)) else None)"
proof
  have "split_n 5 (CHR '':'') (drop (length ticketPrefix) (payloadOf t))
      = [tk_workspace t, tk_user t, tk_session t, Itoa (Unix (tk_expires t)), tk_nonce t]"
    using assms(1) by (simp add: payloadOf_def eval_nat_numeral Itoa_no_colon)
  moreover have "verify_ticket sha k (Make sha k t) = Inr (payloadOf t)"
    by (simp add: verify_ticket_verify Make_def)
  moreover have "has_prefix (payloadOf t) ticketPrefix" by (simp add: payloadOf_def)
  ultimately show "Parse sha k (Make sha k t) now' =
      (if now' < time_Unix (Unix (tk_expires t)) then Inr (t\<lparr>tk_expires := time_Unix (Unix (tk_expires t))\<rparr>)
       else Inl ErrExpired)"
    using assms(2-6) by (simp add: Parse_def ParseInt_Itoa)
next
  let ?exp = "Itoa (Unix (now + ttl))"
  have "split_n 4 (CHR '':'') (purpose @ '':'' @ subject @ '':'' @ ?exp @ '':'' @ b64 raw)
      = [purpose, subject, ?exp, b64 raw]"
    using assms(7) by (simp add: eval_nat_numeral Itoa_no_colon)
  then show "Verify_state sha k want (fst (Sign sha k purpose subject now ttl raw)) now' =
      (if want = purpose \<and> Unix now' \<le> Unix (now + ttl)
       then Some (subject, snd (Sign sha k purpose subject now ttl raw)) else None)"
    using assms(8) by (simp add: Verify_state_def Sign_def Let_def ParseInt_Itoa not_less [symmetric])
qed

definition sample_ticket :: ticket where
  "sample_ticket = \<lparr>tk_workspace = ''w'', tk_user = ''u'', tk_session = ''s'',
     tk_expires = time_Unix 1700000030 + 5, tk_nonce = ''n''\<rparr>"

theorem ticket_roundtrip_witness:
  "Parse (\<lambda>_. ''d'') ''k'' (Make (\<lambda>_. ''d'') ''k'' sample_ticket) (time_Unix 1700000029)
     = Inr (sample_ticket\<lparr>tk_expires := time_Unix 1700000030\<rparr>)"
proof -
  have u: "Unix (tk_expires sample_ticket) = 1700000030"
    by (simp add: sample_ticket_def Unix_def time_Unix_def second_def unix_epoch_def)
  have early: "time_Unix 1700000029 < time_Unix 1700000030" by (simp add: time_Unix_def)
  have "in_int64 (Unix (tk_expires sample_ticket))" "in_int64 (Unix (time_Unix 7 + 0))"
    by (simp_all only: u add_0_right Unix_time_Unix in_int64_def) simp_all
  moreover have "CHR '':'' \<notin> set (tk_workspace sample_ticket) \<union> set (tk_user sample_ticket) \<union> set (tk_session sample_ticket)"
    "tk_workspace sample_ticket \<noteq> []" "tk_user sample_ticket \<noteq> []" "tk_session sample_ticket \<noteq> []"
    "tk_nonce sample_ticket \<noteq> []"
    by (simp_all add: sample_ticket_def)
  ultimately show ?thesis
    using ticket_roundtrip [of sample_ticket PurposeLogin "[]" "time_Unix 7" 0 "\<lambda>_. ''d''" "''k''" "time_Unix 1700000029"]
      early by (simp add: u PurposeLogin_def)
qed

subsection \<open>What is accepted\<close>

lemma has_prefix_Some: "has_prefix p q \<longleftrightarrow> (\<exists>r. p = q @ r)"
  by (metis append_take_drop_id has_prefix_append has_prefix_def)

lemma ParseToken_Some:
  "ParseToken sha k token = Some (ws, email) \<longleftrightarrow>
     verify sha k token = Some (ws @ CHR '':'' # email) \<and> CHR '':'' \<notin> set ws"
  by (auto simp: ParseToken_def split: option.splits dest: cut_Some)

lemma ParseOpenToken_Some:
  "ParseOpenToken sha k token = Some sendID \<longleftrightarrow> verify sha k token = Some (openPrefix @ sendID)"
  by (auto simp: ParseOpenToken_def has_prefix_Some split: option.splits)

lemma ParseClickToken_Some:
  "ParseClickToken sha k token = Some (sendID, url) \<longleftrightarrow>
     verify sha k token = Some (clickPrefix @ sendID @ clickSep # url) \<and> clickSep \<notin> set sendID"
  by (auto simp: ParseClickToken_def has_prefix_Some split: option.splits dest: cut_Some)

lemma Parse_Inr:
  assumes "Parse sha k token now = Inr t"
  shows "now < tk_expires t" and "\<exists>rest. verify sha k token = Some (ticketPrefix @ rest)"
proof -
  obtain p where p: "verify sha k token = Some p" "has_prefix p ticketPrefix"
    using assms by (auto simp: Parse_def verify_ticket_verify split: sum.splits if_splits)
  then show "\<exists>rest. verify sha k token = Some (ticketPrefix @ rest)" by (auto simp: has_prefix_Some)
  have v: "verify_ticket sha k token = Inr p" using p by (simp add: verify_ticket_verify)
  show "now < tk_expires t"
    using assms p(2) unfolding Parse_def v
    by (auto split: list.splits if_splits option.splits)
qed

text \<open>C19: What the parsers accept, exactly. A token is read only when it carries the HMAC of its whole
  payload under the secret. The open, click and ticket parsers then accept only payloads with the
  prefix of their kind, so that a token is never two of these. The unsubscribe parser has no prefix
  to check: it accepts every signed payload with a colon, and so also the tokens of the other three
  kinds, a ticket as one of workspace \<open>ws\<close>.\<close>

theorem accepted_is_signed:
  "(verify sha k token = Some p \<longleftrightarrow>
      (\<exists>a b. token = a @ ''.'' @ b \<and> CHR ''.'' \<notin> set a \<and> unb64 a = Some p \<and> unb64 b = Some (sign sha k p)))
   \<and> (ParseOpenToken sha k token = Some i \<longleftrightarrow> verify sha k token = Some (''o:'' @ i))
   \<and> (ParseClickToken sha k token = Some (j, url) \<longleftrightarrow>
        verify sha k token = Some (''c:'' @ j @ CHR 0x00 # url) \<and> CHR 0x00 \<notin> set j)
   \<and> (ParseToken sha k token = Some (ws, email) \<longleftrightarrow>
        verify sha k token = Some (ws @ '':'' @ email) \<and> CHR '':'' \<notin> set ws)
   \<and> (ParseOpenToken sha k token = Some i \<longrightarrow>
        ParseClickToken sha k token = None \<and> ParseToken sha k token = Some (''o'', i))
   \<and> (ParseClickToken sha k token = Some (j, url) \<longrightarrow>
        ParseOpenToken sha k token = None \<and> ParseToken sha k token = Some (''c'', j @ CHR 0x00 # url))
   \<and> (Parse sha k token now = Inr t \<longrightarrow> now < tk_expires t
        \<and> ParseOpenToken sha k token = None \<and> ParseClickToken sha k token = None
        \<and> (\<exists>rest. verify sha k token = Some (''ws:'' @ rest) \<and> ParseToken sha k token = Some (''ws'', rest)))"
proof -
  have click: "ParseClickToken sha k token = None" if "\<And>r. verify sha k token \<noteq> Some (clickPrefix @ r)"
    using that ParseClickToken_Some by (metis not_None_eq surj_pair)
  have open_: "ParseOpenToken sha k token = None" if "\<And>r. verify sha k token \<noteq> Some (openPrefix @ r)"
    using that ParseOpenToken_Some by (metis not_None_eq)
  have ticket: "now < tk_expires t \<and> ParseOpenToken sha k token = None \<and> ParseClickToken sha k token = None
        \<and> (\<exists>rest. verify sha k token = Some (''ws:'' @ rest) \<and> ParseToken sha k token = Some (''ws'', rest))"
    if "Parse sha k token now = Inr t"
  proof -
    from Parse_Inr [OF that] obtain r where r: "now < tk_expires t" "verify sha k token = Some (ticketPrefix @ r)"
      by blast
    moreover have "ParseClickToken sha k token = None" by (rule click) (simp add: r(2) const_defs)
    moreover have "ParseOpenToken sha k token = None" by (rule open_) (simp add: r(2) const_defs)
    ultimately show ?thesis by (simp add: ParseToken_Some ticketPrefix_def)
  qed
  have "ParseClickToken sha k token = None" if "ParseOpenToken sha k token = Some i"
    using that by (intro click) (auto simp: ParseOpenToken_Some const_defs)
  moreover have "ParseOpenToken sha k token = None" if "ParseClickToken sha k token = Some (j, url)"
    using that by (intro open_) (auto simp: ParseClickToken_Some const_defs)
  ultimately show ?thesis
    using ticket verify_Some [of sha k token p]
    by (auto simp: ParseToken_Some ParseOpenToken_Some ParseClickToken_Some openPrefix_def clickPrefix_def clickSep_def)
qed

theorem accepted_is_signed_witness:
  "ParseToken (\<lambda>_. ''d'') ''k'' (MakeOpenToken (\<lambda>_. ''d'') ''k'' ''id'') = Some (''o'', ''id'')
     \<and> verify (\<lambda>_. ''d'') ''k'' (MakeOpenToken (\<lambda>_. ''d'') ''k'' ''id'') = Some (''o:'' @ ''id'')
     \<and> ParseClickToken (\<lambda>_. ''d'') ''k'' (MakeOpenToken (\<lambda>_. ''d'') ''k'' ''id'') = None"
proof -
  have "ParseOpenToken (\<lambda>_. ''d'') ''k'' (MakeOpenToken (\<lambda>_. ''d'') ''k'' ''id'') = Some ''id''"
    by (simp add: ParseOpenToken_Some MakeOpenToken_def)
  then show ?thesis
    using accepted_is_signed [where sha = "\<lambda>_. ''d''" and k = "''k''" and i = "''id''"
        and token = "MakeOpenToken (\<lambda>_. ''d'') ''k'' ''id''"]
    by blast
qed

text \<open>
  So under a shared secret a connect ticket is an unsubscribe token too. Only the check that the
  workspace is a UUID, in the handler, refuses it.
\<close>

lemma unsub_accepts_ticket:
  "ParseToken sha k (Make sha k t) =
     Some (''ws'', tk_workspace t @ '':'' @ tk_user t @ '':'' @ tk_session t @ '':'' @ Itoa (Unix (tk_expires t)) @ '':'' @ tk_nonce t)"
  by (simp add: ParseToken_Some Make_def payloadOf_def ticketPrefix_def)

end
