(* ===== verification/Job_Tables.thy ===== *)
theory Job_Tables
  imports Branch_Route Warmup_Sweep
begin

text \<open>
  The tables a step job is built from and the statements that read them
  (\<open>internal/platform/db/gen/models.go\<close>, \<open>queries/stepsend.sql\<close>, \<open>queries/sender.sql\<close>,
  \<open>queries/send.sql\<close>, \<open>queries/campaign.sql\<close>, \<open>queries/sequencestep.sql\<close>). \<open>job_db\<close> holds the database
  of \<open>Step_Send\<close> and the tables beside it. Columns nothing here reads are left out.

  A day is a UTC day: instants count from a UTC midnight, so it is the quotient by \<open>day_ns\<close>. One
  statement compares with a timestamp that carries no zone, which Postgres reads in the session's
  zone; \<open>session_offset\<close> is that zone's offset.
\<close>

subsection \<open>Rows\<close>

record campaign =
  cm_id :: uuid
  cm_ws :: uuid
  cm_name :: string
  cm_mailbox :: uuid
  cm_list :: uuid
  cm_status :: string
  cm_timezone :: string
  cm_rotation_mode :: string
  cm_tracking_enabled :: bool
  cm_daily_limit :: "int option"
  cm_max_new_leads_per_day :: "int option"
  cm_launched_at :: "instant option"
  cm_auto_pause_enabled :: bool
  cm_bounce_pause_pct :: float64
  cm_complaint_pause_pct :: float64
  cm_guardrails_enabled_at :: instant

record contact =
  ct_id :: uuid
  ct_ws :: uuid
  ct_email :: string
  ct_first_name :: string
  ct_last_name :: string
  ct_company :: string
  ct_custom_fields :: string

record window_row =
  ww_ws :: uuid
  ww_campaign :: uuid
  ww_weekday :: int
  ww_start_minute :: int
  ww_end_minute :: int

record variant_row =
  va_id :: uuid
  va_ws :: uuid
  va_step :: uuid
  va_label :: string
  va_weight :: int
  va_subject :: string
  va_body_text :: string
  va_body_html :: string

record campaign_sender =
  cs_campaign :: uuid
  cs_ws :: uuid
  cs_mailbox :: uuid
  cs_weight :: int
  cs_enabled :: bool
  cs_assigned_count :: int
  cs_last_assigned_at :: "instant option"

record recipient_domain =
  rd_ws :: uuid
  rd_domain :: string
  rd_esp :: string
  rd_checked_at :: "instant option"

record job_db =
  jd_core :: db
  jd_campaigns :: "campaign list"
  jd_contacts :: "contact list"
  jd_steps :: "step_row list"
  jd_branches :: "branch_row list"
  jd_variants :: "variant_row list"
  jd_windows :: "window_row list"
  jd_senders :: "campaign_sender list"
  jd_participants :: "participant list"
  jd_recipient_domains :: "recipient_domain list"
  jd_suppression :: "(uuid \<times> string) list"
  jd_events :: "tracking_event list"
  jd_threads :: "inbox_thread list"
  jd_messages :: "inbox_message list"
  jd_labels :: "reply_label list"

definition evidence_tables :: "job_db \<Rightarrow> evidence_db" where
  "evidence_tables s =
     \<lparr>ev_sends = db_sends (jd_core s), ev_events = jd_events s, ev_threads = jd_threads s,
      ev_messages = jd_messages s, ev_labels = jd_labels s\<rparr>"

definition is_campaign :: "uuid \<Rightarrow> uuid \<Rightarrow> campaign \<Rightarrow> bool" where
  "is_campaign ws c r \<longleftrightarrow> cm_id r = c \<and> cm_ws r = ws"

subsection \<open>The enrollment bundle\<close>

text \<open>The joined row: the enrollment, its campaign and contact, and the mailbox of its thread, which is
  the pinned one or, before the first send, the campaign's.\<close>

record step_bundle =
  b_enrollment :: enrollment
  b_campaign :: campaign
  b_contact :: contact
  b_mailbox :: mailbox

definition coalesce :: "'a option \<Rightarrow> 'a \<Rightarrow> 'a" where
  "coalesce x d = (case x of None \<Rightarrow> d | Some y \<Rightarrow> y)"

definition GetStepEnrollmentBundle :: "uuid \<Rightarrow> uuid \<Rightarrow> job_db \<Rightarrow> step_bundle option" where
  "GetStepEnrollmentBundle eid ws s =
     (case select_one (is_row ws eid) (db_enrollments (jd_core s)) of
        None \<Rightarrow> None
      | Some e \<Rightarrow>
          (case (select_one (\<lambda>c. cm_id c = en_campaign e) (jd_campaigns s),
                 select_one (\<lambda>c. ct_id c = en_contact e) (jd_contacts s)) of
             (Some cam, Some ct) \<Rightarrow>
               map_option (\<lambda>m. \<lparr>b_enrollment = e, b_campaign = cam, b_contact = ct, b_mailbox = m\<rparr>)
                 (select_one (\<lambda>m. mb_id m = coalesce (en_mailbox e) (cm_mailbox cam) \<and> mb_ws m = en_ws e)
                    (db_mailboxes (jd_core s)))
           | _ \<Rightarrow> None))"

definition route_part :: "step_bundle \<Rightarrow> route_bundle" where
  "route_part b =
     \<lparr>rb_campaign = cm_id (b_campaign b), rb_contact = ct_id (b_contact b),
      rb_current_step = current_step (b_enrollment b), rb_last_sent_at = last_sent_at (b_enrollment b),
      rb_next_due_at = next_due_at (b_enrollment b), rb_awaiting = awaiting_condition_step (b_enrollment b)\<rparr>"

subsection \<open>Statements\<close>

definition same_utc_day :: "instant \<Rightarrow> instant \<Rightarrow> bool" where
  "same_utc_day now t \<longleftrightarrow> now div day_ns * day_ns \<le> t \<and> t < now div day_ns * day_ns + day_ns"

definition sent_today :: "instant \<Rightarrow> send \<Rightarrow> bool" where
  "sent_today now r \<longleftrightarrow> sd_status r = ''sent''
     \<and> (case sd_sent_at r of None \<Rightarrow> False | Some t \<Rightarrow> same_utc_day now t)"

definition CountSentToday :: "instant \<Rightarrow> uuid \<Rightarrow> job_db \<Rightarrow> int" where
  "CountSentToday now mailboxID s =
     count_where (\<lambda>r. sd_mailbox r = mailboxID \<and> sent_today now r) (db_sends (jd_core s))
     + count_where (\<lambda>m. im_mailbox m = mailboxID \<and> im_direction m = ''outbound''
         \<and> (case im_occurred_at m of None \<Rightarrow> False | Some t \<Rightarrow> same_utc_day now t)) (jd_messages s)"

definition CountCampaignSentToday :: "instant \<Rightarrow> uuid \<Rightarrow> uuid \<Rightarrow> job_db \<Rightarrow> int" where
  "CountCampaignSentToday now campaignID ws s =
     count_where (\<lambda>r. sd_campaign r = campaignID \<and> sd_ws r = ws \<and> sent_today now r) (db_sends (jd_core s))"

definition CountFirstStepSendsToday :: "instant \<Rightarrow> duration \<Rightarrow> uuid \<Rightarrow> uuid \<Rightarrow> job_db \<Rightarrow> int" where
  "CountFirstStepSendsToday now session_offset campaignID ws s =
     count_where (\<lambda>r. sd_campaign r = campaignID \<and> sd_ws r = ws \<and> sd_step_order r = 1
         \<and> now div day_ns * day_ns - session_offset \<le> sd_created_at r) (db_sends (jd_core s))"

definition ListBranchesByCampaign :: "uuid \<Rightarrow> uuid \<Rightarrow> job_db \<Rightarrow> branch_row list" where
  "ListBranchesByCampaign campaignID ws s =
     sort_key bw_step (filter (\<lambda>r. bw_campaign r = campaignID \<and> bw_ws r = ws) (jd_branches s))"

definition GetNextStep :: "uuid \<Rightarrow> uuid \<Rightarrow> int \<Rightarrow> job_db \<Rightarrow> step_row option" where
  "GetNextStep campaignID ws k s =
     (case sort_key st_order (filter (\<lambda>r. st_campaign r = campaignID \<and> st_ws r = ws \<and> k < st_order r) (jd_steps s)) of
        [] \<Rightarrow> None | r # _ \<Rightarrow> Some r)"

definition GetStepByOrder :: "uuid \<Rightarrow> uuid \<Rightarrow> int \<Rightarrow> job_db \<Rightarrow> step_row option" where
  "GetStepByOrder campaignID ws k s =
     select_one (\<lambda>r. st_campaign r = campaignID \<and> st_ws r = ws \<and> st_order r = k) (jd_steps s)"

definition ListStepVariants :: "uuid \<Rightarrow> uuid \<Rightarrow> job_db \<Rightarrow> variant_row list" where
  "ListStepVariants stepID ws s =
     sort_key va_id (filter (\<lambda>r. va_step r = stepID \<and> va_ws r = ws) (jd_variants s))"

definition ListSendWindows :: "uuid \<Rightarrow> uuid \<Rightarrow> job_db \<Rightarrow> window_row list" where
  "ListSendWindows campaignID ws s =
     sort_key ww_weekday (sort_key ww_start_minute
       (filter (\<lambda>r. ww_campaign r = campaignID \<and> ww_ws r = ws) (jd_windows s)))"

text \<open>The latest message sent to the contact: by send time, rows without one last, then by step.\<close>

definition later_sent :: "send \<Rightarrow> send \<Rightarrow> bool" where
  "later_sent a b \<longleftrightarrow>
     (case (sd_sent_at a, sd_sent_at b) of
        (Some t, Some u) \<Rightarrow> u < t \<or> (u = t \<and> sd_step_order b < sd_step_order a)
      | (Some _, None) \<Rightarrow> True
      | (None, Some _) \<Rightarrow> False
      | (None, None) \<Rightarrow> sd_step_order b < sd_step_order a)"

definition LatestSentForContact :: "uuid \<Rightarrow> uuid \<Rightarrow> uuid \<Rightarrow> job_db \<Rightarrow> send option" where
  "LatestSentForContact campaignID contactID ws s =
     (case filter (\<lambda>r. sd_campaign r = campaignID \<and> sd_contact r = contactID \<and> sd_ws r = ws
                       \<and> sd_status r = ''sent'') (db_sends (jd_core s)) of
        [] \<Rightarrow> None
      | r # rs \<Rightarrow> Some (fold (\<lambda>x m. if later_sent x m then x else m) rs r))"

definition GetMailbox :: "uuid \<Rightarrow> uuid \<Rightarrow> job_db \<Rightarrow> mailbox option" where
  "GetMailbox i ws s = select_one (\<lambda>m. mb_id m = i \<and> mb_ws m = ws) (db_mailboxes (jd_core s))"

definition participant_of :: "uuid \<Rightarrow> uuid \<Rightarrow> job_db \<Rightarrow> participant option" where
  "participant_of i ws s = select_one (\<lambda>p. wp_mailbox p = i \<and> wp_ws p = ws) (jd_participants s)"

definition GetMailboxColdHealth :: "uuid \<Rightarrow> uuid \<Rightarrow> job_db \<Rightarrow> string" where
  "GetMailboxColdHealth i ws s =
     (case participant_of i ws s of None \<Rightarrow> [] | Some p \<Rightarrow> if wp_enabled p then wp_health p else [])"

definition ListWorkspaceWarmupLanes :: "uuid \<Rightarrow> job_db \<Rightarrow> (string \<times> string) list" where
  "ListWorkspaceWarmupLanes ws s =
     concat (map (\<lambda>p. map (\<lambda>m. (mb_email m, wp_lane p))
         (filter (\<lambda>m. mb_id m = wp_mailbox p \<and> mb_ws m = wp_ws p) (db_mailboxes (jd_core s))))
       (sort_key wp_mailbox (filter (\<lambda>p. wp_ws p = ws \<and> wp_enabled p) (jd_participants s))))"

definition GetRecipientDomainESP :: "uuid \<Rightarrow> string \<Rightarrow> job_db \<Rightarrow> string option" where
  "GetRecipientDomainESP ws domain s =
     map_option rd_esp (select_one (\<lambda>r. rd_ws r = ws \<and> rd_domain r = domain \<and> rd_checked_at r \<noteq> None)
       (jd_recipient_domains s))"

record sender_candidate =
  sc_mailbox :: mailbox
  sc_weight :: int
  sc_enabled :: bool
  sc_assigned_count :: int
  sc_last_assigned_at :: "instant option"
  sc_health_state :: string
  sc_lane :: string
  sc_sent_today :: int

definition candidate_row :: "instant \<Rightarrow> job_db \<Rightarrow> campaign_sender \<Rightarrow> mailbox \<Rightarrow> sender_candidate" where
  "candidate_row now s cs m =
     (let p = participant_of (cs_mailbox cs) (cs_ws cs) s;
          live = (\<lambda>f. case p of None \<Rightarrow> [] | Some q \<Rightarrow> if wp_enabled q then f q else [])
      in \<lparr>sc_mailbox = m, sc_weight = cs_weight cs, sc_enabled = cs_enabled cs,
          sc_assigned_count = cs_assigned_count cs, sc_last_assigned_at = cs_last_assigned_at cs,
          sc_health_state = live wp_health, sc_lane = live wp_lane,
          sc_sent_today = count_where (\<lambda>r. sd_mailbox r = cs_mailbox cs \<and> sent_today now r) (db_sends (jd_core s))\<rparr>)"

definition ListCampaignSenderCandidates ::
  "instant \<Rightarrow> uuid \<Rightarrow> uuid \<Rightarrow> job_db \<Rightarrow> sender_candidate list" where
  "ListCampaignSenderCandidates now campaignID ws s =
     concat (map (\<lambda>cs. map (candidate_row now s cs)
         (filter (\<lambda>m. mb_id m = cs_mailbox cs \<and> mb_ws m = cs_ws cs) (db_mailboxes (jd_core s))))
       (sort_key cs_mailbox (filter (\<lambda>cs. cs_campaign cs = campaignID \<and> cs_ws cs = ws) (jd_senders s))))"

definition on_core :: "(db \<Rightarrow> db) \<Rightarrow> job_db \<Rightarrow> job_db" where
  "on_core f s = s\<lparr>jd_core := f (jd_core s)\<rparr>"

text \<open>\<open>None\<close> is no row returned: the enrollment is missing, foreign or already pinned.\<close>

definition unpinned :: "uuid \<Rightarrow> uuid \<Rightarrow> enrollment \<Rightarrow> bool" where
  "unpinned ws i e \<longleftrightarrow> is_row ws i e \<and> en_mailbox e = None"

definition ClaimEnrollmentMailbox :: "uuid \<Rightarrow> uuid \<Rightarrow> uuid \<Rightarrow> job_db \<Rightarrow> job_db option" where
  "ClaimEnrollmentMailbox i ws mailboxID s =
     (if select_one (unpinned ws i) (db_enrollments (jd_core s)) = None then None
      else Some (on_core (\<lambda>d. d\<lparr>db_enrollments :=
             update_where (unpinned ws i) (\<lambda>e. e\<lparr>en_mailbox := Some mailboxID\<rparr>) (db_enrollments d)\<rparr>) s))"

definition GetEnrollmentMailbox :: "uuid \<Rightarrow> uuid \<Rightarrow> job_db \<Rightarrow> uuid option option" where
  "GetEnrollmentMailbox i ws s =
     map_option en_mailbox (select_one (is_row ws i) (db_enrollments (jd_core s)))"

definition BumpCampaignSenderAssignment :: "instant \<Rightarrow> uuid \<Rightarrow> uuid \<Rightarrow> uuid \<Rightarrow> job_db \<Rightarrow> job_db" where
  "BumpCampaignSenderAssignment now campaignID ws mailboxID s =
     s\<lparr>jd_senders := update_where
         (\<lambda>c. cs_campaign c = campaignID \<and> cs_ws c = ws \<and> cs_mailbox c = mailboxID)
         (\<lambda>c. c\<lparr>cs_assigned_count := cs_assigned_count c + 1, cs_last_assigned_at := Some now\<rparr>) (jd_senders s)\<rparr>"

definition IsSuppressed :: "(string \<Rightarrow> string) \<Rightarrow> uuid \<Rightarrow> string \<Rightarrow> job_db \<Rightarrow> bool" where
  "IsSuppressed sql_lower ws email s =
     list_ex (\<lambda>(w, e). w = ws \<and> sql_lower e = sql_lower email) (jd_suppression s)"

end
