(* ===== verification/Host_Names.thy ===== *)
theory Host_Names
  imports Warmup_Sweep Personalize
begin

text \<open>
  Which operator handles a domain's mail (\<open>internal/platform/esp/esp.go\<close>), which mailboxes share a
  sending reputation and what that costs them (\<open>internal/platform/warmup/domain.go\<close>), and the share
  of a campaign a degraded domain may carry (\<open>internal/platform/warmup/exposure.go\<close>).

  Strings are UTF-8 bytes. Lower-casing is exact on ASCII; on other text it is the field
  \<open>unicode_lower\<close>, the standard library's case tables. The public suffix list, a third-party package,
  is the field \<open>effective_tld\<close>, and a DNS answer is an argument.
\<close>

subsection \<open>Text\<close>

record text_lib =
  unicode_lower :: "string \<Rightarrow> string"
  effective_tld :: "string \<Rightarrow> string option"

definition ascii :: "string \<Rightarrow> bool" where
  "ascii s \<longleftrightarrow> list_all (\<lambda>c. of_char c < (128 :: nat)) s"

definition ToLower :: "text_lib \<Rightarrow> string \<Rightarrow> string" where
  "ToLower X s = (if ascii s then map lower_char s else unicode_lower X s)"

function trim_left :: "nat list \<Rightarrow> nat list" where
  "trim_left bs = (if bs = [] \<or> space_prefix bs = 0 then bs else trim_left (drop (space_prefix bs) bs))"
  by auto
termination by (relation "measure length") auto

declare trim_left.simps [simp del]

text \<open>A trailing space, on the bytes in reverse.\<close>

fun space_suffix :: "nat list \<Rightarrow> nat" where
  "space_suffix [] = 0"
| "space_suffix (a # bs) =
     (if a \<in> {9, 10, 11, 12, 13, 32} then 1
      else case bs of
             [] \<Rightarrow> 0
           | b # cs \<Rightarrow>
               if space_prefix [b, a] = 2 then 2
               else (case cs of [] \<Rightarrow> 0 | c # _ \<Rightarrow> if space_prefix [c, b, a] = 3 then 3 else 0))"

function trim_right :: "nat list \<Rightarrow> nat list" where
  "trim_right rs = (if rs = [] \<or> space_suffix rs = 0 then rs else trim_right (drop (space_suffix rs) rs))"
  by auto
termination by (relation "measure length") auto

declare trim_right.simps [simp del]

definition TrimSpace :: "string \<Rightarrow> string" where
  "TrimSpace s = map char_of (rev (trim_right (rev (trim_left (map of_char s)))))"

definition has_suffix :: "string \<Rightarrow> string \<Rightarrow> bool" where
  "has_suffix s t \<longleftrightarrow> length t \<le> length s \<and> drop (length s - length t) s = t"

definition TrimSuffix :: "string \<Rightarrow> string \<Rightarrow> string" where
  "TrimSuffix s t = (if has_suffix s t then take (length s - length t) s else s)"

subsection \<open>Mail operators\<close>

definition Unknown :: string where [const_defs]: "Unknown = ''unknown''"
definition Google :: string where [const_defs]: "Google = ''google''"
definition Microsoft :: string where [const_defs]: "Microsoft = ''microsoft''"
definition Other :: string where [const_defs]: "Other = ''other''"

definition Matchable :: "string \<Rightarrow> bool" where
  "Matchable e \<longleftrightarrow> e = Google \<or> e = Microsoft"

definition Valid :: "string \<Rightarrow> bool" where
  "Valid s \<longleftrightarrow> s \<in> {Unknown, Google, Microsoft, Other}"

definition googleSMTPHosts :: "string list" where
  "googleSMTPHosts = [''smtp.gmail.com'', ''smtp-relay.gmail.com'']"
definition microsoftSMTPHosts :: "string list" where
  "microsoftSMTPHosts = [''smtp.office365.com'', ''outlook.office365.com'']"
definition providerGmail :: string where [const_defs]: "providerGmail = ''gmail''"
definition providerM365 :: string where [const_defs]: "providerM365 = ''m365''"
definition googleMXHosts :: "string list" where "googleMXHosts = [''google.com'', ''googlemail.com'']"
definition microsoftMXHosts :: "string list" where
  "microsoftMXHosts = [''protection.outlook.com'', ''outlook.com'', ''hotmail.com'']"

definition normalizeHost :: "text_lib \<Rightarrow> string \<Rightarrow> string" where
  "normalizeHost X h = TrimSuffix (ToLower X (TrimSpace h)) ''.''"

definition hasHostSuffix :: "string \<Rightarrow> string list \<Rightarrow> bool" where
  "hasHostSuffix host suffixes \<longleftrightarrow> list_ex (\<lambda>s. host = s \<or> has_suffix host (CHR ''.'' # s)) suffixes"

definition FromMailbox :: "text_lib \<Rightarrow> string \<Rightarrow> string \<Rightarrow> string" where
  "FromMailbox X provider smtpHost =
     (if provider = providerGmail then Google
      else if provider = providerM365 then Microsoft
      else
        let host = normalizeHost X smtpHost in
        if host = [] then Other
        else if hasHostSuffix host googleSMTPHosts then Google
        else if hasHostSuffix host microsoftSMTPHosts then Microsoft
        else Other)"

definition FromRecipient :: "string \<Rightarrow> string \<Rightarrow> string" where
  "FromRecipient provider cachedESP =
     (if provider = providerGmail then Google
      else if provider = providerM365 then Microsoft
      else if \<not> Valid cachedESP then Unknown
      else cachedESP)"

fun from_mx_hosts :: "text_lib \<Rightarrow> string list \<Rightarrow> string option" where
  "from_mx_hosts X [] = None"
| "from_mx_hosts X (h # hs) =
     (let host = normalizeHost X h in
      if host = [] then from_mx_hosts X hs
      else if hasHostSuffix host googleMXHosts then Some Google
      else if hasHostSuffix host microsoftMXHosts then Some Microsoft
      else Some Other)"

definition FromMX :: "text_lib \<Rightarrow> string list \<Rightarrow> string" where
  "FromMX X mxHosts =
     (case from_mx_hosts X mxHosts of
        Some e \<Rightarrow> e
      | None \<Rightarrow> if mxHosts = [] then Unknown else Other)"

text \<open>The text after the first at sign: up to the second one here, to the end in \<open>addressHost\<close>.\<close>

definition after_at :: "string \<Rightarrow> string option" where
  "after_at s = (if CHR ''@'' \<in> set s then Some (tl (dropWhile (\<lambda>c. c \<noteq> CHR ''@'') s)) else None)"

definition Domain :: "text_lib \<Rightarrow> string \<Rightarrow> string" where
  "Domain X email =
     (case after_at email of
        None \<Rightarrow> []
      | Some rest \<Rightarrow> ToLower X (takeWhile (\<lambda>c. c \<noteq> CHR ''@'') rest))"

definition maxDomainNameLength :: nat where "maxDomainNameLength = 253"

definition name_char :: "char \<Rightarrow> bool" where
  "name_char c \<longleftrightarrow> (let n = of_char c :: nat in
     n \<in> {97..122} \<or> n \<in> {65..90} \<or> n \<in> {48..57} \<or> c \<in> {CHR ''.'', CHR ''-'', CHR ''_''})"

fun double_dot :: "string \<Rightarrow> bool" where
  "double_dot (a # b # s) = (a = CHR ''.'' \<and> b = CHR ''.'' \<or> double_dot (b # s))"
| "double_dot _ = False"

definition resolvableName :: "string \<Rightarrow> bool" where
  "resolvableName d \<longleftrightarrow>
     (if d = [] \<or> maxDomainNameLength < length d then False
      else if hd d = CHR ''.'' \<or> last d = CHR ''.'' \<or> hd d = CHR ''-'' \<or> double_dot d then False
      else list_all name_char d)"

text \<open>A resolver's answer: an error that says the name has no such record or not, or the hosts of the
  records, \<open>None\<close> for a nil one.\<close>

definition Lookup ::
  "text_lib \<Rightarrow> (string \<Rightarrow> bool + string option list) \<Rightarrow> string \<Rightarrow> string \<times> string \<times> bool" where
  "Lookup X lookupMX d =
     (if \<not> resolvableName d then (Unknown, [], False)
      else case lookupMX d of
             Inl notFound \<Rightarrow> if notFound then (Other, [], True) else (Unknown, [], False)
           | Inr records \<Rightarrow>
               let hosts = map the (filter (\<lambda>h. h \<noteq> None) records) in
               if hosts = [] then (Other, [], True)
               else (FromMX X hosts, normalizeHost X (hd hosts), True))"

subsection \<open>Shared reputation\<close>

definition consumerMailDomains :: "string list" where
  "consumerMailDomains =
     [''gmail.com'', ''googlemail.com'', ''outlook.com'', ''hotmail.com'', ''live.com'', ''msn.com'',
      ''yahoo.com'', ''ymail.com'', ''aol.com'', ''icloud.com'', ''me.com'', ''mac.com'',
      ''proton.me'', ''protonmail.com'', ''gmx.com'', ''gmx.net'', ''mail.com'', ''zoho.com'',
      ''yandex.com'', ''yandex.ru'', ''qq.com'', ''163.com'']"

definition addressHost :: "text_lib \<Rightarrow> string \<Rightarrow> string" where
  "addressHost X email =
     (case after_at email of
        None \<Rightarrow> []
      | Some host \<Rightarrow> if host = [] then [] else ToLower X host)"

definition registrableHost :: "text_lib \<Rightarrow> string \<Rightarrow> string" where
  "registrableHost X host =
     (if host = [] then [] else case effective_tld X host of None \<Rightarrow> host | Some r \<Rightarrow> r)"

definition OrganizationalDomain :: "text_lib \<Rightarrow> string \<Rightarrow> string" where
  "OrganizationalDomain X email = registrableHost X (addressHost X email)"

definition SharesDomainReputation :: "text_lib \<Rightarrow> string \<Rightarrow> bool" where
  "SharesDomainReputation X email \<longleftrightarrow>
     OrganizationalDomain X email \<noteq> [] \<and> OrganizationalDomain X email \<notin> set consumerMailDomains"

definition SharedReputationDomain :: "text_lib \<Rightarrow> string \<Rightarrow> string" where
  "SharedReputationDomain X email =
     (if \<not> SharesDomainReputation X email then [] else OrganizationalDomain X email)"

definition laneSeverity :: "string \<Rightarrow> nat" where
  "laneSeverity lane =
     (if lane = LaneBlocked then 6 else if lane = LaneQuarantine then 5
      else if lane = LanePendingAuth then 4 else if lane = LaneRecovery then 3
      else if lane = LaneProbation then 2 else if lane = LaneWatch then 1 else 0)"

type_synonym domain_lanes = "string \<Rightarrow> string option"

definition worst_lane :: "text_lib \<Rightarrow> string \<times> string \<Rightarrow> domain_lanes \<Rightarrow> domain_lanes" where
  "worst_lane X p out =
     (let d = SharedReputationDomain X (fst p) in
      if d = [] then out
      else case out d of
             None \<Rightarrow> out(d := Some (snd p))
           | Some current \<Rightarrow>
               if laneSeverity current < laneSeverity (snd p) then out(d := Some (snd p)) else out)"

definition WorstLanesByDomain :: "text_lib \<Rightarrow> (string \<times> string) list \<Rightarrow> domain_lanes" where
  "WorstLanesByDomain X participants = fold (worst_lane X) participants (\<lambda>_. None)"

definition ForDomain :: "domain_lanes \<Rightarrow> string \<Rightarrow> string" where
  "ForDomain d domain = (case d domain of None \<Rightarrow> [] | Some l \<Rightarrow> l)"

definition For :: "text_lib \<Rightarrow> domain_lanes \<Rightarrow> string \<Rightarrow> string" where
  "For X d email =
     (let domain = SharedReputationDomain X email in if domain = [] then [] else ForDomain d domain)"

subsection \<open>Exposure ceilings\<close>

definition WatchExposureCeiling :: float64 where "WatchExposureCeiling = f_lit 35 100"
definition RecoveryExposureCeiling :: float64 where "RecoveryExposureCeiling = f_lit 20 100"

definition ExposureCeiling :: "string \<Rightarrow> float64" where
  "ExposureCeiling lane =
     (if normalizeLane lane = LaneWatch then WatchExposureCeiling
      else if normalizeLane lane = LaneRecovery then RecoveryExposureCeiling
      else f_int 0)"

end
