(* ===== verification/Rotation.thy ===== *)
theory Rotation
  imports Go_Float
begin

text \<open>
  Choosing a sender from a campaign's pool (\<open>internal/platform/rotation/select.go\<close>) and the limit on
  how much of a campaign rests on one fault domain (\<open>internal/platform/rotation/exposure.go\<close>).

  A comparison is a Go comparison function: negative, zero or positive. The locale \<open>comparison\<close> is
  the contract \<open>slices.MinFunc\<close> has with it, a strict weak ordering; every mode's order is shown to
  keep it. A score is a \<open>float64\<close> of \<open>Go_Float\<close>; a share is one too, and NaN, which neither has a
  value for, does not arise from them. Go maps from domains to counts are the sums they hold.
\<close>

subsection \<open>Comparisons\<close>

definition cmp_int :: "int \<Rightarrow> int \<Rightarrow> int" where
  "cmp_int a b = (if a < b then -1 else if b < a then 1 else 0)"

definition cmp_float :: "float64 \<Rightarrow> float64 \<Rightarrow> int" where
  "cmp_float a b = (if f_less a b then -1 else if f_less b a then 1 else 0)"

text \<open>Strings compare byte by byte.\<close>

fun cmp_string :: "string \<Rightarrow> string \<Rightarrow> int" where
  "cmp_string [] [] = 0"
| "cmp_string [] (d # ds) = -1"
| "cmp_string (c # cs) [] = 1"
| "cmp_string (c # cs) (d # ds) =
     (if c = d then cmp_string cs ds else if of_char c < (of_char d :: nat) then -1 else 1)"

text \<open>\<open>cmp.Or\<close>: the first answer that is not zero.\<close>

definition cmp_or :: "int \<Rightarrow> int \<Rightarrow> int" where
  "cmp_or a b = (if a \<noteq> 0 then a else b)"

text \<open>\<open>slices.MinFunc\<close>: the first of the least elements.\<close>

definition MinFunc :: "('a \<Rightarrow> 'a \<Rightarrow> int) \<Rightarrow> 'a list \<Rightarrow> 'a" where
  "MinFunc cmp xs = fold (\<lambda>x m. if cmp x m < 0 then x else m) (tl xs) (hd xs)"

locale comparison =
  fixes cmp :: "'a \<Rightarrow> 'a \<Rightarrow> int"
  assumes flip: "cmp x y < 0 \<longleftrightarrow> 0 < cmp y x"
    and trans: "cmp x y \<le> 0 \<Longrightarrow> cmp y z \<le> 0 \<Longrightarrow> cmp x z \<le> 0"
begin

lemma self [simp]: "cmp x x = 0"
  using flip [of x x] by linarith

lemma total: "cmp x y \<le> 0 \<or> cmp y x \<le> 0"
  using flip [of x y] flip [of y x] by linarith

lemma equiv_sym: "cmp x y = 0 \<longleftrightarrow> cmp y x = 0"
  using flip [of x y] flip [of y x] by linarith

lemma equiv_left: "cmp x y = 0 \<Longrightarrow> cmp x z = 0 \<longleftrightarrow> cmp y z = 0"
  using trans [of x y z] trans [of y x z] trans [of z x y] trans [of z y x]
    equiv_sym [of x y] equiv_sym [of x z] equiv_sym [of y z]
    flip [of x z] flip [of y z] by (smt (verit))

lemma fold_min:
  defines "f \<equiv> \<lambda>x m. if cmp x m < 0 then x else m"
  shows "fold f xs m \<in> insert m (set xs) \<and> (\<forall>y \<in> insert m (set xs). cmp (fold f xs m) y \<le> 0)"
proof (induction xs arbitrary: m)
  case Nil
  show ?case by simp
next
  case (Cons x xs)
  have "cmp (f x m) x \<le> 0" "cmp (f x m) m \<le> 0" "f x m \<in> {x, m}"
    using total [of x m] flip [of x m] flip [of m x] by (auto simp: f_def)
  with Cons.IH [of "f x m"] show ?case by (auto intro: trans)
qed

lemma MinFunc_least:
  "xs \<noteq> [] \<Longrightarrow> MinFunc cmp xs \<in> set xs \<and> (\<forall>y \<in> set xs. cmp (MinFunc cmp xs) y \<le> 0)"
  using fold_min [of "tl xs" "hd xs"] by (cases xs) (simp_all add: MinFunc_def)

text \<open>When no two different elements compare equal, the order of the list does not matter.\<close>

lemma MinFunc_order_free:
  assumes "xs \<noteq> []" and "set ys = set xs"
    and "\<And>x y. x \<in> set xs \<Longrightarrow> y \<in> set xs \<Longrightarrow> cmp x y = 0 \<Longrightarrow> x = y"
  shows "MinFunc cmp ys = MinFunc cmp xs"
proof -
  have "ys \<noteq> []" using assms(1,2) by auto
  then have ys: "MinFunc cmp ys \<in> set xs" "cmp (MinFunc cmp ys) (MinFunc cmp xs) \<le> 0"
    using MinFunc_least [of ys] MinFunc_least [OF assms(1)] assms(2) by auto
  have xs: "MinFunc cmp xs \<in> set xs" "cmp (MinFunc cmp xs) (MinFunc cmp ys) \<le> 0"
    using MinFunc_least [OF assms(1)] ys by auto
  have "cmp (MinFunc cmp ys) (MinFunc cmp xs) = 0"
    using ys(2) xs(2) flip by (smt (verit))
  with assms(3) ys(1) xs(1) show ?thesis by blast
qed

end

lemma comparison_on: "comparison cmp \<Longrightarrow> comparison (\<lambda>x y. cmp (f x) (f y))"
  unfolding comparison_def by blast

lemma comparison_or:
  assumes "comparison c" and "comparison d"
  shows "comparison (\<lambda>x y. cmp_or (c x y) (d x y))"
proof
  fix x y z
  show "cmp_or (c x y) (d x y) < 0 \<longleftrightarrow> 0 < cmp_or (c y x) (d y x)"
    using comparison.flip [OF assms(1)] comparison.flip [OF assms(2)]
      comparison.equiv_sym [OF assms(1)] by (simp add: cmp_or_def)
  assume le: "cmp_or (c x y) (d x y) \<le> 0" "cmp_or (c y z) (d y z) \<le> 0"
  show "cmp_or (c x z) (d x z) \<le> 0"
    using le comparison.trans [OF assms(1), of x y z] comparison.trans [OF assms(1), of y z x]
      comparison.trans [OF assms(1), of z x y]
      comparison.flip [OF assms(1), of x y] comparison.flip [OF assms(1), of y z]
      comparison.equiv_sym [OF assms(1), of x z] comparison.equiv_sym [OF assms(1), of y z]
      comparison.trans [OF assms(2), of x y z]
    unfolding cmp_or_def by (auto split: if_splits)
qed

lemma comparison_flip: "comparison cmp \<Longrightarrow> comparison (\<lambda>x y. - cmp x y)"
  unfolding comparison_def by (smt (verit))

lemma comparison_int: "comparison cmp_int"
  by unfold_locales (auto simp: cmp_int_def split: if_splits)

lemma comparison_float: "comparison cmp_float"
  by unfold_locales (auto simp: cmp_float_def f_compare split: if_splits)

lemma cmp_string_zero: "cmp_string a b = 0 \<longleftrightarrow> a = b"
  by (induction a b rule: cmp_string.induct) auto

lemma cmp_string_flip: "cmp_string a b < 0 \<longleftrightarrow> 0 < cmp_string b a"
  by (induction a b rule: cmp_string.induct) auto

lemma cmp_string_trans: "cmp_string a b \<le> 0 \<Longrightarrow> cmp_string b c \<le> 0 \<Longrightarrow> cmp_string a c \<le> 0"
proof (induction a b arbitrary: c rule: cmp_string.induct)
  case (4 x xs y ys)
  then show ?case by (cases c) (auto split: if_splits)
next
  case (2 d ds)
  then show ?case by (cases c) auto
next
  case 1
  then show ?case by (cases c) auto
next
  case 3
  then show ?case by simp
qed

lemma comparison_string: "comparison cmp_string"
  by (rule comparison.intro [OF cmp_string_flip cmp_string_trans])

subsection \<open>Selecting a sender\<close>

record candidate =
  ca_mailbox :: string
  ca_weight :: int
  RemainingToday :: int
  WarmupAgeDays :: int
  AssignedCount :: int
  LastAssignedAt :: instant

definition ModeRoundRobin :: string where [const_defs]: "ModeRoundRobin = ''round_robin''"
definition ModeLRU :: string where [const_defs]: "ModeLRU = ''least_recently_used''"
definition ModeWeighted :: string where [const_defs]: "ModeWeighted = ''weighted''"

definition score :: "candidate \<Rightarrow> float64" where
  "score c =
     f_mul (f_mul (f_int (max (ca_weight c) 0)) (f_int (max (RemainingToday c) 0)))
       (f_add (f_int 1) (f_log2 (f_add (f_int (max (WarmupAgeDays c) 0)) (f_int 1))))"

definition order :: "string \<Rightarrow> candidate \<Rightarrow> candidate \<Rightarrow> int" where
  "order mode a b =
     cmp_or
       (if mode = ModeRoundRobin then cmp_int (AssignedCount a) (AssignedCount b)
        else if mode = ModeLRU then cmp_int (LastAssignedAt a) (LastAssignedAt b)
        else - cmp_float (score a) (score b))
       (cmp_string (ca_mailbox a) (ca_mailbox b))"

definition Select_sender :: "string \<Rightarrow> candidate list \<Rightarrow> candidate option" where
  "Select_sender mode candidates =
     (if candidates = [] then None else Some (MinFunc (order mode) candidates))"

lemma comparison_order: "comparison (order mode)"
proof -
  have name: "comparison (\<lambda>a b. cmp_string (ca_mailbox a) (ca_mailbox b))"
    by (rule comparison_on [OF comparison_string])
  consider "mode = ModeRoundRobin" | "mode \<noteq> ModeRoundRobin" "mode = ModeLRU"
    | "mode \<noteq> ModeRoundRobin" "mode \<noteq> ModeLRU" by blast
  then show ?thesis
  proof cases
    case 1
    with comparison_or [OF comparison_on [OF comparison_int, of AssignedCount] name]
    show ?thesis by (simp add: order_def [abs_def])
  next
    case 2
    with comparison_or [OF comparison_on [OF comparison_int, of LastAssignedAt] name]
    show ?thesis by (simp add: order_def [abs_def])
  next
    case 3
    with comparison_or [OF comparison_flip [OF comparison_on [OF comparison_float, of score]] name]
    show ?thesis by (simp add: order_def [abs_def])
  qed
qed

interpretation ranking: comparison "order mode" for mode
  by (rule comparison_order)

lemma order_zero: "order mode a b = 0 \<Longrightarrow> ca_mailbox a = ca_mailbox b"
  by (simp add: order_def cmp_or_def cmp_string_zero split: if_splits)

lemma order_key:
  "order mode a b \<le> 0 \<Longrightarrow>
     (if mode = ModeRoundRobin then AssignedCount a \<le> AssignedCount b
      else if mode = ModeLRU then LastAssignedAt a \<le> LastAssignedAt b
      else fval (score b) \<le> fval (score a))"
  by (auto simp: order_def cmp_or_def cmp_int_def cmp_float_def f_compare split: if_splits)

text \<open>The sender picked from a pool is a member of it that is best under the mode (fewest contacts
  assigned, longest since its last one, or highest score), and it does not depend on the order in
  which the pool was read, so a retry that reads the same pool picks the same mailbox.\<close>

theorem Select_best:
  assumes "Select_sender mode cs = Some c"
  shows "c \<in> set cs
     \<and> (\<forall>d \<in> set cs.
          if mode = ModeRoundRobin then AssignedCount c \<le> AssignedCount d
          else if mode = ModeLRU then LastAssignedAt c \<le> LastAssignedAt d
          else fval (score d) \<le> fval (score c))
     \<and> (\<forall>ds. set ds = set cs \<and> inj_on ca_mailbox (set cs) \<longrightarrow> Select_sender mode ds = Some c)"
proof -
  have ne: "cs \<noteq> []" and c: "c = MinFunc (order mode) cs"
    using assms by (auto simp: Select_sender_def split: if_splits)
  have "Select_sender mode ds = Some c" if "set ds = set cs" "inj_on ca_mailbox (set cs)" for ds
  proof -
    have "MinFunc (order mode) ds = c"
      unfolding c by (rule ranking.MinFunc_order_free [OF ne that(1)])
        (use that(2) order_zero in \<open>blast dest: inj_onD\<close>)
    then show ?thesis using ne that(1) by (auto simp: Select_sender_def)
  qed
  with ranking.MinFunc_least [OF ne, of mode] order_key show ?thesis unfolding c by blast
qed

subsection \<open>Exposure budgets\<close>

definition MaxFaultDomainShare :: float64 where "MaxFaultDomainShare = f_lit 6 10"

definition ceilingFor :: "(string \<Rightarrow> float64) option \<Rightarrow> string \<Rightarrow> float64" where
  "ceilingFor ceilingOf domain =
     (case ceilingOf of
        None \<Rightarrow> MaxFaultDomainShare
      | Some f \<Rightarrow>
          let c = f domain in
          if f_le c (f_int 0) \<or> f_less (f_int 1) c then MaxFaultDomainShare else c)"

text \<open>The map \<open>assigned\<close> of the two functions: its value at a domain, and its keys.\<close>

definition assigned_to :: "(candidate \<Rightarrow> string) \<Rightarrow> candidate list \<Rightarrow> string \<Rightarrow> int" where
  "assigned_to domainOf cs d = sum_list (map AssignedCount (filter (\<lambda>c. domainOf c = d) cs))"

definition total_assigned :: "candidate list \<Rightarrow> int" where
  "total_assigned cs = sum_list (map AssignedCount cs)"

definition domains_of :: "(candidate \<Rightarrow> string) \<Rightarrow> candidate list \<Rightarrow> string list" where
  "domains_of domainOf cs = remdups (filter (\<lambda>d. d \<noteq> []) (map domainOf cs))"

definition within_budget ::
  "candidate list \<Rightarrow> (candidate \<Rightarrow> string) \<Rightarrow> (string \<Rightarrow> float64) option \<Rightarrow> candidate \<Rightarrow> bool" where
  "within_budget cs domainOf ceilingOf c \<longleftrightarrow>
     domainOf c = []
     \<or> f_le (f_div (f_int (assigned_to domainOf cs (domainOf c))) (f_int (total_assigned cs)))
         (ceilingFor ceilingOf (domainOf c))"

definition WithinExposureBudgetFor ::
  "candidate list \<Rightarrow> (candidate \<Rightarrow> string) option \<Rightarrow> (string \<Rightarrow> float64) option \<Rightarrow> candidate list" where
  "WithinExposureBudgetFor cs domainOf ceilingOf =
     (case domainOf of
        None \<Rightarrow> cs
      | Some fd \<Rightarrow>
          if length cs < 2 then cs
          else if total_assigned cs = 0 then cs
          else
            let kept = filter (within_budget cs fd ceilingOf) cs
            in if kept = [] then cs else kept)"

definition WithinExposureBudget ::
  "candidate list \<Rightarrow> (candidate \<Rightarrow> string) option \<Rightarrow> candidate list" where
  "WithinExposureBudget cs domainOf = WithinExposureBudgetFor cs domainOf None"

record fault_domain_share =
  Domain :: string
  Assigned :: int
  Share :: float64
  Ceiling :: float64
  OverBudget :: bool

definition share_row ::
  "candidate list \<Rightarrow> (candidate \<Rightarrow> string) \<Rightarrow> (string \<Rightarrow> float64) option \<Rightarrow> string \<Rightarrow> fault_domain_share" where
  "share_row cs fd ceilingOf d =
     (let n = assigned_to fd cs d;
          share = (if 0 < total_assigned cs then f_div (f_int n) (f_int (total_assigned cs)) else f_int 0);
          ceiling = ceilingFor ceilingOf d
      in \<lparr>Domain = d, Assigned = n, Share = share, Ceiling = ceiling, OverBudget = f_less ceiling share\<rparr>)"

text \<open>\<open>sort.Slice\<close> by share, the largest first, then by domain: a strict order on distinct domains,
  so every sort gives the same list.\<close>

definition share_before :: "fault_domain_share \<Rightarrow> fault_domain_share \<Rightarrow> bool" where
  "share_before a b \<longleftrightarrow>
     (if \<not> f_eq (Share a) (Share b) then f_less (Share b) (Share a)
      else cmp_string (Domain a) (Domain b) < 0)"

fun insert_by :: "('a \<Rightarrow> 'a \<Rightarrow> bool) \<Rightarrow> 'a \<Rightarrow> 'a list \<Rightarrow> 'a list" where
  "insert_by lt x [] = [x]"
| "insert_by lt x (y # ys) = (if lt y x then y # insert_by lt x ys else x # y # ys)"

definition sort_slice :: "('a \<Rightarrow> 'a \<Rightarrow> bool) \<Rightarrow> 'a list \<Rightarrow> 'a list" where
  "sort_slice lt xs = foldr (insert_by lt) xs []"

definition FaultDomainSharesFor ::
  "candidate list \<Rightarrow> (candidate \<Rightarrow> string) option \<Rightarrow> (string \<Rightarrow> float64) option
     \<Rightarrow> fault_domain_share list" where
  "FaultDomainSharesFor cs domainOf ceilingOf =
     (case domainOf of
        None \<Rightarrow> []
      | Some fd \<Rightarrow> sort_slice share_before (map (share_row cs fd ceilingOf) (domains_of fd cs)))"

definition FaultDomainShares ::
  "candidate list \<Rightarrow> (candidate \<Rightarrow> string) option \<Rightarrow> fault_domain_share list" where
  "FaultDomainShares cs domainOf = FaultDomainSharesFor cs domainOf None"

lemma insert_by_set [simp]: "set (insert_by lt x ys) = insert x (set ys)"
  by (induction ys) auto

lemma sort_slice_set [simp]: "set (sort_slice lt xs) = set xs"
  unfolding sort_slice_def by (induction xs) auto

definition share_cmp :: "fault_domain_share \<Rightarrow> fault_domain_share \<Rightarrow> int" where
  "share_cmp a b = cmp_or (- cmp_float (Share a) (Share b)) (cmp_string (Domain a) (Domain b))"

lemma comparison_share: "comparison share_cmp"
  using comparison_or [OF comparison_flip [OF comparison_on [OF comparison_float, of Share]]
      comparison_on [OF comparison_string, of Domain]]
  by (simp add: share_cmp_def [abs_def])

interpretation shares: comparison share_cmp
  by (rule comparison_share)

lemma share_before_cmp: "share_before a b \<longleftrightarrow> share_cmp a b < 0"
  by (auto simp: share_before_def share_cmp_def cmp_or_def cmp_float_def f_compare cmp_string_flip
      cmp_string_zero)

context comparison
begin

lemma insert_by_sorted:
  "sorted_wrt (\<lambda>a b. cmp a b \<le> 0) ys \<Longrightarrow>
     sorted_wrt (\<lambda>a b. cmp a b \<le> 0) (insert_by (\<lambda>a b. cmp a b < 0) x ys)"
proof (induction ys)
  case Nil
  then show ?case by simp
next
  case (Cons y ys)
  then have "cmp x z \<le> 0" if "\<not> cmp y x < 0" "z \<in> set ys" for z
    using flip [of y x] that by (intro trans [of x y z]) auto
  with Cons show ?case using flip [of y x] by auto
qed

lemma sort_slice_sorted: "sorted_wrt (\<lambda>a b. cmp a b \<le> 0) (sort_slice (\<lambda>a b. cmp a b < 0) xs)"
  unfolding sort_slice_def by (induction xs) (auto intro: insert_by_sorted)

end

text \<open>The exposure budget narrows and never refuses: what it keeps is part of what it was given, in
  the same order, and is never empty when that was not; and unless it had to give the whole set
  back, it keeps exactly the candidates of unknown fault domains and of domains whose share is
  within their ceiling.\<close>

theorem budget_narrows:
  "(\<exists>P. WithinExposureBudgetFor cs domainOf ceilingOf = filter P cs)
   \<and> (cs \<noteq> [] \<longrightarrow> WithinExposureBudgetFor cs domainOf ceilingOf \<noteq> [])
   \<and> (\<forall>fd. domainOf = Some fd \<and> WithinExposureBudgetFor cs domainOf ceilingOf \<noteq> cs \<longrightarrow>
        WithinExposureBudgetFor cs domainOf ceilingOf = filter (within_budget cs fd ceilingOf) cs)"
proof -
  have "\<exists>P. cs = filter P cs" by (intro exI [of _ "\<lambda>_. True"]) simp
  then show ?thesis
    by (auto simp: WithinExposureBudgetFor_def Let_def split: option.splits)
qed

lemma assigned_to_nonneg:
  "(\<And>c. c \<in> set cs \<Longrightarrow> 0 \<le> AssignedCount c) \<Longrightarrow> 0 \<le> assigned_to fd cs d"
  unfolding assigned_to_def by (intro sum_list_nonneg) auto

text \<open>The usage panel and the selector judge alike: a domain is shown as over its budget exactly
  when the selector keeps none of its candidates, unless it had to give the whole set back; and the
  panel lists every known domain of the pool, the largest share first.\<close>

theorem panel_matches_selector:
  assumes "2 \<le> length cs" and "\<And>c. c \<in> set cs \<Longrightarrow> 0 \<le> AssignedCount c" and "0 < total_assigned cs"
    and "WithinExposureBudgetFor cs (Some fd) ceilingOf \<noteq> cs"
  shows "Domain ` set (FaultDomainSharesFor cs (Some fd) ceilingOf) = fd ` set cs - {[]}
     \<and> (\<forall>row \<in> set (FaultDomainSharesFor cs (Some fd) ceilingOf).
          OverBudget row \<longleftrightarrow>
            (\<forall>c \<in> set (WithinExposureBudgetFor cs (Some fd) ceilingOf). fd c \<noteq> Domain row))
     \<and> sorted_wrt (\<lambda>a b. fval (Share b) \<le> fval (Share a)) (FaultDomainSharesFor cs (Some fd) ceilingOf)"
proof -
  have sel: "WithinExposureBudgetFor cs (Some fd) ceilingOf = filter (within_budget cs fd ceilingOf) cs"
    using assms(1,3,4) by (auto simp: WithinExposureBudgetFor_def Let_def split: if_splits)
  have rows: "set (FaultDomainSharesFor cs (Some fd) ceilingOf)
      = share_row cs fd ceilingOf ` {d. d \<noteq> [] \<and> d \<in> fd ` set cs}"
    by (auto simp: FaultDomainSharesFor_def domains_of_def)
  have name: "Domain (share_row cs fd ceilingOf d) = d" for d by (simp add: share_row_def Let_def)
  have over: "OverBudget (share_row cs fd ceilingOf (fd c)) \<longleftrightarrow> \<not> within_budget cs fd ceilingOf c"
    if "fd c \<noteq> []" for c
    using that assms(3) by (simp add: share_row_def within_budget_def Let_def f_compare not_le)
  have "sorted_wrt (\<lambda>a b. share_cmp a b \<le> 0) (FaultDomainSharesFor cs (Some fd) ceilingOf)"
    using shares.sort_slice_sorted
    by (simp add: FaultDomainSharesFor_def share_before_cmp [abs_def])
  then have "sorted_wrt (\<lambda>a b. fval (Share b) \<le> fval (Share a)) (FaultDomainSharesFor cs (Some fd) ceilingOf)"
    by (rule sorted_wrt_mono_rel [rotated])
      (auto simp: share_cmp_def cmp_or_def cmp_float_def f_compare split: if_splits)
  moreover have apart: "fd c \<noteq> fd c'" if "\<not> within_budget cs fd ceilingOf c" "within_budget cs fd ceilingOf c'" for c c'
    using that by (auto simp: within_budget_def)
  have "OverBudget row \<longleftrightarrow> (\<forall>c \<in> set (filter (within_budget cs fd ceilingOf) cs). fd c \<noteq> Domain row)"
    if "row \<in> share_row cs fd ceilingOf ` {d. d \<noteq> [] \<and> d \<in> fd ` set cs}" for row
  proof -
    from that obtain c where c: "c \<in> set cs" "fd c \<noteq> []" "row = share_row cs fd ceilingOf (fd c)" by auto
    show ?thesis
      using over [OF c(2)] apart [of c, THEN not_sym] c(1) by (auto simp: c(3) name)
  qed
  moreover have "Domain ` share_row cs fd ceilingOf ` {d. d \<noteq> [] \<and> d \<in> fd ` set cs} = fd ` set cs - {[]}"
    by (auto simp: name image_image)
  ultimately show ?thesis unfolding rows sel by blast
qed

subsection \<open>Witnesses\<close>

definition pool_member :: "string \<Rightarrow> int \<Rightarrow> candidate" where
  "pool_member i n = \<lparr>ca_mailbox = i, ca_weight = 1, RemainingToday = 10, WarmupAgeDays = 0,
     AssignedCount = n, LastAssignedAt = 0\<rparr>"

definition pool_sample :: "candidate list" where
  "pool_sample = [pool_member ''a'' 90, pool_member ''b'' 10, pool_member ''c'' 10]"

definition pool_domain :: "candidate \<Rightarrow> string" where
  "pool_domain c = (if ca_mailbox c = ''a'' then ''acme.com'' else ''acme.org'')"

lemma order_round_robin:
  "order ModeRoundRobin a b =
     cmp_or (cmp_int (AssignedCount a) (AssignedCount b)) (cmp_string (ca_mailbox a) (ca_mailbox b))"
  by (simp add: order_def)

theorem Select_best_witness:
  "Select_sender ModeRoundRobin pool_sample = Some (pool_member ''b'' 10)
     \<and> Select_sender ModeRoundRobin (rev pool_sample) = Some (pool_member ''b'' 10)"
proof -
  have least: "order ModeRoundRobin (pool_member ''b'' 10) (pool_member ''a'' 90) < 0"
    "\<not> order ModeRoundRobin (pool_member ''c'' 10) (pool_member ''b'' 10) < 0"
    unfolding order_round_robin by (code_simp, code_simp)
  have pick: "Select_sender ModeRoundRobin pool_sample = Some (pool_member ''b'' 10)"
    by (simp add: Select_sender_def MinFunc_def pool_sample_def least)
  have "inj_on ca_mailbox (set pool_sample)" by (simp add: pool_sample_def pool_member_def)
  then have "set (rev pool_sample) = set pool_sample \<and> inj_on ca_mailbox (set pool_sample)" by simp
  with Select_best [OF pick] pick show ?thesis by blast
qed

theorem budget_narrows_witness:
  "\<exists>P. WithinExposureBudgetFor pool_sample (Some pool_domain) None = filter P pool_sample"
  using budget_narrows [of pool_sample "Some pool_domain" None] by blast

theorem panel_matches_selector_witness:
  "map (\<lambda>r. (Domain r, OverBudget r)) (FaultDomainSharesFor pool_sample (Some pool_domain) None)
       = [(''acme.com'', True), (''acme.org'', False)]
     \<and> Domain ` set (FaultDomainSharesFor pool_sample (Some pool_domain) None)
       = pool_domain ` set pool_sample - {[]}"
proof -
  have "map (\<lambda>r. (Domain r, OverBudget r)) (FaultDomainSharesFor pool_sample (Some pool_domain) None)
      = [(''acme.com'', True), (''acme.org'', False)]"
    by code_simp
  moreover have "WithinExposureBudgetFor pool_sample (Some pool_domain) None
      = [pool_member ''b'' 10, pool_member ''c'' 10]"
    by code_simp
  then have "WithinExposureBudgetFor pool_sample (Some pool_domain) None \<noteq> pool_sample"
    by (simp add: pool_sample_def)
  moreover have "0 \<le> AssignedCount c" if "c \<in> set pool_sample" for c
    using that by (auto simp: pool_sample_def pool_member_def)
  ultimately show ?thesis
    using panel_matches_selector [of pool_sample pool_domain None]
    by (simp add: pool_sample_def pool_member_def total_assigned_def)
qed

end
