(* ===== verification/Sender_Pool.thy ===== *)
theory Sender_Pool
  imports Job_Tables Host_Names Rotation Send_Cap
begin

text \<open>
  Which mailbox a step is sent from (\<open>internal/coreapi/inprocess/senderpool.go\<close>): the thread's pinned
  mailbox, a member of the campaign's pool chosen by eligibility, recipient matching, exposure budget
  and rotation and pinned write-once, or the campaign's own mailbox.

  Two clocks: \<open>now\<close> is the application's, from which a mailbox's age is taken, \<open>nowdb\<close> the database's.
  An operation returns an error or a result beside the database it leaves. A second run of a
  statement has its own fault name.
\<close>

definition mailboxStatusActive :: string where [const_defs]: "mailboxStatusActive = ''active''"

record resolvedSender =
  rs_mailboxID :: uuid
  rs_provider :: string
  rs_fromEmail :: string
  rs_fromName :: string
  rs_smtpHost :: string
  rs_smtpPort :: int
  rs_smtpUsername :: string
  rs_secretCiphertext :: string
  rs_allowPlaintext :: bool
  rs_minIntervalSeconds :: int
  rs_effectiveCap :: int
  rs_sentToday :: int
  rs_healthPaused :: bool

text \<open>\<open>pgtype.Timestamptz\<close> is the zero time when it is not valid; \<open>Hours\<close> is a \<open>float64\<close>.\<close>

definition duration_hours :: "duration \<Rightarrow> float64" where
  "duration_hours d =
     f_add (f_int (quot d hour)) (f_div (f_int (d - quot d hour * hour)) (f_lit 3600000000000 1))"

definition mailboxAgeDays :: "instant \<Rightarrow> instant option \<Rightarrow> int" where
  "mailboxAgeDays now createdAt =
     f_trunc (f_div (duration_hours (time_sub now (or_zero createdAt))) (f_int 24))"

definition threadLostItsMailbox :: "int \<Rightarrow> uuid option \<Rightarrow> bool" where
  "threadLostItsMailbox currentStep pinned \<longleftrightarrow> 0 < currentStep \<and> pinned = None"

subsection \<open>Capacity\<close>

definition mailbox_cap :: "instant \<Rightarrow> mailbox \<Rightarrow> int" where
  "mailbox_cap now m =
     Effective (mb_daily_cap m) (mb_ramp_start_cap m) (mb_ramp_days m) (mb_ramp_enabled m)
       (mailboxAgeDays now (mb_created_at m))"

definition candidateCap :: "instant \<Rightarrow> sender_candidate \<Rightarrow> int" where
  "candidateCap now r = mailbox_cap now (sc_mailbox r)"

definition availableToday :: "instant \<Rightarrow> sender_candidate \<Rightarrow> string \<Rightarrow> int" where
  "availableToday now r domainLane =
     (if \<not> sc_enabled r \<or> mb_status (sc_mailbox r) \<noteq> mailboxStatusActive then 0
      else if NewLeadsWithheld (sc_lane r) domainLane then 0
      else max (Cold (candidateCap now r) (sc_health_state r) - sc_sent_today r) 0)"

definition mailboxSender :: "instant \<Rightarrow> mailbox \<Rightarrow> resolvedSender" where
  "mailboxSender now m =
     \<lparr>rs_mailboxID = mb_id m, rs_provider = mb_provider m, rs_fromEmail = mb_email m,
      rs_fromName = mb_display_name m, rs_smtpHost = mb_smtp_host m, rs_smtpPort = mb_smtp_port m,
      rs_smtpUsername = mb_smtp_username m, rs_secretCiphertext = mb_secret_ciphertext m,
      rs_allowPlaintext = mb_allow_plaintext m, rs_minIntervalSeconds = mb_min_interval_seconds m,
      rs_effectiveCap = mailbox_cap now m, rs_sentToday = 0, rs_healthPaused = False\<rparr>"

definition bundleSender :: "instant \<Rightarrow> step_bundle \<Rightarrow> resolvedSender" where
  "bundleSender now b = mailboxSender now (b_mailbox b)"

definition withTodaysCapacity ::
  "faults \<Rightarrow> instant \<Rightarrow> uuid \<Rightarrow> resolvedSender \<Rightarrow> job_db \<Rightarrow> core_error + resolvedSender" where
  "withTodaysCapacity flt nowdb ws s db =
     (case flt ''CountSentToday'' of
        Some e \<Rightarrow> Inl (ErrDb e)
      | None \<Rightarrow>
          let s1 = s\<lparr>rs_sentToday := CountSentToday nowdb (rs_mailboxID s) db\<rparr> in
          (case flt ''GetMailboxColdHealth'' of
             Some e \<Rightarrow> Inl (ErrDb e)
           | None \<Rightarrow>
               let health = GetMailboxColdHealth (rs_mailboxID s) ws db in
               if health = HealthPaused then Inr (s1\<lparr>rs_healthPaused := True\<rparr>)
               else Inr (s1\<lparr>rs_effectiveCap := Cold (rs_effectiveCap s) health\<rparr>)))"

subsection \<open>The candidates\<close>

definition domainLanes ::
  "text_lib \<Rightarrow> faults \<Rightarrow> uuid \<Rightarrow> job_db \<Rightarrow> core_error + domain_lanes" where
  "domainLanes X flt ws db =
     (case flt ''ListWorkspaceWarmupLanes'' of
        Some e \<Rightarrow> Inl (ErrDb e)
      | None \<Rightarrow> Inr (WorstLanesByDomain X (ListWorkspaceWarmupLanes ws db)))"

definition row_available :: "text_lib \<Rightarrow> instant \<Rightarrow> domain_lanes \<Rightarrow> sender_candidate \<Rightarrow> int" where
  "row_available X now dl r = availableToday now r (For X dl (mb_email (sc_mailbox r)))"

definition row_candidate :: "lib \<Rightarrow> text_lib \<Rightarrow> instant \<Rightarrow> domain_lanes \<Rightarrow> sender_candidate \<Rightarrow> candidate" where
  "row_candidate L X now dl r =
     \<lparr>ca_mailbox = uuid_String L (mb_id (sc_mailbox r)), ca_weight = sc_weight r,
      RemainingToday = row_available X now dl r,
      WarmupAgeDays = mailboxAgeDays now (mb_created_at (sc_mailbox r)),
      AssignedCount = sc_assigned_count r, LastAssignedAt = or_zero (sc_last_assigned_at r)\<rparr>"

definition eligibleCandidates ::
  "lib \<Rightarrow> text_lib \<Rightarrow> instant \<Rightarrow> sender_candidate list \<Rightarrow> domain_lanes \<Rightarrow> candidate list" where
  "eligibleCandidates L X now rows dl =
     map (row_candidate L X now dl) (filter (\<lambda>r. 0 < row_available X now dl r) rows)"

text \<open>A map built over the pool rows: the last row of a mailbox wins.\<close>

definition row_of :: "lib \<Rightarrow> sender_candidate list \<Rightarrow> string \<Rightarrow> sender_candidate option" where
  "row_of L rows i = find (\<lambda>r. uuid_String L (mb_id (sc_mailbox r)) = i) (rev rows)"

definition partitionByESP ::
  "lib \<Rightarrow> text_lib \<Rightarrow> sender_candidate list \<Rightarrow> candidate list \<Rightarrow> string \<Rightarrow> candidate list" where
  "partitionByESP L X rows eligible want =
     (if \<not> Matchable want then eligible
      else
        let matched = filter (\<lambda>c. case row_of L rows (ca_mailbox c) of
                                    None \<Rightarrow> False
                                  | Some r \<Rightarrow> FromMailbox X (mb_provider (sc_mailbox r)) (mb_smtp_host (sc_mailbox r)) = want)
                        eligible
        in if matched = [] then eligible else matched)"

definition faultDomains :: "lib \<Rightarrow> text_lib \<Rightarrow> sender_candidate list \<Rightarrow> candidate \<Rightarrow> string" where
  "faultDomains L X rows c =
     (case row_of L rows (ca_mailbox c) of
        None \<Rightarrow> []
      | Some r \<Rightarrow> SharedReputationDomain X (mb_email (sc_mailbox r)))"

definition exposureCeilings :: "domain_lanes \<Rightarrow> string \<Rightarrow> float64" where
  "exposureCeilings dl domain = ExposureCeiling (ForDomain dl domain)"

definition withinExposureBudget ::
  "lib \<Rightarrow> text_lib \<Rightarrow> sender_candidate list \<Rightarrow> candidate list \<Rightarrow> domain_lanes \<Rightarrow> candidate list" where
  "withinExposureBudget L X rows eligible dl =
     WithinExposureBudgetFor eligible (Some (faultDomains L X rows)) (Some (exposureCeilings dl))"

definition narrowed ::
  "lib \<Rightarrow> text_lib \<Rightarrow> sender_candidate list \<Rightarrow> candidate list \<Rightarrow> string \<Rightarrow> domain_lanes \<Rightarrow> candidate list" where
  "narrowed L X rows eligible recipient dl =
     withinExposureBudget L X rows (partitionByESP L X rows eligible recipient) dl"

definition recipientESP :: "text_lib \<Rightarrow> faults \<Rightarrow> uuid \<Rightarrow> string \<Rightarrow> job_db \<Rightarrow> string" where
  "recipientESP X flt ws toEmail db =
     (let domain = Host_Names.Domain X toEmail in
      if domain = [] then Unknown
      else case flt ''GetRecipientDomainESP'' of
             Some _ \<Rightarrow> Unknown
           | None \<Rightarrow>
               (case GetRecipientDomainESP ws domain db of
                  None \<Rightarrow> Unknown
                | Some stored \<Rightarrow> if \<not> Valid stored then Unknown else stored))"

definition narrowCandidates ::
  "lib \<Rightarrow> text_lib \<Rightarrow> faults \<Rightarrow> uuid \<Rightarrow> string \<Rightarrow> sender_candidate list \<Rightarrow> candidate list
     \<Rightarrow> domain_lanes \<Rightarrow> job_db \<Rightarrow> candidate list" where
  "narrowCandidates L X flt ws toEmail rows eligible dl db =
     (if length eligible < 2 then eligible
      else narrowed L X rows eligible (recipientESP X flt ws toEmail db) dl)"

text \<open>A pool with members, none of which can send now: one pass over the rows.\<close>

definition exhausted_row ::
  "text_lib \<Rightarrow> instant \<Rightarrow> domain_lanes \<Rightarrow> sender_candidate \<Rightarrow> int \<times> int \<times> bool \<Rightarrow> int \<times> int \<times> bool" where
  "exhausted_row X now dl r = (\<lambda>(poolCap, consumed, paused).
     let limit = candidateCap now r in
     (poolCap + limit, consumed + (limit - min (row_available X now dl r) limit),
      paused \<or> (sc_enabled r \<and> mb_status (sc_mailbox r) = mailboxStatusActive
                 \<and> (sc_health_state r = HealthPaused
                    \<or> NewLeadsWithheld (sc_lane r) (For X dl (mb_email (sc_mailbox r)))))))"

definition exhaustedPoolSender ::
  "text_lib \<Rightarrow> instant \<Rightarrow> step_bundle \<Rightarrow> sender_candidate list \<Rightarrow> domain_lanes \<Rightarrow> resolvedSender" where
  "exhaustedPoolSender X now b rows dl =
     (let s = bundleSender now b;
          (poolCap, consumed, paused) = fold (exhausted_row X now dl) rows (0, 0, rs_healthPaused s)
      in s\<lparr>rs_healthPaused := paused, rs_effectiveCap := poolCap, rs_sentToday := consumed\<rparr>)"

subsection \<open>Pinning\<close>

text \<open>The transaction that pins the mailbox and counts the assignment: all or nothing. A lost race reads
  the mailbox the winner stored.\<close>

definition claimEnrollmentSender ::
  "faults \<Rightarrow> instant \<Rightarrow> uuid \<Rightarrow> uuid \<Rightarrow> uuid \<Rightarrow> uuid \<Rightarrow> job_db \<Rightarrow> (core_error + uuid) \<times> job_db" where
  "claimEnrollmentSender flt nowdb ws enrollmentID campaignID mailboxID db =
     (case flt ''Begin'' of
        Some e \<Rightarrow> (Inl (ErrDb e), db)
      | None \<Rightarrow>
          (case flt ''ClaimEnrollmentMailbox'' of
             Some e \<Rightarrow> (Inl (ErrDb e), db)
           | None \<Rightarrow>
               (case ClaimEnrollmentMailbox enrollmentID ws mailboxID db of
                  None \<Rightarrow>
                    (case flt ''GetEnrollmentMailbox'' of
                       Some e \<Rightarrow> (Inl (ErrDb e), db)
                     | None \<Rightarrow>
                         (case GetEnrollmentMailbox enrollmentID ws db of
                            None \<Rightarrow> (Inl ErrNoRows, db)
                          | Some None \<Rightarrow> (Inl (ErrOther ''sender claim lost with no mailbox stored''), db)
                          | Some (Some stored) \<Rightarrow> (Inr stored, db)))
                | Some db1 \<Rightarrow>
                    (case flt ''BumpCampaignSenderAssignment'' of
                       Some e \<Rightarrow> (Inl (ErrDb e), db)
                     | None \<Rightarrow>
                         (case flt ''Commit'' of
                            Some e \<Rightarrow> (Inl (ErrDb e), db)
                          | None \<Rightarrow> (Inr mailboxID,
                              BumpCampaignSenderAssignment nowdb campaignID ws mailboxID db1))))))"

text \<open>The mailbox to pin: the campaign's when it has no pool, else the rotation's choice; \<open>Inr (Inl s)\<close>
  is the sender of an exhausted pool.\<close>

definition chooseSender ::
  "lib \<Rightarrow> text_lib \<Rightarrow> faults \<Rightarrow> instant \<Rightarrow> instant \<Rightarrow> uuid \<Rightarrow> step_bundle \<Rightarrow> job_db
     \<Rightarrow> core_error + (resolvedSender + uuid)" where
  "chooseSender L X flt now nowdb ws b db =
     (case flt ''ListCampaignSenderCandidates'' of
        Some e \<Rightarrow> Inl (ErrDb e)
      | None \<Rightarrow>
          let rows = ListCampaignSenderCandidates nowdb (cm_id (b_campaign b)) ws db in
          if rows = [] then Inr (Inr (mb_id (b_mailbox b)))
          else
            (case domainLanes X flt ws db of
               Inl e \<Rightarrow> Inl e
             | Inr dl \<Rightarrow>
                 let eligible = eligibleCandidates L X now rows dl in
                 if eligible = [] then Inr (Inl (exhaustedPoolSender X now b rows dl))
                 else
                   (case Select_sender (cm_rotation_mode (b_campaign b))
                           (narrowCandidates L X flt ws (ct_email (b_contact b)) rows eligible dl db) of
                      None \<Rightarrow> Inl (ErrOther ''rotation: no eligible sender in the pool'')
                    | Some winner \<Rightarrow>
                        (case uuid_Parse L (ca_mailbox winner) of
                           None \<Rightarrow> Inl ErrParse
                         | Some chosen \<Rightarrow> Inr (Inr chosen)))))"

definition resolveSender ::
  "lib \<Rightarrow> text_lib \<Rightarrow> faults \<Rightarrow> instant \<Rightarrow> instant \<Rightarrow> uuid \<Rightarrow> uuid \<Rightarrow> step_bundle \<Rightarrow> job_db
     \<Rightarrow> (core_error + resolvedSender) \<times> job_db" where
  "resolveSender L X flt now nowdb ws enrollmentID b db =
     (if en_mailbox (b_enrollment b) \<noteq> None
      then (withTodaysCapacity flt nowdb ws (bundleSender now b) db, db)
      else
        case chooseSender L X flt now nowdb ws b db of
          Inl e \<Rightarrow> (Inl e, db)
        | Inr (Inl s) \<Rightarrow> (Inr s, db)
        | Inr (Inr chosen) \<Rightarrow>
            (case claimEnrollmentSender flt nowdb ws enrollmentID (cm_id (b_campaign b)) chosen db of
               (Inl e, db1) \<Rightarrow> (Inl e, db1)
             | (Inr pinned, db1) \<Rightarrow>
                 if pinned = mb_id (b_mailbox b)
                 then (withTodaysCapacity flt nowdb ws (bundleSender now b) db1, db1)
                 else
                   (case flt ''GetMailbox'' of
                      Some e \<Rightarrow> (Inl (ErrDb e), db1)
                    | None \<Rightarrow>
                        (case GetMailbox pinned ws db1 of
                           None \<Rightarrow> (Inl ErrNoRows, db1)
                         | Some m \<Rightarrow> (withTodaysCapacity flt nowdb ws (mailboxSender now m) db1, db1)))))"

end
