(* ===== verification/Step_Job.thy ===== *)
theory Step_Job
  imports Sender_Pool Signed_Tokens Ab_Test
begin

text \<open>
  Building the job of an enrollment's next step: \<open>localStepSendJob\<close> and what it calls
  (\<open>internal/coreapi/inprocess/stepsendjob.go\<close>), with the route of a branched campaign
  (\<open>routeStep\<close> in \<open>branchroute.go\<close>), the credential call (\<open>openMailboxSecret\<close> in \<open>credentials.go\<close>) and the
  suppression check (\<open>localSuppression\<close> in \<open>suppression.go\<close>).

  \<open>now\<close> is the application's clock and \<open>nowdb\<close> the database's; each is read once per call. The opener
  of stored secrets is an interface of the client and a function here; a rotated token it may store
  back is not visible, because nothing else reads that column. JSON decoding is the parameter
  \<open>je_unmarshal\<close>, Postgres' \<open>lower\<close> the parameter \<open>je_sql_lower\<close>. A second run of a statement has its
  own fault name.
\<close>

subsection \<open>The client\<close>

text \<open>A decoded JSON value: text, null, or anything else with the text \<open>fmt.Sprintf\<close> gives it.\<close>

datatype any_value = AnyString string | AnyNil | AnyOther string

record mailbox_secret =
  sec_provider :: string
  sec_smtp_password :: string
  sec_access_token :: string

record job_env =
  je_lib :: lib
  je_text :: text_lib
  je_unmarshal :: "string \<Rightarrow> (string \<times> any_value) list option"
  je_creds :: "(uuid \<Rightarrow> uuid \<Rightarrow> string \<Rightarrow> string \<Rightarrow> core_error + mailbox_secret) option"
  je_sql_lower :: "string \<Rightarrow> string"
  je_jwt_secret :: string
  je_public_url :: string
  je_session_offset :: duration

definition query :: "faults \<Rightarrow> string \<Rightarrow> 'a \<Rightarrow> core_error + 'a" where
  "query flt stmt x = (case flt stmt of Some e \<Rightarrow> Inl (ErrDb e) | None \<Rightarrow> Inr x)"

definition and_then :: "'e + 'a \<Rightarrow> ('a \<Rightarrow> 'e + 'b) \<Rightarrow> 'e + 'b" where
  "and_then r k = (case r of Inl e \<Rightarrow> Inl e | Inr x \<Rightarrow> k x)"

definition StatusRunning :: string where [const_defs]: "StatusRunning = ''running''"

subsection \<open>Parts of a job\<close>

definition window_of :: "window_row \<Rightarrow> send_window" where
  "window_of r = \<lparr>sw_weekday = ww_weekday r, sw_start = ww_start_minute r, sw_end = ww_end_minute r\<rparr>"

definition loadSchedule ::
  "job_env \<Rightarrow> faults \<Rightarrow> string \<Rightarrow> uuid \<Rightarrow> uuid \<Rightarrow> string \<Rightarrow> job_db \<Rightarrow> core_error + schedule" where
  "loadSchedule E flt stmt ws campaignID tz db =
     and_then (query flt stmt (ListSendWindows campaignID ws db)) (\<lambda>rows.
       let sched = ScheduleFrom tz (map window_of rows) in
       (case Compile (LoadLocation (je_lib E)) sched of
          Inl e \<Rightarrow> Inl (ErrSchedule e)
        | Inr _ \<Rightarrow> Inr sched))"

definition replySubject :: "int \<Rightarrow> string \<Rightarrow> string \<Rightarrow> string" where
  "replySubject k stepSubject threadSubject =
     (if k \<le> 1 \<or> stepSubject \<noteq> [] then stepSubject else ''Re: '' @ threadSubject)"

definition any_text :: "any_value \<Rightarrow> string" where
  "any_text v = (case v of AnyString s \<Rightarrow> s | AnyNil \<Rightarrow> [] | AnyOther s \<Rightarrow> s)"

text \<open>The nil map and the empty one answer every lookup alike.\<close>

definition decodeCustom :: "job_env \<Rightarrow> string \<Rightarrow> (string \<times> string) list" where
  "decodeCustom E b =
     (if b = [] then []
      else case je_unmarshal E b of
             None \<Rightarrow> []
           | Some raw \<Rightarrow> map (\<lambda>(k, v). (k, any_text v)) raw)"

definition threading ::
  "faults \<Rightarrow> uuid \<Rightarrow> int \<Rightarrow> uuid \<Rightarrow> uuid \<Rightarrow> string \<Rightarrow> job_db \<Rightarrow> string \<times> string" where
  "threading flt ws k campaignID contactID threadRootID db =
     (if k \<le> 1 then ([], [])
      else
        let root = (if threadRootID \<noteq> [] then (threadRootID, threadRootID) else ([], []))
        in case flt ''LatestSentForContact'' of
             Some _ \<Rightarrow> root
           | None \<Rightarrow>
               (case LatestSentForContact campaignID contactID ws db of
                  None \<Rightarrow> root
                | Some prior \<Rightarrow>
                    if sd_message_id prior \<noteq> []
                    then (sd_message_id prior,
                          TrimSpace (sd_references prior @ '' '' @ sd_message_id prior))
                    else root))"

definition campaignLimitReached ::
  "faults \<Rightarrow> instant \<Rightarrow> uuid \<Rightarrow> uuid \<Rightarrow> int option \<Rightarrow> job_db \<Rightarrow> core_error + bool" where
  "campaignLimitReached flt nowdb ws campaignID limit db =
     (case limit of
        None \<Rightarrow> Inr False
      | Some n \<Rightarrow>
          if n \<le> 0 then Inr False
          else and_then (query flt ''CountCampaignSentToday'' (CountCampaignSentToday nowdb campaignID ws db))
                 (\<lambda>sent. Inr (n \<le> sent)))"

definition newLeadLimitReached ::
  "job_env \<Rightarrow> faults \<Rightarrow> instant \<Rightarrow> uuid \<Rightarrow> uuid \<Rightarrow> int option \<Rightarrow> job_db \<Rightarrow> core_error + bool" where
  "newLeadLimitReached E flt nowdb ws campaignID limit db =
     (case limit of
        None \<Rightarrow> Inr False
      | Some n \<Rightarrow>
          if n \<le> 0 then Inr False
          else and_then (query flt ''CountFirstStepSendsToday''
                           (CountFirstStepSendsToday nowdb (je_session_offset E) campaignID ws db))
                 (\<lambda>started. Inr (n \<le> started)))"

record stepCopy =
  copy_subject :: string
  copy_text :: string
  copy_html :: string

definition selectVariant ::
  "job_env \<Rightarrow> faults \<Rightarrow> uuid \<Rightarrow> string \<Rightarrow> step_row \<Rightarrow> job_db \<Rightarrow> core_error + (stepCopy \<times> string)" where
  "selectVariant E flt ws enrollmentID step db =
     (let base = \<lparr>copy_subject = st_subject step, copy_text = st_body_text step,
                  copy_html = st_body_html step\<rparr>
      in and_then (query flt ''ListStepVariants'' (ListStepVariants (st_id step) ws db)) (\<lambda>rows.
           if rows = [] then Inr (base, [])
           else
             let name = (\<lambda>r. uuid_String (je_lib E) (va_id r));
                 candidates = \<lparr>VarID = [], Weight = st_variant_weight step\<rparr>
                   # map (\<lambda>r. \<lparr>VarID = name r, Weight = va_weight r\<rparr>) rows
             in (case Select (sha256 (je_lib E)) enrollmentID (uuid_String (je_lib E) (st_id step)) candidates of
                   None \<Rightarrow> Inl (ErrOther ''every variant has weight 0, nothing can send'')
                 | Some picked \<Rightarrow>
                     if VarID picked = [] then Inr (base, [])
                     else (case find (\<lambda>r. name r = VarID picked) rows of
                             Some r \<Rightarrow> Inr (\<lparr>copy_subject = va_subject r, copy_text = va_body_text r,
                                            copy_html = va_body_html r\<rparr>, VarID picked)
                           | None \<Rightarrow> Inr (base, [])))))"

definition openMailboxSecret ::
  "job_env \<Rightarrow> uuid \<Rightarrow> uuid \<Rightarrow> string \<Rightarrow> string \<Rightarrow> core_error + (string \<times> string)" where
  "openMailboxSecret E ws mailboxID provider sealed =
     (case je_creds E of
        None \<Rightarrow> Inl (ErrOther ''credentials not configured'')
      | Some OpenMailbox \<Rightarrow>
          and_then (OpenMailbox ws mailboxID provider sealed) (\<lambda>sec.
            if sec_provider sec \<noteq> provider
            then Inl (ErrOther ''credential opener answered for another provider'')
            else Inr (sec_access_token sec, sec_smtp_password sec)))"

definition localIsSuppressed :: "job_env \<Rightarrow> faults \<Rightarrow> string \<Rightarrow> string \<Rightarrow> job_db \<Rightarrow> core_error + bool" where
  "localIsSuppressed E flt workspaceID email db =
     (case uuid_Parse (je_lib E) workspaceID of
        None \<Rightarrow> Inl ErrParse
      | Some ws \<Rightarrow> query flt ''IsSuppressed'' (IsSuppressed (je_sql_lower E) ws email db))"

subsection \<open>Jobs that send nothing\<close>

text \<open>A held job names its enrollment; a limited one carries the schedule its retry wakes in.\<close>

definition held_job :: "job_env \<Rightarrow> uuid \<Rightarrow> string \<Rightarrow> step_job" where
  "held_job E ws enrollmentID =
     zero_job\<lparr>EnrollmentID := enrollmentID, WorkspaceID := uuid_String (je_lib E) ws\<rparr>"

definition campaignPausedJob ::
  "job_env \<Rightarrow> faults \<Rightarrow> uuid \<Rightarrow> string \<Rightarrow> step_bundle \<Rightarrow> job_db \<Rightarrow> core_error + step_job" where
  "campaignPausedJob E flt ws enrollmentID b db =
     and_then (loadSchedule E flt ''ListSendWindows'' ws (cm_id (b_campaign b)) (cm_timezone (b_campaign b)) db)
       (\<lambda>sched. Inr ((held_job E ws enrollmentID)\<lparr>CampaignPaused := True, Schedule := sched\<rparr>))"

subsection \<open>The step to send\<close>

text \<open>The linear path: the next order after the cursor; a gap is skipped.\<close>

definition linearStep :: "faults \<Rightarrow> uuid \<Rightarrow> step_bundle \<Rightarrow> job_db \<Rightarrow> core_error + step_row option" where
  "linearStep flt ws b db =
     query flt ''GetNextStep'' (GetNextStep (cm_id (b_campaign b)) ws (current_step (b_enrollment b)) db)"

definition routeStep ::
  "job_env \<Rightarrow> faults \<Rightarrow> instant \<Rightarrow> uuid \<Rightarrow> string \<Rightarrow> step_bundle \<Rightarrow> branch_row list \<Rightarrow> job_db
     \<Rightarrow> core_error + (routeDecision \<times> step_row option)" where
  "routeStep E flt now ws enrollmentID b brs db =
     and_then (loadSchedule E flt ''ListSendWindows route'' ws (cm_id (b_campaign b)) (cm_timezone (b_campaign b)) db)
       (\<lambda>sched. routeGraph (je_lib E) flt ws enrollmentID (route_part b) brs sched now (jd_steps db)
                  (evidence_tables db))"

text \<open>What the job is about: a job that sends nothing, or a step with its route out when one was taken.\<close>

datatype step_choice =
    NothingDue step_job
  | Due step_row "(bool \<times> int) option"

definition on_core_result :: "('e + 'a) \<times> db \<Rightarrow> job_db \<Rightarrow> ('e + 'a) \<times> job_db" where
  "on_core_result r db = (fst r, on_core (\<lambda>_. snd r) db)"

definition chooseStep ::
  "job_env \<Rightarrow> faults \<Rightarrow> instant \<Rightarrow> instant \<Rightarrow> uuid \<Rightarrow> uuid \<Rightarrow> string \<Rightarrow> step_bundle \<Rightarrow> job_db
     \<Rightarrow> (core_error + step_choice) \<times> job_db" where
  "chooseStep E flt now nowdb ws eid enrollmentID b db =
     (case query flt ''ListBranchesByCampaign'' (ListBranchesByCampaign (cm_id (b_campaign b)) ws db) of
        Inl e \<Rightarrow> (Inl e, db)
      | Inr brs \<Rightarrow>
          if usesGraphRouting brs (route_part b) then
            if cm_status (b_campaign b) \<noteq> StatusRunning
            then (map_sum id NothingDue (campaignPausedJob E flt ws enrollmentID b db), db)
            else
              (case routeStep E flt now ws enrollmentID b brs db of
                 Inl e \<Rightarrow> (Inl e, db)
               | Inr (routeSend target lst delay, Some step) \<Rightarrow> (Inr (Due step (Some (lst, delay))), db)
               | Inr (d, _) \<Rightarrow>
                   (case on_core_result
                           (applyRoute (je_lib E) flt nowdb ws eid enrollmentID (route_part b) d (jd_core db)) db of
                      (r, db1) \<Rightarrow> (map_sum id NothingDue r, db1)))
          else
            (case linearStep flt ws b db of
               Inl e \<Rightarrow> (Inl e, db)
             | Inr None \<Rightarrow> (Inr (NothingDue (zero_job\<lparr>Skip := True\<rparr>)), db)
             | Inr (Some step) \<Rightarrow> (Inr (Due step None), db)))"

subsection \<open>The limits\<close>

text \<open>The gates between a due step and its sender, in order: the campaign runs, its daily limit is open,
  and a first step still fits the allowance of new leads. \<open>Some\<close> is the job of a closed gate.\<close>

definition stepGates ::
  "job_env \<Rightarrow> faults \<Rightarrow> instant \<Rightarrow> uuid \<Rightarrow> string \<Rightarrow> step_bundle \<Rightarrow> step_row \<Rightarrow> job_db
     \<Rightarrow> core_error + step_job option" where
  "stepGates E flt nowdb ws enrollmentID b step db =
     (let cam = b_campaign b;
          held = (\<lambda>mark. and_then (loadSchedule E flt ''ListSendWindows'' ws (cm_id cam) (cm_timezone cam) db)
                   (\<lambda>sched. Inr (Some (mark ((held_job E ws enrollmentID)\<lparr>Schedule := sched\<rparr>)))))
      in if cm_status cam \<noteq> StatusRunning
         then map_sum id Some (campaignPausedJob E flt ws enrollmentID b db)
         else
           and_then (campaignLimitReached flt nowdb ws (cm_id cam) (cm_daily_limit cam) db) (\<lambda>limited.
             if limited then held (\<lambda>j. j\<lparr>CampaignLimited := True\<rparr>)
             else if st_order step = 1 then
               and_then (newLeadLimitReached E flt nowdb ws (cm_id cam) (cm_max_new_leads_per_day cam) db)
                 (\<lambda>newLeadLimited.
                    if newLeadLimited then held (\<lambda>j. j\<lparr>NewLeadLimited := True\<rparr>) else Inr None)
             else Inr None))"

subsection \<open>The job that sends\<close>

text \<open>Whether the step is the last one and the delay of the next: from the route, or the next row.\<close>

definition stepAfter ::
  "faults \<Rightarrow> uuid \<Rightarrow> step_bundle \<Rightarrow> step_row \<Rightarrow> (bool \<times> int) option \<Rightarrow> job_db
     \<Rightarrow> core_error + (bool \<times> int)" where
  "stepAfter flt ws b step route db =
     (case route of
        Some r \<Rightarrow> Inr r
      | None \<Rightarrow>
          and_then (query flt ''GetNextStep after'' (GetNextStep (cm_id (b_campaign b)) ws (st_order step) db))
            (\<lambda>after. Inr (case after of None \<Rightarrow> (True, 0) | Some nxt \<Rightarrow> (False, st_delay_seconds nxt))))"

definition threadSubjectOf ::
  "faults \<Rightarrow> uuid \<Rightarrow> step_bundle \<Rightarrow> step_row \<Rightarrow> job_db \<Rightarrow> core_error + string" where
  "threadSubjectOf flt ws b step db =
     (if 1 < st_order step then
        and_then (query flt ''GetStepByOrder'' (GetStepByOrder (cm_id (b_campaign b)) ws 1 db))
          (\<lambda>s1. Inr (case s1 of None \<Rightarrow> [] | Some r \<Rightarrow> st_subject r))
      else Inr [])"

text \<open>What the job carries of the message and of the route, decided before a sender is resolved.\<close>

record step_content =
  sn_copy :: stepCopy
  sn_variant :: string
  sn_last :: bool
  sn_delay :: int
  sn_thread_subject :: string
  sn_in_reply_to :: string
  sn_references :: string

definition stepContent ::
  "job_env \<Rightarrow> faults \<Rightarrow> uuid \<Rightarrow> string \<Rightarrow> step_bundle \<Rightarrow> step_row \<Rightarrow> (bool \<times> int) option \<Rightarrow> job_db
     \<Rightarrow> core_error + step_content" where
  "stepContent E flt ws enrollmentID b step route db =
     and_then (selectVariant E flt ws enrollmentID step db) (\<lambda>(copyFor, variantID).
     and_then (stepAfter flt ws b step route db) (\<lambda>(lastStep, nextDelay).
     and_then (threadSubjectOf flt ws b step db) (\<lambda>threadSubject.
       let (inReplyTo, refs) = threading flt ws (st_order step) (cm_id (b_campaign b)) (ct_id (b_contact b))
             (thread_root_id (b_enrollment b)) db
       in Inr \<lparr>sn_copy = copyFor, sn_variant = variantID, sn_last = lastStep, sn_delay = nextDelay,
               sn_thread_subject = threadSubject, sn_in_reply_to = inReplyTo, sn_references = refs\<rparr>)))"

text \<open>What is read once the sender is known.\<close>

record step_access =
  sa_token :: string
  sa_password :: string
  sa_suppressed :: bool
  sa_schedule :: schedule

definition stepAccess ::
  "job_env \<Rightarrow> faults \<Rightarrow> uuid \<Rightarrow> step_bundle \<Rightarrow> resolvedSender \<Rightarrow> job_db \<Rightarrow> core_error + step_access" where
  "stepAccess E flt ws b sender db =
     and_then (openMailboxSecret E ws (rs_mailboxID sender) (rs_provider sender) (rs_secretCiphertext sender))
       (\<lambda>(accessToken, password).
     and_then (localIsSuppressed E flt (uuid_String (je_lib E) ws) (ct_email (b_contact b)) db) (\<lambda>suppressed.
     and_then (loadSchedule E flt ''ListSendWindows'' ws (cm_id (b_campaign b)) (cm_timezone (b_campaign b)) db)
       (\<lambda>sched. Inr \<lparr>sa_token = accessToken, sa_password = password, sa_suppressed = suppressed,
                     sa_schedule = sched\<rparr>)))"

definition builtJob ::
  "job_env \<Rightarrow> uuid \<Rightarrow> string \<Rightarrow> step_bundle \<Rightarrow> step_row \<Rightarrow> step_content \<Rightarrow> resolvedSender \<Rightarrow> step_access
     \<Rightarrow> step_job" where
  "builtJob E ws enrollmentID b step sn sender sa =
     (let L = je_lib E; cam = b_campaign b; ct = b_contact b; k = st_order step in
      zero_job\<lparr>EnrollmentID := enrollmentID, WorkspaceID := uuid_String L ws,
        CampaignID := uuid_String L (cm_id cam), ContactID := uuid_String L (ct_id ct),
        MailboxID := uuid_String L (rs_mailboxID sender),
        SendID := uuid_String L (deriveStepSendID L (cm_id cam) (ct_id ct) k),
        CurrentStep := current_step (b_enrollment b), StepOrder := k,
        NextDelaySeconds := sn_delay sn, LastStep := sn_last sn,
        Suppressed := sa_suppressed sa, HealthPaused := rs_healthPaused sender,
        NotDueUntil := or_zero (next_due_at (b_enrollment b)),
        EffectiveDailyCap := rs_effectiveCap sender, SentToday := rs_sentToday sender,
        MinIntervalSeconds := rs_minIntervalSeconds sender,
        ToEmail := ct_email ct,
        Vars := \<lparr>FirstName = ct_first_name ct, LastName = ct_last_name ct, Email = ct_email ct,
                 Company = ct_company ct, Custom = decodeCustom E (ct_custom_fields ct)\<rparr>,
        Subject := replySubject k (copy_subject (sn_copy sn)) (sn_thread_subject sn),
        ThreadSubject := sn_thread_subject sn,
        BodyText := copy_text (sn_copy sn), BodyHTML := copy_html (sn_copy sn),
        VariantID := sn_variant sn, TrackingEnabled := cm_tracking_enabled cam,
        Schedule := sa_schedule sa,
        UnsubURL := je_public_url E @ ''/u/''
          @ MakeToken (sha256 L) (je_jwt_secret E) (uuid_String L ws) (ct_email ct),
        InReplyTo := sn_in_reply_to sn, References := sn_references sn,
        FromEmail := rs_fromEmail sender, FromName := rs_fromName sender,
        Transport := \<lparr>Provider = rs_provider sender, Host = rs_smtpHost sender, Port = rs_smtpPort sender,
                      Username = rs_smtpUsername sender, Password = sa_password sa,
                      AllowPlaintext = rs_allowPlaintext sender, AccessToken = sa_token sa\<rparr>\<rparr>)"

definition sendingJob ::
  "job_env \<Rightarrow> faults \<Rightarrow> instant \<Rightarrow> instant \<Rightarrow> uuid \<Rightarrow> uuid \<Rightarrow> string \<Rightarrow> step_bundle \<Rightarrow> step_row
     \<Rightarrow> (bool \<times> int) option \<Rightarrow> job_db \<Rightarrow> (core_error + step_job) \<times> job_db" where
  "sendingJob E flt now nowdb ws eid enrollmentID b step route db =
     (case stepContent E flt ws enrollmentID b step route db of
        Inl e \<Rightarrow> (Inl e, db)
      | Inr sn \<Rightarrow>
          (case resolveSender (je_lib E) (je_text E) flt now nowdb ws eid b db of
             (Inl e, db1) \<Rightarrow> (Inl e, db1)
           | (Inr sender, db1) \<Rightarrow>
               (and_then (stepAccess E flt ws b sender db1)
                  (\<lambda>sa. Inr (builtJob E ws enrollmentID b step sn sender sa)), db1)))"

subsection \<open>The whole build\<close>

text \<open>A bundle that is still to be sent from: chosen step, gates, sending job.\<close>

definition activeStepJob ::
  "job_env \<Rightarrow> faults \<Rightarrow> instant \<Rightarrow> instant \<Rightarrow> uuid \<Rightarrow> uuid \<Rightarrow> string \<Rightarrow> step_bundle \<Rightarrow> job_db
     \<Rightarrow> (core_error + step_job) \<times> job_db" where
  "activeStepJob E flt now nowdb ws eid enrollmentID b db =
     (case chooseStep E flt now nowdb ws eid enrollmentID b db of
        (Inl e, db1) \<Rightarrow> (Inl e, db1)
      | (Inr (NothingDue job), db1) \<Rightarrow> (Inr job, db1)
      | (Inr (Due step route), db1) \<Rightarrow>
          (case stepGates E flt nowdb ws enrollmentID b step db1 of
             Inl e \<Rightarrow> (Inl e, db1)
           | Inr (Some job) \<Rightarrow> (Inr job, db1)
           | Inr None \<Rightarrow> sendingJob E flt now nowdb ws eid enrollmentID b step route db1))"

definition localStepSendJob ::
  "job_env \<Rightarrow> faults \<Rightarrow> instant \<Rightarrow> instant \<Rightarrow> string \<Rightarrow> string \<Rightarrow> job_db
     \<Rightarrow> (core_error + step_job) \<times> job_db" where
  "localStepSendJob E flt now nowdb enrollmentID workspaceID db =
     (case (uuid_Parse (je_lib E) enrollmentID, uuid_Parse (je_lib E) workspaceID) of
        (Some eid, Some ws) \<Rightarrow>
          (case query flt ''GetStepEnrollmentBundle'' (GetStepEnrollmentBundle eid ws db) of
             Inl e \<Rightarrow> (Inl e, db)
           | Inr None \<Rightarrow> (Inl ErrNoRows, db)
           | Inr (Some b) \<Rightarrow>
               if en_ws (b_enrollment b) \<noteq> ws then (Inl ErrCrossTenant, db)
               else if en_status (b_enrollment b) \<noteq> StatusActive
               then (Inr (zero_job\<lparr>Skip := True\<rparr>), db)
               else if threadLostItsMailbox (current_step (b_enrollment b)) (en_mailbox (b_enrollment b))
               then (Inr ((held_job E ws enrollmentID)\<lparr>MailboxRemoved := True\<rparr>), db)
               else activeStepJob E flt now nowdb ws eid enrollmentID b db)
      | _ \<Rightarrow> (Inl ErrParse, db))"

end
