(* ===== verification/Pool_Facts.thy ===== *)
theory Pool_Facts
  imports Sender_Pool Send_Safety
begin

text \<open>
  What the choice of a sending mailbox keeps: a new contact never starts on a mailbox that is out of
  the pool, capped or contained, nor on the sibling of a contained one; the mailbox pinned to an
  enrollment is pinned for good; an exhausted pool yields a sender that may not send.
\<close>

subsection \<open>The worst lane of a domain\<close>

lemma worst_lane_grows:
  "worst_lane X p out d = None \<Longrightarrow> out d = None"
  "out d = Some l \<Longrightarrow> \<exists>l'. worst_lane X p out d = Some l' \<and> laneSeverity l \<le> laneSeverity l'"
  by (auto simp: worst_lane_def Let_def split: option.splits if_splits)

lemma worst_lane_covers:
  "SharedReputationDomain X (fst p) \<noteq> [] \<Longrightarrow>
     \<exists>l. worst_lane X p out (SharedReputationDomain X (fst p)) = Some l \<and> laneSeverity (snd p) \<le> laneSeverity l"
  by (auto simp: worst_lane_def Let_def split: option.splits)

lemma worst_lane_fold:
  "out d = Some l \<Longrightarrow> \<exists>l'. fold (worst_lane X) ps out d = Some l' \<and> laneSeverity l \<le> laneSeverity l'"
proof (induction ps arbitrary: out l)
  case (Cons p ps)
  from worst_lane_grows(2) [of out d l X p, OF Cons.prems] obtain l1 where
    "worst_lane X p out d = Some l1" "laneSeverity l \<le> laneSeverity l1" by blast
  with Cons.IH [of "worst_lane X p out" l1] show ?case by (auto intro: order_trans)
qed simp

lemma WorstLanes_cover:
  assumes "(email, lane) \<in> set ps" and "SharedReputationDomain X email \<noteq> []"
  shows "\<exists>l. WorstLanesByDomain X ps (SharedReputationDomain X email) = Some l
             \<and> laneSeverity lane \<le> laneSeverity l"
proof -
  from assms(1) obtain us vs where ps: "ps = us @ (email, lane) # vs" by (auto simp: in_set_conv_decomp)
  let ?out = "fold (worst_lane X) us (\<lambda>_. None)"
  from worst_lane_covers [of X "(email, lane)" ?out] assms(2) obtain l where
    l: "worst_lane X (email, lane) ?out (SharedReputationDomain X email) = Some l"
      "laneSeverity lane \<le> laneSeverity l" by auto
  from worst_lane_fold [where out = "worst_lane X (email, lane) ?out" and ps = vs and X = X, OF l(1)] l(2) show ?thesis
    unfolding WorstLanesByDomain_def ps by (auto intro: order_trans)
qed

definition contained :: "string \<Rightarrow> bool" where
  "contained lane \<longleftrightarrow> lane = LaneQuarantine \<or> lane = LaneBlocked"

lemma severity_contained: "contained lane \<Longrightarrow> laneSeverity lane \<le> laneSeverity l \<Longrightarrow> contained l"
  by (auto simp: contained_def laneSeverity_def const_defs split: if_splits)

lemma contained_withholds: "contained lane \<Longrightarrow> laneWithholdsNewLeads lane"
  by (auto simp: contained_def laneWithholdsNewLeads_def LaneMayTakeNewLead_def normalizeLane_def
      lanes_def const_defs)

text \<open>A withheld domain withholds each of its mailboxes.\<close>

lemma sibling_withheld:
  assumes "(email, lane) \<in> set ps" and "contained lane"
    and "SharedReputationDomain X email = SharedReputationDomain X own"
    and "SharedReputationDomain X own \<noteq> []"
  shows "NewLeadsWithheld ownLane (For X (WorstLanesByDomain X ps) own)"
proof -
  from WorstLanes_cover [OF assms(1), of X] assms(3,4) obtain l where
    l: "WorstLanesByDomain X ps (SharedReputationDomain X own) = Some l" "laneSeverity lane \<le> laneSeverity l"
    by auto
  from severity_contained [OF assms(2) l(2)] have "laneWithholdsNewLeads l" by (rule contained_withholds)
  with l(1) assms(4) show ?thesis by (simp add: For_def ForDomain_def Let_def NewLeadsWithheld_def)
qed

subsection \<open>The candidates\<close>

lemma availableToday_pos:
  "0 < availableToday now r dl \<Longrightarrow>
     sc_enabled r \<and> mb_status (sc_mailbox r) = mailboxStatusActive \<and> \<not> NewLeadsWithheld (sc_lane r) dl
     \<and> sc_sent_today r < Cold (candidateCap now r) (sc_health_state r)"
  by (auto simp: availableToday_def split: if_splits)

lemma availableToday_nonneg: "0 \<le> availableToday now r dl"
  by (simp add: availableToday_def)

lemma budget_subset: "set (WithinExposureBudgetFor cs f g) \<subseteq> set cs"
  by (auto simp: WithinExposureBudgetFor_def Let_def split: option.splits)

lemma budget_nonempty: "cs \<noteq> [] \<Longrightarrow> WithinExposureBudgetFor cs f g \<noteq> []"
  by (auto simp: WithinExposureBudgetFor_def Let_def split: option.splits)

lemma partition_subset: "set (partitionByESP L X rows cs want) \<subseteq> set cs"
  by (auto simp: partitionByESP_def Let_def)

lemma partition_nonempty: "cs \<noteq> [] \<Longrightarrow> partitionByESP L X rows cs want \<noteq> []"
  by (simp add: partitionByESP_def Let_def)

text \<open>Narrowing keeps a non-empty part of the eligible mailboxes.\<close>

lemma narrow_subset: "set (narrowCandidates L X flt ws to_email rows cs dl db) \<subseteq> set cs"
  unfolding narrowCandidates_def narrowed_def withinExposureBudget_def
  using subset_trans [OF budget_subset partition_subset] by simp

lemma narrow_nonempty: "cs \<noteq> [] \<Longrightarrow> narrowCandidates L X flt ws to_email rows cs dl db \<noteq> []"
  by (simp add: narrowCandidates_def narrowed_def withinExposureBudget_def budget_nonempty partition_nonempty)

lemma Select_sender_mem: "Select_sender mode cs = Some c \<Longrightarrow> c \<in> set cs"
  using ranking.MinFunc_least [of cs mode] by (auto simp: Select_sender_def split: if_splits)

text \<open>The uuid package reads back the text it writes.\<close>

definition text_roundtrips :: "lib \<Rightarrow> bool" where
  "text_roundtrips L \<longleftrightarrow> (\<forall>i. uuid_Parse L (uuid_String L i) = Some i)"

lemma chooseSender_cases:
  assumes "chooseSender L X flt now nowdb ws b db = Inr v"
  obtains (no_pool) "ListCampaignSenderCandidates nowdb (cm_id (b_campaign b)) ws db = []"
      "v = Inr (mb_id (b_mailbox b))"
  | (exhausted) rows dl where
      "rows = ListCampaignSenderCandidates nowdb (cm_id (b_campaign b)) ws db"
      "dl = WorstLanesByDomain X (ListWorkspaceWarmupLanes ws db)"
      "\<forall>r \<in> set rows. row_available X now dl r \<le> 0" "v = Inl (exhaustedPoolSender X now b rows dl)"
  | (chosen) rows dl r m where
      "rows = ListCampaignSenderCandidates nowdb (cm_id (b_campaign b)) ws db"
      "dl = WorstLanesByDomain X (ListWorkspaceWarmupLanes ws db)"
      "r \<in> set rows" "0 < row_available X now dl r"
      "uuid_Parse L (uuid_String L (mb_id (sc_mailbox r))) = Some m" "v = Inr m"
proof -
  let ?rows = "ListCampaignSenderCandidates nowdb (cm_id (b_campaign b)) ws db"
  let ?dl = "WorstLanesByDomain X (ListWorkspaceWarmupLanes ws db)"
  let ?el = "eligibleCandidates L X now ?rows ?dl"
  have flt: "flt ''ListCampaignSenderCandidates'' = None"
    using assms by (auto simp: chooseSender_def split: option.splits)
  show thesis
  proof (cases "?rows = []")
    case True
    with assms flt no_pool show ?thesis by (simp add: chooseSender_def)
  next
    case False
    then have lanes_ok: "domainLanes X flt ws db = Inr ?dl"
      using assms flt by (auto simp: chooseSender_def domainLanes_def Let_def split: option.splits)
    show ?thesis
    proof (cases "?el = []")
      case True
      then have "\<forall>r \<in> set ?rows. row_available X now ?dl r \<le> 0"
        by (auto simp: eligibleCandidates_def filter_empty_conv not_less)
      with assms flt False lanes_ok True exhausted [OF refl refl] show ?thesis
        by (simp add: chooseSender_def Let_def)
    next
      case el: False
      let ?nc = "narrowCandidates L X flt ws (ct_email (b_contact b)) ?rows ?el ?dl db"
      from narrow_nonempty [OF el] obtain c where
        c: "Select_sender (cm_rotation_mode (b_campaign b)) ?nc = Some c"
        by (cases "Select_sender (cm_rotation_mode (b_campaign b)) ?nc")
          (auto simp: Select_sender_def split: if_splits)
      then have "c \<in> set ?el" using Select_sender_mem narrow_subset by blast
      then obtain r where r: "r \<in> set ?rows" "0 < row_available X now ?dl r"
        "c = row_candidate L X now ?dl r"
        by (auto simp: eligibleCandidates_def)
      from assms flt False lanes_ok el c obtain m where
        "uuid_Parse L (ca_mailbox c) = Some m" "v = Inr m"
        by (auto simp: chooseSender_def Let_def split: option.splits)
      with r chosen [OF refl refl] show ?thesis by (simp add: row_candidate_def)
    qed
  qed
qed

text \<open>Without a pool nothing is checked: the campaign's own mailbox is taken, also when it is quarantined,
  paused or out of capacity for the day.\<close>

lemma fallback_is_unchecked:
  "flt ''ListCampaignSenderCandidates'' = None \<Longrightarrow>
     ListCampaignSenderCandidates nowdb (cm_id (b_campaign b)) ws db = [] \<Longrightarrow>
     chooseSender L X flt now nowdb ws b db = Inr (Inr (mb_id (b_mailbox b)))"
  by (simp add: chooseSender_def)

text \<open>C23: Who a new contact may start with. In a campaign with a pool the mailbox chosen is an enabled, active
  member of it that is in no lane withholding new contacts and has sent less than its cold cap today; and
  no warming mailbox of the workspace that shares its sending domain's reputation is quarantined or
  blocked, however many of its siblings are well. In a campaign without a pool it is the campaign's own
  mailbox, on which none of this is checked.\<close>

theorem chosen_sender_is_eligible:
  assumes "text_roundtrips L"
    and "chooseSender L X flt now nowdb ws b db = Inr (Inr m)"
  shows "if ListCampaignSenderCandidates nowdb (cm_id (b_campaign b)) ws db = [] then m = mb_id (b_mailbox b)
     else (\<exists>r \<in> set (ListCampaignSenderCandidates nowdb (cm_id (b_campaign b)) ws db).
       mb_id (sc_mailbox r) = m \<and> sc_enabled r \<and> mb_status (sc_mailbox r) = mailboxStatusActive
       \<and> \<not> laneWithholdsNewLeads (sc_lane r)
       \<and> sc_sent_today r < Cold (candidateCap now r) (sc_health_state r)
       \<and> (\<forall>(email, lane) \<in> set (ListWorkspaceWarmupLanes ws db).
            SharedReputationDomain X email = SharedReputationDomain X (mb_email (sc_mailbox r))
            \<and> SharedReputationDomain X email \<noteq> [] \<longrightarrow> \<not> contained lane))"
  using assms(2)
proof (cases rule: chooseSender_cases)
  case no_pool
  then show ?thesis by simp
next
  case exhausted
  then show ?thesis by simp
next
  case (chosen rows dl r m')
  then have m: "mb_id (sc_mailbox r) = m" using assms(1) by (simp add: text_roundtrips_def)
  have av: "0 < availableToday now r (For X dl (mb_email (sc_mailbox r)))"
    using chosen(4) by (simp add: row_available_def)
  note ok = availableToday_pos [OF av]
  have "\<not> contained lane" if "(email, lane) \<in> set (ListWorkspaceWarmupLanes ws db)"
    "SharedReputationDomain X email = SharedReputationDomain X (mb_email (sc_mailbox r))"
    "SharedReputationDomain X email \<noteq> []" for email lane
    using sibling_withheld [OF that(1) _ that(2)] that(2,3) ok unfolding chosen(2) by auto
  moreover have "\<not> laneWithholdsNewLeads (sc_lane r)" using ok by (auto simp: NewLeadsWithheld_def)
  moreover have "ListCampaignSenderCandidates nowdb (cm_id (b_campaign b)) ws db \<noteq> []"
    using chosen(1,3) by auto
  ultimately show ?thesis using ok m chosen(1,3) by auto
qed

subsection \<open>An exhausted pool\<close>

lemma exhausted_fold:
  assumes "\<forall>r \<in> set rows. row_available X now dl r \<le> 0" and "cap \<le> used"
  shows "fst (fold (exhausted_row X now dl) rows (cap, used, p))
           \<le> fst (snd (fold (exhausted_row X now dl) rows (cap, used, p)))"
  using assms
proof (induction rows arbitrary: cap used p)
  case (Cons r rows)
  have "row_available X now dl r = 0"
    using Cons.prems(1) availableToday_nonneg [of now r] by (simp add: row_available_def antisym)
  with Cons show ?case by (simp add: exhausted_row_def Let_def)
qed simp

lemma exhausted_full:
  assumes "\<forall>r \<in> set rows. row_available X now dl r \<le> 0"
  shows "rs_effectiveCap (exhaustedPoolSender X now b rows dl)
           \<le> rs_sentToday (exhaustedPoolSender X now b rows dl)"
  using exhausted_fold [OF assms, of 0 0 "rs_healthPaused (bundleSender now b)"]
  by (auto simp: exhaustedPoolSender_def Let_def split: prod.splits)

subsection \<open>Pinning\<close>

definition pinned_db :: "instant \<Rightarrow> uuid \<Rightarrow> uuid \<Rightarrow> uuid \<Rightarrow> uuid \<Rightarrow> job_db \<Rightarrow> job_db" where
  "pinned_db nowdb eid ws campaignID m db =
     BumpCampaignSenderAssignment nowdb campaignID ws m
       (on_core (\<lambda>d. d\<lparr>db_enrollments :=
          update_where (unpinned ws eid) (\<lambda>e. e\<lparr>en_mailbox := Some m\<rparr>) (db_enrollments d)\<rparr>) db)"

lemma pinned_db_mailbox:
  "GetEnrollmentMailbox i w (pinned_db nowdb eid ws campaignID m db) =
     map_option (\<lambda>e. if unpinned ws eid e then Some m else en_mailbox e)
       (select_one (is_row w i) (db_enrollments (jd_core db)))"
proof -
  have "select_one (is_row w i) (update_where (unpinned ws eid) (\<lambda>e. e\<lparr>en_mailbox := Some m\<rparr>) rows)
      = map_option (\<lambda>e. if unpinned ws eid e then e\<lparr>en_mailbox := Some m\<rparr> else e) (select_one (is_row w i) rows)"
    for rows by (rule select_update) (simp add: is_row_def)
  then show ?thesis
    by (simp add: GetEnrollmentMailbox_def pinned_db_def BumpCampaignSenderAssignment_def on_core_def
        option.map_comp comp_def if_distrib cong: if_cong)
qed

lemma pinned_db_keeps:
  "GetEnrollmentMailbox i w db = Some (Some p) \<Longrightarrow>
     GetEnrollmentMailbox i w (pinned_db nowdb eid ws campaignID m db) = Some (Some p)"
  unfolding pinned_db_mailbox by (auto simp: GetEnrollmentMailbox_def unpinned_def)

lemma unpinned_row:
  assumes "unique_key en_id (db_enrollments (jd_core db))"
    and "select_one (unpinned ws eid) (db_enrollments (jd_core db)) \<noteq> None"
  shows "GetEnrollmentMailbox eid ws db = Some None"
    and "GetEnrollmentMailbox eid ws (pinned_db nowdb eid ws campaignID m db) = Some (Some m)"
proof -
  from assms(2) obtain e where e: "e \<in> set (db_enrollments (jd_core db))" "unpinned ws eid e"
    by (auto dest: select_one_SomeD)
  then have "select_one (is_row ws eid) (db_enrollments (jd_core db)) \<noteq> None"
    by (auto simp: select_one_None_iff unpinned_def)
  then obtain e' where e': "select_one (is_row ws eid) (db_enrollments (jd_core db)) = Some e'" by auto
  with e assms(1) have "e' = e"
    by (auto simp: unpinned_def is_row_def dest!: select_one_SomeD intro: unique_keyD)
  with e e' show "GetEnrollmentMailbox eid ws db = Some None"
    and "GetEnrollmentMailbox eid ws (pinned_db nowdb eid ws campaignID m db) = Some (Some m)"
    unfolding pinned_db_mailbox by (simp_all add: GetEnrollmentMailbox_def unpinned_def)
qed

lemma claimEnrollmentSender_cases:
  assumes "claimEnrollmentSender flt nowdb ws eid campaignID m db = (r, db')"
  obtains e where "r = Inl e" "db' = db"
  | stored where "r = Inr stored" "db' = db" "GetEnrollmentMailbox eid ws db = Some (Some stored)"
  | "r = Inr m" "db' = pinned_db nowdb eid ws campaignID m db"
      "select_one (unpinned ws eid) (db_enrollments (jd_core db)) \<noteq> None"
  using assms
  by (auto simp: claimEnrollmentSender_def ClaimEnrollmentMailbox_def pinned_db_def
      split: option.splits if_splits)

lemma withTodaysCapacity_keeps:
  "withTodaysCapacity flt nowdb ws s db = Inr s' \<Longrightarrow>
     rs_mailboxID s' = rs_mailboxID s \<and> rs_fromEmail s' = rs_fromEmail s"
  by (auto simp: withTodaysCapacity_def Let_def split: option.splits if_splits)

lemma mailboxSender_id [simp]:
  "rs_mailboxID (mailboxSender now m) = mb_id m" "rs_mailboxID (bundleSender now b) = mb_id (b_mailbox b)"
  "rs_fromEmail (mailboxSender now m) = mb_email m" "rs_fromEmail (bundleSender now b) = mb_email (b_mailbox b)"
  by (simp_all add: mailboxSender_def bundleSender_def)

lemma GetMailbox_id: "GetMailbox i ws db = Some m \<Longrightarrow> mb_id m = i"
  by (auto simp: GetMailbox_def dest: select_one_SomeD)

lemma resolveSender_pinned:
  "en_mailbox (b_enrollment b) \<noteq> None \<Longrightarrow>
     resolveSender L X flt now nowdb ws eid b db
       = (withTodaysCapacity flt nowdb ws (bundleSender now b) db, db)"
  by (simp add: resolveSender_def)

lemma resolveSender_cases:
  assumes "resolveSender L X flt now nowdb ws eid b db = (r, db')" and "en_mailbox (b_enrollment b) = None"
  obtains (failed) e where "r = Inl e" "db' = db"
  | (exhausted) s where "r = Inr s" "db' = db" "rs_effectiveCap s \<le> rs_sentToday s"
  | (claimed) chosen pinned where
      "chooseSender L X flt now nowdb ws b db = Inr (Inr chosen)"
      "claimEnrollmentSender flt nowdb ws eid (cm_id (b_campaign b)) chosen db = (Inr pinned, db')"
      "\<And>s. r = Inr s \<Longrightarrow> rs_mailboxID s = pinned"
proof (cases "chooseSender L X flt now nowdb ws b db")
  case (Inl e)
  with assms have "r = Inl e" "db' = db" by (auto simp: resolveSender_def)
  with failed show ?thesis by blast
next
  case (Inr v)
  show ?thesis
  proof (cases v)
    case (Inl s)
    from Inr have "rs_effectiveCap s \<le> rs_sentToday s"
      by (cases rule: chooseSender_cases) (auto simp: Inl intro: exhausted_full)
    moreover have "r = Inr s" "db' = db" using assms Inr Inl by (auto simp: resolveSender_def)
    ultimately show ?thesis using exhausted by blast
  next
    case (Inr chosen)
    note v = \<open>chooseSender L X flt now nowdb ws b db = Inr v\<close> Inr
    obtain q db1 where claim:
      "claimEnrollmentSender flt nowdb ws eid (cm_id (b_campaign b)) chosen db = (q, db1)" by fastforce
    show ?thesis
    proof (cases q)
      case (Inl e)
      with claim have "db1 = db" by (auto elim: claimEnrollmentSender_cases)
      with assms v claim Inl have "r = Inl e" "db' = db" by (auto simp: resolveSender_def)
      with failed show ?thesis by blast
    next
      case (Inr pinned)
      with assms v claim have "db' = db1" by (auto simp: resolveSender_def split: if_splits option.splits)
      moreover have "rs_mailboxID s = pinned" if "r = Inr s" for s
        using assms v claim Inr that
        by (auto simp: resolveSender_def dest!: withTodaysCapacity_keeps GetMailbox_id
            split: if_splits option.splits)
      ultimately show ?thesis using claimed [of chosen pinned] v claim Inr by simp
    qed
  qed
qed

text \<open>C24: A thread keeps its mailbox. Whatever fails and whatever other workers did since the bundle was
  read, resolving a sender never changes a mailbox that is already pinned, to this enrollment or
  another. It writes only by pinning an enrollment that had none and counting that assignment, both
  or neither; and the sender it returns is the mailbox now stored with the enrollment, unless the
  pool is exhausted, when the sender has no capacity left.\<close>

theorem pin_is_permanent:
  assumes "unique_key en_id (db_enrollments (jd_core db))"
    and "resolveSender L X flt now nowdb ws eid b db = (r, db')"
  shows "(GetEnrollmentMailbox i w db = Some (Some p) \<longrightarrow> GetEnrollmentMailbox i w db' = Some (Some p))
     \<and> (db' = db \<or> GetEnrollmentMailbox eid ws db = Some None
          \<and> (\<exists>m. db' = pinned_db nowdb eid ws (cm_id (b_campaign b)) m db))
     \<and> (\<forall>s. r = Inr s \<longrightarrow>
          (if en_mailbox (b_enrollment b) \<noteq> None then db' = db \<and> rs_mailboxID s = mb_id (b_mailbox b)
           else rs_effectiveCap s \<le> rs_sentToday s
                \<or> GetEnrollmentMailbox eid ws db' = Some (Some (rs_mailboxID s))))"
proof (cases "en_mailbox (b_enrollment b) = None")
  case False
  with assms(2) have "db' = db" "withTodaysCapacity flt nowdb ws (bundleSender now b) db = r"
    by (auto simp: resolveSender_pinned)
  then show ?thesis using False by (auto dest!: withTodaysCapacity_keeps)
next
  case True
  from assms(2) True show ?thesis
  proof (cases rule: resolveSender_cases)
    case (claimed chosen pinned)
    from claimed(2) show ?thesis
    proof (cases rule: claimEnrollmentSender_cases)
      case (2 stored)
      with claimed(3) True show ?thesis by auto
    next
      case 3
      with claimed(3) True unpinned_row [OF assms(1) 3(3)] pinned_db_keeps show ?thesis by auto
    qed simp
  qed (use True in auto)
qed

text \<open>\<open>addressHost\<close> keeps all that follows the first at sign; SQL's \<open>split_part\<close> and \<open>Domain\<close> stop at the
  second one.\<close>

lemma addressHost_second_at:
  "addressHost X ''a@b@c.example'' = ''b@c.example'' \<and> Host_Names.Domain X ''a@b@c.example'' = ''b''"
  by code_simp

subsection \<open>Witnesses\<close>

definition plain_lib :: lib where
  "plain_lib = sample_lib\<lparr>uuid_String := \<lambda>i. replicate (unat i) CHR ''x'',
     uuid_Parse := \<lambda>s. Some (of_nat (length s))\<rparr>"

lemma plain_roundtrips: "text_roundtrips plain_lib"
  by (simp add: text_roundtrips_def plain_lib_def)

definition plain_text :: text_lib where
  "plain_text = \<lparr>unicode_lower = id, effective_tld = Some\<rparr>"

definition pool_mailbox :: mailbox where
  "pool_mailbox = \<lparr>mb_id = 4, mb_ws = 1, mb_min_interval_seconds = 0, mb_last_send_at = None,
     mb_provider = ''smtp'', mb_email = ''ada@acme.io'', mb_display_name = ''Ada'',
     mb_smtp_host = ''mx'', mb_smtp_port = 587, mb_smtp_username = ''ada'', mb_secret_ciphertext = ''sealed'',
     mb_allow_plaintext = False, mb_daily_cap = 50, mb_ramp_enabled = False, mb_ramp_start_cap = 0,
     mb_ramp_days = 0, mb_status = ''active'', mb_created_at = None\<rparr>"

definition pool_enrollment :: enrollment where
  "pool_enrollment = \<lparr>en_id = 6, en_ws = 1, en_campaign = 2, en_contact = 3, current_step = 0,
     en_status = StatusActive, stop_reason = None, last_sent_at = None, next_due_at = None,
     thread_root_id = [], completed_at = None, stopped_at = None, cap_deferrals = 0,
     en_mailbox = None, awaiting_condition_step = None,
     reply_class = None, reply_source = None, replied_at = None\<rparr>"

definition pool_campaign :: campaign where
  "pool_campaign = \<lparr>cm_id = 2, cm_ws = 1, cm_name = ''Spring'', cm_mailbox = 4, cm_list = 7,
     cm_status = ''running'', cm_timezone = ''UTC'',
     cm_rotation_mode = ModeRoundRobin, cm_tracking_enabled = True, cm_daily_limit = None,
     cm_max_new_leads_per_day = Some 10, cm_launched_at = Some 0, cm_auto_pause_enabled = True,
     cm_bounce_pause_pct = f_int 8, cm_complaint_pause_pct = f_lit 3 2, cm_guardrails_enabled_at = 0\<rparr>"

definition pool_contact :: contact where
  "pool_contact = \<lparr>ct_id = 3, ct_ws = 1, ct_email = ''bob@acme.org'', ct_first_name = ''Bob'',
     ct_last_name = [], ct_company = [], ct_custom_fields = []\<rparr>"

definition pool_step :: step_row where
  "pool_step = \<lparr>st_id = 9, st_ws = 1, st_campaign = 2, st_order = 1, st_delay_seconds = 0,
     st_subject = ''Hello'', st_body_text = ''Hi {{first_name}}'', st_body_html = [],
     st_variant_weight = 1\<rparr>"

definition pool_db :: job_db where
  "pool_db = \<lparr>jd_core = \<lparr>db_enrollments = [pool_enrollment], db_sends = [], db_mailboxes = [pool_mailbox]\<rparr>,
     jd_campaigns = [pool_campaign], jd_contacts = [pool_contact], jd_steps = [pool_step],
     jd_branches = [], jd_variants = [], jd_windows = [],
     jd_senders = [\<lparr>cs_campaign = 2, cs_ws = 1, cs_mailbox = 4, cs_weight = 1, cs_enabled = True,
                    cs_assigned_count = 0, cs_last_assigned_at = None\<rparr>],
     jd_participants = [], jd_recipient_domains = [], jd_suppression = [], jd_events = [],
     jd_threads = [], jd_messages = [], jd_labels = []\<rparr>"

definition pool_bundle :: step_bundle where
  "pool_bundle = \<lparr>b_enrollment = pool_enrollment, b_campaign = pool_campaign, b_contact = pool_contact,
     b_mailbox = pool_mailbox\<rparr>"

lemma pool_row: "ListCampaignSenderCandidates 0 2 1 pool_db
    = [\<lparr>sc_mailbox = pool_mailbox, sc_weight = 1, sc_enabled = True, sc_assigned_count = 0,
        sc_last_assigned_at = None, sc_health_state = [], sc_lane = [], sc_sent_today = 0\<rparr>]"
  by (simp add: ListCampaignSenderCandidates_def pool_db_def candidate_row_def participant_of_def
      count_where_def pool_mailbox_def)

lemma pool_available:
  "row_available plain_text 0 (WorstLanesByDomain plain_text [])
     \<lparr>sc_mailbox = pool_mailbox, sc_weight = 1, sc_enabled = True, sc_assigned_count = 0,
      sc_last_assigned_at = None, sc_health_state = [], sc_lane = [], sc_sent_today = 0\<rparr> = 50"
  by code_simp

lemma pool_lanes: "ListWorkspaceWarmupLanes 1 pool_db = []"
  by (simp add: ListWorkspaceWarmupLanes_def pool_db_def)

lemma pool_choice:
  "chooseSender plain_lib plain_text no_faults 0 0 1 pool_bundle pool_db = Inr (Inr 4)"
proof -
  have ids: "cm_id (b_campaign pool_bundle) = 2" "uuid_Parse plain_lib (uuid_String plain_lib i) = Some i"
    "mb_id pool_mailbox = 4" for i
    using plain_roundtrips
    by (simp_all add: pool_bundle_def pool_campaign_def text_roundtrips_def pool_mailbox_def)
  show ?thesis
    by (simp add: chooseSender_def ids pool_row pool_lanes domainLanes_def eligibleCandidates_def pool_available
        narrowCandidates_def Select_sender_def MinFunc_def row_candidate_def)
qed

lemma chosen_sender_is_eligible_witness:
  "\<exists>r. mb_id (sc_mailbox r) = 4 \<and> sc_enabled r
     \<and> sc_sent_today r < Cold (candidateCap 0 r) (sc_health_state r)"
proof -
  have "ListCampaignSenderCandidates 0 (cm_id (b_campaign pool_bundle)) 1 pool_db \<noteq> []"
    by (simp add: pool_bundle_def pool_campaign_def pool_row)
  with chosen_sender_is_eligible [OF plain_roundtrips pool_choice] show ?thesis by auto
qed

definition pool_sender :: resolvedSender where
  "pool_sender = bundleSender 0 pool_bundle\<lparr>rs_effectiveCap := 50, rs_sentToday := 0\<rparr>"

lemma pool_sender_fields:
  "rs_effectiveCap pool_sender = 50" "rs_sentToday pool_sender = 0" "rs_mailboxID pool_sender = 4"
  by (simp_all add: pool_sender_def bundleSender_def mailboxSender_def pool_bundle_def pool_mailbox_def)

lemma pool_resolve:
  "resolveSender plain_lib plain_text no_faults 0 0 1 6 pool_bundle pool_db
     = (Inr pool_sender, pinned_db 0 6 1 2 4 pool_db)"
proof -
  have claim: "claimEnrollmentSender no_faults 0 1 6 2 4 pool_db = (Inr 4, pinned_db 0 6 1 2 4 pool_db)"
    by (simp add: claimEnrollmentSender_def ClaimEnrollmentMailbox_def pinned_db_def pool_db_def
        unpinned_def is_row_def pool_enrollment_def)
  have b: "en_mailbox (b_enrollment pool_bundle) = None" "cm_id (b_campaign pool_bundle) = 2"
    "mb_id (b_mailbox pool_bundle) = 4"
    by (simp_all add: pool_bundle_def pool_enrollment_def pool_campaign_def pool_mailbox_def)
  have "withTodaysCapacity no_faults 0 1 (bundleSender 0 pool_bundle) (pinned_db 0 6 1 2 4 pool_db)
      = Inr pool_sender"
    by code_simp
  then show ?thesis by (simp add: resolveSender_def b pool_choice claim)
qed

lemma pool_key: "unique_key en_id (db_enrollments (jd_core pool_db))"
  by (simp add: unique_key_def pool_db_def)

lemma pin_is_permanent_witness:
  "GetEnrollmentMailbox 6 1 (pinned_db 0 6 1 2 4 pool_db) = Some (Some 4)"
proof -
  have "en_mailbox (b_enrollment pool_bundle) = None" by (simp add: pool_bundle_def pool_enrollment_def)
  with pin_is_permanent [OF pool_key pool_resolve, of 0 0 0] show ?thesis
    by (simp add: pool_sender_fields)
qed

end
