(* ===== verification/Job_Facts.thy ===== *)
theory Job_Facts
  imports Step_Job Pool_Facts Wake_Times
begin

text \<open>
  What a built job guarantees the worker that runs it: it satisfies the contract the delivery claim
  rests on; it exists only when every gate of the campaign is open and otherwise no mailbox was pinned;
  a follow-up leaves from the mailbox of its thread; its unsubscribe link names the contact.
\<close>

subsection \<open>The cases of a build\<close>

text \<open>A job the handler does not send.\<close>

definition inert :: "step_job \<Rightarrow> bool" where
  "inert j \<longleftrightarrow> Skip j \<or> MailboxRemoved j \<or> CampaignPaused j \<or> CampaignLimited j \<or> NewLeadLimited j
     \<or> ConditionPending j"

text \<open>The state of an enrollment may have changed, and nothing else.\<close>

definition unpinned_still :: "job_db \<Rightarrow> job_db \<Rightarrow> bool" where
  "unpinned_still db db' \<longleftrightarrow>
     (\<exists>es. db' = on_core (\<lambda>d. d\<lparr>db_enrollments := es\<rparr>) db
         \<and> map en_mailbox es = map en_mailbox (db_enrollments (jd_core db)))"

lemma on_core_self [simp]: "on_core (\<lambda>_. jd_core db) db = db"
  by (simp add: on_core_def)

lemma unpinned_still_refl [simp]: "unpinned_still db db"
  unfolding unpinned_still_def
  by (rule exI [of _ "db_enrollments (jd_core db)"]) (simp add: on_core_def)

lemma and_then_Inr: "and_then r k = Inr y \<longleftrightarrow> (\<exists>x. r = Inr x \<and> k x = Inr y)"
  by (auto simp: and_then_def split: sum.split)

lemma query_Inr: "query flt stmt x = Inr y \<longleftrightarrow> flt stmt = None \<and> x = y"
  by (simp add: query_def split: option.split)

lemma map_sum_Inr: "map_sum f g r = Inr y \<longleftrightarrow> (\<exists>x. r = Inr x \<and> g x = y)"
  by (cases r) auto

lemma paused_inert: "campaignPausedJob E flt ws enrollmentID b db = Inr j \<Longrightarrow> inert j"
  by (auto simp: campaignPausedJob_def and_then_Inr inert_def)

lemma applyRoute_frame:
  assumes "applyRoute L flt nowdb ws eid enrollmentID b d (jd_core db) = (r, s')"
  shows "unpinned_still db (on_core (\<lambda>_. s') db)"
proof -
  have "\<exists>es. s' = jd_core db\<lparr>db_enrollments := es\<rparr>
      \<and> map en_mailbox es = map en_mailbox (db_enrollments (jd_core db))"
    using assms
    by (auto simp: applyRoute_def on_enrollments_def FinishRoute_def AwaitCondition_def PgStore_def
        exec_stmt_def FinishEnrollment_def AwaitEnrollmentCondition_def map_update_where Let_def
        split: routeDecision.splits option.splits sum.splits prod.splits
        intro: exI [of _ "db_enrollments (jd_core db)"])
  then show ?thesis by (auto simp: unpinned_still_def on_core_def)
qed

lemma applyRoute_inert:
  "applyRoute L flt nowdb ws eid enrollmentID b d s = (r, s') \<Longrightarrow> r = Inr j \<Longrightarrow> inert j"
  by (auto simp: applyRoute_def inert_def Let_def split: routeDecision.splits sum.splits prod.splits)

lemma GetNextStep_mem: "GetNextStep campaignID ws k db = Some r \<Longrightarrow> r \<in> set (jd_steps db)"
  by (auto simp: GetNextStep_def split: list.splits
      dest!: arg_cong [where f = set])

lemma with_step_mem: "with_step steps d = Inr (d', Some st) \<Longrightarrow> st \<in> set steps"
  by (auto simp: with_step_def find_Some_iff split: routeDecision.splits option.splits)

lemma routeStep_mem:
  assumes "routeStep E flt now ws enrollmentID b brs db = Inr (d, Some st)"
  shows "st \<in> set (jd_steps db)"
proof -
  have "st \<in> set (ListStepsByCampaign (rb_campaign (route_part b)) ws (jd_steps db))"
    using assms
    by (auto simp: routeStep_def routeGraph_def and_then_Inr Let_def
        split: option.splits sum.splits routeDecision.splits if_splits bool.splits dest: with_step_mem)
  then show ?thesis by (auto simp: ListStepsByCampaign_def)
qed

lemma chooseStep_cases:
  assumes "chooseStep E flt now nowdb ws eid enrollmentID b db = (r, db')"
  obtains (failed) e where "r = Inl e" "unpinned_still db db'"
  | (idle) j where "r = Inr (NothingDue j)" "inert j" "unpinned_still db db'"
  | (due) step route where "r = Inr (Due step route)" "db' = db" "step \<in> set (jd_steps db)"
proof -
  have routed: thesis if "(case on_core_result (applyRoute (je_lib E) flt nowdb ws eid enrollmentID
      (route_part b) d (jd_core db)) db of (r, db1) \<Rightarrow> (map_sum id NothingDue r, db1)) = (r, db')" for d
  proof -
    obtain q s' where q: "applyRoute (je_lib E) flt nowdb ws eid enrollmentID (route_part b) d (jd_core db)
        = (q, s')" by fastforce
    from that q have "r = map_sum id NothingDue q" "db' = on_core (\<lambda>_. s') db"
      by (auto simp: on_core_result_def)
    then show thesis
    proof (cases q)
      case (Inl e)
      with \<open>r = _\<close> \<open>db' = _\<close> applyRoute_frame [OF q] show ?thesis by (intro failed) simp_all
    next
      case (Inr j)
      with \<open>r = _\<close> \<open>db' = _\<close> applyRoute_frame [OF q] applyRoute_inert [OF q] show ?thesis
        using idle by simp
    qed
  qed
  show thesis
  proof (cases "flt ''ListBranchesByCampaign''")
    case (Some e)
    with assms failed show ?thesis by (auto simp: chooseStep_def query_def)
  next
    case None
    define brs where "brs = ListBranchesByCampaign (cm_id (b_campaign b)) ws db"
    note run = assms [unfolded chooseStep_def query_def None, simplified, folded brs_def]
    show ?thesis
    proof (cases "usesGraphRouting brs (route_part b)")
      case False
      with run failed idle [of "zero_job\<lparr>Skip := True\<rparr>"] due GetNextStep_mem show ?thesis
        by (auto simp: linearStep_def query_def inert_def split: option.splits)
    next
      case True
      show ?thesis
      proof (cases "cm_status (b_campaign b) = StatusRunning")
        case False
        with run True failed idle paused_inert show ?thesis
          by (cases "campaignPausedJob E flt ws enrollmentID b db") auto
      next
        case running: True
        show ?thesis
        proof (cases "routeStep E flt now ws enrollmentID b brs db")
          case (Inl e)
          with run True running failed show ?thesis by auto
        next
          case (Inr x)
          obtain d st where x: "x = (d, st)" by fastforce
          from run True running Inr x routed [of d] due routeStep_mem [of E flt now ws enrollmentID b brs db d]
          show ?thesis by (cases d; cases st) auto
        qed
      qed
    qed
  qed
qed

lemma stepGates_inert: "stepGates E flt nowdb ws enrollmentID b step db = Inr (Some j) \<Longrightarrow> inert j"
  by (auto simp: stepGates_def and_then_Inr map_sum_Inr paused_inert inert_def Let_def split: if_splits
      dest: paused_inert)

text \<open>A limit that is set and not used up.\<close>

definition limit_open :: "int option \<Rightarrow> int \<Rightarrow> bool" where
  "limit_open limit used \<longleftrightarrow> (case limit of None \<Rightarrow> True | Some n \<Rightarrow> n \<le> 0 \<or> used < n)"

lemma stepGates_open:
  assumes "stepGates E flt nowdb ws enrollmentID b step db = Inr None"
  shows "cm_status (b_campaign b) = StatusRunning"
    and "limit_open (cm_daily_limit (b_campaign b))
           (CountCampaignSentToday nowdb (cm_id (b_campaign b)) ws db)"
    and "st_order step = 1 \<Longrightarrow> limit_open (cm_max_new_leads_per_day (b_campaign b))
           (CountFirstStepSendsToday nowdb (je_session_offset E) (cm_id (b_campaign b)) ws db)"
proof -
  show run: "cm_status (b_campaign b) = StatusRunning"
    using assms by (auto simp: stepGates_def map_sum_Inr Let_def split: if_splits)
  note gate = assms [unfolded stepGates_def Let_def]
  have daily: "campaignLimitReached flt nowdb ws (cm_id (b_campaign b)) (cm_daily_limit (b_campaign b)) db
      = Inr False"
    using gate run by (auto simp: and_then_Inr split: if_splits)
  then show "limit_open (cm_daily_limit (b_campaign b))
           (CountCampaignSentToday nowdb (cm_id (b_campaign b)) ws db)"
    by (auto simp: campaignLimitReached_def limit_open_def and_then_Inr query_Inr split: option.splits if_splits)
  assume "st_order step = 1"
  then have "newLeadLimitReached E flt nowdb ws (cm_id (b_campaign b))
      (cm_max_new_leads_per_day (b_campaign b)) db = Inr False"
    using gate run daily by (auto simp: and_then_Inr split: if_splits)
  then show "limit_open (cm_max_new_leads_per_day (b_campaign b))
           (CountFirstStepSendsToday nowdb (je_session_offset E) (cm_id (b_campaign b)) ws db)"
    by (auto simp: newLeadLimitReached_def limit_open_def and_then_Inr query_Inr split: option.splits if_splits)
qed

lemma localStepSendJob_cases:
  assumes "localStepSendJob E flt now nowdb enrollmentID workspaceID db = (Inr j, db')"
  obtains (held) "inert j" "unpinned_still db db'"
  | (built) eid ws b step route sn sender sa where
      "uuid_Parse (je_lib E) enrollmentID = Some eid" "uuid_Parse (je_lib E) workspaceID = Some ws"
      "GetStepEnrollmentBundle eid ws db = Some b" "en_status (b_enrollment b) = StatusActive"
      "\<not> threadLostItsMailbox (current_step (b_enrollment b)) (en_mailbox (b_enrollment b))"
      "step \<in> set (jd_steps db)" "stepGates E flt nowdb ws enrollmentID b step db = Inr None"
      "stepContent E flt ws enrollmentID b step route db = Inr sn"
      "resolveSender (je_lib E) (je_text E) flt now nowdb ws eid b db = (Inr sender, db')"
      "stepAccess E flt ws b sender db' = Inr sa"
      "j = builtJob E ws enrollmentID b step sn sender sa"
proof -
  have sent: thesis if p: "uuid_Parse (je_lib E) enrollmentID = Some eid" "uuid_Parse (je_lib E) workspaceID = Some ws"
      "GetStepEnrollmentBundle eid ws db = Some b" "en_status (b_enrollment b) = StatusActive"
      "\<not> threadLostItsMailbox (current_step (b_enrollment b)) (en_mailbox (b_enrollment b))"
      and run: "activeStepJob E flt now nowdb ws eid enrollmentID b db = (Inr j, db')" for eid ws b
  proof -
    obtain q db1 where q: "chooseStep E flt now nowdb ws eid enrollmentID b db = (q, db1)" by fastforce
    from q show thesis
    proof (cases rule: chooseStep_cases)
      case (failed e)
      with run q show ?thesis by (simp add: activeStepJob_def)
    next
      case (idle j')
      with run q held show ?thesis by (simp add: activeStepJob_def)
    next
      case (due step route)
      note run = run [unfolded activeStepJob_def q due(1,2), simplified]
      show ?thesis
      proof (cases "stepGates E flt nowdb ws enrollmentID b step db")
        case (Inl e)
        with run show ?thesis by simp
      next
        case (Inr g)
        show ?thesis
        proof (cases g)
          case (Some j')
          with run Inr stepGates_inert [of E flt nowdb ws enrollmentID b step db j'] held show ?thesis by simp
        next
          case None
          with run Inr obtain sn sender sa where
            "stepContent E flt ws enrollmentID b step route db = Inr sn"
            "resolveSender (je_lib E) (je_text E) flt now nowdb ws eid b db = (Inr sender, db')"
            "stepAccess E flt ws b sender db' = Inr sa"
            "j = builtJob E ws enrollmentID b step sn sender sa"
            by (auto simp: sendingJob_def and_then_Inr split: sum.splits prod.splits)
          with p due(3) Inr None built show ?thesis by blast
        qed
      qed
    qed
  qed
  obtain eid ws where p: "uuid_Parse (je_lib E) enrollmentID = Some eid"
    "uuid_Parse (je_lib E) workspaceID = Some ws"
    using assms by (auto simp: localStepSendJob_def split: option.splits)
  obtain b where b: "GetStepEnrollmentBundle eid ws db = Some b"
    using assms p by (auto simp: localStepSendJob_def query_def split: option.splits)
  have flt: "flt ''GetStepEnrollmentBundle'' = None"
    using assms p by (auto simp: localStepSendJob_def query_def split: option.splits)
  note run = assms [unfolded localStepSendJob_def query_def, unfolded p flt, simplified, unfolded b, simplified]
  have ws: "en_ws (b_enrollment b) = ws" using run by (auto split: if_splits)
  show thesis
  proof (cases "en_status (b_enrollment b) = StatusActive")
    case False
    with run ws held show ?thesis by (auto simp: inert_def)
  next
    case True
    show ?thesis
    proof (cases "threadLostItsMailbox (current_step (b_enrollment b)) (en_mailbox (b_enrollment b))")
      case lost: True
      with run ws True held show ?thesis by (auto simp: inert_def)
    next
      case False
      with run ws True sent [OF p b True False] show ?thesis by simp
    qed
  qed
qed

lemma builtJob_fields [simp]:
  "inert (builtJob E ws eT b step sn sender sa) = False"
  "StepOrder (builtJob E ws eT b step sn sender sa) = st_order step"
  "CurrentStep (builtJob E ws eT b step sn sender sa) = current_step (b_enrollment b)"
  "EnrollmentID (builtJob E ws eT b step sn sender sa) = eT"
  "WorkspaceID (builtJob E ws eT b step sn sender sa) = uuid_String (je_lib E) ws"
  "CampaignID (builtJob E ws eT b step sn sender sa) = uuid_String (je_lib E) (cm_id (b_campaign b))"
  "ContactID (builtJob E ws eT b step sn sender sa) = uuid_String (je_lib E) (ct_id (b_contact b))"
  "MailboxID (builtJob E ws eT b step sn sender sa) = uuid_String (je_lib E) (rs_mailboxID sender)"
  "SendID (builtJob E ws eT b step sn sender sa)
     = uuid_String (je_lib E) (deriveStepSendID (je_lib E) (cm_id (b_campaign b)) (ct_id (b_contact b)) (st_order step))"
  "ToEmail (builtJob E ws eT b step sn sender sa) = ct_email (b_contact b)"
  "Suppressed (builtJob E ws eT b step sn sender sa) = sa_suppressed sa"
  "EffectiveDailyCap (builtJob E ws eT b step sn sender sa) = rs_effectiveCap sender"
  "SentToday (builtJob E ws eT b step sn sender sa) = rs_sentToday sender"
  "FromEmail (builtJob E ws eT b step sn sender sa) = rs_fromEmail sender"
  "NotDueUntil (builtJob E ws eT b step sn sender sa) = or_zero (next_due_at (b_enrollment b))"
  "UnsubURL (builtJob E ws eT b step sn sender sa) = je_public_url E @ ''/u/''
     @ MakeToken (sha256 (je_lib E)) (je_jwt_secret E) (uuid_String (je_lib E) ws) (ct_email (b_contact b))"
  by (simp_all add: builtJob_def inert_def zero_job_def Let_def)

lemma bundle_row:
  assumes "GetStepEnrollmentBundle eid ws db = Some b"
  shows "b_enrollment b \<in> set (db_enrollments (jd_core db))" and "is_row ws eid (b_enrollment b)"
    and "cm_id (b_campaign b) = en_campaign (b_enrollment b)"
    and "ct_id (b_contact b) = en_contact (b_enrollment b)"
    and "b_campaign b \<in> set (jd_campaigns db)"
    and "mb_id (b_mailbox b) = coalesce (en_mailbox (b_enrollment b)) (cm_mailbox (b_campaign b))"
    and "GetEnrollmentMailbox eid ws db = Some (en_mailbox (b_enrollment b))"
  using assms
  by (auto simp: GetStepEnrollmentBundle_def GetEnrollmentMailbox_def split: option.splits
      dest: select_one_SomeD)

text \<open>What the tables guarantee: an enrollment is in its campaign's workspace, a step order fits its
  column, and the ids derived for the steps of enrolled contacts do not collide.\<close>

definition good_tables :: "lib \<Rightarrow> step_key set \<Rightarrow> (uuid \<Rightarrow> uuid) \<Rightarrow> job_db \<Rightarrow> bool" where
  "good_tables L U home db \<longleftrightarrow>
     inj_on (derive_key L) U
     \<and> (\<forall>st \<in> set (jd_steps db). int32 (st_order st))
     \<and> (\<forall>e \<in> set (db_enrollments (jd_core db)). home (en_campaign e) = en_ws e
          \<and> (\<forall>st \<in> set (jd_steps db). (en_campaign e, en_contact e, st_order st) \<in> U))"

text \<open>C20: The builder keeps the claim's contract. Every job it builds that the worker may send has ids that
  parse, the step order of a stored step, and as send id the one derived from campaign, contact and
  step; so a retried or concurrent build of the same step names the same row, which is what
  at-most-once delivery assumes of jobs. No failure of a statement breaks this.\<close>

theorem built_job_is_good:
  assumes "text_roundtrips (je_lib E)" and "good_tables (je_lib E) U home db"
    and "localStepSendJob E flt now nowdb enrollmentID workspaceID db = (Inr j, db')"
    and "\<not> inert j"
  shows "good_job (je_lib E) U home j \<and> uuid_Parse (je_lib E) (EnrollmentID j) \<noteq> None
     \<and> uuid_Parse (je_lib E) (MailboxID j) \<noteq> None"
  using assms(3)
proof (cases rule: localStepSendJob_cases)
  case (built eid ws b step route sn sender sa)
  note row = bundle_row [OF built(3)]
  have rt: "uuid_Parse (je_lib E) (uuid_String (je_lib E) i) = Some i" for i
    using assms(1) by (simp add: text_roundtrips_def)
  have key: "job_key (je_lib E) j = (en_campaign (b_enrollment b), en_contact (b_enrollment b), st_order step)"
    by (simp add: job_key_def built(11) rt row(3,4))
  have "en_ws (b_enrollment b) = ws" using row(2) by (simp add: is_row_def)
  with assms(2) row(1) built(6) show ?thesis
    unfolding good_job_def key good_tables_def
    by (simp add: built(1,11) rt row(3,4) derive_key_def)
qed (use assms(4) in simp)

text \<open>C21: Nothing goes out past a closed gate, and a job that sends nothing leaves no mailbox pinned. A job
  the worker may send exists only for an active enrollment of a running campaign whose daily limit
  is not used up, whose allowance of new contacts is not used up when this is the first step, and
  whose thread still has its mailbox when it is not; and it carries the suppression list's answer.
  Any other job changes at most the progress of the enrollment: no mailbox is pinned, no assignment
  counted, no send written.\<close>

theorem gates_hold:
  assumes "localStepSendJob E flt now nowdb enrollmentID workspaceID db = (Inr j, db')"
  shows "if inert j then unpinned_still db db'
     else \<exists>eid ws b. uuid_Parse (je_lib E) enrollmentID = Some eid
       \<and> uuid_Parse (je_lib E) workspaceID = Some ws \<and> GetStepEnrollmentBundle eid ws db = Some b
       \<and> en_status (b_enrollment b) = StatusActive \<and> cm_status (b_campaign b) = StatusRunning
       \<and> limit_open (cm_daily_limit (b_campaign b))
            (CountCampaignSentToday nowdb (cm_id (b_campaign b)) ws db)
       \<and> (StepOrder j = 1 \<longrightarrow> limit_open (cm_max_new_leads_per_day (b_campaign b))
            (CountFirstStepSendsToday nowdb (je_session_offset E) (cm_id (b_campaign b)) ws db))
       \<and> (0 < CurrentStep j \<longrightarrow> en_mailbox (b_enrollment b) \<noteq> None)
       \<and> (uuid_Parse (je_lib E) (WorkspaceID j) = Some ws \<longrightarrow>
            Suppressed j = IsSuppressed (je_sql_lower E) ws (ToEmail j) db')"
  using assms
proof (cases rule: localStepSendJob_cases)
  case held
  then show ?thesis by simp
next
  case (built eid ws b step route sn sender sa)
  have "Suppressed j = IsSuppressed (je_sql_lower E) ws (ToEmail j) db'"
    if "uuid_Parse (je_lib E) (WorkspaceID j) = Some ws"
    using built(10) that
    by (auto simp: built(11) stepAccess_def and_then_Inr localIsSuppressed_def query_Inr split: option.splits)
  moreover have "en_mailbox (b_enrollment b) \<noteq> None" if "0 < CurrentStep j"
    using built(5) that by (simp add: built(11) threadLostItsMailbox_def)
  moreover have "\<not> inert j" "StepOrder j = st_order step" by (simp_all add: built(11))
  ultimately show ?thesis using built(1-4) stepGates_open [OF built(7)] by auto
qed

text \<open>C22: A conversation has one sender. The mailbox of a sendable job is the one stored with its
  enrollment when the build ends, and it is the one stored before when there was one, so a follow-up
  never leaves from another address than the message it follows; the only exception is a first step
  whose pool is exhausted, and that job has no capacity left, so the worker defers it.\<close>

theorem thread_keeps_sender:
  assumes "unique_key en_id (db_enrollments (jd_core db))"
    and "localStepSendJob E flt now nowdb enrollmentID workspaceID db = (Inr j, db')"
    and "\<not> inert j"
  shows "\<exists>eid ws. uuid_Parse (je_lib E) enrollmentID = Some eid \<and> uuid_Parse (je_lib E) workspaceID = Some ws
     \<and> (EffectiveDailyCap j \<le> SentToday j \<and> CurrentStep j \<le> 0
          \<and> GetEnrollmentMailbox eid ws db = Some None
        \<or> (\<exists>m. MailboxID j = uuid_String (je_lib E) m
              \<and> GetEnrollmentMailbox eid ws db' = Some (Some m)
              \<and> GetEnrollmentMailbox eid ws db \<in> {Some (Some m), Some None}
              \<and> (0 < CurrentStep j \<longrightarrow> GetEnrollmentMailbox eid ws db = Some (Some m))))"
  using assms(2)
proof (cases rule: localStepSendJob_cases)
  case (built eid ws b step route sn sender sa)
  note row = bundle_row [OF built(3)]
  have cur: "CurrentStep j = current_step (b_enrollment b)" "MailboxID j = uuid_String (je_lib E) (rs_mailboxID sender)"
    "EffectiveDailyCap j = rs_effectiveCap sender" "SentToday j = rs_sentToday sender"
    by (simp_all add: built(11))
  show ?thesis
  proof (cases "en_mailbox (b_enrollment b)")
    case (Some m)
    with built(9) have "withTodaysCapacity flt nowdb ws (bundleSender now b) db = Inr sender" "db = db'"
      by (auto simp: resolveSender_pinned)
    with Some row(6,7) cur built(1,2) show ?thesis
      by (intro exI [of _ eid] exI [of _ ws]) (auto simp: coalesce_def dest!: withTodaysCapacity_keeps)
  next
    case None
    then have first: "current_step (b_enrollment b) \<le> 0" using built(5) by (simp add: threadLostItsMailbox_def)
    from built(9) None show ?thesis
    proof (cases rule: resolveSender_cases)
      case (failed e)
      then show ?thesis by simp
    next
      case (exhausted s)
      with None first row(7) cur built(1,2) show ?thesis by auto
    next
      case (claimed chosen pinned)
      then have m: "rs_mailboxID sender = pinned" by simp
      from claimed(2) show ?thesis
      proof (cases rule: claimEnrollmentSender_cases)
        case (2 stored)
        with row(7) None show ?thesis by simp
      next
        case 3
        with unpinned_row [OF assms(1) 3(3)] m cur first built(1,2) show ?thesis by auto
      qed simp
    qed
  qed
qed (use assms(3) in simp)


subsection \<open>Witnesses\<close>

definition pool_env :: job_env where
  "pool_env = \<lparr>je_lib = plain_lib, je_text = plain_text, je_unmarshal = \<lambda>_. None,
     je_creds = Some (\<lambda>ws m provider sealed. Inr \<lparr>sec_provider = provider, sec_smtp_password = sealed,
        sec_access_token = []\<rparr>),
     je_sql_lower = id, je_jwt_secret = ''key'', je_public_url = ''https://in.road'', je_session_offset = 0\<rparr>"

lemma pool_bundle_read: "GetStepEnrollmentBundle 6 1 pool_db = Some pool_bundle"
  by (simp add: GetStepEnrollmentBundle_def pool_db_def is_row_def pool_enrollment_def pool_campaign_def
      pool_contact_def pool_bundle_def pool_mailbox_def coalesce_def)
lemma pool_sched: "Compile (LoadLocation (je_lib pool_env)) (DefaultSchedule ''UTC'') = Inr weekdays"
  using weekdays_compile
  by (simp add: pool_env_def plain_lib_def sample_lib_def sample_zones_def UTC_def fixed_zone_def)
lemma pool_schedule: "loadSchedule pool_env no_faults stmt 1 2 ''UTC'' db = Inr (DefaultSchedule ''UTC'')" if "jd_windows db = []"
  using that pool_sched by (simp add: loadSchedule_def ListSendWindows_def query_def and_then_def ScheduleFrom_def)
lemma pool_env_simps: "je_lib pool_env = plain_lib" "je_text pool_env = plain_text"
  "je_session_offset pool_env = 0" "uuid_Parse plain_lib s = Some (of_nat (length s))"
  "je_creds pool_env = Some (\<lambda>ws m provider sealed. Inr \<lparr>sec_provider = provider, sec_smtp_password = sealed,
      sec_access_token = []\<rparr>)"
  by (simp_all add: pool_env_def plain_lib_def)
lemma pool_build:
  "\<exists>j. localStepSendJob pool_env no_faults 0 0 ''xxxxxx'' ''x'' pool_db = (Inr j, pinned_db 0 6 1 2 4 pool_db) \<and> \<not> inert j"
proof -
  have active: "en_ws (b_enrollment pool_bundle) = 1" "en_status (b_enrollment pool_bundle) = StatusActive"
     "\<not> threadLostItsMailbox (current_step (b_enrollment pool_bundle)) (en_mailbox (b_enrollment pool_bundle))"
    by (simp_all add: pool_bundle_def pool_enrollment_def threadLostItsMailbox_def)
  have choose: "chooseStep pool_env no_faults 0 0 1 6 ''xxxxxx'' pool_bundle pool_db = (Inr (Due pool_step None), pool_db)"
    by (simp add: chooseStep_def query_def ListBranchesByCampaign_def usesGraphRouting_def route_part_def linearStep_def
       GetNextStep_def pool_db_def pool_bundle_def pool_campaign_def pool_enrollment_def pool_step_def)
  have gates: "stepGates pool_env no_faults 0 1 ''xxxxxx'' pool_bundle pool_step pool_db = Inr None"
    by (simp add: stepGates_def and_then_def query_def campaignLimitReached_def newLeadLimitReached_def StatusRunning_def
       CountFirstStepSendsToday_def count_where_def pool_db_def pool_bundle_def pool_campaign_def pool_step_def)
  obtain sn where sn: "stepContent pool_env no_faults 1 ''xxxxxx'' pool_bundle pool_step None pool_db = Inr sn"
    by (simp add: stepContent_def and_then_def query_def selectVariant_def ListStepVariants_def stepAfter_def threadSubjectOf_def
      threading_def GetNextStep_def pool_db_def pool_bundle_def pool_campaign_def pool_step_def pool_enrollment_def)
  obtain sa where sa: "stepAccess pool_env no_faults 1 pool_bundle pool_sender (pinned_db 0 6 1 2 4 pool_db) = Inr sa"
  proof -
    have w: "jd_windows (pinned_db 0 6 1 2 4 pool_db) = []" "cm_id (b_campaign pool_bundle) = 2"
      "cm_timezone (b_campaign pool_bundle) = ''UTC''"
      by (simp_all add: pinned_db_def BumpCampaignSenderAssignment_def on_core_def pool_db_def pool_bundle_def pool_campaign_def)
    show ?thesis
      using that pool_schedule [OF w(1)]
      by (simp add: stepAccess_def and_then_def openMailboxSecret_def localIsSuppressed_def query_def w
          pool_env_simps)
  qed
  show ?thesis
    by (simp add: localStepSendJob_def pool_env_simps query_def pool_bundle_read active activeStepJob_def choose gates
      sendingJob_def sn pool_resolve sa and_then_def)
qed

lemma pool_tables: "good_tables plain_lib {(2, 3, 1)} (\<lambda>_. 1) pool_db"
  by (simp add: good_tables_def pool_db_def pool_enrollment_def pool_step_def int32_def)

lemma built_job_is_good_witness:
  "\<exists>j db'. localStepSendJob pool_env no_faults 0 0 ''xxxxxx'' ''x'' pool_db = (Inr j, db')
     \<and> good_job plain_lib {(2, 3, 1)} (\<lambda>_. 1) j"
proof -
  obtain j where j: "localStepSendJob pool_env no_faults 0 0 ''xxxxxx'' ''x'' pool_db
      = (Inr j, pinned_db 0 6 1 2 4 pool_db)" "\<not> inert j" using pool_build by blast
  from built_job_is_good [OF _ _ j] plain_roundtrips pool_tables j(1) show ?thesis
    by (auto simp: pool_env_simps)
qed

lemma gates_hold_witness:
  "\<exists>j db' b. localStepSendJob pool_env no_faults 0 0 ''xxxxxx'' ''x'' pool_db = (Inr j, db')
     \<and> GetStepEnrollmentBundle 6 1 pool_db = Some b \<and> cm_status (b_campaign b) = StatusRunning"
proof -
  obtain j where j: "localStepSendJob pool_env no_faults 0 0 ''xxxxxx'' ''x'' pool_db
      = (Inr j, pinned_db 0 6 1 2 4 pool_db)" "\<not> inert j" using pool_build by blast
  from gates_hold [OF j(1)] j show ?thesis by (auto simp: pool_env_simps)
qed

lemma thread_keeps_sender_witness:
  "\<exists>j db' m. localStepSendJob pool_env no_faults 0 0 ''xxxxxx'' ''x'' pool_db = (Inr j, db')
     \<and> (EffectiveDailyCap j \<le> SentToday j \<or> MailboxID j = uuid_String plain_lib m
        \<and> GetEnrollmentMailbox 6 1 db' = Some (Some m))"
proof -
  obtain j where j: "localStepSendJob pool_env no_faults 0 0 ''xxxxxx'' ''x'' pool_db
      = (Inr j, pinned_db 0 6 1 2 4 pool_db)" "\<not> inert j" using pool_build by blast
  from thread_keeps_sender [OF pool_key j] j(1) show ?thesis
    by (auto simp: pool_env_simps)
qed

end
