(* ===== verification/Breaker.thy ===== *)
theory Breaker
  imports Go_Float
begin

text \<open>
  The health score of a campaign's sending and the verdict of its circuit breaker
  (\<open>internal/platform/deliverability/deliverability.go\<close>): rates as percentages, the penalty of each
  signal, \<open>Compute\<close> and \<open>Breach\<close>. A rate, a threshold and a saturation point are \<open>float64\<close> values and
  every operation on them is the one of \<open>Go_Float\<close>; a nil pointer is \<open>None\<close>.

  The lemmas say that a rate grows with the count it is taken of, that a penalty grows with the
  rate up to its ceiling, and from both that the score is a percentage no worse evidence can raise
  and that what the breaker stops, the score shows.
\<close>

subsection \<open>Constants\<close>

definition WarmupUnknown :: string where [const_defs]: "WarmupUnknown = ''unknown''"
definition WarmupWatch :: string where [const_defs]: "WarmupWatch = ''watch''"
definition WarmupThrottled :: string where [const_defs]: "WarmupThrottled = ''throttled''"
definition WarmupPaused :: string where [const_defs]: "WarmupPaused = ''paused''"
definition DomainPassing :: string where [const_defs]: "DomainPassing = ''passing''"
definition DomainFailing :: string where [const_defs]: "DomainFailing = ''failing''"

definition BouncePenalty :: int where [const_defs]: "BouncePenalty = 40"
definition BounceSaturationPct :: float64 where "BounceSaturationPct = f_int 10"
definition ComplaintPenalty :: int where [const_defs]: "ComplaintPenalty = 30"
definition ComplaintSaturationPct :: float64 where "ComplaintSaturationPct = f_lit 3 10"
definition SpamPlacementPenalty :: int where [const_defs]: "SpamPlacementPenalty = 40"
definition SpamSaturationPct :: float64 where "SpamSaturationPct = f_int 40"
definition WarmupWatchPenalty :: int where [const_defs]: "WarmupWatchPenalty = 10"
definition WarmupThrottledPenalty :: int where [const_defs]: "WarmupThrottledPenalty = 25"
definition WarmupPausedPenalty :: int where [const_defs]: "WarmupPausedPenalty = 50"
definition DomainAuthPenalty :: int where [const_defs]: "DomainAuthPenalty = 20"

definition DefaultBouncePausePct :: float64 where "DefaultBouncePausePct = f_int 8"
definition DefaultComplaintPausePct :: float64 where "DefaultComplaintPausePct = f_lit 3 2"
definition MinDelivered :: int where [const_defs]: "MinDelivered = 50"
definition WindowDays :: int where [const_defs]: "WindowDays = 7"
definition WarnFraction :: float64 where "WarnFraction = f_lit 1 2"
definition HighConfidenceDelivered :: int where [const_defs]: "HighConfidenceDelivered = 500"
definition ThresholdMin :: float64 where "ThresholdMin = f_lit 1 10"
definition ThresholdMax :: float64 where "ThresholdMax = f_int 100"

definition KeyBounce :: string where [const_defs]: "KeyBounce = ''bounce''"
definition KeyComplaint :: string where [const_defs]: "KeyComplaint = ''complaint''"
definition KeySpamPlacement :: string where [const_defs]: "KeySpamPlacement = ''spam_placement''"
definition KeyWarmup :: string where [const_defs]: "KeyWarmup = ''warmup''"
definition KeyDomainAuth :: string where [const_defs]: "KeyDomainAuth = ''domain_auth''"
definition ReasonBounceSpike :: string where [const_defs]: "ReasonBounceSpike = ''bounce_spike''"
definition ReasonComplaintSpike :: string where [const_defs]: "ReasonComplaintSpike = ''complaint_spike''"
definition MetricBounceRate :: string where [const_defs]: "MetricBounceRate = ''bounce_rate''"
definition MetricComplaintRate :: string where [const_defs]: "MetricComplaintRate = ''complaint_rate''"

subsection \<open>Evidence, thresholds and results\<close>

record Inputs =
  in_delivered :: int
  in_bounced :: int
  in_complained :: "int option"
  in_spam_placed :: "int option"
  in_inbox_placed :: "int option"
  in_warmup_state :: string
  in_domain_state :: string

record Thresholds =
  th_bounce :: float64
  th_complaint :: float64
  th_min_delivered :: int

definition DefaultThresholds :: Thresholds where
  "DefaultThresholds =
     \<lparr>th_bounce = DefaultBouncePausePct, th_complaint = DefaultComplaintPausePct,
      th_min_delivered = MinDelivered\<rparr>"

definition positive_or :: "float64 \<Rightarrow> float64 \<Rightarrow> float64" where
  "positive_or x d = (if f_le x (f_int 0) then d else x)"

definition normalized :: "Thresholds \<Rightarrow> Thresholds" where
  "normalized t =
     \<lparr>th_bounce = positive_or (th_bounce t) DefaultBouncePausePct,
      th_complaint = positive_or (th_complaint t) DefaultComplaintPausePct,
      th_min_delivered = (if th_min_delivered t \<le> 0 then MinDelivered else th_min_delivered t)\<rparr>"

datatype Confidence = ConfidenceLow | ConfidenceMedium | ConfidenceHigh

record Component =
  c_key :: string
  c_label :: string
  c_penalty :: int
  c_rate :: "float64 option"
  c_measured :: bool
  c_detail :: string

record Score =
  hs_value :: int
  hs_delivered :: int
  hs_components :: "Component list"
  hs_confidence :: Confidence

datatype VerdictState = VerdictOk | VerdictWarn | VerdictPause

record Verdict =
  v_state :: VerdictState
  v_reason :: string
  v_metric :: string
  v_value :: float64
  v_threshold :: float64
  v_delivered :: int

subsection \<open>Rates and penalties\<close>

definition Rate :: "int \<Rightarrow> int \<Rightarrow> float64" where
  "Rate part whole =
     (if whole \<le> 0 \<or> part \<le> 0 then f_int 0
      else f_mul (f_div (f_int part) (f_int whole)) (f_int 100))"

text \<open>\<open>int(math.Round(x))\<close>: the nearest integer, halves away from zero.\<close>

definition f_round :: "float64 \<Rightarrow> int" where
  "f_round x =
     (if 0 \<le> expo x then mant x * 2 ^ nat (expo x)
      else let k = nat (- expo x)
           in sgn (mant x) * ((2 * \<bar>mant x\<bar> + 2 ^ k) div 2 ^ Suc k))"

definition saturatingPenalty :: "float64 \<Rightarrow> float64 \<Rightarrow> int \<Rightarrow> int" where
  "saturatingPenalty rate saturation most =
     (if f_le rate (f_int 0) \<or> f_le saturation (f_int 0) then 0
      else if f_le saturation rate then most
      else f_round (f_mul (f_div rate saturation) (f_int most)))"

subsection \<open>Components\<close>

definition absent :: "string \<Rightarrow> string \<Rightarrow> string \<Rightarrow> Component" where
  "absent key label detail =
     \<lparr>c_key = key, c_label = label, c_penalty = 0, c_rate = None, c_measured = False, c_detail = detail\<rparr>"

definition rated :: "string \<Rightarrow> string \<Rightarrow> float64 \<Rightarrow> float64 \<Rightarrow> int \<Rightarrow> Component" where
  "rated key label rate saturation most =
     \<lparr>c_key = key, c_label = label, c_penalty = saturatingPenalty rate saturation most,
      c_rate = Some rate, c_measured = True, c_detail = []\<rparr>"

definition judged :: "string \<Rightarrow> string \<Rightarrow> int \<Rightarrow> string \<Rightarrow> Component" where
  "judged key label penalty detail =
     \<lparr>c_key = key, c_label = label, c_penalty = penalty, c_rate = None, c_measured = True,
      c_detail = detail\<rparr>"

definition bounceComponent :: "Inputs \<Rightarrow> Component" where
  "bounceComponent i =
     (if in_delivered i \<le> 0 then absent KeyBounce ''Bounce rate'' ''no delivered mail in the window''
      else rated KeyBounce ''Bounce rate'' (Rate (in_bounced i) (in_delivered i))
             BounceSaturationPct BouncePenalty)"

definition complaintComponent :: "Inputs \<Rightarrow> Component" where
  "complaintComponent i =
     (case in_complained i of
        None \<Rightarrow> absent KeyComplaint ''Complaint rate'' ''no complaint feed connected''
      | Some n \<Rightarrow>
          if in_delivered i \<le> 0
          then absent KeyComplaint ''Complaint rate'' ''no delivered mail in the window''
          else rated KeyComplaint ''Complaint rate'' (Rate n (in_delivered i))
                 ComplaintSaturationPct ComplaintPenalty)"

definition spamPlacementComponent :: "Inputs \<Rightarrow> Component" where
  "spamPlacementComponent i =
     (let unseen = absent KeySpamPlacement ''Spam placement'' ''no warmup placement observed''
      in case (in_spam_placed i, in_inbox_placed i) of
           (Some spam, Some inbox) \<Rightarrow>
             if spam + inbox \<le> 0 then unseen
             else rated KeySpamPlacement ''Spam placement'' (Rate spam (spam + inbox))
                    SpamSaturationPct SpamPlacementPenalty
         | _ \<Rightarrow> unseen)"

definition warmupComponent :: "Inputs \<Rightarrow> Component" where
  "warmupComponent i =
     (let s = in_warmup_state i; label = ''Warmup health''
      in if s = WarmupUnknown then absent KeyWarmup label ''insufficient warmup evidence''
         else if s = WarmupWatch then judged KeyWarmup label WarmupWatchPenalty s
         else if s = WarmupThrottled then judged KeyWarmup label WarmupThrottledPenalty s
         else if s = WarmupPaused then judged KeyWarmup label WarmupPausedPenalty s
         else if s = [] then absent KeyWarmup label ''not warming up''
         else judged KeyWarmup label 0 s)"

definition domainComponent :: "Inputs \<Rightarrow> Component" where
  "domainComponent i =
     (let s = in_domain_state i; label = ''Domain authentication''
      in if s = DomainFailing then judged KeyDomainAuth label DomainAuthPenalty DomainFailing
         else if s = DomainPassing then judged KeyDomainAuth label 0 DomainPassing
         else absent KeyDomainAuth label ''not checked'')"

definition components :: "Inputs \<Rightarrow> Component list" where
  "components i =
     [bounceComponent i, complaintComponent i, spamPlacementComponent i, warmupComponent i,
      domainComponent i]"

text \<open>The entry of \<open>byKey\<close>; a key not in the map reads as false.\<close>

definition measured_key :: "string \<Rightarrow> Component list \<Rightarrow> bool" where
  "measured_key k comps =
     (case find (\<lambda>c. c_key c = k) (rev comps) of None \<Rightarrow> False | Some c \<Rightarrow> c_measured c)"

definition confidence :: "Inputs \<Rightarrow> Component list \<Rightarrow> Confidence" where
  "confidence i comps =
     (if in_delivered i < MinDelivered \<or> length (filter c_measured comps) < 2 then ConfidenceLow
      else if HighConfidenceDelivered \<le> in_delivered i \<and> measured_key KeyComplaint comps
              \<and> measured_key KeySpamPlacement comps
      then ConfidenceHigh else ConfidenceMedium)"

definition Compute :: "Inputs \<Rightarrow> Score" where
  "Compute i =
     (let comps = components i; value = foldl (\<lambda>v c. v - c_penalty c) 100 comps
      in \<lparr>hs_value = (if value < 0 then 0 else value), hs_delivered = in_delivered i,
          hs_components = comps, hs_confidence = confidence i comps\<rparr>)"

subsection \<open>The verdict\<close>

definition ok_verdict :: "int \<Rightarrow> Verdict" where
  "ok_verdict n =
     \<lparr>v_state = VerdictOk, v_reason = [], v_metric = [], v_value = f_int 0, v_threshold = f_int 0,
      v_delivered = n\<rparr>"

definition breached :: "VerdictState \<Rightarrow> string \<Rightarrow> string \<Rightarrow> float64 \<Rightarrow> float64 \<Rightarrow> int \<Rightarrow> Verdict" where
  "breached state reason metric value threshold delivered =
     \<lparr>v_state = state, v_reason = reason, v_metric = metric, v_value = value,
      v_threshold = threshold, v_delivered = delivered\<rparr>"

definition Breach :: "Inputs \<Rightarrow> Thresholds \<Rightarrow> Verdict" where
  "Breach i t0 =
     (let t = normalized t0; n = in_delivered i in
      if n < th_min_delivered t then ok_verdict n
      else
        let bounce = Rate (in_bounced i) n;
            complaintMeasured = in_complained i \<noteq> None;
            complaint = (case in_complained i of None \<Rightarrow> f_int 0 | Some k \<Rightarrow> Rate k n)
        in if f_le (th_bounce t) bounce
           then breached VerdictPause ReasonBounceSpike MetricBounceRate bounce (th_bounce t) n
           else if complaintMeasured \<and> f_le (th_complaint t) complaint
           then breached VerdictPause ReasonComplaintSpike MetricComplaintRate complaint (th_complaint t) n
           else if f_le (f_mul (th_bounce t) WarnFraction) bounce
           then breached VerdictWarn ReasonBounceSpike MetricBounceRate bounce (th_bounce t) n
           else if complaintMeasured \<and> f_le (f_mul (th_complaint t) WarnFraction) complaint
           then breached VerdictWarn ReasonComplaintSpike MetricComplaintRate complaint (th_complaint t) n
           else ok_verdict n)"

subsection \<open>Rounding and percentages\<close>

lemma f_mul_mono:
  "0 < fval x \<Longrightarrow> 0 < fval y \<Longrightarrow> fval x * fval y \<le> fval x' * fval y' \<Longrightarrow>
     fval (f_mul x y) \<le> fval (f_mul x' y')"
  unfolding f_mul_def
  by (rule round_quot_mono) (simp_all add: fval_sign(3), simp_all add: fval_def power_int_add mult_ac)

lemma fval_int [simp]: "fval (f_int 0) = 0" "fval (f_int 1) = 1" "fval (f_int 8) = 8"
    "fval (f_int 10) = 10" "fval (f_int 40) = 40" "fval (f_int 100) = 100"
  by (simp_all add: f_int_exact)

lemma f_round_floor:
  assumes "0 \<le> fval x"
  shows "f_round x = \<lfloor>fval x + 1 / 2\<rfloor>"
proof (cases "0 \<le> expo x")
  case True
  then have v: "fval x = of_int (mant x * 2 ^ nat (expo x))" by (simp add: fval_def power_int_def)
  have "\<lfloor>fval x + 1 / 2\<rfloor> = mant x * 2 ^ nat (expo x)" unfolding v by linarith
  then show ?thesis using True by (simp only: f_round_def if_True)
next
  case False
  have m: "0 \<le> mant x" using assms by (rule fval_sign(2))
  define k where "k = nat (- expo x)"
  have "fval x + 1 / 2 = of_int (2 * mant x + 2 ^ k) / of_int (2 ^ Suc k)"
    using False by (simp add: fval_def power_int_def k_def field_simps)
  then have "\<lfloor>fval x + 1 / 2\<rfloor> = (2 * mant x + 2 ^ k) div 2 ^ Suc k" by (simp only: floor_divide_of_int_eq)
  moreover have "(2 ^ k :: int) div 2 ^ Suc k = 0" by simp
  ultimately show ?thesis
    using m False by (cases "mant x = 0") (simp_all add: f_round_def k_def Let_def)
qed

lemma f_round_mono: "0 \<le> fval x \<Longrightarrow> fval x \<le> fval y \<Longrightarrow> f_round x \<le> f_round y"
  by (simp add: f_round_floor floor_mono)

lemma f_round_le: "0 \<le> fval x \<Longrightarrow> fval x \<le> of_int k \<Longrightarrow> f_round x \<le> k"
  unfolding f_round_floor by linarith

lemma f_round_nonneg: "0 \<le> fval x \<Longrightarrow> 0 \<le> f_round x"
  by (simp add: f_round_floor)

lemma Rate_nonneg: "0 \<le> fval (Rate part whole)"
  by (simp add: Rate_def f_mul_pos f_div_pos f_int_pos less_imp_le)

lemma Rate_mono: "a \<le> b \<Longrightarrow> fval (Rate a n) \<le> fval (Rate b n)"
proof (cases "n \<le> 0 \<or> a \<le> 0")
  case True
  then show ?thesis using Rate_nonneg [of b n] by (auto simp: Rate_def)
next
  case False
  assume "a \<le> b"
  have pos: "0 < fval (f_int a)" "0 < fval (f_int b)" "0 < fval (f_int n)"
    using False \<open>a \<le> b\<close> by (auto intro: f_int_pos)
  have "fval (f_div (f_int a) (f_int n)) \<le> fval (f_div (f_int b) (f_int n))"
    using pos f_int_mono [of a b] False \<open>a \<le> b\<close> by (intro f_div_mono) (auto intro: divide_right_mono)
  with pos False \<open>a \<le> b\<close> show ?thesis
    by (simp add: Rate_def) (intro f_mul_mono, auto intro: f_div_pos)
qed

subsection \<open>Penalties\<close>

text \<open>A signal's penalty: where it saturates and the most it costs.\<close>

locale penalty_scale =
  fixes saturation :: float64 and most :: int
  assumes sat: "0 < fval saturation" and most: "0 \<le> most" "most \<le> 2 ^ 53"
begin

lemma linear_part:
  "0 < fval r \<Longrightarrow> fval r \<le> fval saturation \<Longrightarrow>
     0 \<le> fval (f_mul (f_div r saturation) (f_int most))
     \<and> fval (f_mul (f_div r saturation) (f_int most)) \<le> of_int most"
proof -
  assume r: "0 < fval r" "fval r \<le> fval saturation"
  have v: "fval (f_int most) = of_int most" using most by (intro f_int_exact) auto
  have d: "0 < fval (f_div r saturation)" using r sat by (intro f_div_pos)
  have "fval r / fval saturation \<le> fval (f_int 1)" using r sat by (simp add: divide_simps)
  then have "fval (f_div r saturation) \<le> 1"
    using f_div_le [of "f_int 1" saturation r] sat by simp
  then have "fval (f_div r saturation) * of_int most \<le> fval (f_int most)"
    unfolding v using d most by (simp add: mult_left_le_one_le)
  then have "fval (f_mul (f_div r saturation) (f_int most)) \<le> of_int most"
    using f_mul_le [of "f_int most" "f_div r saturation" "f_int most"] v by simp
  moreover have "0 \<le> fval (f_mul (f_div r saturation) (f_int most))"
    using d most by (intro f_mul_nonneg) (simp_all add: v)
  ultimately show ?thesis by simp
qed

lemma penalty_range: "0 \<le> saturatingPenalty r saturation most" "saturatingPenalty r saturation most \<le> most"
  using most sat linear_part [of r]
  by (auto simp: saturatingPenalty_def f_le_iff intro!: f_round_nonneg f_round_le)

lemma penalty_mono:
  assumes le: "fval r \<le> fval r'"
  shows "saturatingPenalty r saturation most \<le> saturatingPenalty r' saturation most"
proof (cases "0 < fval r \<and> fval r' < fval saturation \<and> 0 < most")
  case True
  then have r: "0 < fval r" "0 < fval r'" "fval r < fval saturation" using le by auto
  have "fval (f_div r saturation) \<le> fval (f_div r' saturation)"
    using r le sat by (intro f_div_mono) (auto intro: divide_right_mono)
  moreover have "0 < fval (f_div r saturation)" using r sat by (intro f_div_pos)
  ultimately have "fval (f_mul (f_div r saturation) (f_int most)) \<le> fval (f_mul (f_div r' saturation) (f_int most))"
    using True by (intro f_mul_mono) (simp_all add: f_int_pos mult_right_mono less_imp_le)
  then show ?thesis
    using True r sat linear_part [of r] by (auto simp: saturatingPenalty_def f_le_iff intro: f_round_mono)
next
  case False
  then consider "fval r \<le> 0" | "fval saturation \<le> fval r'" | "most = 0" using most by linarith
  then show ?thesis
  proof cases
    case 1
    then have "saturatingPenalty r saturation most = 0" by (simp add: saturatingPenalty_def f_le_iff)
    then show ?thesis using penalty_range(1) by simp
  next
    case 2
    then have "saturatingPenalty r' saturation most = most"
      using sat by (simp add: saturatingPenalty_def f_le_iff)
    then show ?thesis using penalty_range(2) by simp
  next
    case 3
    then show ?thesis using penalty_range [of r] penalty_range [of r'] by linarith
  qed
qed

end

interpretation bounce: penalty_scale BounceSaturationPct BouncePenalty
  by unfold_locales (simp_all add: BounceSaturationPct_def BouncePenalty_def)

interpretation complaint: penalty_scale ComplaintSaturationPct ComplaintPenalty
  by unfold_locales (simp_all add: ComplaintSaturationPct_def ComplaintPenalty_def f_lit_pos)

interpretation spam: penalty_scale SpamSaturationPct SpamPlacementPenalty
  by unfold_locales (simp_all add: SpamSaturationPct_def SpamPlacementPenalty_def)

subsection \<open>The score\<close>

lemmas component_defs = bounceComponent_def complaintComponent_def spamPlacementComponent_def
  warmupComponent_def domainComponent_def absent_def rated_def judged_def

lemma component_penalty_range:
  "0 \<le> c_penalty (bounceComponent i)" "0 \<le> c_penalty (complaintComponent i)"
  "0 \<le> c_penalty (spamPlacementComponent i)" "0 \<le> c_penalty (warmupComponent i)"
  "0 \<le> c_penalty (domainComponent i)"
  by (auto simp: component_defs bounce.penalty_range complaint.penalty_range spam.penalty_range
      Let_def WarmupWatchPenalty_def WarmupThrottledPenalty_def WarmupPausedPenalty_def
      DomainAuthPenalty_def split: option.splits)

lemma Compute_value:
  "hs_value (Compute i) =
     max 0 (100 - c_penalty (bounceComponent i) - c_penalty (complaintComponent i)
              - c_penalty (spamPlacementComponent i) - c_penalty (warmupComponent i)
              - c_penalty (domainComponent i))"
  by (simp add: Compute_def components_def Let_def max_def)

definition placement :: "Inputs \<Rightarrow> (int \<times> int) option" where
  "placement i =
     (case (in_spam_placed i, in_inbox_placed i) of (Some s, Some b) \<Rightarrow> Some (s, b) | _ \<Rightarrow> None)"

definition state_rank :: "string \<Rightarrow> nat" where
  "state_rank s =
     (if s = WarmupPaused then 3 else if s = WarmupThrottled then 2 else if s = WarmupWatch then 1 else 0)"

text \<open>Evidence that is nowhere better: over the same samples and from the same feeds, no bad count is
  lower and no state is milder.\<close>

definition no_better :: "Inputs \<Rightarrow> Inputs \<Rightarrow> bool" where
  "no_better j i \<longleftrightarrow>
     in_delivered j = in_delivered i \<and> in_bounced i \<le> in_bounced j
     \<and> rel_option (\<le>) (in_complained i) (in_complained j)
     \<and> rel_option (\<lambda>(s, b) (s', b'). s \<le> s' \<and> s + b = s' + b') (placement i) (placement j)
     \<and> state_rank (in_warmup_state i) \<le> state_rank (in_warmup_state j)
     \<and> (in_domain_state i = DomainFailing \<longrightarrow> in_domain_state j = DomainFailing)"

lemma spam_placement:
  "spamPlacementComponent i =
     (case placement i of
        None \<Rightarrow> absent KeySpamPlacement ''Spam placement'' ''no warmup placement observed''
      | Some (s, b) \<Rightarrow>
          if s + b \<le> 0 then absent KeySpamPlacement ''Spam placement'' ''no warmup placement observed''
          else rated KeySpamPlacement ''Spam placement'' (Rate s (s + b)) SpamSaturationPct SpamPlacementPenalty)"
  by (simp add: spamPlacementComponent_def placement_def Let_def split: option.splits)

lemma warmup_penalty:
  "c_penalty (warmupComponent i) = [0, 10, 25, 50] ! state_rank (in_warmup_state i)"
  by (simp add: component_defs state_rank_def const_defs Let_def)

lemma warmup_penalty_mono:
  "state_rank (in_warmup_state i) \<le> state_rank (in_warmup_state j) \<Longrightarrow>
     c_penalty (warmupComponent i) \<le> c_penalty (warmupComponent j)"
  unfolding warmup_penalty by (auto simp: state_rank_def split: if_splits)

lemma rated_mono:
  assumes "no_better j i"
  shows "c_penalty (bounceComponent i) \<le> c_penalty (bounceComponent j)"
    and "c_penalty (complaintComponent i) \<le> c_penalty (complaintComponent j)"
    and "c_penalty (spamPlacementComponent i) \<le> c_penalty (spamPlacementComponent j)"
    and "c_penalty (domainComponent i) \<le> c_penalty (domainComponent j)"
proof -
  show "c_penalty (bounceComponent i) \<le> c_penalty (bounceComponent j)"
    using assms by (auto simp: no_better_def component_defs intro: bounce.penalty_mono Rate_mono)
  show "c_penalty (complaintComponent i) \<le> c_penalty (complaintComponent j)"
    using assms
    by (auto simp: no_better_def component_defs intro!: complaint.penalty_mono Rate_mono
        elim!: option.rel_cases)
  show "c_penalty (spamPlacementComponent i) \<le> c_penalty (spamPlacementComponent j)"
    using assms
    by (auto simp: no_better_def spam_placement absent_def rated_def intro!: spam.penalty_mono Rate_mono
        elim!: option.rel_cases)
  show "c_penalty (domainComponent i) \<le> c_penalty (domainComponent j)"
    using assms by (auto simp: no_better_def component_defs const_defs Let_def)
qed

text \<open>C29: The score is between 0 and 100, a signal nobody measured shows no rate and costs nothing, and
  evidence that is nowhere better never scores higher.\<close>

theorem score_is_monotone:
  "0 \<le> hs_value (Compute i) \<and> hs_value (Compute i) \<le> 100
   \<and> (\<forall>c \<in> set (hs_components (Compute i)). c_measured c \<or> (c_penalty c = 0 \<and> c_rate c = None))
   \<and> (no_better j i \<longrightarrow> hs_value (Compute j) \<le> hs_value (Compute i))"
proof (intro conjI impI)
  show "0 \<le> hs_value (Compute i)" "hs_value (Compute i) \<le> 100"
    using component_penalty_range [of i] by (auto simp: Compute_value)
  show "\<forall>c \<in> set (hs_components (Compute i)). c_measured c \<or> (c_penalty c = 0 \<and> c_rate c = None)"
    by (auto simp: Compute_def components_def component_defs Let_def split: option.splits)
  show "hs_value (Compute j) \<le> hs_value (Compute i)" if n: "no_better j i"
    using rated_mono [OF n] n warmup_penalty_mono [of i j] unfolding Compute_value no_better_def by linarith
qed

text \<open>At the default of eight percent and the same sample, one more bounce costs a point or none.\<close>

definition sample_inputs :: "int \<Rightarrow> Inputs" where
  "sample_inputs n =
     \<lparr>in_delivered = 100, in_bounced = n, in_complained = Some 0, in_spam_placed = Some 5,
      in_inbox_placed = Some 95, in_warmup_state = ''healthy'', in_domain_state = ''passing''\<rparr>"

lemma sample_no_better: "no_better (sample_inputs 9) (sample_inputs 8)"
  by (simp add: no_better_def sample_inputs_def placement_def)

theorem score_is_monotone_witness:
  "hs_value (Compute (sample_inputs 9)) \<le> hs_value (Compute (sample_inputs 8))
   \<and> map (hs_value \<circ> Compute \<circ> sample_inputs) [0, 8, 9, 12] = [95, 63, 59, 55]
   \<and> hs_confidence (Compute (sample_inputs 8)) = ConfidenceMedium"
proof -
  have "map (hs_value \<circ> Compute \<circ> sample_inputs) [0, 8, 9, 12] = [95, 63, 59, 55]" by code_simp
  moreover have "hs_confidence (Compute (sample_inputs 8)) = ConfidenceMedium" by code_simp
  ultimately show ?thesis
    using score_is_monotone [of "sample_inputs 8" "sample_inputs 9"] sample_no_better by blast
qed

subsection \<open>The verdict and the score\<close>

lemma Breach_pause:
  assumes "v_state (Breach i t) = VerdictPause"
  obtains (bounce) "Breach i t = breached VerdictPause ReasonBounceSpike MetricBounceRate
                      (Rate (in_bounced i) (in_delivered i)) (th_bounce (normalized t)) (in_delivered i)"
      "f_le (th_bounce (normalized t)) (Rate (in_bounced i) (in_delivered i))"
      "th_min_delivered (normalized t) \<le> in_delivered i"
    | (complaint) n where "in_complained i = Some n"
      "Breach i t = breached VerdictPause ReasonComplaintSpike MetricComplaintRate
                      (Rate n (in_delivered i)) (th_complaint (normalized t)) (in_delivered i)"
      "f_le (th_complaint (normalized t)) (Rate n (in_delivered i))"
      "th_min_delivered (normalized t) \<le> in_delivered i"
  using assms
  by (auto simp: Breach_def Let_def ok_verdict_def breached_def not_less split: if_splits)

lemma normalized_positive:
  "0 < fval (th_bounce (normalized t))" "0 < fval (th_complaint (normalized t))"
  "0 < th_min_delivered (normalized t)"
  by (auto simp: normalized_def positive_or_def f_le_iff DefaultBouncePausePct_def
      DefaultComplaintPausePct_def MinDelivered_def f_lit_pos)

lemma rated_max: "c_penalty (bounceComponent i) \<le> 40" "c_penalty (complaintComponent i) \<le> 30"
  using bounce.penalty_range(2) complaint.penalty_range(2)
  by (auto simp: component_defs BouncePenalty_def ComplaintPenalty_def split: option.splits)

lemma hs_value_minus:
  "hs_value (Compute i) \<le> 100 - c_penalty (bounceComponent i)"
  "hs_value (Compute i) \<le> 100 - c_penalty (complaintComponent i)"
  using component_penalty_range [of i] rated_max [of i] by (auto simp: Compute_value)

text \<open>The component a stop rests on is measured, shows the rate the verdict names, and costs at least
  what the threshold costs.\<close>

lemma paused_component:
  assumes "v_state (Breach i t) = VerdictPause"
  shows "\<exists>c \<in> set (hs_components (Compute i)). c_measured c \<and> c_rate c = Some (v_value (Breach i t))
     \<and> (v_reason (Breach i t) = ReasonBounceSpike \<and> c_key c = KeyBounce
          \<and> hs_value (Compute i) \<le> 100 - saturatingPenalty (v_threshold (Breach i t)) BounceSaturationPct BouncePenalty
        \<or> v_reason (Breach i t) = ReasonComplaintSpike \<and> c_key c = KeyComplaint
          \<and> hs_value (Compute i) \<le> 100 - saturatingPenalty (v_threshold (Breach i t)) ComplaintSaturationPct ComplaintPenalty)"
  using assms
proof (cases rule: Breach_pause)
  case bounce
  have n: "\<not> in_delivered i \<le> 0" using bounce(3) normalized_positive(3) [of t] by linarith
  have "saturatingPenalty (th_bounce (normalized t)) BounceSaturationPct BouncePenalty
      \<le> c_penalty (bounceComponent i)"
    using n bounce(2) by (simp add: bounceComponent_def rated_def bounce.penalty_mono f_le_iff)
  with hs_value_minus(1) [of i] n bounce(1) show ?thesis
    by (intro bexI [of _ "bounceComponent i"])
      (auto simp: bounceComponent_def rated_def breached_def Compute_def components_def Let_def)
next
  case (complaint k)
  have n: "\<not> in_delivered i \<le> 0" using complaint(4) normalized_positive(3) [of t] by linarith
  have "saturatingPenalty (th_complaint (normalized t)) ComplaintSaturationPct ComplaintPenalty
      \<le> c_penalty (complaintComponent i)"
    using n complaint(1,3) by (simp add: complaintComponent_def rated_def complaint.penalty_mono f_le_iff)
  with hs_value_minus(2) [of i] n complaint(1,2) show ?thesis
    by (intro bexI [of _ "complaintComponent i"])
      (auto simp: complaintComponent_def rated_def breached_def Compute_def components_def Let_def)
qed

lemma stop_is_visible:
  assumes "v_state (Breach i t) = VerdictPause"
  shows "0 < fval (v_threshold (Breach i t)) \<and> fval (v_threshold (Breach i t)) \<le> fval (v_value (Breach i t))
     \<and> 0 < v_delivered (Breach i t) \<and> th_min_delivered (normalized t) \<le> v_delivered (Breach i t)
     \<and> v_delivered (Breach i t) = in_delivered i"
  using assms normalized_positive [of t]
  by (cases rule: Breach_pause) (auto simp: breached_def f_le_iff)

end
