(* ===== verification/Breaker_Service.thy ===== *)
theory Breaker_Service
  imports Step_Job Breaker
begin

text \<open>
  The deliverability guardrails of a campaign (\<open>internal/app/deliverability/service.go\<close> and
  \<open>store.go\<close>, the statements of \<open>internal/platform/db/queries/deliverability.sql\<close>): which evidence a
  campaign is judged on, the evaluation that may stop it, its report and settings, and the ingest of
  an event reported from outside.

  \<open>guard_db\<close> holds the tables of \<open>Step_Job\<close> and the ones only this component has; the breaker's
  settings are columns of a campaign. \<open>now\<close> is the application's clock, read in the process's zone, and
  \<open>nowdb\<close> the database's. A percentage is stored as NUMERIC; \<open>ge_numeric\<close> is what a \<open>float64\<close> reads back
  as after that conversion, a parameter. The reason of a suppression, which no statement reads, is not
  kept, and logging is left out.
\<close>

subsection \<open>Rows\<close>

record deliv_event =
  de_ws :: uuid
  de_kind :: string
  de_email :: string
  de_send :: "uuid option"
  de_provider_event_id :: string
  de_bounce_class :: string
  de_received_at :: instant

record pause_row =
  pr_ws :: uuid
  pr_campaign :: uuid
  pr_reason :: string
  pr_metric :: string
  pr_value :: float64
  pr_threshold :: float64
  pr_delivered :: int
  pr_created_at :: instant

record daily_stat =
  dy_ws :: uuid
  dy_mailbox :: uuid
  dy_day :: int
  dy_inbox :: int
  dy_spam :: int

record sending_domain =
  dm_ws :: uuid
  dm_domain :: string
  dm_state :: string

record guard_db =
  gd_jobs :: job_db
  gd_events :: "deliv_event list"
  gd_pauses :: "pause_row list"
  gd_daily :: "daily_stat list"
  gd_domains :: "sending_domain list"

record guard_env =
  ge_text :: text_lib
  ge_sql_lower :: "string \<Rightarrow> string"
  ge_numeric :: "float64 \<Rightarrow> float64"
  ge_local :: location

datatype guard_error = ErrInvalid | ErrNotFound | ErrStore string

definition attempt :: "faults \<Rightarrow> string \<Rightarrow> 'a \<Rightarrow> guard_error + 'a" where
  "attempt flt stmt x = (case flt stmt of Some e \<Rightarrow> Inl (ErrStore e) | None \<Rightarrow> Inr x)"

subsection \<open>The settings of a campaign\<close>

record Guardrails =
  gr_auto_pause :: bool
  gr_bounce_pct :: float64
  gr_complaint_pct :: float64

record CampaignConfig =
  cf_guardrails :: Guardrails
  cf_status :: string
  cf_enabled_at :: instant

definition GetCampaignGuardrails :: "uuid \<Rightarrow> uuid \<Rightarrow> guard_db \<Rightarrow> campaign option" where
  "GetCampaignGuardrails ws c db = select_one (is_campaign ws c) (jd_campaigns (gd_jobs db))"

definition on_campaigns :: "(campaign list \<Rightarrow> campaign list) \<Rightarrow> guard_db \<Rightarrow> guard_db" where
  "on_campaigns f db = db\<lparr>gd_jobs := (gd_jobs db)\<lparr>jd_campaigns := f (jd_campaigns (gd_jobs db))\<rparr>\<rparr>"

definition SetCampaignGuardrails ::
  "(float64 \<Rightarrow> float64) \<Rightarrow> instant \<Rightarrow> uuid \<Rightarrow> uuid \<Rightarrow> Guardrails \<Rightarrow> guard_db \<Rightarrow> int \<times> guard_db" where
  "SetCampaignGuardrails numeric nowdb ws c g db =
     (count_where (is_campaign ws c) (jd_campaigns (gd_jobs db)),
      on_campaigns (update_where (is_campaign ws c) (\<lambda>r. r\<lparr>
        cm_auto_pause_enabled := gr_auto_pause g,
        cm_bounce_pause_pct := numeric (gr_bounce_pct g),
        cm_complaint_pause_pct := numeric (gr_complaint_pct g),
        cm_guardrails_enabled_at :=
          (if \<not> cm_auto_pause_enabled r \<and> gr_auto_pause g then nowdb else cm_guardrails_enabled_at r)\<rparr>)) db)"

definition CampaignConfigOf :: "faults \<Rightarrow> uuid \<Rightarrow> uuid \<Rightarrow> guard_db \<Rightarrow> guard_error + CampaignConfig" where
  "CampaignConfigOf flt ws c db =
     and_then (attempt flt ''GetCampaignGuardrails'' (GetCampaignGuardrails ws c db)) (\<lambda>row.
       case row of
         None \<Rightarrow> Inl ErrNotFound
       | Some r \<Rightarrow>
           Inr \<lparr>cf_guardrails = \<lparr>gr_auto_pause = cm_auto_pause_enabled r,
                                gr_bounce_pct = cm_bounce_pause_pct r,
                                gr_complaint_pct = cm_complaint_pause_pct r\<rparr>,
                cf_status = cm_status r, cf_enabled_at = cm_guardrails_enabled_at r\<rparr>)"

definition StoreSetGuardrails ::
  "guard_env \<Rightarrow> faults \<Rightarrow> instant \<Rightarrow> uuid \<Rightarrow> uuid \<Rightarrow> Guardrails \<Rightarrow> guard_db \<Rightarrow> guard_error + guard_db" where
  "StoreSetGuardrails E flt nowdb ws c g db =
     and_then (attempt flt ''SetCampaignGuardrails'' (SetCampaignGuardrails (ge_numeric E) nowdb ws c g db))
       (\<lambda>(n, db'). if n = 0 then Inl ErrNotFound else Inr db')"

definition validThreshold :: "float64 \<Rightarrow> bool" where
  "validThreshold pct \<longleftrightarrow> \<not> (f_less pct ThresholdMin \<or> f_less ThresholdMax pct)"

definition GuardrailsOf :: "faults \<Rightarrow> uuid \<Rightarrow> uuid \<Rightarrow> guard_db \<Rightarrow> guard_error + Guardrails" where
  "GuardrailsOf flt ws c db = and_then (CampaignConfigOf flt ws c db) (\<lambda>cfg. Inr (cf_guardrails cfg))"

definition SetGuardrails ::
  "guard_env \<Rightarrow> faults \<Rightarrow> instant \<Rightarrow> uuid \<Rightarrow> uuid \<Rightarrow> Guardrails \<Rightarrow> guard_db
     \<Rightarrow> (guard_error + Guardrails) \<times> guard_db" where
  "SetGuardrails E flt nowdb ws c g db =
     (if \<not> validThreshold (gr_bounce_pct g) \<or> \<not> validThreshold (gr_complaint_pct g) then (Inl ErrInvalid, db)
      else case StoreSetGuardrails E flt nowdb ws c g db of
             Inl e \<Rightarrow> (Inl e, db)
           | Inr db' \<Rightarrow> (Inr g, db'))"

subsection \<open>The evidence\<close>

record Counts =
  n_delivered :: int
  n_bounced :: int
  n_complained :: int
  n_complaint_feed :: bool

text \<open>The sends an event joins: the one it names, within its workspace.\<close>

definition event_sends :: "send list \<Rightarrow> deliv_event \<Rightarrow> send list" where
  "event_sends sends d = filter (\<lambda>s. de_send d = Some (sd_id s) \<and> sd_ws s = de_ws d) sends"

definition delivered_since :: "uuid \<Rightarrow> uuid \<Rightarrow> instant \<Rightarrow> send \<Rightarrow> bool" where
  "delivered_since ws c since s \<longleftrightarrow>
     sd_ws s = ws \<and> sd_campaign s = c \<and> sd_status s = ''sent''
     \<and> (case sd_sent_at s of None \<Rightarrow> False | Some t \<Rightarrow> since \<le> t)"

definition bounced_since :: "uuid \<Rightarrow> uuid \<Rightarrow> instant \<Rightarrow> enrollment \<Rightarrow> bool" where
  "bounced_since ws c since e \<longleftrightarrow>
     en_ws e = ws \<and> en_campaign e = c \<and> stop_reason e = Some StopBounced
     \<and> (case stopped_at e of None \<Rightarrow> False | Some t \<Rightarrow> since \<le> t)"

definition reported_since :: "uuid \<Rightarrow> string \<Rightarrow> instant \<Rightarrow> deliv_event \<Rightarrow> bool" where
  "reported_since ws kind since d \<longleftrightarrow> de_ws d = ws \<and> de_kind d = kind \<and> since \<le> de_received_at d"

definition EventKindComplaint :: string where [const_defs]: "EventKindComplaint = ''complaint''"
definition EventKindBounce :: string where [const_defs]: "EventKindBounce = ''bounce''"

text \<open>The sends of a campaign that events of a kind were reported for, one entry per event.\<close>

definition reported_sends :: "uuid \<Rightarrow> uuid \<Rightarrow> string \<Rightarrow> instant \<Rightarrow> guard_db \<Rightarrow> send list" where
  "reported_sends ws c kind since db =
     concat (map (\<lambda>d. filter (\<lambda>s. sd_campaign s = c) (event_sends (db_sends (jd_core (gd_jobs db))) d))
       (filter (reported_since ws kind since) (gd_events db)))"

definition GetCampaignDeliverabilityCounts :: "uuid \<Rightarrow> uuid \<Rightarrow> instant \<Rightarrow> guard_db \<Rightarrow> Counts" where
  "GetCampaignDeliverabilityCounts ws c since db =
     (let core = jd_core (gd_jobs db) in
      \<lparr>n_delivered = count_where (delivered_since ws c since) (db_sends core),
       n_bounced = int (length (remdups
         (map en_contact (filter (bounced_since ws c since) (db_enrollments core))
          @ map sd_contact (reported_sends ws c EventKindBounce since db)))),
       n_complained = int (length (reported_sends ws c EventKindComplaint since db)),
       n_complaint_feed = list_ex (\<lambda>d. de_ws d = ws \<and> de_kind d = EventKindComplaint) (gd_events db)\<rparr>)"

record Signals =
  sg_inbox :: int
  sg_spam :: int
  sg_warmup :: string
  sg_domain :: string

text \<open>The first row of an order by severity, or the empty text.\<close>

definition worst_by :: "(string \<Rightarrow> int) \<Rightarrow> string list \<Rightarrow> string" where
  "worst_by rank xs = (case sort_key (\<lambda>x. - rank x) xs of [] \<Rightarrow> [] | x # _ \<Rightarrow> x)"

definition health_rank :: "string \<Rightarrow> int" where
  "health_rank s =
     (if s = ''paused'' then 5 else if s = ''throttled'' then 4 else if s = ''watch'' then 3
      else if s = ''unknown'' then 2 else 1)"

definition domain_rank :: "string \<Rightarrow> int" where
  "domain_rank s = (if s = ''failing'' then 3 else if s = ''unknown'' then 2 else 1)"

definition split_part_at :: "string \<Rightarrow> string" where
  "split_part_at s = takeWhile (\<lambda>c. c \<noteq> CHR ''@'') (drop 1 (dropWhile (\<lambda>c. c \<noteq> CHR ''@'') s))"

text \<open>No mailboxes stands for every mailbox of the workspace.\<close>

definition among :: "uuid list \<Rightarrow> uuid \<Rightarrow> bool" where
  "among ids m \<longleftrightarrow> ids = [] \<or> m \<in> set ids"

definition GetDeliverabilitySignals ::
  "(string \<Rightarrow> string) \<Rightarrow> uuid \<Rightarrow> uuid list \<Rightarrow> int \<Rightarrow> guard_db \<Rightarrow> Signals" where
  "GetDeliverabilitySignals sql_lower ws ids since_day db =
     (let daily = filter (\<lambda>w. dy_ws w = ws \<and> since_day \<le> dy_day w \<and> among ids (dy_mailbox w)) (gd_daily db);
          live = filter (\<lambda>p. wp_ws p = ws \<and> wp_enabled p \<and> among ids (wp_mailbox p))
                   (jd_participants (gd_jobs db));
          own = filter (\<lambda>m. mb_ws m = ws \<and> among ids (mb_id m)) (db_mailboxes (jd_core (gd_jobs db)));
          doms = map (\<lambda>m. sql_lower (split_part_at (mb_email m))) own
      in \<lparr>sg_inbox = sum_list (map dy_inbox daily), sg_spam = sum_list (map dy_spam daily),
          sg_warmup = worst_by health_rank (map wp_health live),
          sg_domain = worst_by domain_rank
            (map dm_state (filter (\<lambda>d. dm_ws d = ws \<and> dm_domain d \<in> set doms) (gd_domains db)))\<rparr>)"

definition ListCampaignSenderMailboxes :: "uuid \<Rightarrow> uuid \<Rightarrow> guard_db \<Rightarrow> uuid list" where
  "ListCampaignSenderMailboxes ws c db =
     (let pool = filter (\<lambda>s. cs_campaign s = c \<and> cs_ws s = ws) (jd_senders (gd_jobs db));
          fallback = filter (\<lambda>r. is_campaign ws c r
                       \<and> \<not> list_ex (\<lambda>s. cs_campaign s = cm_id r \<and> cs_ws s = cm_ws r) (jd_senders (gd_jobs db)))
                     (jd_campaigns (gd_jobs db))
      in remdups (map cs_mailbox pool @ map cm_mailbox fallback))"

definition LatestCampaignPauseAt :: "uuid \<Rightarrow> uuid \<Rightarrow> guard_db \<Rightarrow> instant option" where
  "LatestCampaignPauseAt ws c db =
     (case map pr_created_at (filter (\<lambda>p. pr_ws p = ws \<and> pr_campaign p = c) (gd_pauses db)) of
        [] \<Rightarrow> None
      | t # ts \<Rightarrow> Some (fold max ts t))"

definition LastPausedAt :: "faults \<Rightarrow> uuid \<Rightarrow> uuid \<Rightarrow> guard_db \<Rightarrow> guard_error + instant" where
  "LastPausedAt flt ws c db =
     and_then (attempt flt ''LatestCampaignPauseAt'' (LatestCampaignPauseAt ws c db))
       (\<lambda>ts. Inr (case ts of None \<Rightarrow> 0 | Some t \<Rightarrow> t))"

definition toInputs :: "Counts \<Rightarrow> Signals \<Rightarrow> Inputs" where
  "toInputs n sig =
     \<lparr>in_delivered = n_delivered n, in_bounced = n_bounced n,
      in_complained = (if n_complaint_feed n then Some (n_complained n) else None),
      in_spam_placed = Some (sg_spam sig), in_inbox_placed = Some (sg_inbox sig),
      in_warmup_state = sg_warmup sig, in_domain_state = sg_domain sig\<rparr>"

subsection \<open>Judging a campaign\<close>

record Assessment =
  as_inputs :: Inputs
  as_score :: Score
  as_verdict :: Verdict
  as_guardrails :: Guardrails
  as_status :: string
  as_since :: instant

definition later :: "instant \<Rightarrow> instant \<Rightarrow> instant" where
  "later a b = (if a < b then b else a)"

text \<open>The instant before which nothing counts: when supervision began and, for a running campaign, the
  last automatic pause.\<close>

definition evidence_floor ::
  "faults \<Rightarrow> uuid \<Rightarrow> uuid \<Rightarrow> CampaignConfig \<Rightarrow> guard_db \<Rightarrow> guard_error + instant" where
  "evidence_floor flt ws c cfg db =
     (if cf_status cfg = StatusRunning
      then and_then (LastPausedAt flt ws c db) (\<lambda>lastPause. Inr (later (cf_enabled_at cfg) lastPause))
      else Inr (cf_enabled_at cfg))"

text \<open>The rolling window, or everything since the floor when the window holds too small a sample and
  the floor holds more.\<close>

definition gather ::
  "faults \<Rightarrow> uuid \<Rightarrow> uuid \<Rightarrow> instant \<Rightarrow> instant \<Rightarrow> guard_db \<Rightarrow> guard_error + (Counts \<times> instant)" where
  "gather flt ws c bound rolling db =
     and_then (attempt flt ''GetCampaignDeliverabilityCounts'' (GetCampaignDeliverabilityCounts ws c rolling db))
       (\<lambda>n. if n_delivered n < MinDelivered \<and> bound < rolling
             then and_then (attempt flt ''GetCampaignDeliverabilityCounts wider''
                              (GetCampaignDeliverabilityCounts ws c bound db))
                    (\<lambda>wider. Inr (if n_delivered n < n_delivered wider then (wider, bound) else (n, rolling)))
             else Inr (n, rolling))"

definition thresholds_of :: "Guardrails \<Rightarrow> Thresholds" where
  "thresholds_of g =
     \<lparr>th_bounce = gr_bounce_pct g, th_complaint = gr_complaint_pct g, th_min_delivered = MinDelivered\<rparr>"

definition assessed :: "CampaignConfig \<Rightarrow> Counts \<Rightarrow> Signals \<Rightarrow> instant \<Rightarrow> Assessment" where
  "assessed cfg n sig since =
     (let i = toInputs n sig in
      \<lparr>as_inputs = i, as_score = Compute i, as_verdict = Breach i (thresholds_of (cf_guardrails cfg)),
       as_guardrails = cf_guardrails cfg, as_status = cf_status cfg, as_since = since\<rparr>)"

definition assessCampaign ::
  "guard_env \<Rightarrow> faults \<Rightarrow> instant \<Rightarrow> uuid \<Rightarrow> uuid \<Rightarrow> guard_db \<Rightarrow> guard_error + Assessment" where
  "assessCampaign E flt now ws c db =
     and_then (CampaignConfigOf flt ws c db) (\<lambda>cfg.
     and_then (evidence_floor flt ws c cfg db) (\<lambda>bound.
     and_then (gather flt ws c bound (later (add_days (ge_local E) now (- WindowDays)) bound) db)
       (\<lambda>(n, since).
     and_then (attempt flt ''ListCampaignSenderMailboxes'' (ListCampaignSenderMailboxes ws c db)) (\<lambda>ids.
     and_then (attempt flt ''GetDeliverabilitySignals''
                 (GetDeliverabilitySignals (ge_sql_lower E) ws ids (since div day_ns) db)) (\<lambda>sig.
       Inr (assessed cfg n sig since))))))"

subsection \<open>The breaker\<close>

record PauseEvent =
  pe_reason :: string
  pe_metric :: string
  pe_value :: float64
  pe_threshold :: float64
  pe_delivered :: int
  pe_created_at :: instant

definition pause_event :: "Verdict \<Rightarrow> PauseEvent" where
  "pause_event v =
     \<lparr>pe_reason = v_reason v, pe_metric = v_metric v, pe_value = v_value v, pe_threshold = v_threshold v,
      pe_delivered = v_delivered v, pe_created_at = 0\<rparr>"

definition running_row :: "uuid \<Rightarrow> uuid \<Rightarrow> campaign \<Rightarrow> bool" where
  "running_row ws c r \<longleftrightarrow> is_campaign ws c r \<and> cm_status r = ''running''"

definition PauseCampaignForBreach :: "uuid \<Rightarrow> uuid \<Rightarrow> guard_db \<Rightarrow> int \<times> guard_db" where
  "PauseCampaignForBreach ws c db =
     (count_where (running_row ws c) (jd_campaigns (gd_jobs db)),
      on_campaigns (update_where (running_row ws c) (\<lambda>r. r\<lparr>cm_status := ''paused''\<rparr>)) db)"

text \<open>The checks of the table of pauses, and the insert they may refuse.\<close>

definition pause_row_legal :: "pause_row \<Rightarrow> bool" where
  "pause_row_legal p \<longleftrightarrow>
     pr_reason p \<in> {''bounce_spike'', ''complaint_spike''} \<and> pr_metric p \<in> {''bounce_rate'', ''complaint_rate''}
     \<and> f_le (f_int 0) (pr_value p) \<and> f_less (f_int 0) (pr_threshold p) \<and> 0 < pr_delivered p"

definition pause_row_of :: "(float64 \<Rightarrow> float64) \<Rightarrow> instant \<Rightarrow> uuid \<Rightarrow> uuid \<Rightarrow> PauseEvent \<Rightarrow> pause_row" where
  "pause_row_of numeric nowdb ws c ev =
     \<lparr>pr_ws = ws, pr_campaign = c, pr_reason = pe_reason ev, pr_metric = pe_metric ev,
      pr_value = numeric (pe_value ev), pr_threshold = numeric (pe_threshold ev),
      pr_delivered = wrap32 (pe_delivered ev), pr_created_at = nowdb\<rparr>"

definition InsertCampaignPauseEvent :: "pause_row \<Rightarrow> guard_db \<Rightarrow> guard_db option" where
  "InsertCampaignPauseEvent p db =
     (if pause_row_legal p then Some (db\<lparr>gd_pauses := gd_pauses db @ [p]\<rparr>) else None)"

definition PauseForBreach ::
  "guard_env \<Rightarrow> faults \<Rightarrow> instant \<Rightarrow> uuid \<Rightarrow> uuid \<Rightarrow> PauseEvent \<Rightarrow> guard_db
     \<Rightarrow> (guard_error + bool) \<times> guard_db" where
  "PauseForBreach E flt nowdb ws c ev db =
     (case and_then (attempt flt ''begin'' ()) (\<lambda>_. attempt flt ''PauseCampaignForBreach'' (PauseCampaignForBreach ws c db)) of
        Inl e \<Rightarrow> (Inl e, db)
      | Inr (n, db1) \<Rightarrow>
          if n = 0 then (Inr False, db)
          else
            (case and_then (attempt flt ''InsertCampaignPauseEvent''
                     (InsertCampaignPauseEvent (pause_row_of (ge_numeric E) nowdb ws c ev) db1)) (\<lambda>r.
                   case r of
                     None \<Rightarrow> Inl (ErrStore ''check violation'')
                   | Some db2 \<Rightarrow> attempt flt ''commit'' db2) of
               Inl e \<Rightarrow> (Inl e, db)
             | Inr db2 \<Rightarrow> (Inr True, db2)))"

record BreakerOutcome =
  bo_verdict :: Verdict
  bo_paused :: bool

definition EvaluateBreaker ::
  "guard_env \<Rightarrow> faults \<Rightarrow> instant \<Rightarrow> instant \<Rightarrow> uuid \<Rightarrow> uuid \<Rightarrow> guard_db
     \<Rightarrow> (guard_error + BreakerOutcome) \<times> guard_db" where
  "EvaluateBreaker E flt now nowdb ws c db =
     (case assessCampaign E flt now ws c db of
        Inl e \<Rightarrow> (Inl e, db)
      | Inr a \<Rightarrow>
          if \<not> gr_auto_pause (as_guardrails a) \<or> v_state (as_verdict a) \<noteq> VerdictPause
             \<or> as_status a \<noteq> StatusRunning
          then (Inr \<lparr>bo_verdict = as_verdict a, bo_paused = False\<rparr>, db)
          else
            (case PauseForBreach E flt nowdb ws c (pause_event (as_verdict a)) db of
               (Inl e, db1) \<Rightarrow> (Inl e, db1)
             | (Inr paused, db1) \<Rightarrow> (Inr \<lparr>bo_verdict = as_verdict a, bo_paused = paused\<rparr>, db1)))"

subsection \<open>The report\<close>

definition verdictOk :: string where [const_defs]: "verdictOk = ''ok''"
definition verdictWarn :: string where [const_defs]: "verdictWarn = ''warn''"
definition verdictPaused :: string where [const_defs]: "verdictPaused = ''paused''"
definition pauseEventLimit :: nat where [const_defs]: "pauseEventLimit = 20"

definition ListCampaignPauseEvents :: "uuid \<Rightarrow> uuid \<Rightarrow> nat \<Rightarrow> guard_db \<Rightarrow> pause_row list" where
  "ListCampaignPauseEvents ws c limit db =
     take limit (sort_key (\<lambda>p. - pr_created_at p)
       (filter (\<lambda>p. pr_ws p = ws \<and> pr_campaign p = c) (gd_pauses db)))"

definition PauseEvents :: "faults \<Rightarrow> uuid \<Rightarrow> uuid \<Rightarrow> guard_db \<Rightarrow> guard_error + PauseEvent list" where
  "PauseEvents flt ws c db =
     and_then (attempt flt ''ListCampaignPauseEvents'' (ListCampaignPauseEvents ws c pauseEventLimit db))
       (\<lambda>rows. Inr (map (\<lambda>p. \<lparr>pe_reason = pr_reason p, pe_metric = pr_metric p, pe_value = pr_value p,
                             pe_threshold = pr_threshold p, pe_delivered = pr_delivered p,
                             pe_created_at = pr_created_at p\<rparr>) rows))"

definition verdict :: "Assessment \<Rightarrow> nat \<Rightarrow> string" where
  "verdict a pauseEvents =
     (if 0 < pauseEvents \<and> as_status a \<noteq> StatusRunning then verdictPaused
      else if v_state (as_verdict a) = VerdictOk then verdictOk else verdictWarn)"

record CampaignReport =
  cr_score :: Score
  cr_guardrails :: Guardrails
  cr_events :: "PauseEvent list"
  cr_verdict :: string

definition CampaignReportOf ::
  "guard_env \<Rightarrow> faults \<Rightarrow> instant \<Rightarrow> uuid \<Rightarrow> uuid \<Rightarrow> guard_db \<Rightarrow> guard_error + CampaignReport" where
  "CampaignReportOf E flt now ws c db =
     and_then (assessCampaign E flt now ws c db) (\<lambda>a.
     and_then (PauseEvents flt ws c db) (\<lambda>evs.
       Inr \<lparr>cr_score = as_score a, cr_guardrails = as_guardrails a, cr_events = evs,
            cr_verdict = verdict a (length evs)\<rparr>))"

subsection \<open>Events reported from outside\<close>

record EventInput =
  ei_kind :: string
  ei_email :: string
  ei_provider_event_id :: string
  ei_send :: "uuid option"
  ei_bounce_class :: string

definition BounceClassHard :: string where [const_defs]: "BounceClassHard = ''hard''"
definition BounceClassSoft :: string where [const_defs]: "BounceClassSoft = ''soft''"
definition BounceClassUnknown :: string where [const_defs]: "BounceClassUnknown = ''unknown''"

definition resolveBounceClass :: "text_lib \<Rightarrow> string \<Rightarrow> string \<Rightarrow> string option" where
  "resolveBounceClass X kind cls =
     (if kind = EventKindComplaint then Some BounceClassUnknown
      else
        let s = ToLower X (TrimSpace cls) in
        if s = [] then Some BounceClassUnknown
        else if s = BounceClassHard then Some BounceClassHard
        else if s = BounceClassSoft then Some BounceClassSoft
        else if s = BounceClassUnknown then Some BounceClassUnknown
        else None)"

text \<open>The insert does nothing on a conflict of workspace and provider id; a send the workspace does not
  have is stored as NULL.\<close>

definition InsertDeliverabilityEvent :: "instant \<Rightarrow> uuid \<Rightarrow> EventInput \<Rightarrow> guard_db \<Rightarrow> int \<times> guard_db" where
  "InsertDeliverabilityEvent nowdb ws i db =
     (if list_ex (\<lambda>d. de_ws d = ws \<and> de_provider_event_id d = ei_provider_event_id i) (gd_events db)
      then (0, db)
      else
        let owned = (case ei_send i of
                       None \<Rightarrow> None
                     | Some sid \<Rightarrow> map_option sd_id (select_one (\<lambda>s. sd_id s = sid \<and> sd_ws s = ws)
                                    (db_sends (jd_core (gd_jobs db)))))
        in (1, db\<lparr>gd_events := gd_events db @ [\<lparr>de_ws = ws, de_kind = ei_kind i, de_email = ei_email i,
                 de_send = owned, de_provider_event_id = ei_provider_event_id i,
                 de_bounce_class = ei_bounce_class i, de_received_at = nowdb\<rparr>]\<rparr>))"

definition GetSendCampaign :: "uuid \<Rightarrow> uuid \<Rightarrow> guard_db \<Rightarrow> uuid option" where
  "GetSendCampaign ws sid db =
     map_option sd_campaign (select_one (\<lambda>s. sd_id s = sid \<and> sd_ws s = ws) (db_sends (jd_core (gd_jobs db))))"

definition AddSuppression :: "(string \<Rightarrow> string) \<Rightarrow> uuid \<Rightarrow> string \<Rightarrow> guard_db \<Rightarrow> guard_db" where
  "AddSuppression sql_lower ws email db =
     (if list_ex (\<lambda>(w, e). w = ws \<and> sql_lower e = sql_lower email) (jd_suppression (gd_jobs db)) then db
      else db\<lparr>gd_jobs := (gd_jobs db)\<lparr>jd_suppression := jd_suppression (gd_jobs db) @ [(ws, email)]\<rparr>\<rparr>)"

definition SendCampaign :: "faults \<Rightarrow> uuid \<Rightarrow> uuid \<Rightarrow> guard_db \<Rightarrow> guard_error + uuid" where
  "SendCampaign flt ws sid db =
     and_then (attempt flt ''GetSendCampaign'' (GetSendCampaign ws sid db))
       (\<lambda>r. case r of None \<Rightarrow> Inl ErrNotFound | Some c \<Rightarrow> Inr c)"

text \<open>Best effort: whatever fails, the request does not.\<close>

definition evaluateAfterIngest ::
  "guard_env \<Rightarrow> faults \<Rightarrow> instant \<Rightarrow> instant \<Rightarrow> uuid \<Rightarrow> EventInput \<Rightarrow> guard_db \<Rightarrow> guard_db" where
  "evaluateAfterIngest E flt now nowdb ws i db =
     (case ei_send i of
        None \<Rightarrow> db
      | Some sid \<Rightarrow>
          (case SendCampaign flt ws sid db of
             Inl e \<Rightarrow> db
           | Inr c \<Rightarrow> snd (EvaluateBreaker E flt now nowdb ws c db)))"

definition normal_input :: "text_lib \<Rightarrow> EventInput \<Rightarrow> EventInput" where
  "normal_input X i =
     i\<lparr>ei_kind := ToLower X (TrimSpace (ei_kind i)), ei_email := TrimSpace (ei_email i),
       ei_provider_event_id := TrimSpace (ei_provider_event_id i)\<rparr>"

record IngestResult = ir_duplicate :: bool

definition Ingest ::
  "guard_env \<Rightarrow> faults \<Rightarrow> instant \<Rightarrow> instant \<Rightarrow> uuid \<Rightarrow> EventInput \<Rightarrow> guard_db
     \<Rightarrow> (guard_error + IngestResult) \<times> guard_db" where
  "Ingest E flt now nowdb ws i0 db =
     (let i1 = normal_input (ge_text E) i0 in
      if ei_kind i1 \<noteq> EventKindComplaint \<and> ei_kind i1 \<noteq> EventKindBounce then (Inl ErrInvalid, db)
      else if ei_email i1 = [] then (Inl ErrInvalid, db)
      else if ei_provider_event_id i1 = [] then (Inl ErrInvalid, db)
      else
        (case resolveBounceClass (ge_text E) (ei_kind i1) (ei_bounce_class i1) of
           None \<Rightarrow> (Inl ErrInvalid, db)
         | Some cls \<Rightarrow>
             let i = i1\<lparr>ei_bounce_class := cls\<rparr> in
             (case attempt flt ''InsertDeliverabilityEvent'' (InsertDeliverabilityEvent nowdb ws i db) of
                Inl e \<Rightarrow> (Inl e, db)
              | Inr (n, db1) \<Rightarrow>
                  if n = 0 then (Inr \<lparr>ir_duplicate = True\<rparr>, db1)
                  else if ei_kind i = EventKindComplaint then
                    (case attempt flt ''AddSuppression'' (AddSuppression (ge_sql_lower E) ws (ei_email i) db1) of
                       Inl e \<Rightarrow> (Inl e, db1)
                     | Inr db2 \<Rightarrow> (Inr \<lparr>ir_duplicate = False\<rparr>, evaluateAfterIngest E flt now nowdb ws i db2))
                  else (Inr \<lparr>ir_duplicate = False\<rparr>, evaluateAfterIngest E flt now nowdb ws i db1))))"

end
