(* ===== verification/Breaker_Facts.thy ===== *)
theory Breaker_Facts
  imports Breaker_Service Job_Facts
begin

text \<open>
  When the breaker pauses and what a pause stops: it pauses exactly when the rates of supervised, recent
  evidence reach a threshold, the pause is recorded with the numbers that caused it or not made at all,
  and a paused campaign builds no job that sends. Further, that a reported complaint is honoured by every later job and counted once, and
  the one way it can be lost.
\<close>

subsection \<open>Reading one assessment\<close>

lemma attempt_Inr: "attempt flt stmt x = Inr y \<longleftrightarrow> flt stmt = None \<and> x = y"
  by (simp add: attempt_def split: option.split)

lemma later_ge: "a \<le> later a b" "b \<le> later a b"
  by (simp_all add: later_def)

lemma LatestCampaignPauseAt_ge:
  assumes "p \<in> set (gd_pauses db)" "pr_ws p = ws" "pr_campaign p = c"
  shows "\<exists>t. LatestCampaignPauseAt ws c db = Some t \<and> pr_created_at p \<le> t"
proof -
  define ts where "ts = map pr_created_at (filter (\<lambda>p. pr_ws p = ws \<and> pr_campaign p = c) (gd_pauses db))"
  have "pr_created_at p \<in> set ts" using assms by (simp add: ts_def)
  then obtain u us where "ts = u # us" by (cases ts) auto
  moreover from this have "pr_created_at p \<le> fold max us u"
    using \<open>pr_created_at p \<in> set ts\<close> by (intro fold_max_ge) auto
  ultimately show ?thesis by (simp add: LatestCampaignPauseAt_def flip: ts_def)
qed

text \<open>The instant from which a campaign may be judged: supervision and, while it runs, its last automatic
  pause lie before it.\<close>

definition supervised_since :: "uuid \<Rightarrow> uuid \<Rightarrow> campaign \<Rightarrow> guard_db \<Rightarrow> instant \<Rightarrow> bool" where
  "supervised_since ws c cam db t \<longleftrightarrow>
     cm_guardrails_enabled_at cam \<le> t
     \<and> (cm_status cam = StatusRunning \<longrightarrow>
          (\<forall>p \<in> set (gd_pauses db). pr_ws p = ws \<and> pr_campaign p = c \<longrightarrow> pr_created_at p \<le> t))"

text \<open>The instant the evidence of an evaluation starts at: seven days ago or the start of supervision,
  whichever is later; all of supervision when the seven days hold fewer than 50 deliveries and it
  holds more. For a running campaign supervision starts again at its last automatic pause.\<close>

definition supervision :: "uuid \<Rightarrow> uuid \<Rightarrow> campaign \<Rightarrow> guard_db \<Rightarrow> instant" where
  "supervision ws c cam db =
     (if cm_status cam = StatusRunning
      then later (cm_guardrails_enabled_at cam)
             (case LatestCampaignPauseAt ws c db of None \<Rightarrow> 0 | Some t \<Rightarrow> t)
      else cm_guardrails_enabled_at cam)"

definition judged_from :: "guard_env \<Rightarrow> instant \<Rightarrow> uuid \<Rightarrow> uuid \<Rightarrow> campaign \<Rightarrow> guard_db \<Rightarrow> instant" where
  "judged_from E now ws c cam db =
     (let start = supervision ws c cam db;
          rolling = later (add_days (ge_local E) now (- 7)) start;
          sample = (\<lambda>t. n_delivered (GetCampaignDeliverabilityCounts ws c t db))
      in if sample rolling < 50 \<and> start < rolling \<and> sample rolling < sample start then start else rolling)"

text \<open>So the evidence is of the last seven days, or these hold fewer than 50 deliveries.\<close>

lemma judged_recent:
  "add_days (ge_local E) now (- 7) \<le> judged_from E now ws c cam db
     \<or> n_delivered (GetCampaignDeliverabilityCounts ws c (add_days (ge_local E) now (- 7)) db) < 50"
  by (auto simp: judged_from_def Let_def later_def)

lemma judged_supervised: "supervised_since ws c cam db (judged_from E now ws c cam db)"
proof -
  have "supervision ws c cam db \<le> judged_from E now ws c cam db"
    by (simp add: judged_from_def Let_def later_def)
  moreover have "pr_created_at p \<le> supervision ws c cam db"
    if "cm_status cam = StatusRunning" "p \<in> set (gd_pauses db)" "pr_ws p = ws" "pr_campaign p = c" for p
    using LatestCampaignPauseAt_ge [OF that(2-)] that(1) by (auto simp: supervision_def later_def)
  moreover have "cm_guardrails_enabled_at cam \<le> supervision ws c cam db"
    by (simp add: supervision_def later_def)
  ultimately show ?thesis by (fastforce simp: supervised_since_def)
qed

lemma judged_config:
  assumes "CampaignConfigOf flt ws c db = Inr cfg"
  obtains cam where "GetCampaignGuardrails ws c db = Some cam" "cf_status cfg = cm_status cam"
    "cf_enabled_at cfg = cm_guardrails_enabled_at cam"
    "cf_guardrails cfg = \<lparr>gr_auto_pause = cm_auto_pause_enabled cam,
       gr_bounce_pct = cm_bounce_pause_pct cam, gr_complaint_pct = cm_complaint_pause_pct cam\<rparr>"
  using assms by (auto simp: CampaignConfigOf_def and_then_Inr attempt_Inr split: option.splits)

lemma evidence_floor_supervision:
  "evidence_floor flt ws c cfg db = Inr t \<Longrightarrow> cf_status cfg = cm_status cam \<Longrightarrow>
     cf_enabled_at cfg = cm_guardrails_enabled_at cam \<Longrightarrow> t = supervision ws c cam db"
  by (auto simp: evidence_floor_def supervision_def LastPausedAt_def and_then_Inr attempt_Inr split: if_splits)

lemma gather_judged:
  "gather flt ws c (supervision ws c cam db)
       (later (add_days (ge_local E) now (- WindowDays)) (supervision ws c cam db)) db = Inr (n, since) \<Longrightarrow>
     since = judged_from E now ws c cam db \<and> n = GetCampaignDeliverabilityCounts ws c since db"
  by (auto simp: gather_def judged_from_def Let_def and_then_Inr attempt_Inr MinDelivered_def WindowDays_def
      split: if_splits)

lemma assessCampaign_cases:
  assumes "assessCampaign E flt now ws c db = Inr a"
  obtains cam sig where "GetCampaignGuardrails ws c db = Some cam" "as_status a = cm_status cam"
    "as_guardrails a = \<lparr>gr_auto_pause = cm_auto_pause_enabled cam, gr_bounce_pct = cm_bounce_pause_pct cam,
       gr_complaint_pct = cm_complaint_pause_pct cam\<rparr>"
    "as_since a = judged_from E now ws c cam db"
    "as_inputs a = toInputs (GetCampaignDeliverabilityCounts ws c (as_since a) db) sig"
    "as_score a = Compute (as_inputs a)"
    "as_verdict a = Breach (as_inputs a) (thresholds_of (as_guardrails a))"
proof -
  obtain cfg where cfg: "CampaignConfigOf flt ws c db = Inr cfg"
    using assms by (auto simp: assessCampaign_def and_then_Inr)
  obtain t where t: "evidence_floor flt ws c cfg db = Inr t"
    using assms cfg by (auto simp: assessCampaign_def and_then_Inr)
  obtain n since sig where g: "gather flt ws c t (later (add_days (ge_local E) now (- WindowDays)) t) db = Inr (n, since)"
    "a = assessed cfg n sig since"
    using assms cfg t by (auto simp: assessCampaign_def and_then_Inr split: prod.splits)
  obtain cam where cam: "GetCampaignGuardrails ws c db = Some cam" "cf_status cfg = cm_status cam"
    "cf_enabled_at cfg = cm_guardrails_enabled_at cam"
    "cf_guardrails cfg = \<lparr>gr_auto_pause = cm_auto_pause_enabled cam,
       gr_bounce_pct = cm_bounce_pause_pct cam, gr_complaint_pct = cm_complaint_pause_pct cam\<rparr>"
    by (rule judged_config [OF cfg])
  have "since = judged_from E now ws c cam db \<and> n = GetCampaignDeliverabilityCounts ws c since db"
    using gather_judged g(1) unfolding evidence_floor_supervision [OF t cam(2,3)] by blast
  with that [of cam sig] cam g(2) show thesis by (simp add: assessed_def Let_def)
qed

text \<open>With no failing statement every campaign of the workspace is assessed.\<close>

lemma assessCampaign_runs:
  assumes "\<forall>stmt. flt stmt = None" and "GetCampaignGuardrails ws c db = Some cam"
  shows "\<exists>a. assessCampaign E flt now ws c db = Inr a"
  using assms
  by (simp add: assessCampaign_def CampaignConfigOf_def evidence_floor_def LastPausedAt_def gather_def attempt_def
      and_then_def Let_def split: if_splits prod.splits)

subsection \<open>A pause and its record\<close>

text \<open>The database after a pause: the running rows of the campaign are paused and one row says why.\<close>

definition paused_db :: "uuid \<Rightarrow> uuid \<Rightarrow> pause_row \<Rightarrow> guard_db \<Rightarrow> guard_db" where
  "paused_db ws c p db =
     (snd (PauseCampaignForBreach ws c db))\<lparr>gd_pauses := gd_pauses db @ [p]\<rparr>"

lemma PauseForBreach_cases:
  assumes "PauseForBreach E flt nowdb ws c ev db = (r, db')"
  obtains (failed) e where "r = Inl e" "db' = db"
  | (idle) "r = Inr False" "db' = db"
  | (paused) "r = Inr True" "db' = paused_db ws c (pause_row_of (ge_numeric E) nowdb ws c ev) db"
      "pause_row_legal (pause_row_of (ge_numeric E) nowdb ws c ev)"
      "GetCampaignGuardrails ws c db \<noteq> None"
proof -
  have some: "GetCampaignGuardrails ws c db \<noteq> None"
    if "count_where (running_row ws c) (jd_campaigns (gd_jobs db)) \<noteq> 0"
  proof -
    from that obtain r where "r \<in> set (jd_campaigns (gd_jobs db))" "running_row ws c r"
      by (auto simp: count_where_def filter_empty_conv)
    then show ?thesis by (auto simp: GetCampaignGuardrails_def select_one_None_iff running_row_def)
  qed
  have gd: "gd_pauses (snd (PauseCampaignForBreach ws c db)) = gd_pauses db"
    by (simp add: PauseCampaignForBreach_def on_campaigns_def)
  show thesis
    using assms failed idle paused some gd
    by (auto simp: PauseForBreach_def and_then_def attempt_def InsertCampaignPauseEvent_def paused_db_def
        PauseCampaignForBreach_def split: option.splits if_splits sum.splits)
qed

lemma EvaluateBreaker_cases:
  assumes "EvaluateBreaker E flt now nowdb ws c db = (r, db')"
  obtains (unmoved) "db' = db" "\<And>q. r = Inr q \<Longrightarrow> \<not> bo_paused q"
  | (paused) a where "r = Inr \<lparr>bo_verdict = as_verdict a, bo_paused = True\<rparr>"
      "assessCampaign E flt now ws c db = Inr a" "gr_auto_pause (as_guardrails a)"
      "v_state (as_verdict a) = VerdictPause" "as_status a = StatusRunning"
      "db' = paused_db ws c (pause_row_of (ge_numeric E) nowdb ws c (pause_event (as_verdict a))) db"
proof (cases "assessCampaign E flt now ws c db")
  case (Inl e)
  with assms have "r = Inl e" "db' = db" by (auto simp: EvaluateBreaker_def)
  then show ?thesis using unmoved by simp
next
  case (Inr a)
  obtain q db1 where q: "PauseForBreach E flt nowdb ws c (pause_event (as_verdict a)) db = (q, db1)" by fastforce
  show ?thesis
  proof (cases "\<not> gr_auto_pause (as_guardrails a) \<or> v_state (as_verdict a) \<noteq> VerdictPause
      \<or> as_status a \<noteq> StatusRunning")
    case True
    with Inr assms unmoved show ?thesis by (auto simp: EvaluateBreaker_def)
  next
    case False
    with Inr assms q have r: "r = map_sum id (\<lambda>b. \<lparr>bo_verdict = as_verdict a, bo_paused = b\<rparr>) q" "db' = db1"
      by (auto simp: EvaluateBreaker_def split: sum.splits)
    from q show ?thesis
    proof (cases rule: PauseForBreach_cases)
      case fired: paused
      with r False Inr that(2) show ?thesis by simp
    qed (use r unmoved in auto)
  qed
qed

lemma paused_db_frame:
  "gd_pauses (paused_db ws c p db) = gd_pauses db @ [p]"
  "gd_events (paused_db ws c p db) = gd_events db"
  "jd_core (gd_jobs (paused_db ws c p db)) = jd_core (gd_jobs db)"
  "jd_campaigns (gd_jobs (paused_db ws c p db))
     = update_where (running_row ws c) (\<lambda>r. r\<lparr>cm_status := ''paused''\<rparr>) (jd_campaigns (gd_jobs db))"
  by (simp_all add: paused_db_def PauseCampaignForBreach_def on_campaigns_def)

text \<open>After a pause the campaign runs nowhere in the table.\<close>

lemma paused_db_stopped:
  assumes "r \<in> set (jd_campaigns (gd_jobs (paused_db ws c p db)))" and "is_campaign ws c r"
  shows "cm_status r \<noteq> StatusRunning"
proof -
  obtain q where q: "r = (if running_row ws c q then q\<lparr>cm_status := ''paused''\<rparr> else q)"
    using assms(1) by (auto simp: paused_db_frame in_update_where)
  show ?thesis
  proof (cases "running_row ws c q")
    case True
    then show ?thesis by (simp add: q StatusRunning_def)
  next
    case False
    then have "r = q" by (simp add: q)
    with assms(2) False show ?thesis by (simp add: running_row_def StatusRunning_def)
  qed
qed

text \<open>The numbers of a verdict that stops a campaign: which rate, over which sample, against which
  threshold.\<close>

definition breached_by :: "campaign \<Rightarrow> Counts \<Rightarrow> Verdict \<Rightarrow> bool" where
  "breached_by cam n v \<longleftrightarrow>
     50 \<le> n_delivered n \<and> v_delivered v = n_delivered n
     \<and> 0 < fval (v_threshold v) \<and> fval (v_threshold v) \<le> fval (v_value v)
     \<and> (v_reason v = ReasonBounceSpike \<and> v_value v = Rate (n_bounced n) (n_delivered n)
          \<and> v_threshold v = positive_or (cm_bounce_pause_pct cam) DefaultBouncePausePct
        \<or> v_reason v = ReasonComplaintSpike \<and> n_complaint_feed n
          \<and> v_value v = Rate (n_complained n) (n_delivered n)
          \<and> v_threshold v = positive_or (cm_complaint_pause_pct cam) DefaultComplaintPausePct)"

lemma paused_verdict:
  assumes "v_state (Breach (toInputs n sig) (thresholds_of g)) = VerdictPause"
    and "gr_bounce_pct g = cm_bounce_pause_pct cam" "gr_complaint_pct g = cm_complaint_pause_pct cam"
  shows "breached_by cam n (Breach (toInputs n sig) (thresholds_of g))"
proof -
  have th: "normalized (thresholds_of g) = \<lparr>th_bounce = positive_or (cm_bounce_pause_pct cam) DefaultBouncePausePct,
      th_complaint = positive_or (cm_complaint_pause_pct cam) DefaultComplaintPausePct, th_min_delivered = 50\<rparr>"
    by (simp add: thresholds_of_def assms(2,3) normalized_def MinDelivered_def)
  note vis = stop_is_visible [OF assms(1), unfolded th, simplified]
  from assms(1) vis show ?thesis
    by (cases rule: Breach_pause)
      (auto simp: breached_by_def breached_def th toInputs_def split: if_splits)
qed

text \<open>When the breaker ought to act, on a count of the evidence.\<close>

definition over_threshold :: "campaign \<Rightarrow> Counts \<Rightarrow> bool" where
  "over_threshold cam n \<longleftrightarrow>
     50 \<le> n_delivered n
     \<and> (fval (positive_or (cm_bounce_pause_pct cam) DefaultBouncePausePct) \<le> fval (Rate (n_bounced n) (n_delivered n))
        \<or> n_complaint_feed n
          \<and> fval (positive_or (cm_complaint_pause_pct cam) DefaultComplaintPausePct)
              \<le> fval (Rate (n_complained n) (n_delivered n)))"

definition breaker_due :: "campaign \<Rightarrow> Counts \<Rightarrow> bool" where
  "breaker_due cam n \<longleftrightarrow> cm_status cam = StatusRunning \<and> cm_auto_pause_enabled cam \<and> over_threshold cam n"

definition fired :: "guard_error + BreakerOutcome \<Rightarrow> bool" where
  "fired r = (case r of Inl e \<Rightarrow> False | Inr q \<Rightarrow> bo_paused q)"

lemma breached_over: "breached_by cam n v \<Longrightarrow> over_threshold cam n"
  by (auto simp: breached_by_def over_threshold_def)

lemma over_pauses:
  assumes "over_threshold cam n" and "gr_bounce_pct g = cm_bounce_pause_pct cam"
    "gr_complaint_pct g = cm_complaint_pause_pct cam"
  shows "v_state (Breach (toInputs n sig) (thresholds_of g)) = VerdictPause"
  using assms
  by (auto simp: over_threshold_def Breach_def Let_def normalized_def thresholds_of_def toInputs_def breached_def
      f_le_iff MinDelivered_def)

text \<open>A conversion to NUMERIC and back keeps the sign of a number.\<close>

definition numeric_keeps_sign :: "(float64 \<Rightarrow> float64) \<Rightarrow> bool" where
  "numeric_keeps_sign numeric \<longleftrightarrow>
     (\<forall>x. (0 \<le> fval x \<longrightarrow> 0 \<le> fval (numeric x)) \<and> (0 < fval x \<longrightarrow> 0 < fval (numeric x)))"

lemma paused_row_legal:
  assumes "v_state (Breach (toInputs n sig) (thresholds_of g)) = VerdictPause" and "numeric_keeps_sign numeric"
    and "n_delivered n < 2 ^ 31"
  shows "pause_row_legal (pause_row_of numeric nowdb ws c (pause_event (Breach (toInputs n sig) (thresholds_of g))))"
proof -
  let ?v = "Breach (toInputs n sig) (thresholds_of g)"
  note vis = stop_is_visible [OF assms(1)]
  have names: "v_reason ?v \<in> {''bounce_spike'', ''complaint_spike''} \<and> v_metric ?v \<in> {''bounce_rate'', ''complaint_rate''}"
    using assms(1) by (cases rule: Breach_pause) (simp_all add: breached_def const_defs)
  have "v_delivered ?v = n_delivered n"
    using assms(1) by (cases rule: Breach_pause) (simp_all add: breached_def toInputs_def)
  then have "wrap32 (v_delivered ?v) = n_delivered n" "0 < n_delivered n"
    using vis assms(3) by (auto simp: wrap32_id int32_def)
  with names vis assms(2) show ?thesis
    by (auto simp: pause_row_legal_def pause_row_of_def pause_event_def f_le_iff f_less_iff numeric_keeps_sign_def)
qed

lemma PauseForBreach_fires:
  assumes "\<forall>stmt. flt stmt = None" and "GetCampaignGuardrails ws c db = Some cam" "cm_status cam = StatusRunning"
    and "pause_row_legal (pause_row_of (ge_numeric E) nowdb ws c ev)"
  shows "fst (PauseForBreach E flt nowdb ws c ev db) = Inr True"
proof -
  have "running_row ws c cam" "cam \<in> set (jd_campaigns (gd_jobs db))"
    using assms(2,3) by (auto simp: GetCampaignGuardrails_def running_row_def StatusRunning_def dest: select_one_SomeD)
  then have "fst (PauseCampaignForBreach ws c db) \<noteq> 0"
    by (auto simp: PauseCampaignForBreach_def count_where_def filter_empty_conv)
  with assms(1,4) show ?thesis
    by (auto simp: PauseForBreach_def attempt_def and_then_def InsertCampaignPauseEvent_def split: prod.splits)
qed

lemma n_delivered_sends:
  "n_delivered (GetCampaignDeliverabilityCounts ws c t db) \<le> int (length (db_sends (jd_core (gd_jobs db))))"
  by (simp add: GetCampaignDeliverabilityCounts_def Let_def count_where_def)

lemma assessed_for:
  assumes "assessCampaign E flt now ws c db = Inr a" and "GetCampaignGuardrails ws c db = Some cam"
    and "n = GetCampaignDeliverabilityCounts ws c (judged_from E now ws c cam db) db"
  obtains sig where "as_status a = cm_status cam" "gr_auto_pause (as_guardrails a) = cm_auto_pause_enabled cam"
    "gr_bounce_pct (as_guardrails a) = cm_bounce_pause_pct cam"
    "gr_complaint_pct (as_guardrails a) = cm_complaint_pause_pct cam"
    "as_score a = Compute (toInputs n sig)"
    "as_verdict a = Breach (toInputs n sig) (thresholds_of (as_guardrails a))"
  using assms(1)
proof (cases rule: assessCampaign_cases)
  case (1 cam' sig)
  then show ?thesis using that [of sig] assms(2,3) by simp
qed

lemma due_breaker_fires:
  assumes "EvaluateBreaker E flt now nowdb ws c db = (r, db')" and "\<forall>stmt. flt stmt = None"
    and "GetCampaignGuardrails ws c db = Some cam" and "numeric_keeps_sign (ge_numeric E)"
    and "int (length (db_sends (jd_core (gd_jobs db)))) < 2 ^ 31"
    and n: "n = GetCampaignDeliverabilityCounts ws c (judged_from E now ws c cam db) db" and "breaker_due cam n"
  shows "fired r"
proof -
  obtain a where a: "assessCampaign E flt now ws c db = Inr a"
    using assessCampaign_runs [OF assms(2,3)] by blast
  then obtain sig where st: "as_status a = cm_status cam" "gr_auto_pause (as_guardrails a) = cm_auto_pause_enabled cam"
    and g: "gr_bounce_pct (as_guardrails a) = cm_bounce_pause_pct cam"
      "gr_complaint_pct (as_guardrails a) = cm_complaint_pause_pct cam"
    and v: "as_verdict a = Breach (toInputs n sig) (thresholds_of (as_guardrails a))"
    by (rule assessed_for [OF _ assms(3) n])
  have due: "cm_status cam = StatusRunning" "cm_auto_pause_enabled cam" "over_threshold cam n"
    using assms(7) by (simp_all add: breaker_due_def)
  note pause = over_pauses [OF due(3) g, of sig]
  have "n_delivered n < 2 ^ 31" using n_delivered_sends assms(5) unfolding n by (rule order_le_less_trans)
  from paused_row_legal [OF pause assms(4) this]
  have "fst (PauseForBreach E flt nowdb ws c (pause_event (as_verdict a)) db) = Inr True"
    unfolding v by (rule PauseForBreach_fires [OF assms(2,3) due(1)])
  with assms(1) a st due pause v show ?thesis
    by (auto simp: EvaluateBreaker_def fired_def split: prod.splits sum.splits)
qed

lemma fired_breaker_due:
  assumes "assessCampaign E flt now ws c db = Inr a" and "v_state (as_verdict a) = VerdictPause"
    and "gr_auto_pause (as_guardrails a)" "as_status a = StatusRunning"
    and "GetCampaignGuardrails ws c db = Some cam"
    and n: "n = GetCampaignDeliverabilityCounts ws c (judged_from E now ws c cam db) db"
  shows "breaker_due cam n \<and> breached_by cam n (as_verdict a)
     \<and> (\<exists>k \<in> set (hs_components (as_score a)). c_measured k \<and> c_rate k = Some (v_value (as_verdict a)))"
proof -
  from assms(1) obtain sig where a: "as_status a = cm_status cam"
    "gr_auto_pause (as_guardrails a) = cm_auto_pause_enabled cam"
    "gr_bounce_pct (as_guardrails a) = cm_bounce_pause_pct cam"
    "gr_complaint_pct (as_guardrails a) = cm_complaint_pause_pct cam"
    "as_score a = Compute (toInputs n sig)"
    "as_verdict a = Breach (toInputs n sig) (thresholds_of (as_guardrails a))"
    by (rule assessed_for [OF _ assms(5) n])
  have pz: "v_state (Breach (toInputs n sig) (thresholds_of (as_guardrails a))) = VerdictPause"
    using assms(2) a(6) by simp
  from paused_verdict [OF pz a(3,4)] breached_over paused_component [OF pz] a assms(3,4) show ?thesis
    by (auto simp: breaker_due_def)
qed

text \<open>C25: The breaker stops a campaign exactly when it is due, and says why. It is due for a running campaign
  with auto-pause on whose bounce rate or, with a complaint feed, complaint rate has reached its threshold
  over at least 50 deliveries; these count from the instant \<open>judged_from\<close>, after supervision began and
  after the last automatic pause, and not before the last seven days unless those hold fewer than 50. When
  no statement fails an evaluation pauses if and only if the breaker is due; when one fails it may also
  pause nothing. A pause stops exactly that campaign and adds one row with the rate, the threshold and the
  sample, and the score reported from the same evidence shows a measured component with that rate;
  otherwise nothing is written. No failure leaves a pause without its row. Taken for granted are a table
  of fewer than \<open>2 ^ 31\<close> sends, so that the sample fits its column, and that NUMERIC keeps signs.\<close>

theorem breaker_pauses_exactly:
  assumes "EvaluateBreaker E flt now nowdb ws c db = (r, db')"
    and "GetCampaignGuardrails ws c db = Some cam"
    and "numeric_keeps_sign (ge_numeric E)" and "int (length (db_sends (jd_core (gd_jobs db)))) < 2 ^ 31"
    and "n = GetCampaignDeliverabilityCounts ws c (judged_from E now ws c cam db) db"
  shows "(fired r \<longrightarrow> breaker_due cam n) \<and> ((\<forall>stmt. flt stmt = None) \<longrightarrow> fired r = breaker_due cam n)
   \<and> (if fired r
      then \<exists>a. r = Inr \<lparr>bo_verdict = as_verdict a, bo_paused = True\<rparr> \<and> assessCampaign E flt now ws c db = Inr a
        \<and> breached_by cam n (as_verdict a)
        \<and> (\<exists>k \<in> set (hs_components (as_score a)). c_measured k \<and> c_rate k = Some (v_value (as_verdict a)))
        \<and> db' = paused_db ws c (pause_row_of (ge_numeric E) nowdb ws c (pause_event (as_verdict a))) db
      else db' = db)
   \<and> supervised_since ws c cam db (judged_from E now ws c cam db)
   \<and> (add_days (ge_local E) now (- 7) \<le> judged_from E now ws c cam db
      \<or> n_delivered (GetCampaignDeliverabilityCounts ws c (add_days (ge_local E) now (- 7)) db) < 50)"
  using assms(1)
proof (cases rule: EvaluateBreaker_cases)
  case unmoved
  then have "\<not> fired r" by (auto simp: fired_def split: sum.splits)
  with due_breaker_fires [OF assms(1) _ assms(2-5)] unmoved(1) judged_supervised judged_recent show ?thesis by auto
next
  case (paused a)
  then have "fired r" by (simp add: fired_def)
  with fired_breaker_due [OF paused(2,4,3,5) assms(2,5)] paused(1,2,6) judged_supervised judged_recent
  show ?thesis by auto
qed

subsection \<open>A stopped campaign sends nothing\<close>

text \<open>No build for an enrollment of a campaign that does not run gives a job the worker sends.\<close>

lemma stopped_is_inert:
  assumes "localStepSendJob J flt now nowdb enrollmentID workspaceID db = (Inr j, db')"
    and "uuid_Parse (je_lib J) enrollmentID = Some eid" "uuid_Parse (je_lib J) workspaceID = Some ws"
    and "GetStepEnrollmentBundle eid ws db = Some b"
    and "cm_status (b_campaign b) \<noteq> StatusRunning"
  shows "inert j \<and> unpinned_still db db'"
  using assms(1)
proof (cases rule: localStepSendJob_cases)
  case (built eid' ws' b' step route sn sender sa)
  then have "b' = b" using assms(2-4) by simp
  with stepGates_open(1) [OF built(7)] assms(5) show ?thesis by simp
qed simp

text \<open>Campaigns are keyed by id, and an enrollment is in the workspace of its campaign.\<close>

definition tenant_tables :: "job_db \<Rightarrow> bool" where
  "tenant_tables db \<longleftrightarrow>
     (\<forall>e \<in> set (db_enrollments (jd_core db)). \<forall>r \<in> set (jd_campaigns db).
        cm_id r = en_campaign e \<longrightarrow> cm_ws r = en_ws e)"

lemma tenant_tables_paused: "tenant_tables (gd_jobs db) \<Longrightarrow> tenant_tables (gd_jobs (paused_db ws c p db))"
  by (auto simp: tenant_tables_def paused_db_frame in_update_where split: if_splits)

text \<open>C26: A stop takes effect at once. After an evaluation that paused a campaign, every build of a step job
  for an enrollment of it, whichever worker runs it and whatever fails on the way, gives a job the
  worker does not send, and leaves no mailbox pinned.\<close>

theorem breaker_stops_sending:
  assumes "EvaluateBreaker E flt now nowdb ws c db = (Inr q, db')" and "bo_paused q"
    and "tenant_tables (gd_jobs db)"
    and "uuid_Parse (je_lib J) enrollmentID = Some eid" "uuid_Parse (je_lib J) workspaceID = Some ws"
    and "GetStepEnrollmentBundle eid ws (gd_jobs db') = Some b" "cm_id (b_campaign b) = c"
    and "localStepSendJob J flt' now' nowdb' enrollmentID workspaceID (gd_jobs db') = (Inr j, jobs')"
  shows "inert j \<and> unpinned_still (gd_jobs db') jobs'"
proof -
  from assms(1,2) obtain p where p: "db' = paused_db ws c p db"
    by (cases rule: EvaluateBreaker_cases) auto
  note row = bundle_row [OF assms(6)]
  have "cm_ws (b_campaign b) = en_ws (b_enrollment b)"
    using tenant_tables_paused [OF assms(3), of ws c p] row(1,3,5) by (simp add: tenant_tables_def p)
  then have "is_campaign ws c (b_campaign b)" using row(2) assms(7) by (simp add: is_campaign_def is_row_def)
  with row(5) have "cm_status (b_campaign b) \<noteq> StatusRunning" using paused_db_stopped p by blast
  from stopped_is_inert [OF assms(8,4,5,6) this] show ?thesis .
qed

subsection \<open>Reported complaints\<close>

lemma EvaluateBreaker_frame:
  assumes "EvaluateBreaker E flt now nowdb ws c db = (r, db')"
  shows "gd_events db' = gd_events db \<and> jd_suppression (gd_jobs db') = jd_suppression (gd_jobs db)
    \<and> jd_core (gd_jobs db') = jd_core (gd_jobs db)"
  using assms
  by (cases rule: EvaluateBreaker_cases) (simp_all add: paused_db_def PauseCampaignForBreach_def on_campaigns_def)

lemma evaluateAfterIngest_frame:
  "gd_events (evaluateAfterIngest E flt now nowdb ws i db) = gd_events db
   \<and> jd_suppression (gd_jobs (evaluateAfterIngest E flt now nowdb ws i db)) = jd_suppression (gd_jobs db)"
  using EvaluateBreaker_frame [OF surjective_pairing, of E flt now nowdb ws _ db]
  by (simp add: evaluateAfterIngest_def split: option.splits sum.splits)

text \<open>Whether an event of this provider id has been recorded.\<close>

definition seen :: "uuid \<Rightarrow> string \<Rightarrow> guard_db \<Rightarrow> bool" where
  "seen ws pid db \<longleftrightarrow> (\<exists>d \<in> set (gd_events db). de_ws d = ws \<and> de_provider_event_id d = pid)"

definition honoured :: "guard_env \<Rightarrow> uuid \<Rightarrow> EventInput \<Rightarrow> guard_db \<Rightarrow> bool" where
  "honoured E ws i db \<longleftrightarrow> IsSuppressed (ge_sql_lower E) ws (TrimSpace (ei_email i)) (gd_jobs db)"

lemma InsertDeliverabilityEvent_seen:
  "seen ws (ei_provider_event_id i) db \<Longrightarrow> InsertDeliverabilityEvent nowdb ws i db = (0, db)"
  by (auto simp: InsertDeliverabilityEvent_def seen_def list_ex_iff)

lemma InsertDeliverabilityEvent_new:
  "\<not> seen ws (ei_provider_event_id i) db \<Longrightarrow>
     \<exists>db1. InsertDeliverabilityEvent nowdb ws i db = (1, db1) \<and> seen ws (ei_provider_event_id i) db1
       \<and> gd_jobs db1 = gd_jobs db"
  by (auto simp: InsertDeliverabilityEvent_def seen_def list_ex_iff Let_def)

lemma normal_input_fields [simp]:
  "ei_kind (normal_input X i) = ToLower X (TrimSpace (ei_kind i))"
  "ei_email (normal_input X i) = TrimSpace (ei_email i)"
  "ei_provider_event_id (normal_input X i) = TrimSpace (ei_provider_event_id i)"
  "ei_bounce_class (normal_input X i) = ei_bounce_class i"
  "ei_send (normal_input X i) = ei_send i"
  by (simp_all add: normal_input_def)

text \<open>An event that was recorded is never acted on again.\<close>

lemma Ingest_seen:
  assumes "Ingest E flt now nowdb ws i db = (r, db')" and "seen ws (TrimSpace (ei_provider_event_id i)) db"
  shows "db' = db \<and> (\<forall>q. r = Inr q \<longrightarrow> ir_duplicate q)"
proof -
  have "InsertDeliverabilityEvent nowdb ws (normal_input (ge_text E) i\<lparr>ei_bounce_class := cls\<rparr>) db = (0, db)" for cls
    using assms(2) by (intro InsertDeliverabilityEvent_seen) simp
  with assms(1) show ?thesis
    by (auto simp: Ingest_def attempt_def Let_def split: if_splits option.splits)
qed

lemma IsSuppressed_added: "IsSuppressed f ws email (gd_jobs (AddSuppression f ws email db))"
  by (auto simp: IsSuppressed_def AddSuppression_def list_ex_iff)

lemma complaint_taken:
  assumes "Ingest E flt now nowdb ws i db = (Inr q, db')" "\<not> ir_duplicate q"
    and "ToLower (ge_text E) (TrimSpace (ei_kind i)) = EventKindComplaint"
  shows "seen ws (TrimSpace (ei_provider_event_id i)) db' \<and> honoured E ws i db'"
proof -
  obtain cls where cls: "resolveBounceClass (ge_text E) EventKindComplaint (ei_bounce_class i) = Some cls"
    by (simp add: resolveBounceClass_def)
  define i1 where "i1 = normal_input (ge_text E) i\<lparr>ei_bounce_class := cls\<rparr>"
  have f: "ei_kind i1 = EventKindComplaint" "ei_email i1 = TrimSpace (ei_email i)"
    "ei_provider_event_id i1 = TrimSpace (ei_provider_event_id i)"
    using assms(3) by (simp_all add: i1_def)
  have new: "\<not> seen ws (ei_provider_event_id i1) db"
    using Ingest_seen [OF assms(1)] assms(2) by (auto simp: f)
  then obtain db1 where db1: "InsertDeliverabilityEvent nowdb ws i1 db = (1, db1)"
    "seen ws (ei_provider_event_id i1) db1" using InsertDeliverabilityEvent_new by blast
  have run: "db' = evaluateAfterIngest E flt now nowdb ws i1 (AddSuppression (ge_sql_lower E) ws (ei_email i1) db1)"
    using assms(1-3) cls db1(1) f(1)
    by (auto simp: Ingest_def Let_def attempt_def i1_def [symmetric] split: if_splits option.splits)
  have "gd_events (AddSuppression (ge_sql_lower E) ws (ei_email i1) db1) = gd_events db1"
    by (simp add: AddSuppression_def)
  with run db1(2) evaluateAfterIngest_frame [of E flt now nowdb ws i1] IsSuppressed_added [of "ge_sql_lower E" ws "ei_email i1" db1]
  show ?thesis by (auto simp: seen_def honoured_def f IsSuppressed_def)
qed

lemma resolveSender_suppression:
  assumes "resolveSender L X flt now nowdb ws eid b db = (r, db')"
  shows "jd_suppression db' = jd_suppression db"
proof (cases "en_mailbox (b_enrollment b) = None")
  case True
  with assms show ?thesis
  proof (cases rule: resolveSender_cases)
    case (claimed chosen pinned)
    from claimed(2) show ?thesis
      by (cases rule: claimEnrollmentSender_cases)
        (simp_all add: pinned_db_def BumpCampaignSenderAssignment_def on_core_def)
  qed simp_all
qed (use assms in \<open>simp add: resolveSender_pinned\<close>)

lemma sendable_suppressed:
  assumes "text_roundtrips (je_lib J)" and "uuid_Parse (je_lib J) workspaceID = Some ws"
    and "localStepSendJob J flt now nowdb enrollmentID workspaceID db = (Inr j, db')" and "\<not> inert j"
  shows "Suppressed j = IsSuppressed (je_sql_lower J) ws (ToEmail j) db"
  using assms(3)
proof (cases rule: localStepSendJob_cases)
  case (built eid ws' b step route sn sender sa)
  have "ws' = ws" "uuid_Parse (je_lib J) (uuid_String (je_lib J) ws) = Some ws"
    using assms(1,2) built(2) by (simp_all add: text_roundtrips_def)
  with built(10) have "sa_suppressed sa = IsSuppressed (je_sql_lower J) ws (ct_email (b_contact b)) db'"
    by (auto simp: stepAccess_def and_then_Inr localIsSuppressed_def query_Inr split: option.splits)
  with resolveSender_suppression [OF built(9)] show ?thesis by (simp add: built(11) IsSuppressed_def)
qed (use assms(4) in simp)

text \<open>C27: A complaint that was accepted is honoured and counted once. From then on every job built for
  that address in the workspace is marked suppressed, so the worker sends it nothing, and reporting
  the same event again, at whatever time and whatever fails, writes nothing and reports a duplicate.\<close>

theorem complaint_is_honoured:
  assumes "Ingest E flt now nowdb ws i db = (Inr q, db')" and "\<not> ir_duplicate q"
    and "ToLower (ge_text E) (TrimSpace (ei_kind i)) = EventKindComplaint"
    and "Ingest E flt1 now1 nowdb1 ws i db' = (r, db'')"
    and "je_sql_lower J = ge_sql_lower E" "text_roundtrips (je_lib J)" "uuid_Parse (je_lib J) workspaceID = Some ws"
    and "localStepSendJob J flt2 now2 nowdb2 enrollmentID workspaceID (gd_jobs db'') = (Inr j, jobs')"
    and "\<not> inert j" "ge_sql_lower E (ToEmail j) = ge_sql_lower E (TrimSpace (ei_email i))"
  shows "db'' = db' \<and> (\<forall>p. r = Inr p \<longrightarrow> ir_duplicate p) \<and> Suppressed j"
proof -
  note taken = complaint_taken [OF assms(1-3)]
  with Ingest_seen [OF assms(4)] have "db'' = db' \<and> (\<forall>p. r = Inr p \<longrightarrow> ir_duplicate p)" by blast
  moreover have "Suppressed j"
    using sendable_suppressed [OF assms(6-9)] taken calculation assms(5,10)
    by (simp add: honoured_def IsSuppressed_def)
  ultimately show ?thesis by blast
qed

text \<open>C28: A complaint can be lost. When the event is recorded and the suppression behind it fails, the
  caller is told of the failure, but the event stays: every retry is taken for a duplicate and writes
  nothing, so the address is never suppressed by it.\<close>

theorem failed_suppression_is_not_repaired:
  assumes "flt ''InsertDeliverabilityEvent'' = None" and "flt ''AddSuppression'' = Some e"
    and "ToLower (ge_text E) (TrimSpace (ei_kind i)) = EventKindComplaint"
    and "TrimSpace (ei_email i) \<noteq> []" and "TrimSpace (ei_provider_event_id i) \<noteq> []"
    and "\<not> seen ws (TrimSpace (ei_provider_event_id i)) db" and "\<not> honoured E ws i db"
    and "Ingest E flt now nowdb ws i db = (r, db')"
    and "Ingest E flt' now' nowdb' ws i db' = (r', db'')"
  shows "r = Inl (ErrStore e) \<and> db'' = db' \<and> (\<forall>q. r' = Inr q \<longrightarrow> ir_duplicate q) \<and> \<not> honoured E ws i db''"
proof -
  obtain cls where cls: "resolveBounceClass (ge_text E) EventKindComplaint (ei_bounce_class i) = Some cls"
    by (simp add: resolveBounceClass_def)
  define i1 where "i1 = normal_input (ge_text E) i\<lparr>ei_bounce_class := cls\<rparr>"
  have pid: "ei_provider_event_id i1 = TrimSpace (ei_provider_event_id i)" by (simp add: i1_def)
  obtain db1 where db1: "InsertDeliverabilityEvent nowdb ws i1 db = (1, db1)"
    "seen ws (TrimSpace (ei_provider_event_id i)) db1" "gd_jobs db1 = gd_jobs db"
    using InsertDeliverabilityEvent_new [of ws i1 db nowdb] assms(6) unfolding pid by blast
  have kind: "ei_kind i1 = EventKindComplaint" by (simp add: i1_def assms(3))
  have run: "r = Inl (ErrStore e)" "db' = db1"
    using assms(1-5,8) cls db1(1) kind
    by (auto simp: Ingest_def Let_def attempt_def i1_def [symmetric] split: if_splits option.splits)
  with Ingest_seen [OF assms(9)] db1(2,3) assms(7) show ?thesis by (simp add: honoured_def)
qed

subsection \<open>Witnesses\<close>

definition guard_env0 :: guard_env where
  "guard_env0 = \<lparr>ge_text = plain_text, ge_sql_lower = id, ge_numeric = id, ge_local = UTC\<rparr>"

text \<open>Fifty deliveries, five of them bounced.\<close>

definition guard_send :: "uuid \<Rightarrow> send" where
  "guard_send k = \<lparr>sd_id = 100 + k, sd_ws = 1, sd_campaign = 2, sd_contact = 200 + k, sd_mailbox = 4,
     sd_to_email = [], sd_step_order = 1, sd_references = [], sd_status = ''sent'', sd_error = [],
     sd_message_id = [], sd_created_at = 5, sd_sent_at = Some 5, sd_claimed_at = None, sd_variant = None,
     sd_tracked = False\<rparr>"

definition guard_bounce :: "uuid \<Rightarrow> enrollment" where
  "guard_bounce k = pool_enrollment\<lparr>en_id := 300 + k, en_contact := 200 + k, en_status := StatusStopped,
     stop_reason := Some StopBounced, stopped_at := Some 6\<rparr>"

definition guard_quiet :: guard_db where
  "guard_quiet = \<lparr>gd_jobs = pool_db, gd_events = [], gd_pauses = [], gd_daily = [], gd_domains = []\<rparr>"

definition guard_sample :: guard_db where
  "guard_sample = guard_quiet\<lparr>gd_jobs := pool_db\<lparr>jd_core := \<lparr>
     db_enrollments = pool_enrollment # map (guard_bounce \<circ> of_nat) [0..<5],
     db_sends = map (guard_send \<circ> of_nat) [0..<50], db_mailboxes = [pool_mailbox]\<rparr>\<rparr>\<rparr>"

lemma guard_sample_pauses:
  obtains q db' where "EvaluateBreaker guard_env0 no_faults 10 10 1 2 guard_sample = (Inr q, db')" "bo_paused q"
proof -
  have "(case EvaluateBreaker guard_env0 no_faults 10 10 1 2 guard_sample of
      (Inr q, db') \<Rightarrow> bo_paused q | _ \<Rightarrow> False)" by code_simp
  with that show thesis by (auto split: prod.splits sum.splits)
qed

lemma breaker_pauses_exactly_witness:
  "\<exists>q db' p. EvaluateBreaker guard_env0 no_faults 10 10 1 2 guard_sample = (Inr q, db')
     \<and> gd_pauses db' = [p] \<and> pr_value p = v_value (bo_verdict q) \<and> pr_created_at p = 10
     \<and> breaker_due pool_campaign
         (GetCampaignDeliverabilityCounts 1 2 (judged_from guard_env0 10 1 2 pool_campaign guard_sample) guard_sample)"
proof -
  obtain q db' where run: "EvaluateBreaker guard_env0 no_faults 10 10 1 2 guard_sample = (Inr q, db')"
    "bo_paused q" by (rule guard_sample_pauses)
  have cam: "GetCampaignGuardrails 1 2 guard_sample = Some pool_campaign"
    by (simp add: GetCampaignGuardrails_def guard_sample_def guard_quiet_def pool_db_def pool_campaign_def is_campaign_def)
  have size: "int (length (db_sends (jd_core (gd_jobs guard_sample)))) < 2 ^ 31" by (simp add: guard_sample_def)
  have "numeric_keeps_sign (ge_numeric guard_env0)" by (simp add: guard_env0_def numeric_keeps_sign_def)
  from breaker_pauses_exactly [OF run(1) cam this size refl] run show ?thesis
    by (auto simp: fired_def paused_db_frame guard_sample_def guard_quiet_def pause_row_of_def pause_event_def guard_env0_def)
qed

lemma breaker_stops_sending_witness:
  "\<exists>db' j. snd (EvaluateBreaker guard_env0 no_faults 10 10 1 2 guard_sample) = db'
     \<and> fst (localStepSendJob pool_env no_faults 0 0 ''xxxxxx'' ''x'' (gd_jobs db')) = Inr j \<and> inert j"
proof -
  obtain q db' where run: "EvaluateBreaker guard_env0 no_faults 10 10 1 2 guard_sample = (Inr q, db')"
    "bo_paused q" by (rule guard_sample_pauses)
  have "(case GetStepEnrollmentBundle 6 1 (gd_jobs (snd (EvaluateBreaker guard_env0 no_faults 10 10 1 2 guard_sample)))
      of Some b \<Rightarrow> cm_id (b_campaign b) = 2 | None \<Rightarrow> False)" by code_simp
  then obtain b where b: "GetStepEnrollmentBundle 6 1 (gd_jobs db') = Some b" "cm_id (b_campaign b) = 2"
    by (auto simp: run(1) split: option.splits)
  have "(case localStepSendJob pool_env no_faults 0 0 ''xxxxxx'' ''x''
      (gd_jobs (snd (EvaluateBreaker guard_env0 no_faults 10 10 1 2 guard_sample))) of
      (Inr j, s) \<Rightarrow> True | _ \<Rightarrow> False)" by code_simp
  then obtain j s where j: "localStepSendJob pool_env no_faults 0 0 ''xxxxxx'' ''x'' (gd_jobs db') = (Inr j, s)"
    by (auto simp: run(1) split: prod.splits sum.splits)
  have "tenant_tables (gd_jobs guard_sample)"
    by (simp add: tenant_tables_def guard_sample_def guard_quiet_def pool_db_def pool_campaign_def
        pool_enrollment_def guard_bounce_def)
  from breaker_stops_sending [OF run this _ _ b j] run(1) j show ?thesis by (auto simp: pool_env_simps)
qed

definition bob_complains :: EventInput where
  "bob_complains = \<lparr>ei_kind = '' Complaint'', ei_email = ''bob@acme.org '', ei_provider_event_id = ''e1'',
     ei_send = None, ei_bounce_class = []\<rparr>"

lemma bob_text:
  "ToLower (ge_text guard_env0) (TrimSpace (ei_kind bob_complains)) = EventKindComplaint"
  "TrimSpace (ei_email bob_complains) = ''bob@acme.org''"
  "TrimSpace (ei_provider_event_id bob_complains) = ''e1''"
  by code_simp+

lemma complaint_is_honoured_witness:
  "\<exists>db' j. snd (Ingest guard_env0 no_faults 10 10 1 bob_complains guard_quiet) = db'
     \<and> snd (Ingest guard_env0 no_faults 20 20 1 bob_complains db') = db'
     \<and> fst (localStepSendJob pool_env no_faults 0 0 ''xxxxxx'' ''x'' (gd_jobs db')) = Inr j
     \<and> \<not> inert j \<and> Suppressed j"
proof -
  have "(case Ingest guard_env0 no_faults 10 10 1 bob_complains guard_quiet of
      (Inr q, db') \<Rightarrow> \<not> ir_duplicate q | _ \<Rightarrow> False)" by code_simp
  then obtain q db' where run: "Ingest guard_env0 no_faults 10 10 1 bob_complains guard_quiet = (Inr q, db')"
    "\<not> ir_duplicate q" by (auto split: prod.splits sum.splits)
  obtain r db'' where again: "Ingest guard_env0 no_faults 20 20 1 bob_complains db' = (r, db'')" by fastforce
  have eq: "db'' = db'"
    using complaint_taken [OF run bob_text(1)] Ingest_seen [OF again] by blast
  have "(case localStepSendJob pool_env no_faults 0 0 ''xxxxxx'' ''x''
      (gd_jobs (snd (Ingest guard_env0 no_faults 10 10 1 bob_complains guard_quiet))) of
      (Inr j, s) \<Rightarrow> \<not> inert j \<and> ToEmail j = ''bob@acme.org'' | _ \<Rightarrow> False)" by code_simp
  then obtain j s where j: "localStepSendJob pool_env no_faults 0 0 ''xxxxxx'' ''x'' (gd_jobs db'') = (Inr j, s)"
    "\<not> inert j" "ToEmail j = ''bob@acme.org''"
    by (auto simp: run(1) eq split: prod.splits sum.splits)
  have "je_sql_lower pool_env = ge_sql_lower guard_env0" by (simp add: pool_env_def guard_env0_def)
  from complaint_is_honoured [OF run bob_text(1) again this _ _ j(1,2)] plain_roundtrips j(3) bob_text(2)
  have "Suppressed j" by (simp add: pool_env_simps)
  with run(1) again j eq show ?thesis by (intro exI [of _ db'] exI [of _ j]) simp
qed

definition suppression_down :: faults where
  "suppression_down s = (if s = ''AddSuppression'' then Some ''down'' else None)"

lemma failed_suppression_is_not_repaired_witness:
  "\<exists>db'. snd (Ingest guard_env0 suppression_down 10 10 1 bob_complains guard_quiet) = db'
     \<and> \<not> honoured guard_env0 1 bob_complains (snd (Ingest guard_env0 no_faults 20 20 1 bob_complains db'))"
proof -
  obtain r db' where run: "Ingest guard_env0 suppression_down 10 10 1 bob_complains guard_quiet = (r, db')"
    by fastforce
  obtain r' db'' where again: "Ingest guard_env0 no_faults 20 20 1 bob_complains db' = (r', db'')" by fastforce
  have h: "suppression_down ''InsertDeliverabilityEvent'' = None" "suppression_down ''AddSuppression'' = Some ''down''"
    "TrimSpace (ei_email bob_complains) \<noteq> []" "TrimSpace (ei_provider_event_id bob_complains) \<noteq> []"
    "\<not> seen 1 (TrimSpace (ei_provider_event_id bob_complains)) guard_quiet"
    "\<not> honoured guard_env0 1 bob_complains guard_quiet"
    by (simp_all add: suppression_down_def bob_text seen_def honoured_def guard_quiet_def IsSuppressed_def pool_db_def)
  from failed_suppression_is_not_repaired [OF h(1,2) bob_text(1) h(3-6) run again]
  have "\<not> honoured guard_env0 1 bob_complains db''" by blast
  with run again show ?thesis by simp
qed

end
