(* ===== verification/Send_Spread.thy ===== *)
theory Send_Spread
  imports Breaker Steady_Clock
begin

text \<open>
  How a launch spreads its sends (\<open>internal/platform/cadence/spread.go\<close>): offsets into the open time of a
  day, drawn through the inverse of a day curve and jittered by a hash, in the \<open>float64\<close> arithmetic of
  \<open>Go_Float\<close>. SHA-256 is the parameter \<open>sha\<close>.

  The lemmas say that every offset lies inside the open time it was drawn for, and that an offset
  shorter than a day's open time always finds a place in the week that follows, inside an open
  interval and never before the instant it is counted from.
\<close>

subsection \<open>The curve\<close>

definition jitterMin :: float64 where "jitterMin = f_lit 55 100"
definition jitterMax :: float64 where "jitterMax = f_lit 145 100"

definition dayCurve :: "float64 list" where
  "dayCurve = map (\<lambda>w. f_lit w 100) [55, 100, 135, 130, 85, 70, 115, 120, 95, 60]"

text \<open>A hash as a value between \<open>lo\<close> and \<open>hi\<close>: its low 53 bits over \<open>2 ^ 53\<close>.\<close>

definition scale_hash :: "nat \<Rightarrow> float64 \<Rightarrow> float64 \<Rightarrow> float64" where
  "scale_hash h lo hi =
     f_add lo (f_mul (f_sub hi lo) (f_div (f_int (int (h mod 2 ^ 53))) (f_int (2 ^ 53))))"

definition f_min :: "float64 \<Rightarrow> float64 \<Rightarrow> float64" where "f_min x y = (if f_less y x then y else x)"
definition f_max :: "float64 \<Rightarrow> float64 \<Rightarrow> float64" where "f_max x y = (if f_less x y then y else x)"

definition clamp :: "float64 \<Rightarrow> float64 \<Rightarrow> float64 \<Rightarrow> float64" where
  "clamp v lo hi = f_min (f_max v lo) hi"

text \<open>The running sums of the weights, from 0.\<close>

fun running :: "float64 \<Rightarrow> float64 list \<Rightarrow> float64 list" where
  "running acc [] = [acc]"
| "running acc (w # ws) = acc # running (f_add acc w) ws"

definition curveCDF :: "float64 list \<Rightarrow> float64 list" where
  "curveCDF weights =
     (let cum = running (f_int 0) weights; total = last cum
      in if f_le total (f_int 0)
         then map (\<lambda>i. f_div (f_int (int i)) (f_int (int (length weights)))) [0..<length cum]
         else map (\<lambda>s. f_div s total) cum)"

text \<open>The loop of \<open>invCDF\<close> from bucket \<open>i\<close>; the list is \<open>cdf[i:]\<close>.\<close>

fun inv_bucket :: "int \<Rightarrow> int \<Rightarrow> float64 list \<Rightarrow> float64 \<Rightarrow> float64" where
  "inv_bucket buckets i (lo # hi # rest) u =
     (if f_less hi u then inv_bucket buckets (i + 1) (hi # rest) u
      else
        let span = f_sub hi lo in
        if f_le span (f_int 0) then f_div (f_int i) (f_int buckets)
        else f_div (f_add (f_int i) (f_div (f_sub u lo) span)) (f_int buckets))"
| "inv_bucket buckets i cdf u = f_int 1"

definition invCDF :: "float64 list \<Rightarrow> float64 \<Rightarrow> float64" where
  "invCDF cdf u = inv_bucket (int (length cdf) - 1) 0 cdf (clamp u (f_int 0) (f_int 1))"

subsection \<open>Offsets\<close>

definition Spacing :: "(string \<Rightarrow> string) \<Rightarrow> duration \<Rightarrow> int \<Rightarrow> int \<Rightarrow> string \<Rightarrow> duration" where
  "Spacing sha open_time target index key =
     (if target \<le> 0 \<or> open_time \<le> 0 then 0
      else
        let base = quot open_time target;
            jitter = scale_hash (hashU64 sha [''spacing'', key, Itoa index]) jitterMin jitterMax
        in f_trunc (f_mul (f_int base) jitter))"

definition millisecond :: duration where [const_defs]: "millisecond = 1000000"

definition offset_at :: "(string \<Rightarrow> string) \<Rightarrow> float64 list \<Rightarrow> duration \<Rightarrow> int \<Rightarrow> string \<Rightarrow> int \<Rightarrow> duration" where
  "offset_at sha cdf open_time n key i =
     (let slot = f_div (f_add (f_int i) (scale_hash (hashU64 sha [''offset'', key, Itoa i]) (f_lit 5 100) (f_lit 95 100)))
                   (f_int n);
          off = f_trunc (f_mul (invCDF cdf slot) (f_int open_time))
      in if open_time \<le> off then open_time - millisecond else off)"

definition Offsets :: "(string \<Rightarrow> string) \<Rightarrow> duration \<Rightarrow> int \<Rightarrow> string \<Rightarrow> duration list" where
  "Offsets sha open_time n key =
     (if n \<le> 0 \<or> open_time \<le> 0 then []
      else sort (map (offset_at sha (curveCDF dayCurve) open_time n key) [0..n - 1]))"

subsection \<open>The inverse stays in the unit interval\<close>

lemma f_sub_neg: "f_sub x y = f_add x (f_neg y)"
  by (simp add: f_sub_def f_add_def f_neg_def align_def Let_def)

lemma f_sub_mono: "fval z \<le> fval x \<Longrightarrow> fval x \<le> fval y \<Longrightarrow> fval (f_sub x z) \<le> fval (f_sub y z)"
proof (cases "fval x = fval z")
  case True
  assume "fval x \<le> fval y"
  have "fval (f_sub x z) \<le> fval (f_int 0)" using True by (intro f_sub_le) simp_all
  moreover have "fval (f_int 0) \<le> fval (f_sub y z)" using True \<open>fval x \<le> fval y\<close> by (intro f_sub_ge) simp_all
  ultimately show ?thesis by simp
next
  case False
  assume "fval z \<le> fval x" "fval x \<le> fval y"
  with False show ?thesis unfolding f_sub_neg by (intro f_add_mono) simp_all
qed

lemma f_sub_nonneg: "fval y \<le> fval x \<Longrightarrow> 0 \<le> fval (f_sub x y)"
  using f_sub_ge [of "f_int 0" x y] by simp

lemma unit_quotient:
  assumes "0 \<le> fval x" "fval x \<le> fval y" "0 < fval y"
  shows "0 \<le> fval (f_div x y)" "fval (f_div x y) \<le> 1"
proof -
  have "fval (f_int 0) \<le> fval (f_div x y)" using assms by (intro f_div_ge) simp_all
  then show "0 \<le> fval (f_div x y)" by simp
  have "fval (f_div x y) \<le> fval (f_int 1)" using assms by (intro f_div_le) simp_all
  then show "fval (f_div x y) \<le> 1" by simp
qed

lemma inv_bucket_unit:
  assumes "0 \<le> i" "i + int (length cdf) - 1 \<le> buckets" "buckets \<le> 2 ^ 53" "0 < buckets"
    and "cdf \<noteq> [] \<Longrightarrow> fval (hd cdf) \<le> fval u"
  shows "0 \<le> fval (inv_bucket buckets i cdf u) \<and> fval (inv_bucket buckets i cdf u) \<le> 1"
  using assms
proof (induction buckets i cdf u rule: inv_bucket.induct)
  case (1 buckets i lo hi rest u)
  have b: "fval (f_int buckets) = of_int buckets" "fval (f_int i) = of_int i" "fval (f_int (i + 1)) = of_int i + 1"
    using 1(2-5) by (simp_all add: f_int_exact)
  show ?case
  proof (cases "f_less hi u")
    case True
    with 1(1) [OF True] 1(2-5) show ?thesis by (simp add: f_less_iff)
  next
    case False
    define span where "span = f_sub hi lo"
    show ?thesis
    proof (cases "f_le span (f_int 0)")
      case True
      with False unit_quotient [of "f_int i" "f_int buckets"] b 1(2-5) show ?thesis
        by (simp add: span_def)
    next
      case pos: False
      have lo: "fval lo \<le> fval u" "fval u \<le> fval hi" using 1(6) False by (simp_all add: f_less_iff)
      have w: "0 \<le> fval (f_div (f_sub u lo) span)" "fval (f_div (f_sub u lo) span) \<le> 1"
        using unit_quotient [of "f_sub u lo" span] pos lo f_sub_nonneg [of lo u] f_sub_mono [of lo u hi]
        by (simp_all add: span_def f_le_iff)
      define p where "p = f_add (f_int i) (f_div (f_sub u lo) span)"
      have "fval p \<le> fval (f_int (i + 1))" unfolding p_def using w b by (intro f_add_le) simp_all
      moreover have "fval (f_int i) \<le> fval p" unfolding p_def using w b by (intro f_add_ge) simp_all
      ultimately have "0 \<le> fval p" "fval p \<le> fval (f_int buckets)" using b 1(2-5) by simp_all
      from unit_quotient [OF this] b 1(5) False pos show ?thesis by (simp add: span_def p_def)
    qed
  qed
qed auto

subsection \<open>Offsets stay inside the open time\<close>

lemma curveCDF_start: "curveCDF ws \<noteq> [] \<and> fval (hd (curveCDF ws)) = 0"
proof -
  obtain rest where r: "running (f_int 0) ws = f_int 0 # rest" by (cases ws) auto
  have z: "fval (f_div (f_int 0) y) = 0" for y
    by (simp add: f_div_def f_int_def round_quot_def fval_def)
  show ?thesis
    by (simp add: curveCDF_def Let_def r z upt_conv_Cons del: upt_Suc)
qed

lemma length_curveCDF: "length (curveCDF ws) = length ws + 1"
proof -
  have "length (running acc ws) = length ws + 1" for acc by (induction ws arbitrary: acc) auto
  then show ?thesis by (simp add: curveCDF_def Let_def)
qed

lemma clamp_unit: "0 \<le> fval (clamp u (f_int 0) (f_int 1))"
  by (simp add: clamp_def f_min_def f_max_def f_less_iff)

lemma invCDF_unit:
  assumes "0 < length ws" "int (length ws) \<le> 2 ^ 53"
  shows "0 \<le> fval (invCDF (curveCDF ws) u) \<and> fval (invCDF (curveCDF ws) u) \<le> 1"
  unfolding invCDF_def using assms curveCDF_start [of ws] clamp_unit
  by (intro inv_bucket_unit) (simp_all add: length_curveCDF)

lemma offset_at_range:
  assumes "millisecond \<le> open_time" "open_time \<le> 2 ^ 53"
  shows "0 \<le> offset_at sha (curveCDF dayCurve) open_time n key i
     \<and> offset_at sha (curveCDF dayCurve) open_time n key i < open_time"
proof -
  define frac where "frac = invCDF (curveCDF dayCurve) (f_div (f_add (f_int i)
      (scale_hash (hashU64 sha [''offset'', key, Itoa i]) (f_lit 5 100) (f_lit 95 100))) (f_int n))"
  have frac: "0 \<le> fval frac" "fval frac \<le> 1"
    using invCDF_unit [of dayCurve] by (simp_all add: frac_def dayCurve_def)
  have v: "fval (f_int open_time) = of_int open_time" "0 \<le> open_time"
    using assms by (simp_all add: f_int_exact millisecond_def)
  have x: "0 \<le> fval (f_mul frac (f_int open_time))" "fval (f_mul frac (f_int open_time)) \<le> of_int open_time"
    using f_mul_nonneg [of frac "f_int open_time"] f_mul_le [of "f_int open_time" frac "f_int open_time"] frac v
    by (simp_all add: mult_left_le_one_le)
  have "f_trunc (f_mul frac (f_int open_time)) = \<lfloor>fval (f_mul frac (f_int open_time))\<rfloor>"
    using fval_sign(2) [OF x(1)] by (rule f_trunc_floor)
  then have "0 \<le> f_trunc (f_mul frac (f_int open_time))" using x by simp
  then show ?thesis
    using assms by (simp add: offset_at_def Let_def flip: frac_def) (simp add: millisecond_def)
qed

lemma Offsets_range:
  assumes "millisecond \<le> open_time" "open_time \<le> 2 ^ 53"
  shows "length (Offsets sha open_time n key) = nat n" "sorted (Offsets sha open_time n key)"
    and "x \<in> set (Offsets sha open_time n key) \<Longrightarrow> 0 \<le> x \<and> x < open_time"
  using assms offset_at_range [OF assms] by (auto simp: Offsets_def millisecond_def split: if_splits)

subsection \<open>A short offset finds a place\<close>

text \<open>The minutes of a day's intervals from \<open>flr\<close> on.\<close>

definition minutes_left :: "int \<Rightarrow> interval list \<Rightarrow> int" where
  "minutes_left flr ivs = sum_list (map (\<lambda>iv. max 0 (end_min iv - max (start_min iv) flr)) ivs)"

lemma consume_day_spec:
  assumes "\<forall>iv \<in> set ivs. good_interval iv" and "0 \<le> rem"
  shows "(rem < minutes_left flr ivs \<longrightarrow> (\<exists>m iv. consume_day flr ivs rem = Inl (m, iv) \<and> iv \<in> set ivs
            \<and> start_min iv \<le> m \<and> flr \<le> m \<and> m < end_min iv))
       \<and> (minutes_left flr ivs \<le> rem \<longrightarrow> consume_day flr ivs rem = Inr (rem - minutes_left flr ivs))"
  using assms
proof (induction flr ivs rem rule: consume_day.induct)
  case (1 flr rem)
  then show ?case by (simp add: minutes_left_def)
next
  case (2 flr iv ivs rem)
  have iv: "start_min iv < end_min iv" using 2(3) by (simp add: good_interval_def)
  define here where "here = max 0 (end_min iv - max (start_min iv) flr)"
  have split: "minutes_left flr (iv # ivs) = here + minutes_left flr ivs"
    by (simp add: minutes_left_def here_def)
  show ?case
  proof (cases "end_min iv \<le> flr")
    case True
    then have "here = 0" by (simp add: here_def)
    with 2(1) [OF True] 2(3,4) True split show ?thesis by auto
  next
    case False
    then have h: "here = end_min iv - max (start_min iv) flr" "0 < here" using iv by (simp_all add: here_def)
    show ?thesis
    proof (cases "rem < here")
      case True
      then have "0 \<le> minutes_left flr ivs" by (auto simp: minutes_left_def intro!: sum_list_nonneg)
      then have "rem < minutes_left flr (iv # ivs)" using True split by linarith
      moreover have "consume_day flr (iv # ivs) rem = Inl (max (start_min iv) flr + rem, iv)"
        using True False h by (simp add: Let_def)
      ultimately show ?thesis using True h 2(4) by auto
    next
      case big: False
      have ih: "(rem - here < minutes_left flr ivs \<longrightarrow> (\<exists>m iv. consume_day flr ivs (rem - here) = Inl (m, iv) \<and> iv \<in> set ivs
            \<and> start_min iv \<le> m \<and> flr \<le> m \<and> m < end_min iv))
         \<and> (minutes_left flr ivs \<le> rem - here \<longrightarrow> consume_day flr ivs (rem - here) = Inr (rem - here - minutes_left flr ivs))"
        using 2(2) [OF False refl refl] big 2(3) h by simp
      have "consume_day flr (iv # ivs) rem = consume_day flr ivs (rem - here)"
        using big False h by (simp add: Let_def)
      with ih split show ?thesis by auto
    qed
  qed
qed

definition day_minutes_left :: "window \<Rightarrow> instant \<Rightarrow> nat \<Rightarrow> int" where
  "day_minutes_left w t k = minutes_left (walk_floor w t k) (win_days w (weekday (win_loc w) (walk_date w t k)))"

lemma consume_days_spec:
  assumes "\<forall>k. \<forall>iv \<in> set (win_days w (weekday (win_loc w) (walk_date w t k))). good_interval iv"
    and "0 \<le> rem" and "d \<in> set days" and "rem < day_minutes_left w t d"
  shows "\<exists>k m iv. k \<in> set days \<and> iv \<in> set (win_days w (weekday (win_loc w) (walk_date w t k)))
     \<and> start_min iv \<le> m \<and> walk_floor w t k \<le> m \<and> m < end_min iv
     \<and> consume_days sha w t key days rem = Some (humanize sha w (walk_date w t k) m iv key)"
  using assms(2-)
proof (induction days arbitrary: rem)
  case Nil
  then show ?case by simp
next
  case (Cons a days)
  let ?ivs = "win_days w (weekday (win_loc w) (walk_date w t a))"
  have good: "\<forall>iv \<in> set ?ivs. good_interval iv" using assms(1) by blast
  note spec = consume_day_spec [OF good Cons.prems(1), of "walk_floor w t a"]
  show ?case
  proof (cases "rem < day_minutes_left w t a")
    case True
    with spec obtain m iv where "consume_day (walk_floor w t a) ?ivs rem = Inl (m, iv)" "iv \<in> set ?ivs"
      "start_min iv \<le> m" "walk_floor w t a \<le> m" "m < end_min iv"
      by (auto simp: day_minutes_left_def)
    then show ?thesis by (intro exI [of _ a] exI [of _ m] exI [of _ iv]) simp
  next
    case False
    have d: "d \<in> set days" using Cons.prems(2,3) False by auto
    have "0 \<le> day_minutes_left w t a" by (auto simp: day_minutes_left_def minutes_left_def intro!: sum_list_nonneg)
    with False Cons.prems have "0 \<le> rem - day_minutes_left w t a" "rem - day_minutes_left w t a < day_minutes_left w t d"
      by auto
    from Cons.IH [OF this(1) d this(2)] spec False show ?thesis
      by (fastforce simp: day_minutes_left_def)
  qed
qed

text \<open>A week later the same weekday is open from its first minute.\<close>

lemma week_later_minutes:
  assumes "win_loc w = fixed_zone off" and "validate_window w = None"
  shows "day_minutes_left w t 7 * minute = OpenDuration w t"
proof -
  have wd: "weekday (win_loc w) (walk_date w t 7) = weekday (win_loc w) t"
  proof -
    have "(D + int 7 + 1) mod 7 = (D + 1) mod 7" for D :: int
      using mod_add_self2 [of "D + 1" 7] by (simp add: ac_simps)
    moreover have "weekday (win_loc w) t = nat ((abs_minute off t div 1440 + 1) mod 7)"
      by (simp only: weekday_fixed assms(1))
    ultimately show ?thesis by (simp only: weekday_walk [OF assms(1)])
  qed
  have "weekday (win_loc w) t < 7" by (simp add: weekday_def)
  from validate_window_good(1) [OF assms(2) this] have good: "\<forall>iv \<in> set (win_days w (weekday (win_loc w) t)). good_interval iv"
    by (simp add: good_day_def)
  then have "minutes_left 0 (win_days w (weekday (win_loc w) t))
      = sum_list (map (\<lambda>iv. end_min iv - start_min iv) (win_days w (weekday (win_loc w) t)))"
    unfolding minutes_left_def by (intro arg_cong [where f = sum_list] map_cong) (auto simp: good_interval_def)
  then show ?thesis
    by (simp add: day_minutes_left_def walk_floor_fixed [OF assms(1)] wd OpenDuration_def)
qed

lemma NextAfterOffset_fixed:
  assumes loc: "win_loc w = fixed_zone off" and ok: "validate_window w = None" and "key \<noteq> []"
    and "0 \<le> offset" "offset < OpenDuration w t"
  shows "\<exists>r. NextAfterOffset sha w t offset key = Inr r \<and> Contains w r \<and> t - minute < r
     \<and> r < t + 8 * day_ns \<and> (r + off) mod minute \<noteq> 0"
proof -
  have less: "offset div minute < day_minutes_left w t 7"
  proof (rule ccontr)
    assume "\<not> offset div minute < day_minutes_left w t 7"
    then have "day_minutes_left w t 7 * minute \<le> offset div minute * minute" by (intro mult_right_mono) (auto simp: less_imp_le)
    moreover have "offset div minute * minute \<le> offset" by (simp add: minute_def)
    ultimately show False using week_later_minutes [OF loc ok, of t] assms(5) by linarith
  qed
  have good: "\<forall>k. \<forall>iv \<in> set (win_days w (weekday (win_loc w) (walk_date w t k))). good_interval iv"
  proof (intro allI)
    fix k
    have "weekday (win_loc w) (walk_date w t k) < 7" by (simp add: weekday_def)
    from validate_window_good(1) [OF ok this]
    show "\<forall>iv \<in> set (win_days w (weekday (win_loc w) (walk_date w t k))). good_interval iv"
      by (simp add: good_day_def)
  qed
  have "0 \<le> offset div minute" using assms(4) by (simp add: pos_imp_zdiv_nonneg_iff)
  from consume_days_spec [where days = "[0..<8]" and sha = sha and key = key, OF good this _ less] obtain k m iv where
    k: "k < 8" "iv \<in> set (win_days w (weekday (win_loc w) (walk_date w t k)))" "start_min iv \<le> m"
    "walk_floor w t k \<le> m" "m < end_min iv"
    and run: "consume_days sha w t key [0..<8] (offset div minute) = Some (humanize sha w (walk_date w t k) m iv key)"
    by auto
  define r where "r = humanize sha w (walk_date w t k) m iv key"
  let ?D = "abs_minute off t div 1440 + int k"
  have r: "abs_minute off r = ?D * 1440 + m" "(r + off) mod minute \<noteq> 0"
    using humanize_minute [OF loc k(5)] by (simp_all add: r_def walk_day [OF loc])
  have "good_interval iv" using good k(2) by blast
  then have m: "0 \<le> m" "m < 1440" using k(3,5) by (auto simp: good_interval_def)
  have day: "abs_minute off r div 1440 = ?D" using r(1) m by simp
  have "Contains w r"
    unfolding Contains_fixed [OF loc] open_at_day [OF day] using k r(1)
    by (auto simp: list_ex_iff weekday_walk [OF loc])
  moreover have "abs_minute off t \<le> abs_minute off r"
  proof (cases "k = 0")
    case True
    then have "abs_minute off t mod 1440 \<le> m" using k(4) by (simp add: walk_floor_fixed [OF loc])
    moreover have "abs_minute off r = abs_minute off t div 1440 * 1440 + m" using r(1) True by simp
    ultimately show ?thesis using mult_div_mod_eq [of 1440 "abs_minute off t"] by linarith
  next
    case False
    then have "abs_minute off t div 1440 < abs_minute off r div 1440" using day by simp
    then show ?thesis by (rule day_minute_less [THEN less_imp_le])
  qed
  moreover have "r < t + 8 * day_ns"
  proof -
    have "(r + off) div day_ns < (t + off) div day_ns + 8"
      using day k(1) unfolding abs_minute_def day_ns_minutes by (simp add: zdiv_zmult2_eq)
    then show ?thesis by (simp add: day_ns_def)
  qed
  ultimately show ?thesis
    using run assms(3,4) r(2) abs_minute_gap [of off t r]
    by (intro exI [of _ r]) (simp add: NextAfterOffset_def maxDayWalk_def r_def)
qed

lemma NextAfterOffset_placed:
  assumes steady: "steady_around (win_loc w) off t" and ok: "validate_window w = None" and key: "key \<noteq> []"
    and offset: "0 \<le> offset" "offset < OpenDuration w t"
  shows "\<exists>r. NextAfterOffset sha w t offset key = Inr r \<and> Contains w r \<and> t - minute < r \<and> r < t + 8 * day_ns"
proof -
  let ?w = "in_fixed w off"
  have fixed: "win_loc ?w = fixed_zone off" "validate_window ?w = None" using ok by simp_all
  have "offset < OpenDuration ?w t"
    using offset(2) OpenDuration_steady [OF steady] by (simp add: day_ns_def)
  from NextAfterOffset_fixed [OF fixed key offset(1) this, of sha] obtain r where
    r: "NextAfterOffset sha ?w t offset key = Inr r" "Contains ?w r" "t - minute < r" "r < t + 8 * day_ns" by blast
  moreover have "Contains w r = Contains ?w r"
    using r(3,4) by (intro Contains_steady [OF steady]) (auto simp: day_ns_def minute_def)
  ultimately show ?thesis using NextAfterOffset_steady [OF steady] by (intro exI [of _ r]) simp
qed

end
