(* ===== verification/Campaign_Life.thy ===== *)
theory Campaign_Life
  imports Step_Job Send_Spread
begin

text \<open>
  The life of a campaign (\<open>internal/app/campaign\<close>: \<open>service.go\<close>, \<open>lifecycle.go\<close>, \<open>schedule.go\<close>, \<open>store.go\<close>):
  creation with its first step and default schedule, editing the schedule, launching, pausing,
  resuming, renaming, tracking, and deleting a draft, with the statements each runs.

  \<open>life_db\<close> holds the tables of \<open>Step_Job\<close>, the members of lists and the queue of advance tasks. The ids
  the database draws are arguments, \<open>now\<close> is the application's clock and \<open>nowdb\<close> the database's. A batch
  of statements is one implicit transaction. Validation of a name and the checks of mailbox and list,
  which other packages provide, are fields of \<open>life_env\<close>; the audit trail and announcements to open
  tabs are left out.
\<close>

subsection \<open>State\<close>

record life_db =
  lf_jobs :: job_db
  lf_members :: "(uuid \<times> uuid) list"
  lf_queue :: "(string \<times> string \<times> instant) list"

record life_env =
  le_lib :: lib
  le_valid_name :: "string \<Rightarrow> bool"
  le_mailbox_active :: "uuid \<Rightarrow> uuid \<Rightarrow> string + bool"
  le_list_exists :: "uuid \<Rightarrow> uuid \<Rightarrow> string + bool"

datatype campaign_error =
    ErrNotFound
  | ErrMailboxNotActive
  | ErrListMissing
  | ErrValidation
  | ErrAlreadyLaunched
  | ErrEmptyList
  | ErrNoSteps
  | ErrNotPausable
  | ErrNotResumable
  | ErrNotDraft
  | ErrDailyLimit
  | ErrMaxNewLeadsPerDay
  | BadSchedule schedule_error
  | BadPlacement cadence_error
  | StoreFailed string

definition StatusDraft :: string where [const_defs]: "StatusDraft = ''draft''"
definition StatusPaused :: string where [const_defs]: "StatusPaused = ''paused''"
definition StatusDone :: string where [const_defs]: "StatusDone = ''done''"

definition run_query :: "faults \<Rightarrow> string \<Rightarrow> 'a \<Rightarrow> campaign_error + 'a" where
  "run_query flt stmt x = (case flt stmt of Some e \<Rightarrow> Inl (StoreFailed e) | None \<Rightarrow> Inr x)"

definition on_jobs :: "(job_db \<Rightarrow> job_db) \<Rightarrow> life_db \<Rightarrow> life_db" where
  "on_jobs f db = db\<lparr>lf_jobs := f (lf_jobs db)\<rparr>"

text \<open>A failed operation leaves the database alone; a write that succeeded is the database after it.\<close>

definition commit_or :: "life_db \<Rightarrow> campaign_error + life_db \<Rightarrow> (campaign_error + unit) \<times> life_db" where
  "commit_or db r = (case r of Inl e \<Rightarrow> (Inl e, db) | Inr db' \<Rightarrow> (Inr (), db'))"

subsection \<open>Statements\<close>

definition GetCampaign :: "uuid \<Rightarrow> uuid \<Rightarrow> life_db \<Rightarrow> campaign option" where
  "GetCampaign ws c db = select_one (is_campaign ws c) (jd_campaigns (lf_jobs db))"

definition update_campaign :: "uuid \<Rightarrow> uuid \<Rightarrow> (campaign \<Rightarrow> campaign) \<Rightarrow> life_db \<Rightarrow> life_db" where
  "update_campaign ws c f = on_jobs (\<lambda>j. j\<lparr>jd_campaigns := update_where (is_campaign ws c) f (jd_campaigns j)\<rparr>)"

definition SetCampaignStatus :: "uuid \<Rightarrow> uuid \<Rightarrow> string \<Rightarrow> instant option \<Rightarrow> life_db \<Rightarrow> life_db" where
  "SetCampaignStatus ws c status launched =
     update_campaign ws c (\<lambda>r. r\<lparr>cm_status := status,
       cm_launched_at := (case cm_launched_at r of None \<Rightarrow> launched | Some t \<Rightarrow> Some t)\<rparr>)"

definition SetCampaignTracking :: "uuid \<Rightarrow> uuid \<Rightarrow> bool \<Rightarrow> life_db \<Rightarrow> life_db" where
  "SetCampaignTracking ws c enabled = update_campaign ws c (\<lambda>r. r\<lparr>cm_tracking_enabled := enabled\<rparr>)"

definition SetCampaignTimezone :: "uuid \<Rightarrow> uuid \<Rightarrow> string \<Rightarrow> life_db \<Rightarrow> life_db" where
  "SetCampaignTimezone ws c tz = update_campaign ws c (\<lambda>r. r\<lparr>cm_timezone := tz\<rparr>)"

definition SetCampaignDailyLimit :: "uuid \<Rightarrow> uuid \<Rightarrow> int option \<Rightarrow> life_db \<Rightarrow> life_db" where
  "SetCampaignDailyLimit ws c n = update_campaign ws c (\<lambda>r. r\<lparr>cm_daily_limit := n\<rparr>)"

definition SetCampaignMaxNewLeads :: "uuid \<Rightarrow> uuid \<Rightarrow> int option \<Rightarrow> life_db \<Rightarrow> life_db" where
  "SetCampaignMaxNewLeads ws c n = update_campaign ws c (\<lambda>r. r\<lparr>cm_max_new_leads_per_day := n\<rparr>)"

definition RenameCampaign :: "uuid \<Rightarrow> uuid \<Rightarrow> string \<Rightarrow> life_db \<Rightarrow> life_db" where
  "RenameCampaign ws c name = update_campaign ws c (\<lambda>r. r\<lparr>cm_name := name\<rparr>)"

definition CountStepsByCampaign :: "uuid \<Rightarrow> uuid \<Rightarrow> life_db \<Rightarrow> int" where
  "CountStepsByCampaign ws c db =
     count_where (\<lambda>s. st_campaign s = c \<and> st_ws s = ws) (jd_steps (lf_jobs db))"

definition DeleteSendWindows :: "uuid \<Rightarrow> uuid \<Rightarrow> life_db \<Rightarrow> life_db" where
  "DeleteSendWindows ws c =
     on_jobs (\<lambda>j. j\<lparr>jd_windows := filter (\<lambda>r. \<not> (ww_campaign r = c \<and> ww_ws r = ws)) (jd_windows j)\<rparr>)"

text \<open>The checks of the windows table, and the exclusion constraint on overlaps.\<close>

definition window_row_legal :: "window_row \<Rightarrow> bool" where
  "window_row_legal r \<longleftrightarrow>
     0 \<le> ww_weekday r \<and> ww_weekday r \<le> 6 \<and> 0 \<le> ww_start_minute r \<and> ww_start_minute r \<le> 1439
     \<and> 1 \<le> ww_end_minute r \<and> ww_end_minute r \<le> 1440 \<and> ww_start_minute r < ww_end_minute r"

definition overlaps :: "window_row \<Rightarrow> window_row \<Rightarrow> bool" where
  "overlaps a b \<longleftrightarrow>
     ww_campaign a = ww_campaign b \<and> ww_weekday a = ww_weekday b
     \<and> ww_start_minute a < ww_end_minute b \<and> ww_start_minute b < ww_end_minute a"

definition window_row_of :: "uuid \<Rightarrow> uuid \<Rightarrow> send_window \<Rightarrow> window_row" where
  "window_row_of ws c sw =
     \<lparr>ww_ws = ws, ww_campaign = c, ww_weekday = sw_weekday sw, ww_start_minute = sw_start sw,
      ww_end_minute = sw_end sw\<rparr>"

fun CreateSendWindows :: "uuid \<Rightarrow> uuid \<Rightarrow> send_window list \<Rightarrow> window_row list \<Rightarrow> window_row list option" where
  "CreateSendWindows ws c [] rows = Some rows"
| "CreateSendWindows ws c (sw # sws) rows =
     (let r = window_row_of ws c sw
      in if window_row_legal r \<and> \<not> list_ex (overlaps r) rows
         then CreateSendWindows ws c sws (rows @ [r]) else None)"

definition insertWindows :: "faults \<Rightarrow> uuid \<Rightarrow> uuid \<Rightarrow> send_window list \<Rightarrow> life_db \<Rightarrow> campaign_error + life_db" where
  "insertWindows flt ws c sws db =
     (if sws = [] then Inr db
      else and_then (run_query flt ''CreateSendWindows'' (CreateSendWindows ws c sws (jd_windows (lf_jobs db))))
        (\<lambda>r. case r of
               None \<Rightarrow> Inl (StoreFailed ''constraint violation'')
             | Some rows \<Rightarrow> Inr (on_jobs (\<lambda>j. j\<lparr>jd_windows := rows\<rparr>) db)))"

subsection \<open>Pausing, resuming, renaming, deleting\<close>

text \<open>Whatever goes wrong reading the campaign, the caller is told it was not found.\<close>

definition get_campaign :: "faults \<Rightarrow> uuid \<Rightarrow> uuid \<Rightarrow> life_db \<Rightarrow> campaign option" where
  "get_campaign flt ws c db = (if flt ''GetCampaign'' = None then GetCampaign ws c db else None)"

definition SetStatus :: "faults \<Rightarrow> uuid \<Rightarrow> uuid \<Rightarrow> string \<Rightarrow> life_db \<Rightarrow> campaign_error + life_db" where
  "SetStatus flt ws c status db = run_query flt ''SetCampaignStatus'' (SetCampaignStatus ws c status None db)"

definition Pause :: "faults \<Rightarrow> uuid \<Rightarrow> uuid \<Rightarrow> life_db \<Rightarrow> (campaign_error + unit) \<times> life_db" where
  "Pause flt ws c db =
     (case get_campaign flt ws c db of
        None \<Rightarrow> (Inl ErrNotFound, db)
      | Some r \<Rightarrow>
          if cm_status r \<noteq> StatusRunning then (Inl ErrNotPausable, db)
          else commit_or db (SetStatus flt ws c StatusPaused db))"

definition Resume :: "faults \<Rightarrow> uuid \<Rightarrow> uuid \<Rightarrow> life_db \<Rightarrow> (campaign_error + unit) \<times> life_db" where
  "Resume flt ws c db =
     (case get_campaign flt ws c db of
        None \<Rightarrow> (Inl ErrNotFound, db)
      | Some r \<Rightarrow>
          if cm_status r \<noteq> StatusPaused then (Inl ErrNotResumable, db)
          else commit_or db (SetStatus flt ws c StatusRunning db))"

definition Rename ::
  "life_env \<Rightarrow> faults \<Rightarrow> uuid \<Rightarrow> uuid \<Rightarrow> string \<Rightarrow> life_db \<Rightarrow> (campaign_error + unit) \<times> life_db" where
  "Rename E flt ws c name db =
     (if \<not> le_valid_name E name then (Inl ErrValidation, db)
      else case get_campaign flt ws c db of
        None \<Rightarrow> (Inl ErrNotFound, db)
      | Some r \<Rightarrow> commit_or db (run_query flt ''RenameCampaign'' (RenameCampaign ws c name db)))"

definition SetTracking ::
  "faults \<Rightarrow> uuid \<Rightarrow> uuid \<Rightarrow> bool \<Rightarrow> life_db \<Rightarrow> (campaign_error + unit) \<times> life_db" where
  "SetTracking flt ws c enabled db =
     (case get_campaign flt ws c db of
        None \<Rightarrow> (Inl ErrNotFound, db)
      | Some r \<Rightarrow> commit_or db (run_query flt ''SetCampaignTracking'' (SetCampaignTracking ws c enabled db)))"

text \<open>The four deletes of a draft's dependents, and the guarded delete of the draft.\<close>

definition DeleteEnrollmentsByCampaign :: "uuid \<Rightarrow> uuid \<Rightarrow> job_db \<Rightarrow> job_db" where
  "DeleteEnrollmentsByCampaign ws c =
     on_core (\<lambda>d. d\<lparr>db_enrollments := filter (\<lambda>e. \<not> (en_campaign e = c \<and> en_ws e = ws)) (db_enrollments d)\<rparr>)"

definition DeleteStepsByCampaign :: "uuid \<Rightarrow> uuid \<Rightarrow> job_db \<Rightarrow> job_db" where
  "DeleteStepsByCampaign ws c j = j\<lparr>jd_steps := filter (\<lambda>s. \<not> (st_campaign s = c \<and> st_ws s = ws)) (jd_steps j)\<rparr>"

definition DeleteCampaignSendersByCampaign :: "uuid \<Rightarrow> uuid \<Rightarrow> job_db \<Rightarrow> job_db" where
  "DeleteCampaignSendersByCampaign ws c j =
     j\<lparr>jd_senders := filter (\<lambda>s. \<not> (cs_campaign s = c \<and> cs_ws s = ws)) (jd_senders j)\<rparr>"

definition draft_row :: "uuid \<Rightarrow> uuid \<Rightarrow> campaign \<Rightarrow> bool" where
  "draft_row ws c r \<longleftrightarrow> is_campaign ws c r \<and> cm_status r = ''draft''"

definition DeleteDraftCampaign :: "uuid \<Rightarrow> uuid \<Rightarrow> life_db \<Rightarrow> int \<times> life_db" where
  "DeleteDraftCampaign ws c db =
     (count_where (draft_row ws c) (jd_campaigns (lf_jobs db)),
      on_jobs (\<lambda>j. j\<lparr>jd_campaigns := filter (\<lambda>r. \<not> draft_row ws c r) (jd_campaigns j)\<rparr>) db)"

definition delete_draft_tx :: "faults \<Rightarrow> uuid \<Rightarrow> uuid \<Rightarrow> life_db \<Rightarrow> campaign_error + life_db" where
  "delete_draft_tx flt ws c db =
     and_then (run_query flt ''begin'' db) (\<lambda>db.
     and_then (run_query flt ''DeleteEnrollmentsByCampaign'' (on_jobs (DeleteEnrollmentsByCampaign ws c) db)) (\<lambda>db.
     and_then (run_query flt ''DeleteStepsByCampaign'' (on_jobs (DeleteStepsByCampaign ws c) db)) (\<lambda>db.
     and_then (run_query flt ''DeleteCampaignSendersByCampaign'' (on_jobs (DeleteCampaignSendersByCampaign ws c) db)) (\<lambda>db.
     and_then (run_query flt ''DeleteSendWindows'' (DeleteSendWindows ws c db)) (\<lambda>db.
     and_then (run_query flt ''DeleteDraftCampaign'' (DeleteDraftCampaign ws c db)) (\<lambda>(n, db).
       if n = 0 then Inl ErrNotDraft else run_query flt ''commit'' db))))))"

definition DeleteDraft :: "faults \<Rightarrow> uuid \<Rightarrow> uuid \<Rightarrow> life_db \<Rightarrow> (campaign_error + unit) \<times> life_db" where
  "DeleteDraft flt ws c db =
     (case get_campaign flt ws c db of
        None \<Rightarrow> (Inl ErrNotFound, db)
      | Some r \<Rightarrow>
          if cm_status r \<noteq> StatusDraft then (Inl ErrNotDraft, db)
          else commit_or db (delete_draft_tx flt ws c db))"

subsection \<open>The schedule\<close>

record Plan =
  pl_schedule :: schedule
  pl_daily_limit :: "int option"
  pl_max_new_leads :: "int option"

definition minDailyLimit :: int where [const_defs]: "minDailyLimit = 1"
definition maxDailyLimit :: int where [const_defs]: "maxDailyLimit = 1000000"
definition minNewLeadsPerDay :: int where [const_defs]: "minNewLeadsPerDay = 1"
definition maxNewLeadsPerDay :: int where [const_defs]: "maxNewLeadsPerDay = 1000000"

definition ListWindows :: "faults \<Rightarrow> uuid \<Rightarrow> uuid \<Rightarrow> life_db \<Rightarrow> campaign_error + send_window list" where
  "ListWindows flt ws c db =
     and_then (run_query flt ''ListSendWindows'' (ListSendWindows c ws (lf_jobs db)))
       (\<lambda>rows. Inr (map window_of rows))"

definition GetSchedule :: "faults \<Rightarrow> uuid \<Rightarrow> uuid \<Rightarrow> life_db \<Rightarrow> campaign_error + Plan" where
  "GetSchedule flt ws c db =
     (case get_campaign flt ws c db of
        None \<Rightarrow> Inl ErrNotFound
      | Some r \<Rightarrow>
          and_then (ListWindows flt ws c db) (\<lambda>sws.
            Inr \<lparr>pl_schedule = ScheduleFrom (cm_timezone r) sws, pl_daily_limit = cm_daily_limit r,
                 pl_max_new_leads = cm_max_new_leads_per_day r\<rparr>))"

definition ReplaceSchedule :: "faults \<Rightarrow> uuid \<Rightarrow> uuid \<Rightarrow> Plan \<Rightarrow> life_db \<Rightarrow> campaign_error + life_db" where
  "ReplaceSchedule flt ws c p db =
     and_then (run_query flt ''begin'' db) (\<lambda>db.
     and_then (run_query flt ''SetCampaignTimezone'' (SetCampaignTimezone ws c (timezone (pl_schedule p)) db)) (\<lambda>db.
     and_then (run_query flt ''SetCampaignDailyLimit'' (SetCampaignDailyLimit ws c (pl_daily_limit p) db)) (\<lambda>db.
     and_then (run_query flt ''SetCampaignMaxNewLeads'' (SetCampaignMaxNewLeads ws c (pl_max_new_leads p) db)) (\<lambda>db.
     and_then (run_query flt ''DeleteSendWindows'' (DeleteSendWindows ws c db)) (\<lambda>db.
     and_then (insertWindows flt ws c (sched_windows (pl_schedule p)) db) (\<lambda>db.
       run_query flt ''commit'' db))))))"

definition out_of_range :: "int option \<Rightarrow> int \<Rightarrow> int \<Rightarrow> bool" where
  "out_of_range limit lo hi \<longleftrightarrow> (case limit of None \<Rightarrow> False | Some n \<Rightarrow> n < lo \<or> hi < n)"

definition default_zone :: "Plan \<Rightarrow> Plan" where
  "default_zone p =
     (if timezone (pl_schedule p) = [] then p\<lparr>pl_schedule := (pl_schedule p)\<lparr>timezone := ''UTC''\<rparr>\<rparr> else p)"

definition SetSchedule ::
  "life_env \<Rightarrow> faults \<Rightarrow> uuid \<Rightarrow> uuid \<Rightarrow> Plan \<Rightarrow> life_db \<Rightarrow> (campaign_error + Plan) \<times> life_db" where
  "SetSchedule E flt ws c p0 db =
     (case get_campaign flt ws c db of
        None \<Rightarrow> (Inl ErrNotFound, db)
      | Some r \<Rightarrow>
          let p = default_zone p0 in
          if out_of_range (pl_daily_limit p) minDailyLimit maxDailyLimit then (Inl ErrDailyLimit, db)
          else if out_of_range (pl_max_new_leads p) minNewLeadsPerDay maxNewLeadsPerDay
          then (Inl ErrMaxNewLeadsPerDay, db)
          else (case Compile (LoadLocation (le_lib E)) (pl_schedule p) of
                  Inl e \<Rightarrow> (Inl (BadSchedule e), db)
                | Inr _ \<Rightarrow>
                    (case ReplaceSchedule flt ws c p db of
                       Inl e \<Rightarrow> (Inl e, db)
                     | Inr db' \<Rightarrow> (Inr p, db'))))"

end
