(* ===== verification/Campaign_Launch.thy ===== *)
theory Campaign_Launch
  imports Campaign_Life
begin

text \<open>
  Creating and launching a campaign (\<open>internal/app/campaign\<close>: \<open>Service.Create\<close>, \<open>Service.Launch\<close>,
  \<open>Service.spread\<close> and the store methods they call, \<open>PgStore.Create\<close>, \<open>EnrollTx\<close> and
  \<open>RescheduleBatch\<close>).

  Ids the database draws are arguments: two for the campaign and its first step, a function of the
  row's place for enrollments. \<open>nowdb\<close> is the database's \<open>now()\<close>, \<open>launched\<close> and \<open>now\<close> the clock as
  \<open>EnrollTx\<close> and \<open>spread\<close> read it. \<open>enq\<close> is the queue client's \<open>EnqueueAdvanceAt\<close>, given by the error it
  returns. A campaign row's copies of subject and bodies, which only \<open>Create\<close> writes, are left out.
\<close>

subsection \<open>Creating\<close>

record CreateInput =
  in_name :: string
  in_subject :: string
  in_body_text :: string
  in_body_html :: string
  in_mailbox :: uuid
  in_list :: uuid
  in_timezone :: string

text \<open>The row as the table's defaults complete it.\<close>

definition new_campaign :: "uuid \<Rightarrow> instant \<Rightarrow> uuid \<Rightarrow> CreateInput \<Rightarrow> campaign" where
  "new_campaign cid nowdb ws inp =
     \<lparr>cm_id = cid, cm_ws = ws, cm_name = in_name inp, cm_mailbox = in_mailbox inp, cm_list = in_list inp,
      cm_status = ''draft'', cm_timezone = ''UTC'', cm_rotation_mode = ''weighted'',
      cm_tracking_enabled = True, cm_daily_limit = None, cm_max_new_leads_per_day = None,
      cm_launched_at = None, cm_auto_pause_enabled = True, cm_bounce_pause_pct = f_int 8,
      cm_complaint_pause_pct = f_lit 15 10, cm_guardrails_enabled_at = nowdb\<rparr>"

definition CreateCampaign :: "uuid \<Rightarrow> instant \<Rightarrow> uuid \<Rightarrow> CreateInput \<Rightarrow> life_db \<Rightarrow> life_db" where
  "CreateCampaign cid nowdb ws inp =
     on_jobs (\<lambda>j. j\<lparr>jd_campaigns := jd_campaigns j @ [new_campaign cid nowdb ws inp]\<rparr>)"

definition first_step :: "uuid \<Rightarrow> uuid \<Rightarrow> uuid \<Rightarrow> CreateInput \<Rightarrow> step_row" where
  "first_step sid cid ws inp =
     \<lparr>st_id = sid, st_ws = ws, st_campaign = cid, st_order = 1, st_delay_seconds = 0,
      st_subject = in_subject inp, st_body_text = in_body_text inp, st_body_html = in_body_html inp,
      st_variant_weight = 1\<rparr>"

definition CreateStep :: "step_row \<Rightarrow> life_db \<Rightarrow> life_db" where
  "CreateStep s = on_jobs (\<lambda>j. j\<lparr>jd_steps := jd_steps j @ [s]\<rparr>)"

definition create_tx ::
  "faults \<Rightarrow> uuid \<Rightarrow> uuid \<Rightarrow> instant \<Rightarrow> uuid \<Rightarrow> CreateInput \<Rightarrow> life_db \<Rightarrow> campaign_error + life_db" where
  "create_tx flt cid sid nowdb ws inp db =
     (let sched = DefaultSchedule (in_timezone inp) in
      and_then (run_query flt ''begin'' db) (\<lambda>db.
      and_then (run_query flt ''CreateCampaign'' (CreateCampaign cid nowdb ws inp db)) (\<lambda>db.
      and_then (run_query flt ''CreateStep'' (CreateStep (first_step sid cid ws inp) db)) (\<lambda>db.
      and_then (if in_timezone inp \<noteq> []
                then run_query flt ''SetCampaignTimezone'' (SetCampaignTimezone ws cid (timezone sched) db)
                else Inr db) (\<lambda>db.
      and_then (insertWindows flt ws cid (sched_windows sched) db) (\<lambda>db.
        run_query flt ''commit'' db))))))"

definition Create ::
  "life_env \<Rightarrow> faults \<Rightarrow> uuid \<Rightarrow> uuid \<Rightarrow> instant \<Rightarrow> uuid \<Rightarrow> CreateInput \<Rightarrow> life_db
     \<Rightarrow> (campaign_error + unit) \<times> life_db" where
  "Create E flt cid sid nowdb ws inp db =
     (case le_mailbox_active E ws (in_mailbox inp) of
        Inl e \<Rightarrow> (Inl (StoreFailed e), db)
      | Inr False \<Rightarrow> (Inl ErrMailboxNotActive, db)
      | Inr True \<Rightarrow>
          (case le_list_exists E ws (in_list inp) of
             Inl e \<Rightarrow> (Inl (StoreFailed e), db)
           | Inr False \<Rightarrow> (Inl ErrListMissing, db)
           | Inr True \<Rightarrow> commit_or db (create_tx flt cid sid nowdb ws inp db)))"

subsection \<open>Enrolling the list\<close>

text \<open>The list's members that are contacts and not yet enrolled, each once.\<close>

definition enroll_contacts :: "uuid \<Rightarrow> uuid \<Rightarrow> life_db \<Rightarrow> uuid list" where
  "enroll_contacts ws c db =
     (case GetCampaign ws c db of
        None \<Rightarrow> []
      | Some r \<Rightarrow>
          let members = map snd (filter (\<lambda>m. fst m = cm_list r \<and> snd m \<in> set (map ct_id (jd_contacts (lf_jobs db))))
                                   (lf_members db));
              enrolled = map en_contact (filter (\<lambda>e. en_campaign e = c) (db_enrollments (jd_core (lf_jobs db))))
          in remdups (filter (\<lambda>ct. ct \<notin> set enrolled) members))"

definition new_enrollment :: "instant \<Rightarrow> uuid \<Rightarrow> uuid \<Rightarrow> uuid \<Rightarrow> uuid \<Rightarrow> enrollment" where
  "new_enrollment nowdb ws c i ct =
     \<lparr>en_id = i, en_ws = ws, en_campaign = c, en_contact = ct, current_step = 0, en_status = StatusActive,
      stop_reason = None, last_sent_at = None, next_due_at = Some nowdb, thread_root_id = '''',
      completed_at = None, stopped_at = None, cap_deferrals = 0, en_mailbox = None,
      awaiting_condition_step = None,
     reply_class = None, reply_source = None, replied_at = None\<rparr>"

definition EnrollListMembers ::
  "(nat \<Rightarrow> uuid) \<Rightarrow> instant \<Rightarrow> uuid \<Rightarrow> uuid \<Rightarrow> life_db \<Rightarrow> enrollment list" where
  "EnrollListMembers fresh nowdb ws c db =
     map (\<lambda>(k, ct). new_enrollment nowdb ws c (fresh k) ct) (enumerate 0 (enroll_contacts ws c db))"

definition add_enrollments :: "enrollment list \<Rightarrow> life_db \<Rightarrow> life_db" where
  "add_enrollments rows =
     on_jobs (on_core (\<lambda>d. d\<lparr>db_enrollments := db_enrollments d @ rows\<rparr>))"

text \<open>The ids the transaction returned; no row, and it commits nothing.\<close>

definition EnrollTx ::
  "faults \<Rightarrow> (nat \<Rightarrow> uuid) \<Rightarrow> instant \<Rightarrow> instant \<Rightarrow> uuid \<Rightarrow> uuid \<Rightarrow> life_db
     \<Rightarrow> campaign_error + uuid list \<times> life_db" where
  "EnrollTx flt fresh nowdb launched ws c db =
     and_then (run_query flt ''begin'' db) (\<lambda>_.
     and_then (run_query flt ''EnrollListMembers'' (EnrollListMembers fresh nowdb ws c db)) (\<lambda>rows.
       if rows = [] then Inr ([], db)
       else
         and_then (run_query flt ''SetCampaignStatus''
                     (SetCampaignStatus ws c StatusRunning (Some launched) (add_enrollments rows db))) (\<lambda>db.
         and_then (run_query flt ''commit'' db) (\<lambda>db. Inr (map en_id rows, db)))))"

subsection \<open>Spreading the sends\<close>

definition sched_window ::
  "life_env \<Rightarrow> faults \<Rightarrow> uuid \<Rightarrow> uuid \<Rightarrow> string \<Rightarrow> life_db \<Rightarrow> campaign_error + window" where
  "sched_window E flt ws c tz db =
     and_then (ListWindows flt ws c db) (\<lambda>sws.
       map_sum BadSchedule id (Compile (LoadLocation (le_lib E)) (ScheduleFrom tz sws)))"

text \<open>The loop over the enrollments, each with its offset; past the offsets the offset is 0.\<close>

fun place_all ::
  "lib \<Rightarrow> window \<Rightarrow> instant \<Rightarrow> duration list \<Rightarrow> uuid list \<Rightarrow> cadence_error + (uuid \<times> instant) list" where
  "place_all L w start offsets [] = Inr []"
| "place_all L w start offsets (i # ids) =
     (let offset = (case offsets of [] \<Rightarrow> 0 | x # _ \<Rightarrow> x) in
      and_then (NextAfterOffset (sha256 L) w start offset (uuid_String L i)) (\<lambda>t.
      and_then (place_all L w start (tl offsets) ids) (\<lambda>due. Inr ((i, t) # due))))"

definition spread ::
  "life_env \<Rightarrow> faults \<Rightarrow> instant \<Rightarrow> uuid \<Rightarrow> uuid \<Rightarrow> string \<Rightarrow> uuid list \<Rightarrow> life_db
     \<Rightarrow> campaign_error + (uuid \<times> instant) list" where
  "spread E flt now ws c tz ids db =
     (let L = le_lib E; key = uuid_String L c in
      and_then (sched_window E flt ws c tz db) (\<lambda>w.
      map_sum BadPlacement id
        (and_then (Next (sha256 L) w now key) (\<lambda>start.
         place_all L w start
           (Offsets (sha256 L) (OpenDuration w start) (int (length ids)) key) ids))))"

definition set_due :: "uuid \<Rightarrow> (uuid \<times> instant) list \<Rightarrow> life_db \<Rightarrow> life_db" where
  "set_due ws due =
     on_jobs (on_core (\<lambda>d. d\<lparr>db_enrollments :=
       fold (\<lambda>(i, t). SetEnrollmentDue ws i (Some t)) due (db_enrollments d)\<rparr>))"

definition RescheduleBatch :: "faults \<Rightarrow> uuid \<Rightarrow> (uuid \<times> instant) list \<Rightarrow> life_db \<Rightarrow> campaign_error + life_db" where
  "RescheduleBatch flt ws due db =
     (if due = [] then Inr db else run_query flt ''SetEnrollmentDueBatch'' (set_due ws due db))"

subsection \<open>Launching\<close>

record LaunchResult =
  TotalEnrolled :: int
  EnqueuedCount :: int
  FailedEnqueueCount :: int
  LastScheduledAt :: instant

definition zero_result :: LaunchResult where
  "zero_result = \<lparr>TotalEnrolled = 0, EnqueuedCount = 0, FailedEnqueueCount = 0, LastScheduledAt = 0\<rparr>"

definition maxTime :: "instant \<Rightarrow> instant \<Rightarrow> instant" where
  "maxTime a b = (if a < b then b else a)"

fun enqueue_all ::
  "lib \<Rightarrow> (string \<Rightarrow> string \<Rightarrow> instant \<Rightarrow> string option) \<Rightarrow> uuid \<Rightarrow> (uuid \<times> instant) list
     \<Rightarrow> LaunchResult \<times> life_db \<Rightarrow> LaunchResult \<times> life_db" where
  "enqueue_all L enq ws [] s = s"
| "enqueue_all L enq ws ((i, t) # due) (res, db) =
     enqueue_all L enq ws due
       (if enq (uuid_String L i) (uuid_String L ws) t \<noteq> None
        then (res\<lparr>FailedEnqueueCount := FailedEnqueueCount res + 1\<rparr>, db)
        else (res\<lparr>EnqueuedCount := EnqueuedCount res + 1,
                  LastScheduledAt := maxTime (LastScheduledAt res) t\<rparr>,
              db\<lparr>lf_queue := lf_queue db @ [(uuid_String L i, uuid_String L ws, t)]\<rparr>))"

definition Launch ::
  "life_env \<Rightarrow> faults \<Rightarrow> (string \<Rightarrow> string \<Rightarrow> instant \<Rightarrow> string option) \<Rightarrow> (nat \<Rightarrow> uuid)
     \<Rightarrow> instant \<Rightarrow> instant \<Rightarrow> instant \<Rightarrow> uuid \<Rightarrow> uuid \<Rightarrow> life_db
     \<Rightarrow> (LaunchResult \<times> campaign_error option) \<times> life_db" where
  "Launch E flt enq fresh nowdb launched now ws c db =
     (case get_campaign flt ws c db of
        None \<Rightarrow> ((zero_result, Some ErrNotFound), db)
      | Some r \<Rightarrow>
          if cm_status r \<noteq> StatusDraft then ((zero_result, Some ErrAlreadyLaunched), db)
          else (case run_query flt ''CountStepsByCampaign'' (CountStepsByCampaign ws c db) of
             Inl e \<Rightarrow> ((zero_result, Some e), db)
           | Inr steps \<Rightarrow>
               if steps = 0 then ((zero_result, Some ErrNoSteps), db)
               else (case EnrollTx flt fresh nowdb launched ws c db of
                  Inl e \<Rightarrow> ((zero_result, Some e), db)
                | Inr (ids, db) \<Rightarrow>
                    if ids = [] then ((zero_result, Some ErrEmptyList), db)
                    else
                      let res = zero_result\<lparr>TotalEnrolled := int (length ids)\<rparr> in
                      (case spread E flt now ws c (cm_timezone r) ids db of
                         Inl e \<Rightarrow> ((res, Some e), db)
                       | Inr due \<Rightarrow>
                           (case RescheduleBatch flt ws due db of
                              Inl e \<Rightarrow> ((res, Some e), db)
                            | Inr db \<Rightarrow>
                                (case enqueue_all (le_lib E) enq ws due (res, db) of
                                   (res, db) \<Rightarrow> ((res, None), db)))))))"

end
