(* ===== verification/Schedule_Facts.thy ===== *)
theory Schedule_Facts
  imports Campaign_Launch Job_Facts
begin

text \<open>
  What validating a sending plan is worth. A plan that compiles is one the windows table takes whole,
  with none of its constraints in the way, and what is read back of a stored plan compiles to the same
  window, so that neither the launch nor a step job built later can meet a schedule error.
\<close>

subsection \<open>Sorting and pairs\<close>

lemma insort_key_map: "insort_key f (g x) (map g xs) = map g (insort_key (\<lambda>a. f (g a)) x xs)"
  by (induction xs) auto

lemma sort_key_map: "sort_key f (map g xs) = map g (sort_key (\<lambda>a. f (g a)) xs)"
  by (induction xs) (auto simp: insort_key_map)

lemma sort_key_idem [simp]: "sort_key f (sort_key f xs) = sort_key f xs"
  by (simp add: sort_key_id_if_sorted)

text \<open>A symmetric relation between every two of a list's elements does not care how the list is
  arranged, nor about pairs that fall into different classes.\<close>

lemma sorted_wrt_insort:
  assumes "\<And>a b. R a b \<longleftrightarrow> R b a"
  shows "sorted_wrt R (insort_key f x xs) \<longleftrightarrow> sorted_wrt R (x # xs)"
  using assms by (induction xs) (auto simp: set_insort_key)

lemma sorted_wrt_sort:
  assumes "\<And>a b. R a b \<longleftrightarrow> R b a"
  shows "sorted_wrt R (sort_key f xs) \<longleftrightarrow> sorted_wrt R xs"
  by (induction xs) (simp_all add: sorted_wrt_insort [OF assms])

lemma sorted_wrt_classes:
  "sorted_wrt (\<lambda>a b. g a = g b \<longrightarrow> R a b) xs \<longleftrightarrow> (\<forall>k. sorted_wrt R (filter (\<lambda>a. g a = k) xs))"
proof (induction xs)
  case (Cons a xs)
  have "(\<forall>k. sorted_wrt R (filter (\<lambda>a. g a = k) (a # xs)))
      \<longleftrightarrow> (\<forall>b \<in> set xs. g b = g a \<longrightarrow> R a b) \<and> (\<forall>k. sorted_wrt R (filter (\<lambda>a. g a = k) xs))"
    by (auto split: if_splits)
  with Cons show ?case by auto
qed simp

subsection \<open>The days a schedule opens\<close>

definition interval_of :: "send_window \<Rightarrow> interval" where
  "interval_of sw = \<lparr>start_min = sw_start sw, end_min = sw_end sw\<rparr>"

definition weekday_ok :: "send_window \<Rightarrow> bool" where
  "weekday_ok sw \<longleftrightarrow> 0 \<le> sw_weekday sw \<and> sw_weekday sw \<le> 6"

definition day_of :: "send_window list \<Rightarrow> nat \<Rightarrow> interval list" where
  "day_of sws d = map interval_of (filter (\<lambda>sw. sw_weekday sw = int d) sws)"

lemma day_of_Cons:
  "weekday_ok sw \<Longrightarrow> day_of (sw # sws) d
     = (if d = nat (sw_weekday sw) then interval_of sw # day_of sws d else day_of sws d)"
  by (auto simp: day_of_def weekday_ok_def)

lemma collect_days_ok:
  "\<forall>sw \<in> set sws. weekday_ok sw \<Longrightarrow> collect_days sws days = Inr (\<lambda>d. days d @ day_of sws d)"
proof (induction sws days rule: collect_days.induct)
  case (2 sw sws days)
  then have ok: "weekday_ok sw" by simp
  then have "(\<lambda>d. (days(nat (sw_weekday sw) := days (nat (sw_weekday sw)) @ [interval_of sw])) d @ day_of sws d)
      = (\<lambda>d. days d @ day_of (sw # sws) d)"
    by (auto simp: day_of_Cons)
  with 2 ok show ?case by (auto simp: weekday_ok_def interval_of_def not_le Let_def fun_upd_def)
qed (simp add: day_of_def)

lemma collect_days_bad: "collect_days sws days = Inr D \<Longrightarrow> sw \<in> set sws \<Longrightarrow> weekday_ok sw"
  by (induction sws days rule: collect_days.induct) (auto simp: weekday_ok_def Let_def split: if_splits)

lemma Compile_Inr:
  "Compile load s = Inr w \<longleftrightarrow>
     (\<exists>l. load (timezone s) = Some l \<and> (\<forall>sw \<in> set (sched_windows s). weekday_ok sw)
        \<and> w = \<lparr>win_loc = l, win_days = (\<lambda>d. sort_key start_min (day_of (sched_windows s) d))\<rparr>
        \<and> validate_window w = None)"
proof (cases "\<forall>sw \<in> set (sched_windows s). weekday_ok sw")
  case True
  then show ?thesis
    by (auto simp: Compile_def collect_days_ok NewWindow_def Let_def
        split: option.splits sum.splits cadence_error.splits)
next
  case False
  then have "collect_days (sched_windows s) (\<lambda>_. []) \<noteq> Inr D" for D by (auto dest: collect_days_bad)
  with False show ?thesis by (auto simp: Compile_def split: option.splits sum.splits)
qed

lemma Compile_days:
  assumes "Compile load s = Inr w" and "sched_windows s' \<noteq> [] \<Longrightarrow> timezone s' = timezone s"
    and "sched_windows s' \<noteq> []"
    and "\<And>sw. sw \<in> set (sched_windows s') \<Longrightarrow> sw \<in> set (sched_windows s)"
    and "\<And>d. sort_key start_min (day_of (sched_windows s') d) = sort_key start_min (day_of (sched_windows s) d)"
  shows "Compile load s' = Inr w"
  using assms by (fastforce simp: Compile_Inr)

lemma compiled_not_empty: "Compile load s = Inr w \<Longrightarrow> sched_windows s \<noteq> []"
  by (auto simp: Compile_Inr validate_window_def day_of_def split: option.splits)

subsection \<open>A compiled plan passes the table\<close>

definition apart :: "send_window \<Rightarrow> send_window \<Rightarrow> bool" where
  "apart a b \<longleftrightarrow> sw_end a \<le> sw_start b \<or> sw_end b \<le> sw_start a"

lemma apart_sym: "apart a b \<longleftrightarrow> apart b a"
  by (auto simp: apart_def)

lemma overlaps_rows:
  "overlaps (window_row_of ws c a) (window_row_of ws c b) \<longleftrightarrow> sw_weekday a = sw_weekday b \<and> \<not> apart a b"
  by (auto simp: overlaps_def window_row_of_def apart_def)

lemma compiled_windows:
  assumes "Compile load s = Inr w"
  shows "sw \<in> set (sched_windows s) \<Longrightarrow> window_row_legal (window_row_of ws c sw)"
    and "sorted_wrt (\<lambda>a b. sw_weekday a = sw_weekday b \<longrightarrow> apart a b) (sched_windows s)"
proof -
  let ?S = "sched_windows s"
  from assms have ok: "\<forall>sw \<in> set ?S. weekday_ok sw" and v: "validate_window w = None"
    and days: "win_days w = (\<lambda>d. sort_key start_min (day_of ?S d))"
    by (auto simp: Compile_Inr)
  have day: "good_day (sort_key start_min (day_of ?S d))" if "d < 7" for d
    using validate_window_good(1) [OF v that] days by simp
  show "window_row_legal (window_row_of ws c sw)" if "sw \<in> set ?S"
  proof -
    from that ok have d: "0 \<le> sw_weekday sw" "sw_weekday sw \<le> 6" by (auto simp: weekday_ok_def)
    with that have "interval_of sw \<in> set (day_of ?S (nat (sw_weekday sw)))" by (auto simp: day_of_def)
    with day [of "nat (sw_weekday sw)"] d have "good_interval (interval_of sw)" by (simp add: good_day_def)
    with d show ?thesis
      by (auto simp: good_interval_def interval_of_def window_row_legal_def window_row_of_def)
  qed
  show "sorted_wrt (\<lambda>a b. sw_weekday a = sw_weekday b \<longrightarrow> apart a b) ?S"
    unfolding sorted_wrt_classes
  proof
    fix k
    show "sorted_wrt apart (filter (\<lambda>sw. sw_weekday sw = k) ?S)"
    proof (cases "0 \<le> k \<and> k \<le> 6")
      case True
      then have k: "nat k < 7" "int (nat k) = k" by auto
      let ?F = "sort_key (\<lambda>sw. start_min (interval_of sw)) (filter (\<lambda>sw. sw_weekday sw = k) ?S)"
      have "sorted_wrt (\<lambda>a b. end_min a \<le> start_min b) (map interval_of ?F)"
        using day [OF k(1)] k(2) by (simp add: good_day_def day_of_def sort_key_map)
      then have "sorted_wrt apart ?F"
        unfolding sorted_wrt_map by (rule sorted_wrt_mono_rel [rotated]) (simp add: apart_def interval_of_def)
      then show ?thesis using sorted_wrt_sort apart_sym by blast
    next
      case False
      with ok have "filter (\<lambda>sw. sw_weekday sw = k) ?S = []" by (auto simp: filter_empty_conv weekday_ok_def)
      then show ?thesis by simp
    qed
  qed
qed

lemma CreateSendWindows_ok:
  assumes "\<forall>sw \<in> set sws. window_row_legal (window_row_of ws c sw)"
    and "\<forall>sw \<in> set sws. \<forall>r \<in> set rows. \<not> overlaps (window_row_of ws c sw) r"
    and "sorted_wrt (\<lambda>a b. sw_weekday a = sw_weekday b \<longrightarrow> apart a b) sws"
  shows "CreateSendWindows ws c sws rows = Some (rows @ map (window_row_of ws c) sws)"
  using assms
proof (induction sws arbitrary: rows)
  case (Cons sw sws)
  then have "\<forall>b \<in> set sws. \<forall>r \<in> set (rows @ [window_row_of ws c sw]). \<not> overlaps (window_row_of ws c b) r"
    using apart_sym by (auto simp: overlaps_rows)
  from Cons.IH [OF _ this] Cons.prems show ?case
    by (auto simp: Let_def list_ex_iff)
qed simp

lemma CreateSendWindows_SomeD:
  "CreateSendWindows ws c sws rows = Some rows' \<Longrightarrow> rows' = rows @ map (window_row_of ws c) sws"
  by (induction ws c sws rows rule: CreateSendWindows.induct) (auto simp: Let_def split: if_splits)

subsection \<open>Reading a stored plan back\<close>

lemma window_of_row [simp]: "window_of (window_row_of ws c sw) = sw"
  by (simp add: window_of_def window_row_of_def)

definition week_order :: "send_window list \<Rightarrow> send_window list" where
  "week_order sws = sort_key sw_weekday (sort_key sw_start sws)"

lemma set_week_order [simp]: "set (week_order sws) = set sws"
  by (simp add: week_order_def)

lemma day_of_week_order: "sort_key start_min (day_of (week_order sws) d) = sort_key start_min (day_of sws d)"
  by (simp add: week_order_def day_of_def sort_key_stable filter_sort sort_key_map interval_of_def)

lemma Compile_week_order:
  "Compile load s = Inr w \<Longrightarrow> Compile load (s\<lparr>sched_windows := week_order (sched_windows s)\<rparr>) = Inr w"
  by (auto simp: Compile_Inr day_of_week_order)

lemma run_query_Inr: "run_query flt stmt x = Inr y \<longleftrightarrow> flt stmt = None \<and> x = y"
  by (simp add: run_query_def split: option.split)

definition planned :: "Plan \<Rightarrow> campaign \<Rightarrow> campaign" where
  "planned p r = r\<lparr>cm_timezone := timezone (pl_schedule p), cm_daily_limit := pl_daily_limit p,
     cm_max_new_leads_per_day := pl_max_new_leads p\<rparr>"

definition with_plan :: "uuid \<Rightarrow> uuid \<Rightarrow> Plan \<Rightarrow> life_db \<Rightarrow> life_db" where
  "with_plan ws c p = on_jobs (\<lambda>j. j\<lparr>
     jd_campaigns := update_where (is_campaign ws c) (planned p) (jd_campaigns j),
     jd_windows := filter (\<lambda>r. \<not> (ww_campaign r = c \<and> ww_ws r = ws)) (jd_windows j)
       @ map (window_row_of ws c) (sched_windows (pl_schedule p))\<rparr>)"

definition plan_fits :: "uuid \<Rightarrow> uuid \<Rightarrow> Plan \<Rightarrow> life_db \<Rightarrow> bool" where
  "plan_fits ws c p db \<longleftrightarrow>
     CreateSendWindows ws c (sched_windows (pl_schedule p))
       (filter (\<lambda>r. \<not> (ww_campaign r = c \<and> ww_ws r = ws)) (jd_windows (lf_jobs db))) \<noteq> None"

lemma insertWindows_Inr:
  "insertWindows flt ws c sws db = Inr db' \<Longrightarrow>
     db' = on_jobs (\<lambda>j. j\<lparr>jd_windows := jd_windows j @ map (window_row_of ws c) sws\<rparr>) db"
  by (auto simp: insertWindows_def and_then_Inr run_query_Inr on_jobs_def dest!: CreateSendWindows_SomeD
      split: if_splits option.splits)

lemmas schedule_writes = SetCampaignTimezone_def SetCampaignDailyLimit_def SetCampaignMaxNewLeads_def
  update_campaign_def on_jobs_def DeleteSendWindows_def

lemma planned_rows:
  "SetCampaignMaxNewLeads ws c n (SetCampaignDailyLimit ws c d (SetCampaignTimezone ws c tz db))
     = on_jobs (\<lambda>j. j\<lparr>jd_campaigns := update_where (is_campaign ws c)
         (\<lambda>r. r\<lparr>cm_timezone := tz, cm_daily_limit := d, cm_max_new_leads_per_day := n\<rparr>) (jd_campaigns j)\<rparr>) db"
  by (simp add: schedule_writes update_where_def comp_def is_campaign_def cong: if_cong)

lemma ReplaceSchedule_Inr:
  assumes "ReplaceSchedule flt ws c p db = Inr db'"
  shows "db' = with_plan ws c p db"
  using assms
  by (auto simp: ReplaceSchedule_def and_then_Inr run_query_Inr planned_rows DeleteSendWindows_def on_jobs_def
      with_plan_def planned_def [abs_def] dest!: insertWindows_Inr)

lemma ReplaceSchedule_runs:
  assumes "plan_fits ws c p db"
  shows "ReplaceSchedule no_faults ws c p db = Inr (with_plan ws c p db)"
proof -
  obtain rows where "CreateSendWindows ws c (sched_windows (pl_schedule p))
     (filter (\<lambda>r. \<not> (ww_campaign r = c \<and> ww_ws r = ws)) (jd_windows (lf_jobs db))) = Some rows"
    using assms by (auto simp: plan_fits_def)
  with CreateSendWindows_SomeD [OF this] show ?thesis
    by (cases "sched_windows (pl_schedule p) = []")
      (auto simp: ReplaceSchedule_def and_then_def run_query_def planned_rows DeleteSendWindows_def on_jobs_def
        insertWindows_def with_plan_def planned_def [abs_def])
qed

lemma compiled_plan_fits:
  assumes "Compile load (pl_schedule p) = Inr w"
    and "\<forall>r \<in> set (jd_windows (lf_jobs db)). ww_campaign r = c \<longrightarrow> ww_ws r = ws"
  shows "plan_fits ws c p db"
  unfolding plan_fits_def
  by (subst CreateSendWindows_ok)
    (use assms(2) compiled_windows [OF assms(1)] in \<open>auto simp: overlaps_def window_row_of_def\<close>)

lemma with_plan_windows:
  "map window_of (ListSendWindows c ws (lf_jobs (with_plan ws c p db))) = week_order (sched_windows (pl_schedule p))"
  by (simp add: with_plan_def on_jobs_def ListSendWindows_def week_order_def filter_map comp_def sort_key_map
      window_row_of_def [THEN arg_cong [where f = ww_campaign]] window_row_of_def [THEN arg_cong [where f = ww_ws]]
      window_row_of_def [THEN arg_cong [where f = ww_weekday]] window_row_of_def [THEN arg_cong [where f = ww_start_minute]])

lemma GetCampaign_planned:
  "GetCampaign ws c (with_plan ws c p db) = map_option (planned p) (GetCampaign ws c db)"
proof -
  have "select_one (is_campaign ws c) (update_where (is_campaign ws c) (planned p) rows)
      = map_option (planned p) (select_one (is_campaign ws c) rows)" for rows
    by (induction rows) (auto simp: is_campaign_def planned_def)
  then show ?thesis by (simp add: GetCampaign_def with_plan_def on_jobs_def)
qed

subsection \<open>Setting a schedule\<close>

lemma default_zone_zone: "timezone (pl_schedule (default_zone p)) \<noteq> []"
  by (simp add: default_zone_def)

lemma SetSchedule_Inr:
  assumes "SetSchedule E flt ws c p0 db = (Inr p, db')"
  obtains r w where "GetCampaign ws c db = Some r" "p = default_zone p0" "db' = with_plan ws c p db"
    "Compile (LoadLocation (le_lib E)) (pl_schedule p) = Inr w"
  using assms ReplaceSchedule_Inr [of flt ws c "default_zone p0" db]
  by (auto simp: SetSchedule_def get_campaign_def Let_def split: option.splits if_splits sum.splits)

lemma stored_schedule:
  assumes "Compile load (pl_schedule p) = Inr w" and "timezone (pl_schedule p) \<noteq> []"
  shows "ScheduleFrom (timezone (pl_schedule p)) (week_order (sched_windows (pl_schedule p)))
      = (pl_schedule p)\<lparr>sched_windows := week_order (sched_windows (pl_schedule p))\<rparr>"
  using compiled_not_empty [OF assms(1)] assms(2) by (auto simp: ScheduleFrom_def set_empty [symmetric] simp del: set_empty)

text \<open>C34: a plan that was stored is a plan that can be used. \<open>GetSchedule\<close> reads back the same timezone,
  the same limits and the same windows, ordered by weekday and start, and the schedule read back compiles
  to the very window the plan was validated as; the schedule a step job loads later is that one, so no
  send of the campaign can fail on its schedule.\<close>

theorem stored_plan_compiles:
  assumes "SetSchedule E flt ws c p0 db = (Inr p, db')" and "je_lib J = le_lib E"
  shows "\<exists>q w. GetSchedule no_faults ws c db' = Inr q
     \<and> pl_daily_limit q = pl_daily_limit p \<and> pl_max_new_leads q = pl_max_new_leads p
     \<and> timezone (pl_schedule q) = timezone (pl_schedule p)
     \<and> sched_windows (pl_schedule q) = sort_key sw_weekday (sort_key sw_start (sched_windows (pl_schedule p)))
     \<and> Compile (LoadLocation (le_lib E)) (pl_schedule p) = Inr w
     \<and> Compile (LoadLocation (le_lib E)) (pl_schedule q) = Inr w
     \<and> loadSchedule J no_faults stmt ws c (timezone (pl_schedule p)) (lf_jobs db') = Inr (pl_schedule q)"
  using assms(1)
proof (cases rule: SetSchedule_Inr)
  case (1 r w)
  define s where "s = (pl_schedule p)\<lparr>sched_windows := week_order (sched_windows (pl_schedule p))\<rparr>"
  have s: "ScheduleFrom (timezone (pl_schedule p)) (week_order (sched_windows (pl_schedule p))) = s"
    using stored_schedule [OF 1(4)] default_zone_zone 1(2) by (simp add: s_def)
  have w: "Compile (LoadLocation (le_lib E)) s = Inr w" unfolding s_def by (rule Compile_week_order [OF 1(4)])
  have "GetSchedule no_faults ws c db' = Inr \<lparr>pl_schedule = s, pl_daily_limit = pl_daily_limit p,
      pl_max_new_leads = pl_max_new_leads p\<rparr>"
    using 1(1) s by (simp add: GetSchedule_def get_campaign_def 1(3) GetCampaign_planned planned_def ListWindows_def
        run_query_def and_then_def with_plan_windows)
  moreover have "loadSchedule J no_faults stmt ws c (timezone (pl_schedule p)) (lf_jobs db') = Inr s"
    using w s assms(2) by (simp add: loadSchedule_def query_def and_then_def 1(3) with_plan_windows Let_def)
  ultimately show ?thesis using 1(4) w by (simp add: s_def week_order_def)
qed

text \<open>Validation and the windows table agree. When nothing else fails and the campaign's rows are its
  own workspace's, \<open>SetSchedule\<close> succeeds exactly for a campaign that exists, limits in range and a
  schedule that compiles, since no plan that compiles meets a check or the overlap constraint of the
  table; and whatever fails, a refused plan leaves the stored one as it was.\<close>

theorem compiled_plans_are_accepted:
  assumes "\<forall>r \<in> set (jd_windows (lf_jobs db)). ww_campaign r = c \<longrightarrow> ww_ws r = ws"
  shows "((\<exists>p db'. SetSchedule E no_faults ws c p0 db = (Inr p, db')) \<longleftrightarrow>
       GetCampaign ws c db \<noteq> None
       \<and> \<not> out_of_range (pl_daily_limit p0) 1 1000000 \<and> \<not> out_of_range (pl_max_new_leads p0) 1 1000000
       \<and> (\<exists>w. Compile (LoadLocation (le_lib E)) (pl_schedule (default_zone p0)) = Inr w))
     \<and> (SetSchedule E flt ws c p0 db = (Inl e, db') \<longrightarrow> db' = db)"
proof
  have limits: "pl_daily_limit (default_zone p0) = pl_daily_limit p0"
    "pl_max_new_leads (default_zone p0) = pl_max_new_leads p0" by (simp_all add: default_zone_def)
  have run: "ReplaceSchedule no_faults ws c (default_zone p0) db = Inr (with_plan ws c (default_zone p0) db)"
    if "Compile (LoadLocation (le_lib E)) (pl_schedule (default_zone p0)) = Inr w" for w
    by (intro ReplaceSchedule_runs compiled_plan_fits [OF that] assms)
  show "(\<exists>p db'. SetSchedule E no_faults ws c p0 db = (Inr p, db')) \<longleftrightarrow>
       GetCampaign ws c db \<noteq> None
       \<and> \<not> out_of_range (pl_daily_limit p0) 1 1000000 \<and> \<not> out_of_range (pl_max_new_leads p0) 1 1000000
       \<and> (\<exists>w. Compile (LoadLocation (le_lib E)) (pl_schedule (default_zone p0)) = Inr w)"
    by (cases "Compile (LoadLocation (le_lib E)) (pl_schedule (default_zone p0))")
      (auto simp: SetSchedule_def get_campaign_def Let_def limits run const_defs split: option.splits)
  show "SetSchedule E flt ws c p0 db = (Inl e, db') \<longrightarrow> db' = db"
    by (auto simp: SetSchedule_def Let_def split: option.splits if_splits sum.splits)
qed

subsection \<open>Witnesses\<close>

definition life_env0 :: life_env where
  "life_env0 = \<lparr>le_lib = plain_lib, le_valid_name = (\<lambda>n. n \<noteq> []), le_mailbox_active = (\<lambda>_ _. Inr True),
     le_list_exists = (\<lambda>_ _. Inr True)\<rparr>"

definition life_sample :: life_db where
  "life_sample = \<lparr>lf_jobs = pool_db, lf_members = [], lf_queue = []\<rparr>"

definition sample_plan :: Plan where
  "sample_plan = \<lparr>pl_schedule = \<lparr>timezone = [],
      sched_windows = [\<lparr>sw_weekday = 3, sw_start = 720, sw_end = 1440\<rparr>, \<lparr>sw_weekday = 3, sw_start = 0, sw_end = 720\<rparr>]\<rparr>,
     pl_daily_limit = Some 50, pl_max_new_leads = None\<rparr>"

lemma sample_plan_compiles:
  "\<exists>w. Compile (LoadLocation (le_lib life_env0)) (pl_schedule (default_zone sample_plan)) = Inr w"
  by (simp add: Compile_Inr life_env0_def plain_lib_def sample_lib_def sample_plan_def default_zone_def weekday_ok_def
      validate_window_def day_of_def interval_of_def upt_rec MinutesPerDay_def)

lemma sample_campaign: "GetCampaign 1 2 life_sample \<noteq> None"
  by (simp add: GetCampaign_def life_sample_def pool_db_def pool_campaign_def is_campaign_def)

lemma sample_windows: "jd_windows (lf_jobs life_sample) = []"
  by (simp add: life_sample_def pool_db_def)

theorem compiled_plans_are_accepted_witness:
  "\<exists>p db'. SetSchedule life_env0 no_faults 1 2 sample_plan life_sample = (Inr p, db')"
  using compiled_plans_are_accepted [of life_sample 2 1 life_env0 sample_plan] sample_plan_compiles sample_campaign
  by (simp add: sample_windows, simp add: sample_plan_def out_of_range_def)

lemma sample_set:
  obtains p db' where "SetSchedule life_env0 no_faults 1 2 sample_plan life_sample = (Inr p, db')"
proof -
  have "ReplaceSchedule no_faults 1 2 (default_zone sample_plan) life_sample
      = Inr (with_plan 1 2 (default_zone sample_plan) life_sample)"
    using sample_plan_compiles by (auto intro!: ReplaceSchedule_runs compiled_plan_fits simp: sample_windows)
  with that sample_campaign sample_plan_compiles show thesis
    by (auto simp: SetSchedule_def get_campaign_def Let_def const_defs out_of_range_def default_zone_def sample_plan_def)
qed

theorem stored_plan_compiles_witness:
  "\<exists>p db' q w. SetSchedule life_env0 no_faults 1 2 sample_plan life_sample = (Inr p, db')
     \<and> GetSchedule no_faults 1 2 db' = Inr q
     \<and> Compile (LoadLocation plain_lib) (pl_schedule q) = Inr w
     \<and> loadSchedule pool_env no_faults ''s'' 1 2 (timezone (pl_schedule p)) (lf_jobs db') = Inr (pl_schedule q)"
proof -
  obtain p db' where run: "SetSchedule life_env0 no_faults 1 2 sample_plan life_sample = (Inr p, db')"
    by (rule sample_set)
  have lib: "je_lib pool_env = le_lib life_env0" "le_lib life_env0 = plain_lib"
    by (simp_all add: pool_env_def life_env0_def)
  from stored_plan_compiles [OF run lib(1), of "''s''"] run show ?thesis by (auto simp: lib)
qed

end
