(* ===== verification/Launch_Facts.thy ===== *)
theory Launch_Facts
  imports Schedule_Facts
begin

text \<open>
  What a launch does. Either nothing happened or the whole list is enrolled, each contact once, and the
  campaign runs, whatever failed on the way; and when nothing failed, and the clock does not change in the
  days around, every new enrollment is due inside an open interval of the campaign's window, at the very
  instant its task was queued for.
\<close>

subsection \<open>The open time of a day\<close>

lemma good_day_total:
  assumes "good_day ivs" and "\<forall>iv \<in> set ivs. p \<le> start_min iv" and "p \<le> 1440"
  shows "sum_list (map (\<lambda>iv. end_min iv - start_min iv) ivs) \<le> 1440 - p"
  using assms
proof (induction ivs arbitrary: p)
  case (Cons iv ivs)
  then have "sum_list (map (\<lambda>iv. end_min iv - start_min iv) ivs) \<le> 1440 - end_min iv"
    by (intro Cons.IH) (auto simp: good_day_def good_interval_def)
  with Cons.prems show ?case by simp
qed simp

lemma good_day_member:
  assumes "good_day ivs" and "iv \<in> set ivs"
  shows "1 \<le> sum_list (map (\<lambda>iv. end_min iv - start_min iv) ivs)"
proof -
  have "1 \<le> end_min iv - start_min iv" using assms by (auto simp: good_day_def good_interval_def)
  also have "\<dots> \<le> sum_list (map (\<lambda>iv. end_min iv - start_min iv) ivs)"
    using assms by (intro member_le_sum_list) (auto simp: good_day_def good_interval_def)
  finally show ?thesis .
qed

lemma OpenDuration_bounds:
  assumes "validate_window w = None" and "Contains w t"
  shows "millisecond \<le> OpenDuration w t" and "OpenDuration w t \<le> 2 ^ 53"
proof -
  define ivs where "ivs = win_days w (weekday (win_loc w) t)"
  define total where "total = sum_list (map (\<lambda>iv. end_min iv - start_min iv) ivs)"
  have "weekday (win_loc w) t < 7" by (simp add: weekday_def)
  from validate_window_good(1) [OF assms(1) this] have good: "good_day ivs" by (simp add: ivs_def)
  obtain iv where "iv \<in> set ivs" using assms(2) by (auto simp: Contains_def ivs_def list_ex_iff)
  with good have "1 \<le> total" unfolding total_def by (rule good_day_member)
  moreover have "total \<le> 1440"
    using good_day_total [OF good, of 0] good by (simp add: total_def good_day_def good_interval_def)
  ultimately show "millisecond \<le> OpenDuration w t" "OpenDuration w t \<le> 2 ^ 53"
    by (simp_all add: OpenDuration_def millisecond_def minute_def flip: ivs_def total_def)
qed

subsection \<open>Placing every enrollment\<close>

lemma place_all_placed:
  assumes "steady_around (win_loc w) off start" and "validate_window w = None"
    and "\<forall>i \<in> set ids. uuid_String L i \<noteq> []" and "0 < OpenDuration w start"
    and "\<forall>x \<in> set offsets. 0 \<le> x \<and> x < OpenDuration w start"
  shows "\<exists>due. place_all L w start offsets ids = Inr due \<and> map fst due = ids
     \<and> (\<forall>t \<in> snd ` set due. Contains w t \<and> start - minute < t \<and> t < start + 8 * day_ns)"
  using assms(3,5)
proof (induction ids arbitrary: offsets)
  case (Cons i ids)
  define x where "x = (case offsets of [] \<Rightarrow> 0 | x # _ \<Rightarrow> x)"
  have x: "0 \<le> x" "x < OpenDuration w start" using Cons.prems(2) assms(4) by (auto simp: x_def split: list.splits)
  from Cons.prems have key: "uuid_String L i \<noteq> []" by simp
  from NextAfterOffset_placed [OF assms(1,2) key x, of "sha256 L"] obtain t where
    t: "NextAfterOffset (sha256 L) w start x (uuid_String L i) = Inr t" "Contains w t" "start - minute < t"
      "t < start + 8 * day_ns" by blast
  have "\<forall>x \<in> set (tl offsets). 0 \<le> x \<and> x < OpenDuration w start"
    using Cons.prems(2) by (cases offsets) auto
  with Cons.IH [of "tl offsets"] Cons.prems(1) obtain due where due: "place_all L w start (tl offsets) ids = Inr due"
    "map fst due = ids" "\<forall>t \<in> snd ` set due. Contains w t \<and> start - minute < t \<and> t < start + 8 * day_ns" by auto
  with t show ?case by (intro exI [of _ "(i, t) # due"]) (simp add: x_def [symmetric] and_then_def)
qed simp

lemma spread_placed:
  assumes "sched_window E flt ws c tz db = Inr w" "clock_steady (win_loc w) off (now - 3 * day_ns) (now + 16 * day_ns)"
    and "validate_window w = None" and "\<forall>i. uuid_String (le_lib E) i \<noteq> []"
  shows "\<exists>due. spread E flt now ws c tz ids db = Inr due \<and> map fst due = ids
     \<and> (\<forall>t \<in> snd ` set due. Contains w t \<and> now - 2 * minute < t)"
proof -
  let ?w = "in_fixed w off"
  have fixed: "win_loc ?w = fixed_zone off" "validate_window ?w = None" using assms(3) by simp_all
  define key where "key = uuid_String (le_lib E) c"
  have "key \<noteq> []" using assms(4) by (simp add: key_def)
  from Next_returns [OF fixed this] obtain start where
    found: "Next (sha256 (le_lib E)) ?w now key = Inr start" by blast
  have around: "steady_around (win_loc w) off now"
    by (rule steady_mono [OF assms(2)]) (simp_all add: day_ns_def)
  have start: "Next (sha256 (le_lib E)) w now key = Inr start" by (simp add: Next_steady [OF around] found)
  obtain k where "next_on (sha256 (le_lib E)) ?w now key k = Some start"
    using found by (auto simp: Next_def dest!: first_some_SomeD split: if_splits option.splits)
  note placed = next_on_Some_placed [OF fixed this]
  have near: "now - minute < start" "start < now + 8 * day_ns"
    using abs_minute_gap [OF placed(3)] Next_within [OF fixed found] by simp_all
  then have "Contains w start = Contains ?w start"
    by (intro Contains_steady [OF assms(2)]) (auto simp: day_ns_def minute_def)
  with placed(1) near have at_start: "Contains w start" "now - minute < start"
    by (simp_all add: Contains_fixed [OF fixed(1)])
  have steady: "steady_around (win_loc w) off start"
    by (rule steady_mono [OF assms(2)]) (use near in \<open>auto simp: day_ns_def minute_def\<close>)
  note bounds = OpenDuration_bounds [OF assms(3) at_start(1)]
  have pos: "0 < OpenDuration w start" using bounds(1) by (simp add: millisecond_def)
  have keys: "\<forall>i \<in> set ids. uuid_String (le_lib E) i \<noteq> []" using assms(4) by simp
  from place_all_placed [OF steady assms(3) keys pos, of "Offsets (sha256 (le_lib E)) (OpenDuration w start) (int (length ids)) key"]
    Offsets_range(3) [OF bounds]
  obtain due where "place_all (le_lib E) w start
      (Offsets (sha256 (le_lib E)) (OpenDuration w start) (int (length ids)) key) ids = Inr due"
    "map fst due = ids" "\<forall>t \<in> snd ` set due. Contains w t \<and> start - minute < t" by blast
  with assms(1) start at_start(2) show ?thesis
    by (intro exI [of _ due]) (auto simp: spread_def Let_def and_then_def key_def)
qed

subsection \<open>Stamping the due times\<close>

definition due_row :: "uuid \<Rightarrow> (uuid \<times> instant) list \<Rightarrow> enrollment \<Rightarrow> enrollment" where
  "due_row ws due e =
     (case map_of due (en_id e) of
        None \<Rightarrow> e
      | Some t \<Rightarrow> if en_ws e = ws \<and> en_status e = StatusActive then e\<lparr>next_due_at := Some t\<rparr> else e)"

lemma due_row_keeps [simp]:
  "en_id (due_row ws due e) = en_id e" "en_ws (due_row ws due e) = en_ws e"
  "en_campaign (due_row ws due e) = en_campaign e" "en_contact (due_row ws due e) = en_contact e"
  "en_status (due_row ws due e) = en_status e"
  by (simp_all add: due_row_def split: option.split)

lemma due_rows:
  assumes "distinct (map fst due)"
  shows "fold (\<lambda>(i, t). SetEnrollmentDue ws i (Some t)) due rows = map (due_row ws due) rows"
  using assms
proof (induction due arbitrary: rows)
  case (Cons d due)
  obtain i t where d: "d = (i, t)" by force
  have "map_of due i = None" using Cons.prems d by (auto simp: map_of_eq_None_iff)
  then have "due_row ws due (if active_row ws i e then e\<lparr>next_due_at := Some t\<rparr> else e) = due_row ws (d # due) e" for e
    by (auto simp: due_row_def active_row_def is_row_def d split: option.splits)
  with Cons show ?case
    by (simp add: d SetEnrollmentDue_def update_where_def comp_def)
qed (simp add: due_row_def map_idI)

lemma due_row_untouched: "en_id e \<notin> fst ` set due \<Longrightarrow> due_row ws due e = e"
  by (simp add: due_row_def map_of_eq_None_iff [THEN iffD2] split: option.split)

subsection \<open>Queueing the tasks\<close>

definition queued ::
  "lib \<Rightarrow> (string \<Rightarrow> string \<Rightarrow> instant \<Rightarrow> string option) \<Rightarrow> uuid \<Rightarrow> (uuid \<times> instant) list
     \<Rightarrow> (string \<times> string \<times> instant) list" where
  "queued L enq ws due =
     filter (\<lambda>(e, w, t). enq e w t = None) (map (\<lambda>(i, t). (uuid_String L i, uuid_String L ws, t)) due)"

lemma enqueue_all_spec:
  "enqueue_all L enq ws due (res, db) =
     (\<lparr>TotalEnrolled = TotalEnrolled res,
       EnqueuedCount = EnqueuedCount res + int (length (queued L enq ws due)),
       FailedEnqueueCount = FailedEnqueueCount res + int (length due - length (queued L enq ws due)),
       LastScheduledAt = fold max (map (\<lambda>(e, w, t). t) (queued L enq ws due)) (LastScheduledAt res)\<rparr>,
      db\<lparr>lf_queue := lf_queue db @ queued L enq ws due\<rparr>)"
proof (induction due arbitrary: res db)
  case (Cons d due)
  obtain i t where d: "d = (i, t)" by force
  have le: "length (queued L enq ws due) \<le> length due"
    unfolding queued_def by (rule order_trans [OF length_filter_le]) simp
  show ?case
    by (cases "enq (uuid_String L i) (uuid_String L ws) t")
      (use le in \<open>auto simp: d Cons queued_def maxTime_def max_def Suc_diff_le intro!: arg_cong [where f = "\<lambda>x. fold _ _ x"]\<close>)
qed (simp add: queued_def)

subsection \<open>Enrolling\<close>

definition enrolled_rows :: "life_db \<Rightarrow> enrollment list" where
  "enrolled_rows db = db_enrollments (jd_core (lf_jobs db))"

lemma enrolled_rows_simps [simp]:
  "enrolled_rows (add_enrollments rows db) = enrolled_rows db @ rows"
  "enrolled_rows (SetCampaignStatus ws c s t db) = enrolled_rows db"
  "enrolled_rows (db\<lparr>lf_queue := q\<rparr>) = enrolled_rows db"
  by (simp_all add: enrolled_rows_def add_enrollments_def on_jobs_def on_core_def SetCampaignStatus_def
      update_campaign_def)

lemma enrolled_rows_set_due:
  "distinct (map fst due) \<Longrightarrow> enrolled_rows (set_due ws due db) = map (due_row ws due) (enrolled_rows db)"
  by (simp add: enrolled_rows_def set_due_def on_jobs_def on_core_def due_rows)

lemma GetCampaign_simps [simp]:
  "GetCampaign ws c (add_enrollments rows db) = GetCampaign ws c db"
  "GetCampaign ws c (set_due ws' due db) = GetCampaign ws c db"
  "GetCampaign ws c (db\<lparr>lf_queue := q\<rparr>) = GetCampaign ws c db"
  by (simp_all add: GetCampaign_def add_enrollments_def set_due_def on_jobs_def on_core_def)

definition launched_row :: "string \<Rightarrow> instant option \<Rightarrow> campaign \<Rightarrow> campaign" where
  "launched_row s t r = r\<lparr>cm_status := s,
     cm_launched_at := (case cm_launched_at r of None \<Rightarrow> t | Some u \<Rightarrow> Some u)\<rparr>"

lemma GetCampaign_SetCampaignStatus:
  "GetCampaign ws c (SetCampaignStatus ws c s t db) = map_option (launched_row s t) (GetCampaign ws c db)"
proof -
  have "select_one (is_campaign ws c) (update_where (is_campaign ws c) (launched_row s t) rows)
      = map_option (launched_row s t) (select_one (is_campaign ws c) rows)" for rows
    by (induction rows) (auto simp: is_campaign_def launched_row_def)
  then show ?thesis
    by (simp add: GetCampaign_def SetCampaignStatus_def update_campaign_def on_jobs_def launched_row_def [abs_def])
qed

lemma ids_EnrollListMembers:
  "map en_id (EnrollListMembers fresh nowdb ws c db) = map fresh [0..<length (enroll_contacts ws c db)]"
  by (simp add: EnrollListMembers_def comp_def case_prod_beta new_enrollment_def flip: map_map [of fresh fst, unfolded comp_def])

lemma rows_EnrollListMembers:
  "EnrollListMembers fresh nowdb ws c db =
     map (\<lambda>k. new_enrollment nowdb ws c (fresh k) (enroll_contacts ws c db ! k)) [0..<length (enroll_contacts ws c db)]"
  by (rule nth_equalityI) (simp_all add: EnrollListMembers_def nth_enumerate_eq)

lemma EnrollTx_Inr:
  assumes "EnrollTx flt fresh nowdb launched ws c db = Inr (ids, db')"
  shows "ids = map fresh [0..<length (enroll_contacts ws c db)]"
    and "ids \<noteq> [] \<Longrightarrow> db' = SetCampaignStatus ws c StatusRunning (Some launched)
                     (add_enrollments (EnrollListMembers fresh nowdb ws c db) db)"
    and "ids = [] \<Longrightarrow> db' = db"
  using assms unfolding ids_EnrollListMembers [symmetric, of fresh ws c db nowdb]
  by (auto simp: EnrollTx_def and_then_Inr run_query_Inr split: if_splits)

text \<open>How far a launch got: nothing happened, or the enrollments were committed and, if the batch that
  stamps their due times went through, stamped.\<close>

lemma place_all_ids: "place_all L w start offsets ids = Inr due \<Longrightarrow> map fst due = ids"
  by (induction L w start offsets ids arbitrary: due rule: place_all.induct) (auto simp: and_then_Inr Let_def)

lemma spread_ids: "spread E flt now ws c tz ids db = Inr due \<Longrightarrow> map fst due = ids"
  by (auto simp: spread_def Let_def and_then_Inr map_sum_Inr dest: place_all_ids)

definition enrolled_db :: "(nat \<Rightarrow> uuid) \<Rightarrow> instant \<Rightarrow> instant \<Rightarrow> uuid \<Rightarrow> uuid \<Rightarrow> life_db \<Rightarrow> life_db" where
  "enrolled_db fresh nowdb launched ws c db =
     SetCampaignStatus ws c StatusRunning (Some launched)
       (add_enrollments (EnrollListMembers fresh nowdb ws c db) db)"

lemma set_due_Nil [simp]: "set_due ws [] db = db"
  by (simp add: set_due_def on_jobs_def on_core_def)

lemma Launch_cases:
  assumes "Launch E flt enq fresh nowdb launched now ws c db = ((res, err), db')"
  obtains (unchanged) e where "TotalEnrolled res = 0" "err = Some e" "db' = db"
  | (committed) r due q where "GetCampaign ws c db = Some r" "cm_status r = StatusDraft"
    "enroll_contacts ws c db \<noteq> []" "TotalEnrolled res = int (length (enroll_contacts ws c db))"
    "due = [] \<or> map fst due = map fresh [0..<length (enroll_contacts ws c db)]"
    "db' = (set_due ws due (enrolled_db fresh nowdb launched ws c db))\<lparr>lf_queue := q\<rparr>"
proof (cases "TotalEnrolled res = 0 \<and> err \<noteq> None \<and> db' = db")
  case False
  let ?ids = "map fresh [0..<length (enroll_contacts ws c db)]"
  obtain r steps ids db1 where r: "GetCampaign ws c db = Some r" "cm_status r = StatusDraft"
    and tx: "EnrollTx flt fresh nowdb launched ws c db = Inr (ids, db1)" "ids \<noteq> []"
    and rest: "((res, err), db') = (let res = zero_result\<lparr>TotalEnrolled := int (length ids)\<rparr> in
        (case spread E flt now ws c (cm_timezone r) ids db1 of
           Inl e \<Rightarrow> ((res, Some e), db1)
         | Inr due \<Rightarrow>
             (case RescheduleBatch flt ws due db1 of
                Inl e \<Rightarrow> ((res, Some e), db1)
              | Inr db \<Rightarrow> (case enqueue_all (le_lib E) enq ws due (res, db) of (res, db) \<Rightarrow> ((res, None), db)))))"
    using assms False
    by (auto simp: Launch_def get_campaign_def zero_result_def dest: EnrollTx_Inr
        split: option.splits if_splits sum.splits prod.splits)
  have ids: "ids = ?ids" and db1: "db1 = enrolled_db fresh nowdb launched ws c db"
    using EnrollTx_Inr [OF tx(1)] tx(2) by (simp_all add: enrolled_db_def)
  have n: "enroll_contacts ws c db \<noteq> []" "length ids = length (enroll_contacts ws c db)"
    using ids tx(2) by auto
  have same: "db1\<lparr>lf_queue := lf_queue db1\<rparr> = db1" by simp
  show thesis
  proof (cases "spread E flt now ws c (cm_timezone r) ids db1")
    case (Inl e)
    with rest n same show thesis
      by (intro committed [OF r n(1), of "[]" "lf_queue db1"]) (simp_all add: Let_def zero_result_def db1)
  next
    case (Inr due)
    from spread_ids [OF this] have due: "map fst due = ?ids" by (simp add: ids)
    show thesis
    proof (cases "RescheduleBatch flt ws due db1")
      case (Inl e)
      with Inr rest n same show thesis
        by (intro committed [OF r n(1), of "[]" "lf_queue db1"]) (simp_all add: Let_def zero_result_def db1)
    next
      case ok: (Inr db2)
      then have "db2 = set_due ws due db1" by (auto simp: RescheduleBatch_def run_query_Inr split: if_splits)
      with ok Inr rest n due show thesis
        by (intro committed [OF r n(1), of due]) (simp_all add: Let_def zero_result_def enqueue_all_spec db1)
    qed
  qed
qed (use unchanged in blast)

subsection \<open>All or nothing\<close>

text \<open>The ids \<open>gen_random_uuid()\<close> drew for a launch: different from each other and from those in use.\<close>

definition ids_drawn :: "(nat \<Rightarrow> uuid) \<Rightarrow> nat \<Rightarrow> life_db \<Rightarrow> bool" where
  "ids_drawn fresh n db \<longleftrightarrow>
     inj_on fresh {..<n} \<and> (\<forall>e \<in> set (enrolled_rows db). en_id e \<notin> fresh ` {..<n})"

lemma enrolled_db_rows:
  "enrolled_rows (enrolled_db fresh nowdb launched ws c db) = enrolled_rows db @ EnrollListMembers fresh nowdb ws c db"
  by (simp add: enrolled_db_def)

lemma enroll_contacts_facts:
  assumes "GetCampaign ws c db = Some r"
  shows "distinct (enroll_contacts ws c db)"
    and "ct \<in> set (enroll_contacts ws c db) \<longleftrightarrow>
      (cm_list r, ct) \<in> set (lf_members db) \<and> ct \<in> ct_id ` set (jd_contacts (lf_jobs db))
      \<and> (\<forall>e \<in> set (enrolled_rows db). \<not> (en_campaign e = c \<and> en_contact e = ct))"
  using assms by (force simp: enroll_contacts_def Let_def enrolled_rows_def)+

lemma enrolled_unique:
  assumes "GetCampaign ws c db = Some r" and "unique_key (\<lambda>e. (en_campaign e, en_contact e)) (enrolled_rows db)"
  shows "unique_key (\<lambda>e. (en_campaign e, en_contact e)) (enrolled_rows db @ EnrollListMembers fresh nowdb ws c db)"
proof -
  have "map (\<lambda>e. (en_campaign e, en_contact e)) (EnrollListMembers fresh nowdb ws c db)
      = map (Pair c) (enroll_contacts ws c db)"
    by (rule nth_equalityI) (simp_all add: EnrollListMembers_def nth_enumerate_eq new_enrollment_def)
  with assms(2) enroll_contacts_facts [OF assms(1)] show ?thesis
    by (auto simp: unique_key_def distinct_map inj_on_def)
qed

lemma drawn_keys:
  assumes "map fst due = map fresh [0..<n]"
  shows "fst ` set due = fresh ` {..<n}" and "inj_on fresh {..<n} \<Longrightarrow> distinct (map fst due)"
proof -
  have "set (map fst due) = set (map fresh [0..<n])" using assms by (rule arg_cong)
  then show "fst ` set due = fresh ` {..<n}" by (simp add: atLeast0LessThan)
  show "inj_on fresh {..<n} \<Longrightarrow> distinct (map fst due)"
    unfolding assms by (simp add: distinct_map atLeast0LessThan)
qed

lemma stamped_rows:
  assumes "ids_drawn fresh (length (enroll_contacts ws c db)) db"
    and "due = [] \<or> map fst due = map fresh [0..<length (enroll_contacts ws c db)]"
  shows "enrolled_rows ((set_due ws due (enrolled_db fresh nowdb launched ws c db))\<lparr>lf_queue := q\<rparr>)
     = enrolled_rows db @ map (due_row ws due) (EnrollListMembers fresh nowdb ws c db)"
proof -
  have "fst ` set due \<subseteq> fresh ` {..<length (enroll_contacts ws c db)}"
    using assms(2) by (elim disjE) (simp_all add: drawn_keys(1))
  then have old: "map (due_row ws due) (enrolled_rows db) = enrolled_rows db"
    using assms(1) by (intro map_idI due_row_untouched) (auto simp: ids_drawn_def)
  have "distinct (map fst due)"
    using assms drawn_keys(2) by (auto simp: ids_drawn_def)
  with old show ?thesis by (simp add: enrolled_rows_set_due enrolled_db_rows)
qed

text \<open>C32: whatever fails, a launch enrolls the whole list or nothing. Either it reports an error and the
  database is as before, or the campaign it found a draft now runs, the enrollments that were there are
  untouched, every contact on its list has an enrollment and none has two.\<close>

theorem launch_is_all_or_nothing:
  assumes "Launch E flt enq fresh nowdb launched now ws c db = ((res, err), db')"
    and "ids_drawn fresh (length (enroll_contacts ws c db)) db"
    and "unique_key (\<lambda>e. (en_campaign e, en_contact e)) (enrolled_rows db)"
  shows "TotalEnrolled res = 0 \<and> err \<noteq> None \<and> db' = db
     \<or> (\<exists>r r'. GetCampaign ws c db = Some r \<and> cm_status r = StatusDraft
          \<and> GetCampaign ws c db' = Some r' \<and> cm_status r' = StatusRunning
          \<and> cm_launched_at r' \<noteq> None
          \<and> take (length (enrolled_rows db)) (enrolled_rows db') = enrolled_rows db
          \<and> length (enrolled_rows db') = length (enrolled_rows db) + nat (TotalEnrolled res)
          \<and> unique_key (\<lambda>e. (en_campaign e, en_contact e)) (enrolled_rows db')
          \<and> (\<forall>ct. (cm_list r, ct) \<in> set (lf_members db) \<and> ct \<in> ct_id ` set (jd_contacts (lf_jobs db)) \<longrightarrow>
               (\<exists>e \<in> set (enrolled_rows db'). en_campaign e = c \<and> en_contact e = ct)))"
  using assms(1)
proof (cases rule: Launch_cases)
  case (committed r due q)
  let ?new = "EnrollListMembers fresh nowdb ws c db"
  have rows: "enrolled_rows db' = enrolled_rows db @ map (due_row ws due) ?new"
    unfolding committed(6) by (rule stamped_rows [OF assms(2) committed(5)])
  have len: "length ?new = length (enroll_contacts ws c db)" by (simp add: EnrollListMembers_def)
  have keys: "map (\<lambda>e. (en_campaign e, en_contact e)) (enrolled_rows db')
      = map (\<lambda>e. (en_campaign e, en_contact e)) (enrolled_rows db @ ?new)"
    by (simp add: rows)
  then have unique: "unique_key (\<lambda>e. (en_campaign e, en_contact e)) (enrolled_rows db')"
    using enrolled_unique [OF committed(1) assms(3), of fresh nowdb] by (simp add: unique_key_def)
  have "\<exists>e \<in> set (enrolled_rows db'). en_campaign e = c \<and> en_contact e = ct"
    if "(cm_list r, ct) \<in> set (lf_members db)" "ct \<in> ct_id ` set (jd_contacts (lf_jobs db))" for ct
  proof (cases "ct \<in> set (enroll_contacts ws c db)")
    case True
    then obtain k where "k < length (enroll_contacts ws c db)" "enroll_contacts ws c db ! k = ct"
      by (auto simp: in_set_conv_nth)
    then have "new_enrollment nowdb ws c (fresh k) ct \<in> set ?new" by (auto simp: rows_EnrollListMembers)
    then show ?thesis by (force simp: rows new_enrollment_def)
  next
    case False
    with that enroll_contacts_facts(2) [OF committed(1)] show ?thesis by (auto simp: rows)
  qed
  moreover have "GetCampaign ws c db' = Some (launched_row StatusRunning (Some launched) r)"
    using committed(1) by (simp add: committed(6) enrolled_db_def GetCampaign_SetCampaignStatus)
  ultimately show ?thesis
    using committed(1,2,4) unique
    by (intro disjI2 exI [of _ r] exI [of _ "launched_row StatusRunning (Some launched) r"])
      (simp_all add: launched_row_def rows len split: option.split)
qed simp

text \<open>So a launch whose spreading failed is not made good by another one: the campaign runs, and every later
  launch is refused.\<close>

lemma launch_is_not_retried:
  assumes "Launch E flt enq fresh nowdb launched now ws c db = ((res, err), db')" and "TotalEnrolled res \<noteq> 0"
  shows "Launch E no_faults enq' fresh' nowdb' launched' now' ws c db' = ((zero_result, Some ErrAlreadyLaunched), db')"
  using assms(1)
proof (cases rule: Launch_cases)
  case (committed r due q)
  then have "GetCampaign ws c db' = Some (launched_row StatusRunning (Some launched) r)"
    by (simp add: enrolled_db_def GetCampaign_SetCampaignStatus)
  then show ?thesis by (simp add: Launch_def get_campaign_def launched_row_def const_defs)
qed (use assms(2) in simp)

subsection \<open>When nothing fails\<close>

definition launch_window :: "life_env \<Rightarrow> uuid \<Rightarrow> uuid \<Rightarrow> life_db \<Rightarrow> campaign \<Rightarrow> window \<Rightarrow> bool" where
  "launch_window E ws c db r w \<longleftrightarrow>
     Compile (LoadLocation (le_lib E))
       (ScheduleFrom (cm_timezone r) (map window_of (ListSendWindows c ws (lf_jobs db)))) = Inr w"

lemma sched_window_enrolled:
  assumes "launch_window E ws c db r w"
  shows "sched_window E no_faults ws c (cm_timezone r) (enrolled_db fresh nowdb launched ws c db) = Inr w"
  using assms
  by (simp add: launch_window_def sched_window_def ListWindows_def and_then_def run_query_def enrolled_db_def
      ListSendWindows_def SetCampaignStatus_def update_campaign_def add_enrollments_def on_jobs_def on_core_def)

lemma Launch_runs:
  assumes "GetCampaign ws c db = Some r" "cm_status r = StatusDraft" "CountStepsByCampaign ws c db \<noteq> 0"
    and "enroll_contacts ws c db \<noteq> []"
    and "spread E no_faults now ws c (cm_timezone r) (map fresh [0..<length (enroll_contacts ws c db)])
           (enrolled_db fresh nowdb launched ws c db) = Inr due" and "due \<noteq> []"
  shows "Launch E no_faults enq fresh nowdb launched now ws c db =
     (let q = queued (le_lib E) enq ws due; n = length (enroll_contacts ws c db) in
      ((\<lparr>TotalEnrolled = int n, EnqueuedCount = int (length q),
         FailedEnqueueCount = int (length due - length q), LastScheduledAt = fold max (map (\<lambda>(e, w, t). t) q) 0\<rparr>, None),
       (set_due ws due (enrolled_db fresh nowdb launched ws c db))\<lparr>lf_queue := lf_queue db @ q\<rparr>))"
proof -
  have "EnrollListMembers fresh nowdb ws c db \<noteq> []"
    using assms(4) by (auto simp: rows_EnrollListMembers)
  then have tx: "EnrollTx no_faults fresh nowdb launched ws c db
      = Inr (map fresh [0..<length (enroll_contacts ws c db)], enrolled_db fresh nowdb launched ws c db)"
    by (simp add: EnrollTx_def and_then_def run_query_def enrolled_db_def ids_EnrollListMembers)
  have q: "lf_queue (set_due ws due (enrolled_db fresh nowdb launched ws c db)) = lf_queue db"
    by (simp add: set_due_def enrolled_db_def SetCampaignStatus_def update_campaign_def add_enrollments_def on_jobs_def)
  show ?thesis
    using assms(1,2,3,4,6) tx
    by (simp add: Launch_def get_campaign_def run_query_def assms(5) RescheduleBatch_def enqueue_all_spec zero_result_def
        q Let_def)
qed

text \<open>C33: A launch that nothing interrupts gives every new enrollment its place, as long as the zone of the
  campaign keeps one offset from three days before now to sixteen days after. The campaign runs; each
  contact to enroll has one new row, due inside an open interval of the campaign's window and less than two
  minutes before now at the worst; a task is queued for exactly that instant unless the queue refused it,
  and the counts add up to the enrollments. The last scheduled instant is no earlier than any task's. Near
  a change of offset a due time can lie outside the window (\<open>Next_leaves_window_on_offset_change\<close>).\<close>

theorem launch_places_every_send:
  assumes "GetCampaign ws c db = Some r" "cm_status r = StatusDraft" "CountStepsByCampaign ws c db \<noteq> 0"
    and "enroll_contacts ws c db \<noteq> []" and "ids_drawn fresh (length (enroll_contacts ws c db)) db"
    and "launch_window E ws c db r w" and "clock_steady (win_loc w) off (now - 3 * day_ns) (now + 16 * day_ns)"
    and "\<forall>i. uuid_String (le_lib E) i \<noteq> []"
  shows "\<exists>res db' due. Launch E no_faults enq fresh nowdb launched now ws c db = ((res, None), db')
     \<and> GetCampaign ws c db' = Some (launched_row StatusRunning (Some launched) r)
     \<and> enrolled_rows db' = enrolled_rows db
         @ map (\<lambda>k. (new_enrollment nowdb ws c (fresh k) (enroll_contacts ws c db ! k))\<lparr>next_due_at := Some (due k)\<rparr>)
             [0..<length (enroll_contacts ws c db)]
     \<and> (\<forall>k < length (enroll_contacts ws c db). Contains w (due k) \<and> now - 2 * minute < due k)
     \<and> lf_queue db' = lf_queue db @ filter (\<lambda>(e, v, t). enq e v t = None)
         (map (\<lambda>k. (uuid_String (le_lib E) (fresh k), uuid_String (le_lib E) ws, due k))
             [0..<length (enroll_contacts ws c db)])
     \<and> TotalEnrolled res = int (length (enroll_contacts ws c db))
     \<and> EnqueuedCount res + FailedEnqueueCount res = TotalEnrolled res
     \<and> (\<forall>x \<in> set (drop (length (lf_queue db)) (lf_queue db')). snd (snd x) \<le> LastScheduledAt res)"
proof -
  let ?n = "length (enroll_contacts ws c db)"
  let ?ids = "map fresh [0..<?n]" and ?db1 = "enrolled_db fresh nowdb launched ws c db"
  have "validate_window w = None" using assms(6) by (auto simp: launch_window_def Compile_Inr)
  from spread_placed [OF sched_window_enrolled [OF assms(6)] assms(7) this assms(8)] obtain due where
    due: "spread E no_faults now ws c (cm_timezone r) ?ids ?db1 = Inr due" "map fst due = ?ids"
      "\<forall>t \<in> snd ` set due. Contains w t \<and> now - 2 * minute < t" by blast
  define due_at where "due_at k = snd (due ! k)" for k
  have len: "length due = ?n" using arg_cong [OF due(2), of length] by simp
  have due_eq: "due = map (\<lambda>k. (fresh k, due_at k)) [0..<?n]"
  proof (rule nth_equalityI)
    fix k assume k: "k < length due"
    then have "fst (due ! k) = ?ids ! k" by (metis due(2) nth_map)
    with k len show "due ! k = map (\<lambda>k. (fresh k, due_at k)) [0..<?n] ! k" by (simp add: due_at_def prod_eq_iff)
  qed (simp add: len)
  have "due \<noteq> []" using len assms(4) by auto
  note run = Launch_runs [OF assms(1-4) due(1) this, of enq, unfolded Let_def]
  define q where "q = queued (le_lib E) enq ws due"
  have q: "q = filter (\<lambda>(e, v, t). enq e v t = None)
         (map (\<lambda>k. (uuid_String (le_lib E) (fresh k), uuid_String (le_lib E) ws, due_at k)) [0..<?n])"
    by (simp add: q_def queued_def, subst due_eq) (simp add: comp_def)
  have le: "length q \<le> ?n" unfolding q by (rule order_trans [OF length_filter_le]) simp
  have placed: "Contains w (due_at k) \<and> now - 2 * minute < due_at k" if "k < ?n" for k
    using due(3) that len by (simp add: due_at_def)
  have inj: "inj_on fresh {..<?n}" using assms(5) by (simp add: ids_drawn_def)
  have row: "due_row ws due (new_enrollment nowdb ws c (fresh k) ct)
      = (new_enrollment nowdb ws c (fresh k) ct)\<lparr>next_due_at := Some (due_at k)\<rparr>" if "k < ?n" for k ct
  proof -
    have "distinct (map fst due)" by (rule drawn_keys(2) [OF due(2) inj])
    moreover have "(fresh k, due_at k) \<in> set due" using that by (subst due_eq) simp
    ultimately have "map_of due (fresh k) = Some (due_at k)" by simp
    then show ?thesis by (simp add: due_row_def new_enrollment_def)
  qed
  have rows: "enrolled_rows ((set_due ws due ?db1)\<lparr>lf_queue := lf_queue db @ q\<rparr>) = enrolled_rows db
      @ map (\<lambda>k. (new_enrollment nowdb ws c (fresh k) (enroll_contacts ws c db ! k))\<lparr>next_due_at := Some (due_at k)\<rparr>) [0..<?n]"
    by (subst stamped_rows [OF assms(5) disjI2 [OF due(2)]]) (simp add: rows_EnrollListMembers row)
  have cam: "GetCampaign ws c ((set_due ws due ?db1)\<lparr>lf_queue := lf_queue db @ q\<rparr>)
      = Some (launched_row StatusRunning (Some launched) r)"
    using assms(1) by (simp add: enrolled_db_def GetCampaign_SetCampaignStatus)
  have last: "snd (snd x) \<le> fold max (map (\<lambda>(e, w, t). t) q) 0" if "x \<in> set q" for x
    using that by (intro fold_max_ge disjI2) (force simp: case_prod_beta)
  show ?thesis
    by (intro exI [of _ "\<lparr>TotalEnrolled = int ?n, EnqueuedCount = int (length q),
          FailedEnqueueCount = int (length due - length q), LastScheduledAt = fold max (map (\<lambda>(e, w, t). t) q) 0\<rparr>"]
        exI [of _ "(set_due ws due ?db1)\<lparr>lf_queue := lf_queue db @ q\<rparr>"] exI [of _ due_at])
      (use run rows cam placed last le q len in \<open>simp flip: q_def\<close>)
qed

subsection \<open>Witnesses\<close>

definition draft_campaign :: campaign where
  "draft_campaign = pool_campaign\<lparr>cm_status := ''draft'', cm_list := 9\<rparr>"

definition draft_db :: life_db where
  "draft_db = \<lparr>lf_jobs = pool_db\<lparr>jd_campaigns := [draft_campaign],
      jd_core := (jd_core pool_db)\<lparr>db_enrollments := []\<rparr>\<rparr>,
     lf_members = [(9, ct_id pool_contact), (8, 1)], lf_queue = []\<rparr>"

definition loud_env :: life_env where
  "loud_env = life_env0\<lparr>le_lib := plain_lib\<lparr>uuid_String := (\<lambda>_. ''id'')\<rparr>\<rparr>"

definition draw_id :: "nat \<Rightarrow> uuid" where
  "draw_id k = of_nat (k + 40)"

lemma draft_facts:
  "GetCampaign 1 2 draft_db = Some draft_campaign" "cm_status draft_campaign = StatusDraft"
  "CountStepsByCampaign 1 2 draft_db \<noteq> 0" "enroll_contacts 1 2 draft_db = [ct_id pool_contact]"
  "ids_drawn draw_id (length (enroll_contacts 1 2 draft_db)) draft_db"
  "launch_window loud_env 1 2 draft_db draft_campaign weekdays"
  "clock_steady (win_loc weekdays) 0 (9 - 3 * day_ns) (9 + 16 * day_ns)"
  "\<forall>i. uuid_String (le_lib loud_env) i \<noteq> []"
  "unique_key (\<lambda>e. (en_campaign e, en_contact e)) (enrolled_rows draft_db)"
proof -
  show cam: "GetCampaign 1 2 draft_db = Some draft_campaign" "cm_status draft_campaign = StatusDraft"
    by (simp_all add: GetCampaign_def draft_db_def draft_campaign_def pool_campaign_def is_campaign_def const_defs)
  show "CountStepsByCampaign 1 2 draft_db \<noteq> 0"
    by (simp add: CountStepsByCampaign_def draft_db_def pool_db_def pool_step_def count_where_def)
  show contacts: "enroll_contacts 1 2 draft_db = [ct_id pool_contact]"
    by (simp add: enroll_contacts_def cam, simp add: draft_db_def draft_campaign_def pool_db_def pool_contact_def)
  show "ids_drawn draw_id (length (enroll_contacts 1 2 draft_db)) draft_db"
    unfolding contacts by (simp add: ids_drawn_def enrolled_rows_def draft_db_def lessThan_Suc)
  show "launch_window loud_env 1 2 draft_db draft_campaign weekdays"
    using pool_sched
    by (simp add: launch_window_def loud_env_def life_env0_def ListSendWindows_def draft_db_def pool_db_def ScheduleFrom_def
        draft_campaign_def pool_campaign_def pool_env_def)
  show "clock_steady (win_loc weekdays) 0 (9 - 3 * day_ns) (9 + 16 * day_ns)"
    by (simp add: weekdays_def steady_fixed day_ns_def)
  show "\<forall>i. uuid_String (le_lib loud_env) i \<noteq> []" by (simp add: loud_env_def)
  show "unique_key (\<lambda>e. (en_campaign e, en_contact e)) (enrolled_rows draft_db)"
    by (simp add: unique_key_def enrolled_rows_def draft_db_def)
qed

theorem launch_places_every_send_witness:
  "\<exists>res db' due. Launch loud_env no_faults (\<lambda>_ _ _. None) draw_id 7 8 9 1 2 draft_db = ((res, None), db')
     \<and> Contains weekdays due
     \<and> enrolled_rows db' = [(new_enrollment 7 1 2 40 (ct_id pool_contact))\<lparr>next_due_at := Some due\<rparr>]
     \<and> lf_queue db' = [(''id'', ''id'', due)] \<and> EnqueuedCount res + FailedEnqueueCount res = 1"
  using launch_places_every_send [OF draft_facts(1,2,3) _ draft_facts(5,6,7,8), of "\<lambda>_ _ _. None" 7 8]
  by (fastforce simp: draft_facts(4) enrolled_rows_def [of draft_db] draft_db_def [THEN arg_cong [where f = lf_queue]]
      draft_db_def [THEN arg_cong [where f = lf_jobs]] loud_env_def draw_id_def)

theorem launch_is_all_or_nothing_witness:
  "\<exists>res err db' e. Launch loud_env (\<lambda>s. if s = ''ListSendWindows'' then Some ''down'' else None) (\<lambda>_ _ _. None)
        draw_id 7 8 9 1 2 draft_db = ((res, err), db')
     \<and> err = Some (StoreFailed ''down'') \<and> e \<in> set (enrolled_rows db') \<and> en_contact e = ct_id pool_contact"
proof -
  let ?flt = "\<lambda>s. if s = ''ListSendWindows'' then Some ''down'' else None"
  obtain res err db' where run: "Launch loud_env ?flt (\<lambda>_ _ _. None) draw_id 7 8 9 1 2 draft_db = ((res, err), db')"
    by (metis prod.collapse)
  have tx: "EnrollTx ?flt draw_id 7 8 1 2 draft_db = Inr ([40], enrolled_db draw_id 7 8 1 2 draft_db)"
    by (simp add: EnrollTx_def and_then_def run_query_def enrolled_db_def EnrollListMembers_def draft_facts(4) new_enrollment_def draw_id_def)
  from run have res: "TotalEnrolled res = 1" "err = Some (StoreFailed ''down'')"
    by (auto simp: Launch_def get_campaign_def draft_facts(1,2,3) run_query_def tx Let_def spread_def sched_window_def
        ListWindows_def and_then_def zero_result_def)
  have "\<exists>e \<in> set (enrolled_rows db'). en_contact e = ct_id pool_contact"
    using launch_is_all_or_nothing [OF run draft_facts(5,9)] res(1) draft_facts(1)
    by (auto simp: draft_db_def draft_campaign_def pool_db_def)
  with run res show ?thesis by blast
qed

end
