(* ===== verification/Lifecycle.thy ===== *)
theory Lifecycle
  imports Launch_Facts
begin

text \<open>
  The lifecycle as a state machine. The service's operations, each with whatever failures it met, are
  the steps of \<open>life_step\<close>; what a campaign is to its operator is its status and the instant it was
  launched, which \<open>status_step\<close> lets change in six ways. Every operation refines it, and so a campaign
  once launched stays launched.
\<close>

subsection \<open>The steps and what they may do\<close>

inductive life_step :: "life_env \<Rightarrow> life_db \<Rightarrow> life_db \<Rightarrow> bool" for E :: life_env where
  creating: "Create E flt cid sid nowdb ws inp db = (r, db') \<Longrightarrow> cid \<notin> cm_id ` set (jd_campaigns (lf_jobs db))
      \<Longrightarrow> life_step E db db'"
| launching: "Launch E flt enq fresh nowdb launched now ws c db = (res, db') \<Longrightarrow> life_step E db db'"
| pausing: "Pause flt ws c db = (r, db') \<Longrightarrow> life_step E db db'"
| resuming: "Resume flt ws c db = (r, db') \<Longrightarrow> life_step E db db'"
| renaming: "Rename E flt ws c name db = (r, db') \<Longrightarrow> life_step E db db'"
| tracking: "SetTracking flt ws c enabled db = (r, db') \<Longrightarrow> life_step E db db'"
| deleting: "DeleteDraft flt ws c db = (r, db') \<Longrightarrow> life_step E db db'"
| scheduling: "SetSchedule E flt ws c p db = (q, db') \<Longrightarrow> life_step E db db'"

inductive status_step ::
  "(string \<times> instant option) option \<Rightarrow> (string \<times> instant option) option \<Rightarrow> bool" where
  stays: "status_step x x"
| created: "status_step None (Some (StatusDraft, None))"
| launched: "status_step (Some (StatusDraft, l)) (Some (StatusRunning, case l of None \<Rightarrow> Some t | Some u \<Rightarrow> Some u))"
| paused: "status_step (Some (StatusRunning, l)) (Some (StatusPaused, l))"
| resumed: "status_step (Some (StatusPaused, l)) (Some (StatusRunning, l))"
| deleted: "status_step (Some (StatusDraft, l)) None"

declare status_step.stays [simp, intro]

inductive_cases status_step_Some: "status_step (Some (s, l)) y"

definition life_view :: "campaign \<Rightarrow> string \<times> instant option" where
  "life_view r = (cm_status r, cm_launched_at r)"

definition life_of :: "uuid \<Rightarrow> uuid \<Rightarrow> life_db \<Rightarrow> (string \<times> instant option) option" where
  "life_of ws c db = map_option life_view (GetCampaign ws c db)"

definition one_row_each :: "life_db \<Rightarrow> bool" where
  "one_row_each db \<longleftrightarrow> unique_key cm_id (jd_campaigns (lf_jobs db))"

subsection \<open>Statements, seen as changes of a campaign's life\<close>

lemma life_of_update:
  assumes "\<And>r. cm_id (f r) = cm_id r" "\<And>r. cm_ws (f r) = cm_ws r"
  shows "life_of ws c (update_campaign ws' c' f db) =
     (if ws = ws' \<and> c = c' then map_option (\<lambda>r. life_view (f r)) (GetCampaign ws c db) else life_of ws c db)"
    and "one_row_each (update_campaign ws' c' f db) = one_row_each db"
proof -
  have "map_option life_view (select_one (is_campaign ws c) (update_where (is_campaign ws' c') f rows)) =
     (if ws = ws' \<and> c = c' then map_option (\<lambda>r. life_view (f r)) (select_one (is_campaign ws c) rows)
      else map_option life_view (select_one (is_campaign ws c) rows))" for rows
    using assms by (induction rows) (auto simp: is_campaign_def)
  then show "life_of ws c (update_campaign ws' c' f db) =
     (if ws = ws' \<and> c = c' then map_option (\<lambda>r. life_view (f r)) (GetCampaign ws c db) else life_of ws c db)"
    by (simp add: life_of_def GetCampaign_def update_campaign_def on_jobs_def)
  show "one_row_each (update_campaign ws' c' f db) = one_row_each db"
    using assms by (simp add: one_row_each_def update_campaign_def on_jobs_def unique_key_update)
qed

text \<open>A change of anything but the campaigns, or of a campaign's other columns, changes no life.\<close>

lemma life_of_campaigns:
  "jd_campaigns (lf_jobs db') = jd_campaigns (lf_jobs db) \<Longrightarrow>
     life_of ws c db' = life_of ws c db \<and> one_row_each db' = one_row_each db"
  by (simp add: life_of_def GetCampaign_def one_row_each_def)

lemma cosmetic:
  assumes "\<And>r. cm_id (f r) = cm_id r" "\<And>r. cm_ws (f r) = cm_ws r" "\<And>r. life_view (f r) = life_view r"
  shows "life_of ws c (update_campaign ws' c' f db) = life_of ws c db"
    and "one_row_each (update_campaign ws' c' f db) = one_row_each db"
  using assms life_of_update [of f] by (simp_all add: life_of_def)

lemma life_of_SetCampaignStatus:
  "life_of ws c (SetCampaignStatus ws' c' s t db) =
     (if ws = ws' \<and> c = c'
      then map_option (\<lambda>(_, l). (s, case l of None \<Rightarrow> t | Some u \<Rightarrow> Some u)) (life_of ws c db) else life_of ws c db)"
  "one_row_each (SetCampaignStatus ws' c' s t db) = one_row_each db"
  unfolding SetCampaignStatus_def
  by (subst life_of_update; simp add: life_of_def option.map_comp comp_def life_view_def)+

lemma life_of_with_plan:
  "life_of ws c (with_plan ws' c' p db) = life_of ws c db \<and> one_row_each (with_plan ws' c' p db) = one_row_each db"
proof -
  have "jd_campaigns (lf_jobs (with_plan ws' c' p db)) = jd_campaigns (lf_jobs (update_campaign ws' c' (planned p) db))"
    by (simp add: with_plan_def update_campaign_def on_jobs_def)
  from life_of_campaigns [OF this] show ?thesis
    by (simp add: cosmetic planned_def life_view_def)
qed

lemma life_of_enrolled:
  "life_of ws c (enrolled_db fresh nowdb t ws' c' db) = life_of ws c (SetCampaignStatus ws' c' StatusRunning (Some t) db)"
  "one_row_each (enrolled_db fresh nowdb t ws' c' db) = one_row_each db"
proof -
  have "jd_campaigns (lf_jobs (enrolled_db fresh nowdb t ws' c' db))
      = jd_campaigns (lf_jobs (SetCampaignStatus ws' c' StatusRunning (Some t) db))"
    by (simp add: enrolled_db_def SetCampaignStatus_def update_campaign_def add_enrollments_def on_jobs_def on_core_def)
  from life_of_campaigns [OF this] life_of_SetCampaignStatus(2)
  show "life_of ws c (enrolled_db fresh nowdb t ws' c' db) = life_of ws c (SetCampaignStatus ws' c' StatusRunning (Some t) db)"
    "one_row_each (enrolled_db fresh nowdb t ws' c' db) = one_row_each db" by simp_all
qed

subsection \<open>Every operation\<close>

definition refines :: "life_db \<Rightarrow> life_db \<Rightarrow> bool" where
  "refines db db' \<longleftrightarrow> (\<forall>ws c. status_step (life_of ws c db) (life_of ws c db')) \<and> one_row_each db'"

lemma refines_same [simp]: "one_row_each db \<Longrightarrow> refines db db"
  by (simp add: refines_def)

lemma get_campaign_life:
  "get_campaign flt ws c db = Some r \<Longrightarrow> GetCampaign ws c db = Some r \<and> life_of ws c db = Some (life_view r)"
  by (auto simp: get_campaign_def life_of_def split: if_splits)

lemma commit_or_refines:
  assumes "commit_or db x = (r, db')" "one_row_each db" "\<And>db1. x = Inr db1 \<Longrightarrow> refines db db1"
  shows "refines db db'"
  using assms by (cases x) (auto simp: commit_or_def)

lemma cosmetic_refines:
  assumes "\<And>r. cm_id (f r) = cm_id r" "\<And>r. cm_ws (f r) = cm_ws r" "\<And>r. life_view (f r) = life_view r" "one_row_each db"
  shows "refines db (update_campaign ws c f db)"
  using assms by (simp add: refines_def cosmetic)

lemma Rename_refines: "Rename E flt ws c name db = (r, db') \<Longrightarrow> one_row_each db \<Longrightarrow> refines db db'"
  by (auto simp: Rename_def run_query_Inr RenameCampaign_def split: if_splits option.splits
      elim!: commit_or_refines intro!: cosmetic_refines simp: life_view_def)

lemma SetTracking_refines: "SetTracking flt ws c enabled db = (r, db') \<Longrightarrow> one_row_each db \<Longrightarrow> refines db db'"
  by (auto simp: SetTracking_def run_query_Inr SetCampaignTracking_def split: if_splits option.splits
      elim!: commit_or_refines intro!: cosmetic_refines simp: life_view_def)

lemma SetStatus_refines:
  assumes "get_campaign flt ws c db = Some r" "cm_status r = old" "SetStatus flt ws c s db = Inr db'"
    and "one_row_each db" "\<And>l. status_step (Some (old, l)) (Some (s, l))"
  shows "refines db db'"
  using get_campaign_life [OF assms(1)] assms(2-)
  by (auto simp: SetStatus_def run_query_Inr refines_def life_of_SetCampaignStatus life_view_def split: option.splits)

lemma Pause_refines: "Pause flt ws c db = (r, db') \<Longrightarrow> one_row_each db \<Longrightarrow> refines db db'"
  by (auto simp: Pause_def split: if_splits option.splits elim!: commit_or_refines
      intro: SetStatus_refines status_step.paused)

lemma Resume_refines: "Resume flt ws c db = (r, db') \<Longrightarrow> one_row_each db \<Longrightarrow> refines db db'"
  by (auto simp: Resume_def split: if_splits option.splits elim!: commit_or_refines
      intro: SetStatus_refines status_step.resumed)

lemma SetSchedule_refines:
  assumes "SetSchedule E flt ws c p db = (q, db')" "one_row_each db"
  shows "refines db db'"
proof (cases q)
  case (Inl e)
  with assms have "db' = db" by (auto simp: SetSchedule_def Let_def split: option.splits if_splits sum.splits)
  with assms(2) show ?thesis by simp
next
  case (Inr p')
  with assms have "SetSchedule E flt ws c p db = (Inr p', db')" by simp
  then show ?thesis
    by (cases rule: SetSchedule_Inr) (use assms(2) life_of_with_plan in \<open>simp add: refines_def\<close>)
qed

lemma Launch_refines:
  assumes "Launch E flt enq fresh nowdb launched now ws c db = (res, db')" "one_row_each db"
  shows "refines db db'"
proof -
  obtain n err where "res = (n, err)" by force
  with assms(1) have "Launch E flt enq fresh nowdb launched now ws c db = ((n, err), db')" by simp
  then show ?thesis
  proof (cases rule: Launch_cases)
    case (unchanged e)
    with assms(2) show ?thesis by simp
  next
    case (committed r due q)
    have "jd_campaigns (lf_jobs db') = jd_campaigns (lf_jobs (enrolled_db fresh nowdb launched ws c db))"
      by (simp add: committed(6) set_due_def on_jobs_def on_core_def)
    from life_of_campaigns [OF this] assms(2) committed(1,2) show ?thesis
      by (auto simp: refines_def life_of_enrolled life_of_SetCampaignStatus life_of_def [of ws c db] life_view_def
          intro: status_step.launched)
  qed
qed

text \<open>Deleting: the other campaigns keep their rows, the draft loses its only one.\<close>

lemma delete_draft_tx_rows:
  assumes "delete_draft_tx flt ws c db = Inr db'"
  shows "jd_campaigns (lf_jobs db') = filter (\<lambda>r. \<not> draft_row ws c r) (jd_campaigns (lf_jobs db))"
  using assms
  by (auto simp: delete_draft_tx_def and_then_Inr run_query_Inr on_jobs_def on_core_def DeleteDraftCampaign_def
      DeleteEnrollmentsByCampaign_def DeleteStepsByCampaign_def DeleteCampaignSendersByCampaign_def
      DeleteSendWindows_def split: prod.splits if_splits)

lemma select_drop_other:
  assumes "unique_key cm_id rows"
  shows "select_one (is_campaign ws c) (filter (\<lambda>r. \<not> draft_row ws' c' r) rows) =
     (case select_one (is_campaign ws c) rows of
        None \<Rightarrow> None
      | Some r \<Rightarrow> if ws = ws' \<and> c = c' \<and> cm_status r = ''draft'' then None else Some r)"
  using assms
proof (induction rows)
  case (Cons r rows)
  then have "unique_key cm_id rows" by (simp add: unique_key_def)
  moreover have "select_one (is_campaign ws c) rows = None" if "is_campaign ws c r"
    using Cons.prems that by (auto simp: unique_key_def select_one_None_iff is_campaign_def image_iff)
  ultimately show ?case using Cons.IH
    by (auto simp: draft_row_def is_campaign_def [abs_def] split: option.splits)
qed simp

lemma DeleteDraft_refines:
  assumes "DeleteDraft flt ws c db = (r, db')" "one_row_each db"
  shows "refines db db'"
proof -
  have "refines db db1" if "delete_draft_tx flt ws c db = Inr db1" for db1
    using assms(2) delete_draft_tx_rows [OF that]
    by (auto simp: refines_def one_row_each_def unique_key_filter life_of_def GetCampaign_def select_drop_other
        life_view_def const_defs split: option.splits intro: status_step.deleted [unfolded const_defs])
  then show ?thesis
    using assms by (auto simp: DeleteDraft_def split: if_splits option.splits elim!: commit_or_refines)
qed

text \<open>Creating: one new row, whose timezone and windows may then be written.\<close>

lemma CreateCampaign_refines:
  assumes "one_row_each db" "cid \<notin> cm_id ` set (jd_campaigns (lf_jobs db))"
  shows "refines db (CreateCampaign cid nowdb ws inp db)"
proof -
  have none: "select_one (is_campaign ws' cid) (jd_campaigns (lf_jobs db)) = None" for ws'
    using assms(2) by (auto simp: select_one_None_iff is_campaign_def image_iff)
  have "status_step (life_of ws' c db) (life_of ws' c (CreateCampaign cid nowdb ws inp db))" for ws' c
    by (cases "select_one (is_campaign ws' c) (jd_campaigns (lf_jobs db))")
      (auto simp: life_of_def GetCampaign_def CreateCampaign_def on_jobs_def select_one_append new_campaign_def life_view_def
        is_campaign_def none const_defs intro: status_step.created [unfolded const_defs])
  moreover have "one_row_each (CreateCampaign cid nowdb ws inp db)"
    using assms by (auto simp: one_row_each_def CreateCampaign_def on_jobs_def unique_key_def new_campaign_def)
  ultimately show ?thesis by (simp add: refines_def)
qed

lemma refines_cosmetic_after:
  assumes "refines db db1" "\<And>ws c. life_of ws c db2 = life_of ws c db1" "one_row_each db2 = one_row_each db1"
  shows "refines db db2"
  using assms by (simp add: refines_def)

lemma create_tx_refines:
  assumes "create_tx flt cid sid nowdb ws inp db = Inr db'" "one_row_each db"
    and "cid \<notin> cm_id ` set (jd_campaigns (lf_jobs db))"
  shows "refines db db'"
proof -
  let ?db1 = "CreateStep (first_step sid cid ws inp) (CreateCampaign cid nowdb ws inp db)"
  obtain db2 where db2: "db2 = ?db1 \<or> (\<exists>tz. db2 = SetCampaignTimezone ws cid tz ?db1)"
    and ins: "insertWindows flt ws cid (sched_windows (DefaultSchedule (in_timezone inp))) db2 = Inr db'"
    using assms(1) by (auto simp: create_tx_def Let_def and_then_Inr run_query_Inr split: if_splits)
  have "refines db ?db1"
    using CreateCampaign_refines [OF assms(2,3)]
    by (rule refines_cosmetic_after)
      (simp_all add: life_of_campaigns CreateStep_def on_jobs_def life_of_def GetCampaign_def one_row_each_def)
  then have "refines db db2"
    using db2 by (auto simp: SetCampaignTimezone_def cosmetic life_view_def elim: refines_cosmetic_after)
  moreover have "jd_campaigns (lf_jobs db') = jd_campaigns (lf_jobs db2)"
    using insertWindows_Inr [OF ins] by (simp add: on_jobs_def)
  ultimately show ?thesis using life_of_campaigns refines_cosmetic_after by blast
qed

lemma Create_refines:
  assumes "Create E flt cid sid nowdb ws inp db = (r, db')" "one_row_each db"
    and "cid \<notin> cm_id ` set (jd_campaigns (lf_jobs db))"
  shows "refines db db'"
  using assms create_tx_refines
  by (auto simp: Create_def split: sum.splits bool.splits elim!: commit_or_refines)

lemma step_refines: "life_step E db db' \<Longrightarrow> one_row_each db \<Longrightarrow> refines db db'"
  by (induction rule: life_step.induct)
    (blast intro: Create_refines Launch_refines Pause_refines Resume_refines Rename_refines SetTracking_refines
      DeleteDraft_refines SetSchedule_refines)+

subsection \<open>The lifecycle\<close>

text \<open>C30: the service refines the lifecycle. Whatever operation runs, for whichever campaign and with
  whatever failures, what it does to the status and launch time of every campaign is one of the steps of
  \<open>status_step\<close>: nothing, a new draft, a draft launched, running paused, paused resumed, or a draft
  deleted; and ids stay unique.\<close>

theorem operations_refine_the_lifecycle:
  assumes "life_step E db db'" and "one_row_each db"
  shows "status_step (life_of ws c db) (life_of ws c db') \<and> one_row_each db'"
  using step_refines [OF assms] by (simp add: refines_def)

text \<open>C31: launching is for good. In every database the operations can lead to, a campaign that was launched
  is still there, launched at the same instant and never a draft again.\<close>

theorem launched_for_good:
  assumes "(life_step E)\<^sup>*\<^sup>* db db'" and "one_row_each db"
    and "life_of ws c db = Some (s, Some t)" and "s \<noteq> StatusDraft"
  shows "\<exists>s'. life_of ws c db' = Some (s', Some t) \<and> s' \<noteq> StatusDraft"
proof -
  have "one_row_each db' \<and> (\<exists>s'. life_of ws c db' = Some (s', Some t) \<and> s' \<noteq> StatusDraft)"
    using assms(1)
  proof (induction rule: rtranclp_induct)
    case base
    with assms(2-) show ?case by blast
  next
    case (step db1 db2)
    then obtain s1 where s1: "life_of ws c db1 = Some (s1, Some t)" "s1 \<noteq> StatusDraft" by blast
    from step_refines [OF step.hyps(2)] step.IH
    have "status_step (Some (s1, Some t)) (life_of ws c db2)" "one_row_each db2"
      using s1(1) by (auto simp: refines_def) (metis s1(1))
    with s1(2) show ?case by (auto elim!: status_step_Some simp: const_defs)
  qed
  then show ?thesis ..
qed

subsection \<open>Witnesses\<close>

definition running_db :: life_db where
  "running_db = life_sample\<lparr>lf_jobs := pool_db\<lparr>jd_campaigns := [pool_campaign\<lparr>cm_status := ''running'', cm_launched_at := Some 5\<rparr>]\<rparr>\<rparr>"

lemma running_facts: "one_row_each running_db" "life_of 1 2 running_db = Some (''running'', Some 5)"
  by (simp_all add: one_row_each_def running_db_def unique_key_def life_of_def GetCampaign_def pool_campaign_def
      is_campaign_def life_view_def)

lemma running_paused:
  obtains db' where "Pause no_faults 1 2 running_db = (Inr (), db')" "life_of 1 2 db' = Some (''paused'', Some 5)"
proof -
  obtain r where r: "GetCampaign 1 2 running_db = Some r" "cm_status r = ''running''"
    using running_facts(2) by (auto simp: life_of_def life_view_def)
  with that [of "SetCampaignStatus 1 2 StatusPaused None running_db"] running_facts(2) show thesis
    by (simp add: Pause_def get_campaign_def SetStatus_def run_query_def commit_or_def life_of_SetCampaignStatus const_defs)
qed

theorem operations_refine_the_lifecycle_witness:
  "\<exists>db'. life_step life_env0 running_db db' \<and> life_of 1 2 db' = Some (''paused'', Some 5)
     \<and> status_step (life_of 1 2 running_db) (life_of 1 2 db') \<and> one_row_each db'"
proof (rule running_paused)
  fix db' assume "Pause no_faults 1 2 running_db = (Inr (), db')" and life: "life_of 1 2 db' = Some (''paused'', Some 5)"
  then have "life_step life_env0 running_db db'" by (blast intro: life_step.pausing)
  with life operations_refine_the_lifecycle [OF this running_facts(1)] show ?thesis by blast
qed

theorem launched_for_good_witness:
  "\<exists>db' s'. (life_step life_env0)\<^sup>*\<^sup>* running_db db' \<and> db' \<noteq> running_db
     \<and> life_of 1 2 db' = Some (s', Some 5) \<and> s' \<noteq> StatusDraft"
proof (rule running_paused)
  fix db' assume "Pause no_faults 1 2 running_db = (Inr (), db')" and life: "life_of 1 2 db' = Some (''paused'', Some 5)"
  then have run: "(life_step life_env0)\<^sup>*\<^sup>* running_db db'" by (blast intro: life_step.pausing)
  from life running_facts(2) have "db' \<noteq> running_db" by auto
  with run launched_for_good [OF run running_facts] show ?thesis by (auto simp: const_defs)
qed

end
