(* ===== verification/Sequence_Edit.thy ===== *)
theory Sequence_Edit
  imports Step_Job Graph_Routes
begin

text \<open>
  Editing a campaign's sequence (\<open>internal/app/sequencestep\<close>): its steps (\<open>service.go\<close>, \<open>store.go\<close>), the
  branches of its graph (\<open>branch.go\<close>, \<open>branchstore.go\<close>) and the A/B variants of a step (\<open>variant.go\<close>,
  \<open>variantstore.go\<close>), with the statements they run, the constraints of the tables and the cascades of
  their foreign keys.

  An operation is a single statement or one transaction, so it yields the error or the database after
  it. The rows a write returns to the screen are left out, as are the times of change. The graph lock
  makes the edits of the graph atomic with respect to each other; appending a step, editing its content and
  the variant edits take no lock, and are atomic here as requests that do not overlap.
\<close>

subsection \<open>Errors and statements\<close>

datatype edit_error =
    ErrStepNotFound
  | ErrCampaignNotFound
  | ErrCampaignNotDraft
  | ErrInvalidOrder
  | ErrGraph graph_error
  | ErrBranchConflict
  | ErrTargetGone
  | ErrVariantNotFound
  | ErrVariantLabel
  | ErrVariantWeight
  | ErrLabelTaken
  | ErrTooManyVariants
  | ErrNoEligibleVariant
  | ErrVariantHasSends
  | ErrNoSuchRow
  | ErrStatement string

definition draftStatus :: string where [const_defs]: "draftStatus = ''draft''"

definition edit_query :: "faults \<Rightarrow> string \<Rightarrow> 'a \<Rightarrow> edit_error + 'a" where
  "edit_query flt stmt x = (case flt stmt of Some e \<Rightarrow> Inl (ErrStatement e) | None \<Rightarrow> Inr x)"

text \<open>A statement that violates a constraint fails.\<close>

definition checked :: "faults \<Rightarrow> string \<Rightarrow> 'a option \<Rightarrow> edit_error + 'a" where
  "checked flt stmt r =
     and_then (edit_query flt stmt r)
       (\<lambda>r. case r of None \<Rightarrow> Inl (ErrStatement ''constraint violation'') | Some x \<Rightarrow> Inr x)"

definition require :: "bool \<Rightarrow> edit_error \<Rightarrow> edit_error + unit" where
  "require p e = (if p then Inr () else Inl e)"

definition or_else :: "edit_error \<Rightarrow> edit_error + 'a \<Rightarrow> edit_error + 'a" where
  "or_else e r = (case r of Inl _ \<Rightarrow> Inl e | Inr x \<Rightarrow> Inr x)"

definition int32_max :: int where "int32_max = 2147483647"

definition step_row_of :: "uuid \<Rightarrow> uuid \<Rightarrow> step_row \<Rightarrow> bool" where
  "step_row_of ws i s \<longleftrightarrow> st_id s = i \<and> st_ws s = ws"

definition in_campaign :: "uuid \<Rightarrow> uuid \<Rightarrow> step_row \<Rightarrow> bool" where
  "in_campaign ws c s \<longleftrightarrow> st_campaign s = c \<and> st_ws s = ws"

definition GetStep :: "uuid \<Rightarrow> uuid \<Rightarrow> job_db \<Rightarrow> step_row option" where
  "GetStep ws i j = select_one (step_row_of ws i) (jd_steps j)"

definition MaxStepOrder :: "uuid \<Rightarrow> uuid \<Rightarrow> job_db \<Rightarrow> int" where
  "MaxStepOrder ws c j =
     (case map st_order (filter (in_campaign ws c) (jd_steps j)) of [] \<Rightarrow> 0 | k # ks \<Rightarrow> fold max ks k)"

definition order_taken :: "uuid \<Rightarrow> int \<Rightarrow> step_row list \<Rightarrow> bool" where
  "order_taken c k rows \<longleftrightarrow> (\<exists>s \<in> set rows. st_campaign s = c \<and> st_order s = k)"

definition CreateStep :: "step_row \<Rightarrow> job_db \<Rightarrow> job_db option" where
  "CreateStep s j =
     (if 1 \<le> st_order s \<and> 0 \<le> st_delay_seconds s \<and> \<not> order_taken (st_campaign s) (st_order s) (jd_steps j)
      then Some (j\<lparr>jd_steps := jd_steps j @ [s]\<rparr>) else None)"

record step_input =
  si_delay_seconds :: int
  si_subject :: string
  si_body_text :: string
  si_body_html :: string

definition UpdateStep :: "uuid \<Rightarrow> uuid \<Rightarrow> step_input \<Rightarrow> job_db \<Rightarrow> job_db option" where
  "UpdateStep ws i inp j =
     (if GetStep ws i j = None \<or> si_delay_seconds inp < 0 then None
      else Some (j\<lparr>jd_steps := update_where (step_row_of ws i)
             (\<lambda>s. s\<lparr>st_delay_seconds := si_delay_seconds inp, st_subject := si_subject inp,
                    st_body_text := si_body_text inp, st_body_html := si_body_html inp\<rparr>) (jd_steps j)\<rparr>))"

text \<open>A variant that a send names cannot go: the foreign key would null the workspace of the send too.\<close>

definition variant_in_use :: "variant_row \<Rightarrow> job_db \<Rightarrow> bool" where
  "variant_in_use v j \<longleftrightarrow>
     (\<exists>r \<in> set (db_sends (jd_core j)). sd_variant r = Some (va_id v) \<and> sd_ws r = va_ws v)"

text \<open>Deleting a step deletes its branch and its variants and nulls the exits that name it.\<close>

definition drop_exit :: "uuid \<Rightarrow> uuid option \<Rightarrow> uuid option" where
  "drop_exit i t = (if t = Some i then None else t)"

definition DeleteStep :: "uuid \<Rightarrow> uuid \<Rightarrow> job_db \<Rightarrow> job_db option" where
  "DeleteStep ws i j =
     (case GetStep ws i j of
        None \<Rightarrow> Some j
      | Some s \<Rightarrow>
          if \<exists>v \<in> set (jd_variants j). va_step v = i \<and> variant_in_use v j then None
          else Some (j\<lparr>jd_steps := filter (\<lambda>s. \<not> step_row_of ws i s) (jd_steps j),
             jd_variants := filter (\<lambda>v. va_step v \<noteq> i) (jd_variants j),
             jd_branches := update_where (\<lambda>b. bw_campaign b = st_campaign s)
               (\<lambda>b. b\<lparr>bw_yes_step := drop_exit i (bw_yes_step b), bw_no_step := drop_exit i (bw_no_step b)\<rparr>)
               (filter (\<lambda>b. \<not> (bw_step b = i \<and> bw_campaign b = st_campaign s)) (jd_branches j))\<rparr>))"

definition ShiftStepOrders :: "uuid \<Rightarrow> uuid \<Rightarrow> int \<Rightarrow> job_db \<Rightarrow> job_db option" where
  "ShiftStepOrders ws c k j =
     (if \<exists>s \<in> set (jd_steps j). in_campaign ws c s \<and> int32_max < st_order s + k then None
      else Some (j\<lparr>jd_steps := update_where (in_campaign ws c) (\<lambda>s. s\<lparr>st_order := st_order s + k\<rparr>) (jd_steps j)\<rparr>))"

definition SetStepOrder :: "uuid \<Rightarrow> uuid \<Rightarrow> uuid \<Rightarrow> int \<Rightarrow> job_db \<Rightarrow> job_db option" where
  "SetStepOrder ws c i k j =
     (if (\<exists>s \<in> set (jd_steps j). in_campaign ws c s \<and> st_id s = i)
         \<and> (k < 1 \<or> order_taken c k (filter (\<lambda>s. st_id s \<noteq> i) (jd_steps j))) then None
      else Some (j\<lparr>jd_steps := update_where (\<lambda>s. in_campaign ws c s \<and> st_id s = i)
             (\<lambda>s. s\<lparr>st_order := k\<rparr>) (jd_steps j)\<rparr>))"

subsection \<open>The graph transaction\<close>

type_synonym graph_check = "step_row list \<Rightarrow> branch_row list \<Rightarrow> graph_error option"

definition checkGraph :: graph_check where
  "checkGraph steps brs = Validate (BuildGraph steps brs)"

definition withGraphLock ::
  "faults \<Rightarrow> uuid \<Rightarrow> uuid \<Rightarrow> graph_check \<Rightarrow> (job_db \<Rightarrow> edit_error + job_db) \<Rightarrow> job_db \<Rightarrow> edit_error + job_db" where
  "withGraphLock flt ws c check mutate j =
     and_then (edit_query flt ''begin'' ()) (\<lambda>_.
     and_then (edit_query flt ''LockCampaignGraph'' (select_one (is_campaign ws c) (jd_campaigns j))) (\<lambda>r.
     and_then (require (r \<noteq> None) ErrCampaignNotFound) (\<lambda>_.
     and_then (mutate j) (\<lambda>j.
     and_then (edit_query flt ''ListStepsByCampaign check'' (ListStepsByCampaign c ws (jd_steps j))) (\<lambda>steps.
     and_then (edit_query flt ''ListBranchesByCampaign check'' (ListBranchesByCampaign c ws j)) (\<lambda>brs.
       case check steps brs of
         Some e \<Rightarrow> Inl (ErrGraph e)
       | None \<Rightarrow> edit_query flt ''commit'' j))))))"

subsection \<open>Guards\<close>

definition CampaignStatus :: "faults \<Rightarrow> uuid \<Rightarrow> uuid \<Rightarrow> job_db \<Rightarrow> edit_error + string" where
  "CampaignStatus flt ws c j =
     and_then (edit_query flt ''GetCampaign'' (select_one (is_campaign ws c) (jd_campaigns j)))
       (\<lambda>r. case r of None \<Rightarrow> Inl ErrNoSuchRow | Some r \<Rightarrow> Inr (cm_status r))"

definition requireDraft :: "faults \<Rightarrow> uuid \<Rightarrow> uuid \<Rightarrow> job_db \<Rightarrow> edit_error + unit" where
  "requireDraft flt ws c j =
     and_then (or_else ErrCampaignNotFound (CampaignStatus flt ws c j))
       (\<lambda>status. require (status = draftStatus) ErrCampaignNotDraft)"

definition requireCampaign :: "faults \<Rightarrow> uuid \<Rightarrow> uuid \<Rightarrow> job_db \<Rightarrow> edit_error + unit" where
  "requireCampaign flt ws c j =
     (case CampaignStatus flt ws c j of
        Inl e \<Rightarrow> Inl (if e = ErrNoSuchRow then ErrCampaignNotFound else e)
      | Inr _ \<Rightarrow> Inr ())"

definition stepInCampaign :: "faults \<Rightarrow> uuid \<Rightarrow> uuid \<Rightarrow> uuid \<Rightarrow> job_db \<Rightarrow> edit_error + step_row" where
  "stepInCampaign flt ws c i j =
     and_then (or_else ErrStepNotFound (edit_query flt ''GetStep'' (GetStep ws i j))) (\<lambda>r.
       case r of None \<Rightarrow> Inl ErrStepNotFound
       | Some s \<Rightarrow> if st_campaign s \<noteq> c then Inl ErrStepNotFound else Inr s)"

subsection \<open>Steps\<close>

definition AppendStep ::
  "faults \<Rightarrow> uuid \<Rightarrow> uuid \<Rightarrow> uuid \<Rightarrow> step_input \<Rightarrow> job_db \<Rightarrow> edit_error + job_db" where
  "AppendStep flt ws c sid inp j =
     and_then (requireDraft flt ws c j) (\<lambda>_.
     and_then (edit_query flt ''MaxStepOrder'' (MaxStepOrder ws c j)) (\<lambda>m.
       checked flt ''CreateStep'' (CreateStep
         \<lparr>st_id = sid, st_ws = ws, st_campaign = c, st_order = wrap32 (m + 1), st_delay_seconds = si_delay_seconds inp,
          st_subject = si_subject inp, st_body_text = si_body_text inp, st_body_html = si_body_html inp,
          st_variant_weight = 1\<rparr> j)))"

definition EditStep ::
  "faults \<Rightarrow> uuid \<Rightarrow> uuid \<Rightarrow> uuid \<Rightarrow> step_input \<Rightarrow> job_db \<Rightarrow> edit_error + job_db" where
  "EditStep flt ws c i inp j =
     and_then (or_else ErrCampaignNotFound (CampaignStatus flt ws c j)) (\<lambda>_.
     and_then (stepInCampaign flt ws c i j) (\<lambda>_.
       or_else ErrStepNotFound (checked flt ''UpdateStep'' (UpdateStep ws i inp j))))"

definition RemoveStep :: "faults \<Rightarrow> uuid \<Rightarrow> uuid \<Rightarrow> uuid \<Rightarrow> job_db \<Rightarrow> edit_error + job_db" where
  "RemoveStep flt ws c i j =
     and_then (requireDraft flt ws c j) (\<lambda>_.
     and_then (stepInCampaign flt ws c i j) (\<lambda>_.
       withGraphLock flt ws c checkGraph (\<lambda>j. checked flt ''DeleteStep'' (DeleteStep ws i j)) j))"

definition validatePermutation :: "step_row list \<Rightarrow> uuid list \<Rightarrow> bool" where
  "validatePermutation current ids \<longleftrightarrow>
     length ids = length current \<and> set ids \<subseteq> st_id ` set current \<and> distinct ids"

fun stamp_orders :: "faults \<Rightarrow> uuid \<Rightarrow> uuid \<Rightarrow> int \<Rightarrow> uuid list \<Rightarrow> job_db \<Rightarrow> edit_error + job_db" where
  "stamp_orders flt ws c k [] j = Inr j"
| "stamp_orders flt ws c k (i # ids) j =
     and_then (checked flt ''SetStepOrder'' (SetStepOrder ws c i (wrap32 k) j)) (stamp_orders flt ws c (k + 1) ids)"

definition reorder_tx :: "faults \<Rightarrow> uuid \<Rightarrow> uuid \<Rightarrow> uuid list \<Rightarrow> job_db \<Rightarrow> edit_error + job_db" where
  "reorder_tx flt ws c ids j =
     and_then (edit_query flt ''MaxStepOrder'' (MaxStepOrder ws c j)) (\<lambda>m.
     and_then (checked flt ''ShiftStepOrders'' (ShiftStepOrders ws c m j)) (\<lambda>j.
     and_then (stamp_orders flt ws c 1 ids j) (\<lambda>j.
       edit_query flt ''ListStepsByCampaign reordered'' j)))"

definition Reorder :: "faults \<Rightarrow> uuid \<Rightarrow> uuid \<Rightarrow> uuid list \<Rightarrow> job_db \<Rightarrow> edit_error + job_db" where
  "Reorder flt ws c ids j =
     and_then (requireDraft flt ws c j) (\<lambda>_.
     and_then (edit_query flt ''ListStepsByCampaign'' (ListStepsByCampaign c ws (jd_steps j))) (\<lambda>current.
     and_then (require (validatePermutation current ids) ErrInvalidOrder) (\<lambda>_.
       withGraphLock flt ws c checkGraph (reorder_tx flt ws c ids) j)))"

subsection \<open>Branches\<close>

record branch_input =
  bi_step :: uuid
  bi_condition :: string
  bi_within_days :: "int option"
  bi_reply_label_key :: "string option"
  bi_yes_step :: "uuid option"
  bi_no_step :: "uuid option"

definition branch_row_of :: "uuid \<Rightarrow> uuid \<Rightarrow> branch_input \<Rightarrow> branch_row" where
  "branch_row_of ws c inp =
     \<lparr>bw_step = bi_step inp, bw_ws = ws, bw_campaign = c, bw_condition = bi_condition inp,
      bw_within_days = bi_within_days inp, bw_reply_label_key = bi_reply_label_key inp,
      bw_yes_step = bi_yes_step inp, bw_no_step = bi_no_step inp\<rparr>"

definition branchModel :: "branch_input \<Rightarrow> branch" where
  "branchModel inp =
     \<lparr>br_step = bi_step inp, br_condition = bi_condition inp, within_days = coalesce (bi_within_days inp) 0,
      reply_label_key = coalesce (bi_reply_label_key inp) [], br_yes = coalesce (bi_yes_step inp) uuid_Nil,
      br_no = coalesce (bi_no_step inp) uuid_Nil\<rparr>"

text \<open>The checks of the branches table, and its foreign keys.\<close>

definition branch_row_legal :: "branch_row \<Rightarrow> bool" where
  "branch_row_legal b \<longleftrightarrow>
     ParseCondition (bw_condition b) \<noteq> None
     \<and> (case bw_within_days b of None \<Rightarrow> True | Some d \<Rightarrow> 1 \<le> d \<and> d \<le> 90)
     \<and> (case bw_reply_label_key b of None \<Rightarrow> True | Some k \<Rightarrow> labelKeyPattern k)
     \<and> (bw_condition b = Always \<longleftrightarrow> bw_within_days b = None)
     \<and> (bw_condition b \<noteq> Always \<or> bw_no_step b = None)
     \<and> (bw_reply_label_key b = None \<or> bw_condition b = Replied \<or> bw_condition b = NotReplied)
     \<and> bw_yes_step b \<noteq> Some (bw_step b) \<and> bw_no_step b \<noteq> Some (bw_step b)"

definition is_step_of :: "uuid \<Rightarrow> job_db \<Rightarrow> uuid \<Rightarrow> bool" where
  "is_step_of c j i \<longleftrightarrow> (\<exists>s \<in> set (jd_steps j). st_id s = i \<and> st_campaign s = c)"

definition branch_references :: "branch_row \<Rightarrow> job_db \<Rightarrow> bool" where
  "branch_references b j \<longleftrightarrow>
     is_step_of (bw_campaign b) j (bw_step b)
     \<and> select_one (is_campaign (bw_ws b) (bw_campaign b)) (jd_campaigns j) \<noteq> None
     \<and> (case bw_yes_step b of None \<Rightarrow> True | Some t \<Rightarrow> is_step_of (bw_campaign b) j t)
     \<and> (case bw_no_step b of None \<Rightarrow> True | Some t \<Rightarrow> is_step_of (bw_campaign b) j t)"

definition UpsertBranch :: "branch_row \<Rightarrow> job_db \<Rightarrow> edit_error + job_db" where
  "UpsertBranch b j =
     and_then (require (branch_row_legal b) (ErrStatement ''constraint violation'')) (\<lambda>_.
     and_then (case select_one (\<lambda>q. bw_step q = bw_step b) (jd_branches j) of
         None \<Rightarrow> Inr (j\<lparr>jd_branches := jd_branches j @ [b]\<rparr>)
       | Some q \<Rightarrow>
           and_then (require (bw_ws q = bw_ws b \<and> bw_campaign q = bw_campaign b) ErrBranchConflict) (\<lambda>_.
             Inr (j\<lparr>jd_branches := update_where
               (\<lambda>q. bw_step q = bw_step b \<and> bw_ws q = bw_ws b \<and> bw_campaign q = bw_campaign b) (\<lambda>_. b) (jd_branches j)\<rparr>))) (\<lambda>j.
     and_then (require (branch_references b j) ErrTargetGone) (\<lambda>_. Inr j)))"

definition DeleteBranch :: "uuid \<Rightarrow> uuid \<Rightarrow> uuid \<Rightarrow> job_db \<Rightarrow> job_db" where
  "DeleteBranch ws c i j =
     j\<lparr>jd_branches := filter (\<lambda>b. \<not> (bw_step b = i \<and> bw_campaign b = c \<and> bw_ws b = ws)) (jd_branches j)\<rparr>"

definition checkReplyLabel :: "faults \<Rightarrow> uuid \<Rightarrow> string option \<Rightarrow> job_db \<Rightarrow> edit_error + unit" where
  "checkReplyLabel flt ws key j =
     (case key of
        None \<Rightarrow> Inr ()
      | Some k \<Rightarrow>
          and_then (edit_query flt ''ReplyLabelStopsEnrollment''
              (select_one (\<lambda>l. rl_ws l = ws \<and> rl_key l = k) (jd_labels j))) (\<lambda>r.
            case r of
              None \<Rightarrow> Inl (ErrGraph (ShapeError CodeLabelNotAllowed))
            | Some l \<Rightarrow> require (\<not> rl_stops_enrollment l) (ErrGraph (ShapeError CodeLabelStopsSequence))))"

definition checkTrackable ::
  "faults \<Rightarrow> uuid \<Rightarrow> uuid \<Rightarrow> step_row \<Rightarrow> signal \<Rightarrow> job_db \<Rightarrow> edit_error + unit" where
  "checkTrackable flt ws c step sig j =
     (if sig \<noteq> SignalOpen \<and> sig \<noteq> SignalClick then Inr ()
      else
        and_then (edit_query flt ''CampaignTrackingEnabled'' (select_one (is_campaign ws c) (jd_campaigns j))) (\<lambda>r.
        case r of
          None \<Rightarrow> Inl (ErrStatement ''no rows'')
        | Some cam \<Rightarrow>
            and_then (require (cm_tracking_enabled cam) (ErrGraph (ShapeError CodeTrackingRequired))) (\<lambda>_.
            and_then (edit_query flt ''ListStepVariants'' (ListStepVariants (st_id step) ws j)) (\<lambda>vs.
              require (\<not> (st_body_html step = [] \<or> (\<exists>v \<in> set vs. va_body_html v = [])))
                (ErrGraph (ShapeError CodeTrackingRequired))))))"

fun check_targets :: "uuid \<Rightarrow> step_row list \<Rightarrow> uuid option list \<Rightarrow> edit_error + unit" where
  "check_targets i steps [] = Inr ()"
| "check_targets i steps (None # ts) = check_targets i steps ts"
| "check_targets i steps (Some t # ts) =
     (if t \<notin> st_id ` set steps then Inl (ErrGraph (TargetError i t)) else check_targets i steps ts)"

definition SetBranch ::
  "faults \<Rightarrow> uuid \<Rightarrow> uuid \<Rightarrow> branch_input \<Rightarrow> job_db \<Rightarrow> edit_error + job_db" where
  "SetBranch flt ws c inp j =
     and_then (requireCampaign flt ws c j) (\<lambda>_.
     and_then (stepInCampaign flt ws c (bi_step inp) j) (\<lambda>step.
     and_then (require (\<not> (bi_condition inp = Always \<and> bi_within_days inp \<noteq> None))
         (ErrGraph (ShapeError CodeInvalidWithinDays))) (\<lambda>_.
     and_then (case ValidateShape (branchModel inp) of Some e \<Rightarrow> Inl (ErrGraph e) | None \<Rightarrow> Inr ()) (\<lambda>_.
     and_then (checkReplyLabel flt ws (bi_reply_label_key inp) j) (\<lambda>_.
     and_then (checkTrackable flt ws c step (Signal (bi_condition inp)) j) (\<lambda>_.
     and_then (edit_query flt ''ListStepsByCampaign'' (ListStepsByCampaign c ws (jd_steps j))) (\<lambda>steps.
     and_then (check_targets (bi_step inp) steps [bi_yes_step inp, bi_no_step inp]) (\<lambda>_.
       withGraphLock flt ws c checkGraph
         (\<lambda>j. and_then (edit_query flt ''UpsertBranch'' j) (UpsertBranch (branch_row_of ws c inp))) j))))))))"

definition RemoveBranch :: "faults \<Rightarrow> uuid \<Rightarrow> uuid \<Rightarrow> uuid \<Rightarrow> job_db \<Rightarrow> edit_error + job_db" where
  "RemoveBranch flt ws c i j =
     and_then (requireCampaign flt ws c j) (\<lambda>_.
     and_then (stepInCampaign flt ws c i j) (\<lambda>_.
       withGraphLock flt ws c checkGraph (\<lambda>j. edit_query flt ''DeleteBranch'' (DeleteBranch ws c i j)) j))"

subsection \<open>Variants\<close>

record variant_input =
  vi_label :: string
  vi_weight :: int
  vi_subject :: string
  vi_body_text :: string
  vi_body_html :: string

definition MaxVariantsPerStep :: nat where "MaxVariantsPerStep = 5"
definition maxVariantLabel :: nat where "maxVariantLabel = 40"

definition validate_variant :: "variant_input \<Rightarrow> edit_error + variant_input" where
  "validate_variant inp =
     (let label = TrimSpace (vi_label inp) in
      if label = [] \<or> maxVariantLabel < length label then Inl ErrVariantLabel
      else if vi_weight inp < 0 then Inl ErrVariantWeight
      else Inr (inp\<lparr>vi_label := label\<rparr>))"

definition anyEligible :: "int \<Rightarrow> int list \<Rightarrow> bool" where
  "anyEligible baseWeight weights \<longleftrightarrow> 0 < baseWeight \<or> (\<exists>w \<in> set weights. 0 < w)"

definition is_variant :: "uuid \<Rightarrow> uuid \<Rightarrow> variant_row \<Rightarrow> bool" where
  "is_variant ws i v \<longleftrightarrow> va_id v = i \<and> va_ws v = ws"

definition label_free :: "uuid \<Rightarrow> string \<Rightarrow> variant_row list \<Rightarrow> bool" where
  "label_free step label rows \<longleftrightarrow> (\<forall>v \<in> set rows. \<not> (va_step v = step \<and> va_label v = label))"

definition CreateStepVariant :: "uuid \<Rightarrow> uuid \<Rightarrow> uuid \<Rightarrow> variant_input \<Rightarrow> job_db \<Rightarrow> edit_error + job_db" where
  "CreateStepVariant vid ws step inp j =
     and_then (require (label_free step (vi_label inp) (jd_variants j)) ErrLabelTaken) (\<lambda>_.
       Inr (j\<lparr>jd_variants := jd_variants j @
         [\<lparr>va_id = vid, va_ws = ws, va_step = step, va_label = vi_label inp, va_weight = vi_weight inp,
           va_subject = vi_subject inp, va_body_text = vi_body_text inp, va_body_html = vi_body_html inp\<rparr>]\<rparr>))"

definition UpdateStepVariant :: "uuid \<Rightarrow> uuid \<Rightarrow> variant_input \<Rightarrow> job_db \<Rightarrow> edit_error + job_db" where
  "UpdateStepVariant ws i inp j =
     (case select_one (is_variant ws i) (jd_variants j) of
        None \<Rightarrow> Inl ErrVariantNotFound
      | Some v \<Rightarrow>
          and_then (require (label_free (va_step v) (vi_label inp) (filter (\<lambda>q. va_id q \<noteq> i) (jd_variants j))) ErrLabelTaken)
            (\<lambda>_. Inr (j\<lparr>jd_variants := update_where (is_variant ws i)
               (\<lambda>v. v\<lparr>va_label := vi_label inp, va_weight := vi_weight inp, va_subject := vi_subject inp,
                      va_body_text := vi_body_text inp, va_body_html := vi_body_html inp\<rparr>) (jd_variants j)\<rparr>)))"

definition DeleteStepVariant :: "uuid \<Rightarrow> uuid \<Rightarrow> job_db \<Rightarrow> edit_error + job_db" where
  "DeleteStepVariant ws i j =
     (case select_one (is_variant ws i) (jd_variants j) of
        None \<Rightarrow> Inl ErrVariantNotFound
      | Some v \<Rightarrow>
          and_then (require (\<not> variant_in_use v j) (ErrStatement ''constraint violation''))
            (\<lambda>_. Inr (j\<lparr>jd_variants := filter (\<lambda>v. \<not> is_variant ws i v) (jd_variants j)\<rparr>)))"

definition SetStepVariantWeight :: "uuid \<Rightarrow> uuid \<Rightarrow> int \<Rightarrow> job_db \<Rightarrow> edit_error + job_db" where
  "SetStepVariantWeight ws i weight j =
     (if GetStep ws i j = None then Inl ErrStepNotFound
      else Inr (j\<lparr>jd_steps := update_where (step_row_of ws i) (\<lambda>s. s\<lparr>st_variant_weight := weight\<rparr>) (jd_steps j)\<rparr>))"

definition CountVariantsSent :: "uuid \<Rightarrow> uuid \<Rightarrow> job_db \<Rightarrow> int" where
  "CountVariantsSent ws i j =
     count_where (\<lambda>r. sd_ws r = ws \<and> sd_variant r = Some i \<and> sd_status r = ''sent'') (db_sends (jd_core j))"

text \<open>A missing step is an error of the statement here, and passed on as such.\<close>

definition get_step :: "faults \<Rightarrow> uuid \<Rightarrow> uuid \<Rightarrow> job_db \<Rightarrow> edit_error + step_row" where
  "get_step flt ws i j =
     and_then (edit_query flt ''GetStep'' (GetStep ws i j))
       (\<lambda>r. case r of None \<Rightarrow> Inl ErrNoSuchRow | Some s \<Rightarrow> Inr s)"

definition ListForStep :: "faults \<Rightarrow> uuid \<Rightarrow> uuid \<Rightarrow> job_db \<Rightarrow> edit_error + variant_row list" where
  "ListForStep flt ws i j = edit_query flt ''ListStepVariants'' (ListStepVariants i ws j)"

definition CreateVariant ::
  "faults \<Rightarrow> uuid \<Rightarrow> uuid \<Rightarrow> uuid \<Rightarrow> variant_input \<Rightarrow> job_db \<Rightarrow> edit_error + job_db" where
  "CreateVariant flt vid ws i inp j =
     and_then (validate_variant inp) (\<lambda>valid.
     and_then (get_step flt ws i j) (\<lambda>step.
     and_then (ListForStep flt ws i j) (\<lambda>existing.
     and_then (require (length existing < MaxVariantsPerStep) ErrTooManyVariants) (\<lambda>_.
     and_then (require (anyEligible (st_variant_weight step) (map va_weight existing @ [vi_weight valid])) ErrNoEligibleVariant) (\<lambda>_.
     and_then (edit_query flt ''CreateStepVariant'' j) (CreateStepVariant vid ws i valid))))))"

definition variantContext ::
  "faults \<Rightarrow> uuid \<Rightarrow> uuid \<Rightarrow> job_db \<Rightarrow> edit_error + variant_row \<times> variant_row list \<times> step_row" where
  "variantContext flt ws vid j =
     and_then (edit_query flt ''GetStepVariant'' (select_one (is_variant ws vid) (jd_variants j))) (\<lambda>r.
     case r of
       None \<Rightarrow> Inl ErrVariantNotFound
     | Some v \<Rightarrow>
         and_then (ListForStep flt ws (va_step v) j) (\<lambda>siblings.
         and_then (get_step flt ws (va_step v) j) (\<lambda>step. Inr (v, siblings, step))))"

definition UpdateVariant ::
  "faults \<Rightarrow> uuid \<Rightarrow> uuid \<Rightarrow> variant_input \<Rightarrow> job_db \<Rightarrow> edit_error + job_db" where
  "UpdateVariant flt ws vid inp j =
     and_then (validate_variant inp) (\<lambda>valid.
     and_then (variantContext flt ws vid j) (\<lambda>(current, siblings, step).
     and_then (require (anyEligible (st_variant_weight step)
         (map (\<lambda>v. if va_id v = va_id current then vi_weight valid else va_weight v) siblings)) ErrNoEligibleVariant) (\<lambda>_.
     and_then (edit_query flt ''UpdateStepVariant'' j) (UpdateStepVariant ws vid valid))))"

definition DeleteVariant :: "faults \<Rightarrow> uuid \<Rightarrow> uuid \<Rightarrow> job_db \<Rightarrow> edit_error + job_db" where
  "DeleteVariant flt ws vid j =
     and_then (variantContext flt ws vid j) (\<lambda>(current, siblings, step).
     and_then (edit_query flt ''CountVariantsSent'' (CountVariantsSent ws vid j)) (\<lambda>sent.
     and_then (require (sent \<le> 0) ErrVariantHasSends) (\<lambda>_.
     and_then (require (anyEligible (st_variant_weight step)
         (map va_weight (filter (\<lambda>v. va_id v \<noteq> va_id current) siblings))) ErrNoEligibleVariant) (\<lambda>_.
     and_then (edit_query flt ''DeleteStepVariant'' j) (DeleteStepVariant ws vid)))))"

definition SetBaseWeight :: "faults \<Rightarrow> uuid \<Rightarrow> uuid \<Rightarrow> int \<Rightarrow> job_db \<Rightarrow> edit_error + job_db" where
  "SetBaseWeight flt ws i weight j =
     and_then (require (0 \<le> weight) ErrVariantWeight) (\<lambda>_.
     and_then (get_step flt ws i j) (\<lambda>_.
     and_then (ListForStep flt ws i j) (\<lambda>siblings.
     and_then (require (anyEligible weight (map va_weight siblings)) ErrNoEligibleVariant) (\<lambda>_.
     and_then (edit_query flt ''SetStepVariantWeight'' j) (SetStepVariantWeight ws i weight)))))"

end
