(* ===== verification/Edit_Facts.thy ===== *)
theory Edit_Facts
  imports Sequence_Edit Schedule_Facts
begin

text \<open>
  What editing keeps: the graph of every campaign stays one that validation accepts, though appending a
  step is not checked against it; every step keeps a copy that can be sent and no more than five
  variants; and a reordering gives the steps the orders asked for.
\<close>

subsection \<open>A step at the end\<close>

lemma insort_key_append: "f x < f n \<Longrightarrow> insort_key f x (xs @ [n]) = insort_key f x xs @ [n]"
  by (induction xs) auto

lemma sort_key_append: "\<forall>x \<in> set xs. f x < f n \<Longrightarrow> sort_key f (xs @ [n]) = sort_key f xs @ [n]"
  by (induction xs) (auto simp: insort_key_append)

lemma acyclic_sink:
  assumes "acyclic r" and "r' \<subseteq> r \<union> UNIV \<times> {z}" and "\<And>y. (z, y) \<notin> r'"
  shows "acyclic r'"
proof (rule acyclicI, intro allI notI)
  fix x assume cyc: "(x, x) \<in> r'\<^sup>+"
  have "(a, b) \<in> r\<^sup>+" if "(a, b) \<in> r'\<^sup>+" "b \<noteq> z" for a b
    using that
  proof (induction rule: trancl_induct)
    case (base y)
    then show ?case using assms(2) by auto
  next
    case (step y w)
    then have "y \<noteq> z" using assms(3) by blast
    with step have "(a, y) \<in> r\<^sup>+" "(y, w) \<in> r" using assms(2) by auto
    then show ?case by (rule trancl_into_trancl)
  qed
  moreover have "x \<noteq> z" using cyc assms(3) by (metis tranclD)
  ultimately have "(x, x) \<in> r\<^sup>+" using cyc by blast
  with assms(1) show False by (simp add: acyclic_def)
qed

lemma Validate_acyclicI:
  "(\<And>i b. lookup_branch (New ss bs) i = Some b \<Longrightarrow> well_placed ss b) \<Longrightarrow> acyclic (edge (New ss bs))
     \<Longrightarrow> Validate (New ss bs) = None"
  unfolding Validate_def using first_error_branches [of ss bs] findCycle_acyclic [of ss bs] by simp

lemma Validate_None:
  "Validate (New ss bs) = None \<longleftrightarrow>
     (\<forall>i b. lookup_branch (New ss bs) i = Some b \<longrightarrow> well_placed ss b) \<and> acyclic (edge (New ss bs))"
  using Validate_acyclic Validate_acyclicI by blast

lemma lookup_branch_any: "lookup_branch (New ss bs) i = lookup_branch (New ss' bs) i"
  by (simp add: lookup_branch_def)

lemma Validate_append:
  assumes ok: "Validate (New ss bs) = None" and new: "step_id n \<notin> step_id ` set ss"
    and above: "\<forall>s \<in> set ss. step_order s < step_order n \<and> - 2147483648 \<le> step_order s" and room: "step_order n < 2147483647"
    and low: "- 2147483648 \<le> step_order n"
  shows "Validate (New (ss @ [n]) bs) = None"
proof -
  note placed = Validate_acyclic(1) [OF ok]
  let ?g = "New ss bs" and ?h = "New (ss @ [n]) bs"
  have sorted: "sort_key step_order (ss @ [n]) = sort_key step_order ss @ [n]"
    using above by (intro sort_key_append) auto
  have step: "lookup_step ?h i = (if i = step_id n then Some n else lookup_step ?g i)" for i
    by (simp add: lookup_step_def sorted)
  have search: "search_order (xs @ [n]) k
      = (case search_order xs k of Some s \<Rightarrow> Some s | None \<Rightarrow> if k \<le> step_order n then Some n else None)" for xs k
    by (induction xs) (auto simp: search_order_def)
  have no_branch: "lookup_branch ?h (step_id n) = None"
  proof (cases "lookup_branch ?g (step_id n)")
    case (Some b)
    with lookup_branch_New [OF Some] placed [OF Some] new show ?thesis by (simp add: well_placed_def)
  qed (use lookup_branch_any [of "ss @ [n]" bs "step_id n" ss] in simp)
  have wrap: "wrap32 (step_order s + 1) = step_order s + 1" if "s \<in> set (ss @ [n])" for s
    using that above room low by (intro wrap32_id) (auto simp: int32_def)
  have last: "exits ?h (step_id n) = []"
  proof -
    have "search_order (sort_key step_order ss) (step_order n + 1) = None"
      using above by (force simp: search_order_def find_None_iff)
    then show ?thesis
      using wrap [of n] by (simp add: exits_linear [OF no_branch] DefaultNext_def step search sorted)
  qed
  have sub: "set (exits ?h i) \<subseteq> set (exits ?g i) \<union> {step_id n}" if "i \<noteq> step_id n" for i
  proof (cases "lookup_branch ?g i")
    case (Some b)
    then show ?thesis using lookup_branch_any [of "ss @ [n]" bs i ss] by (auto simp: exits_def)
  next
    case None
    then have none: "lookup_branch ?h i = None" using lookup_branch_any [of "ss @ [n]" bs i ss] by simp
    show ?thesis
      using that by (auto simp: exits_linear [OF None] exits_linear [OF none] DefaultNext_def step search sorted
          split: option.splits if_splits)
  qed
  have "acyclic (edge ?h)"
  proof (rule acyclic_sink [OF Validate_acyclic(2) [OF ok]])
    show "edge ?h \<subseteq> edge ?g \<union> UNIV \<times> {step_id n}"
    proof
      fix e assume e: "e \<in> edge ?h"
      obtain a b where ab: "e = (a, b)" by force
      with e have b: "b \<in> set (exits ?h a)" by simp
      then have "a \<noteq> step_id n" using last by auto
      from sub [OF this] b ab show "e \<in> edge ?g \<union> UNIV \<times> {step_id n}" by auto
    qed
    show "(step_id n, y) \<notin> edge ?h" for y by (simp add: last)
  qed
  then show ?thesis
    using placed lookup_branch_any [of "ss @ [n]" bs _ ss]
    by (intro Validate_acyclicI) (fastforce simp: well_placed_def)+
qed

text \<open>Validation looks at ids and orders only.\<close>

lemma Validate_relabel:
  assumes "\<And>s. step_id (f s) = step_id s" "\<And>s. step_order (f s) = step_order s"
  shows "Validate (New (map f ss) bs) = None \<longleftrightarrow> Validate (New ss bs) = None"
proof -
  let ?g = "New ss bs" and ?h = "New (map f ss) bs"
  have sorted: "sort_key step_order (map f ss) = map f (sort_key step_order ss)"
    by (simp add: sort_key_map assms)
  have step: "lookup_step ?h i = map_option f (lookup_step ?g i)" for i
  proof -
    have "map_of (rev (map (\<lambda>s. (step_id s, s)) (map f xs))) i = map_option f (map_of (rev (map (\<lambda>s. (step_id s, s)) xs)) i)" for xs
      by (induction xs rule: rev_induct) (auto simp: assms)
    then show ?thesis by (simp add: lookup_step_def sorted)
  qed
  have search: "search_order (map f xs) k = map_option f (search_order xs k)" for xs k
    by (induction xs) (auto simp: assms search_order_def)
  have "exits ?h i = exits ?g i" for i
    using lookup_branch_any [of "map f ss" bs i ss]
    by (cases "lookup_step ?g i") (auto simp: exits_def DefaultNext_def step search sorted assms
        simp del: lookup_branch_New_None lookup_step_New_None split: option.split)
  then have "edge ?h = edge ?g" by (simp add: edge_def)
  moreover have "well_placed (map f ss) = well_placed ss"
    by (simp add: well_placed_def fun_eq_iff image_image assms)
  ultimately show ?thesis
    using lookup_branch_any [of "map f ss" bs _ ss] by (simp add: Validate_None)
qed

subsection \<open>What an edit leaves alone\<close>

definition campaign_graph :: "uuid \<Rightarrow> uuid \<Rightarrow> job_db \<Rightarrow> graph" where
  "campaign_graph ws c j = BuildGraph (ListStepsByCampaign c ws (jd_steps j)) (ListBranchesByCampaign c ws j)"

text \<open>The keys of the tables, and what the column checks say of the orders.\<close>

definition keys_ok :: "job_db \<Rightarrow> bool" where
  "keys_ok j \<longleftrightarrow> unique_key cm_id (jd_campaigns j) \<and> unique_key st_id (jd_steps j) \<and> unique_key va_id (jd_variants j)
     \<and> (\<forall>s \<in> set (jd_steps j). 1 \<le> st_order s)"

definition graphs_sound :: "job_db \<Rightarrow> bool" where
  "graphs_sound j \<longleftrightarrow> (\<forall>r \<in> set (jd_campaigns j). Validate (campaign_graph (cm_ws r) (cm_id r) j) = None)"

text \<open>Another campaign's rows, as the statements select them.\<close>

definition same_elsewhere :: "uuid \<Rightarrow> job_db \<Rightarrow> job_db \<Rightarrow> bool" where
  "same_elsewhere c j j' \<longleftrightarrow> jd_campaigns j' = jd_campaigns j \<and> (\<forall>d. d \<noteq> c \<longrightarrow>
     filter (\<lambda>s. st_campaign s = d) (jd_steps j') = filter (\<lambda>s. st_campaign s = d) (jd_steps j)
     \<and> filter (\<lambda>b. bw_campaign b = d) (jd_branches j') = filter (\<lambda>b. bw_campaign b = d) (jd_branches j))"

lemma same_elsewhere_refl [simp]: "same_elsewhere c j j"
  by (simp add: same_elsewhere_def)

lemma same_elsewhere_trans: "same_elsewhere c j j1 \<Longrightarrow> same_elsewhere c j1 j2 \<Longrightarrow> same_elsewhere c j j2"
  by (simp add: same_elsewhere_def)

lemma campaign_graph_filter:
  "campaign_graph ws c j = BuildGraph
     (sort_key st_order (filter (\<lambda>s. st_ws s = ws) (filter (\<lambda>s. st_campaign s = c) (jd_steps j))))
     (sort_key bw_step (filter (\<lambda>b. bw_ws b = ws) (filter (\<lambda>b. bw_campaign b = c) (jd_branches j))))"
  by (simp add: campaign_graph_def ListStepsByCampaign_def ListBranchesByCampaign_def conj_commute)

lemma same_elsewhere_graph: "same_elsewhere c j j' \<Longrightarrow> d \<noteq> c \<Longrightarrow> campaign_graph ws d j' = campaign_graph ws d j"
  by (simp add: same_elsewhere_def campaign_graph_filter)

lemma sound_if_checked:
  assumes "keys_ok j" "graphs_sound j" "same_elsewhere c j j'" "select_one (is_campaign ws c) (jd_campaigns j) \<noteq> None"
    and "Validate (campaign_graph ws c j') = None"
  shows "graphs_sound j'"
  unfolding graphs_sound_def
proof
  fix r assume "r \<in> set (jd_campaigns j')"
  then have r: "r \<in> set (jd_campaigns j)" using assms(3) by (simp add: same_elsewhere_def)
  obtain q where q: "q \<in> set (jd_campaigns j)" "cm_id q = c" "cm_ws q = ws"
    using assms(4) by (auto simp: is_campaign_def dest: select_one_SomeD)
  show "Validate (campaign_graph (cm_ws r) (cm_id r) j') = None"
  proof (cases "cm_id r = c")
    case True
    then have "r = q" using unique_keyD [of cm_id "jd_campaigns j" r q] assms(1) r q by (simp add: keys_ok_def)
    with q assms(5) show ?thesis by simp
  next
    case False
    with same_elsewhere_graph [OF assms(3)] assms(2) r show ?thesis by (simp add: graphs_sound_def)
  qed
qed

lemma withGraphLock_Inr:
  assumes "withGraphLock flt ws c checkGraph mutate j = Inr j'"
  shows "mutate j = Inr j'" "select_one (is_campaign ws c) (jd_campaigns j) \<noteq> None"
    "Validate (campaign_graph ws c j') = None"
  using assms
  by (auto simp: withGraphLock_def and_then_Inr edit_query_def require_def checkGraph_def campaign_graph_def
      split: option.splits if_splits)

lemma locked_edit_sound:
  assumes "withGraphLock flt ws c checkGraph mutate j = Inr j'" "keys_ok j" "graphs_sound j"
    and "mutate j = Inr j' \<Longrightarrow> same_elsewhere c j j' \<and> keys_ok j'"
  shows "keys_ok j' \<and> graphs_sound j'"
  using withGraphLock_Inr [OF assms(1)] assms(2-) sound_if_checked by blast

lemma edit_query_Inr [simp]: "edit_query flt stmt x = Inr y \<longleftrightarrow> flt stmt = None \<and> x = y"
  by (simp add: edit_query_def split: option.split)

lemma checked_Inr [simp]: "checked flt stmt r = Inr y \<longleftrightarrow> flt stmt = None \<and> r = Some y"
  by (auto simp: checked_def and_then_Inr split: option.splits)

lemma require_Inr [simp]: "require p e = Inr u \<longleftrightarrow> p"
  by (simp add: require_def)

lemma or_else_Inr [simp]: "or_else e r = Inr x \<longleftrightarrow> r = Inr x"
  by (simp add: or_else_def split: sum.split)

lemma CampaignStatus_Inr: "CampaignStatus flt ws c j = Inr s \<Longrightarrow> select_one (is_campaign ws c) (jd_campaigns j) \<noteq> None"
  by (auto simp: CampaignStatus_def and_then_Inr split: option.splits)

lemma requireDraft_Inr: "requireDraft flt ws c j = Inr u \<Longrightarrow> select_one (is_campaign ws c) (jd_campaigns j) \<noteq> None"
  by (auto simp: requireDraft_def and_then_Inr dest: CampaignStatus_Inr)

lemma stepInCampaign_Inr: "stepInCampaign flt ws c i j = Inr s \<longleftrightarrow> flt ''GetStep'' = None \<and> GetStep ws i j = Some s \<and> st_campaign s = c"
  by (auto simp: stepInCampaign_def and_then_Inr split: option.splits if_splits)

lemma GetStep_SomeD: "GetStep ws i j = Some s \<Longrightarrow> s \<in> set (jd_steps j) \<and> st_id s = i \<and> st_ws s = ws"
  by (auto simp: GetStep_def step_row_of_def dest: select_one_SomeD)

lemma GetStep_only:
  assumes "keys_ok j" "GetStep ws i j = Some s" "q \<in> set (jd_steps j)" "st_id q = i"
  shows "q = s"
  using GetStep_SomeD [OF assms(2)] assms unique_keyD [of st_id "jd_steps j" q s] by (simp add: keys_ok_def)

subsection \<open>Structural edits\<close>

lemma filter_filter_idle: "(\<And>x. x \<in> set xs \<Longrightarrow> q x \<Longrightarrow> p x) \<Longrightarrow> filter q (filter p xs) = filter q xs"
  by (induction xs) auto

lemma DeleteStep_elsewhere:
  assumes "keys_ok j" "GetStep ws i j = Some s" "st_campaign s = c" "DeleteStep ws i j = Some j'"
  shows "same_elsewhere c j j' \<and> keys_ok j'"
proof -
  from assms(2,4) have j': "j' = j\<lparr>jd_steps := filter (\<lambda>s. \<not> step_row_of ws i s) (jd_steps j),
     jd_variants := filter (\<lambda>v. va_step v \<noteq> i) (jd_variants j),
     jd_branches := update_where (\<lambda>b. bw_campaign b = st_campaign s)
       (\<lambda>b. b\<lparr>bw_yes_step := drop_exit i (bw_yes_step b), bw_no_step := drop_exit i (bw_no_step b)\<rparr>)
       (filter (\<lambda>b. \<not> (bw_step b = i \<and> bw_campaign b = st_campaign s)) (jd_branches j))\<rparr>"
    by (simp add: DeleteStep_def split: if_splits)
  have "filter (\<lambda>q. st_campaign q = d) (filter (\<lambda>q. \<not> step_row_of ws i q) (jd_steps j)) = filter (\<lambda>q. st_campaign q = d) (jd_steps j)"
    if "d \<noteq> c" for d
    using that GetStep_only [OF assms(1,2)] assms(3) by (intro filter_filter_idle) (auto simp: step_row_of_def)
  moreover have "filter (\<lambda>b. bw_campaign b = d) (jd_branches j') = filter (\<lambda>b. bw_campaign b = d) (jd_branches j)"
    if "d \<noteq> c" for d
    unfolding j' using that assms(3)
    by (simp add: filter_update_untouched) (auto intro!: filter_cong)
  moreover have "keys_ok j'"
    using assms(1) unfolding j' by (simp add: keys_ok_def unique_key_filter)
  ultimately show ?thesis by (simp add: same_elsewhere_def j')
qed

lemma ShiftStepOrders_elsewhere:
  assumes "keys_ok j" "0 \<le> k" "ShiftStepOrders ws c k j = Some j'"
  shows "same_elsewhere c j j' \<and> keys_ok j'"
proof -
  have j': "j' = j\<lparr>jd_steps := update_where (in_campaign ws c) (\<lambda>s. s\<lparr>st_order := st_order s + k\<rparr>) (jd_steps j)\<rparr>"
    using assms(3) by (simp add: ShiftStepOrders_def split: if_splits)
  have "filter (\<lambda>q. st_campaign q = d) (jd_steps j') = filter (\<lambda>q. st_campaign q = d) (jd_steps j)" if "d \<noteq> c" for d
    using that unfolding j' by (simp, intro filter_update_untouched) (auto simp: in_campaign_def)
  moreover have "1 \<le> st_order q + k" if "q \<in> set (jd_steps j)" for q
  proof -
    have "1 \<le> st_order q" using that assms(1) by (simp add: keys_ok_def)
    then show ?thesis using assms(2) by linarith
  qed
  then have "keys_ok j'"
    using assms(1) unfolding j' by (auto simp: keys_ok_def unique_key_update in_update_where)
  ultimately show ?thesis by (simp add: same_elsewhere_def j')
qed

lemma SetStepOrder_elsewhere:
  assumes "keys_ok j" "SetStepOrder ws c i k j = Some j'"
  shows "same_elsewhere c j j' \<and> keys_ok j'"
proof -
  have j': "j' = j\<lparr>jd_steps := update_where (\<lambda>s. in_campaign ws c s \<and> st_id s = i) (\<lambda>s. s\<lparr>st_order := k\<rparr>) (jd_steps j)\<rparr>"
    and k: "(\<exists>s \<in> set (jd_steps j). in_campaign ws c s \<and> st_id s = i) \<longrightarrow> 1 \<le> k"
    using assms(2) by (auto simp: SetStepOrder_def split: if_splits)
  have "filter (\<lambda>q. st_campaign q = d) (jd_steps j') = filter (\<lambda>q. st_campaign q = d) (jd_steps j)" if "d \<noteq> c" for d
    using that unfolding j' by (simp, intro filter_update_untouched) (auto simp: in_campaign_def)
  moreover have "keys_ok j'"
    using assms(1) k unfolding j' by (auto simp: keys_ok_def unique_key_update in_update_where) blast+
  ultimately show ?thesis by (simp add: same_elsewhere_def j')
qed

lemma stamp_orders_elsewhere:
  "keys_ok j \<Longrightarrow> stamp_orders flt ws c k ids j = Inr j' \<Longrightarrow> same_elsewhere c j j' \<and> keys_ok j'"
proof (induction ids arbitrary: j k)
  case (Cons i ids)
  then obtain j1 where "SetStepOrder ws c i (wrap32 k) j = Some j1" "stamp_orders flt ws c (k + 1) ids j1 = Inr j'"
    by (auto simp: and_then_Inr)
  with Cons SetStepOrder_elsewhere same_elsewhere_trans show ?case by blast
qed simp

lemma MaxStepOrder_ge: "s \<in> set (jd_steps j) \<Longrightarrow> in_campaign ws c s \<Longrightarrow> st_order s \<le> MaxStepOrder ws c j"
proof -
  assume s: "s \<in> set (jd_steps j)" "in_campaign ws c s"
  then have "st_order s \<in> set (map st_order (filter (in_campaign ws c) (jd_steps j)))" by auto
  then show ?thesis
    unfolding MaxStepOrder_def
    by (cases "map st_order (filter (in_campaign ws c) (jd_steps j))") (auto intro: fold_max_ge)
qed

lemma MaxStepOrder_nonneg: "keys_ok j \<Longrightarrow> 0 \<le> MaxStepOrder ws c j"
proof (cases "filter (in_campaign ws c) (jd_steps j)")
  case (Cons s ss)
  then have "s \<in> set (filter (in_campaign ws c) (jd_steps j))" by simp
  then have "s \<in> set (jd_steps j)" "in_campaign ws c s" by simp_all
  moreover assume "keys_ok j"
  ultimately show ?thesis using MaxStepOrder_ge [of s j ws c] by (force simp: keys_ok_def)
qed (simp add: MaxStepOrder_def)

lemma reorder_elsewhere:
  "keys_ok j \<Longrightarrow> reorder_tx flt ws c ids j = Inr j' \<Longrightarrow> same_elsewhere c j j' \<and> keys_ok j'"
  using MaxStepOrder_nonneg [of j ws c]
  by (auto simp: reorder_tx_def and_then_Inr dest!: ShiftStepOrders_elsewhere [rotated 2] stamp_orders_elsewhere [rotated]
      intro: same_elsewhere_trans)

lemma UpsertBranch_elsewhere:
  assumes "UpsertBranch b j = Inr j'"
  shows "same_elsewhere (bw_campaign b) j j' \<and> (keys_ok j \<longrightarrow> keys_ok j')"
  using assms
  by (auto simp: UpsertBranch_def and_then_Inr same_elsewhere_def keys_ok_def split: option.splits
      intro!: filter_update_untouched)

lemma DeleteBranch_elsewhere: "same_elsewhere c j (DeleteBranch ws c i j) \<and> (keys_ok j \<longrightarrow> keys_ok (DeleteBranch ws c i j))"
  by (auto simp: DeleteBranch_def same_elsewhere_def keys_ok_def intro!: filter_cong)

lemma RemoveStep_sound:
  assumes "RemoveStep flt ws c i j = Inr j'" "keys_ok j" "graphs_sound j"
  shows "keys_ok j' \<and> graphs_sound j'"
proof -
  obtain s where "GetStep ws i j = Some s" "st_campaign s = c"
    and run: "withGraphLock flt ws c checkGraph (\<lambda>j. checked flt ''DeleteStep'' (DeleteStep ws i j)) j = Inr j'"
    using assms(1) by (auto simp: RemoveStep_def and_then_Inr stepInCampaign_Inr)
  with DeleteStep_elsewhere assms(2) show ?thesis
    by (intro locked_edit_sound [OF run assms(2,3)]) auto
qed

lemma Reorder_sound:
  assumes "Reorder flt ws c ids j = Inr j'" "keys_ok j" "graphs_sound j"
  shows "keys_ok j' \<and> graphs_sound j'"
proof -
  have run: "withGraphLock flt ws c checkGraph (reorder_tx flt ws c ids) j = Inr j'"
    using assms(1) by (auto simp: Reorder_def and_then_Inr)
  then show ?thesis using reorder_elsewhere assms(2) by (intro locked_edit_sound [OF run assms(2,3)]) auto
qed

lemma SetBranch_sound:
  assumes "SetBranch flt ws c inp j = Inr j'" "keys_ok j" "graphs_sound j"
  shows "keys_ok j' \<and> graphs_sound j'"
proof -
  have run: "withGraphLock flt ws c checkGraph
         (\<lambda>j. and_then (edit_query flt ''UpsertBranch'' j) (UpsertBranch (branch_row_of ws c inp))) j = Inr j'"
    using assms(1) by (auto simp: SetBranch_def and_then_Inr)
  show ?thesis
    by (rule locked_edit_sound [OF run assms(2,3)])
      (use UpsertBranch_elsewhere [of "branch_row_of ws c inp" j j'] assms(2) in \<open>auto simp: and_then_Inr branch_row_of_def\<close>)
qed

lemma RemoveBranch_sound:
  assumes "RemoveBranch flt ws c i j = Inr j'" "keys_ok j" "graphs_sound j"
  shows "keys_ok j' \<and> graphs_sound j'"
proof -
  have run: "withGraphLock flt ws c checkGraph (\<lambda>j. edit_query flt ''DeleteBranch'' (DeleteBranch ws c i j)) j = Inr j'"
    using assms(1) by (auto simp: RemoveBranch_def and_then_Inr)
  show ?thesis
    by (rule locked_edit_sound [OF run assms(2,3)]) (use DeleteBranch_elsewhere assms(2) in auto)
qed

subsection \<open>Edits without a check\<close>

lemma map_filter_comm: "(\<And>x. q (f x) = q x) \<Longrightarrow> filter q (map f xs) = map f (filter q xs)"
  by (induction xs) auto

text \<open>A change of columns that neither listing nor routing reads.\<close>

lemma relabel_sound:
  assumes f: "\<And>s. st_id (f s) = st_id s" "\<And>s. st_ws (f s) = st_ws s" "\<And>s. st_campaign (f s) = st_campaign s"
    "\<And>s. st_order (f s) = st_order s"
    and "keys_ok j" "graphs_sound j"
  shows "keys_ok (j\<lparr>jd_steps := map f (jd_steps j)\<rparr>) \<and> graphs_sound (j\<lparr>jd_steps := map f (jd_steps j)\<rparr>)"
proof
  let ?j = "j\<lparr>jd_steps := map f (jd_steps j)\<rparr>"
  show "keys_ok ?j" using assms(5) by (auto simp: keys_ok_def unique_key_def f comp_def)
  show "graphs_sound ?j"
    unfolding graphs_sound_def
  proof
    fix r assume r: "r \<in> set (jd_campaigns ?j)"
    let ?L = "ListStepsByCampaign (cm_id r) (cm_ws r) (jd_steps j)"
    have L: "ListStepsByCampaign (cm_id r) (cm_ws r) (map f (jd_steps j)) = map f ?L"
      by (simp add: ListStepsByCampaign_def map_filter_comm f sort_key_map)
    let ?core = "\<lambda>s. s\<lparr>delay_seconds := 0\<rparr>"
    have same: "map ?core (map node_of (map f ?L)) = map ?core (map node_of ?L)"
      by (simp add: node_of_def f)
    have core: "Validate (New xs bs) = None \<longleftrightarrow> Validate (New (map ?core xs) bs) = None" for xs bs
      by (rule Validate_relabel [symmetric]) simp_all
    have "Validate (New (map node_of (map f ?L)) bs) = None \<longleftrightarrow> Validate (New (map node_of ?L) bs) = None" for bs
      using core [of "map node_of (map f ?L)" bs] core [of "map node_of ?L" bs] same by argo
    moreover have "Validate (campaign_graph (cm_ws r) (cm_id r) j) = None"
      using r assms(6) by (simp add: graphs_sound_def)
    ultimately show "Validate (campaign_graph (cm_ws r) (cm_id r) ?j) = None"
      by (simp add: campaign_graph_def L BuildGraph_def ListBranchesByCampaign_def)
  qed
qed

lemma UpdateStep_sound:
  assumes "EditStep flt ws c i inp j = Inr j'" "keys_ok j" "graphs_sound j"
  shows "keys_ok j' \<and> graphs_sound j'"
proof -
  have "j' = j\<lparr>jd_steps := update_where (step_row_of ws i)
             (\<lambda>s. s\<lparr>st_delay_seconds := si_delay_seconds inp, st_subject := si_subject inp,
                    st_body_text := si_body_text inp, st_body_html := si_body_html inp\<rparr>) (jd_steps j)\<rparr>"
    using assms(1) by (auto simp: EditStep_def and_then_Inr UpdateStep_def split: if_splits)
  then show ?thesis
    unfolding update_where_def by (simp only:) (rule relabel_sound, use assms in auto)
qed

lemma AppendStep_Inr:
  assumes "AppendStep flt ws c sid inp j = Inr j'"
  obtains s where "j' = j\<lparr>jd_steps := jd_steps j @ [s]\<rparr>" "st_id s = sid" "st_ws s = ws" "st_campaign s = c"
    "st_order s = wrap32 (MaxStepOrder ws c j + 1)" "1 \<le> st_order s" "st_variant_weight s = 1"
    "select_one (is_campaign ws c) (jd_campaigns j) \<noteq> None"
  using assms
  by (auto simp: AppendStep_def and_then_Inr Sequence_Edit.CreateStep_def dest: requireDraft_Inr split: if_splits)

text \<open>Appending a step is not checked against the graph and need not be: the new step has no way out.
  The one exception is the largest order of all, whose successor wraps around.\<close>

lemma AppendStep_sound:
  assumes "AppendStep flt ws c sid inp j = Inr j'" "keys_ok j" "graphs_sound j"
    and "sid \<notin> st_id ` set (jd_steps j)" "MaxStepOrder ws c j < 2147483646"
  shows "keys_ok j' \<and> graphs_sound j'"
  using assms(1)
proof (cases rule: AppendStep_Inr)
  case (1 s)
  note m = MaxStepOrder_nonneg [OF assms(2), of ws c]
  have order: "st_order s = MaxStepOrder ws c j + 1"
    using 1(5) assms(5) m by (simp add: wrap32_id int32_def)
  have keys: "keys_ok j'" using assms(2,4) 1 by (auto simp: keys_ok_def unique_key_def)
  have elsewhere: "same_elsewhere c j j'" using 1 by (simp add: same_elsewhere_def)
  let ?L = "ListStepsByCampaign c ws (jd_steps j)"
  have L: "set ?L = {q \<in> set (jd_steps j). in_campaign ws c q}"
    by (auto simp: ListStepsByCampaign_def in_campaign_def)
  have "filter (\<lambda>r. st_campaign r = c \<and> st_ws r = ws) (jd_steps j @ [s])
      = filter (\<lambda>r. st_campaign r = c \<and> st_ws r = ws) (jd_steps j) @ [s]" using 1 by simp
  then have L': "ListStepsByCampaign c ws (jd_steps j') = ?L @ [s]"
    using MaxStepOrder_ge [of _ j ws c] order
    by (simp add: 1(1) ListStepsByCampaign_def) (intro sort_key_append, force simp: in_campaign_def)
  obtain r where r: "r \<in> set (jd_campaigns j)" "cm_id r = c" "cm_ws r = ws"
    using 1(8) by (auto simp: is_campaign_def dest: select_one_SomeD)
  then have ok: "Validate (campaign_graph ws c j) = None" using assms(3) by (auto simp: graphs_sound_def)
  have "Validate (New (map node_of ?L @ [node_of s]) bs) = None" if "Validate (New (map node_of ?L) bs) = None" for bs
  proof (rule Validate_append [OF that])
    show "step_id (node_of s) \<notin> step_id ` set (map node_of ?L)"
      using assms(4) 1(2) by (auto simp: node_of_def L)
    show "\<forall>q \<in> set (map node_of ?L). step_order q < step_order (node_of s) \<and> - 2147483648 \<le> step_order q"
    proof
      fix q assume "q \<in> set (map node_of ?L)"
      then obtain p where p: "p \<in> set (jd_steps j)" "in_campaign ws c p" "q = node_of p" by (auto simp: L)
      with assms(2) have "1 \<le> st_order p" by (simp add: keys_ok_def)
      with MaxStepOrder_ge [OF p(1,2)] order p(3)
      show "step_order q < step_order (node_of s) \<and> - 2147483648 \<le> step_order q" by (simp add: node_of_def)
    qed
  qed (use order assms(5) m in \<open>auto simp: node_of_def\<close>)
  from this [of "map BranchFromRow (ListBranchesByCampaign c ws j)"] ok
  have "Validate (campaign_graph ws c j') = None"
    by (simp add: campaign_graph_def BuildGraph_def L') (simp add: 1(1) ListBranchesByCampaign_def)
  with sound_if_checked [OF assms(2,3) elsewhere 1(8)] keys show ?thesis by simp
qed

subsection \<open>The copies of a step\<close>

definition variants_of :: "step_row \<Rightarrow> job_db \<Rightarrow> variant_row list" where
  "variants_of s j = filter (\<lambda>v. va_step v = st_id s \<and> va_ws v = st_ws s) (jd_variants j)"

definition copies_ok :: "job_db \<Rightarrow> bool" where
  "copies_ok j \<longleftrightarrow> (\<forall>s \<in> set (jd_steps j).
     anyEligible (st_variant_weight s) (map va_weight (variants_of s j)) \<and> length (variants_of s j) \<le> MaxVariantsPerStep)"

lemma copies_ok_by:
  assumes "copies_ok j"
    and "\<And>s'. s' \<in> set (jd_steps j') \<Longrightarrow>
      \<exists>s \<in> set (jd_steps j). st_variant_weight s' = st_variant_weight s \<and> variants_of s' j' = variants_of s j"
  shows "copies_ok j'"
  unfolding copies_ok_def
proof
  fix s' assume "s' \<in> set (jd_steps j')"
  then obtain s where "s \<in> set (jd_steps j)" "st_variant_weight s' = st_variant_weight s" "variants_of s' j' = variants_of s j"
    using assms(2) by blast
  with assms(1) show "anyEligible (st_variant_weight s') (map va_weight (variants_of s' j'))
      \<and> length (variants_of s' j') \<le> MaxVariantsPerStep" by (simp add: copies_ok_def)
qed

lemma copies_ok_steps:
  assumes "copies_ok j" "jd_variants j' = jd_variants j" "jd_steps j' = update_where p f (jd_steps j)"
    and "\<And>s. st_id (f s) = st_id s" "\<And>s. st_ws (f s) = st_ws s" "\<And>s. st_variant_weight (f s) = st_variant_weight s"
  shows "copies_ok j'"
  using assms(1) by (rule copies_ok_by) (auto simp: assms in_update_where variants_of_def)

lemma copies_ok_same: "copies_ok j \<Longrightarrow> jd_variants j' = jd_variants j \<Longrightarrow> jd_steps j' = jd_steps j \<Longrightarrow> copies_ok j'"
  by (simp add: copies_ok_def variants_of_def)

lemma stamp_orders_copies: "stamp_orders flt ws c k ids j = Inr j' \<Longrightarrow> copies_ok j \<Longrightarrow> copies_ok j'"
proof (induction ids arbitrary: j k)
  case (Cons i ids)
  then obtain j1 where j1: "SetStepOrder ws c i (wrap32 k) j = Some j1" and rest: "stamp_orders flt ws c (k + 1) ids j1 = Inr j'"
    by (auto simp: and_then_Inr)
  have "copies_ok j1"
    by (rule copies_ok_steps [where p = "\<lambda>s. in_campaign ws c s \<and> st_id s = i" and f = "\<lambda>s. s\<lparr>st_order := wrap32 k\<rparr>",
          OF Cons.prems(2)]) (use j1 in \<open>auto simp: SetStepOrder_def split: if_splits\<close>)
  with Cons.IH [OF rest] show ?case by blast
qed simp

lemma Reorder_copies:
  assumes "Reorder flt ws c ids j = Inr j'" "copies_ok j"
  shows "copies_ok j'"
proof -
  have "withGraphLock flt ws c checkGraph (reorder_tx flt ws c ids) j = Inr j'"
    using assms(1) by (auto simp: Reorder_def and_then_Inr)
  from withGraphLock_Inr(1) [OF this] obtain j1 where
    j1: "ShiftStepOrders ws c (MaxStepOrder ws c j) j = Some j1" and rest: "stamp_orders flt ws c 1 ids j1 = Inr j'"
    by (auto simp: reorder_tx_def and_then_Inr)
  have "copies_ok j1"
    by (rule copies_ok_steps [where p = "in_campaign ws c" and f = "\<lambda>s. s\<lparr>st_order := st_order s + MaxStepOrder ws c j\<rparr>",
          OF assms(2)]) (use j1 in \<open>auto simp: ShiftStepOrders_def split: if_splits\<close>)
  with stamp_orders_copies [OF rest] show ?thesis by blast
qed

lemma AppendStep_copies:
  assumes "AppendStep flt ws c sid inp j = Inr j'" "copies_ok j" "\<forall>v \<in> set (jd_variants j). va_step v \<noteq> sid"
  shows "copies_ok j'"
  using assms(1)
proof (cases rule: AppendStep_Inr)
  case (1 s)
  have "variants_of s j' = []" using 1 assms(3) by (auto simp: variants_of_def filter_empty_conv)
  with assms(2) 1 show ?thesis by (auto simp: copies_ok_def variants_of_def anyEligible_def)
qed

lemma EditStep_copies: "EditStep flt ws c i inp j = Inr j' \<Longrightarrow> copies_ok j \<Longrightarrow> copies_ok j'"
  by (auto simp: EditStep_def and_then_Inr UpdateStep_def split: if_splits elim!: copies_ok_steps)

lemma RemoveStep_copies:
  assumes "RemoveStep flt ws c i j = Inr j'" "copies_ok j" "keys_ok j"
  shows "copies_ok j'"
proof -
  obtain s where s: "GetStep ws i j = Some s"
    and run: "withGraphLock flt ws c checkGraph (\<lambda>j. checked flt ''DeleteStep'' (DeleteStep ws i j)) j = Inr j'"
    using assms(1) by (auto simp: RemoveStep_def and_then_Inr stepInCampaign_Inr)
  have j': "jd_steps j' = filter (\<lambda>s. \<not> step_row_of ws i s) (jd_steps j)"
    "jd_variants j' = filter (\<lambda>v. va_step v \<noteq> i) (jd_variants j)"
    using withGraphLock_Inr(1) [OF run] s by (auto simp: DeleteStep_def split: if_splits)
  show ?thesis
  proof (rule copies_ok_by [OF assms(2)])
    fix q assume q: "q \<in> set (jd_steps j')"
    then have "st_id q \<noteq> i"
      using GetStep_only [OF assms(3) s, of q] GetStep_SomeD [OF s] by (auto simp: j' step_row_of_def)
    then have "variants_of q j' = variants_of q j" by (auto simp: variants_of_def j' intro!: filter_cong)
    with q show "\<exists>s \<in> set (jd_steps j). st_variant_weight q = st_variant_weight s \<and> variants_of q j' = variants_of s j"
      by (auto simp: j')
  qed
qed

lemma SetBranch_copies: "SetBranch flt ws c inp j = Inr j' \<Longrightarrow> copies_ok j \<Longrightarrow> copies_ok j'"
  by (auto simp: SetBranch_def and_then_Inr UpsertBranch_def dest!: withGraphLock_Inr(1) split: option.splits
      elim!: copies_ok_same)

lemma RemoveBranch_copies: "RemoveBranch flt ws c i j = Inr j' \<Longrightarrow> copies_ok j \<Longrightarrow> copies_ok j'"
  by (auto simp: RemoveBranch_def and_then_Inr DeleteBranch_def dest!: withGraphLock_Inr(1) elim!: copies_ok_same)

subsection \<open>Edits of the copies\<close>

definition step_copies_ok :: "step_row \<Rightarrow> job_db \<Rightarrow> bool" where
  "step_copies_ok s j \<longleftrightarrow>
     anyEligible (st_variant_weight s) (map va_weight (variants_of s j)) \<and> length (variants_of s j) \<le> MaxVariantsPerStep"

lemma copies_ok_iff: "copies_ok j \<longleftrightarrow> (\<forall>s \<in> set (jd_steps j). step_copies_ok s j)"
  by (simp add: copies_ok_def step_copies_ok_def)

lemma anyEligible_set: "set ws = set ws' \<Longrightarrow> anyEligible b ws = anyEligible b ws'"
  by (simp add: anyEligible_def)

lemma ListStepVariants_of:
  "ListStepVariants (st_id s) (st_ws s) j = sort_key va_id (variants_of s j)"
  by (simp add: ListStepVariants_def variants_of_def)

lemma anyEligible_sorted:
  "anyEligible b (map g (filter p (sort_key va_id vs))) = anyEligible b (map g (filter p vs))"
  by (rule anyEligible_set) (simp add: image_def)

lemmas anyEligible_listed = anyEligible_sorted [where p = "\<lambda>_. True", simplified]

text \<open>An edit of one step's copies, checked against what it makes of that step.\<close>

lemma copies_ok_one:
  assumes "copies_ok j"
    and "\<And>s. s \<in> set (jd_steps j') \<Longrightarrow> st_id s \<noteq> i \<Longrightarrow> s \<in> set (jd_steps j) \<and> variants_of s j' = variants_of s j"
    and "\<And>s. s \<in> set (jd_steps j') \<Longrightarrow> st_id s = i \<Longrightarrow> step_copies_ok s j'"
  shows "copies_ok j'"
  unfolding copies_ok_iff
proof
  fix s assume s: "s \<in> set (jd_steps j')"
  show "step_copies_ok s j'"
    using assms(1) assms(2,3) [OF s] by (cases "st_id s = i") (auto simp: copies_ok_iff step_copies_ok_def)
qed

definition only_variants :: "job_db \<Rightarrow> job_db \<Rightarrow> bool" where
  "only_variants j j' \<longleftrightarrow> jd_steps j' = jd_steps j \<and> jd_branches j' = jd_branches j \<and> jd_campaigns j' = jd_campaigns j"

lemma only_variants_sound:
  "only_variants j j' \<Longrightarrow> unique_key va_id (jd_variants j') \<Longrightarrow> keys_ok j \<Longrightarrow> graphs_sound j \<Longrightarrow> keys_ok j' \<and> graphs_sound j'"
  by (simp add: only_variants_def keys_ok_def graphs_sound_def campaign_graph_filter)

lemma CreateVariant_Inr:
  assumes "CreateVariant flt vid ws i inp j = Inr j'"
  obtains s v where "GetStep ws i j = Some s" "va_id v = vid" "va_ws v = ws" "va_step v = i"
    "j' = j\<lparr>jd_variants := jd_variants j @ [v]\<rparr>" "length (variants_of s j) < MaxVariantsPerStep"
    "anyEligible (st_variant_weight s) (map va_weight (variants_of s j @ [v]))"
proof -
  from assms obtain s valid where s: "GetStep ws i j = Some s"
    and guards: "length (ListStepVariants i ws j) < MaxVariantsPerStep"
      "anyEligible (st_variant_weight s) (map va_weight (ListStepVariants i ws j) @ [vi_weight valid])"
    and run: "CreateStepVariant vid ws i valid j = Inr j'"
    by (auto simp: CreateVariant_def and_then_Inr get_step_def ListForStep_def split: option.splits)
  have L: "ListStepVariants i ws j = sort_key va_id (variants_of s j)"
    using GetStep_SomeD [OF s] ListStepVariants_of [of s j] by simp
  have "anyEligible (st_variant_weight s) (map va_weight (variants_of s j) @ [vi_weight valid])"
    using guards(2) unfolding L by (rule subst [OF anyEligible_set, rotated]) simp
  with s guards(1) run show thesis
    by (intro that [of s "\<lparr>va_id = vid, va_ws = ws, va_step = i, va_label = vi_label valid, va_weight = vi_weight valid,
         va_subject = vi_subject valid, va_body_text = vi_body_text valid, va_body_html = vi_body_html valid\<rparr>"])
      (auto simp: CreateStepVariant_def and_then_Inr L)
qed

lemma CreateVariant_sound:
  assumes "CreateVariant flt vid ws i inp j = Inr j'" "keys_ok j" "graphs_sound j" "copies_ok j"
    and "vid \<notin> va_id ` set (jd_variants j)"
  shows "(keys_ok j' \<and> graphs_sound j') \<and> copies_ok j'"
  using assms(1)
proof (cases rule: CreateVariant_Inr)
  case (1 s v)
  have "keys_ok j' \<and> graphs_sound j'"
    using assms(2,5) 1 by (intro only_variants_sound [OF _ _ assms(2,3)]) (auto simp: only_variants_def keys_ok_def unique_key_def)
  moreover have "copies_ok j'"
  proof (rule copies_ok_one [OF assms(4), where i = i])
    fix q assume q: "q \<in> set (jd_steps j')" "st_id q = i"
    with 1 GetStep_only [OF assms(2) 1(1), of q] have "q = s" by simp
    with 1 GetStep_SomeD [OF 1(1)] show "step_copies_ok q j'"
      by (auto simp: step_copies_ok_def variants_of_def)
  qed (use 1 in \<open>auto simp: variants_of_def\<close>)
  ultimately show ?thesis by simp
qed

lemma variantContext_Inr:
  assumes "variantContext flt ws vid j = Inr (v, siblings, s)"
  shows "select_one (is_variant ws vid) (jd_variants j) = Some v" "GetStep ws (va_step v) j = Some s"
    "siblings = sort_key va_id (variants_of s j)"
proof -
  from assms have *: "select_one (is_variant ws vid) (jd_variants j) = Some v" "GetStep ws (va_step v) j = Some s"
    "siblings = ListStepVariants (va_step v) ws j"
    by (auto simp: variantContext_def and_then_Inr get_step_def ListForStep_def split: option.splits)
  then show "select_one (is_variant ws vid) (jd_variants j) = Some v" "GetStep ws (va_step v) j = Some s" by simp_all
  show "siblings = sort_key va_id (variants_of s j)"
    using *(3) GetStep_SomeD [OF *(2)] ListStepVariants_of [of s j] by simp
qed

text \<open>The rows of other steps are out of reach of an edit of one variant.\<close>

lemma is_variant_only:
  assumes "keys_ok j" "select_one (is_variant ws vid) (jd_variants j) = Some v" "q \<in> set (jd_variants j)"
  shows "is_variant ws vid q \<longleftrightarrow> q = v" "va_id q = va_id v \<longleftrightarrow> q = v"
  using select_one_SomeD [OF assms(2)] assms(3) unique_keyD [of va_id "jd_variants j" q v] assms(1)
  by (auto simp: keys_ok_def is_variant_def)

lemma UpdateVariant_sound:
  assumes "UpdateVariant flt ws vid inp j = Inr j'" "keys_ok j" "graphs_sound j" "copies_ok j"
  shows "(keys_ok j' \<and> graphs_sound j') \<and> copies_ok j'"
proof -
  from assms(1) obtain v siblings s valid where ctx: "variantContext flt ws vid j = Inr (v, siblings, s)"
    and check: "anyEligible (st_variant_weight s)
         (map (\<lambda>q. if va_id q = va_id v then vi_weight valid else va_weight q) siblings)"
    and run: "UpdateStepVariant ws vid valid j = Inr j'"
    by (fastforce simp: UpdateVariant_def and_then_Inr)
  note c = variantContext_Inr [OF ctx]
  note only = is_variant_only [OF assms(2) c(1)]
  let ?f = "\<lambda>v. v\<lparr>va_label := vi_label valid, va_weight := vi_weight valid, va_subject := vi_subject valid,
                      va_body_text := vi_body_text valid, va_body_html := vi_body_html valid\<rparr>"
  have j': "j' = j\<lparr>jd_variants := update_where (is_variant ws vid) ?f (jd_variants j)\<rparr>"
    using run c(1) by (simp add: UpdateStepVariant_def and_then_Inr)
  have vs: "variants_of q j' = map (\<lambda>w. if is_variant ws vid w then ?f w else w) (variants_of q j)" for q
    unfolding variants_of_def j' update_where_def by (simp, rule map_filter_comm) simp
  have "keys_ok j' \<and> graphs_sound j'"
    using assms(2) unfolding j'
    by (intro only_variants_sound [OF _ _ assms(2,3)]) (auto simp: only_variants_def keys_ok_def unique_key_update)
  moreover have "copies_ok j'"
  proof (rule copies_ok_one [OF assms(4), where i = "va_step v"])
    fix q assume q: "q \<in> set (jd_steps j')" "st_id q = va_step v"
    then have qs: "q = s" using GetStep_only [OF assms(2) c(2), of q] by (simp add: j')
    have "map va_weight (variants_of s j') = map (\<lambda>q. if va_id q = va_id v then vi_weight valid else va_weight q) (variants_of s j)"
      unfolding vs using only by (auto simp: variants_of_def)
    moreover have "length (variants_of s j') = length (variants_of s j)" by (simp add: vs)
    moreover have "step_copies_ok s j" using GetStep_SomeD [OF c(2)] assms(4) by (simp add: copies_ok_iff)
    ultimately show "step_copies_ok q j'"
      using check unfolding qs step_copies_ok_def c(3) anyEligible_listed by argo
  next
    fix q assume q: "q \<in> set (jd_steps j')" "st_id q \<noteq> va_step v"
    then have "variants_of q j' = variants_of q j"
      unfolding vs using only(1) by (auto simp: variants_of_def intro!: map_idI)
    with q show "q \<in> set (jd_steps j) \<and> variants_of q j' = variants_of q j" by (simp add: j')
  qed
  ultimately show ?thesis by simp
qed

lemma DeleteVariant_sound:
  assumes "DeleteVariant flt ws vid j = Inr j'" "keys_ok j" "graphs_sound j" "copies_ok j"
  shows "(keys_ok j' \<and> graphs_sound j') \<and> copies_ok j'"
proof -
  from assms(1) obtain v siblings s where ctx: "variantContext flt ws vid j = Inr (v, siblings, s)"
    and check: "anyEligible (st_variant_weight s) (map va_weight (filter (\<lambda>q. va_id q \<noteq> va_id v) siblings))"
    and run: "DeleteStepVariant ws vid j = Inr j'"
    by (fastforce simp: DeleteVariant_def and_then_Inr)
  note c = variantContext_Inr [OF ctx]
  note only = is_variant_only [OF assms(2) c(1)]
  have j': "j' = j\<lparr>jd_variants := filter (\<lambda>v. \<not> is_variant ws vid v) (jd_variants j)\<rparr>"
    using run c(1) by (simp add: DeleteStepVariant_def and_then_Inr)
  have vs: "variants_of q j' = filter (\<lambda>w. va_id w \<noteq> va_id v) (variants_of q j)" for q
    unfolding variants_of_def j' using only by (auto intro!: filter_cong)
  have "keys_ok j' \<and> graphs_sound j'"
    using assms(2) unfolding j'
    by (intro only_variants_sound [OF _ _ assms(2,3)]) (auto simp: only_variants_def keys_ok_def unique_key_filter)
  moreover have "copies_ok j'"
  proof (rule copies_ok_one [OF assms(4), where i = "va_step v"])
    fix q assume q: "q \<in> set (jd_steps j')" "st_id q = va_step v"
    then have qs: "q = s" using GetStep_only [OF assms(2) c(2), of q] by (simp add: j')
    have "s \<in> set (jd_steps j)" using GetStep_SomeD [OF c(2)] by simp
    with check assms(4) show "step_copies_ok q j'"
      unfolding qs step_copies_ok_def copies_ok_iff c(3) anyEligible_sorted vs
      by (meson le_trans length_filter_le)
  next
    fix q assume q: "q \<in> set (jd_steps j')" "st_id q \<noteq> va_step v"
    then have "variants_of q j' = variants_of q j"
      unfolding vs filter_id_conv using only(2) by (auto simp: variants_of_def)
    with q show "q \<in> set (jd_steps j) \<and> variants_of q j' = variants_of q j" by (simp add: j')
  qed
  ultimately show ?thesis by simp
qed

lemma SetBaseWeight_sound:
  assumes "SetBaseWeight flt ws i weight j = Inr j'" "keys_ok j" "graphs_sound j" "copies_ok j"
  shows "(keys_ok j' \<and> graphs_sound j') \<and> copies_ok j'"
proof -
  let ?f = "\<lambda>s. s\<lparr>st_variant_weight := weight\<rparr>"
  from assms(1) obtain s where s: "GetStep ws i j = Some s"
    and check: "anyEligible weight (map va_weight (ListStepVariants i ws j))"
    and j': "j' = j\<lparr>jd_steps := update_where (step_row_of ws i) ?f (jd_steps j)\<rparr>"
    by (auto simp: SetBaseWeight_def and_then_Inr get_step_def ListForStep_def SetStepVariantWeight_def split: option.splits)
  have L: "ListStepVariants i ws j = sort_key va_id (variants_of s j)"
    using GetStep_SomeD [OF s] ListStepVariants_of [of s j] by simp
  have "keys_ok j' \<and> graphs_sound j'"
    unfolding j' update_where_def by (rule relabel_sound) (use assms in auto)
  moreover have "copies_ok j'"
  proof (rule copies_ok_one [OF assms(4), where i = i])
    fix q assume q: "q \<in> set (jd_steps j')" "st_id q = i"
    then obtain p where p: "p \<in> set (jd_steps j)" "q = (if step_row_of ws i p then ?f p else p)"
      by (auto simp: j' in_update_where)
    with q(2) have "st_id p = i" by (simp split: if_splits)
    with p(1) have "p = s" using GetStep_only [OF assms(2) s] by simp
    with p(2) have q': "q = ?f s" using GetStep_SomeD [OF s] by (simp add: step_row_of_def)
    have "variants_of q j' = variants_of s j" by (simp add: q' variants_of_def j')
    with check assms(4) GetStep_SomeD [OF s] show "step_copies_ok q j'"
      by (auto simp: step_copies_ok_def copies_ok_iff L anyEligible_listed q')
  next
    fix q assume q: "q \<in> set (jd_steps j')" "st_id q \<noteq> i"
    then show "q \<in> set (jd_steps j) \<and> variants_of q j' = variants_of q j"
      by (auto simp: j' in_update_where step_row_of_def variants_of_def)
  qed
  ultimately show ?thesis by simp
qed

subsection \<open>Any sequence of edits\<close>

text \<open>
  An edit that succeeds, of any workspace and under any faults. A new step or variant has an id that no
  row has (the column default draws it), and the orders leave room for one more step: the service adds one
  to the largest order in 32 bits.
\<close>

inductive edit_step :: "job_db \<Rightarrow> job_db \<Rightarrow> bool" where
  appending: "AppendStep flt ws c sid inp j = Inr j' \<Longrightarrow> sid \<notin> st_id ` set (jd_steps j) \<Longrightarrow>
    \<forall>v \<in> set (jd_variants j). va_step v \<noteq> sid \<Longrightarrow> MaxStepOrder ws c j < 2147483646 \<Longrightarrow> edit_step j j'"
| editing: "EditStep flt ws c i inp j = Inr j' \<Longrightarrow> edit_step j j'"
| removing: "RemoveStep flt ws c i j = Inr j' \<Longrightarrow> edit_step j j'"
| reordering: "Reorder flt ws c ids j = Inr j' \<Longrightarrow> edit_step j j'"
| branching: "SetBranch flt ws c b j = Inr j' \<Longrightarrow> edit_step j j'"
| unbranching: "RemoveBranch flt ws c i j = Inr j' \<Longrightarrow> edit_step j j'"
| adding: "CreateVariant flt vid ws i v j = Inr j' \<Longrightarrow> vid \<notin> va_id ` set (jd_variants j) \<Longrightarrow> edit_step j j'"
| changing: "UpdateVariant flt ws vid v j = Inr j' \<Longrightarrow> edit_step j j'"
| dropping: "DeleteVariant flt ws vid j = Inr j' \<Longrightarrow> edit_step j j'"
| weighing: "SetBaseWeight flt ws i weight j = Inr j' \<Longrightarrow> edit_step j j'"

definition sequences_ok :: "job_db \<Rightarrow> bool" where
  "sequences_ok j \<longleftrightarrow> (keys_ok j \<and> graphs_sound j) \<and> copies_ok j"

lemma edit_step_ok: "edit_step j j' \<Longrightarrow> sequences_ok j \<Longrightarrow> sequences_ok j'"
proof (induction rule: edit_step.induct)
  case (appending flt ws c sid inp j j')
  then show ?case by (simp add: sequences_ok_def AppendStep_sound [OF appending(1)] AppendStep_copies [OF appending(1)])
next
  case (editing flt ws c i inp j j')
  then show ?case by (simp add: sequences_ok_def UpdateStep_sound [OF editing(1)] EditStep_copies [OF editing(1)])
next
  case (removing flt ws c i j j')
  then show ?case by (simp add: sequences_ok_def RemoveStep_sound [OF removing(1)] RemoveStep_copies [OF removing(1)])
next
  case (reordering flt ws c ids j j')
  then show ?case by (simp add: sequences_ok_def Reorder_sound [OF reordering(1)] Reorder_copies [OF reordering(1)])
next
  case (branching flt ws c b j j')
  then show ?case by (simp add: sequences_ok_def SetBranch_sound [OF branching(1)] SetBranch_copies [OF branching(1)])
next
  case (unbranching flt ws c i j j')
  then show ?case
    by (simp add: sequences_ok_def RemoveBranch_sound [OF unbranching(1)] RemoveBranch_copies [OF unbranching(1)])
qed (simp_all add: sequences_ok_def CreateVariant_sound UpdateVariant_sound DeleteVariant_sound SetBaseWeight_sound)

lemma edits_ok: "edit_step\<^sup>*\<^sup>* j j' \<Longrightarrow> sequences_ok j \<Longrightarrow> sequences_ok j'"
  by (induction rule: rtranclp_induct) (auto intro: edit_step_ok)

subsection \<open>A copy that can be sent\<close>

lemma Select_found:
  assumes "\<exists>c \<in> set cs. 0 < Weight c"
  obtains c where "Select sha e s cs = Some c"
  using Select_spec [where sha = sha and enrollmentID = e and stepID = s and candidates = cs] assms by (cases "Select sha e s cs") auto

lemma selectVariant_Inr:
  assumes "step_copies_ok s j"
  shows "\<exists>copy. selectVariant E no_faults (st_ws s) eid s j = Inr copy"
proof -
  let ?rows = "ListStepVariants (st_id s) (st_ws s) j"
  let ?cs = "\<lparr>VarID = [], Weight = st_variant_weight s\<rparr>
    # map (\<lambda>r. \<lparr>VarID = uuid_String (je_lib E) (va_id r), Weight = va_weight r\<rparr>) ?rows"
  have "\<exists>c \<in> set ?cs. 0 < Weight c"
    using assms by (auto simp: step_copies_ok_def anyEligible_def ListStepVariants_of)
  then obtain p where "Select (sha256 (je_lib E)) eid (uuid_String (je_lib E) (st_id s)) ?cs = Some p"
    by (rule Select_found)
  then show ?thesis
    by (simp add: selectVariant_def Let_def query_def no_faults_def and_then_def split: option.split)
qed

subsection \<open>The orders a reordering gives\<close>

definition numbered :: "uuid \<Rightarrow> uuid \<Rightarrow> (uuid \<rightharpoonup> int) \<Rightarrow> step_row \<Rightarrow> step_row" where
  "numbered ws c m s = (if in_campaign ws c s then (case m (st_id s) of Some k \<Rightarrow> s\<lparr>st_order := k\<rparr> | None \<Rightarrow> s) else s)"

lemma numbered_keeps [simp]:
  "st_id (numbered ws c m s) = st_id s" "st_ws (numbered ws c m s) = st_ws s"
  "st_campaign (numbered ws c m s) = st_campaign s" "in_campaign ws c (numbered ws c m s) = in_campaign ws c s"
  "(numbered ws c m s)\<lparr>st_order := 0\<rparr> = s\<lparr>st_order := 0\<rparr>"
  by (auto simp: numbered_def in_campaign_def split: option.split)

lemma numbered_none [simp]: "numbered ws c Map.empty = (\<lambda>s. s)"
  by (simp add: numbered_def fun_eq_iff)

lemma wrap32_next: "1 \<le> wrap32 k \<Longrightarrow> 1 \<le> k \<Longrightarrow> k \<le> 2147483648 \<Longrightarrow> k < 2147483648"
  by (cases "k = 2147483648") (simp_all add: wrap32_def)

lemma stamp_orders_numbers:
  assumes "stamp_orders flt ws c k ids j = Inr j'" "distinct ids" "1 \<le> k" "k \<le> 2147483648"
    and "\<forall>i \<in> set ids. \<exists>s \<in> set (jd_steps j). in_campaign ws c s \<and> st_id s = i"
  shows "jd_steps j' = map (numbered ws c (map_of (zip ids [k..k + int (length ids) - 1]))) (jd_steps j)"
  using assms
proof (induction ids arbitrary: j k)
  case Nil
  then show ?case by simp
next
  case (Cons i ids)
  let ?f = "\<lambda>s. if in_campaign ws c s \<and> st_id s = i then s\<lparr>st_order := k\<rparr> else s"
  from Cons.prems(1) obtain j1 where j1: "SetStepOrder ws c i (wrap32 k) j = Some j1"
    and rest: "stamp_orders flt ws c (k + 1) ids j1 = Inr j'" by (auto simp: and_then_Inr)
  have "1 \<le> wrap32 k" using j1 Cons.prems(5) by (auto simp: SetStepOrder_def split: if_splits)
  then have k: "k < 2147483648" using Cons.prems(3,4) wrap32_next by blast
  then have "wrap32 k = k" using Cons.prems(3) by (simp add: wrap32_id int32_def)
  with j1 have steps: "jd_steps j1 = map ?f (jd_steps j)"
    by (auto simp: SetStepOrder_def update_where_def split: if_splits)
  have "\<forall>q \<in> set ids. \<exists>s \<in> set (jd_steps j1). in_campaign ws c s \<and> st_id s = q"
  proof
    fix q assume "q \<in> set ids"
    then obtain s where s: "s \<in> set (jd_steps j)" "in_campaign ws c s" "st_id s = q" using Cons.prems(5) by auto
    then have "?f s \<in> set (jd_steps j1)" by (auto simp: steps)
    moreover have "in_campaign ws c (?f s) \<and> st_id (?f s) = q" using s by (simp add: in_campaign_def)
    ultimately show "\<exists>s \<in> set (jd_steps j1). in_campaign ws c s \<and> st_id s = q" by blast
  qed
  with Cons.prems k have "jd_steps j' = map (numbered ws c (map_of (zip ids [k + 1..k + 1 + int (length ids) - 1]))) (jd_steps j1)"
    by (intro Cons.IH [OF rest]) auto
  also have "\<dots> = map (numbered ws c (map_of (zip (i # ids) [k..k + int (length (i # ids)) - 1]))) (jd_steps j)"
  proof -
    have "[k..k + int (length (i # ids)) - 1] = k # [k + 1..k + 1 + int (length ids) - 1]"
      by (subst upto_rec1) (simp_all add: algebra_simps)
    moreover have "map_of (zip ids ks) i = None" for ks :: "int list"
      using Cons.prems(2) by (auto simp: map_of_eq_None_iff dest: set_zip_leftD)
    ultimately show ?thesis by (auto simp: steps numbered_def in_campaign_def)
  qed
  finally show ?case .
qed

lemma stamped_listing:
  assumes steps: "jd_steps j' = map (numbered ws c (map_of (zip ids [1..int (length ids)]))) (jd_steps j)"
    and ids: "distinct ids" "set ids = st_id ` {s \<in> set (jd_steps j). in_campaign ws c s}"
    and key: "unique_key st_id (jd_steps j)"
  shows "map st_id (ListStepsByCampaign c ws (jd_steps j')) = ids"
    and "map st_order (ListStepsByCampaign c ws (jd_steps j')) = [1..int (length ids)]"
proof -
  let ?n = "length ids" and ?L = "ListStepsByCampaign c ws (jd_steps j')"
  let ?m = "map_of (zip ids [1..int ?n])"
  have L: "set ?L = {s \<in> set (jd_steps j'). in_campaign ws c s}"
    by (auto simp: ListStepsByCampaign_def in_campaign_def)
  have at_pos: "?m (ids ! p) = Some (int p + 1)" if "p < ?n" for p
    using that ids(1) by (simp add: map_of_zip_nth nth_upto)
  have ord: "\<exists>p < ?n. st_id s = ids ! p \<and> st_order s = int p + 1" if "s \<in> set ?L" for s
  proof -
    from that L obtain q where q: "q \<in> set (jd_steps j)" "in_campaign ws c q" "s = numbered ws c ?m q"
      by (auto simp: steps)
    then have "st_id q \<in> set ids" using ids(2) by blast
    then obtain p where "p < ?n" "st_id q = ids ! p" by (metis in_set_conv_nth)
    with q at_pos show ?thesis by (auto simp: numbered_def)
  qed
  have "unique_key st_id (jd_steps j')" using key by (simp add: unique_key_def steps comp_def)
  then have "distinct (map st_id ?L)"
    by (simp add: unique_key_def ListStepsByCampaign_def distinct_map) (erule conjE, erule inj_on_subset, auto)
  then have "distinct ?L" and inj: "inj_on st_id (set ?L)" by (simp_all add: distinct_map)
  moreover have "inj_on st_order (set ?L)"
  proof (rule inj_onI)
    fix s t assume st: "s \<in> set ?L" "t \<in> set ?L" "st_order s = st_order t"
    with ord [of s] ord [of t] have "st_id s = st_id t" by auto
    with st inj show "s = t" by (simp add: inj_on_eq_iff)
  qed
  ultimately have dist: "distinct (map st_order ?L)" by (simp add: distinct_map)
  have sort: "sorted (map st_order ?L)" by (simp add: ListStepsByCampaign_def)
  have "set (map st_order ?L) = set [1..int ?n]"
  proof
    show "set (map st_order ?L) \<subseteq> set [1..int ?n]" using ord by fastforce
    show "set [1..int ?n] \<subseteq> set (map st_order ?L)"
    proof
      fix k assume "k \<in> set [1..int ?n]"
      then have p: "nat (k - 1) < ?n" "k = int (nat (k - 1)) + 1" by auto
      then have "ids ! nat (k - 1) \<in> set ids" by simp
      then obtain q where q: "q \<in> set (jd_steps j)" "in_campaign ws c q" "st_id q = ids ! nat (k - 1)"
        using ids(2) by auto
      then have "numbered ws c ?m q \<in> set ?L" unfolding L by (auto simp: steps)
      moreover have "st_order (numbered ws c ?m q) = k" using q at_pos [OF p(1)] p(2) by (simp add: numbered_def)
      ultimately show "k \<in> set (map st_order ?L)" by (metis image_eqI set_map)
    qed
  qed
  with dist sort show orders: "map st_order ?L = [1..int ?n]"
    by (intro sorted_distinct_set_unique) auto
  have "map st_id ?L = map (\<lambda>k. ids ! nat (k - 1)) (map st_order ?L)"
    using ord by force
  also have "\<dots> = ids" unfolding orders by (rule nth_equalityI) (simp_all add: nth_upto)
  finally show "map st_id ?L = ids" .
qed

lemma ids_of_map:
  assumes "\<And>s. p (f s) = p s" "\<And>s. st_id (f s) = st_id s"
  shows "st_id ` {s \<in> set (map f xs). p s} = st_id ` {s \<in> set xs. p s}"
proof -
  have "{s \<in> set (map f xs). p s} = f ` {s \<in> set xs. p s}" using assms by auto
  then show ?thesis using assms by (simp add: image_image)
qed

lemma permutation_set:
  assumes "validatePermutation current ids" "distinct (map st_id current)"
  shows "set ids = st_id ` set current"
proof (rule card_subset_eq)
  show "card (set ids) = card (st_id ` set current)"
    using assms by (simp add: validatePermutation_def distinct_card distinct_map card_image)
qed (use assms in \<open>auto simp: validatePermutation_def\<close>)

text \<open>Only the orders of the campaign's own steps change.\<close>

definition but_order :: "uuid \<Rightarrow> uuid \<Rightarrow> step_row \<Rightarrow> step_row" where
  "but_order ws c s = (if in_campaign ws c s then s\<lparr>st_order := 0\<rparr> else s)"

lemma but_order_numbered [simp]: "but_order ws c (numbered ws c m s) = but_order ws c s"
  by (simp add: but_order_def) (simp add: numbered_def)

lemma Reorder_numbers:
  assumes "Reorder flt ws c ids j = Inr j'" "keys_ok j"
  shows "map st_id (ListStepsByCampaign c ws (jd_steps j')) = ids"
    and "map st_order (ListStepsByCampaign c ws (jd_steps j')) = [1..int (length ids)]"
    and "map (but_order ws c) (jd_steps j') = map (but_order ws c) (jd_steps j)"
proof -
  let ?old = "ListStepsByCampaign c ws (jd_steps j)" and ?in = "\<lambda>j. {s \<in> set (jd_steps j). in_campaign ws c s}"
  let ?f = "\<lambda>s. if in_campaign ws c s then s\<lparr>st_order := st_order s + MaxStepOrder ws c j\<rparr> else s"
  have perm: "validatePermutation ?old ids" and run: "withGraphLock flt ws c checkGraph (reorder_tx flt ws c ids) j = Inr j'"
    using assms(1) by (auto simp: Reorder_def and_then_Inr)
  from withGraphLock_Inr(1) [OF run] obtain j1 where
    shift: "ShiftStepOrders ws c (MaxStepOrder ws c j) j = Some j1" and rest: "stamp_orders flt ws c 1 ids j1 = Inr j'"
    by (auto simp: reorder_tx_def and_then_Inr)
  then have j1: "jd_steps j1 = map ?f (jd_steps j)"
    by (auto simp: ShiftStepOrders_def update_where_def split: if_splits)
  have key: "unique_key st_id (jd_steps j)" using assms(2) by (simp add: keys_ok_def)
  then have key1: "unique_key st_id (jd_steps j1)" by (simp add: unique_key_def j1 comp_def if_distrib cong: if_cong)
  have "distinct (map st_id ?old)"
    using key by (simp add: unique_key_def ListStepsByCampaign_def distinct_map) (erule conjE, erule inj_on_subset, auto)
  with perm have "set ids = st_id ` set ?old" by (rule permutation_set)
  also have "set ?old = ?in j" by (auto simp: ListStepsByCampaign_def in_campaign_def)
  also have "st_id ` ?in j = st_id ` ?in j1" unfolding j1
    by (rule ids_of_map [symmetric]) (simp_all add: in_campaign_def)
  finally have ids: "set ids = st_id ` ?in j1" .
  have dist: "distinct ids" using perm by (simp add: validatePermutation_def)
  have "\<forall>i \<in> set ids. \<exists>s \<in> set (jd_steps j1). in_campaign ws c s \<and> st_id s = i"
    using ids by auto
  from stamp_orders_numbers [OF rest dist _ _ this]
  have steps: "jd_steps j' = map (numbered ws c (map_of (zip ids [1..int (length ids)]))) (jd_steps j1)" by simp
  show "map st_id (ListStepsByCampaign c ws (jd_steps j')) = ids"
    "map st_order (ListStepsByCampaign c ws (jd_steps j')) = [1..int (length ids)]"
    using stamped_listing [OF steps dist ids key1] by simp_all
  show "map (but_order ws c) (jd_steps j') = map (but_order ws c) (jd_steps j)"
    by (auto simp: steps j1) (auto simp: but_order_def in_campaign_def)
qed

subsection \<open>Two edits at once\<close>

text \<open>
  Each variant edit reads the weights, checks what it would make of them, and writes. Nothing locks the step
  in between, so of two edits that both read before either writes, each may retire the copy the other left.
\<close>

definition edit_db :: job_db where
  "edit_db = pool_db\<lparr>jd_campaigns := [pool_campaign\<lparr>cm_status := draftStatus\<rparr>],
     jd_steps := [pool_step, pool_step\<lparr>st_id := 8, st_order := 2\<rparr>],
     jd_variants := [\<lparr>va_id = 7, va_ws = 1, va_step = 9, va_label = ''B'', va_weight = 1, va_subject = ''Hey'',
       va_body_text = ''Hi'', va_body_html = []\<rparr>]\<rparr>"

lemma edit_db_ok: "sequences_ok edit_db"
proof -
  have "Validate (campaign_graph 1 2 edit_db) = None" by code_simp
  then show ?thesis
    by (simp add: sequences_ok_def keys_ok_def graphs_sound_def copies_ok_iff step_copies_ok_def variants_of_def
        anyEligible_def edit_db_def pool_db_def pool_campaign_def pool_step_def unique_key_def MaxVariantsPerStep_def)
qed

definition retired :: variant_input where
  "retired = \<lparr>vi_label = ''B'', vi_weight = 0, vi_subject = ''Hey'', vi_body_text = ''Hi'', vi_body_html = []\<rparr>"

lemma weights_race:
  "(case (UpdateVariant no_faults 1 7 retired edit_db, SetBaseWeight no_faults 1 9 0 edit_db) of
      (Inr j1, Inr j2) \<Rightarrow>
        (case SetStepVariantWeight 1 9 0 j1 of
           Inr j \<Rightarrow> \<not> list_all (\<lambda>s. step_copies_ok s j) (jd_steps j)
         | Inl _ \<Rightarrow> False)
    | _ \<Rightarrow> False)"
  by code_simp

text \<open>A variant whose messages all failed has sent nothing, and still cannot be deleted.\<close>

lemma used_variant_stays:
  assumes "select_one (is_variant ws vid) (jd_variants j) = Some v" "variant_in_use v j"
  shows "DeleteVariant flt ws vid j \<noteq> Inr j'"
  using assms by (auto simp: DeleteVariant_def and_then_Inr DeleteStepVariant_def)

subsection \<open>The properties\<close>

text \<open>C38: Whatever edits of sequences succeed, by whatever workspaces and under whatever faults, the graph
  of every campaign is one that validation accepts, so no routing of it can come back to a step. This
  includes appending a step, which is not checked against the graph.\<close>

theorem graph_stays_sound:
  assumes "edit_step\<^sup>*\<^sup>* j j'" and "sequences_ok j" and "r \<in> set (jd_campaigns j')"
  shows "Validate (campaign_graph (cm_ws r) (cm_id r) j') = None \<and> acyclic (edge (campaign_graph (cm_ws r) (cm_id r) j'))"
proof
  show ok: "Validate (campaign_graph (cm_ws r) (cm_id r) j') = None"
    using edits_ok [OF assms(1,2)] assms(3) by (simp add: sequences_ok_def graphs_sound_def)
  then show "acyclic (edge (campaign_graph (cm_ws r) (cm_id r) j'))"
    unfolding campaign_graph_def BuildGraph_def by (rule Validate_acyclic(2))
qed

text \<open>C39: Whatever edits succeed one after the other, every step keeps a copy that the send path can pick
  for any enrollment, and has at most five variants besides its own content.\<close>

theorem copies_stay_sendable:
  assumes "edit_step\<^sup>*\<^sup>* j j'" and "sequences_ok j" and "s \<in> set (jd_steps j')"
  shows "(\<exists>copy. selectVariant E no_faults (st_ws s) eid s j' = Inr copy)
    \<and> length (ListStepVariants (st_id s) (st_ws s) j') \<le> 5"
proof
  have ok: "step_copies_ok s j'"
    using edits_ok [OF assms(1,2)] assms(3) by (simp add: sequences_ok_def copies_ok_iff)
  then show "\<exists>copy. selectVariant E no_faults (st_ws s) eid s j' = Inr copy" by (rule selectVariant_Inr)
  from ok show "length (ListStepVariants (st_id s) (st_ws s) j') \<le> 5"
    by (simp add: step_copies_ok_def ListStepVariants_of MaxVariantsPerStep_def)
qed

text \<open>C40: A reordering that succeeds makes the steps of the campaign the ones asked for, in the order asked
  for, with the orders one, two, three and so on, and changes nothing else of any step.\<close>

theorem reorder_renumbers:
  assumes "Reorder flt ws c ids j = Inr j'" and "keys_ok j"
  shows "map st_id (ListStepsByCampaign c ws (jd_steps j')) = ids
    \<and> map st_order (ListStepsByCampaign c ws (jd_steps j')) = [1..int (length ids)]
    \<and> map (but_order ws c) (jd_steps j') = map (but_order ws c) (jd_steps j)"
  using Reorder_numbers [OF assms] by blast

subsection \<open>Witnesses\<close>

definition edit_input :: branch_input where
  "edit_input = \<lparr>bi_step = 9, bi_condition = Replied, bi_within_days = Some 3, bi_reply_label_key = None,
     bi_yes_step = None, bi_no_step = Some 8\<rparr>"

lemma branched:
  obtains j where "SetBranch no_faults 1 2 edit_input edit_db = Inr j" "jd_branches j \<noteq> []"
    "jd_campaigns j = [pool_campaign\<lparr>cm_status := draftStatus\<rparr>]" "pool_step \<in> set (jd_steps j)"
proof -
  have "(case SetBranch no_faults 1 2 edit_input edit_db of
      Inr j \<Rightarrow> jd_branches j \<noteq> [] \<and> map st_id (jd_steps j) = [9, 8] | Inl _ \<Rightarrow> False)" by code_simp
  then obtain j where j: "SetBranch no_faults 1 2 edit_input edit_db = Inr j" "jd_branches j \<noteq> []"
    by (auto split: sum.splits)
  then have "jd_campaigns j = jd_campaigns edit_db \<and> jd_steps j = jd_steps edit_db"
    by (auto simp: SetBranch_def and_then_Inr UpsertBranch_def dest!: withGraphLock_Inr(1) split: option.splits)
  with j(2) show thesis by (intro that [OF j(1)]) (simp_all add: edit_db_def)
qed

theorem graph_stays_sound_witness:
  "\<exists>j. edit_step\<^sup>*\<^sup>* edit_db j \<and> jd_branches j \<noteq> [] \<and> Validate (campaign_graph 1 2 j) = None
     \<and> acyclic (edge (campaign_graph 1 2 j))"
proof (rule branched)
  fix j assume j: "SetBranch no_faults 1 2 edit_input edit_db = Inr j" "jd_branches j \<noteq> []"
    "jd_campaigns j = [pool_campaign\<lparr>cm_status := draftStatus\<rparr>]"
  from j(1) have run: "edit_step\<^sup>*\<^sup>* edit_db j" by (blast intro: edit_step.branching)
  have "pool_campaign\<lparr>cm_status := draftStatus\<rparr> \<in> set (jd_campaigns j)" using j(3) by simp
  from graph_stays_sound [OF run edit_db_ok this] run j(2) show ?thesis by (auto simp: pool_campaign_def)
qed

theorem copies_stay_sendable_witness:
  "\<exists>j copy. edit_step\<^sup>*\<^sup>* edit_db j \<and> jd_branches j \<noteq> []
     \<and> selectVariant pool_env no_faults 1 ''e'' pool_step j = Inr copy \<and> length (ListStepVariants 9 1 j) \<le> 5"
proof (rule branched)
  fix j assume j: "SetBranch no_faults 1 2 edit_input edit_db = Inr j" "jd_branches j \<noteq> []" "pool_step \<in> set (jd_steps j)"
  from j(1) have run: "edit_step\<^sup>*\<^sup>* edit_db j" by (blast intro: edit_step.branching)
  have "st_ws pool_step = 1" "st_id pool_step = 9" by (simp_all add: pool_step_def)
  with copies_stay_sendable [OF run edit_db_ok j(3), where E = pool_env and eid = "''e''"] run j(2) show ?thesis by fastforce
qed

theorem reorder_renumbers_witness:
  "\<exists>j. Reorder no_faults 1 2 [8, 9] edit_db = Inr j \<and> map st_id (ListStepsByCampaign 2 1 (jd_steps j)) = [8, 9]
     \<and> map st_order (ListStepsByCampaign 2 1 (jd_steps j)) = [1..2]
     \<and> map (but_order 1 2) (jd_steps j) = map (but_order 1 2) (jd_steps edit_db)"
proof -
  have "(case Reorder no_faults 1 2 [8, 9] edit_db of Inr j \<Rightarrow> map st_order (jd_steps j) = [2, 1] | Inl _ \<Rightarrow> False)"
    by code_simp
  then obtain j where j: "Reorder no_faults 1 2 [8, 9] edit_db = Inr j" by (auto split: sum.splits)
  have "keys_ok edit_db" using edit_db_ok by (simp add: sequences_ok_def)
  from reorder_renumbers [OF j this] j show ?thesis by auto
qed

end
