(* ===== verification/Reply_Classify.thy ===== *)
theory Reply_Classify
  imports Host_Names Go_Float
begin

text \<open>
  The classification of an inbound reply (\<open>internal/platform/replyclassify\<close>): machine-reply headers
  (\<open>headers.go\<close>), the word lists (\<open>lexicon.go\<close>), the optional model (\<open>model.go\<close>) and their order
  (\<open>classifier.go\<close>).

  A header map is an association list in the order the loop over the map meets its keys. The standard
  library's case folding is exact on ASCII and the field \<open>unicode_fold\<close> elsewhere, its mail and MIME
  parsers are the other fields of \<open>mail_lib\<close>. The model is a function of subject and body.
\<close>

subsection \<open>Text\<close>

record part =
  pt_header :: "(string \<times> string list) list"
  pt_body :: string
  pt_broken :: bool

record mail_lib =
  ml_text :: text_lib
  unicode_fold :: "string \<Rightarrow> string \<Rightarrow> bool"
  ParseMediaType :: "string \<Rightarrow> string \<times> (string \<rightharpoonup> string) \<times> bool"
  multipart_parts :: "string \<Rightarrow> string \<Rightarrow> part list"
  ReadMIMEHeader :: "string \<Rightarrow> (string \<times> string list) list \<times> string"
  quoted_printable :: "string \<Rightarrow> string option"
  base64_std :: "string \<Rightarrow> string option"
  ParseAddress :: "string \<Rightarrow> (string \<times> string) option"
  ParseDate :: "string \<Rightarrow> instant option"

definition EqualFold :: "mail_lib \<Rightarrow> string \<Rightarrow> string \<Rightarrow> bool" where
  "EqualFold M s t =
     (if ascii s \<and> ascii t then map lower_char s = map lower_char t else unicode_fold M s t)"

definition has_prefix :: "string \<Rightarrow> string \<Rightarrow> bool" where
  "has_prefix s t \<longleftrightarrow> take (length t) s = t"

fun index_of :: "string \<Rightarrow> string \<Rightarrow> nat option" where
  "index_of t s =
     (if has_prefix s t then Some 0
      else case s of [] \<Rightarrow> None | _ # s' \<Rightarrow> map_option Suc (index_of t s'))"

declare index_of.simps [simp del]

definition str_contains :: "string \<Rightarrow> string \<Rightarrow> bool" where
  "str_contains s t \<longleftrightarrow> index_of t s \<noteq> None"

text \<open>A token between word boundaries; the flag says whether the byte before is part of a word.\<close>

definition word_byte :: "char \<Rightarrow> bool" where
  "word_byte c \<longleftrightarrow> (let n = of_char c :: nat in n \<in> {48..57} \<or> n \<in> {65..90} \<or> n \<in> {97..122} \<or> n = 95)"

definition word_edge :: "bool \<Rightarrow> string \<Rightarrow> bool" where
  "word_edge prev s \<longleftrightarrow> prev \<noteq> (case s of [] \<Rightarrow> False | c # _ \<Rightarrow> word_byte c)"

definition token_here :: "bool \<Rightarrow> string \<Rightarrow> string \<Rightarrow> bool" where
  "token_here prev tok s \<longleftrightarrow>
     has_prefix s tok \<and> word_edge prev s \<and> word_edge (word_byte (last tok)) (drop (length tok) s)"

fun token_match :: "bool \<Rightarrow> string \<Rightarrow> string \<Rightarrow> bool" where
  "token_match prev tok [] = token_here prev tok []"
| "token_match prev tok (c # s) = (token_here prev tok (c # s) \<or> token_match (word_byte c) tok s)"

subsection \<open>Classes\<close>

definition ClassPositive :: string where [const_defs]: "ClassPositive = ''positive''"
definition ClassNegative :: string where [const_defs]: "ClassNegative = ''negative''"
definition ClassNeutral :: string where [const_defs]: "ClassNeutral = ''neutral''"
definition ClassAutoReply :: string where [const_defs]: "ClassAutoReply = ''auto_reply''"
definition ClassOutOfOffice :: string where [const_defs]: "ClassOutOfOffice = ''out_of_office''"
definition ClassUnsubscribe :: string where [const_defs]: "ClassUnsubscribe = ''unsubscribe''"
definition ClassUnknown :: string where [const_defs]: "ClassUnknown = ''unknown''"
definition SourceHeader :: string where [const_defs]: "SourceHeader = ''header''"
definition SourceLexicon :: string where [const_defs]: "SourceLexicon = ''lexicon''"
definition SourceModel :: string where [const_defs]: "SourceModel = ''model''"
definition SourceNone :: string where [const_defs]: "SourceNone = []"

record reply_input =
  ri_headers :: "(string \<times> string list) list"
  ri_subject :: string
  ri_body :: string

record reply_result =
  rr_class :: string
  rr_source :: string
  rr_confidence :: float64

subsection \<open>Headers\<close>

fun headerFirst :: "mail_lib \<Rightarrow> (string \<times> string list) list \<Rightarrow> string \<Rightarrow> string" where
  "headerFirst M [] name = []"
| "headerFirst M ((k, vs) # h) name =
     (case vs of
        v # _ \<Rightarrow> if EqualFold M k name then TrimSpace v else headerFirst M h name
      | [] \<Rightarrow> headerFirst M h name)"

definition headerHas :: "mail_lib \<Rightarrow> (string \<times> string list) list \<Rightarrow> string \<Rightarrow> bool" where
  "headerHas M h name \<longleftrightarrow> list_ex (\<lambda>(k, _). EqualFold M k name) h"

definition isOOOSubject :: "string \<Rightarrow> bool" where
  "isOOOSubject s \<longleftrightarrow>
     has_prefix s ''out of office'' \<or> has_prefix s ''out of the office'' \<or> has_prefix s ''auto:''
     \<or> has_prefix s ''autoreply'' \<or> str_contains s ''automatic reply'' \<or> str_contains s ''auto-reply''
     \<or> str_contains s ''on vacation'' \<or> str_contains s ''on holiday'' \<or> token_match False ''away from'' s"

definition header_verdict :: "string \<Rightarrow> int \<Rightarrow> reply_result option" where
  "header_verdict cls pct = Some \<lparr>rr_class = cls, rr_source = SourceHeader, rr_confidence = f_lit pct 100\<rparr>"

definition classifyHeaders :: "mail_lib \<Rightarrow> reply_input \<Rightarrow> reply_result option" where
  "classifyHeaders M inp =
     (let low = ToLower (ml_text M); first = headerFirst M (ri_headers inp);
          subject = low (TrimSpace (ri_subject inp));
          as = low (first ''Auto-Submitted'');
          precedence = low (first ''Precedence'');
          ct = low (first ''Content-Type'');
          sender = low (first ''From'')
      in
      if subject \<noteq> [] \<and> isOOOSubject subject then header_verdict ClassOutOfOffice 98
      else if as \<noteq> [] \<and> as \<noteq> ''no'' then
        (if str_contains as ''auto-replied'' then header_verdict ClassOutOfOffice 95
         else header_verdict ClassAutoReply 95)
      else if headerHas M (ri_headers inp) ''X-Autoreply'' \<or> headerHas M (ri_headers inp) ''X-Autorespond''
        then header_verdict ClassOutOfOffice 93
      else if headerHas M (ri_headers inp) ''X-Auto-Response-Suppress'' then header_verdict ClassAutoReply 90
      else if precedence = ''auto_reply'' then header_verdict ClassAutoReply 90
      else if precedence \<in> {''bulk'', ''junk'', ''list''} then header_verdict ClassAutoReply 75
      else if str_contains ct ''multipart/report''
              \<and> (str_contains ct ''delivery-status'' \<or> str_contains ct ''disposition-notification'')
        then header_verdict ClassAutoReply 95
      else if TrimSpace (first ''Return-Path'') = ''<>'' then header_verdict ClassAutoReply 85
      else if sender \<noteq> [] \<and>
              (str_contains sender ''mailer-daemon'' \<or> str_contains sender ''postmaster@''
               \<or> str_contains sender ''no-reply@'' \<or> str_contains sender ''noreply@''
               \<or> str_contains sender ''donotreply@'')
        then header_verdict ClassAutoReply 80
      else None)"

subsection \<open>Word lists\<close>

definition unsubscribePhrases :: "string list" where
  "unsubscribePhrases =
     [''unsubscribe'', ''opt out'', ''opt-out'', ''remove me'', ''take me off'', ''do not contact'',
      ''don'' @ CHR 0x27 # ''t contact'', ''dont contact'', ''do not email me'',
      ''don'' @ CHR 0x27 # ''t email me'', ''dont email me'', ''do not email us'',
      ''don'' @ CHR 0x27 # ''t email us'', ''dont email us'']"
definition unsubscribeBoundaryTokens :: "string list" where "unsubscribeBoundaryTokens = [''stop'']"
definition negativePhrases :: "string list" where
  "negativePhrases =
     [''not interested'', ''no thanks'', ''no thank you'', ''not a fit'', ''not the right'',
      ''not relevant'', ''we already have'', ''we have a solution'', ''already using'', ''not looking'',
      ''wrong person'', ''wrong contact'', ''leave me alone'']"
definition negativeBoundaryTokens :: "string list" where
  "negativeBoundaryTokens = [''no need'', ''go away'']"
definition positiveKeywords :: "string list" where
  "positiveKeywords =
     [''interested'', ''sounds good'', ''sounds great'', ''let'' @ CHR 0x27 # ''s chat'', ''lets chat'',
      ''let'' @ CHR 0x27 # ''s talk'', ''lets talk'', ''happy to chat'', ''happy to talk'',
      ''set up a call'', ''book a call'', ''schedule a call'', ''schedule a demo'', ''book a demo'',
      ''send me more'', ''tell me more'', ''would love to'', ''count me in'', ''sign me up'',
      ''send pricing'']"
definition negators :: "string list" where
  "negators = [''not'', ''never'', ''cannot'', ''dont'', ''wont'']"
definition negationWindow :: nat where "negationWindow = 3"

definition containsAny :: "string \<Rightarrow> string list \<Rightarrow> bool" where
  "containsAny text keywords \<longleftrightarrow> list_ex (str_contains text) keywords"

definition matchesAny :: "string \<Rightarrow> string list \<Rightarrow> bool" where
  "matchesAny text tokens \<longleftrightarrow> list_ex (\<lambda>t. token_match False t text) tokens"

definition lexiconText :: "mail_lib \<Rightarrow> reply_input \<Rightarrow> string" where
  "lexiconText M inp = ToLower (ml_text M) (TrimSpace (ri_subject inp @ CHR 0x0A # ri_body inp))"

definition isUnsubscribeText :: "string \<Rightarrow> bool" where
  "isUnsubscribeText text \<longleftrightarrow>
     containsAny text unsubscribePhrases \<or> matchesAny text unsubscribeBoundaryTokens"

definition LooksLikeUnsubscribe :: "mail_lib \<Rightarrow> reply_input \<Rightarrow> bool" where
  "LooksLikeUnsubscribe M inp = isUnsubscribeText (lexiconText M inp)"

definition isSpace :: "char \<Rightarrow> bool" where
  "isSpace c \<longleftrightarrow> (of_char c :: nat) \<in> {32, 9, 10, 13, 12, 11}"

definition trim_set :: "string \<Rightarrow> string \<Rightarrow> string" where
  "trim_set cutset s = rev (dropWhile (\<lambda>c. c \<in> set cutset) (rev (dropWhile (\<lambda>c. c \<in> set cutset) s)))"

text \<open>The words before an occurrence, read backwards.\<close>

fun negated_words :: "nat \<Rightarrow> string \<Rightarrow> bool" where
  "negated_words 0 r = False"
| "negated_words (Suc n) r =
     (let r1 = dropWhile isSpace r in
      if r1 = [] then False
      else
        let w = trim_set (''.,!?;:'' @ [CHR 0x27, CHR 0x22] @ ''()-'') (rev (takeWhile (\<lambda>c. \<not> isSpace c) r1))
        in if w \<in> set negators \<or> has_suffix w (''n'' @ CHR 0x27 # ''t'') then True
           else negated_words n (dropWhile (\<lambda>c. \<not> isSpace c) r1))"

definition negatedBefore :: "string \<Rightarrow> bool" where
  "negatedBefore before = negated_words negationWindow (rev before)"

text \<open>Every occurrence of a keyword in turn; no keyword is empty.\<close>

function keyword_hit :: "string \<Rightarrow> string \<Rightarrow> string \<Rightarrow> bool" where
  "keyword_hit kw before rest =
     (case index_of kw rest of
        None \<Rightarrow> False
      | Some i \<Rightarrow>
          if \<not> negatedBefore (before @ take i rest) then True
          else if kw = [] \<or> rest = [] then False
          else keyword_hit kw (before @ take i rest @ kw) (drop (i + length kw) rest))"
  by auto
termination
  by (relation "measure (\<lambda>(kw, before, rest). length rest)") (auto simp: neq_Nil_conv)

declare keyword_hit.simps [simp del]

definition positiveHit :: "string \<Rightarrow> bool" where
  "positiveHit text \<longleftrightarrow> list_ex (\<lambda>kw. keyword_hit kw [] text) positiveKeywords"

definition lexicon_verdict :: "string \<Rightarrow> int \<Rightarrow> reply_result option" where
  "lexicon_verdict cls pct = Some \<lparr>rr_class = cls, rr_source = SourceLexicon, rr_confidence = f_lit pct 100\<rparr>"

definition classifyLexicon :: "mail_lib \<Rightarrow> reply_input \<Rightarrow> reply_result option" where
  "classifyLexicon M inp =
     (let text = lexiconText M inp in
      if text = [] then None
      else if isUnsubscribeText text then lexicon_verdict ClassUnsubscribe 90
      else if containsAny text negativePhrases \<or> matchesAny text negativeBoundaryTokens
        then lexicon_verdict ClassNegative 80
      else if positiveHit text then lexicon_verdict ClassPositive 80
      else None)"

subsection \<open>The model and the pipeline\<close>

type_synonym reply_model = "string \<Rightarrow> string \<Rightarrow> string option"

definition classifyModel :: "reply_model \<Rightarrow> reply_input \<Rightarrow> reply_result option" where
  "classifyModel model inp =
     (case model (ri_subject inp) (ri_body inp) of
        None \<Rightarrow> None
      | Some cls \<Rightarrow>
          if cls = ClassPositive \<or> cls = ClassNegative \<or> cls = ClassNeutral
          then Some \<lparr>rr_class = cls, rr_source = SourceModel, rr_confidence = f_lit 7 10\<rparr>
          else None)"

definition Classify :: "mail_lib \<Rightarrow> reply_model option \<Rightarrow> reply_input \<Rightarrow> reply_result" where
  "Classify M model inp =
     (case classifyHeaders M inp of
        Some r \<Rightarrow> r
      | None \<Rightarrow>
          (case classifyLexicon M inp of
             Some r \<Rightarrow> r
           | None \<Rightarrow>
               (case (case model of None \<Rightarrow> None | Some m \<Rightarrow> classifyModel m inp) of
                  Some r \<Rightarrow> r
                | None \<Rightarrow> \<lparr>rr_class = ClassUnknown, rr_source = SourceNone, rr_confidence = f_int 0\<rparr>)))"

definition IsAutomated :: "string \<Rightarrow> bool" where
  "IsAutomated cls \<longleftrightarrow> cls = ClassAutoReply \<or> cls = ClassOutOfOffice"

subsection \<open>What each layer can say\<close>

lemma classifyHeaders_class:
  "classifyHeaders M inp = Some r \<Longrightarrow> IsAutomated (rr_class r) \<and> rr_source r = SourceHeader"
  by (auto simp: classifyHeaders_def Let_def header_verdict_def IsAutomated_def split: if_splits)

lemma classifyLexicon_class:
  "classifyLexicon M inp = Some r \<Longrightarrow>
     (if LooksLikeUnsubscribe M inp then rr_class r = ClassUnsubscribe
      else rr_class r = ClassNegative \<or> rr_class r = ClassPositive)"
  by (auto simp: classifyLexicon_def Let_def lexicon_verdict_def LooksLikeUnsubscribe_def split: if_splits)

lemma index_of_Nil_text: "t \<noteq> [] \<Longrightarrow> index_of t [] = None"
  by (simp add: index_of.simps has_prefix_def)

lemma token_match_Nil_text: "t \<noteq> [] \<Longrightarrow> \<not> token_match p t []"
  by (simp add: token_here_def has_prefix_def)

lemma not_unsubscribe_Nil: "\<not> isUnsubscribeText []"
  by (simp add: isUnsubscribeText_def containsAny_def matchesAny_def unsubscribePhrases_def str_contains_def
      unsubscribeBoundaryTokens_def index_of_Nil_text token_match_Nil_text del: token_match.simps)

lemma classifyLexicon_unsubscribe:
  "LooksLikeUnsubscribe M inp \<Longrightarrow> \<exists>r. classifyLexicon M inp = Some r \<and> rr_class r = ClassUnsubscribe"
  using not_unsubscribe_Nil
  by (auto simp: classifyLexicon_def Let_def lexicon_verdict_def LooksLikeUnsubscribe_def)

lemma classifyModel_class:
  "classifyModel m inp = Some r \<Longrightarrow> rr_class r \<in> {ClassPositive, ClassNegative, ClassNeutral}"
  by (auto simp: classifyModel_def split: option.splits if_splits)

definition reply_classes :: "string list" where
  "reply_classes = [ClassPositive, ClassNegative, ClassNeutral, ClassAutoReply, ClassOutOfOffice,
     ClassUnsubscribe, ClassUnknown]"

lemma Classify_cases:
  obtains (header) "classifyHeaders M inp = Some (Classify M model inp)"
  | (lexicon) "classifyHeaders M inp = None" "classifyLexicon M inp = Some (Classify M model inp)"
  | (asked) m where "classifyHeaders M inp = None" "classifyLexicon M inp = None" "model = Some m"
      "classifyModel m inp = Some (Classify M model inp)"
  | (unknown) "classifyHeaders M inp = None" "classifyLexicon M inp = None"
      "rr_class (Classify M model inp) = ClassUnknown"
proof (cases "classifyHeaders M inp")
  case None
  show thesis
  proof (cases "classifyLexicon M inp")
    case lex: None
    show thesis
    proof (cases "case model of None \<Rightarrow> None | Some m \<Rightarrow> classifyModel m inp")
      case (Some r)
      with None lex that(3) show thesis by (auto simp: Classify_def split: option.splits)
    qed (use None lex that(4) in \<open>auto simp: Classify_def\<close>)
  qed (use None that(2) in \<open>auto simp: Classify_def\<close>)
qed (use that(1) in \<open>auto simp: Classify_def\<close>)

lemma Classify_class: "rr_class (Classify M model inp) \<in> set reply_classes"
proof (cases rule: Classify_cases [of M inp model])
  case header
  then show ?thesis using classifyHeaders_class by (auto simp: IsAutomated_def reply_classes_def)
next
  case lexicon
  then show ?thesis using classifyLexicon_class [OF lexicon(2)] by (auto simp: reply_classes_def split: if_splits)
next
  case (asked m)
  then show ?thesis using classifyModel_class [OF asked(4)] by (auto simp: reply_classes_def)
qed (simp add: reply_classes_def)

lemma Classify_opt_out:
  assumes "LooksLikeUnsubscribe M inp"
  shows "IsAutomated (rr_class (Classify M model inp)) \<or> rr_class (Classify M model inp) = ClassUnsubscribe"
  using classifyLexicon_unsubscribe [OF assms] classifyHeaders_class [of M inp]
  by (auto simp: Classify_def split: option.split)

lemma Classify_automated:
  "IsAutomated (rr_class (Classify M model inp)) \<longleftrightarrow> classifyHeaders M inp \<noteq> None"
proof (cases rule: Classify_cases [of M inp model])
  case header
  then show ?thesis using classifyHeaders_class by simp
next
  case lexicon
  then show ?thesis
    using classifyLexicon_class [OF lexicon(2)] by (auto simp: IsAutomated_def const_defs split: if_splits)
next
  case (asked m)
  then show ?thesis using classifyModel_class [OF asked(4)] by (auto simp: IsAutomated_def const_defs)
qed (simp add: IsAutomated_def const_defs)

end
