(* ===== verification/Inbox_Message.thy ===== *)
theory Inbox_Message
  imports Reply_Classify
begin

text \<open>
  What is read out of one inbound message: the ids a reply may name (\<open>internal/worker/inbox/reply.go\<close>), a
  delivery-status notification (\<open>dsn.go\<close>), an abuse report (\<open>arf.go\<close>) and the text of the body
  (\<open>internal/platform/mime/mime.go\<close>). Parsing media types, multipart bodies and header blocks is the
  standard library's; a part is its header and what reading it yields, with whether the read failed.
  Parts end at the end of the body or before the first malformed one.
\<close>

subsection \<open>Messages\<close>

record inbound =
  ib_header :: "(string \<times> string list) list"
  ib_content_type :: string
  ib_body :: string

text \<open>\<open>Header.Get\<close> on a key in canonical form.\<close>

definition header_get :: "(string \<times> string list) list \<Rightarrow> string \<Rightarrow> string" where
  "header_get h k = (case map_of h k of Some (v # _) \<Rightarrow> v | _ \<Rightarrow> [])"

text \<open>\<open>strings.Fields\<close>, on bytes.\<close>

fun take_word :: "nat list \<Rightarrow> nat list \<times> nat list" where
  "take_word [] = ([], [])"
| "take_word (b # bs) =
     (if space_prefix (b # bs) \<noteq> 0 then ([], b # bs)
      else let (w, r) = take_word bs in (b # w, r))"

lemma take_word_shorter: "length (snd (take_word bs)) \<le> length bs"
  by (induction bs) (auto split: prod.split simp: le_SucI)

lemma trim_left_shorter: "length (trim_left bs) \<le> length bs"
  by (induction bs rule: trim_left.induct) (subst trim_left.simps, auto)

lemma trim_left_no_space: "trim_left bs = [] \<or> space_prefix (trim_left bs) = 0"
proof (induction bs rule: trim_left.induct)
  case (1 bs)
  then show ?case by (cases "bs = [] \<or> space_prefix bs = 0") (simp_all add: trim_left.simps [of bs])
qed

function Fields_bytes :: "nat list \<Rightarrow> nat list list" where
  "Fields_bytes bs =
     (let s = trim_left bs in
      if s = [] then []
      else let (w, r) = take_word s in w # Fields_bytes r)"
  by auto
termination
proof (relation "measure length", simp)
  fix bs s p w r
  assume s: "s = trim_left bs" "s \<noteq> []" and p: "p = take_word s" "(w, r) = p"
  then obtain b t where bt: "s = b # t" by (auto simp: neq_Nil_conv)
  with s trim_left_no_space [of bs] have "space_prefix (b # t) = 0" by auto
  with p bt have "r = snd (take_word t)" by (auto split: prod.splits)
  with take_word_shorter [of t] bt s trim_left_shorter [of bs] have "length r < length bs" by simp
  then show "(r, bs) \<in> measure length" by simp
qed

declare Fields_bytes.simps [simp del]

definition Fields :: "string \<Rightarrow> string list" where
  "Fields s = map (map char_of) (Fields_bytes (map of_char s))"

subsection \<open>Message ids\<close>

definition maxMessageIDLen :: nat where "maxMessageIDLen = 998"

definition usableMessageID :: "string \<Rightarrow> bool" where
  "usableMessageID v \<longleftrightarrow>
     v \<noteq> [] \<and> length v \<le> maxMessageIDLen \<and> list_all (\<lambda>c. let n = of_char c :: nat in 32 \<le> n \<and> n \<le> 126) v"

definition messageIDTokens :: "string \<Rightarrow> string list" where
  "messageIDTokens v =
     filter (\<lambda>tok. has_prefix tok ''<'' \<and> has_suffix tok ''>'' \<and> usableMessageID tok) (Fields v)"

definition MessageIDs :: "(string \<times> string list) list \<Rightarrow> string list" where
  "MessageIDs h = messageIDTokens (header_get h ''In-Reply-To'') @ messageIDTokens (header_get h ''References'')"

subsection \<open>Reports\<close>

datatype bounce_kind = NotABounce | SoftBounce | HardBounce

record DSNResult =
  ds_kind :: bounce_kind
  ds_original_id :: string
  ds_recipient :: string
  ds_status :: string

definition classifyStatus :: "string \<Rightarrow> bounce_kind" where
  "classifyStatus status =
     (case status of
        [] \<Rightarrow> NotABounce
      | c # _ \<Rightarrow> if c = CHR ''5'' then HardBounce else if c = CHR ''4'' then SoftBounce else NotABounce)"

definition stripAddrType :: "string \<Rightarrow> string" where
  "stripAddrType v =
     (if CHR 0x3B \<in> set v then TrimSpace (tl (dropWhile (\<lambda>c. c \<noteq> CHR 0x3B) v)) else TrimSpace v)"

definition readDeliveryStatus :: "mail_lib \<Rightarrow> string \<Rightarrow> DSNResult \<Rightarrow> DSNResult" where
  "readDeliveryStatus M body d =
     (let (_, rest) = ReadMIMEHeader M body;
          (recipient, _) = ReadMIMEHeader M rest
      in d\<lparr>ds_recipient := stripAddrType (header_get recipient ''Final-Recipient''),
           ds_status := (case Fields (header_get recipient ''Status'') of f # _ \<Rightarrow> f | [] \<Rightarrow> ds_status d)\<rparr>)"

definition readMessageID :: "mail_lib \<Rightarrow> string \<Rightarrow> string" where
  "readMessageID M body = header_get (fst (ReadMIMEHeader M body)) ''Message-Id''"

text \<open>The walk over a report hands the media type and the text of each part in turn to a visitor.\<close>

definition walkReportParts :: "mail_lib \<Rightarrow> string \<Rightarrow> string \<Rightarrow> (string \<Rightarrow> string \<Rightarrow> 'r \<Rightarrow> 'r) \<Rightarrow> 'r \<Rightarrow> 'r" where
  "walkReportParts M boundary body visit r =
     fold (\<lambda>p. visit (fst (ParseMediaType M (header_get (pt_header p) ''Content-Type''))) (pt_body p))
       (multipart_parts M boundary body) r"

definition returned_message :: "mail_lib \<Rightarrow> string \<Rightarrow> bool" where
  "returned_message M t \<longleftrightarrow> EqualFold M t ''message/rfc822'' \<or> EqualFold M t ''message/rfc822-headers''"

definition visit_delivery :: "mail_lib \<Rightarrow> string \<Rightarrow> string \<Rightarrow> DSNResult \<Rightarrow> DSNResult" where
  "visit_delivery M t body d =
     (if EqualFold M t ''message/delivery-status'' then readDeliveryStatus M body d
      else if returned_message M t then d\<lparr>ds_original_id := readMessageID M body\<rparr>
      else d)"

definition no_bounce :: DSNResult where
  "no_bounce = \<lparr>ds_kind = NotABounce, ds_original_id = [], ds_recipient = [], ds_status = []\<rparr>"

definition parseReport :: "mail_lib \<Rightarrow> string \<Rightarrow> string \<Rightarrow> DSNResult" where
  "parseReport M boundary body =
     (let d = walkReportParts M boundary body (visit_delivery M) no_bounce
      in d\<lparr>ds_kind := classifyStatus (ds_status d)\<rparr>)"

definition param :: "(string \<rightharpoonup> string) \<Rightarrow> string \<Rightarrow> string" where
  "param ps k = (case ps k of Some v \<Rightarrow> v | None \<Rightarrow> [])"

definition ParseDSN :: "mail_lib \<Rightarrow> inbound \<Rightarrow> DSNResult" where
  "ParseDSN M msg =
     (let (mediaType, params, _) = ParseMediaType M (ib_content_type msg);
          reportType = param params ''report-type'';
          sender = ToLower (ml_text M) (header_get (ib_header msg) ''From'');
          daemon = str_contains sender ''mailer-daemon'' \<or> str_contains sender ''postmaster'';
          boundary = param params ''boundary''
      in
      if \<not> EqualFold M mediaType ''multipart/report'' then no_bounce
      else if \<not> (EqualFold M reportType ''delivery-status'' \<or> reportType = [] \<and> daemon) then no_bounce
      else if boundary = [] then no_bounce
      else parseReport M boundary (ib_body msg))"

datatype feedback_kind = NotAFeedbackReport | AbuseComplaint

record ARFResult =
  af_kind :: feedback_kind
  af_type :: string
  af_recipient :: string
  af_original_id :: string

definition no_feedback :: ARFResult where
  "no_feedback = \<lparr>af_kind = NotAFeedbackReport, af_type = [], af_recipient = [], af_original_id = []\<rparr>"

definition reportAddress :: "string \<Rightarrow> string" where
  "reportAddress v0 =
     (let v = stripAddrType v0 in
      TrimSpace (if 2 \<le> length v \<and> has_prefix v ''<'' \<and> has_suffix v ''>'' then butlast (tl v) else v))"

definition classifyFeedbackType :: "mail_lib \<Rightarrow> string \<Rightarrow> feedback_kind" where
  "classifyFeedbackType M t =
     (if ToLower (ml_text M) (TrimSpace t) \<in> {''abuse'', ''fraud''} then AbuseComplaint else NotAFeedbackReport)"

definition readFeedbackFields :: "mail_lib \<Rightarrow> string \<Rightarrow> ARFResult \<Rightarrow> ARFResult" where
  "readFeedbackFields M body a =
     (let fields = fst (ReadMIMEHeader M body)
      in a\<lparr>af_type := TrimSpace (header_get fields ''Feedback-Type''),
           af_recipient := reportAddress (header_get fields ''Original-Rcpt-To'')\<rparr>)"

definition visit_feedback :: "mail_lib \<Rightarrow> string \<Rightarrow> string \<Rightarrow> ARFResult \<Rightarrow> ARFResult" where
  "visit_feedback M t body a =
     (if EqualFold M t ''message/feedback-report'' then readFeedbackFields M body a
      else if returned_message M t then a\<lparr>af_original_id := readMessageID M body\<rparr>
      else a)"

definition parseFeedbackReport :: "mail_lib \<Rightarrow> string \<Rightarrow> string \<Rightarrow> ARFResult" where
  "parseFeedbackReport M boundary body =
     (let a = walkReportParts M boundary body (visit_feedback M) no_feedback
      in a\<lparr>af_kind := classifyFeedbackType M (af_type a)\<rparr>)"

definition ParseARF :: "mail_lib \<Rightarrow> inbound \<Rightarrow> ARFResult" where
  "ParseARF M msg =
     (let (mediaType, params, _) = ParseMediaType M (ib_content_type msg);
          boundary = param params ''boundary''
      in
      if \<not> EqualFold M mediaType ''multipart/report'' then no_feedback
      else if \<not> EqualFold M (param params ''report-type'') ''feedback-report'' then no_feedback
      else if boundary = [] then no_feedback
      else parseFeedbackReport M boundary (ib_body msg))"

subsection \<open>The body\<close>

definition maxRecursionDepth :: nat where "maxRecursionDepth = 8"

definition decodeBase64Loose :: "mail_lib \<Rightarrow> string \<Rightarrow> string option" where
  "decodeBase64Loose M raw = base64_std M (filter (\<lambda>c. (of_char c :: nat) \<notin> {13, 10, 32}) raw)"

definition decodePart :: "mail_lib \<Rightarrow> part \<Rightarrow> string option" where
  "decodePart M p =
     (let enc = ToLower (ml_text M) (header_get (pt_header p) ''Content-Transfer-Encoding'') in
      if pt_broken p then None
      else if enc = ''quoted-printable'' then quoted_printable M (pt_body p)
      else if enc = ''base64'' then decodeBase64Loose M (pt_body p)
      else Some (pt_body p))"

text \<open>The number counts the levels of nesting still allowed.\<close>

fun walkMultipart :: "mail_lib \<Rightarrow> nat \<Rightarrow> string \<Rightarrow> string \<Rightarrow> string \<times> string" where
  "walkMultipart M 0 boundary body = ([], [])"
| "walkMultipart M (Suc n) boundary body =
     fold (\<lambda>p (plainText, html).
       let (t, params, bad) = ParseMediaType M (header_get (pt_header p) ''Content-Type'');
           partType = (if bad then ''text/plain'' else t)
       in
       if has_prefix partType ''multipart/'' then
         (let nb = param params ''boundary'' in
          if nb = [] then (plainText, html)
          else
            let (np, nh) = walkMultipart M n nb (pt_body p)
            in (if plainText = [] then np else plainText, if html = [] then nh else html))
       else
         (case decodePart M p of
            None \<Rightarrow> (plainText, html)
          | Some decoded \<Rightarrow>
              if plainText = [] \<and> partType = ''text/plain'' then (decoded, html)
              else if html = [] \<and> partType = ''text/html'' then (plainText, decoded)
              else (plainText, html)))
       (multipart_parts M boundary body) ([], [])"

definition Extract :: "mail_lib \<Rightarrow> inbound \<Rightarrow> string \<times> string" where
  "Extract M msg =
     (let (mediaType, params, bad) = ParseMediaType M (ib_content_type msg);
          boundary = param params ''boundary'';
          (plainText, html) = walkMultipart M maxRecursionDepth boundary (ib_body msg)
      in
      if bad \<or> \<not> has_prefix mediaType ''multipart/'' then (ib_body msg, [])
      else if boundary = [] then (ib_body msg, [])
      else if plainText = [] \<and> html = [] then (ib_body msg, [])
      else (plainText, html))"

subsection \<open>Reports exclude each other\<close>

lemma ParseDSN_report_type:
  assumes "ds_kind (ParseDSN M msg) \<noteq> NotABounce"
  shows "let (_, params, _) = ParseMediaType M (ib_content_type msg) in
    EqualFold M (param params ''report-type'') ''delivery-status'' \<or> param params ''report-type'' = []"
  using assms by (auto simp: ParseDSN_def Let_def no_bounce_def split: if_splits prod.splits)

end
