(* ===== verification/Return_Date.thy ===== *)
theory Return_Date
  imports Inbox_Message Send_Window
begin

text \<open>
  The return date of an out-of-office reply (\<open>internal/worker/inbox/returndate.go\<close>). The patterns are
  transcribed into a datatype and matched the way the standard library does: leftmost, and of the matches
  that start there the one a backtracking search meets first. Text is UTF-8 bytes read rune by rune,
  and an invalid byte is a rune of its own.
\<close>

subsection \<open>Runes\<close>

definition cont :: "nat \<Rightarrow> bool" where "cont b \<longleftrightarrow> 0x80 \<le> b \<and> b \<le> 0xBF"

fun next_rune :: "nat list \<Rightarrow> (nat \<times> nat list) option" where
  "next_rune [] = None"
| "next_rune (a # s) =
     Some (if a < 0x80 then (a, s)
       else (case s of
           b # s2 \<Rightarrow>
             if 0xC2 \<le> a \<and> a \<le> 0xDF \<and> cont b then ((a - 0xC0) * 64 + (b - 0x80), s2)
             else (case s2 of
                 c # s3 \<Rightarrow>
                   if 0xE0 \<le> a \<and> a \<le> 0xEF \<and> cont b \<and> cont c \<and> (a = 0xE0 \<longrightarrow> 0xA0 \<le> b) \<and> (a = 0xED \<longrightarrow> b \<le> 0x9F)
                   then ((a - 0xE0) * 4096 + (b - 0x80) * 64 + (c - 0x80), s3)
                   else (case s3 of
                       d # s4 \<Rightarrow>
                         if 0xF0 \<le> a \<and> a \<le> 0xF4 \<and> cont b \<and> cont c \<and> cont d
                            \<and> (a = 0xF0 \<longrightarrow> 0x90 \<le> b) \<and> (a = 0xF4 \<longrightarrow> b \<le> 0x8F)
                         then ((a - 0xF0) * 262144 + (b - 0x80) * 4096 + (c - 0x80) * 64 + (d - 0x80), s4)
                         else (0xFFFD, s)
                     | [] \<Rightarrow> (0xFFFD, s))
               | [] \<Rightarrow> (0xFFFD, s))
         | [] \<Rightarrow> (0xFFFD, s)))"

lemma next_rune_shorter: "next_rune s = Some (r, t) \<Longrightarrow> length t < length s"
  by (cases s) (auto split: if_splits list.splits)

subsection \<open>Patterns\<close>

datatype re =
    Rune "nat \<Rightarrow> bool"
  | Edge
  | Seq re re
  | Alt re re
  | Opt re
  | Rep "nat \<Rightarrow> bool" nat "nat option" bool
  | Grp nat re
  | Done

text \<open>Where a match stands: whether the rune before is part of a word, what is left, and the groups.\<close>

type_synonym place = "bool \<times> nat list \<times> (nat \<times> nat list) list"

definition word_rune :: "nat \<Rightarrow> bool" where
  "word_rune n \<longleftrightarrow> n \<in> {48..57} \<or> n \<in> {65..90} \<or> n \<in> {97..122} \<or> n = 95"

definition starts_word :: "nat list \<Rightarrow> bool" where
  "starts_word s \<longleftrightarrow> (case next_rune s of None \<Rightarrow> False | Some (r, _) \<Rightarrow> word_rune r)"

definition one_rune :: "(nat \<Rightarrow> bool) \<Rightarrow> place \<Rightarrow> place option" where
  "one_rune p pl =
     (case pl of (w, s, g) \<Rightarrow>
        (case next_rune s of None \<Rightarrow> None | Some (r, t) \<Rightarrow> if p r then Some (word_rune r, t, g) else None))"

text \<open>The places after 0, 1, 2, \<dots> runes of a class, as far as they go and at most \<open>k\<close>.\<close>

fun run_places :: "(nat \<Rightarrow> bool) \<Rightarrow> nat \<Rightarrow> place \<Rightarrow> place list" where
  "run_places p 0 pl = [pl]"
| "run_places p (Suc k) pl = pl # (case one_rune p pl of None \<Rightarrow> [] | Some pl' \<Rightarrow> run_places p k pl')"

fun matches :: "re \<Rightarrow> place \<Rightarrow> place list" where
  "matches (Rune p) pl = (case one_rune p pl of None \<Rightarrow> [] | Some pl' \<Rightarrow> [pl'])"
| "matches Edge pl = (case pl of (w, s, g) \<Rightarrow> if w \<noteq> starts_word s then [pl] else [])"
| "matches (Seq a b) pl = concat (map (matches b) (matches a pl))"
| "matches (Alt a b) pl = matches a pl @ matches b pl"
| "matches (Opt a) pl = matches a pl @ [pl]"
| "matches (Rep p lo hi greedy) pl =
     (let most = (case hi of None \<Rightarrow> length (fst (snd pl)) | Some n \<Rightarrow> n);
          places = drop lo (run_places p most pl)
      in if greedy then rev places else places)"
| "matches (Grp i a) pl =
     (case pl of (w, s, g) \<Rightarrow>
        map (\<lambda>(w', s', g'). (w', s', (i, take (length s - length s') s) # g')) (matches a pl))"
| "matches Done pl = [pl]"

text \<open>The leftmost match: what is left after it, and its groups.\<close>

function find_re :: "re \<Rightarrow> bool \<Rightarrow> nat list \<Rightarrow> (nat list \<times> (nat \<times> nat list) list) option" where
  "find_re r w s =
     (case matches r (w, s, []) of
        (_, t, g) # _ \<Rightarrow> Some (t, g)
      | [] \<Rightarrow> (case next_rune s of None \<Rightarrow> None | Some (c, t) \<Rightarrow> find_re r (word_rune c) t))"
  by auto
termination
  by (relation "measure (\<lambda>(r, w, s). length s)") (auto simp: next_rune_shorter)

declare find_re.simps [simp del]

definition group_of :: "(nat \<times> nat list) list \<Rightarrow> nat \<Rightarrow> string" where
  "group_of g i = (case map_of g i of Some s \<Rightarrow> map char_of s | None \<Rightarrow> [])"

subsection \<open>The patterns of the source\<close>

definition digit_rune :: "nat \<Rightarrow> bool" where "digit_rune n \<longleftrightarrow> n \<in> {48..57}"
definition space_rune :: "nat \<Rightarrow> bool" where "space_rune n \<longleftrightarrow> n \<in> {9, 10, 12, 13, 32}"

text \<open>Letters of a case-insensitive pattern; two letters have a fold outside ASCII.\<close>

definition letter_rune :: "nat \<Rightarrow> bool" where
  "letter_rune n \<longleftrightarrow> n \<in> {97..122} \<or> n \<in> {65..90} \<or> n = 0x17F \<or> n = 0x212A"

definition folded :: "nat \<Rightarrow> nat \<Rightarrow> bool" where
  "folded c n \<longleftrightarrow> n = c \<or> c \<in> {97..122} \<and> n + 32 = c \<or> c = 115 \<and> n = 0x17F \<or> c = 107 \<and> n = 0x212A"

fun letters :: "string \<Rightarrow> re" where
  "letters [] = Done"
| "letters (c # s) = Seq (Rune (folded (of_char c))) (letters s)"

fun one_of :: "re list \<Rightarrow> re" where
  "one_of [] = Done"
| "one_of [r] = r"
| "one_of (r # rs) = Alt r (one_of rs)"

fun seq :: "re list \<Rightarrow> re" where
  "seq [] = Done"
| "seq (r # rs) = Seq r (seq rs)"

definition returnCues :: re where
  "returnCues =
     Alt (seq [Edge,
            one_of (map letters [''back'', ''returning'', ''return'', ''available'', ''reachable'', ''in the office'', ''at my desk'']),
            Edge, Rep (\<lambda>n. n \<noteq> 46 \<and> n \<noteq> 10) 0 (Some 30) False, Edge, one_of [letters ''on'', letters ''from''], Edge])
         (seq [Edge, one_of (map letters [''until'', ''till'', ''thru'', ''through'']), Edge])"

definition isoDate :: re where
  "isoDate =
     seq [Edge, Grp 1 (Rep digit_rune 4 (Some 4) True), Rune (\<lambda>n. n = 45),
          Grp 2 (Rep digit_rune 1 (Some 2) True), Rune (\<lambda>n. n = 45),
          Grp 3 (Rep digit_rune 1 (Some 2) True), Edge]"

definition ordinal :: re where "ordinal = Opt (one_of (map letters [''st'', ''nd'', ''rd'', ''th'']))"
definition year_part :: re where
  "year_part =
     Opt (seq [Rep space_rune 0 None True, Opt (Rune (\<lambda>n. n = 44)), Rep space_rune 0 None True,
               Grp 3 (Rep digit_rune 4 (Some 4) True)])"

definition monthFirst :: re where
  "monthFirst =
     seq [Edge, Grp 1 (Rep letter_rune 3 (Some 9) True), Opt (Rune (\<lambda>n. n = 46)), Rep space_rune 1 None True,
          Grp 2 (Rep digit_rune 1 (Some 2) True), ordinal, year_part, Edge]"

definition dayFirst :: re where
  "dayFirst =
     seq [Edge, Grp 1 (Rep digit_rune 1 (Some 2) True), ordinal, Rep space_rune 1 None True,
          Opt (Seq (letters ''of'') (Rep space_rune 1 None True)),
          Grp 2 (Rep letter_rune 3 (Some 9) True), Opt (Rune (\<lambda>n. n = 46)), year_part, Edge]"

definition months :: "string \<rightharpoonup> int" where
  "months = map_of
     [(''jan'', 1), (''january'', 1), (''feb'', 2), (''february'', 2), (''mar'', 3), (''march'', 3),
      (''apr'', 4), (''april'', 4), (''may'', 5), (''jun'', 6), (''june'', 6), (''jul'', 7), (''july'', 7),
      (''aug'', 8), (''august'', 8), (''sep'', 9), (''sept'', 9), (''september'', 9), (''oct'', 10),
      (''october'', 10), (''nov'', 11), (''november'', 11), (''dec'', 12), (''december'', 12)]"

subsection \<open>Dates\<close>

text \<open>\<open>time.Date\<close> at midnight UTC and its inverse, in the proleptic Gregorian calendar: days from
  January 1 of the year 1, where instant 0 lies. Years are counted from March.\<close>

definition days_of :: "int \<Rightarrow> int \<Rightarrow> int \<Rightarrow> int" where
  "days_of year month day =
     (let y = (if month \<le> 2 then year - 1 else year);
          m = (if month \<le> 2 then month + 9 else month - 3)
      in 365 * y + y div 4 - y div 100 + y div 400 + (153 * m + 2) div 5 + day - 1 - 306)"

definition date_of :: "int \<Rightarrow> int \<times> int \<times> int" where
  "date_of days =
     (let z = days + 306; era = z div 146097; doe = z mod 146097;
          yoe = (doe - doe div 1460 + doe div 36524 - doe div 146096) div 365;
          doy = doe - (365 * yoe + yoe div 4 - yoe div 100);
          mp = (5 * doy + 2) div 153;
          month = (if mp < 10 then mp + 3 else mp - 9)
      in (yoe + 400 * era + (if month \<le> 2 then 1 else 0), month, doy - (153 * mp + 2) div 5 + 1))"

definition midnight :: "int \<Rightarrow> int \<Rightarrow> int \<Rightarrow> instant" where
  "midnight year month day = days_of year month day * day_ns"

definition maxDeferral :: duration where "maxDeferral = 30 * 24 * hour"
definition searchWindow :: nat where "searchWindow = 48"

fun digits_value :: "int \<Rightarrow> string \<Rightarrow> int" where
  "digits_value n [] = n"
| "digits_value n (c # s) = digits_value (10 * n + int (of_char c) - 48) s"

definition atoi :: "string \<Rightarrow> int" where
  "atoi s = digits_value 0 s"

definition assemble :: "int \<Rightarrow> int \<Rightarrow> int \<Rightarrow> instant \<Rightarrow> instant option" where
  "assemble year0 month day now =
     (if day < 1 \<or> 31 < day \<or> month < 1 \<or> 12 < month then None
      else
        let this_year = fst (date_of (now div day_ns));
            year = (if year0 \<noteq> 0 then year0
                    else if midnight this_year month day < now div day_ns * day_ns then this_year + 1
                    else this_year)
        in if date_of (days_of year month day) \<noteq> (year, month, day) then None
           else Some (midnight year month day))"

definition findDate :: "mail_lib \<Rightarrow> nat list \<Rightarrow> instant \<Rightarrow> instant option" where
  "findDate M text now =
     (case find_re isoDate False text of
        Some (_, g) \<Rightarrow> assemble (atoi (group_of g 1)) (atoi (group_of g 2)) (atoi (group_of g 3)) now
      | None \<Rightarrow>
          (case (case find_re monthFirst False text of
                   None \<Rightarrow> None
                 | Some (_, g) \<Rightarrow> map_option (\<lambda>m. (g, m)) (months (ToLower (ml_text M) (group_of g 1)))) of
             Some (g, month) \<Rightarrow> assemble (atoi (group_of g 3)) month (atoi (group_of g 2)) now
           | None \<Rightarrow>
               (case (case find_re dayFirst False text of
                        None \<Rightarrow> None
                      | Some (_, g) \<Rightarrow> map_option (\<lambda>m. (g, m)) (months (ToLower (ml_text M) (group_of g 2)))) of
                  Some (g, month) \<Rightarrow> assemble (atoi (group_of g 3)) month (atoi (group_of g 1)) now
                | None \<Rightarrow> None)))"

definition parseReturnDate :: "mail_lib \<Rightarrow> string \<Rightarrow> instant \<Rightarrow> instant option" where
  "parseReturnDate M body now =
     (case find_re returnCues False (map of_char body) of
        None \<Rightarrow> None
      | Some (tail, _) \<Rightarrow>
          (case findDate M (take searchWindow tail) now of
             None \<Rightarrow> None
           | Some day \<Rightarrow>
               if \<not> now < day then None
               else if now + maxDeferral < day then Some (now + maxDeferral)
               else Some day))"

lemma parseReturnDate_bounds:
  "parseReturnDate M body now = Some t \<Longrightarrow> now < t \<and> t \<le> now + maxDeferral"
  by (auto simp: parseReturnDate_def maxDeferral_def const_defs split: option.splits prod.splits if_splits)

end
