(* ===== verification/Reply_Dispatch.thy ===== *)
theory Reply_Dispatch
  imports Return_Date Step_Job
begin

text \<open>
  What one inbound message does (\<open>internal/worker/inbox/poll.go\<close>, \<open>dispatch.go\<close>): a bounce, a complaint or
  a reply, the label the workspace gives the reply and the calls that follow.

  \<open>inbox_core\<close> is the part of the control plane's client this worker calls, over an abstract state; a
  capability the worker detects at run time is an \<open>option\<close>. A call yields its error or its answer
  together with the state it leaves, as a call that fails may have written. The detection of warmup mail
  in front of this, logging and the summary of a poll are left out; the two counters of the summary are
  part of the answer. \<open>now\<close> is the worker's clock.
\<close>

subsection \<open>Calls\<close>

datatype inbox_error =
    ErrNoMatch
  | ErrInvalidComplaint
  | ErrCore core_error
  | ErrIngest string

type_synonym ('s, 'a) act = "'s \<Rightarrow> (inbox_error + 'a) \<times> 's"

definition pure :: "'a \<Rightarrow> ('s, 'a) act" where "pure x s = (Inr x, s)"

definition bind_act :: "('s, 'a) act \<Rightarrow> ('a \<Rightarrow> ('s, 'b) act) \<Rightarrow> ('s, 'b) act" where
  "bind_act a k s = (case a s of (Inl e, s') \<Rightarrow> (Inl e, s') | (Inr x, s') \<Rightarrow> k x s')"

record SendRef =
  sr_send :: string
  sr_enrollment :: string
  sr_contact_email :: string
  sr_mailbox :: string
  sr_campaign :: string
  sr_contact :: string
  sr_message_id :: string

record ReplyLabel =
  lb_key :: string
  lb_stops :: bool
  lb_automated :: bool
  lb_suppresses :: bool
  lb_captures :: bool
  lb_defers :: bool

record ComplaintInput =
  ci_workspace :: string
  ci_email :: string
  ci_event_id :: string
  ci_send :: string

record InboxMessageInput =
  mi_workspace :: string
  mi_mailbox :: string
  mi_campaign :: "string option"
  mi_contact :: "string option"
  mi_root :: string
  mi_subject :: string
  mi_message_id :: string
  mi_from_email :: string
  mi_from_name :: string
  mi_to_email :: string
  mi_body_text :: string
  mi_body_html :: string
  mi_reply_class :: string
  mi_occurred_at :: instant

record CRMReplyInput =
  cr_workspace :: string
  cr_enrollment :: string
  cr_send :: string
  cr_thread_ref :: string
  cr_message_id :: string
  cr_subject :: string
  cr_sender_email :: string
  cr_recipient_email :: string
  cr_sender_name :: string
  cr_reply_class :: string
  cr_occurred_at :: instant

record 's inbox_core =
  FindSendByMessageID :: "string \<Rightarrow> string \<Rightarrow> 's \<Rightarrow> inbox_error + SendRef"
  MarkBounced :: "string \<Rightarrow> string \<Rightarrow> string \<Rightarrow> bool \<Rightarrow> ('s, unit) act"
  MarkReplied :: "string \<Rightarrow> string \<Rightarrow> string \<Rightarrow> string \<Rightarrow> float64 \<Rightarrow> ('s, unit) act"
  MarkUnsubscribed :: "string \<Rightarrow> string \<Rightarrow> string \<Rightarrow> ('s, unit) act"
  RecordReplyClass :: "string \<Rightarrow> string \<Rightarrow> string \<Rightarrow> string \<Rightarrow> float64 \<Rightarrow> ('s, unit) act"
  DeferEnrollment :: "string \<Rightarrow> string \<Rightarrow> instant \<Rightarrow> ('s, unit) act"
  RecordWarmupHardBounce :: "(string \<Rightarrow> string \<Rightarrow> string \<Rightarrow> ('s, bool) act) option"
  IngestComplaint :: "(ComplaintInput \<Rightarrow> ('s, unit) act) option"
  StoreInboundMessage :: "(InboxMessageInput \<Rightarrow> ('s, unit) act) option"
  ResolveReplyLabel :: "(string \<Rightarrow> string \<Rightarrow> 's \<Rightarrow> inbox_error + ReplyLabel option) option"
  CaptureCRMReply :: "(CRMReplyInput \<Rightarrow> ('s, unit) act) option"

text \<open>Whether the message was handled, and what it adds to the counts of replies and bounces.\<close>

record processed =
  pc_matched :: bool
  pc_replies :: nat
  pc_bounces :: nat

abbreviation handled :: processed where "handled \<equiv> \<lparr>pc_matched = True, pc_replies = 0, pc_bounces = 0\<rparr>"
abbreviation skipped :: processed where "skipped \<equiv> \<lparr>pc_matched = False, pc_replies = 0, pc_bounces = 0\<rparr>"
abbreviation bounced :: processed where "bounced \<equiv> \<lparr>pc_matched = True, pc_replies = 0, pc_bounces = 1\<rparr>"

subsection \<open>One classified reply\<close>

record 's dispatch =
  dp_core :: "'s inbox_core"
  dp_mail :: mail_lib
  dp_now :: instant
  dp_workspace :: string
  dp_msg :: inbound
  dp_in :: reply_input
  dp_send :: SendRef
  dp_result :: reply_result

definition header_date :: "mail_lib \<Rightarrow> inbound \<Rightarrow> instant option" where
  "header_date M msg =
     (let d = header_get (ib_header msg) ''Date'' in if d = [] then None else ParseDate M d)"

definition occurredAt :: "'s dispatch \<Rightarrow> instant" where
  "occurredAt d = (case header_date (dp_mail d) (dp_msg d) of Some t \<Rightarrow> t | None \<Rightarrow> dp_now d)"

definition replied_count :: "'s dispatch \<Rightarrow> processed" where
  "replied_count d = (if sr_enrollment (dp_send d) \<noteq> [] then handled\<lparr>pc_replies := 1\<rparr> else handled)"

definition crm_input :: "'s dispatch \<Rightarrow> CRMReplyInput" where
  "crm_input d =
     (let h = header_get (ib_header (dp_msg d));
          low = ToLower (ml_text (dp_mail d));
          (name, address) = (case ParseAddress (dp_mail d) (h ''From'') of
              Some (n, a) \<Rightarrow> (n, a) | None \<Rightarrow> ([], sr_contact_email (dp_send d)));
          ref = TrimSpace (h ''In-Reply-To'')
      in \<lparr>cr_workspace = dp_workspace d, cr_enrollment = sr_enrollment (dp_send d), cr_send = sr_send (dp_send d),
          cr_thread_ref = (if ref \<noteq> [] then ref
                           else case Fields (h ''References'') of r # _ \<Rightarrow> r | [] \<Rightarrow> ref),
          cr_message_id = TrimSpace (h ''Message-Id''), cr_subject = h ''Subject'',
          cr_sender_email = low address, cr_recipient_email = low (h ''To''), cr_sender_name = name,
          cr_reply_class = rr_class (dp_result d), cr_occurred_at = occurredAt d\<rparr>)"

definition captureDeal :: "bool \<Rightarrow> 's dispatch \<Rightarrow> ('s, unit) act" where
  "captureDeal captures d =
     (if \<not> captures \<or> sr_enrollment (dp_send d) = [] then pure ()
      else case CaptureCRMReply (dp_core d) of None \<Rightarrow> pure () | Some capture \<Rightarrow> capture (crm_input d))"

definition deferUntilReturn :: "ReplyLabel \<Rightarrow> 's dispatch \<Rightarrow> ('s, bool) act" where
  "deferUntilReturn label d =
     (if \<not> lb_defers label \<or> sr_enrollment (dp_send d) = [] then pure False
      else
        let body0 = fst (Extract (dp_mail d) (dp_msg d));
            body = (if TrimSpace body0 = [] then ib_body (dp_msg d) else body0)
        in case parseReturnDate (dp_mail d) body (dp_now d) of
             None \<Rightarrow> pure False
           | Some until \<Rightarrow>
               bind_act (DeferEnrollment (dp_core d) (sr_enrollment (dp_send d)) (dp_workspace d) until)
                 (\<lambda>_. pure True))"

definition unsubscribe :: "'s dispatch \<Rightarrow> ('s, processed) act" where
  "unsubscribe d =
     bind_act (MarkUnsubscribed (dp_core d) (sr_enrollment (dp_send d)) (dp_workspace d) (sr_contact_email (dp_send d)))
       (\<lambda>_. pure handled)"

definition mark_replied :: "'s dispatch \<Rightarrow> ('s, unit) act" where
  "mark_replied d =
     MarkReplied (dp_core d) (sr_enrollment (dp_send d)) (dp_workspace d) (rr_class (dp_result d))
       (rr_source (dp_result d)) (rr_confidence (dp_result d))"

definition record_class :: "'s dispatch \<Rightarrow> ('s, unit) act" where
  "record_class d =
     RecordReplyClass (dp_core d) (sr_enrollment (dp_send d)) (dp_workspace d) (rr_class (dp_result d))
       (rr_source (dp_result d)) (rr_confidence (dp_result d))"

definition byLabel :: "'s dispatch \<Rightarrow> ReplyLabel \<Rightarrow> ('s, processed) act" where
  "byLabel d label =
     (if lb_suppresses label \<or> (lb_automated label \<and> LooksLikeUnsubscribe (dp_mail d) (dp_in d)) then unsubscribe d
      else if lb_stops label then
        bind_act (mark_replied d) (\<lambda>_.
        bind_act (captureDeal (lb_captures label) d) (\<lambda>_. pure (replied_count d)))
      else
        bind_act (deferUntilReturn label d) (\<lambda>deferred.
        bind_act (captureDeal (lb_captures label) d) (\<lambda>_.
        bind_act (record_class d) (\<lambda>_. pure (if deferred then handled else skipped)))))"

definition byClass :: "'s dispatch \<Rightarrow> ('s, processed) act" where
  "byClass d =
     (if IsAutomated (rr_class (dp_result d)) then
        (if LooksLikeUnsubscribe (dp_mail d) (dp_in d) then unsubscribe d
         else bind_act (record_class d) (\<lambda>_. pure skipped))
      else if rr_class (dp_result d) = ClassUnsubscribe then unsubscribe d
      else
        bind_act (mark_replied d) (\<lambda>_.
        bind_act (if rr_class (dp_result d) = ClassPositive then captureDeal True d else pure ()) (\<lambda>_.
          pure (replied_count d))))"

definition resolveReplyLabel :: "'s inbox_core \<Rightarrow> string \<Rightarrow> string \<Rightarrow> 's \<Rightarrow> ReplyLabel option" where
  "resolveReplyLabel core ws key s =
     (case ResolveReplyLabel core of
        None \<Rightarrow> None
      | Some resolve \<Rightarrow> (case resolve ws key s of Inl _ \<Rightarrow> None | Inr r \<Rightarrow> r))"

definition reply_dispatch :: "'s dispatch \<Rightarrow> ('s, processed) act" where
  "reply_dispatch d s =
     (case resolveReplyLabel (dp_core d) (dp_workspace d) (rr_class (dp_result d)) s of
        Some label \<Rightarrow> byLabel d label s
      | None \<Rightarrow> byClass d s)"

subsection \<open>Bounces and complaints\<close>

definition process_bounce :: "'s inbox_core \<Rightarrow> string \<Rightarrow> string \<Rightarrow> DSNResult \<Rightarrow> ('s, processed) act" where
  "process_bounce core ws mailbox r s =
     (if ds_kind r \<noteq> HardBounce then (Inr handled, s)
      else
        let mid = TrimSpace (ds_original_id r) in
        if \<not> usableMessageID mid then (Inr skipped, s)
        else
          bind_act (case RecordWarmupHardBounce core of None \<Rightarrow> pure False | Some f \<Rightarrow> f ws mid mailbox)
            (\<lambda>matched s.
               if matched then (Inr bounced, s)
               else case FindSendByMessageID core ws mid s of
                      Inl e \<Rightarrow> if e = ErrNoMatch then (Inr skipped, s) else (Inl e, s)
                    | Inr ref \<Rightarrow>
                        bind_act (MarkBounced core (sr_enrollment ref) ws (sr_contact_email ref) True)
                          (\<lambda>_. pure bounced) s) s)"

definition recordInboundComplaint ::
  "mail_lib \<Rightarrow> 's inbox_core \<Rightarrow> string \<Rightarrow> ARFResult \<Rightarrow> ('s, processed) act" where
  "recordInboundComplaint M core ws a s =
     (case IngestComplaint core of
        None \<Rightarrow> (Inr skipped, s)
      | Some ingest \<Rightarrow>
          let mid = TrimSpace (af_original_id a) in
          if \<not> usableMessageID mid then (Inr skipped, s)
          else (case FindSendByMessageID core ws mid s of
                  Inl e \<Rightarrow> if e = ErrNoMatch then (Inr skipped, s) else (Inl e, s)
                | Inr ref \<Rightarrow>
                    if af_recipient a \<noteq> [] \<and> \<not> EqualFold M (af_recipient a) (sr_contact_email ref)
                    then (Inr skipped, s)
                    else (case ingest \<lparr>ci_workspace = ws, ci_email = sr_contact_email ref,
                                  ci_event_id = ''arf:'' @ sr_send ref, ci_send = sr_send ref\<rparr> s of
                            (Inr _, s') \<Rightarrow> (Inr handled, s')
                          | (Inl e, s') \<Rightarrow> if e = ErrInvalidComplaint then (Inr skipped, s') else (Inl e, s'))))"

subsection \<open>One message\<close>

definition store_input :: "mail_lib \<Rightarrow> instant \<Rightarrow> string \<Rightarrow> inbound \<Rightarrow> SendRef \<Rightarrow> string \<Rightarrow> InboxMessageInput" where
  "store_input M now ws msg ref cls =
     (let h = header_get (ib_header msg);
          low = ToLower (ml_text M);
          (plainText, html) = Extract M msg;
          (fromName, from_email) = (case ParseAddress M (h ''From'') of
              Some (n, a) \<Rightarrow> (n, a) | None \<Rightarrow> ([], h ''From''))
      in \<lparr>mi_workspace = ws, mi_mailbox = sr_mailbox ref, mi_campaign = Some (sr_campaign ref),
          mi_contact = Some (sr_contact ref), mi_root = sr_message_id ref, mi_subject = h ''Subject'',
          mi_message_id = TrimSpace (h ''Message-Id''), mi_from_email = low from_email, mi_from_name = fromName,
          mi_to_email = low (h ''To''), mi_body_text = plainText, mi_body_html = html, mi_reply_class = cls,
          mi_occurred_at = (case header_date M msg of Some t \<Rightarrow> t | None \<Rightarrow> now)\<rparr>)"

definition reply_input_of :: "inbound \<Rightarrow> reply_input" where
  "reply_input_of msg =
     \<lparr>ri_headers = ib_header msg, ri_subject = header_get (ib_header msg) ''Subject'', ri_body = ib_body msg\<rparr>"

fun process_reply ::
  "mail_lib \<Rightarrow> reply_model option \<Rightarrow> 's inbox_core \<Rightarrow> instant \<Rightarrow> string \<Rightarrow> inbound \<Rightarrow> string list \<Rightarrow> ('s, processed) act"
where
  "process_reply M model core now ws msg [] s = (Inr skipped, s)"
| "process_reply M model core now ws msg (i # ids) s =
     (case FindSendByMessageID core ws i s of
        Inl e \<Rightarrow> if e = ErrNoMatch then process_reply M model core now ws msg ids s else (Inl e, s)
      | Inr ref \<Rightarrow>
          let inp = reply_input_of msg;
              r = Classify M model inp
          in bind_act
               (case StoreInboundMessage core of
                  None \<Rightarrow> pure () | Some store \<Rightarrow> store (store_input M now ws msg ref (rr_class r)))
               (\<lambda>_. reply_dispatch
                  \<lparr>dp_core = core, dp_mail = M, dp_now = now, dp_workspace = ws, dp_msg = msg, dp_in = inp,
                   dp_send = ref, dp_result = r\<rparr>) s)"

definition processMessage ::
  "mail_lib \<Rightarrow> reply_model option \<Rightarrow> 's inbox_core \<Rightarrow> instant \<Rightarrow> string \<Rightarrow> string \<Rightarrow> inbound \<Rightarrow> ('s, processed) act"
where
  "processMessage M model core now ws mailbox msg =
     (let d = ParseDSN M msg; a = ParseARF M msg in
      if ds_kind d \<noteq> NotABounce then process_bounce core ws mailbox d
      else if af_kind a = AbuseComplaint then recordInboundComplaint M core ws a
      else process_reply M model core now ws msg (MessageIDs (ib_header msg)))"

subsection \<open>A poll pass\<close>

definition fetchBatchSize :: int where "fetchBatchSize = 200"

definition scannedWindowTop :: "32 word \<Rightarrow> 32 word \<Rightarrow> 32 word" where
  "scannedWindowTop sinceUID uidNext =
     (let head = (if 0 < uidNext then uidNext - 1 else 0);
          top = sinceUID + word_of_int fetchBatchSize
      in if head < top then head else top)"

text \<open>The messages of a pass in order; an error ends it, and with it the advance of the cursor.\<close>

fun process_all :: "('m \<Rightarrow> ('s, processed) act) \<Rightarrow> 'm list \<Rightarrow> ('s, unit) act" where
  "process_all f [] s = (Inr (), s)"
| "process_all f (m # ms) s = bind_act (f m) (\<lambda>_. process_all f ms) s"

end
