(* ===== verification/Inbox_Contract.thy ===== *)
theory Inbox_Contract
  imports Reply_Dispatch
begin

text \<open>
  What the inbox worker relies on and what it achieves with it, in two contracts over any store.

  \<open>inbox_frame\<close> says that the calls made for an attributed send keep a relation between the states before
  and after; then a whole message does, whatever fails. \<open>inbox_contract\<close> adds that an outcome that ends a
  sequence leaves what its name says and is never undone; then a pass over a mailbox carries every
  message's outcome to its end, an opt-out suppresses its sender and a human reply halts the enrollment.

  \<open>kept s s'\<close> is the relation, \<open>allowed ref s\<close> holds of the sends a message may be attributed to, \<open>named\<close>
  of the ids it gives, and \<open>trusted\<close> is what is promised of the two capabilities the control plane gets
  from elsewhere.
\<close>

subsection \<open>Calls that keep a relation\<close>

definition keeps :: "('s \<Rightarrow> bool) \<Rightarrow> ('s \<Rightarrow> 's \<Rightarrow> bool) \<Rightarrow> ('s, 'a) act \<Rightarrow> bool" where
  "keeps P R f \<longleftrightarrow> (\<forall>s. P s \<longrightarrow> R s (snd (f s)))"

abbreviation always :: "'s \<Rightarrow> bool" where "always \<equiv> \<lambda>_. True"

lemma keepsD: "keeps P R f \<Longrightarrow> P s \<Longrightarrow> f s = (r, s') \<Longrightarrow> R s s'"
  by (metis keeps_def snd_conv)

lemma bind_act_Inr:
  "bind_act a k s = (Inr y, s') \<longleftrightarrow> (\<exists>x s1. a s = (Inr x, s1) \<and> k x s1 = (Inr y, s'))"
  by (auto simp: bind_act_def split: prod.splits sum.splits)

lemma pure_Inr: "pure x s = (Inr y, s') \<longleftrightarrow> y = x \<and> s' = s"
  by (auto simp: pure_def)

lemma snd_bind_act: "snd (bind_act a k s) = (case fst (a s) of Inl e \<Rightarrow> snd (a s) | Inr x \<Rightarrow> snd (k x (snd (a s))))"
  by (simp add: bind_act_def split: prod.splits sum.splits)

lemma keeps_always: "keeps always R f \<Longrightarrow> keeps P R f"
  by (simp add: keeps_def)

text \<open>A call that keeps the relation, followed by calls that do.\<close>

lemma keeps_seq:
  assumes "\<And>a b c. R a b \<Longrightarrow> R b c \<Longrightarrow> R a c" and "\<And>s s'. R s s' \<Longrightarrow> P s \<Longrightarrow> P s'"
    and "keeps P R a" and "\<And>x. keeps P R (k x)"
  shows "keeps P R (bind_act a k)"
  unfolding keeps_def
proof (intro allI impI)
  fix s
  assume P: "P s"
  then have first: "R s (snd (a s))" using assms(3) by (simp add: keeps_def)
  moreover have "R (snd (a s)) (snd (k x (snd (a s))))" for x
    using assms(2) [OF first P] assms(4) by (simp add: keeps_def)
  ultimately show "R s (snd (bind_act a k s))"
    unfolding snd_bind_act using assms(1) by (auto split: sum.split)
qed

text \<open>The send a reply is attributed to: that of the first id it names that has one.\<close>

fun first_match :: "'s inbox_core \<Rightarrow> string \<Rightarrow> string list \<Rightarrow> 's \<Rightarrow> SendRef option" where
  "first_match core ws [] s = None"
| "first_match core ws (i # ids) s =
     (case FindSendByMessageID core ws i s of Inr ref \<Rightarrow> Some ref | Inl e \<Rightarrow> first_match core ws ids s)"

text \<open>The first thing done for an attributed reply is to store it.\<close>

abbreviation stored ::
  "mail_lib \<Rightarrow> reply_model option \<Rightarrow> 's inbox_core \<Rightarrow> instant \<Rightarrow> string \<Rightarrow> inbound \<Rightarrow> SendRef \<Rightarrow> ('s, unit) act" where
  "stored M model core now w msg ref \<equiv>
     (case StoreInboundMessage core of None \<Rightarrow> pure ()
      | Some store \<Rightarrow> store (store_input M now w msg ref (rr_class (Classify M model (reply_input_of msg)))))"

text \<open>A message that is neither a delivery report nor an abuse report.\<close>

definition plain_reply :: "mail_lib \<Rightarrow> inbound \<Rightarrow> bool" where
  "plain_reply M msg \<longleftrightarrow> ds_kind (ParseDSN M msg) = NotABounce \<and> af_kind (ParseARF M msg) \<noteq> AbuseComplaint"

text \<open>The automation a reply needs of its label: an opt-out that it suppresses the sender, or is read as
  automated mail; a human reply that it ends the sequence.\<close>

definition honours_opt_out :: "ReplyLabel \<Rightarrow> bool" where
  "honours_opt_out l \<longleftrightarrow> lb_suppresses l \<or> lb_automated l"

definition ends_sequence :: "ReplyLabel \<Rightarrow> bool" where
  "ends_sequence l \<longleftrightarrow> lb_suppresses l \<or> lb_stops l"

abbreviation dispatch_of ::
  "mail_lib \<Rightarrow> reply_model option \<Rightarrow> 's inbox_core \<Rightarrow> instant \<Rightarrow> string \<Rightarrow> inbound \<Rightarrow> SendRef \<Rightarrow> 's dispatch" where
  "dispatch_of M model core now ws msg ref \<equiv>
     \<lparr>dp_core = core, dp_mail = M, dp_now = now, dp_workspace = ws, dp_msg = msg, dp_in = reply_input_of msg,
      dp_send = ref, dp_result = Classify M model (reply_input_of msg)\<rparr>"

lemma reply_stored:
  assumes "process_reply M model core now w msg ids s = (Inr p, s')" and "first_match core w ids s = Some ref"
  shows "\<exists>u s1. stored M model core now w msg ref s = (Inr u, s1)
    \<and> reply_dispatch (dispatch_of M model core now w msg ref) s1 = (Inr p, s')"
  using assms
proof (induction ids)
  case (Cons i ids)
  then show ?case
    by (cases "FindSendByMessageID core w i s") (auto simp: Let_def bind_act_Inr split: if_splits)
qed simp

text \<open>The complaint a report is passed on as.\<close>

definition complaint_of :: "string \<Rightarrow> SendRef \<Rightarrow> ComplaintInput" where
  "complaint_of w ref = \<lparr>ci_workspace = w, ci_email = sr_contact_email ref, ci_event_id = ''arf:'' @ sr_send ref,
     ci_send = sr_send ref\<rparr>"

text \<open>Every id a message may be attributed by.\<close>

definition named_ids :: "mail_lib \<Rightarrow> inbound \<Rightarrow> string set" where
  "named_ids M msg = {TrimSpace (ds_original_id (ParseDSN M msg)), TrimSpace (af_original_id (ParseARF M msg))}
     \<union> set (MessageIDs (ib_header msg))"

subsection \<open>A message within its frame\<close>

locale inbox_frame =
  fixes core :: "'s inbox_core"
    and kept :: "'s \<Rightarrow> 's \<Rightarrow> bool"
    and w :: string
    and allowed :: "SendRef \<Rightarrow> 's \<Rightarrow> bool"
    and named :: "string \<Rightarrow> bool"
    and trusted :: bool
  assumes kept_refl: "kept s s"
    and kept_trans: "kept a b \<Longrightarrow> kept b c \<Longrightarrow> kept a c"
    and allowed_stays: "kept s s' \<Longrightarrow> allowed ref s \<Longrightarrow> allowed ref s'"
    and find_allowed: "named i \<Longrightarrow> FindSendByMessageID core w i s = Inr ref \<Longrightarrow> allowed ref s"
    and keeps_bounced: "keeps (allowed ref) kept (MarkBounced core (sr_enrollment ref) w (sr_contact_email ref) True)"
    and keeps_replied: "keeps (allowed ref) kept (MarkReplied core (sr_enrollment ref) w cls src conf)"
    and keeps_unsubscribed: "keeps (allowed ref) kept (MarkUnsubscribed core (sr_enrollment ref) w (sr_contact_email ref))"
    and keeps_class: "keeps (allowed ref) kept (RecordReplyClass core (sr_enrollment ref) w cls src conf)"
    and keeps_defer: "sr_enrollment ref \<noteq> [] \<Longrightarrow> keeps (allowed ref) kept (DeferEnrollment core (sr_enrollment ref) w until)"
    and keeps_warmup: "trusted \<Longrightarrow> RecordWarmupHardBounce core = Some hb \<Longrightarrow> keeps always kept (hb w mid mb)"
    and keeps_complaint: "IngestComplaint core = Some cf \<Longrightarrow> keeps (allowed ref) kept (cf (complaint_of w ref))"
    and keeps_store: "StoreInboundMessage core = Some sf \<Longrightarrow>
        keeps (allowed ref) kept (sf (store_input M now w msg ref cls))"
    and keeps_crm: "trusted \<Longrightarrow> CaptureCRMReply core = Some rf \<Longrightarrow> keeps always kept (rf ri)"
begin

lemma keeps_pure: "keeps P kept (pure x)"
  by (simp add: keeps_def pure_def kept_refl)

lemma keeps_bind: "keeps (allowed ref) kept a \<Longrightarrow> (\<And>x. keeps (allowed ref) kept (k x)) \<Longrightarrow> keeps (allowed ref) kept (bind_act a k)"
  by (rule keeps_seq [of kept "allowed ref"]) (blast intro: kept_trans allowed_stays)+

lemma keeps_bind_always: "keeps always kept a \<Longrightarrow> (\<And>x. keeps always kept (k x)) \<Longrightarrow> keeps always kept (bind_act a k)"
  by (rule keeps_seq [of kept always]) (blast intro: kept_trans)+

lemmas keeps_calls = keeps_bounced keeps_replied keeps_unsubscribed keeps_class keeps_defer keeps_pure

abbreviation here :: "'s dispatch \<Rightarrow> SendRef \<Rightarrow> bool" where
  "here d ref \<equiv> dp_core d = core \<and> dp_workspace d = w \<and> dp_send d = ref"

lemma keeps_unsubscribe: "here d ref \<Longrightarrow> keeps (allowed ref) kept (unsubscribe d)"
  by (cases d) (auto simp: unsubscribe_def intro!: keeps_bind keeps_calls)

lemma keeps_capture: "trusted \<Longrightarrow> here d ref \<Longrightarrow> keeps (allowed ref) kept (captureDeal b d)"
  by (cases d) (auto simp: captureDeal_def intro: keeps_pure keeps_always keeps_crm split: option.split)

lemma keeps_until: "here d ref \<Longrightarrow> keeps (allowed ref) kept (deferUntilReturn l d)"
  by (cases d) (auto simp: deferUntilReturn_def Let_def intro!: keeps_bind keeps_calls split: option.split)

lemma keeps_mark:
  "here d ref \<Longrightarrow> keeps (allowed ref) kept (mark_replied d)" "here d ref \<Longrightarrow> keeps (allowed ref) kept (record_class d)"
  by (cases d, auto simp: mark_replied_def record_class_def keeps_calls)+

lemmas keeps_parts = keeps_unsubscribe keeps_capture keeps_until keeps_mark keeps_pure

lemma keeps_by_label: "trusted \<Longrightarrow> here d ref \<Longrightarrow> keeps (allowed ref) kept (byLabel d l)"
  by (simp only: byLabel_def split: if_split) (intro conjI impI keeps_bind keeps_parts; blast)

lemma keeps_by_class: "trusted \<Longrightarrow> here d ref \<Longrightarrow> keeps (allowed ref) kept (byClass d)"
  by (simp only: byClass_def split: if_split) (intro conjI impI keeps_bind keeps_parts; blast)

lemma keeps_dispatch:
  assumes "trusted" "here d ref"
  shows "keeps (allowed ref) kept (reply_dispatch d)"
  using keeps_by_label [OF assms] keeps_by_class [OF assms]
  by (auto simp: keeps_def reply_dispatch_def split: option.split)

lemma keeps_stored:
  "keeps (allowed ref) kept (case StoreInboundMessage core of None \<Rightarrow> pure ()
     | Some store \<Rightarrow> store (store_input M now w msg ref cls))"
  by (auto intro: keeps_pure keeps_store split: option.split)

lemma keeps_reply:
  assumes trusted
  shows "\<forall>i \<in> set ids. named i \<Longrightarrow> keeps always kept (process_reply M model core now w msg ids)"
proof (induction ids)
  case (Cons i ids)
  then have rest: "keeps always kept (process_reply M model core now w msg ids)" by simp
  have deliver: "keeps (allowed ref) kept (bind_act (case StoreInboundMessage core of None \<Rightarrow> pure ()
      | Some store \<Rightarrow> store (store_input M now w msg ref cls))
      (\<lambda>_. reply_dispatch (dispatch_of M model core now w msg ref)))" for cls ref
    by (intro keeps_bind keeps_stored keeps_dispatch [OF assms]) simp
  show ?case
    unfolding keeps_def
  proof (intro allI impI)
    fix s
    show "kept s (snd (process_reply M model core now w msg (i # ids) s))"
      using rest [unfolded keeps_def, rule_format, of s] deliver [unfolded keeps_def, rule_format, of _ s]
        kept_refl find_allowed [of i s] Cons.prems
      by (auto simp: Let_def split: sum.split)
  qed
qed (simp add: keeps_def kept_refl)

lemma keeps_attributed:
  assumes "\<And>ref. keeps (allowed ref) kept (k ref)" and "named i"
  shows "keeps always kept (\<lambda>s. case FindSendByMessageID core w i s of
      Inl e \<Rightarrow> if e = ErrNoMatch then (Inr skipped, s) else (Inl e, s) | Inr ref \<Rightarrow> k ref s)"
  using assms kept_refl find_allowed by (auto simp: keeps_def split: sum.split)

lemma keeps_bounce:
  assumes trusted and "named (TrimSpace (ds_original_id r))"
  shows "keeps always kept (process_bounce core w mb r)"
proof -
  let ?mid = "TrimSpace (ds_original_id r)"
  have warm: "keeps always kept (case RecordWarmupHardBounce core of None \<Rightarrow> pure False | Some f \<Rightarrow> f w ?mid mb)"
    using assms(1) by (auto intro: keeps_pure keeps_warmup split: option.split)
  have known: "keeps always kept (\<lambda>s. (Inr bounced :: inbox_error + processed, s))"
    by (simp add: keeps_def kept_refl)
  have mark: "keeps always kept (\<lambda>s. if matched then (Inr bounced, s) else
      case FindSendByMessageID core w ?mid s of
        Inl e \<Rightarrow> if e = ErrNoMatch then (Inr skipped, s) else (Inl e, s)
      | Inr ref \<Rightarrow> bind_act (MarkBounced core (sr_enrollment ref) w (sr_contact_email ref) True)
          (\<lambda>_. pure bounced) s)" for matched
    by (cases matched) (auto simp only: if_True if_False intro!: known keeps_attributed keeps_bind keeps_calls assms(2))
  show ?thesis
    using keeps_bind_always [OF warm mark] by (simp add: keeps_def process_bounce_def Let_def kept_refl)
qed

lemma keeps_report:
  assumes "named (TrimSpace (af_original_id a))"
  shows "keeps always kept (recordInboundComplaint M core w a)"
proof (cases "IngestComplaint core")
  case (Some ingest)
  have k: "ingest (complaint_of w ref) s = (r, s1) \<Longrightarrow>
      FindSendByMessageID core w (TrimSpace (af_original_id a)) s = Inr ref \<Longrightarrow> kept s s1" for ref s r s1
    using keepsD [OF keeps_complaint [OF Some]] find_allowed [OF assms] by blast
  show ?thesis
    unfolding keeps_def
    by (auto simp: recordInboundComplaint_def Some Let_def kept_refl
        split: sum.split prod.split dest: k [unfolded complaint_of_def, simplified])
qed (simp add: keeps_def recordInboundComplaint_def kept_refl)

lemma keeps_message:
  assumes trusted and "\<forall>i \<in> named_ids M msg. named i"
  shows "keeps always kept (processMessage M model core now w mb msg)"
  using assms by (auto simp: named_ids_def processMessage_def Let_def intro!: keeps_bounce keeps_report keeps_reply)

end

subsection \<open>Outcomes that last\<close>

locale inbox_contract = inbox_frame core kept w "\<lambda>_. always" always trusted
  for core :: "'s inbox_core" and kept :: "'s \<Rightarrow> 's \<Rightarrow> bool" and w :: string and trusted :: bool +
  fixes suppressed :: "string \<Rightarrow> 's \<Rightarrow> bool"
    and halted :: "string \<Rightarrow> 's \<Rightarrow> bool"
  assumes find_stable: "kept s s' \<Longrightarrow> FindSendByMessageID core w i s' = FindSendByMessageID core w i s"
    and label_stable: "kept s s' \<Longrightarrow> resolveReplyLabel core w k s' = resolveReplyLabel core w k s"
    and suppressed_stays: "suppressed e s \<Longrightarrow> kept s s' \<Longrightarrow> suppressed e s'"
    and halted_stays: "halted i s \<Longrightarrow> kept s s' \<Longrightarrow> halted i s'"
    and unsubscribed_law: "MarkUnsubscribed core i w e s = (Inr u, s') \<Longrightarrow>
        suppressed e s' \<and> (i \<noteq> [] \<longrightarrow> halted i s')"
    and replied_law: "MarkReplied core i w cls src conf s = (Inr u, s') \<Longrightarrow> i \<noteq> [] \<Longrightarrow> halted i s'"
    and bounced_law: "MarkBounced core i w e True s = (Inr u, s') \<Longrightarrow>
        suppressed e s' \<and> (i \<noteq> [] \<longrightarrow> halted i s')"
begin

lemma keeps_pass: "(\<And>m. keeps always kept (f m)) \<Longrightarrow> keeps always kept (process_all f ms)"
proof (induction ms)
  case (Cons m ms)
  then show ?case using keeps_bind_always [of "f m" "\<lambda>_. process_all f ms"] by (simp add: keeps_def)
qed (simp add: keeps_def kept_refl)

text \<open>A pass that completes has run every message, and kept what each left.\<close>

lemma pass_reaches:
  assumes "\<And>m. keeps always kept (f m)" and "process_all f ms s = (Inr (), s')" and "m \<in> set ms"
  shows "\<exists>s1 p s2. kept s s1 \<and> f m s1 = (Inr p, s2) \<and> kept s2 s'"
  using assms(2,3)
proof (induction ms arbitrary: s)
  case (Cons m0 ms)
  then obtain p s1 where first: "f m0 s = (Inr p, s1)" and rest: "process_all f ms s1 = (Inr (), s')"
    by (auto simp: bind_act_Inr)
  have "kept s s1" using keepsD [OF assms(1) _ first] by simp
  have "kept s1 s'" using keepsD [OF keeps_pass [OF assms(1)] _ rest] by simp
  show ?case
  proof (cases "m = m0")
    case True
    with first \<open>kept s1 s'\<close> kept_refl [of s] show ?thesis by blast
  next
    case False
    with Cons.prems(2) have "m \<in> set ms" by simp
    from Cons.IH [OF rest this] \<open>kept s s1\<close> show ?thesis using kept_trans by blast
  qed
qed simp

lemma matched_stable: "kept s s' \<Longrightarrow> first_match core w ids s' = first_match core w ids s"
  by (induction ids) (auto simp: find_stable split: sum.split)

text \<open>A message that was processed and is attributed to a send was dispatched for it.\<close>

lemma reply_dispatched:
  assumes "process_reply M model core now w msg ids s = (Inr p, s')" and "first_match core w ids s = Some ref"
  shows "\<exists>s1. kept s s1 \<and> reply_dispatch (dispatch_of M model core now w msg ref) s1 = (Inr p, s')"
  using reply_stored [OF assms] keepsD [OF keeps_stored] by blast

lemma unsubscribe_done:
  assumes "unsubscribe d s = (Inr p, s')" and "here d ref"
  shows "suppressed (sr_contact_email ref) s' \<and> (sr_enrollment ref \<noteq> [] \<longrightarrow> halted (sr_enrollment ref) s')"
  using assms unsubscribed_law by (auto simp: unsubscribe_def bind_act_Inr pure_Inr)

lemma dispatched_opt_out:
  assumes "reply_dispatch (dispatch_of M model core now w msg ref) s = (Inr p, s')"
    and "LooksLikeUnsubscribe M (reply_input_of msg)"
    and "\<And>l. resolveReplyLabel core w (rr_class (Classify M model (reply_input_of msg))) s = Some l \<Longrightarrow> honours_opt_out l"
  shows "suppressed (sr_contact_email ref) s' \<and> (sr_enrollment ref \<noteq> [] \<longrightarrow> halted (sr_enrollment ref) s')"
proof -
  let ?d = "dispatch_of M model core now w msg ref"
  have "unsubscribe ?d s = (Inr p, s')"
  proof (cases "resolveReplyLabel core w (rr_class (Classify M model (reply_input_of msg))) s")
    case None
    with assms(1) Classify_opt_out [OF assms(2), of model] assms(2) show ?thesis
      by (auto simp: reply_dispatch_def byClass_def split: if_splits)
  next
    case (Some l)
    with assms(1) assms(3) [OF Some] assms(2) show ?thesis
      by (auto simp: reply_dispatch_def byLabel_def honours_opt_out_def)
  qed
  from unsubscribe_done [OF this] show ?thesis by simp
qed

lemma replied_done:
  assumes "bind_act (mark_replied d) (\<lambda>_. bind_act (captureDeal b d) k) s = (Inr p, s')" "\<And>x. keeps always kept (k x)"
    and "here d ref" "trusted" "sr_enrollment ref \<noteq> []"
  shows "halted (sr_enrollment ref) s'"
proof -
  from assms(1) obtain u s1 where m: "mark_replied d s = (Inr u, s1)"
    "bind_act (captureDeal b d) k s1 = (Inr p, s')" by (auto simp: bind_act_Inr)
  have "kept s1 s'" using keepsD [OF keeps_bind_always [OF keeps_capture [OF assms(4,3)] assms(2)] _ m(2)] by simp
  moreover have "halted (sr_enrollment ref) s1"
    using m(1) assms(3,5) replied_law by (auto simp: mark_replied_def)
  ultimately show ?thesis using halted_stays by blast
qed

lemma dispatched_human:
  assumes "reply_dispatch (dispatch_of M model core now w msg ref) s = (Inr p, s')"
    and "\<not> IsAutomated (rr_class (Classify M model (reply_input_of msg)))"
    and "\<And>l. resolveReplyLabel core w (rr_class (Classify M model (reply_input_of msg))) s = Some l \<Longrightarrow> ends_sequence l"
    and "trusted" "sr_enrollment ref \<noteq> []"
  shows "halted (sr_enrollment ref) s'"
proof -
  let ?d = "dispatch_of M model core now w msg ref"
  have marked: "halted (sr_enrollment ref) s'"
    if "bind_act (mark_replied ?d) (\<lambda>_. bind_act (captureDeal b ?d) (\<lambda>_. pure x)) s = (Inr p, s')" for b x
    using replied_done [OF that keeps_pure _ assms(4)] assms(5) by simp
  have off: "pure () = captureDeal False ?d" by (simp add: captureDeal_def)
  consider (opt_out) "unsubscribe ?d s = (Inr p, s')"
    | (human) b x where "bind_act (mark_replied ?d) (\<lambda>_. bind_act (captureDeal b ?d) (\<lambda>_. pure x)) s = (Inr p, s')"
  proof (cases "resolveReplyLabel core w (rr_class (Classify M model (reply_input_of msg))) s")
    case None
    with assms(1,2) that show thesis
      unfolding reply_dispatch_def byClass_def off by (auto split: if_splits)
  next
    case (Some l)
    with assms(1) assms(3) [OF Some] that show thesis
      by (auto simp: reply_dispatch_def byLabel_def ends_sequence_def split: if_splits)
  qed
  then show ?thesis
  proof cases
    case opt_out
    from unsubscribe_done [OF this] assms(5) show ?thesis by simp
  qed (rule marked)
qed

end

end
