(* ===== verification/Inbox_Core.thy ===== *)
theory Inbox_Core
  imports Reply_Dispatch Breaker_Service
begin

text \<open>
  The control plane's side of an inbound message (\<open>internal/coreapi/inprocess/inboxpoll.go\<close>, \<open>inbox.go\<close>,
  \<open>complaint.go\<close>, \<open>replylabel.go\<close>, \<open>localDeferEnrollment\<close> in \<open>stepsendjob.go\<close>) with the store of
  conversations (\<open>internal/app/inbox\<close>) and the lookup of a label (\<open>internal/app/replylabel\<close>), on the tables
  of \<open>Breaker_Service\<close>.

  \<open>ie_now\<close> is the application's clock, \<open>ie_nowdb\<close> the database's, \<open>ie_new_id\<close> the id the database draws for
  a new thread. Two capabilities are parameters: the warmup participant's hard bounce and the deal opened
  in the CRM. The confidence of a class, which no statement reads, is not kept; events for open tabs and
  webhooks are left out.
\<close>

record inbox_env =
  ie_guard :: guard_env
  ie_lib :: lib
  ie_flt :: faults
  ie_now :: instant
  ie_nowdb :: instant
  ie_new_id :: "guard_db \<Rightarrow> uuid"
  ie_warmup_bounce :: "(string \<Rightarrow> string \<Rightarrow> string \<Rightarrow> (guard_db, bool) act) option"
  ie_crm :: "(CRMReplyInput \<Rightarrow> (guard_db, unit) act) option"

subsection \<open>Statements in sequence\<close>

definition parsed :: "inbox_env \<Rightarrow> string \<Rightarrow> (guard_db, uuid) act" where
  "parsed E x s = (case uuid_Parse (ie_lib E) x of None \<Rightarrow> (Inl (ErrCore ErrParse), s) | Some i \<Rightarrow> (Inr i, s))"

definition stmt :: "inbox_env \<Rightarrow> string \<Rightarrow> (guard_db \<Rightarrow> guard_db) \<Rightarrow> (guard_db, unit) act" where
  "stmt E name f s = (case ie_flt E name of Some e \<Rightarrow> (Inl (ErrCore (ErrDb e)), s) | None \<Rightarrow> (Inr (), f s))"

definition core_act :: "(db \<Rightarrow> (core_error + 'a) \<times> db) \<Rightarrow> (guard_db, 'a) act" where
  "core_act f s =
     (let (r, d) = f (jd_core (gd_jobs s)) in
      (case r of Inl e \<Rightarrow> Inl (ErrCore e) | Inr x \<Rightarrow> Inr x, s\<lparr>gd_jobs := on_core (\<lambda>_. d) (gd_jobs s)\<rparr>))"

definition on_enrollment_rows :: "(enrollment list \<Rightarrow> enrollment list) \<Rightarrow> guard_db \<Rightarrow> guard_db" where
  "on_enrollment_rows f s =
     s\<lparr>gd_jobs := on_core (\<lambda>d. d\<lparr>db_enrollments := f (db_enrollments d)\<rparr>) (gd_jobs s)\<rparr>"

subsection \<open>Attributing a message\<close>

definition GetSendByMessageID :: "uuid \<Rightarrow> string \<Rightarrow> guard_db \<Rightarrow> (send \<times> uuid option) option" where
  "GetSendByMessageID ws mid s =
     (case sort_key (\<lambda>r. - sd_created_at r)
             (filter (\<lambda>r. sd_ws r = ws \<and> sd_message_id r = mid \<and> sd_message_id r \<noteq> [])
               (db_sends (jd_core (gd_jobs s)))) of
        [] \<Rightarrow> None
      | r # _ \<Rightarrow> Some (r, map_option en_id
          (select_one (\<lambda>e. en_campaign e = sd_campaign r \<and> en_contact e = sd_contact r)
            (db_enrollments (jd_core (gd_jobs s))))))"

definition enrollmentRefID :: "inbox_env \<Rightarrow> uuid option \<Rightarrow> string" where
  "enrollmentRefID E i = (case i of None \<Rightarrow> [] | Some j \<Rightarrow> uuid_String (ie_lib E) j)"

definition localFindSendByMessageID ::
  "inbox_env \<Rightarrow> string \<Rightarrow> string \<Rightarrow> guard_db \<Rightarrow> inbox_error + SendRef" where
  "localFindSendByMessageID E workspaceID messageID s =
     (case uuid_Parse (ie_lib E) workspaceID of
        None \<Rightarrow> Inl (ErrCore ErrParse)
      | Some ws \<Rightarrow>
          (case ie_flt E ''GetSendByMessageID'' of
             Some e \<Rightarrow> Inl (ErrCore (ErrDb e))
           | None \<Rightarrow>
               (case GetSendByMessageID ws messageID s of
                  None \<Rightarrow> Inl ErrNoMatch
                | Some (r, i) \<Rightarrow> let text = uuid_String (ie_lib E) in
                    Inr \<lparr>sr_send = text (sd_id r), sr_enrollment = enrollmentRefID E i,
                         sr_contact_email = sd_to_email r, sr_mailbox = text (sd_mailbox r),
                         sr_campaign = text (sd_campaign r), sr_contact = text (sd_contact r),
                         sr_message_id = sd_message_id r\<rparr>)))"

subsection \<open>Outcomes\<close>

definition nilIfEmpty :: "string \<Rightarrow> string option" where
  "nilIfEmpty s = (if s = [] then None else Some s)"

definition SetEnrollmentReplyClass ::
  "instant \<Rightarrow> uuid \<Rightarrow> uuid \<Rightarrow> string option \<Rightarrow> string option \<Rightarrow> enrollment list \<Rightarrow> enrollment list" where
  "SetEnrollmentReplyClass now ws i cls source =
     update_where (is_row ws i) (\<lambda>e. e\<lparr>reply_class := cls, reply_source := source, replied_at := Some now\<rparr>)"

definition recordReplyClass :: "inbox_env \<Rightarrow> uuid \<Rightarrow> uuid \<Rightarrow> string \<Rightarrow> string \<Rightarrow> (guard_db, unit) act" where
  "recordReplyClass E eid ws cls source =
     stmt E ''SetEnrollmentReplyClass''
       (on_enrollment_rows (SetEnrollmentReplyClass (ie_nowdb E) ws eid (nilIfEmpty cls) (nilIfEmpty source)))"

text \<open>Whether replies of a class are automated: as its label says, or the two built in ones.\<close>

definition automated_key :: "uuid \<Rightarrow> string \<Rightarrow> job_db \<Rightarrow> bool" where
  "automated_key ws key j =
     (case select_one (\<lambda>l. rl_ws l = ws \<and> rl_key l = key) (jd_labels j) of
        Some l \<Rightarrow> rl_is_automated l
      | None \<Rightarrow> key = ''auto_reply'' \<or> key = ''out_of_office'')"

definition awaits_reply :: "job_db \<Rightarrow> enrollment \<Rightarrow> bool" where
  "awaits_reply j e \<longleftrightarrow>
     list_ex (\<lambda>b. bw_campaign b = en_campaign e \<and> bw_ws b = en_ws e
       \<and> (bw_condition b = ''replied'' \<or> bw_condition b = ''not_replied'')
       \<and> list_ex (\<lambda>st. st_id st = bw_step b \<and> st_campaign st = bw_campaign b \<and> st_order st = current_step e)
           (jd_steps j)) (jd_branches j)"

definition NudgeEnrollmentAwaitingReply :: "instant \<Rightarrow> uuid \<Rightarrow> uuid \<Rightarrow> string \<Rightarrow> guard_db \<Rightarrow> guard_db" where
  "NudgeEnrollmentAwaitingReply now ws i cls s =
     on_enrollment_rows (update_where
       (\<lambda>e. active_row ws i e \<and> (case next_due_at e of None \<Rightarrow> False | Some d \<Rightarrow> now < d)
          \<and> awaiting_condition_step e = Some (current_step e)
          \<and> \<not> automated_key (en_ws e) cls (gd_jobs s) \<and> awaits_reply (gd_jobs s) e)
       (\<lambda>e. e\<lparr>next_due_at := Some now\<rparr>)) s"

definition localMarkReplied ::
  "inbox_env \<Rightarrow> string \<Rightarrow> string \<Rightarrow> string \<Rightarrow> string \<Rightarrow> float64 \<Rightarrow> (guard_db, unit) act" where
  "localMarkReplied E enrollmentID workspaceID cls source conf =
     (if enrollmentID = [] then pure ()
      else
        bind_act (parsed E enrollmentID) (\<lambda>eid.
        bind_act (parsed E workspaceID) (\<lambda>ws.
        bind_act (core_act (on_enrollments (MarkStepStopped (PgStore (ie_flt E) (ie_nowdb E)) ws eid StopReplied)))
          (\<lambda>_. recordReplyClass E eid ws cls source))))"

definition localRecordReplyClass ::
  "inbox_env \<Rightarrow> string \<Rightarrow> string \<Rightarrow> string \<Rightarrow> string \<Rightarrow> float64 \<Rightarrow> (guard_db, unit) act" where
  "localRecordReplyClass E enrollmentID workspaceID cls source conf =
     (if enrollmentID = [] then pure ()
      else
        bind_act (parsed E enrollmentID) (\<lambda>eid.
        bind_act (parsed E workspaceID) (\<lambda>ws.
        bind_act (recordReplyClass E eid ws cls source) (\<lambda>_.
          stmt E ''NudgeEnrollmentAwaitingReply'' (NudgeEnrollmentAwaitingReply (ie_nowdb E) ws eid cls)))))"

definition suppress :: "inbox_env \<Rightarrow> uuid \<Rightarrow> string \<Rightarrow> (guard_db, unit) act" where
  "suppress E ws email = stmt E ''AddSuppression'' (AddSuppression (ge_sql_lower (ie_guard E)) ws email)"

definition localMarkUnsubscribed :: "inbox_env \<Rightarrow> string \<Rightarrow> string \<Rightarrow> string \<Rightarrow> (guard_db, unit) act" where
  "localMarkUnsubscribed E enrollmentID workspaceID email =
     bind_act (parsed E workspaceID) (\<lambda>ws.
     bind_act (suppress E ws email) (\<lambda>_.
       if enrollmentID = [] then pure ()
       else
         bind_act (parsed E enrollmentID) (\<lambda>eid.
         bind_act (core_act (on_enrollments
           (MarkStepStopped (PgStore (ie_flt E) (ie_nowdb E)) ws eid StopUnsubscribed))) (\<lambda>_.
           recordReplyClass E eid ws ''unsubscribe'' []))))"

definition localMarkBounced :: "inbox_env \<Rightarrow> string \<Rightarrow> string \<Rightarrow> string \<Rightarrow> bool \<Rightarrow> (guard_db, unit) act" where
  "localMarkBounced E enrollmentID workspaceID email hard =
     (if \<not> hard then pure ()
      else
        bind_act (parsed E workspaceID) (\<lambda>ws.
        bind_act
          (if enrollmentID = [] then pure ()
           else bind_act (parsed E enrollmentID) (\<lambda>eid.
             core_act (on_enrollments (MarkStepStopped (PgStore (ie_flt E) (ie_nowdb E)) ws eid StopBounced))))
          (\<lambda>_. suppress E ws email)))"

subsection \<open>Complaints and labels\<close>

definition localIngestComplaint :: "inbox_env \<Rightarrow> ComplaintInput \<Rightarrow> (guard_db, unit) act" where
  "localIngestComplaint E c =
     bind_act (parsed E (ci_workspace c)) (\<lambda>ws.
       if ci_send c = [] then (\<lambda>s. (Inl (ErrIngest ''ingest complaint: send id is required''), s))
       else
         bind_act (parsed E (ci_send c)) (\<lambda>sid s.
           case Ingest (ie_guard E) (ie_flt E) (ie_now E) (ie_nowdb E) ws
                  \<lparr>ei_kind = EventKindComplaint, ei_email = ci_email c, ei_provider_event_id = ci_event_id c,
                   ei_send = Some sid, ei_bounce_class = []\<rparr> s of
             (Inl e, s') \<Rightarrow>
               (Inl (if e = ErrInvalid then ErrInvalidComplaint else ErrIngest ''ingest complaint''), s')
           | (Inr _, s') \<Rightarrow> (Inr (), s')))"

definition GetReplyLabelByKey :: "uuid \<Rightarrow> string \<Rightarrow> guard_db \<Rightarrow> reply_label option" where
  "GetReplyLabelByKey ws key s = select_one (\<lambda>l. rl_ws l = ws \<and> rl_key l = key) (jd_labels (gd_jobs s))"

text \<open>The labels a workspace starts with: key, and whether it stops, is automated, suppresses, captures and
  defers. Seeding keeps a label already there.\<close>

definition seed_rows :: "uuid \<Rightarrow> reply_label list" where
  "seed_rows ws =
     map (\<lambda>(key, stops, automated, suppresses, captures, defers).
       \<lparr>rl_ws = ws, rl_key = key, rl_is_automated = automated, rl_stops_enrollment = stops,
        rl_suppresses_contact = suppresses, rl_captures_deal = captures, rl_defers_enrollment = defers\<rparr>)
      [(''positive'', True, False, False, True, False),
       (''negative'', True, False, False, False, False),
       (''neutral'', True, False, False, False, False),
       (''unsubscribe'', True, False, True, False, False),
       (''out_of_office'', False, True, False, False, False),
       (''auto_reply'', False, True, False, False, False),
       (''unknown'', True, False, False, False, False)]"

definition seed_reply_labels :: "uuid \<Rightarrow> reply_label list \<Rightarrow> reply_label list" where
  "seed_reply_labels ws ls =
     ls @ filter (\<lambda>l. \<not> list_ex (\<lambda>l'. rl_ws l' = ws \<and> rl_key l' = rl_key l) ls) (seed_rows ws)"

definition Resolve_label :: "faults \<Rightarrow> uuid \<Rightarrow> string \<Rightarrow> guard_db \<Rightarrow> inbox_error + reply_label option" where
  "Resolve_label flt ws key0 s =
     (let key = TrimSpace key0 in
      if key = [] then Inr None
      else case flt ''GetReplyLabelByKey'' of
             Some e \<Rightarrow> Inl (ErrCore (ErrDb e))
           | None \<Rightarrow> Inr (GetReplyLabelByKey ws key s))"

definition localResolveReplyLabel ::
  "inbox_env \<Rightarrow> string \<Rightarrow> string \<Rightarrow> guard_db \<Rightarrow> inbox_error + ReplyLabel option" where
  "localResolveReplyLabel E workspaceID key s =
     (case uuid_Parse (ie_lib E) workspaceID of
        None \<Rightarrow> Inl (ErrCore ErrParse)
      | Some ws \<Rightarrow>
          (case Resolve_label (ie_flt E) ws key s of
             Inl e \<Rightarrow> Inl e
           | Inr None \<Rightarrow> Inr None
           | Inr (Some r) \<Rightarrow>
               Inr (Some \<lparr>lb_key = rl_key r, lb_stops = rl_stops_enrollment r, lb_automated = rl_is_automated r,
                          lb_suppresses = rl_suppresses_contact r, lb_captures = rl_captures_deal r,
                          lb_defers = rl_defers_enrollment r\<rparr>)))"

subsection \<open>The conversation\<close>

record UpsertThreadInput =
  ut_ws :: uuid
  ut_mailbox :: uuid
  ut_campaign :: "uuid option"
  ut_contact :: "uuid option"
  ut_root :: string
  ut_subject :: string
  ut_last_class :: string

record InsertMessageInput =
  ms_thread :: uuid
  ms_ws :: uuid
  ms_direction :: string
  ms_message_id :: string
  ms_from_email :: string
  ms_from_name :: string
  ms_to_email :: string
  ms_subject :: string
  ms_body_text :: string
  ms_body_html :: string
  ms_reply_class :: string
  ms_occurred_at :: instant

text \<open>The key of the partial unique index: a thread without a root message conflicts with none.\<close>

definition same_root :: "UpsertThreadInput \<Rightarrow> inbox_thread \<Rightarrow> bool" where
  "same_root i t \<longleftrightarrow>
     ut_root i \<noteq> [] \<and> th_ws t = ut_ws i \<and> th_mailbox t = ut_mailbox i \<and> th_root_message_id t = ut_root i"

text \<open>\<open>None\<close> is the primary key, an id drawn twice.\<close>

definition UpsertInboxThread ::
  "instant \<Rightarrow> uuid \<Rightarrow> UpsertThreadInput \<Rightarrow> inbox_thread list \<Rightarrow> (inbox_thread \<times> inbox_thread list) option" where
  "UpsertInboxThread now fresh i ts =
     (let bump = (\<lambda>t. t\<lparr>th_last_reply_class := ut_last_class i, th_last_message_at := now, th_unread := True\<rparr>) in
      case select_one (same_root i) ts of
        Some t \<Rightarrow> Some (bump t, update_where (same_root i) bump ts)
      | None \<Rightarrow>
          if list_ex (\<lambda>t. th_id t = fresh) ts then None
          else
            let t = \<lparr>th_id = fresh, th_ws = ut_ws i, th_mailbox = ut_mailbox i, th_campaign = ut_campaign i,
                     th_contact = ut_contact i, th_root_message_id = ut_root i, th_subject = ut_subject i,
                     th_last_reply_class = ut_last_class i, th_unread = True, th_last_message_at = now\<rparr>
            in Some (t, ts @ [t]))"

text \<open>\<open>None\<close> is the NOT NULL of the mailbox, read off the thread.\<close>

definition InsertInboxMessage ::
  "instant \<Rightarrow> InsertMessageInput \<Rightarrow> inbox_thread list \<Rightarrow> inbox_message list \<Rightarrow> inbox_message list option" where
  "InsertInboxMessage now i ts ms =
     (case select_one (\<lambda>t. th_id t = ms_thread i \<and> th_ws t = ms_ws i) ts of
        None \<Rightarrow> None
      | Some t \<Rightarrow>
          if list_ex (\<lambda>m. ms_message_id i \<noteq> [] \<and> im_ws m = ms_ws i \<and> im_message_id m = ms_message_id i) ms
          then Some ms
          else Some (ms @ [\<lparr>im_ws = ms_ws i, im_thread = ms_thread i, im_direction = ms_direction i,
                  im_mailbox = th_mailbox t, im_message_id = ms_message_id i, im_from_email = ms_from_email i,
                  im_from_name = ms_from_name i, im_to_email = ms_to_email i, im_subject = ms_subject i,
                  im_body_text = ms_body_text i, im_body_html = ms_body_html i,
                  im_reply_class = ms_reply_class i, im_occurred_at = Some (ms_occurred_at i),
                  im_created_at = now\<rparr>]))"

text \<open>\<open>RecordReply\<close> of the store: one transaction.\<close>

definition record_in_tx ::
  "inbox_env \<Rightarrow> UpsertThreadInput \<Rightarrow> InsertMessageInput \<Rightarrow> (guard_db, inbox_thread) act" where
  "record_in_tx E threadIn msgIn s =
     (case ie_flt E ''begin'' of
        Some e \<Rightarrow> (Inl (ErrCore (ErrDb e)), s)
      | None \<Rightarrow>
     (case ie_flt E ''UpsertInboxThread'' of
        Some e \<Rightarrow> (Inl (ErrCore (ErrDb e)), s)
      | None \<Rightarrow>
     (case UpsertInboxThread (ie_nowdb E) (ie_new_id E s) threadIn (jd_threads (gd_jobs s)) of
        None \<Rightarrow> (Inl (ErrCore (ErrDb ''unique violation'')), s)
      | Some (th, ts) \<Rightarrow>
     (case ie_flt E ''InsertInboxMessage'' of
        Some e \<Rightarrow> (Inl (ErrCore (ErrDb e)), s)
      | None \<Rightarrow>
     (case InsertInboxMessage (ie_nowdb E) (msgIn\<lparr>ms_thread := th_id th, ms_ws := ut_ws threadIn\<rparr>) ts
             (jd_messages (gd_jobs s)) of
        None \<Rightarrow> (Inl (ErrCore (ErrDb ''not null violation'')), s)
      | Some ms \<Rightarrow>
     (case ie_flt E ''commit'' of
        Some e \<Rightarrow> (Inl (ErrCore (ErrDb e)), s)
      | None \<Rightarrow> (Inr th, s\<lparr>gd_jobs := (gd_jobs s)\<lparr>jd_threads := ts, jd_messages := ms\<rparr>\<rparr>)))))))"

definition RecordReply ::
  "inbox_env \<Rightarrow> UpsertThreadInput \<Rightarrow> InsertMessageInput \<Rightarrow> (guard_db, inbox_thread) act" where
  "RecordReply E threadIn msgIn =
     (if ut_ws threadIn = uuid_Nil \<or> ut_mailbox threadIn = uuid_Nil
         \<or> (ms_direction msgIn \<noteq> ''inbound'' \<and> ms_direction msgIn \<noteq> ''outbound'')
      then (\<lambda>s. (Inl (ErrCore (ErrOther ''inbox: invalid input'')), s))
      else record_in_tx E threadIn msgIn)"

definition optionalUUID :: "inbox_env \<Rightarrow> string option \<Rightarrow> (guard_db, uuid option) act" where
  "optionalUUID E i = (case i of None \<Rightarrow> pure None | Some x \<Rightarrow> bind_act (parsed E x) (\<lambda>u. pure (Some u)))"

definition localStoreInboundMessage :: "inbox_env \<Rightarrow> InboxMessageInput \<Rightarrow> (guard_db, unit) act" where
  "localStoreInboundMessage E i =
     bind_act (parsed E (mi_workspace i)) (\<lambda>ws.
     bind_act (parsed E (mi_mailbox i)) (\<lambda>mb.
     bind_act (optionalUUID E (mi_campaign i)) (\<lambda>c.
     bind_act (optionalUUID E (mi_contact i)) (\<lambda>ct.
     bind_act (RecordReply E
         \<lparr>ut_ws = ws, ut_mailbox = mb, ut_campaign = c, ut_contact = ct, ut_root = mi_root i,
          ut_subject = mi_subject i, ut_last_class = mi_reply_class i\<rparr>
         \<lparr>ms_thread = 0, ms_ws = 0, ms_direction = ''inbound'', ms_message_id = mi_message_id i,
          ms_from_email = mi_from_email i, ms_from_name = mi_from_name i, ms_to_email = mi_to_email i,
          ms_subject = mi_subject i, ms_body_text = mi_body_text i, ms_body_html = mi_body_html i,
          ms_reply_class = mi_reply_class i, ms_occurred_at = mi_occurred_at i\<rparr>)
       (\<lambda>_. pure ())))))"

subsection \<open>The client\<close>

definition PgInbox :: "inbox_env \<Rightarrow> guard_db inbox_core" where
  "PgInbox E =
     \<lparr>FindSendByMessageID = localFindSendByMessageID E, MarkBounced = localMarkBounced E,
      MarkReplied = localMarkReplied E, MarkUnsubscribed = localMarkUnsubscribed E,
      RecordReplyClass = localRecordReplyClass E,
      DeferEnrollment = (\<lambda>i w until. core_act (localDeferEnrollment (ie_lib E) (ie_flt E) (ie_nowdb E) i w until)),
      RecordWarmupHardBounce = ie_warmup_bounce E, IngestComplaint = Some (localIngestComplaint E),
      StoreInboundMessage = Some (localStoreInboundMessage E),
      ResolveReplyLabel = Some (localResolveReplyLabel E), CaptureCRMReply = ie_crm E\<rparr>"

end
