(* ===== verification/Inbox_Calls.thy ===== *)
theory Inbox_Calls
  imports Inbox_Contract Inbox_Core Breaker_Facts
begin

text \<open>
  The calls of the program's control plane within the contracts of \<open>Inbox_Contract\<close>. \<open>pg_frame\<close> reduces a
  call to the effect of its statements on the tables, for any relation that those effects keep; two
  relations do: \<open>kept_db\<close>, by which nothing settled is lost, and \<open>confined\<close>, by which a message touches only
  the recipients of the sends it names.
\<close>

subsection \<open>The tables\<close>

abbreviation enr :: "guard_db \<Rightarrow> enrollment list" where "enr s \<equiv> db_enrollments (jd_core (gd_jobs s))"
abbreviation snds :: "guard_db \<Rightarrow> send list" where "snds s \<equiv> db_sends (jd_core (gd_jobs s))"
abbreviation supp :: "guard_db \<Rightarrow> (uuid \<times> string) set" where "supp s \<equiv> set (jd_suppression (gd_jobs s))"
abbreviation talk :: "guard_db \<Rightarrow> inbox_thread list \<times> inbox_message list" where
  "talk s \<equiv> (jd_threads (gd_jobs s), jd_messages (gd_jobs s))"

lemma enrollment_rows_simps [simp]:
  "enr (on_enrollment_rows f s) = f (enr s)" "snds (on_enrollment_rows f s) = snds s"
  "supp (on_enrollment_rows f s) = supp s" "talk (on_enrollment_rows f s) = talk s"
  "jd_labels (gd_jobs (on_enrollment_rows f s)) = jd_labels (gd_jobs s)"
  by (simp_all add: on_enrollment_rows_def on_core_def)

definition same_key :: "enrollment \<Rightarrow> enrollment \<Rightarrow> bool" where
  "same_key e e' \<longleftrightarrow> en_id e' = en_id e \<and> en_ws e' = en_ws e \<and> en_campaign e' = en_campaign e
     \<and> en_contact e' = en_contact e"

text \<open>A row keeps its key and, once it has ended, how it ended and where.\<close>

definition settled :: "enrollment \<Rightarrow> enrollment \<Rightarrow> bool" where
  "settled e e' \<longleftrightarrow> same_key e e' \<and>
     (en_status e \<noteq> StatusActive \<longrightarrow> en_status e' = en_status e \<and> stop_reason e' = stop_reason e
        \<and> current_step e' = current_step e \<and> next_due_at e' = next_due_at e)"

lemma settled_refl: "settled e e"
  by (simp add: settled_def same_key_def)

lemma settled_trans: "settled a b \<Longrightarrow> settled b c \<Longrightarrow> settled a c"
  by (auto simp: settled_def same_key_def)

lemma all2_update_where:
  "(\<And>e. Q e e) \<Longrightarrow> (\<And>e. p e \<Longrightarrow> Q e (f e)) \<Longrightarrow> list_all2 Q es (update_where p f es)"
  by (induction es) auto

text \<open>A relation between rows lifts to the first row a stable condition selects.\<close>

lemma select_one_all2:
  assumes "list_all2 Q es es'" and "\<And>e e'. Q e e' \<Longrightarrow> p e' = p e"
  shows "rel_option Q (select_one p es) (select_one p es')"
  using assms(1) by (induction rule: list_all2_induct) (auto simp: assms(2))

lemma stop_act:
  "core_act (on_enrollments (MarkStepStopped (PgStore (ie_flt E) now) ws i reason))
     = stmt E ''StopEnrollment'' (on_enrollment_rows (StopEnrollment now ws i reason))"
  by (rule ext) (simp add: core_act_def on_enrollments_def MarkStepStopped_def PgStore_def exec_stmt_def stmt_def
      on_enrollment_rows_def on_core_def split: option.split)

lemma defer_act:
  "core_act (localDeferEnrollment (ie_lib E) (ie_flt E) now i w until)
     = bind_act (parsed E i) (\<lambda>eid. bind_act (parsed E w) (\<lambda>ws.
         stmt E ''SetEnrollmentDue'' (on_enrollment_rows (SetEnrollmentDue ws eid (Some until)))))"
  by (rule ext) (simp add: core_act_def on_enrollments_def localDeferEnrollment_def Reschedule_def PgStore_def
      exec_stmt_def stmt_def on_enrollment_rows_def on_core_def bind_act_def parsed_def split: option.split)

subsection \<open>From statements to calls\<close>

locale pg_frame =
  fixes E :: inbox_env
    and R :: "guard_db \<Rightarrow> guard_db \<Rightarrow> bool"
    and w :: string
    and ok :: "SendRef \<Rightarrow> guard_db \<Rightarrow> bool"
  assumes R_refl: "R s s"
    and R_trans: "R a b \<Longrightarrow> R b c \<Longrightarrow> R a c"
    and ok_stays: "R s s' \<Longrightarrow> ok ref s \<Longrightarrow> ok ref s'"
    and row_law: "ok ref s \<Longrightarrow> sr_enrollment ref \<noteq> [] \<Longrightarrow> uuid_Parse (ie_lib E) (sr_enrollment ref) = Some i \<Longrightarrow>
        uuid_Parse (ie_lib E) w = Some ws \<Longrightarrow> (\<And>e. p e \<Longrightarrow> is_row ws i e \<and> settled e (f e)) \<Longrightarrow>
        R s (on_enrollment_rows (update_where p f) s)"
    and suppress_law: "ok ref s \<Longrightarrow> uuid_Parse (ie_lib E) w = Some ws \<Longrightarrow>
        R s (AddSuppression (ge_sql_lower (ie_guard E)) ws (sr_contact_email ref) s)"
    and ingest_law: "ok ref s \<Longrightarrow> uuid_Parse (ie_lib E) w = Some ws \<Longrightarrow> ei_email ev = sr_contact_email ref \<Longrightarrow>
        R s (snd (Ingest (ie_guard E) (ie_flt E) (ie_now E) (ie_nowdb E) ws ev s))"
    and talk_law: "UpsertInboxThread (ie_nowdb E) (ie_new_id E s) ti (jd_threads (gd_jobs s)) = Some (th, ts) \<Longrightarrow>
        ms_ws mi = ut_ws ti \<Longrightarrow> ms_thread mi = th_id th \<Longrightarrow>
        InsertInboxMessage (ie_nowdb E) mi ts (jd_messages (gd_jobs s)) = Some ms \<Longrightarrow>
        R s (s\<lparr>gd_jobs := (gd_jobs s)\<lparr>jd_threads := ts, jd_messages := ms\<rparr>\<rparr>)"
begin

lemma keeps_stmt: "(\<And>s. P s \<Longrightarrow> R s (f s)) \<Longrightarrow> keeps P R (stmt E name f)"
  by (auto simp: keeps_def stmt_def R_refl split: option.split)

lemma keeps_unit: "keeps P R (pure x)"
  by (simp add: keeps_def pure_def R_refl)

lemma keeps_then: "keeps (ok ref) R a \<Longrightarrow> (\<And>x. keeps (ok ref) R (k x)) \<Longrightarrow> keeps (ok ref) R (bind_act a k)"
  by (rule keeps_seq [of R "ok ref"]) (blast intro: R_trans ok_stays)+

lemma keeps_parse:
  "(\<And>i. uuid_Parse (ie_lib E) x = Some i \<Longrightarrow> keeps P R (k i)) \<Longrightarrow> keeps P R (bind_act (parsed E x) k)"
  by (auto simp: keeps_def bind_act_def parsed_def R_refl split: option.split)

lemma keeps_stop:
  assumes "uuid_Parse (ie_lib E) (sr_enrollment ref) = Some i" "uuid_Parse (ie_lib E) w = Some ws" "sr_enrollment ref \<noteq> []"
  shows "keeps (ok ref) R (stmt E name (on_enrollment_rows (StopEnrollment now ws i reason)))"
    and "keeps (ok ref) R (stmt E name (on_enrollment_rows (SetEnrollmentDue ws i due)))"
    and "keeps (ok ref) R (recordReplyClass E i ws cls src)"
    and "keeps (ok ref) R (stmt E name (NudgeEnrollmentAwaitingReply now ws i cls))"
  by (auto simp: recordReplyClass_def StopEnrollment_def SetEnrollmentDue_def SetEnrollmentReplyClass_def
      NudgeEnrollmentAwaitingReply_def active_row_def settled_def same_key_def
      intro!: keeps_stmt row_law [OF _ assms(3,1,2)])

lemma keeps_suppress: "uuid_Parse (ie_lib E) w = Some ws \<Longrightarrow> keeps (ok ref) R (suppress E ws (sr_contact_email ref))"
  by (auto simp: suppress_def intro!: keeps_stmt suppress_law)

lemma call_replied: "keeps (ok ref) R (localMarkReplied E (sr_enrollment ref) w cls src conf)"
  by (auto simp: localMarkReplied_def stop_act keeps_unit intro!: keeps_parse keeps_then keeps_stop)

lemma call_class: "keeps (ok ref) R (localRecordReplyClass E (sr_enrollment ref) w cls src conf)"
  by (auto simp: localRecordReplyClass_def keeps_unit intro!: keeps_parse keeps_then keeps_stop)

lemma call_unsubscribed: "keeps (ok ref) R (localMarkUnsubscribed E (sr_enrollment ref) w (sr_contact_email ref))"
  by (auto simp: localMarkUnsubscribed_def stop_act
      intro!: keeps_parse keeps_then keeps_stop keeps_suppress keeps_unit)

lemma call_bounced: "keeps (ok ref) R (localMarkBounced E (sr_enrollment ref) w (sr_contact_email ref) hard)"
  by (auto simp: localMarkBounced_def stop_act
      intro!: keeps_parse keeps_then keeps_stop keeps_suppress keeps_unit)

lemma call_defer:
  "sr_enrollment ref \<noteq> [] \<Longrightarrow>
     keeps (ok ref) R (core_act (localDeferEnrollment (ie_lib E) (ie_flt E) now (sr_enrollment ref) w until))"
  by (auto simp: defer_act intro!: keeps_parse keeps_stop)

lemma call_complaint: "keeps (ok ref) R (localIngestComplaint E (complaint_of w ref))"
proof -
  have "keeps (ok ref) R (\<lambda>s. case Ingest (ie_guard E) (ie_flt E) (ie_now E) (ie_nowdb E) ws c s of
      (Inl e, s') \<Rightarrow> (Inl (if e = ErrInvalid then ErrInvalidComplaint else ErrIngest ''ingest complaint''), s')
    | (Inr _, s') \<Rightarrow> (Inr (), s'))"
    if "uuid_Parse (ie_lib E) w = Some ws" "ei_email c = sr_contact_email ref" for ws c
    unfolding keeps_def
  proof (intro allI impI)
    fix s
    assume "ok ref s"
    from ingest_law [OF this that] show "R s (snd (case Ingest (ie_guard E) (ie_flt E) (ie_now E) (ie_nowdb E) ws c s of
      (Inl e, s') \<Rightarrow> (Inl (if e = ErrInvalid then ErrInvalidComplaint else ErrIngest ''ingest complaint''), s')
    | (Inr _, s') \<Rightarrow> (Inr (), s')))" by (auto split: prod.split sum.split)
  qed
  moreover have "keeps (ok ref) R (\<lambda>s. (x :: inbox_error + unit, s))" for x by (simp add: keeps_def R_refl)
  ultimately show ?thesis
    by (auto simp: localIngestComplaint_def complaint_of_def intro!: keeps_parse)
qed

lemma call_store: "keeps P R (localStoreInboundMessage E mi)"
proof -
  have tx: "keeps P R (record_in_tx E ti msgIn)" for ti msgIn
    by (auto simp: keeps_def record_in_tx_def R_refl intro!: talk_law split: option.split)
  have rest: "keeps P R (bind_act (RecordReply E ti msgIn) (\<lambda>_. pure ()))" for ti msgIn
    using tx [of ti msgIn] R_refl
    by (auto simp: keeps_def snd_bind_act RecordReply_def pure_def split: sum.split)
  have opt: "keeps P R (bind_act (optionalUUID E x) k)" if "\<And>u. keeps P R (k u)" for x k
    using that R_refl
    by (auto simp: keeps_def optionalUUID_def bind_act_def pure_def parsed_def split: option.split)
  show ?thesis
    unfolding localStoreInboundMessage_def by (intro keeps_parse opt rest)
qed

lemmas calls = call_replied call_class call_unsubscribed call_bounced call_defer call_complaint call_store

end

text \<open>What is promised of the two capabilities that are parameters.\<close>

definition externals_keep :: "inbox_env \<Rightarrow> (guard_db \<Rightarrow> guard_db \<Rightarrow> bool) \<Rightarrow> bool" where
  "externals_keep E R \<longleftrightarrow>
     (\<forall>f. ie_warmup_bounce E = Some f \<longrightarrow> (\<forall>w mid mb. keeps always R (f w mid mb)))
     \<and> (\<forall>f. ie_crm E = Some f \<longrightarrow> (\<forall>i. keeps always R (f i)))"

subsection \<open>What a reported complaint touches\<close>

text \<open>The suppression list gains at most this address; beyond that, campaigns, pauses and events.\<close>

definition touches :: "uuid \<Rightarrow> string \<Rightarrow> guard_db \<Rightarrow> guard_db \<Rightarrow> bool" where
  "touches ws em s s' \<longleftrightarrow> jd_core (gd_jobs s') = jd_core (gd_jobs s) \<and> talk s' = talk s
     \<and> jd_labels (gd_jobs s') = jd_labels (gd_jobs s)
     \<and> supp s \<subseteq> supp s' \<and> supp s' \<subseteq> insert (ws, em) (supp s)"

lemma touches_refl: "touches ws em s s"
  by (auto simp: touches_def)

lemma touches_trans: "touches ws em a b \<Longrightarrow> touches ws em b c \<Longrightarrow> touches ws em a c"
  by (auto simp: touches_def)

lemma breaker_touches: "EvaluateBreaker G flt now nowdb ws' c s = (r, s') \<Longrightarrow> touches ws em s s'"
  by (cases rule: EvaluateBreaker_cases)
    (auto simp: touches_def paused_db_def PauseCampaignForBreach_def on_campaigns_def)

lemma after_ingest_touches: "touches ws em s (evaluateAfterIngest G flt now nowdb ws' i s)"
  using breaker_touches [OF surjective_pairing] touches_refl
  by (auto simp: evaluateAfterIngest_def split: option.split sum.split)

lemma insert_event_touches: "InsertDeliverabilityEvent nowdb ws' i s = (n, s') \<Longrightarrow> touches ws em s s'"
  by (auto simp: InsertDeliverabilityEvent_def Let_def touches_def split: if_splits)

lemma add_suppression_touches: "touches ws em s (AddSuppression f ws em s)"
  by (auto simp: AddSuppression_def touches_def)

lemma ingest_touches:
  assumes "Ingest G flt now nowdb ws ev s = (r, s')"
  shows "touches ws (TrimSpace (ei_email ev)) s s'"
proof -
  define i where "i = normal_input (ge_text G) ev"
  have email: "ei_email i = TrimSpace (ei_email ev)" by (simp add: i_def)
  note run = assms [unfolded Ingest_def Let_def, folded i_def]
  show ?thesis
  proof (cases "(ei_kind i \<noteq> EventKindComplaint \<and> ei_kind i \<noteq> EventKindBounce) \<or> ei_email i = []
      \<or> ei_provider_event_id i = [] \<or> resolveBounceClass (ge_text G) (ei_kind i) (ei_bounce_class i) = None")
    case True
    with run have "s' = s" by (auto split: if_splits)
    with touches_refl show ?thesis by auto
  next
    case False
    then obtain cls where cls: "resolveBounceClass (ge_text G) (ei_kind i) (ei_bounce_class i) = Some cls" by auto
    obtain n s1 where ins: "InsertDeliverabilityEvent nowdb ws (i\<lparr>ei_bounce_class := cls\<rparr>) s = (n, s1)" by fastforce
    let ?after = "evaluateAfterIngest G flt now nowdb ws (i\<lparr>ei_bounce_class := cls\<rparr>)"
    let ?added = "AddSuppression (ge_sql_lower G) ws (ei_email i) s1"
    note first = insert_event_touches [OF ins, of ws "TrimSpace (ei_email ev)"]
    have second: "touches ws (TrimSpace (ei_email ev)) s ?added"
      using touches_trans [OF first add_suppression_touches] email by simp
    from run False cls ins have "s' = s \<or> s' = s1 \<or> s' = ?after ?added \<or> s' = ?after s1"
      by (auto simp: attempt_def split: option.splits if_splits)
    then show ?thesis
      using touches_refl first touches_trans [OF first after_ingest_touches]
        touches_trans [OF second after_ingest_touches] by blast
  qed
qed

end
