(* ===== verification/Inbox_Store.thy ===== *)
theory Inbox_Store
  imports Inbox_Calls Enrollment_Service
begin

text \<open>
  The two relations the calls of the control plane keep, and with them the contracts of \<open>Inbox_Contract\<close> for
  \<open>PgInbox\<close>: \<open>pg_inbox\<close> that outcomes last, \<open>pg_reach\<close> that a message touches only the recipients of the
  sends it names.
\<close>

subsection \<open>The conversations\<close>

definition root_key :: "inbox_thread \<Rightarrow> uuid \<times> uuid \<times> string" where
  "root_key t = (th_ws t, th_mailbox t, th_root_message_id t)"

definition home_key :: "inbox_thread \<Rightarrow> uuid \<times> uuid \<times> uuid" where
  "home_key t = (th_id t, th_ws t, th_mailbox t)"

definition message_key :: "inbox_message \<Rightarrow> uuid \<times> string" where
  "message_key m = (im_ws m, im_message_id m)"

definition threads_sound :: "inbox_thread list \<Rightarrow> bool" where
  "threads_sound ts \<longleftrightarrow>
     distinct (map th_id ts) \<and> distinct (map root_key (filter (\<lambda>t. th_root_message_id t \<noteq> []) ts))"

text \<open>A thread is unique by id and, when it has one, by its root message; a message is unique by its id when
  it has one, and is in the mailbox and workspace of its thread.\<close>

definition talk_sound :: "inbox_thread list \<times> inbox_message list \<Rightarrow> bool" where
  "talk_sound = (\<lambda>(ts, ms). threads_sound ts
     \<and> distinct (map message_key (filter (\<lambda>m. im_message_id m \<noteq> []) ms))
     \<and> (\<forall>m \<in> set ms. (im_thread m, im_ws m, im_mailbox m) \<in> home_key ` set ts))"

lemma upsert_sound:
  assumes "UpsertInboxThread now fresh i ts = Some (th, ts')" and "threads_sound ts"
  shows "threads_sound ts' \<and> home_key ` set ts \<subseteq> home_key ` set ts' \<and> home_key th \<in> home_key ` set ts'
    \<and> th_ws th = ut_ws i"
proof (cases "select_one (same_root i) ts")
  case None
  have "root_key ` {t \<in> set ts. th_root_message_id t \<noteq> []} \<inter> {(ut_ws i, ut_mailbox i, ut_root i)} = {}"
    if "ut_root i \<noteq> []"
    using None that by (auto simp: select_one_None_iff same_root_def root_key_def)
  with None assms show ?thesis
    by (auto simp: UpsertInboxThread_def Let_def threads_sound_def root_key_def home_key_def list_ex_iff split: if_splits)
next
  case (Some t)
  define bump where "bump = (\<lambda>t :: inbox_thread. t\<lparr>th_last_reply_class := ut_last_class i,
    th_last_message_at := now, th_unread := True\<rparr>)"
  have same: "th_id (bump t) = th_id t" "root_key (bump t) = root_key t" "home_key (bump t) = home_key t"
    "th_root_message_id (bump t) = th_root_message_id t" for t
    by (simp_all add: bump_def root_key_def home_key_def)
  have ts': "ts' = update_where (same_root i) bump ts" "th = bump t"
    using assms(1) Some by (auto simp: UpsertInboxThread_def Let_def bump_def)
  have "map f ts' = map f ts" if "\<And>t. f (bump t) = f t" for f :: "inbox_thread \<Rightarrow> 'a"
    unfolding ts' using that by (rule map_update_where)
  then have ids: "map th_id ts' = map th_id ts" and homes: "map home_key ts' = map home_key ts"
    using same by (auto simp: ts' intro!: map_update_where)
  have "map root_key (filter (\<lambda>t. th_root_message_id t \<noteq> []) ts') = map root_key (filter (\<lambda>t. th_root_message_id t \<noteq> []) ts)"
    unfolding ts' by (induction ts) (auto simp: same)
  moreover have "home_key ` set ts' = home_key ` set ts" using arg_cong [OF homes, of set] by simp
  moreover have "home_key th \<in> home_key ` set ts" using select_one_SomeD [OF Some] by (auto simp: ts' same)
  moreover have "th_ws th = ut_ws i" using select_one_SomeD [OF Some] by (simp add: ts' bump_def same_root_def)
  ultimately show ?thesis using assms(2) ids by (simp add: threads_sound_def)
qed

lemma insert_message_sound:
  assumes "InsertInboxMessage now i ts ms = Some ms'" and "talk_sound (ts, ms)"
  shows "talk_sound (ts, ms') \<and> set ms \<subseteq> set ms'"
proof -
  obtain t where t: "select_one (\<lambda>t. th_id t = ms_thread i \<and> th_ws t = ms_ws i) ts = Some t"
    using assms(1) by (auto simp: InsertInboxMessage_def split: option.splits)
  have home: "(ms_thread i, ms_ws i, th_mailbox t) \<in> home_key ` set ts"
    using select_one_SomeD [OF t] by (intro image_eqI [of _ _ t]) (simp_all add: home_key_def)
  show ?thesis
    using assms t home
    by (auto simp: InsertInboxMessage_def talk_sound_def message_key_def list_ex_iff split: if_splits) blast
qed

lemma recorded_sound:
  assumes "UpsertInboxThread now fresh i ts = Some (th, ts')" and "InsertInboxMessage now mi ts' ms = Some ms'"
    and "talk_sound (ts, ms)"
  shows "talk_sound (ts', ms') \<and> set ms \<subseteq> set ms'"
proof -
  note u = upsert_sound [OF assms(1)]
  with assms(3) have "talk_sound (ts', ms)" by (auto simp: talk_sound_def)
  from insert_message_sound [OF assms(2) this] show ?thesis .
qed

text \<open>A message read again is not stored again, and yet it marks its thread unread and moves it to the top.\<close>

lemma reread_marks_unread:
  assumes "record_in_tx E ti mi s = (Inr th, s')" and "m \<in> set (jd_messages (gd_jobs s))"
    and "im_ws m = ut_ws ti" "im_message_id m = ms_message_id mi" "ms_message_id mi \<noteq> []"
  shows "jd_messages (gd_jobs s') = jd_messages (gd_jobs s)
    \<and> (\<exists>t \<in> set (jd_threads (gd_jobs s')). th_id t = th_id th \<and> th_unread t \<and> th_last_message_at t = ie_nowdb E)"
proof -
  obtain ts ms where up: "UpsertInboxThread (ie_nowdb E) (ie_new_id E s) ti (jd_threads (gd_jobs s)) = Some (th, ts)"
    and ins: "InsertInboxMessage (ie_nowdb E) (mi\<lparr>ms_thread := th_id th, ms_ws := ut_ws ti\<rparr>) ts
        (jd_messages (gd_jobs s)) = Some ms"
    and s': "s' = s\<lparr>gd_jobs := (gd_jobs s)\<lparr>jd_threads := ts, jd_messages := ms\<rparr>\<rparr>"
    using assms(1) by (auto simp: record_in_tx_def split: option.splits prod.splits)
  have "ms = jd_messages (gd_jobs s)"
    using ins assms(2-5) by (auto simp: InsertInboxMessage_def list_ex_iff split: option.splits if_splits)
  moreover have "th \<in> set ts \<and> th_unread th \<and> th_last_message_at th = ie_nowdb E"
    using up by (auto simp: UpsertInboxThread_def Let_def in_update_where split: option.splits if_splits
        dest!: select_one_SomeD)
  ultimately show ?thesis by (auto simp: s')
qed

subsection \<open>Nothing settled is lost\<close>

definition kept_db :: "guard_db \<Rightarrow> guard_db \<Rightarrow> bool" where
  "kept_db s s' \<longleftrightarrow> snds s' = snds s \<and> jd_labels (gd_jobs s') = jd_labels (gd_jobs s) \<and> supp s \<subseteq> supp s'
     \<and> list_all2 settled (enr s) (enr s') \<and> (talk_sound (talk s) \<longrightarrow> talk_sound (talk s'))
     \<and> set (jd_messages (gd_jobs s)) \<subseteq> set (jd_messages (gd_jobs s'))"

lemma kept_db_refl: "kept_db s s"
  by (simp add: kept_db_def list_all2_refl settled_refl)

lemma kept_db_trans: "kept_db a b \<Longrightarrow> kept_db b c \<Longrightarrow> kept_db a c"
  by (auto simp: kept_db_def intro: list_all2_trans [of settled settled settled] settled_trans)

lemma insert_message_grows: "InsertInboxMessage now i ts ms = Some ms' \<Longrightarrow> set ms \<subseteq> set ms'"
  by (auto simp: InsertInboxMessage_def split: option.splits if_splits)

lemma kept_rows:
  "(\<And>e. p e \<Longrightarrow> settled e (f e)) \<Longrightarrow> kept_db s (on_enrollment_rows (update_where p f) s)"
  by (simp add: kept_db_def on_enrollment_rows_def on_core_def all2_update_where settled_refl)

lemma kept_suppress: "kept_db s (AddSuppression f ws em s)"
  by (auto simp: kept_db_def AddSuppression_def list_all2_refl settled_refl)

lemma kept_touches: "touches ws em s s' \<Longrightarrow> kept_db s s'"
  by (simp add: kept_db_def touches_def list_all2_refl settled_refl)

lemma kept_talk:
  assumes "UpsertInboxThread now fresh i (jd_threads (gd_jobs s)) = Some (th, ts)"
    and "InsertInboxMessage now mi ts (jd_messages (gd_jobs s)) = Some ms"
  shows "kept_db s (s\<lparr>gd_jobs := (gd_jobs s)\<lparr>jd_threads := ts, jd_messages := ms\<rparr>\<rparr>)"
  using recorded_sound [OF assms] insert_message_grows [OF assms(2)]
  by (auto simp: kept_db_def list_all2_refl settled_refl)

interpretation kept_calls: pg_frame E kept_db w "\<lambda>_. always" for E w
proof unfold_locales
  show "kept_db s (snd (Ingest (ie_guard E) (ie_flt E) (ie_now E) (ie_nowdb E) ws ev s))" for s ws ev
    using kept_touches [OF ingest_touches [OF surjective_pairing]] .
qed (auto intro: kept_db_refl kept_db_trans kept_rows kept_suppress kept_talk)

definition suppressed_in :: "inbox_env \<Rightarrow> string \<Rightarrow> string \<Rightarrow> guard_db \<Rightarrow> bool" where
  "suppressed_in E w em s \<longleftrightarrow>
     (\<exists>ws. uuid_Parse (ie_lib E) w = Some ws \<and> IsSuppressed (ge_sql_lower (ie_guard E)) ws em (gd_jobs s))"

definition halted_in :: "inbox_env \<Rightarrow> string \<Rightarrow> string \<Rightarrow> guard_db \<Rightarrow> bool" where
  "halted_in E w i s \<longleftrightarrow>
     (\<exists>ws eid. uuid_Parse (ie_lib E) w = Some ws \<and> uuid_Parse (ie_lib E) i = Some eid
        \<and> (\<forall>e. GetEnrollment ws eid (enr s) = Some e \<longrightarrow> en_status e \<noteq> StatusActive))"

lemma settled_get: "list_all2 settled es es' \<Longrightarrow> rel_option settled (GetEnrollment ws i es) (GetEnrollment ws i es')"
  unfolding GetEnrollment_def by (rule select_one_all2) (auto simp: settled_def same_key_def is_row_def)

lemma halted_kept:
  assumes "halted_in E w i s" and "kept_db s s'"
  shows "halted_in E w i s'"
proof -
  have rel: "rel_option settled (GetEnrollment ws eid (enr s)) (GetEnrollment ws eid (enr s'))" for ws eid
    using assms(2) settled_get by (simp add: kept_db_def)
  have "en_status e' \<noteq> StatusActive"
    if "\<forall>e. GetEnrollment ws eid (enr s) = Some e \<longrightarrow> en_status e \<noteq> StatusActive"
      and "GetEnrollment ws eid (enr s') = Some e'" for ws eid e'
    using that rel [of ws eid] by (auto simp: option_rel_Some2 settled_def)
  with assms(1) show ?thesis unfolding halted_in_def by blast
qed

lemma suppressed_kept: "suppressed_in E w em s \<Longrightarrow> kept_db s s' \<Longrightarrow> suppressed_in E w em s'"
  by (auto simp: suppressed_in_def IsSuppressed_def list_ex_iff kept_db_def)

lemma parsed_Inr: "parsed E x s = (Inr i, s') \<longleftrightarrow> uuid_Parse (ie_lib E) x = Some i \<and> s' = s"
  by (auto simp: parsed_def split: option.splits)

lemma stmt_Inr: "stmt E name f s = (Inr u, s') \<longleftrightarrow> ie_flt E name = None \<and> s' = f s"
  by (auto simp: stmt_def split: option.splits)

text \<open>After a stop the enrollment has ended.\<close>

lemma stopped_halts:
  assumes "uuid_Parse (ie_lib E) w = Some ws" "uuid_Parse (ie_lib E) i = Some eid"
  shows "halted_in E w i (on_enrollment_rows (StopEnrollment now ws eid reason) s)"
proof -
  have "en_status e \<noteq> StatusActive" if "GetEnrollment ws eid (StopEnrollment now ws eid reason (enr s)) = Some e" for e
    using that by (auto simp: StopEnrollment_def get_active_update is_row_def on_active_def split: if_splits
        dest: arg_cong [where f = en_status])
  with assms show ?thesis by (auto simp: halted_in_def on_enrollment_rows_def on_core_def)
qed

lemma class_halts:
  "halted_in E w i s \<Longrightarrow> halted_in E w i (on_enrollment_rows (SetEnrollmentReplyClass now ws eid cls src) s)"
  by (erule halted_kept) (auto simp: SetEnrollmentReplyClass_def settled_def same_key_def intro!: kept_rows)

lemma suppress_suppresses:
  "uuid_Parse (ie_lib E) w = Some ws \<Longrightarrow>
     suppressed_in E w em (AddSuppression (ge_sql_lower (ie_guard E)) ws em s)"
  using IsSuppressed_added by (auto simp: suppressed_in_def)

lemma replied_outcome:
  "localMarkReplied E i w cls src conf s = (Inr u, s') \<Longrightarrow> i \<noteq> [] \<Longrightarrow> halted_in E w i s'"
  by (auto simp: localMarkReplied_def bind_act_Inr parsed_Inr stmt_Inr stop_act recordReplyClass_def
      intro!: class_halts stopped_halts)

lemma unsubscribed_outcome:
  assumes "localMarkUnsubscribed E i w em s = (Inr u, s')"
  shows "suppressed_in E w em s' \<and> (i \<noteq> [] \<longrightarrow> halted_in E w i s')"
proof -
  obtain ws where ws: "uuid_Parse (ie_lib E) w = Some ws"
    using assms by (auto simp: localMarkUnsubscribed_def bind_act_Inr parsed_Inr)
  let ?s1 = "AddSuppression (ge_sql_lower (ie_guard E)) ws em s"
  have s1: "suppressed_in E w em ?s1" using suppress_suppresses [OF ws] .
  show ?thesis
  proof (cases "i = []")
    case True
    with assms ws s1 show ?thesis
      by (auto simp: localMarkUnsubscribed_def bind_act_Inr parsed_Inr suppress_def stmt_Inr pure_Inr)
  next
    case False
    with assms ws obtain eid where eid: "uuid_Parse (ie_lib E) i = Some eid"
      and s': "s' = on_enrollment_rows (SetEnrollmentReplyClass (ie_nowdb E) ws eid (nilIfEmpty ''unsubscribe'') (nilIfEmpty []))
          (on_enrollment_rows (StopEnrollment (ie_nowdb E) ws eid StopUnsubscribed) ?s1)"
      by (auto simp: localMarkUnsubscribed_def bind_act_Inr parsed_Inr suppress_def stmt_Inr stop_act recordReplyClass_def)
    have "kept_db ?s1 s'"
      unfolding s' StopEnrollment_def SetEnrollmentReplyClass_def
      by (rule kept_db_trans [OF kept_rows kept_rows]) (auto simp: active_row_def settled_def same_key_def)
    with s1 have "suppressed_in E w em s'" using suppressed_kept by blast
    moreover have "halted_in E w i s'" unfolding s' by (intro class_halts stopped_halts ws eid)
    ultimately show ?thesis by simp
  qed
qed

lemma bounced_outcome:
  assumes "localMarkBounced E i w em True s = (Inr u, s')"
  shows "suppressed_in E w em s' \<and> (i \<noteq> [] \<longrightarrow> halted_in E w i s')"
proof (cases "i = []")
  case True
  with assms suppress_suppresses show ?thesis
    by (auto simp: localMarkBounced_def bind_act_Inr parsed_Inr suppress_def stmt_Inr pure_Inr)
next
  case False
  with assms obtain ws eid where "uuid_Parse (ie_lib E) w = Some ws" "uuid_Parse (ie_lib E) i = Some eid"
    "s' = AddSuppression (ge_sql_lower (ie_guard E)) ws em
       (on_enrollment_rows (StopEnrollment (ie_nowdb E) ws eid StopBounced) s)"
    by (auto simp: localMarkBounced_def bind_act_Inr parsed_Inr suppress_def stmt_Inr stop_act)
  then show ?thesis using suppress_suppresses halted_kept [OF stopped_halts kept_suppress] by simp
qed

lemma attributed_stable:
  assumes "kept_db s s'"
  shows "localFindSendByMessageID E w i s' = localFindSendByMessageID E w i s"
proof -
  have "map_option en_id (select_one p (enr s')) = map_option en_id (select_one p (enr s))"
    if "\<And>e e'. settled e e' \<Longrightarrow> p e' = p e" for p
  proof -
    have "rel_option settled (select_one p (enr s)) (select_one p (enr s'))"
      using select_one_all2 [of settled] assms that by (simp add: kept_db_def)
    then show ?thesis
      by (cases "select_one p (enr s)"; cases "select_one p (enr s')") (auto simp: settled_def same_key_def)
  qed
  then have "GetSendByMessageID ws i s' = GetSendByMessageID ws i s" for ws
    using assms by (auto simp: GetSendByMessageID_def kept_db_def settled_def same_key_def split: list.split)
  then show ?thesis by (simp add: localFindSendByMessageID_def cong: option.case_cong)
qed

lemma labels_kept:
  assumes "kept_db s s'"
  shows "resolveReplyLabel (PgInbox E) w k s' = resolveReplyLabel (PgInbox E) w k s"
proof -
  have "Resolve_label flt ws k s' = Resolve_label flt ws k s" for flt ws
    using assms by (auto simp: Resolve_label_def GetReplyLabelByKey_def kept_db_def Let_def split: option.split)
  then show ?thesis
    by (simp add: resolveReplyLabel_def PgInbox_def localResolveReplyLabel_def cong: option.case_cong)
qed

interpretation pg_inbox: inbox_contract "PgInbox E" kept_db w "externals_keep E kept_db" "suppressed_in E w" "halted_in E w"
  for E w
  by unfold_locales
    (auto simp: PgInbox_def externals_keep_def attributed_stable intro: kept_db_refl kept_db_trans kept_calls.calls
      suppressed_kept halted_kept replied_outcome labels_kept [unfolded PgInbox_def]
      dest: unsubscribed_outcome bounced_outcome)

subsection \<open>A message touches only the recipients it names\<close>

definition en_key :: "enrollment \<Rightarrow> uuid \<times> uuid \<times> uuid \<times> uuid" where
  "en_key e = (en_id e, en_ws e, en_campaign e, en_contact e)"

lemma same_keyI: "settled e e' \<Longrightarrow> en_key e' = en_key e"
  by (simp add: settled_def same_key_def en_key_def)

text \<open>The sends of the workspace with one of the ids; the addresses and the enrollments behind them. An
  enrollment's id passes the worker as text.\<close>

definition reach_sends :: "inbox_env \<Rightarrow> string \<Rightarrow> string set \<Rightarrow> send list \<Rightarrow> send set" where
  "reach_sends E w N S = {r \<in> set S. uuid_Parse (ie_lib E) w = Some (sd_ws r) \<and> sd_message_id r \<in> N}"

definition reach_mail :: "inbox_env \<Rightarrow> string \<Rightarrow> string set \<Rightarrow> send list \<Rightarrow> (uuid \<times> string) set" where
  "reach_mail E w N S = (\<Union>r \<in> reach_sends E w N S. {(sd_ws r, sd_to_email r), (sd_ws r, TrimSpace (sd_to_email r))})"

definition reach_ids :: "inbox_env \<Rightarrow> string \<Rightarrow> string set \<Rightarrow> send list \<Rightarrow> (uuid \<times> uuid \<times> uuid \<times> uuid) set \<Rightarrow> uuid set" where
  "reach_ids E w N S K = {i. \<exists>r \<in> reach_sends E w N S. \<exists>(j, ws, c, ct) \<in> K.
     c = sd_campaign r \<and> ct = sd_contact r \<and> uuid_Parse (ie_lib E) (uuid_String (ie_lib E) j) = Some i}"

abbreviation keys :: "guard_db \<Rightarrow> (uuid \<times> uuid \<times> uuid \<times> uuid) set" where "keys s \<equiv> en_key ` set (enr s)"

definition reached_row :: "inbox_env \<Rightarrow> string \<Rightarrow> uuid set \<Rightarrow> enrollment \<Rightarrow> enrollment \<Rightarrow> bool" where
  "reached_row E w I e e' \<longleftrightarrow> en_key e' = en_key e \<and>
     (e' = e \<or> (uuid_Parse (ie_lib E) w = Some (en_ws e) \<and> en_id e \<in> I))"

definition confined :: "inbox_env \<Rightarrow> string \<Rightarrow> string set \<Rightarrow> guard_db \<Rightarrow> guard_db \<Rightarrow> bool" where
  "confined E w N s s' \<longleftrightarrow> snds s' = snds s
     \<and> supp s' \<subseteq> supp s \<union> reach_mail E w N (snds s)
     \<and> list_all2 (reached_row E w (reach_ids E w N (snds s) (keys s))) (enr s) (enr s')"

definition attributed :: "inbox_env \<Rightarrow> string \<Rightarrow> string set \<Rightarrow> SendRef \<Rightarrow> guard_db \<Rightarrow> bool" where
  "attributed E w N ref s \<longleftrightarrow>
     sr_contact_email ref \<in> sd_to_email ` reach_sends E w N (snds s)
     \<and> (\<forall>i. sr_enrollment ref \<noteq> [] \<and> uuid_Parse (ie_lib E) (sr_enrollment ref) = Some i \<longrightarrow>
            i \<in> reach_ids E w N (snds s) (keys s))"

lemma same_keys: "list_all2 (reached_row E w I) es es' \<Longrightarrow> en_key ` set es' = en_key ` set es"
  by (induction rule: list_all2_induct) (auto simp: reached_row_def)

lemma confined_keys: "confined E w N s s' \<Longrightarrow> snds s' = snds s \<and> keys s' = keys s"
  using same_keys unfolding confined_def by blast

lemma confined_refl: "confined E w N s s"
  by (simp add: confined_def list_all2_refl reached_row_def)

lemma confined_trans:
  assumes "confined E w N a b" and "confined E w N b c"
  shows "confined E w N a c"
proof -
  have same: "snds b = snds a" "keys b = keys a" using confined_keys [OF assms(1)] by simp_all
  let ?Q = "reached_row E w (reach_ids E w N (snds a) (keys a))"
  have "list_all2 ?Q (enr a) (enr b)" "list_all2 ?Q (enr b) (enr c)"
    using assms by (simp_all add: confined_def same)
  then have "list_all2 ?Q (enr a) (enr c)"
    by (rule list_all2_trans [rotated 1]) (auto simp: reached_row_def en_key_def)
  with assms show ?thesis by (auto simp: confined_def same)
qed

lemma attributed_stays: "confined E w N s s' \<Longrightarrow> attributed E w N ref s \<Longrightarrow> attributed E w N ref s'"
  using confined_keys by (simp add: attributed_def)

lemma confined_rows:
  assumes "attributed E w N ref s" "sr_enrollment ref \<noteq> []" "uuid_Parse (ie_lib E) (sr_enrollment ref) = Some i"
    and "uuid_Parse (ie_lib E) w = Some ws" "\<And>e. p e \<Longrightarrow> is_row ws i e \<and> settled e (f e)"
  shows "confined E w N s (on_enrollment_rows (update_where p f) s)"
proof -
  have "i \<in> reach_ids E w N (snds s) (keys s)" using assms(1-3) by (auto simp: attributed_def)
  then have "reached_row E w (reach_ids E w N (snds s) (keys s)) e (f e)" if "p e" for e
    using assms(4) assms(5) [OF that] same_keyI by (auto simp: reached_row_def is_row_def)
  then show ?thesis
    by (simp add: confined_def on_enrollment_rows_def on_core_def all2_update_where reached_row_def)
qed

lemma attributed_mail:
  "attributed E w N ref s \<Longrightarrow> uuid_Parse (ie_lib E) w = Some ws \<Longrightarrow>
     (ws, sr_contact_email ref) \<in> reach_mail E w N (snds s)
     \<and> (ws, TrimSpace (sr_contact_email ref)) \<in> reach_mail E w N (snds s)"
  by (auto simp: attributed_def reach_mail_def reach_sends_def)

lemma confined_touches:
  assumes "touches ws em s s'" and "(ws, em) \<in> reach_mail E w N (snds s)"
  shows "confined E w N s s'"
  using assms by (auto simp: touches_def confined_def list_all2_refl reached_row_def)

lemma confined_talk: "confined E w N s (s\<lparr>gd_jobs := (gd_jobs s)\<lparr>jd_threads := ts, jd_messages := ms\<rparr>\<rparr>)"
  by (simp add: confined_def list_all2_refl reached_row_def)

lemma find_attributed:
  assumes "i \<in> N" and "localFindSendByMessageID E w i s = Inr ref"
  shows "attributed E w N ref s"
proof -
  from assms(2) obtain ws r o' where r: "uuid_Parse (ie_lib E) w = Some ws" "GetSendByMessageID ws i s = Some (r, o')"
    "sr_contact_email ref = sd_to_email r" "sr_enrollment ref = enrollmentRefID E o'"
    by (auto simp: localFindSendByMessageID_def Let_def split: option.splits prod.splits)
  let ?rows = "sort_key (\<lambda>r. - sd_created_at r)
    (filter (\<lambda>r. sd_ws r = ws \<and> sd_message_id r = i \<and> sd_message_id r \<noteq> []) (snds s))"
  let ?first = "select_one (\<lambda>e. en_campaign e = sd_campaign r \<and> en_contact e = sd_contact r) (enr s)"
  from r(2) obtain rest where rows: "?rows = r # rest" and o': "o' = map_option en_id ?first"
    by (auto simp: GetSendByMessageID_def split: list.splits)
  have "r \<in> set ?rows" unfolding rows by simp
  then have "r \<in> reach_sends E w N (snds s)" using assms(1) r(1) by (auto simp: reach_sends_def)
  moreover have "j \<in> reach_ids E w N (snds s) (keys s)"
    if "sr_enrollment ref \<noteq> []" "uuid_Parse (ie_lib E) (sr_enrollment ref) = Some j" for j
  proof -
    from that(1) obtain e where e: "?first = Some e"
      by (cases ?first) (auto simp: r(4) o' enrollmentRefID_def)
    then have "sr_enrollment ref = uuid_String (ie_lib E) (en_id e)" by (simp add: r(4) o' enrollmentRefID_def)
    with that(2) select_one_SomeD [OF e] \<open>r \<in> reach_sends E w N (snds s)\<close> show ?thesis
      by (force simp: reach_ids_def en_key_def)
  qed
  ultimately show ?thesis using r(3) by (auto simp: attributed_def)
qed

interpretation reach_calls: pg_frame E "confined E w N" w "attributed E w N" for E w N
proof unfold_locales
  show "confined E w N s (snd (Ingest (ie_guard E) (ie_flt E) (ie_now E) (ie_nowdb E) ws ev s))"
    if "attributed E w N ref s" "uuid_Parse (ie_lib E) w = Some ws" "ei_email ev = sr_contact_email ref" for ref s ws ev
    using confined_touches [OF ingest_touches [OF surjective_pairing]] attributed_mail [OF that(1,2)] that(3) by simp
  show "confined E w N s (AddSuppression (ge_sql_lower (ie_guard E)) ws (sr_contact_email ref) s)"
    if "attributed E w N ref s" "uuid_Parse (ie_lib E) w = Some ws" for ref s ws
    using confined_touches [OF add_suppression_touches] attributed_mail [OF that] by simp
qed (auto intro: confined_refl confined_trans confined_rows confined_talk attributed_stays)

interpretation pg_reach: inbox_frame "PgInbox E" "confined E w N" w "attributed E w N" "\<lambda>i. i \<in> N"
    "externals_keep E (confined E w N)" for E w N
  by unfold_locales
    (auto simp: PgInbox_def externals_keep_def intro: confined_refl confined_trans attributed_stays find_attributed
      reach_calls.calls)

end
