(* ===== verification/Inbox_Facts.thy ===== *)
theory Inbox_Facts
  imports Inbox_Store
begin

text \<open>
  The properties of inbound mail, over the contracts of \<open>Inbox_Store\<close>: an opt-out and a human reply take
  effect by the end of the pass that reads them and hold for every job built afterwards, an automated reply
  defers and does not end, a message reaches only the recipients of the sends it names, conversations stay
  sound, and the labels a workspace starts with act as the classes did.
\<close>

subsection \<open>Labels\<close>

text \<open>The label found for a class is one of the workspace, with that class as key.\<close>

lemma class_key: "c \<in> set reply_classes \<Longrightarrow> TrimSpace c = c \<and> c \<noteq> []"
proof -
  have "list_all (\<lambda>c. TrimSpace c = c \<and> c \<noteq> []) reply_classes" by code_simp
  then show "c \<in> set reply_classes \<Longrightarrow> TrimSpace c = c \<and> c \<noteq> []" by (simp add: list_all_iff)
qed

definition label_of :: "reply_label \<Rightarrow> ReplyLabel" where
  "label_of r = \<lparr>lb_key = rl_key r, lb_stops = rl_stops_enrollment r, lb_automated = rl_is_automated r,
     lb_suppresses = rl_suppresses_contact r, lb_captures = rl_captures_deal r, lb_defers = rl_defers_enrollment r\<rparr>"

lemma resolved_label:
  assumes "uuid_Parse (ie_lib E) w = Some ws" and "c \<in> set reply_classes"
  shows "resolveReplyLabel (PgInbox E) w c s
    = (if ie_flt E ''GetReplyLabelByKey'' = None then map_option label_of (GetReplyLabelByKey ws c s) else None)"
  using assms(1) class_key [OF assms(2)]
  by (auto simp: resolveReplyLabel_def PgInbox_def localResolveReplyLabel_def Resolve_label_def label_of_def
      split: option.split)

lemma resolved_row:
  assumes "resolveReplyLabel (PgInbox E) w c s = Some l" "uuid_Parse (ie_lib E) w = Some ws" "c \<in> set reply_classes"
  shows "\<exists>r. GetReplyLabelByKey ws c s = Some r \<and> l = label_of r"
  using assms(1) unfolding resolved_label [OF assms(2,3)] by (auto split: if_splits)

lemma label_row_same: "jd_labels (gd_jobs s') = jd_labels (gd_jobs s) \<Longrightarrow> GetReplyLabelByKey ws c s' = GetReplyLabelByKey ws c s"
  by (simp add: GetReplyLabelByKey_def)

text \<open>The flags a workspace is seeded with honour opt-outs and end a sequence for human replies.\<close>

lemma seeded_flags:
  "r \<in> set (seed_rows ws) \<Longrightarrow>
     (IsAutomated (rl_key r) \<or> rl_key r = ClassUnsubscribe \<longrightarrow> rl_suppresses_contact r \<or> rl_is_automated r)
     \<and> (\<not> IsAutomated (rl_key r) \<longrightarrow> rl_suppresses_contact r \<or> rl_stops_enrollment r)"
  by (auto simp: seed_rows_def IsAutomated_def const_defs)

lemma seed_keys: "map rl_key (seed_rows ws) = [ClassPositive, ClassNegative, ClassNeutral, ClassUnsubscribe,
    ClassOutOfOffice, ClassAutoReply, ClassUnknown]"
  by (simp add: seed_rows_def const_defs)

lemma seeded_row:
  assumes "\<forall>l \<in> set others. rl_ws l \<noteq> ws"
  shows "select_one (\<lambda>l. rl_ws l = ws \<and> rl_key l = c) (seed_reply_labels ws others)
    = select_one (\<lambda>l. rl_key l = c) (seed_rows ws)"
proof -
  have skip: "select_one (\<lambda>l. rl_ws l = ws \<and> rl_key l = c) (others @ xs)
      = select_one (\<lambda>l. rl_ws l = ws \<and> rl_key l = c) xs" for xs
    using assms by (induction others) auto
  have all: "filter (\<lambda>l. \<not> list_ex (\<lambda>l'. rl_ws l' = ws \<and> rl_key l' = rl_key l) others) (seed_rows ws) = seed_rows ws"
    using assms by (auto simp: list_ex_iff intro!: filter_True)
  have "\<forall>l \<in> set (seed_rows ws). rl_ws l = ws" by (auto simp: seed_rows_def)
  then show ?thesis unfolding seed_reply_labels_def all skip by (intro select_one_cong) auto
qed

text \<open>C37: The labels a workspace starts with act exactly as the classes did before there were labels. For
  every message and whatever classifies it, dispatching on the seeded label makes the same calls, in the
  same order and with the same answer and state, as dispatching on the class.\<close>

theorem seeded_labels_reproduce_classes:
  assumes "dp_core d = PgInbox E" and "dp_result d = Classify (dp_mail d) model (dp_in d)"
    and "uuid_Parse (ie_lib E) (dp_workspace d) = Some ws"
    and "jd_labels (gd_jobs s) = seed_reply_labels ws others" and "\<forall>l \<in> set others. rl_ws l \<noteq> ws"
  shows "reply_dispatch d s = byClass d s"
proof -
  let ?c = "rr_class (dp_result d)"
  have c: "?c \<in> set reply_classes" using Classify_class assms(2) by simp
  have off: "captureDeal False d = pure ()" by (simp add: captureDeal_def)
  have bind: "bind_act (pure x) k = k x" for x and k :: "'x \<Rightarrow> (guard_db, 'y) act"
    by (rule ext) (simp add: bind_act_def pure_def)
  have label: "byLabel d (label_of r) = byClass d" if "select_one (\<lambda>l. rl_key l = ?c) (seed_rows ws) = Some r" for r
    using c that
    by (auto simp: seed_rows_def reply_classes_def const_defs label_of_def byLabel_def byClass_def IsAutomated_def
        deferUntilReturn_def off bind split: if_splits)
  show ?thesis
    using label
    by (auto simp: reply_dispatch_def assms(1) resolved_label [OF assms(3) c] GetReplyLabelByKey_def assms(4)
        seeded_row [OF assms(5)] split: option.split)
qed

subsection \<open>Outcomes of a pass\<close>

lemma plain_reply_message:
  "plain_reply M msg \<Longrightarrow> processMessage M model core now w mb msg s
     = process_reply M model core now w msg (MessageIDs (ib_header msg)) s"
  by (simp add: plain_reply_def processMessage_def Let_def)

text \<open>A reply of a completed pass was dispatched on a state between the pass's first and last.\<close>

lemma pass_dispatched:
  assumes "process_all (processMessage M model (PgInbox E) now w mb) msgs s = (Inr (), s')" and "msg \<in> set msgs"
    and "plain_reply M msg" and "first_match (PgInbox E) w (MessageIDs (ib_header msg)) s = Some ref"
    and "externals_keep E kept_db"
  shows "\<exists>s1 p s2. kept_db s s1
    \<and> reply_dispatch (dispatch_of M model (PgInbox E) now w msg ref) s1 = (Inr p, s2) \<and> kept_db s2 s'"
proof -
  have keep: "keeps always kept_db (processMessage M model (PgInbox E) now w mb m)" for m
    using assms(5) by (intro pg_inbox.keeps_message) simp_all
  from pg_inbox.pass_reaches [OF keep assms(1,2)] obtain s1 p s2 where
    run: "kept_db s s1" "processMessage M model (PgInbox E) now w mb msg s1 = (Inr p, s2)" "kept_db s2 s'" by blast
  have "first_match (PgInbox E) w (MessageIDs (ib_header msg)) s1 = Some ref"
    using pg_inbox.matched_stable [OF run(1)] assms(4) by simp
  from pg_inbox.reply_dispatched [OF run(2) [unfolded plain_reply_message [OF assms(3)]] this]
  show ?thesis using run(1,3) kept_db_trans by blast
qed

lemma labels_same: "kept_db s s' \<Longrightarrow> jd_labels (gd_jobs s') = jd_labels (gd_jobs s)"
  by (simp add: kept_db_def)

text \<open>C9: An opt-out is honoured where the workspace's labels let it be. After a completed pass over a
  mailbox, every job built from then on for the address of a send that one of its messages answered with
  an opt-out, even inside an automated message and whatever the classifier makes of it, is marked
  suppressed, so the worker sends it nothing. It needs that the label of the message's class, if the
  workspace has one, suppresses the contact or is automated, as every seeded one is; an operator who clears
  both flags of the unsubscribe label turns opt-outs off (\<open>Inbox_Labels.cleared_label_ignores_opt_out\<close>).\<close>

theorem opt_out_is_honoured:
  assumes "process_all (processMessage M model (PgInbox E) now w mb) msgs s = (Inr (), s')" and "msg \<in> set msgs"
    and "plain_reply M msg" and "LooksLikeUnsubscribe M (reply_input_of msg)"
    and "first_match (PgInbox E) w (MessageIDs (ib_header msg)) s = Some ref"
    and "uuid_Parse (ie_lib E) w = Some ws" and "externals_keep E kept_db"
    and "\<forall>r. GetReplyLabelByKey ws (rr_class (Classify M model (reply_input_of msg))) s = Some r \<longrightarrow>
           rl_suppresses_contact r \<or> rl_is_automated r"
    and "je_lib J = ie_lib E" "je_sql_lower J = ge_sql_lower (ie_guard E)" "text_roundtrips (je_lib J)"
    and "localStepSendJob J flt now' nowdb enrollmentID w (gd_jobs s') = (Inr j, jobs')" and "\<not> inert j"
    and "je_sql_lower J (ToEmail j) = je_sql_lower J (sr_contact_email ref)"
  shows "Suppressed j"
proof -
  from pass_dispatched [OF assms(1-3,5,7)] obtain s1 p s2 where run: "kept_db s s1"
    "reply_dispatch (dispatch_of M model (PgInbox E) now w msg ref) s1 = (Inr p, s2)" "kept_db s2 s'" by blast
  let ?c = "rr_class (Classify M model (reply_input_of msg))"
  have "honours_opt_out l" if "resolveReplyLabel (PgInbox E) w ?c s1 = Some l" for l
    using resolved_row [OF that assms(6) Classify_class] assms(8)
    by (auto simp: label_row_same [OF labels_same [OF run(1)]] honours_opt_out_def label_of_def)
  from pg_inbox.dispatched_opt_out [OF run(2) assms(4) this]
  have "suppressed_in E w (sr_contact_email ref) s'" using suppressed_kept run(3) by blast
  then show ?thesis
    using sendable_suppressed [OF assms(11) _ assms(12,13)] assms(6,9,10,14)
    by (auto simp: suppressed_in_def IsSuppressed_def)
qed

lemma bundle_enrollment:
  "GetStepEnrollmentBundle eid ws db = Some b \<Longrightarrow>
     GetEnrollment ws eid (db_enrollments (jd_core db)) = Some (b_enrollment b)"
  by (auto simp: GetStepEnrollmentBundle_def GetEnrollment_def split: option.splits)

lemma run_op_known:
  "run_op (PgStore flt now) p es = Inr es' \<Longrightarrow> GetEnrollment ws i es' = None \<longleftrightarrow> GetEnrollment ws i es = None"
  by (cases p) (auto simp: pg.service_laws on_active_def root_once_def split: if_splits)

lemma run_service_known: "GetEnrollment ws i (run_service ops es) = None \<longleftrightarrow> GetEnrollment ws i es = None"
  by (induction ops es rule: run_service.induct) (auto simp: run_op_known split: sum.splits)

text \<open>C10: A human reply ends the sequence, unless the workspace decided otherwise. After a completed pass
  that read a message no header marks as automated, and whose class has no label in the workspace or
  one that stops the enrollment or suppresses the contact, as every seeded one does, the enrollment it
  answers has ended, and whatever the enrollment service does afterwards, from any worker and with any
  failure, every job built for it is one the worker does not send. An operator may clear these flags;
  the sequence then goes on (\<open>Inbox_Labels.cleared_label_keeps_sequence\<close>).\<close>

theorem human_reply_ends_the_sequence:
  assumes "process_all (processMessage M model (PgInbox E) now w mb) msgs s = (Inr (), s')" and "msg \<in> set msgs"
    and "plain_reply M msg" and "classifyHeaders M (reply_input_of msg) = None"
    and "first_match (PgInbox E) w (MessageIDs (ib_header msg)) s = Some ref" and "sr_enrollment ref \<noteq> []"
    and "uuid_Parse (ie_lib E) w = Some ws" and "externals_keep E kept_db"
    and "\<forall>r. GetReplyLabelByKey ws (rr_class (Classify M model (reply_input_of msg))) s = Some r \<longrightarrow>
           rl_suppresses_contact r \<or> rl_stops_enrollment r"
    and "db_enrollments (jd_core db) = run_service ops (enr s')" and "je_lib J = ie_lib E"
    and "localStepSendJob J flt now' nowdb (sr_enrollment ref) w db = (Inr j, db')"
  shows "inert j"
proof -
  from pass_dispatched [OF assms(1-3,5,8)] obtain s1 p s2 where run: "kept_db s s1"
    "reply_dispatch (dispatch_of M model (PgInbox E) now w msg ref) s1 = (Inr p, s2)" "kept_db s2 s'" by blast
  let ?c = "rr_class (Classify M model (reply_input_of msg))"
  have human: "\<not> IsAutomated ?c" using assms(4) Classify_automated by blast
  have "ends_sequence l" if "resolveReplyLabel (PgInbox E) w ?c s1 = Some l" for l
    using resolved_row [OF that assms(7) Classify_class] assms(9)
    by (auto simp: label_row_same [OF labels_same [OF run(1)]] ends_sequence_def label_of_def)
  from pg_inbox.dispatched_human [OF run(2) human this assms(8,6)]
  have "halted_in E w (sr_enrollment ref) s'" using halted_kept run(3) by blast
  then obtain eid where eid: "uuid_Parse (ie_lib E) (sr_enrollment ref) = Some eid"
    and ended: "\<And>e. GetEnrollment ws eid (enr s') = Some e \<Longrightarrow> en_status e \<noteq> StatusActive"
    using assms(7) by (auto simp: halted_in_def)
  show ?thesis
    using assms(12)
  proof (cases rule: localStepSendJob_cases)
    case (built eid' ws' b step route sn sender sa)
    have "GetEnrollment ws eid (run_service ops (enr s')) = Some (b_enrollment b)"
      using bundle_enrollment [OF built(3)] built(1,2) eid assms(7,10,11) by simp
    moreover have "GetEnrollment ws eid (enr s') \<noteq> None"
      using calculation run_service_known [of ws eid ops "enr s'"] by auto
    ultimately show ?thesis
      using run_service_terminal [of ws eid "enr s'" ops] ended built(4) by (auto simp: terminal_same_def)
  qed
qed

subsection \<open>Automated replies\<close>

interpretation store_calls: pg_frame E "\<lambda>s s'. jd_core (gd_jobs s') = jd_core (gd_jobs s) \<and> jd_labels (gd_jobs s') = jd_labels (gd_jobs s)"
    w "\<lambda>_ _. False" for E w
  by unfold_locales auto

lemma stored_apart:
  "stored M model (PgInbox E) now w msg ref s = (r, s1) \<Longrightarrow> enr s1 = enr s \<and> jd_labels (gd_jobs s1) = jd_labels (gd_jobs s)"
  using keepsD [OF store_calls.call_store [of always], of E _ s r s1] by (simp add: PgInbox_def)

definition stated_return :: "mail_lib \<Rightarrow> inbound \<Rightarrow> instant \<Rightarrow> instant option" where
  "stated_return M msg now =
     (let body = fst (Extract M msg) in
      parseReturnDate M (if TrimSpace body = [] then ib_body msg else body) now)"

text \<open>The label of a class lets the enrollment run on.\<close>

definition runs_on :: "reply_label \<Rightarrow> bool" where
  "runs_on l \<longleftrightarrow> rl_is_automated l \<and> \<not> rl_stops_enrollment l \<and> \<not> rl_suppresses_contact l \<and> \<not> rl_captures_deal l"

definition deferred_to :: "inbox_env \<Rightarrow> uuid \<Rightarrow> string \<Rightarrow> mail_lib \<Rightarrow> inbound \<Rightarrow> instant \<Rightarrow> guard_db \<Rightarrow> instant option" where
  "deferred_to E ws c M msg now s =
     (if ie_flt E ''GetReplyLabelByKey'' = None
      then case GetReplyLabelByKey ws c s of
             Some l \<Rightarrow> if rl_defers_enrollment l then stated_return M msg now else None
           | None \<Rightarrow> None
      else None)"

definition tagged :: "string \<Rightarrow> string \<Rightarrow> instant \<Rightarrow> enrollment \<Rightarrow> enrollment" where
  "tagged c source now e = e\<lparr>reply_class := Some c, reply_source := Some source, replied_at := Some now\<rparr>"

lemma tag_row:
  "GetEnrollment ws i es = Some e \<Longrightarrow>
     GetEnrollment ws i (SetEnrollmentReplyClass now ws i (Some c) (Some source) es) = Some (tagged c source now e)"
  unfolding GetEnrollment_def SetEnrollmentReplyClass_def
  by (subst select_update) (auto simp: is_row_def tagged_def dest: select_one_SomeD)

text \<open>A reply of an automated class is tagged, and the nudge for a waiting condition leaves it alone.\<close>

lemma tagged_by_class:
  assumes "localRecordReplyClass E i w c source conf s = (Inr u, s')" and "i \<noteq> []" "c \<noteq> []" "source \<noteq> []"
    and "uuid_Parse (ie_lib E) i = Some eid" "uuid_Parse (ie_lib E) w = Some ws"
    and "automated_key ws c (gd_jobs s)" and "GetEnrollment ws eid (enr s) = Some e"
  shows "GetEnrollment ws eid (enr s') = Some (tagged c source (ie_nowdb E) e)"
proof -
  let ?s1 = "on_enrollment_rows (SetEnrollmentReplyClass (ie_nowdb E) ws eid (Some c) (Some source)) s"
  have s': "s' = NudgeEnrollmentAwaitingReply (ie_nowdb E) ws eid c ?s1"
    using assms(1-6) by (auto simp: localRecordReplyClass_def bind_act_Inr parsed_Inr recordReplyClass_def stmt_Inr nilIfEmpty_def)
  have "automated_key ws c (gd_jobs ?s1)"
    using assms(7) by (simp add: automated_key_def on_enrollment_rows_def on_core_def)
  then have "enr s' = enr ?s1"
    unfolding s' NudgeEnrollmentAwaitingReply_def
    by (simp add: update_where_none active_row_def is_row_def)
  then show ?thesis using tag_row [OF assms(8)] by simp
qed

lemma deferred_row:
  fixes E :: inbox_env
  assumes "core_act (localDeferEnrollment (ie_lib E) (ie_flt E) now i w t) s = (Inr u, s')"
    and "uuid_Parse (ie_lib E) i = Some eid" "uuid_Parse (ie_lib E) w = Some ws"
    and "GetEnrollment ws eid (enr s) = Some e" "en_status e = StatusActive"
  shows "GetEnrollment ws eid (enr s') = Some (e\<lparr>next_due_at := Some t\<rparr>) \<and> jd_labels (gd_jobs s') = jd_labels (gd_jobs s)"
  using assms(1) unfolding defer_act
  using assms(2-5)
  by (auto simp: bind_act_Inr parsed_Inr stmt_Inr SetEnrollmentDue_def get_active_update is_row_def on_active_def)

lemma automated_key_kept: "jd_labels j' = jd_labels j \<Longrightarrow> automated_key ws c j' = automated_key ws c j"
  by (simp add: automated_key_def)

text \<open>The calls an automated reply leads to: a deferral when its label defers and it states a date, then the
  tag.\<close>

lemma automated_calls:
  assumes "reply_dispatch (dispatch_of M model (PgInbox E) now w msg ref) s = (Inr p, s')"
    and "classifyHeaders M (reply_input_of msg) = Some res" "\<not> LooksLikeUnsubscribe M (reply_input_of msg)"
    and "sr_enrollment ref \<noteq> []" "uuid_Parse (ie_lib E) w = Some ws"
    and "\<forall>l. GetReplyLabelByKey ws (rr_class res) s = Some l \<longrightarrow> runs_on l"
  obtains (deferred) t v s2 where "deferred_to E ws (rr_class res) M msg now s = Some t" "stated_return M msg now = Some t"
      "core_act (localDeferEnrollment (ie_lib E) (ie_flt E) (ie_nowdb E) (sr_enrollment ref) w t) s = (Inr v, s2)"
      "record_class (dispatch_of M model (PgInbox E) now w msg ref) s2 = (Inr v, s')"
    | (plain) v where "deferred_to E ws (rr_class res) M msg now s = None"
      "record_class (dispatch_of M model (PgInbox E) now w msg ref) s = (Inr v, s')"
proof -
  let ?d = "dispatch_of M model (PgInbox E) now w msg ref"
  have res: "Classify M model (reply_input_of msg) = res" using assms(2) by (simp add: Classify_def)
  have auto_class: "IsAutomated (rr_class res)" using classifyHeaders_class [OF assms(2)] by simp
  have cls: "rr_class res \<in> set reply_classes" using Classify_class [of M model "reply_input_of msg"] by (simp add: res)
  note look = resolved_label [OF assms(5) cls, where s = s]
  show thesis
  proof (cases "resolveReplyLabel (PgInbox E) w (rr_class res) s")
    case None
    then have "deferred_to E ws (rr_class res) M msg now s = None"
      unfolding look by (auto simp: deferred_to_def split: if_splits)
    moreover obtain v where "record_class ?d s = (Inr v, s')"
      using assms(1,3) None auto_class by (auto simp: reply_dispatch_def byClass_def res bind_act_Inr pure_Inr)
    ultimately show thesis using that(2) by blast
  next
    case (Some l)
    then obtain r where r: "ie_flt E ''GetReplyLabelByKey'' = None" "GetReplyLabelByKey ws (rr_class res) s = Some r" "l = label_of r"
      unfolding look by (auto split: if_splits)
    have runs: "runs_on r" using assms(6) r(2) by blast
    have none: "captureDeal False ?d = pure ()" by (simp add: captureDeal_def)
    from assms(1) Some have "byLabel ?d (label_of r) s = (Inr p, s')" by (simp add: reply_dispatch_def res r(3))
    then obtain b s2 v where step: "deferUntilReturn (label_of r) ?d s = (Inr b, s2)" "record_class ?d s2 = (Inr v, s')"
      using runs assms(3) none by (auto simp: byLabel_def runs_on_def label_of_def bind_act_Inr pure_Inr)
    have dt: "deferred_to E ws (rr_class res) M msg now s = (if rl_defers_enrollment r then stated_return M msg now else None)"
      by (simp add: deferred_to_def r(1,2))
    have until: "deferUntilReturn (label_of r) ?d = (if rl_defers_enrollment r
        then case stated_return M msg now of None \<Rightarrow> pure False
          | Some t \<Rightarrow> bind_act (core_act (localDeferEnrollment (ie_lib E) (ie_flt E) (ie_nowdb E) (sr_enrollment ref) w t)) (\<lambda>_. pure True)
        else pure False)"
      using assms(4) by (simp add: deferUntilReturn_def stated_return_def label_of_def PgInbox_def Let_def
          cong: option.case_cong)
    show thesis
      using step that unfolding until dt by (auto simp: bind_act_Inr pure_Inr split: if_splits option.splits)
  qed
qed

lemma stated_return_bounds: "stated_return M msg now = Some t \<Longrightarrow> now < t \<and> t \<le> now + maxDeferral"
  using parseReturnDate_bounds by (auto simp: stated_return_def Let_def)

text \<open>C35: An automated reply defers and does not end. When a message that a header marks as automated, and
  that is no opt-out, has been processed, and its class has no label in the workspace or one that is
  automated and neither stops, suppresses nor captures a deal, as the seeded ones do, the enrollment it
  answers is still active at the same step: it carries the class, and its next send is due on the
  return date the message states, within the bounds of a deferral, when that label defers, and when it
  was due before otherwise. The label service accepts other flags for these labels, and the flags then
  decide.\<close>

theorem automated_reply_defers:
  assumes "processMessage M model (PgInbox E) now w mb msg s = (Inr p, s')" and "plain_reply M msg"
    and "classifyHeaders M (reply_input_of msg) = Some res" "\<not> LooksLikeUnsubscribe M (reply_input_of msg)"
    and "first_match (PgInbox E) w (MessageIDs (ib_header msg)) s = Some ref" "sr_enrollment ref \<noteq> []"
    and "uuid_Parse (ie_lib E) (sr_enrollment ref) = Some eid" "uuid_Parse (ie_lib E) w = Some ws"
    and "\<forall>l. GetReplyLabelByKey ws (rr_class res) s = Some l \<longrightarrow> runs_on l"
    and "GetEnrollment ws eid (enr s) = Some e" "en_status e = StatusActive"
  shows "GetEnrollment ws eid (enr s') = Some (tagged (rr_class res) SourceHeader (ie_nowdb E)
      (e\<lparr>next_due_at := (case deferred_to E ws (rr_class res) M msg now s of Some t \<Rightarrow> Some t | None \<Rightarrow> next_due_at e)\<rparr>))
    \<and> (case deferred_to E ws (rr_class res) M msg now s of Some t \<Rightarrow> now < t \<and> t \<le> now + maxDeferral | None \<Rightarrow> True)"
proof -
  let ?d = "dispatch_of M model (PgInbox E) now w msg ref"
  have res: "Classify M model (reply_input_of msg) = res" using assms(3) by (simp add: Classify_def)
  have cls: "rr_class res \<noteq> []" "IsAutomated (rr_class res)" "rr_source res = SourceHeader"
    using Classify_class [of M model "reply_input_of msg"] class_key classifyHeaders_class [OF assms(3)] by (auto simp: res)
  obtain u s1 where st: "stored M model (PgInbox E) now w msg ref s = (Inr u, s1)"
    and run: "reply_dispatch ?d s1 = (Inr p, s')"
    using reply_stored [OF assms(1) [unfolded plain_reply_message [OF assms(2)]] assms(5)] by blast
  note apart = stored_apart [OF st]
  have look: "GetReplyLabelByKey ws (rr_class res) s1 = GetReplyLabelByKey ws (rr_class res) s"
    "deferred_to E ws (rr_class res) M msg now s1 = deferred_to E ws (rr_class res) M msg now s"
    using apart by (simp_all add: GetReplyLabelByKey_def deferred_to_def)
  have key: "automated_key ws (rr_class res) (gd_jobs s1)"
    using assms(9) cls(2) look
    by (auto simp: automated_key_def GetReplyLabelByKey_def runs_on_def IsAutomated_def const_defs split: option.split)
  have tag: "GetEnrollment ws eid (enr s') = Some (tagged (rr_class res) SourceHeader (ie_nowdb E) e')"
    if "record_class ?d s2 = (Inr v, s')" "GetEnrollment ws eid (enr s2) = Some e'"
      "jd_labels (gd_jobs s2) = jd_labels (gd_jobs s1)" for s2 v e'
    using tagged_by_class [of E "sr_enrollment ref" w "rr_class res" SourceHeader "rr_confidence res" s2 v s' eid ws e'] that
      assms(6-8) cls key automated_key_kept [OF that(3), of ws "rr_class res"]
    by (auto simp: record_class_def PgInbox_def res SourceHeader_def)
  from assms(9) have "\<forall>l. GetReplyLabelByKey ws (rr_class res) s1 = Some l \<longrightarrow> runs_on l" by (simp add: look)
  from run assms(3,4,6,8) this show ?thesis
  proof (cases rule: automated_calls)
    case (deferred t v s2)
    from deferred_row [OF deferred(3) assms(7,8)] assms(10,11) apart
    have "GetEnrollment ws eid (enr s2) = Some (e\<lparr>next_due_at := Some t\<rparr>)" "jd_labels (gd_jobs s2) = jd_labels (gd_jobs s1)"
      by simp_all
    from tag [OF deferred(4) this] stated_return_bounds [OF deferred(2)] show ?thesis by (simp add: deferred(1) look(2) [symmetric])
  next
    case (plain v)
    from tag [OF plain(2)] assms(10) apart show ?thesis by (simp add: plain(1) look(2) [symmetric])
  qed
qed

subsection \<open>What a message cannot do\<close>

text \<open>C11: Mail from outside reaches only the recipients it names. Whatever a message says, whether it is a
  bounce, a complaint or a reply, forged or not, and whatever fails on the way, the only addresses it can
  suppress are those of sends of this workspace whose message ids it quotes, and the only enrollments
  it can change are the enrollments of those sends' recipients in the same campaign.\<close>

theorem only_named_recipients:
  assumes "processMessage M model (PgInbox E) now w mb msg s = (r, s')"
    and "externals_keep E (confined E w (named_ids M msg))"
    and "uuid_Parse (ie_lib E) w = Some ws" "text_roundtrips (ie_lib E)" "distinct (map en_id (enr s))"
  shows "(\<forall>(v, a) \<in> supp s' - supp s. v = ws \<and> (\<exists>x \<in> set (snds s). sd_ws x = ws \<and> sd_message_id x \<in> named_ids M msg
            \<and> (a = sd_to_email x \<or> a = TrimSpace (sd_to_email x))))
       \<and> list_all2 (\<lambda>e e'. e' \<noteq> e \<longrightarrow> en_ws e = ws \<and> (\<exists>x \<in> set (snds s). sd_ws x = ws
            \<and> sd_message_id x \<in> named_ids M msg \<and> sd_campaign x = en_campaign e \<and> sd_contact x = en_contact e)) (enr s) (enr s')"
proof -
  let ?N = "named_ids M msg"
  have keep: "keeps always (confined E w ?N) (processMessage M model (PgInbox E) now w mb msg)"
    using assms(2) by (intro pg_reach.keeps_message) simp_all
  have "confined E w ?N s s'" using keepsD [OF keep _ assms(1)] by simp
  then have mail: "supp s' \<subseteq> supp s \<union> reach_mail E w ?N (snds s)"
    and rows: "list_all2 (reached_row E w (reach_ids E w ?N (snds s) (keys s))) (enr s) (enr s')"
    by (simp_all add: confined_def)
  have "list_all2 (\<lambda>e e'. e' \<noteq> e \<longrightarrow> en_ws e = ws \<and> (\<exists>x \<in> set (snds s). sd_ws x = ws
      \<and> sd_message_id x \<in> ?N \<and> sd_campaign x = en_campaign e \<and> sd_contact x = en_contact e)) (enr s) (enr s')"
  proof (rule list.rel_mono_strong [OF rows])
    fix e e'
    assume e: "e \<in> set (enr s)" and reached: "reached_row E w (reach_ids E w ?N (snds s) (keys s)) e e'"
    show "e' \<noteq> e \<longrightarrow> en_ws e = ws \<and> (\<exists>x \<in> set (snds s). sd_ws x = ws
      \<and> sd_message_id x \<in> ?N \<and> sd_campaign x = en_campaign e \<and> sd_contact x = en_contact e)"
    proof
      assume "e' \<noteq> e"
      with reached assms(3) have "en_ws e = ws" "en_id e \<in> reach_ids E w ?N (snds s) (keys s)"
        by (auto simp: reached_row_def)
      then obtain x f where "x \<in> reach_sends E w ?N (snds s)" "f \<in> set (enr s)" "en_id f = en_id e"
        "en_campaign f = sd_campaign x" "en_contact f = sd_contact x"
        using assms(4) by (auto simp: reach_ids_def en_key_def text_roundtrips_def)
      moreover have "f = e" using calculation(2,3) e assms(5) by (auto simp: distinct_map dest: inj_onD)
      ultimately show "en_ws e = ws \<and> (\<exists>x \<in> set (snds s). sd_ws x = ws
        \<and> sd_message_id x \<in> ?N \<and> sd_campaign x = en_campaign e \<and> sd_contact x = en_contact e)"
        using \<open>en_ws e = ws\<close> assms(3) by (auto simp: reach_sends_def)
    qed
  qed
  moreover have "\<forall>(v, a) \<in> supp s' - supp s. v = ws \<and> (\<exists>x \<in> set (snds s). sd_ws x = ws \<and> sd_message_id x \<in> ?N
      \<and> (a = sd_to_email x \<or> a = TrimSpace (sd_to_email x)))"
    using mail assms(3) by (fastforce simp: reach_mail_def reach_sends_def)
  ultimately show ?thesis by blast
qed

text \<open>C36: The record of conversations stays sound. Over any pass, completed or not, threads stay unique by
  id and by root message, a message with an id is stored once however often it is read again, every
  message is in the mailbox and workspace of its thread, none is lost, no address leaves the suppression
  list, and an enrollment that has ended keeps its end.\<close>

theorem conversations_stay_sound:
  assumes "process_all (processMessage M model (PgInbox E) now w mb) msgs s = (r, s')" and "talk_sound (talk s)"
    and "externals_keep E kept_db"
  shows "talk_sound (talk s') \<and> set (jd_messages (gd_jobs s)) \<subseteq> set (jd_messages (gd_jobs s'))
    \<and> supp s \<subseteq> supp s' \<and> list_all2 settled (enr s) (enr s')"
proof -
  have keep: "keeps always kept_db (processMessage M model (PgInbox E) now w mb m)" for m
    using assms(3) by (intro pg_inbox.keeps_message) simp_all
  from keepsD [OF pg_inbox.keeps_pass [OF keep] _ assms(1)] assms(2) show ?thesis by (simp add: kept_db_def)
qed

subsection \<open>Runs on concrete mail\<close>

definition plain_mail :: mail_lib where
  "plain_mail = \<lparr>ml_text = plain_text, unicode_fold = (=), ParseMediaType = \<lambda>_. (''text/plain'', \<lambda>_. None, True),
     multipart_parts = \<lambda>_ _. [], ReadMIMEHeader = \<lambda>s. ([], s), quoted_printable = Some, base64_std = Some,
     ParseAddress = \<lambda>s. Some ([], s), ParseDate = \<lambda>_. None\<rparr>"

definition inbox_env0 :: inbox_env where
  "inbox_env0 = \<lparr>ie_guard = guard_env0, ie_lib = plain_lib, ie_flt = no_faults, ie_now = 10, ie_nowdb = 10,
     ie_new_id = \<lambda>_. 77, ie_warmup_bounce = None, ie_crm = None\<rparr>"

text \<open>A workspace with its seeded labels, out-of-office deferring, and one send, of campaign \<open>c\<close>.\<close>

definition asked_send :: "uuid \<Rightarrow> send" where
  "asked_send c = \<lparr>sd_id = 8, sd_ws = 1, sd_campaign = c, sd_contact = 3, sd_mailbox = 4, sd_to_email = ''bob@acme.org'',
     sd_step_order = 1, sd_references = [], sd_status = ''sent'', sd_error = [], sd_message_id = ''<m@a>'',
     sd_created_at = 1, sd_sent_at = Some 1, sd_claimed_at = None, sd_variant = None, sd_tracked = False\<rparr>"

definition away_defers :: "reply_label \<Rightarrow> reply_label" where
  "away_defers l = (if rl_key l = ''out_of_office'' then l\<lparr>rl_defers_enrollment := True\<rparr> else l)"

definition inbox_db :: "uuid \<Rightarrow> guard_db" where
  "inbox_db c = guard_quiet\<lparr>gd_jobs := pool_db\<lparr>jd_core := (jd_core pool_db)\<lparr>db_sends := [asked_send c]\<rparr>,
     jd_labels := map away_defers (seed_reply_labels 1 [])\<rparr>\<rparr>"

definition reply_saying :: "string \<Rightarrow> (string \<times> string list) list \<Rightarrow> inbound" where
  "reply_saying body h =
     \<lparr>ib_header = [(''In-Reply-To'', [''<m@a>''])] @ h,
      ib_content_type = ''text/plain'', ib_body = body\<rparr>"

definition automatic :: "(string \<times> string list) list" where "automatic = [(''Auto-Submitted'', [''auto-replied''])]"
definition stop_mail :: inbound where "stop_mail = reply_saying ''Unsubscribe'' automatic"
definition human_mail :: inbound where "human_mail = reply_saying ''Sure'' []"
definition away_mail :: inbound where "away_mail = reply_saying ''Back on Jan 5'' automatic"

abbreviation sample_message :: "inbound \<Rightarrow> (guard_db, processed) act" where
  "sample_message \<equiv> processMessage plain_mail None (PgInbox inbox_env0) 10 ''x'' ''xxxx''"

lemma inbox_env0_simps:
  "ie_lib inbox_env0 = plain_lib" "ie_guard inbox_env0 = guard_env0" "ie_flt inbox_env0 = no_faults"
  "ie_nowdb inbox_env0 = 10" "externals_keep inbox_env0 R" "uuid_Parse plain_lib w = Some (of_nat (length w))"
  by (simp_all add: inbox_env0_def externals_keep_def pool_env_simps)

lemma inbox_db_simps:
  "jd_labels (gd_jobs (inbox_db c)) = map away_defers (seed_reply_labels 1 [])"
  "snds (inbox_db c) = [asked_send c]" "enr (inbox_db c) = [pool_enrollment]" "talk (inbox_db c) = ([], [])"
  by (simp_all add: inbox_db_def pool_db_def)

lemma sample_plain: "plain_reply plain_mail stop_mail" "plain_reply plain_mail human_mail" "plain_reply plain_mail away_mail"
  by code_simp+

definition sample_ref :: "uuid \<Rightarrow> SendRef" where
  "sample_ref c = the (first_match (PgInbox inbox_env0) ''x'' [''<m@a>''] (inbox_db c))"

lemma sample_ids:
  "MessageIDs (ib_header stop_mail) = [''<m@a>'']" "MessageIDs (ib_header human_mail) = [''<m@a>'']"
  "MessageIDs (ib_header away_mail) = [''<m@a>'']"
  by code_simp+

lemma sample_match:
  "first_match (PgInbox inbox_env0) ''x'' [''<m@a>''] (inbox_db 9) = Some (sample_ref 9)"
  "first_match (PgInbox inbox_env0) ''x'' [''<m@a>''] (inbox_db 2) = Some (sample_ref 2)"
  "sr_contact_email (sample_ref 9) = ''bob@acme.org''" "sr_enrollment (sample_ref 2) = ''xxxxxx''"
  by code_simp+

lemma seeded_labels_reproduce_classes_witness:
  "reply_dispatch (dispatch_of plain_mail None (PgInbox inbox_env0) 10 ''x'' human_mail (sample_ref 2))
      (guard_quiet\<lparr>gd_jobs := pool_db\<lparr>jd_labels := seed_reply_labels 1 []\<rparr>\<rparr>)
   = byClass (dispatch_of plain_mail None (PgInbox inbox_env0) 10 ''x'' human_mail (sample_ref 2))
      (guard_quiet\<lparr>gd_jobs := pool_db\<lparr>jd_labels := seed_reply_labels 1 []\<rparr>\<rparr>)"
  by (rule seeded_labels_reproduce_classes [where model = None and ws = 1 and others = "[]" and E = inbox_env0])
    (simp_all add: inbox_env0_simps)

lemma away_defers_flags [simp]:
  "rl_ws (away_defers l) = rl_ws l" "rl_key (away_defers l) = rl_key l"
  "rl_is_automated (away_defers l) = rl_is_automated l" "rl_stops_enrollment (away_defers l) = rl_stops_enrollment l"
  "rl_suppresses_contact (away_defers l) = rl_suppresses_contact l"
  "rl_captures_deal (away_defers l) = rl_captures_deal l"
  by (simp_all add: away_defers_def)

lemma sample_labels:
  assumes "GetReplyLabelByKey 1 c (inbox_db k) = Some r"
  shows "(IsAutomated c \<or> c = ClassUnsubscribe \<longrightarrow> rl_suppresses_contact r \<or> rl_is_automated r)
     \<and> (\<not> IsAutomated c \<longrightarrow> rl_suppresses_contact r \<or> rl_stops_enrollment r)"
proof -
  from assms have "rl_key r = c" "r \<in> set (map away_defers (seed_reply_labels 1 []))"
    by (auto simp: GetReplyLabelByKey_def inbox_db_simps simp del: set_map dest!: select_one_SomeD)
  then show ?thesis using seeded_flags by (fastforce simp: seed_reply_labels_def)
qed

text \<open>The samples, evaluated: what each is classified as, and the calls then made.\<close>

definition away_result :: reply_result where
  "away_result = \<lparr>rr_class = ClassOutOfOffice, rr_source = SourceHeader, rr_confidence = f_lit 95 100\<rparr>"

definition unsure_result :: reply_result where
  "unsure_result = \<lparr>rr_class = ClassUnknown, rr_source = SourceNone, rr_confidence = f_int 0\<rparr>"

lemma human_headers: "classifyHeaders plain_mail (reply_input_of human_mail) = None"
  by code_simp

lemma stop_headers: "classifyHeaders plain_mail (reply_input_of stop_mail) = Some away_result"
  by code_simp

lemma headers_only:
  "ri_headers a = ri_headers b \<Longrightarrow> ri_subject a = ri_subject b \<Longrightarrow> classifyHeaders M a = classifyHeaders M b"
  by (simp only: classifyHeaders_def)

lemma away_headers: "classifyHeaders plain_mail (reply_input_of away_mail) = Some away_result"
  using headers_only [of "reply_input_of away_mail" "reply_input_of stop_mail" plain_mail] stop_headers
  by (simp add: reply_input_of_def reply_saying_def away_mail_def stop_mail_def)

lemmas sample_headers = stop_headers away_headers human_headers

lemma sample_classes:
  "Classify plain_mail None (reply_input_of stop_mail) = away_result"
  "Classify plain_mail None (reply_input_of away_mail) = away_result"
  "Classify plain_mail None (reply_input_of human_mail) = unsure_result"
proof -
  have "classifyLexicon plain_mail (reply_input_of human_mail) = None" by code_simp
  then show "Classify plain_mail None (reply_input_of stop_mail) = away_result"
    "Classify plain_mail None (reply_input_of away_mail) = away_result"
    "Classify plain_mail None (reply_input_of human_mail) = unsure_result"
    by (simp_all add: Classify_def sample_headers unsure_result_def)
qed

definition sample_calls :: "inbound \<Rightarrow> uuid \<Rightarrow> reply_result \<Rightarrow> (guard_db, processed) act" where
  "sample_calls m c res =
     bind_act (localStoreInboundMessage inbox_env0 (store_input plain_mail 10 ''x'' m (sample_ref c) (rr_class res)))
       (\<lambda>_. reply_dispatch \<lparr>dp_core = PgInbox inbox_env0, dp_mail = plain_mail, dp_now = 10, dp_workspace = ''x'',
          dp_msg = m, dp_in = reply_input_of m, dp_send = sample_ref c, dp_result = res\<rparr>)"

lemma mail_run:
  assumes "plain_reply plain_mail m" "MessageIDs (ib_header m) = [''<m@a>'']"
    and "first_match (PgInbox inbox_env0) ''x'' [''<m@a>''] s = Some (sample_ref c)"
    and "Classify plain_mail None (reply_input_of m) = res"
  shows "sample_message m s = sample_calls m c res s"
  using assms(3) unfolding assms(4) [symmetric]
  by (simp add: plain_reply_message [OF assms(1)] assms(2) Let_def sample_calls_def split: sum.splits)
    (simp add: PgInbox_def)

lemmas mail_runs =
  mail_run [OF sample_plain(1) sample_ids(1) sample_match(1) sample_classes(1)]
  mail_run [OF sample_plain(2) sample_ids(2) sample_match(2) sample_classes(3)]
  mail_run [OF sample_plain(3) sample_ids(3) sample_match(2) sample_classes(2)]

lemma one_message:
  "f m s = (Inr p, s') \<Longrightarrow> process_all f [m] s = (Inr (), s')"
  by (simp add: bind_act_def)

lemma opt_out_is_honoured_witness:
  "\<exists>s' j. process_all sample_message [stop_mail] (inbox_db 9) = (Inr (), s')
     \<and> fst (localStepSendJob pool_env no_faults 0 0 ''xxxxxx'' ''x'' (gd_jobs s')) = Inr j \<and> \<not> inert j \<and> Suppressed j"
proof -
  have "case sample_calls stop_mail 9 away_result (inbox_db 9) of (Inr p, s') \<Rightarrow>
      (case localStepSendJob pool_env no_faults 0 0 ''xxxxxx'' ''x'' (gd_jobs s') of
        (Inr j, _) \<Rightarrow> \<not> inert j \<and> ToEmail j = ''bob@acme.org'' | _ \<Rightarrow> False) | _ \<Rightarrow> False" by code_simp
  then obtain p s' j jobs' where run: "sample_message stop_mail (inbox_db 9) = (Inr p, s')"
    and j: "localStepSendJob pool_env no_faults 0 0 ''xxxxxx'' ''x'' (gd_jobs s') = (Inr j, jobs')"
      "\<not> inert j" "ToEmail j = ''bob@acme.org''"
    by (auto simp: mail_runs split: prod.splits sum.splits)
  note pass = one_message [where f = sample_message, OF run]
  have "LooksLikeUnsubscribe plain_mail (reply_input_of stop_mail)" by code_simp
  moreover have "\<forall>r. GetReplyLabelByKey 1 (rr_class away_result) (inbox_db 9) = Some r \<longrightarrow>
      rl_suppresses_contact r \<or> rl_is_automated r"
    using sample_labels [of "rr_class away_result" 9] by (auto simp: away_result_def IsAutomated_def const_defs)
  ultimately have "Suppressed j"
    using opt_out_is_honoured [OF pass _ sample_plain(1), of "sample_ref 9" 1 pool_env] j
    by (simp add: sample_ids sample_match sample_classes inbox_env0_simps pool_env_simps plain_roundtrips del: first_match.simps)
      (simp add: pool_env_def guard_env0_def)
  with pass j show ?thesis by auto
qed

lemma human_reply_ends_the_sequence_witness:
  "\<exists>s' j. process_all sample_message [human_mail] (inbox_db 2) = (Inr (), s')
     \<and> fst (localStepSendJob pool_env no_faults 0 0 ''xxxxxx'' ''x'' (gd_jobs s')) = Inr j \<and> inert j"
proof -
  have "case sample_calls human_mail 2 unsure_result (inbox_db 2) of (Inr p, s') \<Rightarrow>
      (case localStepSendJob pool_env no_faults 0 0 ''xxxxxx'' ''x'' (gd_jobs s') of (Inr j, _) \<Rightarrow> True | _ \<Rightarrow> False)
      | _ \<Rightarrow> False" by code_simp
  then obtain p s' j jobs' where run: "sample_message human_mail (inbox_db 2) = (Inr p, s')"
    and j: "localStepSendJob pool_env no_faults 0 0 ''xxxxxx'' ''x'' (gd_jobs s') = (Inr j, jobs')"
    by (auto simp: mail_runs split: prod.splits sum.splits)
  note pass = one_message [where f = sample_message, OF run]
  have "\<forall>r. GetReplyLabelByKey 1 (rr_class unsure_result) (inbox_db 2) = Some r \<longrightarrow>
      rl_suppresses_contact r \<or> rl_stops_enrollment r"
    using sample_labels [of "rr_class unsure_result" 2] by (auto simp: unsure_result_def IsAutomated_def const_defs)
  with human_reply_ends_the_sequence [OF pass _ sample_plain(2) sample_headers(3), of "sample_ref 2" 1 "gd_jobs s'" "[]" pool_env] j
  have "inert j"
    by (simp add: sample_ids sample_match sample_classes inbox_env0_simps pool_env_simps del: first_match.simps)
  with pass j show ?thesis by auto
qed

lemma only_named_recipients_witness:
  "supp (snd (sample_message stop_mail (inbox_db 9))) - supp (inbox_db 9) \<subseteq> {(1, ''bob@acme.org'')}"
proof -
  have t: "TrimSpace ''bob@acme.org'' = ''bob@acme.org''" by code_simp
  obtain r s' where run: "sample_message stop_mail (inbox_db 9) = (r, s')" by fastforce
  have d: "distinct (map en_id (enr (inbox_db 9)))" by (simp add: inbox_db_simps)
  from only_named_recipients [OF run inbox_env0_simps(5) _ _ d, of 1] plain_roundtrips
  show ?thesis by (auto simp: run inbox_env0_simps inbox_db_simps asked_send_def t)
qed

lemma conversations_stay_sound_witness:
  "\<exists>s'. process_all sample_message [human_mail] (inbox_db 2) = (Inr (), s')
     \<and> talk_sound (talk s') \<and> length (jd_messages (gd_jobs s')) = 1"
proof -
  have "case sample_calls human_mail 2 unsure_result (inbox_db 2) of
      (Inr p, s') \<Rightarrow> length (jd_messages (gd_jobs s')) = 1 | _ \<Rightarrow> False" by code_simp
  then obtain p s' where run: "sample_message human_mail (inbox_db 2) = (Inr p, s')"
    "length (jd_messages (gd_jobs s')) = 1" by (auto simp: mail_runs split: prod.splits sum.splits)
  note pass = one_message [where f = sample_message, OF run(1)]
  have "talk_sound (talk (inbox_db 2))" by (simp add: inbox_db_simps talk_sound_def threads_sound_def)
  from conversations_stay_sound [OF pass this inbox_env0_simps(5)] pass run(2) show ?thesis by blast
qed

lemma automated_reply_defers_witness:
  "\<exists>s' e t. sample_message away_mail (inbox_db 2) = (Inr handled, s')
     \<and> GetEnrollment 1 6 (enr s') = Some e \<and> en_status e = StatusActive \<and> next_due_at e = Some t \<and> 10 < t"
proof -
  have "case sample_calls away_mail 2 away_result (inbox_db 2) of (Inr p, s') \<Rightarrow> p = handled | _ \<Rightarrow> False" by code_simp
  then obtain s' where run: "sample_message away_mail (inbox_db 2) = (Inr handled, s')"
    by (auto simp: mail_runs split: prod.splits sum.splits)
  have no: "\<not> LooksLikeUnsubscribe plain_mail (reply_input_of away_mail)" by code_simp
  have cls: "rr_class away_result = ''out_of_office''" by (simp add: away_result_def const_defs)
  have "case deferred_to inbox_env0 1 ''out_of_office'' plain_mail away_mail 10 (inbox_db 2) of Some t \<Rightarrow> True | None \<Rightarrow> False"
    by code_simp
  then obtain t where t: "deferred_to inbox_env0 1 ''out_of_office'' plain_mail away_mail 10 (inbox_db 2) = Some t"
    by (auto split: option.splits)
  have labels: "\<forall>l. GetReplyLabelByKey 1 (rr_class away_result) (inbox_db 2) = Some l \<longrightarrow> runs_on l"
    by (simp add: cls GetReplyLabelByKey_def inbox_db_simps seed_reply_labels_def seed_rows_def runs_on_def)
  have row: "GetEnrollment 1 6 (enr (inbox_db 2)) = Some pool_enrollment"
    by (simp add: inbox_db_simps GetEnrollment_def is_row_def pool_enrollment_def)
  from automated_reply_defers [OF run sample_plain(3) sample_headers(2) no, of "sample_ref 2" 6 1 pool_enrollment] labels row
  show ?thesis
    by (auto simp: run sample_ids sample_match inbox_env0_simps cls t tagged_def pool_enrollment_def simp del: first_match.simps)
qed

end
