(* ===== verification/Inbox_Labels.thy ===== *)
theory Inbox_Labels
  imports Inbox_Facts
begin

text \<open>
  What the flags of reply labels decide. An operator may clear the flags of any label
  (\<open>internal/app/replylabel/service.go\<close>); the theorems of \<open>Inbox_Facts\<close> name the flags they rest on, and
  the two runs here show what happens without them.
\<close>

subsection \<open>A workspace with cleared flags\<close>

text \<open>A person asks to be unsubscribed; no header marks the reply as automated.\<close>

definition unsub_mail :: inbound where "unsub_mail = reply_saying ''Unsubscribe'' []"

definition cleared :: "string \<Rightarrow> reply_label \<Rightarrow> reply_label" where
  "cleared key l =
     (if rl_key l = key then l\<lparr>rl_suppresses_contact := False, rl_stops_enrollment := False\<rparr> else l)"

definition cleared_db :: "string \<Rightarrow> uuid \<Rightarrow> guard_db" where
  "cleared_db key c = inbox_db c\<lparr>gd_jobs := (gd_jobs (inbox_db c))\<lparr>
     jd_labels := map (cleared key) (seed_reply_labels 1 [])\<rparr>\<rparr>"

text \<open>The next job of the one enrollment, to \<open>bob@acme.org\<close>.\<close>

definition next_job :: "guard_db \<Rightarrow> step_job option" where
  "next_job s = (case localStepSendJob pool_env no_faults 0 0 ''xxxxxx'' ''x'' (gd_jobs s) of
     (Inr j, _) \<Rightarrow> Some j | _ \<Rightarrow> None)"

definition unsub_result :: reply_result where
  "unsub_result = \<lparr>rr_class = ClassUnsubscribe, rr_source = SourceLexicon, rr_confidence = f_lit 90 100\<rparr>"

lemma cleared_facts:
  "plain_reply plain_mail unsub_mail" "MessageIDs (ib_header unsub_mail) = [''<m@a>'']"
  "LooksLikeUnsubscribe plain_mail (reply_input_of unsub_mail)"
  "first_match (PgInbox inbox_env0) ''x'' [''<m@a>''] (cleared_db ''unsubscribe'' 9) = Some (sample_ref 9)"
  "first_match (PgInbox inbox_env0) ''x'' [''<m@a>''] (cleared_db ''unknown'' 2) = Some (sample_ref 2)"
  "Classify plain_mail None (reply_input_of unsub_mail) = unsub_result"
  by code_simp+

lemmas cleared_runs =
  mail_run [OF cleared_facts(1,2,4,6)] mail_run [OF sample_plain(2) sample_ids(2) cleared_facts(5) sample_classes(3)]

subsection \<open>What then happens\<close>

text \<open>With the flags of the unsubscribe label cleared, a reply that asks to be
  unsubscribed is recorded and the next job for its address is one the worker sends; with those of the
  label of unclassified replies cleared, a human reply leaves the enrollment running.\<close>

lemma cleared_label_ignores_opt_out:
  "LooksLikeUnsubscribe plain_mail (reply_input_of unsub_mail)
     \<and> fst (sample_message unsub_mail (cleared_db ''unsubscribe'' 9)) = Inr skipped
     \<and> (case next_job (snd (sample_message unsub_mail (cleared_db ''unsubscribe'' 9))) of
          Some j \<Rightarrow> ToEmail j = ''bob@acme.org'' \<and> \<not> inert j \<and> \<not> Suppressed j | None \<Rightarrow> False)"
proof -
  have "case sample_calls unsub_mail 9 unsub_result (cleared_db ''unsubscribe'' 9) of (r, s') \<Rightarrow>
      r = Inr skipped \<and> (case next_job s' of
        Some j \<Rightarrow> ToEmail j = ''bob@acme.org'' \<and> \<not> inert j \<and> \<not> Suppressed j | None \<Rightarrow> False)"
    by code_simp
  then show ?thesis by (simp add: cleared_facts cleared_runs split: prod.splits)
qed

lemma cleared_label_keeps_sequence:
  "sr_enrollment (sample_ref 2) = ''xxxxxx''
     \<and> (case next_job (snd (sample_message human_mail (cleared_db ''unknown'' 2))) of
          Some j \<Rightarrow> \<not> inert j | None \<Rightarrow> False)"
proof -
  have "case sample_calls human_mail 2 unsure_result (cleared_db ''unknown'' 2) of (r, s') \<Rightarrow>
      (case next_job s' of Some j \<Rightarrow> \<not> inert j | None \<Rightarrow> False)"
    by code_simp
  then show ?thesis by (simp add: sample_match cleared_runs split: prod.splits)
qed

end
