(* ===== verification/Spec2Isabelle.thy ===== *)
theory Spec2Isabelle
  imports Graph_Routes Wake_Times Handler_Facts Claim_Facts Spintax_Groups Ab_Test Send_Cap Sweep_Facts Route_Facts Signed_Tokens Job_Facts Breaker_Facts Lifecycle Edit_Facts Inbox_Labels
begin

text \<open>
  Inroad sends sequences of cold mail. A control plane keeps the state in Postgres and decides what may
  be sent; workers take one "advance" task per enrollment from a queue, ask the control plane for
  the job of its next step, claim it, hand the message to a mail transport and report back. This
  library models that path and the policies that feed it, from the Go sources under \<open>src/internal\<close>.

  \<^bold>\<open>The parts and their theories.\<close>

  \<^item> \<open>Inroad_Prelude\<close>, \<open>Sql_Table\<close>, \<open>Go_Float\<close>: instants and durations in nanoseconds since the zero
    time of Go's \<open>time\<close> package, Go's division and 32-bit wrap-around, tables as lists of rows with
    the statements run on them, failures of statements (\<open>faults\<close>), and \<open>float64\<close> arithmetic.
  \<^item> \<open>Sequence_Graph\<close>, \<open>Graph_Cycle\<close>, \<open>Graph_Routes\<close>: the branched sequence
    (\<open>platform/seqgraph/seqgraph.go\<close>): conditions, construction, validation with its cycle search,
    routing and verdicts.
  \<^item> \<open>Send_Window\<close>, \<open>Window_Placement\<close>, \<open>Steady_Clock\<close>: sending windows and schedules (\<open>platform/cadence\<close>),
    placement under a fixed offset, and in any zone between two changes of its offset.
  \<^item> \<open>Enrollment\<close>, \<open>Enrollment_Service\<close>: the enrollment's states, the service, its store interface and
    the SQL behind it (\<open>app/enrollment\<close>, \<open>queries/enrollment.sql\<close>).
  \<^item> \<open>Step_Send\<close>, \<open>Send_Claims\<close>, \<open>Claim_Facts\<close>: the delivery claim and the reports of
    \<open>coreapi/inprocess/stepsendjob.go\<close> (\<open>localClaimStepSend\<close>, \<open>localMarkStepDelivered\<close>,
    \<open>localAdvanceStepCursor\<close>, \<open>localFinalizeStepSend\<close>, \<open>localReleaseStepSend\<close> and the rest).
  \<^item> \<open>Advance_Handler\<close>, \<open>Handler_Facts\<close>, \<open>Wake_Times\<close>: the worker's handler and sweeper
    (\<open>worker/sequence/advance.go\<close>, \<open>sweeper.go\<close>, \<open>platform/mail/retry.go\<close>) as a tree of calls, one node per call
    the code makes, in its order.
  \<^item> \<open>Send_Engine\<close>, \<open>Send_Safety\<close>: many workers, one control plane, crashes and clocks, as a step
    relation over those trees.
  \<^item> \<open>Branch_Route\<close>, \<open>Route_Facts\<close>: routing one advance of a branched campaign (\<open>branchroute.go\<close>).
  \<^item> \<open>Job_Tables\<close>, \<open>Step_Job\<close>, \<open>Job_Facts\<close>: building the job of the next step (\<open>localStepSendJob\<close>)
    and the tables and statements it reads.
  \<^item> \<open>Sender_Pool\<close>, \<open>Pool_Facts\<close>, \<open>Rotation\<close>, \<open>Host_Names\<close>: the mailbox a step is sent from
    (\<open>senderpool.go\<close>, \<open>platform/rotation\<close>, \<open>platform/esp\<close>, \<open>platform/warmup/domain.go\<close>,
    \<open>exposure.go\<close>).
  \<^item> \<open>Send_Cap\<close>, \<open>Warmup_Policy\<close>, \<open>Policy_Facts\<close>, \<open>Warmup_Sweep\<close>, \<open>Sweep_Facts\<close>: the capacity of a
    mailbox (\<open>platform/sendcap\<close>) and the health and lane of a warming mailbox
    (\<open>platform/warmup/policy.go\<close>, \<open>degraded.go\<close>), with the sweep that stores them
    (\<open>coreapi/inprocess/warmupreceiptjob.go\<close>).
  \<^item> \<open>Breaker\<close>, \<open>Breaker_Service\<close>, \<open>Breaker_Facts\<close>: the deliverability score and verdict
    (\<open>platform/deliverability/deliverability.go\<close>) and the service that pauses a campaign on its bounce
    and complaint rates and takes in reported events (\<open>app/deliverability/service.go\<close>, \<open>store.go\<close>).
  \<^item> \<open>Campaign_Life\<close>, \<open>Campaign_Launch\<close>, \<open>Send_Spread\<close>, \<open>Schedule_Facts\<close>, \<open>Launch_Facts\<close>, \<open>Lifecycle\<close>: the
    campaign from its creation to its launch, pause and deletion, with its sending plan
    (\<open>app/campaign/service.go\<close>, \<open>lifecycle.go\<close>, \<open>schedule.go\<close>, \<open>store.go\<close>) and the spreading of a launch
    over the day (\<open>platform/cadence/spread.go\<close>).
  \<^item> \<open>Sequence_Edit\<close>, \<open>Edit_Facts\<close>: the steps, branches and variants of a campaign as an operator edits them,
    under the graph lock (\<open>app/sequencestep\<close>).
  \<^item> \<open>Reply_Classify\<close>, \<open>Inbox_Message\<close>, \<open>Return_Date\<close>, \<open>Reply_Dispatch\<close>: what the inbox worker makes of one inbound
    message (\<open>platform/replyclassify\<close>, \<open>platform/mime/mime.go\<close>, \<open>worker/inbox/reply.go\<close>, \<open>dsn.go\<close>, \<open>arf.go\<close>,
    \<open>returndate.go\<close>, \<open>dispatch.go\<close>, \<open>processMessage\<close> in \<open>poll.go\<close>).
  \<^item> \<open>Inbox_Core\<close>, \<open>Inbox_Contract\<close>, \<open>Inbox_Calls\<close>, \<open>Inbox_Store\<close>, \<open>Inbox_Facts\<close>, \<open>Inbox_Labels\<close>: what the control plane writes
    for it (\<open>coreapi/inprocess/inboxpoll.go\<close>, \<open>inbox.go\<close>, \<open>complaint.go\<close>, \<open>replylabel.go\<close>, \<open>app/inbox\<close>,
    \<open>app/replylabel\<close>), the contracts of those calls and the properties.
  \<^item> \<open>Spintax\<close>, \<open>Spintax_Groups\<close>, \<open>Personalize\<close>, \<open>Ab_Test\<close>: the text of a message
    (\<open>platform/spintax\<close>, \<open>worker/personalize\<close>, \<open>platform/abtest\<close>).
  \<^item> \<open>Signed_Tokens\<close>: unsubscribe, tracking, OAuth state and WebSocket tokens (\<open>platform/unsub\<close>,
    \<open>track\<close>, \<open>oauthstate\<close>, \<open>wsticket\<close>).

  \<^bold>\<open>How they meet.\<close> The handler tree calls a \<open>Client\<close>; \<open>PgClient\<close> is the control plane's own. The
  locale \<open>claim_store\<close> (\<open>Send_Claims\<close>) states what at-most-once delivery needs of a client and is
  interpreted on \<open>PgClient\<close>; \<open>Send_Safety\<close> proves delivery inside it for any number of workers.
  \<open>good_job\<close> is what it needs of jobs, and \<open>Job_Facts\<close> proves that every job the control plane builds
  satisfies it. The locale \<open>enrollment_store\<close> is the contract of the enrollment service's store,
  interpreted on \<open>PgStore\<close>; \<open>comparison\<close> (\<open>Rotation\<close>) is the contract of a Go comparison function,
  interpreted on the orders of sender selection and of the usage panel; \<open>penalty_scale\<close> (\<open>Breaker\<close>) is what
  the score asks of a penalty, interpreted on the bounce, complaint and spam scales. The breaker and the
  campaign service write the campaign row the job builder reads: \<open>breaker_stops_sending\<close> and
  \<open>stored_plan_compiles\<close> span the two. Editing a sequence runs the same validation (\<open>Graph_Cycle\<close>) and the
  same selection (\<open>Ab_Test\<close>) as the sending path reads it with. Inbound mail meets the sending path in the
  enrollment and the suppression list: \<open>inbox_frame\<close> and \<open>inbox_contract\<close> (\<open>Inbox_Contract\<close>) are what the worker
  needs of the calls it makes, and both hold of \<open>PgInbox\<close> (\<open>Inbox_Store\<close>), by way of \<open>pg_frame\<close> (\<open>Inbox_Calls\<close>), which
  reduces a call to the effect of its statements.

  \<^bold>\<open>What the lemma groups show.\<close> \<open>Send_Safety\<close>: at most one hand-over per step outside the documented
  window. \<open>Claim_Facts\<close>: every outcome of a claim, atomicity of the permanent failure, repeatability
  of recovery. \<open>Handler_Facts\<close>: the chain of advances is never dropped, the transport is reached only
  with a won claim, and the reasons a run may stop an enrollment. \<open>Wake_Times\<close>,
  \<open>Steady_Clock\<close>: where the next send or retry lands, away from a change of the zone's offset, and that
  next to one it can leave the window. \<open>Graph_Routes\<close>: what validation accepts and
  that routes end. \<open>Route_Facts\<close>: a route once taken is taken again, is due when sent, and a wait ends
  inside the window of a zone with a fixed offset. \<open>Job_Facts\<close>, \<open>Pool_Facts\<close>: gates, pinning and eligibility, which a campaign without a pool does not check. \<open>Policy_Facts\<close>,
  \<open>Sweep_Facts\<close>: how a mailbox enters and leaves containment. \<open>Breaker_Facts\<close>: when the breaker
  pauses, what that stops, and how a complaint is honoured or lost. \<open>Schedule_Facts\<close>: a stored plan always
  compiles and every plan that compiles can be stored. \<open>Launch_Facts\<close>: a launch enrolls the whole list or
  nothing and places every send inside the window, away from a change of the zone's offset. \<open>Lifecycle\<close>: every campaign operation refines a machine
  of six transitions over status and launch time. \<open>Edit_Facts\<close>: whatever is edited, the graph of every campaign
  stays valid and every step keeps a copy that can be sent. \<open>Inbox_Facts\<close>:
  under labels that keep the flags each theorem names, an opt-out and a human reply hold for every later job
  and an automated reply only defers; a message reaches only the recipients of the sends it names, and the
  seeded labels act as the classes did. \<open>Inbox_Labels\<close>: what cleared flags let through. The lemmas named \<open>*_witness\<close> apply a
  property to a concrete input.

  \<^bold>\<open>Conventions.\<close> A column is a field, a nullable one an \<open>option\<close>; identifiers are 128-bit words, their
  text form is the parameter \<open>uuid_String\<close>. Integers of the source are \<open>int\<close>, wrapped where a
  conversion narrows them. An error of a statement is its text; a wrapped error keeps its cause
  and drops the message. Control-plane calls and a sweep over one participant are atomic between
  each other; within a call each statement may fail on its own. Worker clock and database clock are
  separate arguments, each read once per call. \<open>float64\<close> is the rounded-to-even value of exact
  operations on 53-bit significands with an unbounded exponent, without fused operations; the
  program's values stay far inside the exponent range. Loops are structural or have a measure;
  no fuel is used;
  the depth to which nested multipart bodies are read is the program's own bound.

  \<^bold>\<open>Parameters.\<close> SHA-256, the zone database, parsing and printing of ids and name-based ids, the
  random source of spin syntax, HTML rewriting for tracking, Unicode case tables, the public suffix
  list, DNS answers, JSON decoding, Postgres' \<open>lower\<close>, the credential opener, the mail
  transport, the parsers of \<open>mime\<close>, \<open>net/mail\<close> and \<open>net/textproto\<close> and the model that may classify a reply
  are arguments; nothing is assumed of them beyond the hypotheses a theorem names.

  \<^bold>\<open>Not modelled.\<close> Results, preflight, test sends and the sender panel of a campaign; HTTP handlers, authentication and the web client; the queue's Redis backend; mail
  protocols and provider APIs; the AI agent; CRM, reporting and audit; opening a mailbox, its
  cursors and the warmup mail found in it, and mail written by people; the volume and pairing of warmup mail and the
  choice of a worker host; the generated database layer beyond the statements above; migrations, metrics and
  logging. They are input and output, presentation, or call nothing of the sending path.
\<close>

end
